(* ===== verification/Prelude.thy ===== *)
theory Prelude
  imports Main "HOL-Library.Word" "HOL-Library.Monad_Syntax"
begin

text \<open>
  What every component of the development shares: the machine integer types, the
  reading of a C computation as an \<open>option\<close> value, arrays with checked access,
  bounded loops, and the rules that carry the proofs through them.

  A C operation that can go wrong (a NULL pointer is dereferenced, an array is accessed
  outside its bounds) is a function into \<open>option\<close>: \<^const>\<open>None\<close> is undefined
  behaviour, \<open>Some\<close> the result with the new state. \<open>returns m Q\<close> says that
  \<open>m\<close> does return and that its result satisfies \<open>Q\<close> (total correctness).
\<close>

declare One_nat_def [simp del]

section \<open>Machine integers\<close>

type_synonym u8 = "8 word"
type_synonym u16 = "16 word"
type_synonym u32 = "32 word"
type_synonym u64 = "64 word"

text \<open>The conversions of C between \<open>int\<close> (32 bits, two's complement) and \<open>u64\<close>.\<close>

definition u64_of_int :: "int \<Rightarrow> u64" where
  "u64_of_int i = word_of_int i"

definition int_of_u64 :: "u64 \<Rightarrow> int" where
  "int_of_u64 w = sint (ucast w :: u32)"

lemma uint_u64_of_int: "0 \<le> i \<Longrightarrow> i < 2 ^ 64 \<Longrightarrow> uint (u64_of_int i) = i"
  by (simp add: u64_of_int_def uint_word_of_int)

lemma u64_of_int_inj:
  assumes "0 \<le> i" "i < 2 ^ 31" "0 \<le> j" "j < 2 ^ 31" and eq: "u64_of_int i = u64_of_int j"
  shows "i = j"
proof -
  have "uint (u64_of_int i) = i" "uint (u64_of_int j) = j"
    using assms(1-4) by (auto intro: uint_u64_of_int)
  with eq show ?thesis by metis
qed

lemma u64_of_int_le_iff:
  "0 \<le> i \<Longrightarrow> i < 2 ^ 31 \<Longrightarrow> 0 \<le> j \<Longrightarrow> j < 2 ^ 31 \<Longrightarrow> (u64_of_int i \<le> u64_of_int j) = (i \<le> j)"
  by (simp add: word_le_def uint_u64_of_int)

lemma int_of_u64_of_int: "0 \<le> i \<Longrightarrow> i < 2 ^ 31 \<Longrightarrow> int_of_u64 (u64_of_int i) = i"
  by (simp add: int_of_u64_def u64_of_int_def ucast_eq uint_word_of_int sint_sbintrunc'
      signed_take_bit_int_eq_self take_bit_int_eq_self)

lemma u64_of_int_of_u64: "uint w < 2 ^ 31 \<Longrightarrow> u64_of_int (int_of_u64 w) = w"
proof -
  assume a: "uint w < 2 ^ 31"
  have "w = u64_of_int (uint w)" by (simp add: u64_of_int_def)
  then have "int_of_u64 w = uint w"
    using a int_of_u64_of_int [of "uint w"] by simp
  then show ?thesis by (simp add: u64_of_int_def)
qed

text \<open>\<^verbatim>\<open>int\<close> arithmetic that can leave the range wraps (the kernel is built so).\<close>

definition wrap32 :: "int \<Rightarrow> int" where
  "wrap32 i = signed_take_bit 31 i"

lemma wrap32_id: "- (2 ^ 31) \<le> i \<Longrightarrow> i < 2 ^ 31 \<Longrightarrow> wrap32 i = i"
  by (simp add: wrap32_def signed_take_bit_int_eq_self)

section \<open>Computations that return\<close>

definition returns :: "'a option \<Rightarrow> ('a \<Rightarrow> bool) \<Rightarrow> bool" where
  "returns m Q = (case m of None \<Rightarrow> False | Some x \<Rightarrow> Q x)"

named_theorems ret_intro \<open>introduction rules for \<^const>\<open>returns\<close>\<close>

lemma returns_Some [simp]: "returns (Some x) Q = Q x"
  by (simp add: returns_def)

lemma returns_None [simp]: "returns None Q = False"
  by (simp add: returns_def)

lemma returns_bind [simp]: "returns (m \<bind> f) Q = returns m (\<lambda>x. returns (f x) Q)"
  by (cases m) (simp_all add: returns_def)

lemma returns_iff: "returns m Q \<longleftrightarrow> (\<exists>x. m = Some x \<and> Q x)"
  by (cases m) (simp_all add: returns_def)

lemma returnsE:
  assumes "returns m Q"
  obtains x where "m = Some x" "Q x"
  using assms by (auto simp: returns_iff)

lemma returnsI: "m = Some x \<Longrightarrow> Q x \<Longrightarrow> returns m Q"
  by simp

lemma returns_mono: "returns m P \<Longrightarrow> (\<And>x. P x \<Longrightarrow> Q x) \<Longrightarrow> returns m Q"
  by (auto simp: returns_iff)

lemma returns_monoD: "returns m P \<Longrightarrow> (\<And>x. m = Some x \<Longrightarrow> P x \<Longrightarrow> Q x) \<Longrightarrow> returns m Q"
  by (auto simp: returns_iff)

lemma returns_conj: "returns m P \<Longrightarrow> returns m Q \<Longrightarrow> returns m (\<lambda>x. P x \<and> Q x)"
  by (auto simp: returns_iff)

lemma returns_if [simp]:
  "returns (if b then m else n) Q = (if b then returns m Q else returns n Q)"
  by simp

section \<open>Arrays with checked access\<close>

definition arr_get :: "'a list \<Rightarrow> nat \<Rightarrow> 'a option" where
  "arr_get xs i = (if i < length xs then Some (xs ! i) else None)"

definition arr_set :: "'a list \<Rightarrow> nat \<Rightarrow> 'a \<Rightarrow> 'a list option" where
  "arr_set xs i v = (if i < length xs then Some (xs[i := v]) else None)"

lemma arr_get_Some [simp]: "i < length xs \<Longrightarrow> arr_get xs i = Some (xs ! i)"
  by (simp add: arr_get_def)

lemma arr_set_Some [simp]: "i < length xs \<Longrightarrow> arr_set xs i v = Some (xs[i := v])"
  by (simp add: arr_set_def)

lemma arr_get_None [simp]: "length xs \<le> i \<Longrightarrow> arr_get xs i = None"
  by (simp add: arr_get_def)

lemma arr_set_None [simp]: "length xs \<le> i \<Longrightarrow> arr_set xs i v = None"
  by (simp add: arr_set_def)

lemma arr_get_eq_Some_iff: "arr_get xs i = Some x \<longleftrightarrow> i < length xs \<and> x = xs ! i"
  by (auto simp: arr_get_def)

lemma arr_set_eq_Some_iff: "arr_set xs i v = Some ys \<longleftrightarrow> i < length xs \<and> ys = xs[i := v]"
  by (auto simp: arr_set_def)

lemma nth_list_update_if:
  "i < length xs \<Longrightarrow> xs[i := v] ! j = (if j = i then v else xs ! j)"
  by (simp add: nth_list_update)

section \<open>Bounded loops\<close>

text \<open>\<open>for (x in xs) s = f(x, s)\<close>, stopping at the first undefined behaviour.\<close>

primrec foldM :: "('a \<Rightarrow> 's \<Rightarrow> 's option) \<Rightarrow> 'a list \<Rightarrow> 's \<Rightarrow> 's option" where
  "foldM f [] s = Some s"
| "foldM f (x # xs) s = f x s \<bind> foldM f xs"

lemma foldM_append: "foldM f (xs @ ys) s = foldM f xs s \<bind> foldM f ys"
  by (induction xs arbitrary: s) (auto split: bind_splits)

text \<open>The loop rule for \<open>for (i = a; i < b; i++)\<close>: an invariant that may mention the index.\<close>

lemma returns_foldM_upt:
  assumes "I a s" and "a \<le> b"
    and step: "\<And>i t. a \<le> i \<Longrightarrow> i < b \<Longrightarrow> I i t \<Longrightarrow> returns (f i t) (I (Suc i))"
  shows "returns (foldM f [a..<b] s) (I b)"
  using assms(1,2) step
proof (induction "b - a" arbitrary: a s)
  case 0
  then show ?case by simp
next
  case (Suc n)
  then have ab: "a < b" by simp
  have "returns (f a s) (I (Suc a))"
    using Suc.prems ab by simp
  then show ?case
  proof (rule returnsE)
    fix t assume t: "f a s = Some t" "I (Suc a) t"
    have "returns (foldM f [Suc a..<b] t) (I b)"
      using Suc.hyps(1)[of "Suc a" t] Suc.hyps(2) Suc.prems(3) t ab by simp
    then show ?thesis using t ab by (simp add: upt_conv_Cons)
  qed
qed

end
