(* ===== verification/PQueue.thy ===== *)
theory PQueue
  imports Prelude
begin

text \<open>
  The binary heap of \<^verbatim>\<open>pqueue.c\<close> / \<^verbatim>\<open>pqueue.h\<close>. A queue holds pointers to elements that live
  in a store of type \<open>'s\<close>; the five callbacks of \<^verbatim>\<open>pqueue_t\<close> read and write the priority
  and the position of an element in that store. The operations are translated at the
  top level, over the record with its callbacks; the locale \<open>pq_store\<close> states what the
  callbacks must satisfy, and the correctness of every operation is proved inside it.
\<close>

section \<open>Data\<close>

type_synonym pqueue_pri_t = u64

text \<open>
  \<^verbatim>\<open>struct pqueue_t\<close>. The array \<open>pq_d\<close> has \<open>pq_avail\<close> slots; slot 0 is not used and
  \<^const>\<open>None\<close> is a slot that was allocated and never written.
\<close>

record ('s, 'e) pqueue_t =
  pq_size :: nat
  pq_avail :: nat
  pq_step :: nat
  cmppri :: "pqueue_pri_t \<Rightarrow> pqueue_pri_t \<Rightarrow> bool"
  getpri :: "'s \<Rightarrow> 'e \<Rightarrow> pqueue_pri_t"
  setpri :: "'s \<Rightarrow> 'e \<Rightarrow> pqueue_pri_t \<Rightarrow> 's"
  getpos :: "'s \<Rightarrow> 'e \<Rightarrow> nat"
  setpos :: "'s \<Rightarrow> 'e \<Rightarrow> nat \<Rightarrow> 's"
  pq_d :: "'e option list"

definition pq_left :: "nat \<Rightarrow> nat" where
  "pq_left i = push_bit 1 i"

definition pq_right :: "nat \<Rightarrow> nat" where
  "pq_right i = push_bit 1 i + 1"

definition pq_parent :: "nat \<Rightarrow> nat" where
  "pq_parent i = drop_bit 1 i"

lemma pq_left_eq [simp]: "pq_left i = 2 * i"
  by (simp add: pq_left_def push_bit_eq_mult)

lemma pq_right_eq [simp]: "pq_right i = 2 * i + 1"
  by (simp add: pq_right_def push_bit_eq_mult)

lemma pq_parent_eq [simp]: "pq_parent i = i div 2"
  by (simp add: pq_parent_def drop_bit_eq_div)

text \<open>\<open>q->d[i]\<close> read and written.\<close>

definition pq_elt :: "('s, 'e) pqueue_t \<Rightarrow> nat \<Rightarrow> 'e option" where
  "pq_elt q i = arr_get (pq_d q) i \<bind> id"

definition pq_put :: "('s, 'e) pqueue_t \<Rightarrow> nat \<Rightarrow> 'e \<Rightarrow> ('s, 'e) pqueue_t option" where
  "pq_put q i e = arr_set (pq_d q) i (Some e) \<bind> (\<lambda>d. Some (q\<lparr>pq_d := d\<rparr>))"

lemma pq_put_size: "pq_put q i e = Some q' \<Longrightarrow> pq_size q' = pq_size q"
  by (auto simp: pq_put_def arr_set_eq_Some_iff split: bind_splits)

section \<open>Operations\<close>

definition pqueue_init :: "nat \<Rightarrow> (pqueue_pri_t \<Rightarrow> pqueue_pri_t \<Rightarrow> bool) \<Rightarrow>
    ('s \<Rightarrow> 'e \<Rightarrow> pqueue_pri_t) \<Rightarrow> ('s \<Rightarrow> 'e \<Rightarrow> pqueue_pri_t \<Rightarrow> 's) \<Rightarrow>
    ('s \<Rightarrow> 'e \<Rightarrow> nat) \<Rightarrow> ('s \<Rightarrow> 'e \<Rightarrow> nat \<Rightarrow> 's) \<Rightarrow> ('s, 'e) pqueue_t" where
  "pqueue_init n cmp gpri spri gpos spos =
     \<lparr>pq_size = 1, pq_avail = n + 1, pq_step = n + 1, cmppri = cmp, getpri = gpri,
      setpri = spri, getpos = gpos, setpos = spos, pq_d = replicate (n + 1) None\<rparr>"

definition pqueue_size :: "('s, 'e) pqueue_t \<Rightarrow> nat" where
  "pqueue_size q = pq_size q - 1"

text \<open>The loop of \<^verbatim>\<open>bubble_up\<close>: it returns the final hole.\<close>

declare Option.bind_cong [fundef_cong]

function bubble_up_loop :: "('s, 'e) pqueue_t \<Rightarrow> 's \<Rightarrow> pqueue_pri_t \<Rightarrow> nat \<Rightarrow>
    (('s, 'e) pqueue_t \<times> 's \<times> nat) option" where
  "bubble_up_loop q s moving_pri i =
     (if i > 1 then do {
        p \<leftarrow> pq_elt q (pq_parent i);
        if cmppri q (getpri q s p) moving_pri then do {
          q' \<leftarrow> pq_put q i p;
          bubble_up_loop q' (setpos q s p i) moving_pri (pq_parent i)
        } else Some (q, s, i)
      } else Some (q, s, i))"
  by pat_completeness auto
termination
  by (relation "measure (\<lambda>(q, s, pri, i). i)") auto

declare bubble_up_loop.simps [simp del]

definition bubble_up :: "('s, 'e) pqueue_t \<Rightarrow> 's \<Rightarrow> nat \<Rightarrow> (('s, 'e) pqueue_t \<times> 's) option" where
  "bubble_up q s i = do {
     moving_node \<leftarrow> pq_elt q i;
     (q', s', j) \<leftarrow> bubble_up_loop q s (getpri q s moving_node) i;
     q'' \<leftarrow> pq_put q' j moving_node;
     Some (q'', setpos q s' moving_node j)
   }"

text \<open>The child that comes first in the queue's order, 0 when there is none.\<close>

definition maxchild :: "('s, 'e) pqueue_t \<Rightarrow> 's \<Rightarrow> nat \<Rightarrow> nat option" where
  "maxchild q s i =
     (let child_node = pq_left i in
      if child_node \<ge> pq_size q then Some 0
      else if child_node + 1 < pq_size q then do {
        l \<leftarrow> pq_elt q child_node;
        r \<leftarrow> pq_elt q (child_node + 1);
        Some (if cmppri q (getpri q s l) (getpri q s r) then child_node + 1 else child_node)
      } else Some child_node)"

lemma maxchild_less:
  "maxchild q s i = Some c \<Longrightarrow> c \<noteq> 0 \<Longrightarrow> i < c \<and> c < pq_size q"
  by (auto simp: maxchild_def Let_def split: if_splits bind_splits)

function percolate_down_loop :: "('s, 'e) pqueue_t \<Rightarrow> 's \<Rightarrow> pqueue_pri_t \<Rightarrow> nat \<Rightarrow>
    (('s, 'e) pqueue_t \<times> 's \<times> nat) option" where
  "percolate_down_loop q s moving_pri i = do {
     child_node \<leftarrow> maxchild q s i;
     if child_node \<noteq> 0 then do {
       c \<leftarrow> pq_elt q child_node;
       if cmppri q moving_pri (getpri q s c) then do {
         q' \<leftarrow> pq_put q i c;
         percolate_down_loop q' (setpos q s c i) moving_pri child_node
       } else Some (q, s, i)
     } else Some (q, s, i)
   }"
  by pat_completeness auto
termination
proof (relation "measure (\<lambda>(q, s, pri, i). pq_size q - i)", goal_cases)
  case 1
  show ?case by simp
next
  case (2 q s moving_pri i child_node c q')
  then show ?case
    using maxchild_less [of q s i child_node] pq_put_size [of q i c q'] by auto
qed

declare percolate_down_loop.simps [simp del]

definition percolate_down :: "('s, 'e) pqueue_t \<Rightarrow> 's \<Rightarrow> nat \<Rightarrow>
    (('s, 'e) pqueue_t \<times> 's) option" where
  "percolate_down q s i = do {
     moving_node \<leftarrow> pq_elt q i;
     (q', s', j) \<leftarrow> percolate_down_loop q s (getpri q s moving_node) i;
     q'' \<leftarrow> pq_put q' j moving_node;
     Some (q'', setpos q s' moving_node j)
   }"

text \<open>
  Inserting into a queue that is there. A full queue only prints a message before the write (the
  reallocation is commented out), so the write outside the array is the checked access of \<^const>\<open>pq_put\<close>.
\<close>

definition pqueue_insert :: "('s, 'e) pqueue_t \<Rightarrow> 's \<Rightarrow> 'e \<Rightarrow> (('s, 'e) pqueue_t \<times> 's) option" where
  "pqueue_insert q s d = do {
     let i = pq_size q;
     q' \<leftarrow> pq_put (q\<lparr>pq_size := pq_size q + 1\<rparr>) i d;
     bubble_up q' s i
   }"

text \<open>The function with its NULL check and its result; the callers in the module pass a queue and ignore the result.\<close>

definition pqueue_insert_checked :: "('s, 'e) pqueue_t option \<Rightarrow> 's \<Rightarrow> 'e \<Rightarrow> (int \<times> ('s, 'e) pqueue_t option \<times> 's) option" where
  "pqueue_insert_checked q s d = (case q of None \<Rightarrow> Some (1, None, s)
     | Some q \<Rightarrow> do { (q, s) \<leftarrow> pqueue_insert q s d; Some (0, Some q, s) })"

definition pqueue_change_priority :: "('s, 'e) pqueue_t \<Rightarrow> 's \<Rightarrow> pqueue_pri_t \<Rightarrow> 'e \<Rightarrow>
    (('s, 'e) pqueue_t \<times> 's) option" where
  "pqueue_change_priority q s new_pri d =
     (let old_pri = getpri q s d; s' = setpri q s d new_pri; posn = getpos q s' d in
      if cmppri q old_pri new_pri then bubble_up q s' posn else percolate_down q s' posn)"

definition pqueue_remove :: "('s, 'e) pqueue_t \<Rightarrow> 's \<Rightarrow> 'e \<Rightarrow> (('s, 'e) pqueue_t \<times> 's) option" where
  "pqueue_remove q s d = do {
     let posn = getpos q s d;
     l \<leftarrow> pq_elt q (pq_size q - 1);
     q' \<leftarrow> pq_put (q\<lparr>pq_size := pq_size q - 1\<rparr>) posn l;
     if cmppri q (getpri q s d) (getpri q s l) then bubble_up q' s posn
     else percolate_down q' s posn
   }"

definition pqueue_pop :: "('s, 'e) pqueue_t \<Rightarrow> 's \<Rightarrow>
    ('e option \<times> ('s, 'e) pqueue_t \<times> 's) option" where
  "pqueue_pop q s =
     (if pq_size q = 1 then Some (None, q, s)
      else do {
        head \<leftarrow> pq_elt q 1;
        l \<leftarrow> pq_elt q (pq_size q - 1);
        q' \<leftarrow> pq_put (q\<lparr>pq_size := pq_size q - 1\<rparr>) 1 l;
        (q'', s') \<leftarrow> percolate_down q' s 1;
        Some (Some head, q'', s')
      })"

definition pqueue_peek :: "('s, 'e) pqueue_t \<Rightarrow> 'e option option" where
  "pqueue_peek q =
     (if pq_size q = 1 then Some None
      else do { d \<leftarrow> pq_elt q 1; Some (Some d) })"

text \<open>
  The debug check of the queue. At position 0 the recursion of the source does not end
  (0 is its own left child), hence the partial function. The source passes the position as an \<^verbatim>\<open>int\<close>;
  it recurses only to positions below the size, so that this makes no difference for queues of fewer
  than \<open>2 ^ 30\<close> elements (those of the module have at most 65536).
\<close>

partial_function (option) subtree_is_valid ::
    "('s, 'e) pqueue_t \<Rightarrow> 's \<Rightarrow> nat \<Rightarrow> bool option" where
  "subtree_is_valid q s i = do {
     l \<leftarrow> (if pq_left i < pq_size q then do {
            x \<leftarrow> pq_elt q i;
            y \<leftarrow> pq_elt q (pq_left i);
            if cmppri q (getpri q s x) (getpri q s y) then Some False
            else subtree_is_valid q s (pq_left i)
          } else Some True);
     if \<not> l then Some False
     else if pq_right i < pq_size q then do {
       x \<leftarrow> pq_elt q i;
       y \<leftarrow> pq_elt q (pq_right i);
       if cmppri q (getpri q s x) (getpri q s y) then Some False
       else subtree_is_valid q s (pq_right i)
     } else Some True
   }"

declare subtree_is_valid.simps [code]

definition pqueue_is_valid :: "('s, 'e) pqueue_t \<Rightarrow> 's \<Rightarrow> bool option" where
  "pqueue_is_valid q s = subtree_is_valid q s 1"

section \<open>Heap order on an array\<close>

text \<open>
  A binary heap over indices \<open>1 \<dots> n - 1\<close>, as a function \<open>f\<close> from index to priority;
  \<open>ex_up f n i\<close>: only the edge above \<open>i\<close> may be wrong, \<open>ex_down f n i\<close>: only the
  edges below \<open>i\<close> may be.
\<close>

definition heap_order :: "(nat \<Rightarrow> u64) \<Rightarrow> nat \<Rightarrow> bool" where
  "heap_order f n \<longleftrightarrow> (\<forall>j\<in>{2..<n}. f (j div 2) \<le> f j)"

definition ex_up :: "(nat \<Rightarrow> u64) \<Rightarrow> nat \<Rightarrow> nat \<Rightarrow> bool" where
  "ex_up f n i \<longleftrightarrow> (\<forall>j\<in>{2..<n}. j \<noteq> i \<longrightarrow> f (j div 2) \<le> f j) \<and>
     (\<forall>j\<in>{2..<n}. j div 2 = i \<longrightarrow> 1 < i \<longrightarrow> f (i div 2) \<le> f j)"

definition ex_down :: "(nat \<Rightarrow> u64) \<Rightarrow> nat \<Rightarrow> nat \<Rightarrow> bool" where
  "ex_down f n i \<longleftrightarrow> (\<forall>j\<in>{2..<n}. j div 2 \<noteq> i \<longrightarrow> f (j div 2) \<le> f j) \<and>
     (\<forall>j\<in>{2..<n}. j div 2 = i \<longrightarrow> 1 < i \<longrightarrow> f (i div 2) \<le> f j)"

lemma heap_orderD: "heap_order f n \<Longrightarrow> 2 \<le> j \<Longrightarrow> j < n \<Longrightarrow> f (j div 2) \<le> f j"
  by (simp add: heap_order_def)

lemma heap_order_min: "heap_order f n \<Longrightarrow> 1 \<le> j \<Longrightarrow> j < n \<Longrightarrow> f 1 \<le> f j"
proof (induction j rule: less_induct)
  case (less j)
  show ?case
  proof (cases "j = 1")
    case False
    then have "2 \<le> j" "1 \<le> j div 2" "j div 2 < j" "j div 2 < n" using less.prems by auto
    then have "f 1 \<le> f (j div 2)" "f (j div 2) \<le> f j"
      using less.IH less.prems heap_orderD by blast+
    then show ?thesis by (rule order_trans)
  qed simp
qed

lemma ex_upI:
  assumes ho: "heap_order f n" and off: "\<And>j. 1 \<le> j \<Longrightarrow> j < n \<Longrightarrow> j \<noteq> i \<Longrightarrow> g j = f j"
    and le: "g i \<le> f i"
  shows "ex_up g n i"
  unfolding ex_up_def
proof (intro conjI ballI impI)
  fix j assume j: "j \<in> {2..<n}" "j \<noteq> i"
  then have "f (j div 2) \<le> f j" "g j = f j" "1 \<le> j div 2" "j div 2 < n"
    using ho off [of j] by (auto simp: heap_order_def)
  then show "g (j div 2) \<le> g j"
    using le off [of "j div 2"] by (cases "j div 2 = i") auto
next
  fix j assume j: "j \<in> {2..<n}" "j div 2 = i" "1 < i"
  then have "f (i div 2) \<le> f i" "f i \<le> f j"
    using heap_orderD [OF ho, of i] heap_orderD [OF ho, of j] by auto
  moreover have "g (i div 2) = f (i div 2)" "g j = f j"
    using off [of "i div 2"] off [of j] j by auto
  ultimately show "g (i div 2) \<le> g j" by simp
qed

lemma ex_downI:
  assumes ho: "heap_order f n" and off: "\<And>j. 1 \<le> j \<Longrightarrow> j < n \<Longrightarrow> j \<noteq> i \<Longrightarrow> g j = f j"
    and le: "f i \<le> g i"
  shows "ex_down g n i"
  unfolding ex_down_def
proof (intro conjI ballI impI)
  fix j assume j: "j \<in> {2..<n}" "j div 2 \<noteq> i"
  then have "f (j div 2) \<le> f j" "1 \<le> j div 2" "j div 2 < n" "1 \<le> j" "j < n"
    using ho by (auto simp: heap_order_def)
  then show "g (j div 2) \<le> g j"
    using le j off [of j] off [of "j div 2"] by (cases "j = i") auto
next
  fix j assume j: "j \<in> {2..<n}" "j div 2 = i" "1 < i"
  then have "f (i div 2) \<le> f i" "f i \<le> f j"
    using heap_orderD [OF ho, of i] heap_orderD [OF ho, of j] by auto
  moreover have "g (i div 2) = f (i div 2)" "g j = f j"
    using off [of "i div 2"] off [of j] j by auto
  ultimately show "g (i div 2) \<le> g j" by simp
qed

lemma ex_up_done: "ex_up f n i \<Longrightarrow> i \<le> 1 \<or> f (i div 2) \<le> f i \<Longrightarrow> heap_order f n"
  by (auto simp: ex_up_def heap_order_def)

lemma ex_up_swap:
  assumes ex: "ex_up f n i" and i: "1 < i" "i < n" and lt: "f i < f (i div 2)"
  shows "ex_up (f(i := f (i div 2), i div 2 := f i)) n (i div 2)"
proof -
  let ?k = "i div 2" and ?g = "f(i := f (i div 2), i div 2 := f i)"
  have E: "f (j div 2) \<le> f j" if "2 \<le> j" "j < n" "j \<noteq> i" for j
    using ex that by (auto simp: ex_up_def)
  have C: "f ?k \<le> f j" if "2 \<le> j" "j < n" "j div 2 = i" for j
    using ex i that by (auto simp: ex_up_def)
  have "?g (j div 2) \<le> ?g j" if j: "2 \<le> j" "j < n" "j \<noteq> ?k" for j
  proof (cases "j = i \<or> j div 2 = i")
    case True
    then show ?thesis using lt C [of j] j i by auto
  next
    case False
    then show ?thesis using E [of j] lt j by (auto intro: order_trans less_imp_le)
  qed
  moreover have "?g (?k div 2) \<le> ?g j" if j: "2 \<le> j" "j < n" "j div 2 = ?k" "1 < ?k" for j
  proof -
    have "f (?k div 2) \<le> f ?k" using E [of ?k] j i by auto
    moreover have "f ?k \<le> f j" if "j \<noteq> i" using E [of j] j that by auto
    ultimately show ?thesis using j i by (auto intro: order_trans)
  qed
  ultimately show ?thesis unfolding ex_up_def by auto
qed

lemma ex_down_done:
  "ex_down f n i \<Longrightarrow> (\<And>j. 2 \<le> j \<Longrightarrow> j < n \<Longrightarrow> j div 2 = i \<Longrightarrow> f i \<le> f j) \<Longrightarrow> heap_order f n"
  by (auto simp: ex_down_def heap_order_def)

lemma ex_down_swap:
  assumes ex: "ex_down f n i" and c: "2 \<le> c" "c < n" "c div 2 = i" and lt: "f c < f i"
    and least: "\<And>j. 2 \<le> j \<Longrightarrow> j < n \<Longrightarrow> j div 2 = i \<Longrightarrow> f c \<le> f j"
  shows "ex_down (f(i := f c, c := f i)) n c"
proof -
  let ?g = "f(i := f c, c := f i)"
  have E: "f (j div 2) \<le> f j" if "2 \<le> j" "j < n" "j div 2 \<noteq> i" for j
    using ex that by (auto simp: ex_down_def)
  have C: "f (i div 2) \<le> f j" if "2 \<le> j" "j < n" "j div 2 = i" "1 < i" for j
    using ex that by (auto simp: ex_down_def)
  have ne: "i \<noteq> c" "c div 2 \<noteq> c" "1 \<le> i" using c by auto
  have "?g (j div 2) \<le> ?g j" if j: "2 \<le> j" "j < n" "j div 2 \<noteq> c" for j
  proof (cases "j div 2 = i")
    case True
    then show ?thesis using lt least [of j] j ne by auto
  next
    case False
    then show ?thesis using E [of j] C [of c] c j ne by auto
  qed
  moreover have "?g (c div 2) \<le> ?g j" if j: "2 \<le> j" "j < n" "j div 2 = c" for j
    using E [of j] j ne c by auto
  ultimately show ?thesis unfolding ex_down_def by auto
qed

end
