(* ===== verification/FTL_Types.thy ===== *)
theory FTL_Types
  imports Complex_Main PQueue "HOL-Library.Numeral_Type"
begin

text \<open>
  The data of the flash translation layer, \<^verbatim>\<open>ftl.h\<close>: physical page addresses with their
  bit fields and their 64-bit view, the NAND geometry from sector to channel, the
  parameters, lines (super blocks), the write pointer, line management and the device.
\<close>

unbundle bit_operations_syntax

section \<open>Physical page addresses\<close>

text \<open>
  \<^verbatim>\<open>struct ppa\<close> is a union of bit fields and a 64-bit word. The record holds the fields
  at their widths; \<open>ppa_bits\<close> and \<open>ppa_of_bits\<close> are the other member of the union, with
  the first field in the least significant bits, as the compilers of the kernel's targets
  lay them out.
\<close>

record ppa =
  g_blk :: "16 word"
  g_pg :: "16 word"
  g_sec :: "8 word"
  g_pl :: "8 word"
  g_lun :: "8 word"
  g_ch :: "7 word"
  g_rsv :: "1 word"

definition ppa_bits :: "ppa \<Rightarrow> u64" where
  "ppa_bits p =
     ucast (g_blk p) OR push_bit 16 (ucast (g_pg p)) OR push_bit 32 (ucast (g_sec p)) OR
     push_bit 40 (ucast (g_pl p)) OR push_bit 48 (ucast (g_lun p)) OR
     push_bit 56 (ucast (g_ch p)) OR push_bit 63 (ucast (g_rsv p))"

definition ppa_of_bits :: "u64 \<Rightarrow> ppa" where
  "ppa_of_bits w =
     \<lparr>g_blk = ucast w, g_pg = ucast (drop_bit 16 w), g_sec = ucast (drop_bit 32 w),
      g_pl = ucast (drop_bit 40 w), g_lun = ucast (drop_bit 48 w),
      g_ch = ucast (drop_bit 56 w), g_rsv = ucast (drop_bit 63 w)\<rparr>"

definition INVALID_PPA :: u64 where "INVALID_PPA = NOT 0"
definition INVALID_LPN :: u64 where "INVALID_LPN = NOT 0"
definition UNMAPPED_PPA :: u64 where "UNMAPPED_PPA = NOT 0"

definition NAND_READ :: int where "NAND_READ = 0"
definition NAND_WRITE :: int where "NAND_WRITE = 1"
definition NAND_ERASE :: int where "NAND_ERASE = 2"
definition NAND_READ_LATENCY :: int where "NAND_READ_LATENCY = 10000"
definition NAND_PROG_LATENCY :: int where "NAND_PROG_LATENCY = 10000"
definition NAND_ERASE_LATENCY :: int where "NAND_ERASE_LATENCY = 2000000"
definition USER_IO :: int where "USER_IO = 0"
definition GC_IO :: int where "GC_IO = 1"

datatype sec_status = SEC_FREE | SEC_INVALID | SEC_VALID
datatype pg_status = PG_FREE | PG_INVALID | PG_VALID

section \<open>NAND geometry\<close>

record nand_page =
  pg_sec :: "sec_status list"
  pg_nsecs :: int
  pg_stat :: pg_status

record nand_block =
  blk_pg :: "nand_page list"
  blk_npgs :: int
  blk_ipc :: int
  blk_vpc :: int
  blk_erase_cnt :: int
  blk_wp :: int

record nand_plane =
  pl_blk :: "nand_block list"
  pl_nblks :: int

text \<open>\<open>gc_endtime\<close> is \<^const>\<open>None\<close> until it is first written: the allocation leaves it undefined.\<close>

record nand_lun =
  lun_pl :: "nand_plane list"
  lun_npls :: int
  next_lun_avail_time :: u64
  lun_busy :: bool
  lun_gc_endtime :: "u64 option"

record ssd_channel =
  ch_lun :: "nand_lun list"
  ch_nluns :: int
  next_ch_avail_time :: u64
  ch_busy :: bool
  ch_gc_endtime :: "u64 option"

section \<open>Parameters\<close>

text \<open>
  \<^verbatim>\<open>struct ssdparams\<close>. C \<open>int\<close>s are integers here; that none of the values computed by
  \<open>ssd_init_params\<close> leaves the 32-bit range is a property of the development. The
  \<open>double\<close> percentages are rationals.
\<close>

record ssdparams =
  secsz :: int
  secs_per_pg :: int
  pgs_per_blk :: int
  blks_per_pl :: int
  pls_per_lun :: int
  luns_per_ch :: int
  nchs :: int
  pg_rd_lat :: int
  pg_wr_lat :: int
  blk_er_lat :: int
  ch_xfer_lat :: int
  gc_thres_pcent :: rat
  gc_thres_lines :: int
  gc_thres_pcent_high :: rat
  gc_thres_lines_high :: int
  enable_gc_delay :: bool
  op_area_pcent :: rat
  secs_per_blk :: int
  secs_per_pl :: int
  secs_per_lun :: int
  secs_per_ch :: int
  tt_secs :: int
  pgs_per_pl :: int
  pgs_per_lun :: int
  pgs_per_ch :: int
  tt_pgs :: int
  blks_per_lun :: int
  blks_per_ch :: int
  tt_blks :: int
  secs_per_line :: int
  pgs_per_line :: int
  blks_per_line :: int
  tt_lines :: int
  pls_per_ch :: int
  tt_pls :: int
  tt_luns :: int
  pba_pcent :: int

section \<open>Lines, write pointer, device\<close>

record line =
  line_id :: int
  line_ipc :: int
  line_vpc :: int
  line_pos :: nat

text \<open>
  A \<^verbatim>\<open>struct line *\<close> is an index into \<open>lm_lines\<close>, \<^const>\<open>None\<close> the NULL pointer. The two
  \<^verbatim>\<open>QTAILQ\<close> lists are lists of such indices, head first.
\<close>

record write_pointer =
  wp_curline :: "nat option"
  wp_ch :: int
  wp_lun :: int
  wp_pg :: int
  wp_blk :: int
  wp_pl :: int

record line_mgmt =
  lm_lines :: "line list"
  free_line_list :: "nat list"
  victim_line_pq :: "(line list, nat) pqueue_t"
  full_line_list :: "nat list"
  lm_tt_lines :: int
  free_line_cnt :: int
  victim_line_cnt :: int
  full_line_cnt :: int

record nand_cmd =
  nc_type :: int
  nc_cmd :: int
  nc_stime :: u64

text \<open>
  What the kernel log receives: the source line of an assertion that failed
  (\<^verbatim>\<open>NVMEV_ASSERT\<close> only prints) and of an error message.
\<close>

datatype klog_entry = AssertFailed nat | ErrorMsg nat

text \<open>
  \<^verbatim>\<open>struct ssd\<close>, with the surroundings the code uses: \<open>ssd_ioclock n\<close> is the value of the
  \<open>n\<close>-th call of \<^verbatim>\<open>cpu_clock\<close> and \<open>ssd_nclock\<close> counts the calls, \<open>ssd_stack_ppa\<close> is what an
  uninitialised \<^verbatim>\<open>struct ppa\<close> on the stack holds, \<open>ssd_klog\<close> is the kernel log.
\<close>

record ssd =
  ssd_sp :: ssdparams
  ssd_ch :: "ssd_channel list"
  ssd_maptbl :: "ppa list"
  ssd_rmap :: "u64 list"
  ssd_wp :: write_pointer
  ssd_lm :: line_mgmt
  cpu_nr_dispatcher :: u32
  ssd_ioclock :: "nat \<Rightarrow> u64"
  ssd_nclock :: nat
  ssd_stack_ppa :: ppa
  ssd_klog :: "klog_entry list"

definition nvmev_assert :: "nat \<Rightarrow> bool \<Rightarrow> ssd \<Rightarrow> ssd" where
  "nvmev_assert l b s = (if b then s else s\<lparr>ssd_klog := ssd_klog s @ [AssertFailed l]\<rparr>)"

definition nvmev_error :: "nat \<Rightarrow> ssd \<Rightarrow> ssd" where
  "nvmev_error l s = s\<lparr>ssd_klog := ssd_klog s @ [ErrorMsg l]\<rparr>"

lemma nvmev_assert_True [simp]: "nvmev_assert l True s = s"
  by (simp add: nvmev_assert_def)

section \<open>The union of \<open>struct ppa\<close>\<close>

lemma ppa_bits_of_bits: "ppa_bits (ppa_of_bits w) = w"
proof (rule bit_word_eqI)
  fix n assume n: "n < LENGTH(64)"
  then consider "n < 16" | "16 \<le> n \<and> n < 32" | "32 \<le> n \<and> n < 40" | "40 \<le> n \<and> n < 48"
    | "48 \<le> n \<and> n < 56" | "56 \<le> n \<and> n < 63" | "n = 63" by fastforce
  then show "bit (ppa_bits (ppa_of_bits w)) n = bit w n"
    by cases (auto simp: ppa_bits_def ppa_of_bits_def bit_simps)
qed

lemma ppa_of_bits_bits: "ppa_of_bits (ppa_bits p) = p"
proof (cases p)
  case (fields b g s pl l c r)
  have "ucast (ppa_bits p) = b"
    by (rule bit_word_eqI) (auto simp: fields ppa_bits_def bit_simps)
  moreover have "ucast (drop_bit 16 (ppa_bits p)) = g"
    by (rule bit_word_eqI) (auto simp: fields ppa_bits_def bit_simps dest: bit_imp_le_length)
  moreover have "ucast (drop_bit 32 (ppa_bits p)) = s"
    by (rule bit_word_eqI) (auto simp: fields ppa_bits_def bit_simps dest: bit_imp_le_length)
  moreover have "ucast (drop_bit 40 (ppa_bits p)) = pl"
    by (rule bit_word_eqI) (auto simp: fields ppa_bits_def bit_simps dest: bit_imp_le_length)
  moreover have "ucast (drop_bit 48 (ppa_bits p)) = l"
    by (rule bit_word_eqI) (auto simp: fields ppa_bits_def bit_simps dest: bit_imp_le_length)
  moreover have "ucast (drop_bit 56 (ppa_bits p)) = c"
    by (rule bit_word_eqI) (auto simp: fields ppa_bits_def bit_simps dest: bit_imp_le_length)
  moreover have "ucast (drop_bit 63 (ppa_bits p)) = r"
    by (rule bit_word_eqI) (auto simp: fields ppa_bits_def bit_simps dest: bit_imp_le_length)
  ultimately show ?thesis by (simp add: ppa_of_bits_def fields)
qed

lemma ppa_bits_inj: "ppa_bits p = ppa_bits q \<Longrightarrow> p = q"
  by (metis ppa_of_bits_bits)

lemma ppa_bits_rsv: "bit (ppa_bits p) 63 = bit (g_rsv p) 0"
  by (auto simp: ppa_bits_def bit_simps dest: bit_imp_le_length)

end
