(* ===== verification/NVMe.thy ===== *)
theory NVMe
  imports Prelude
begin

text \<open>
  The command and completion entries of \<^verbatim>\<open>nvme.h\<close>. \<^verbatim>\<open>struct nvme_command\<close> is a union of
  64 bytes; the record is its \<^verbatim>\<open>nvme_common_command\<close> member, and the other members are
  functions that read the same bytes (the machine is little endian).
\<close>

unbundle bit_operations_syntax

record nvme_command =
  opcode :: u8
  cmd_flags :: u8
  command_id :: u16
  nsid :: u32
  cdw2 :: u32
  cdw3 :: u32
  metadata :: u64
  prp1 :: u64
  prp2 :: u64
  cdw10 :: u32
  cdw11 :: u32
  cdw12 :: u32
  cdw13 :: u32
  cdw14 :: u32
  cdw15 :: u32

definition lo16 :: "u32 \<Rightarrow> u16" where
  "lo16 w = ucast w"

definition hi16 :: "u32 \<Rightarrow> u16" where
  "hi16 w = ucast (drop_bit 16 w)"

text \<open>\<^verbatim>\<open>struct nvme_rw_command\<close>\<close>

definition rw_slba :: "nvme_command \<Rightarrow> u64" where
  "rw_slba c = ucast (cdw10 c) OR push_bit 32 (ucast (cdw11 c))"

definition rw_length :: "nvme_command \<Rightarrow> u16" where
  "rw_length c = lo16 (cdw12 c)"

text \<open>\<^verbatim>\<open>struct nvme_identify\<close> and \<^verbatim>\<open>struct nvme_features\<close>\<close>

definition identify_cns :: "nvme_command \<Rightarrow> u32" where
  "identify_cns c = cdw10 c"

definition features_fid :: "nvme_command \<Rightarrow> u32" where
  "features_fid c = cdw10 c"

definition features_dword11 :: "nvme_command \<Rightarrow> u32" where
  "features_dword11 c = cdw11 c"

text \<open>\<^verbatim>\<open>struct nvme_create_cq\<close>, \<^verbatim>\<open>struct nvme_create_sq\<close> and \<^verbatim>\<open>struct nvme_delete_queue\<close>\<close>

definition create_cq_cqid :: "nvme_command \<Rightarrow> u16" where
  "create_cq_cqid c = lo16 (cdw10 c)"

definition create_cq_qsize :: "nvme_command \<Rightarrow> u16" where
  "create_cq_qsize c = hi16 (cdw10 c)"

definition create_cq_flags :: "nvme_command \<Rightarrow> u16" where
  "create_cq_flags c = lo16 (cdw11 c)"

definition create_cq_irq_vector :: "nvme_command \<Rightarrow> u16" where
  "create_cq_irq_vector c = hi16 (cdw11 c)"

definition create_sq_sqid :: "nvme_command \<Rightarrow> u16" where
  "create_sq_sqid c = lo16 (cdw10 c)"

definition create_sq_qsize :: "nvme_command \<Rightarrow> u16" where
  "create_sq_qsize c = hi16 (cdw10 c)"

definition create_sq_flags :: "nvme_command \<Rightarrow> u16" where
  "create_sq_flags c = lo16 (cdw11 c)"

definition create_sq_cqid :: "nvme_command \<Rightarrow> u16" where
  "create_sq_cqid c = hi16 (cdw11 c)"

definition delete_queue_qid :: "nvme_command \<Rightarrow> u16" where
  "delete_queue_qid c = lo16 (cdw10 c)"

text \<open>\<^verbatim>\<open>struct nvme_completion\<close>\<close>

record nvme_completion =
  cqe_result :: u32
  cqe_rsvd :: u32
  cqe_sq_head :: u16
  cqe_sq_id :: u16
  cqe_command_id :: u16
  cqe_status :: u16

text \<open>Opcodes, feature identifiers and status codes the code uses.\<close>

definition nvme_cmd_flush :: u8 where "nvme_cmd_flush = 0x00"
definition nvme_cmd_write :: u8 where "nvme_cmd_write = 0x01"
definition nvme_cmd_read :: u8 where "nvme_cmd_read = 0x02"

definition nvme_admin_delete_sq :: u8 where "nvme_admin_delete_sq = 0x00"
definition nvme_admin_create_sq :: u8 where "nvme_admin_create_sq = 0x01"
definition nvme_admin_get_log_page :: u8 where "nvme_admin_get_log_page = 0x02"
definition nvme_admin_delete_cq :: u8 where "nvme_admin_delete_cq = 0x04"
definition nvme_admin_create_cq :: u8 where "nvme_admin_create_cq = 0x05"
definition nvme_admin_identify :: u8 where "nvme_admin_identify = 0x06"
definition nvme_admin_abort_cmd :: u8 where "nvme_admin_abort_cmd = 0x08"
definition nvme_admin_set_features :: u8 where "nvme_admin_set_features = 0x09"
definition nvme_admin_get_features :: u8 where "nvme_admin_get_features = 0x0a"
definition nvme_admin_async_event :: u8 where "nvme_admin_async_event = 0x0c"

definition NVME_QUEUE_PHYS_CONTIG :: u16 where "NVME_QUEUE_PHYS_CONTIG = 1"
definition NVME_CQ_IRQ_ENABLED :: u16 where "NVME_CQ_IRQ_ENABLED = 2"
definition NVME_FEAT_NUM_QUEUES :: u32 where "NVME_FEAT_NUM_QUEUES = 0x07"

definition NVME_SC_SUCCESS :: nat where "NVME_SC_SUCCESS = 0x0"
definition NVME_SC_INVALID_FIELD :: nat where "NVME_SC_INVALID_FIELD = 0x2"
definition NVME_SC_ASYNC_LIMIT :: nat where "NVME_SC_ASYNC_LIMIT = 0x105"

end
