(* ===== verification/FTL.thy ===== *)
theory FTL
  imports FTL_Types NVMe
begin

text \<open>
  The flash translation layer, \<^verbatim>\<open>ftl.c\<close>, function by function in the order of the file
  (a helper stands before its first use). A function that only reads and may log returns
  its value with the state; one that dereferences or indexes is a function into
  \<open>option\<close>. \<^verbatim>\<open>NVMEV_JH\<close> and \<^verbatim>\<open>NVMEV_DEBUG\<close> expand to nothing in the built module.
\<close>

section \<open>Thresholds and tables\<close>

definition get_ioclock :: "ssd \<Rightarrow> u64 \<times> ssd" where
  "get_ioclock s = (ssd_ioclock s (ssd_nclock s), s\<lparr>ssd_nclock := ssd_nclock s + 1\<rparr>)"

definition should_gc :: "ssd \<Rightarrow> bool" where
  "should_gc s = (free_line_cnt (ssd_lm s) \<le> gc_thres_lines (ssd_sp s))"

definition should_gc_high :: "ssd \<Rightarrow> bool" where
  "should_gc_high s = (free_line_cnt (ssd_lm s) \<le> gc_thres_lines_high (ssd_sp s))"

definition get_maptbl_ent :: "ssd \<Rightarrow> u64 \<Rightarrow> ppa option" where
  "get_maptbl_ent s lpn = arr_get (ssd_maptbl s) (unat lpn)"

definition set_maptbl_ent :: "ssd \<Rightarrow> u64 \<Rightarrow> ppa \<Rightarrow> ssd option" where
  "set_maptbl_ent s lpn p = do {
     let s = nvmev_assert 31 (lpn < u64_of_int (tt_pgs (ssd_sp s))) s;
     m \<leftarrow> arr_set (ssd_maptbl s) (unat lpn) p;
     Some (s\<lparr>ssd_maptbl := m\<rparr>)
   }"

definition ppa2pgidx :: "ssd \<Rightarrow> ppa \<Rightarrow> u64 \<times> ssd" where
  "ppa2pgidx s p =
     (let spp = ssd_sp s;
          pgidx = u64_of_int (uint (g_ch p) * pgs_per_ch spp + uint (g_lun p) * pgs_per_lun spp +
                    uint (g_pl p) * pgs_per_pl spp + uint (g_blk p) * pgs_per_blk spp +
                    uint (g_pg p))
      in (pgidx, nvmev_assert 49 (pgidx < u64_of_int (tt_pgs spp)) s))"

definition get_rmap_ent :: "ssd \<Rightarrow> ppa \<Rightarrow> (u64 \<times> ssd) option" where
  "get_rmap_ent s p = do {
     let (pgidx, s) = ppa2pgidx s p;
     lpn \<leftarrow> arr_get (ssd_rmap s) (unat pgidx);
     Some (lpn, s)
   }"

definition set_rmap_ent :: "ssd \<Rightarrow> u64 \<Rightarrow> ppa \<Rightarrow> ssd option" where
  "set_rmap_ent s lpn p = do {
     let (pgidx, s) = ppa2pgidx s p;
     r \<leftarrow> arr_set (ssd_rmap s) (unat pgidx) lpn;
     Some (s\<lparr>ssd_rmap := r\<rparr>)
   }"

section \<open>Lines and the write pointer\<close>

text \<open>
  The callbacks of the victim queue. The priority of a line is its count of valid pages,
  an \<open>int\<close> read as \<^verbatim>\<open>unsigned long long\<close>. A \<^verbatim>\<open>struct line *\<close> always comes from \<open>lm_lines\<close>
  (through \<open>get_line\<close>, which checks the index), so the callbacks index without a check.
\<close>

definition victim_line_cmp_pri :: "pqueue_pri_t \<Rightarrow> pqueue_pri_t \<Rightarrow> bool" where
  "victim_line_cmp_pri next cur = (cur < next)"

definition victim_line_get_pri :: "line list \<Rightarrow> nat \<Rightarrow> pqueue_pri_t" where
  "victim_line_get_pri ls a = u64_of_int (line_vpc (ls ! a))"

definition victim_line_set_pri :: "line list \<Rightarrow> nat \<Rightarrow> pqueue_pri_t \<Rightarrow> line list" where
  "victim_line_set_pri ls a pri = ls[a := (ls ! a)\<lparr>line_vpc := int_of_u64 pri\<rparr>]"

definition victim_line_get_pos :: "line list \<Rightarrow> nat \<Rightarrow> nat" where
  "victim_line_get_pos ls a = line_pos (ls ! a)"

definition victim_line_set_pos :: "line list \<Rightarrow> nat \<Rightarrow> nat \<Rightarrow> line list" where
  "victim_line_set_pos ls a pos = ls[a := (ls ! a)\<lparr>line_pos := pos\<rparr>]"

text \<open>The loop of \<open>ssd_init_lines\<close> fills the freshly allocated array slot by slot.\<close>

definition ssd_init_lines :: "ssd \<Rightarrow> ssd" where
  "ssd_init_lines s =
     (let spp = ssd_sp s;
          tt = blks_per_pl spp;
          s = nvmev_assert 102 (tt = tt_lines spp) s;
          lm0 = \<lparr>lm_lines = [], free_line_list = [],
                 victim_line_pq = pqueue_init (nat (tt_lines spp)) victim_line_cmp_pri
                   victim_line_get_pri victim_line_set_pri victim_line_get_pos victim_line_set_pos,
                 full_line_list = [], lm_tt_lines = tt, free_line_cnt = 0,
                 victim_line_cnt = victim_line_cnt (ssd_lm s), full_line_cnt = full_line_cnt (ssd_lm s)\<rparr>;
          lm1 = fold (\<lambda>i lm. lm\<lparr>lm_lines := lm_lines lm @
                    [\<lparr>line_id = int i, line_ipc = 0, line_vpc = 0, line_pos = 0\<rparr>],
                    free_line_list := free_line_list lm @ [i],
                    free_line_cnt := free_line_cnt lm + 1\<rparr>) [0..<nat tt] lm0;
          s = nvmev_assert 123 (free_line_cnt lm1 = lm_tt_lines lm1) s
      in s\<lparr>ssd_lm := lm1\<lparr>victim_line_cnt := 0, full_line_cnt := 0\<rparr>\<rparr>)"

definition ssd_init_write_pointer :: "ssd \<Rightarrow> ssd option" where
  "ssd_init_write_pointer s =
     (let lm = ssd_lm s in
      case free_line_list lm of
        [] \<Rightarrow> None
      | curline # ls \<Rightarrow> Some (s\<lparr>
          ssd_lm := lm\<lparr>free_line_list := ls, free_line_cnt := free_line_cnt lm - 1\<rparr>,
          ssd_wp := \<lparr>wp_curline = Some curline, wp_ch = 0, wp_lun = 0, wp_pg = 0, wp_blk = 0, wp_pl = 0\<rparr>\<rparr>))"

definition check_addr :: "int \<Rightarrow> int \<Rightarrow> ssd \<Rightarrow> ssd" where
  "check_addr a m s = nvmev_assert 149 (0 \<le> a \<and> a < m) s"

definition get_next_free_line :: "ssd \<Rightarrow> nat option \<times> ssd" where
  "get_next_free_line s =
     (let lm = ssd_lm s in
      case free_line_list lm of
        [] \<Rightarrow> (None, nvmev_error 159 s)
      | curline # ls \<Rightarrow> (Some curline,
          s\<lparr>ssd_lm := lm\<lparr>free_line_list := ls, free_line_cnt := free_line_cnt lm - 1\<rparr>\<rparr>))"

text \<open>
  \<^verbatim>\<open>ssd_advance_write_pointer\<close>, innermost first: a line enters the victim queue; the current
  line moves to the full or the victim lines; a free line becomes the current one; the
  three nested counters.
\<close>

definition victim_insert :: "ssd \<Rightarrow> nat \<Rightarrow> ssd option" where
  "victim_insert s i = do {
     let lm = ssd_lm s;
     (q, ls) \<leftarrow> pqueue_insert (victim_line_pq lm) (lm_lines lm) i;
     Some (s\<lparr>ssd_lm := lm\<lparr>victim_line_pq := q, lm_lines := ls,
                           victim_line_cnt := victim_line_cnt lm + 1\<rparr>\<rparr>)
   }"

definition wp_retire_line :: "ssd \<Rightarrow> ssd option" where
  "wp_retire_line s = do {
     let lm = ssd_lm s;
     let ppl = pgs_per_line (ssd_sp s);
     i \<leftarrow> wp_curline (ssd_wp s);
     l \<leftarrow> arr_get (lm_lines lm) i;
     if line_vpc l = ppl then do {
       let s = nvmev_assert 194 (line_ipc l = 0) s;
       Some (s\<lparr>ssd_lm := lm\<lparr>full_line_list := full_line_list lm @ [i],
                             full_line_cnt := full_line_cnt lm + 1\<rparr>\<rparr>)
     } else do {
       let s = nvmev_assert 200 (0 \<le> line_vpc l \<and> line_vpc l < ppl) s;
       let s = nvmev_assert 202 (0 < line_ipc l) s;
       victim_insert s i
     }
   }"

definition wp_next_line :: "ssd \<Rightarrow> ssd option" where
  "wp_next_line s = do {
     let s = check_addr (wp_blk (ssd_wp s)) (blks_per_pl (ssd_sp s)) s;
     let s = s\<lparr>ssd_wp := (ssd_wp s)\<lparr>wp_curline := None\<rparr>\<rparr>;
     let (c, s) = get_next_free_line s;
     let s = s\<lparr>ssd_wp := (ssd_wp s)\<lparr>wp_curline := c\<rparr>\<rparr>;
     let s = (if c = None then nvmev_error 212 s else s);
     i \<leftarrow> c;
     l \<leftarrow> arr_get (lm_lines (ssd_lm s)) i;
     let s = s\<lparr>ssd_wp := (ssd_wp s)\<lparr>wp_blk := line_id l\<rparr>\<rparr>;
     let s = check_addr (wp_blk (ssd_wp s)) (blks_per_pl (ssd_sp s)) s;
     let s = nvmev_assert 218 (wp_pg (ssd_wp s) = 0) s;
     let s = nvmev_assert 219 (wp_lun (ssd_wp s) = 0) s;
     let s = nvmev_assert 220 (wp_ch (ssd_wp s) = 0) s;
     Some (nvmev_assert 222 (wp_pl (ssd_wp s) = 0) s)
   }"

definition ssd_advance_write_pointer :: "ssd \<Rightarrow> ssd option" where
  "ssd_advance_write_pointer s =
     (let spp = ssd_sp s;
          s = check_addr (wp_ch (ssd_wp s)) (nchs spp) s;
          s = s\<lparr>ssd_wp := (ssd_wp s)\<lparr>wp_ch := wp_ch (ssd_wp s) + 1\<rparr>\<rparr>
      in if wp_ch (ssd_wp s) = nchs spp then
        let s = s\<lparr>ssd_wp := (ssd_wp s)\<lparr>wp_ch := 0\<rparr>\<rparr>;
            s = check_addr (wp_lun (ssd_wp s)) (luns_per_ch spp) s;
            s = s\<lparr>ssd_wp := (ssd_wp s)\<lparr>wp_lun := wp_lun (ssd_wp s) + 1\<rparr>\<rparr>
        in if wp_lun (ssd_wp s) = luns_per_ch spp then
          let s = s\<lparr>ssd_wp := (ssd_wp s)\<lparr>wp_lun := 0\<rparr>\<rparr>;
              s = check_addr (wp_pg (ssd_wp s)) (pgs_per_blk spp) s;
              s = s\<lparr>ssd_wp := (ssd_wp s)\<lparr>wp_pg := wp_pg (ssd_wp s) + 1\<rparr>\<rparr>
          in if wp_pg (ssd_wp s) = pgs_per_blk spp then do {
               s \<leftarrow> wp_retire_line (s\<lparr>ssd_wp := (ssd_wp s)\<lparr>wp_pg := 0\<rparr>\<rparr>);
               wp_next_line s
             } else Some s
        else Some s
      else Some s)"

definition get_new_page :: "ssd \<Rightarrow> ppa \<times> ssd" where
  "get_new_page s =
     (let wpp = ssd_wp s;
          p = (ppa_of_bits 0)\<lparr>g_ch := word_of_int (wp_ch wpp), g_lun := word_of_int (wp_lun wpp),
                g_pg := word_of_int (wp_pg wpp), g_blk := word_of_int (wp_blk wpp),
                g_pl := word_of_int (wp_pl wpp)\<rparr>
      in (p, nvmev_assert 241 (g_pl p = 0) s))"

section \<open>Initialisation\<close>

definition c_trunc :: "rat \<Rightarrow> int" where
  "c_trunc x = (if x < 0 then - \<lfloor>- x\<rfloor> else \<lfloor>x\<rfloor>)"

definition ssd_init_params :: "int \<Rightarrow> ssdparams" where
  "ssd_init_params n =
     (let secs_pg = 8; pgs_blk = 256; blks_pl = 256; pls_lun = 1; luns_ch = 8;
          s_blk = secs_pg * pgs_blk;
          s_pl = s_blk * blks_pl;
          s_lun = s_pl * pls_lun;
          s_ch = s_lun * luns_ch;
          p_pl = pgs_blk * blks_pl;
          p_lun = p_pl * pls_lun;
          p_ch = p_lun * luns_ch;
          b_lun = blks_pl * pls_lun;
          b_ch = b_lun * luns_ch;
          pl_ch = pls_lun * luns_ch;
          luns = luns_ch * n;
          b_line = luns;
          p_line = b_line * pgs_blk;
          lines = b_lun;
          pcent = 3 / 4; pcent_high = 19 / 20; op = 0
      in \<lparr>secsz = 512, secs_per_pg = secs_pg, pgs_per_blk = pgs_blk, blks_per_pl = blks_pl,
          pls_per_lun = pls_lun, luns_per_ch = luns_ch, nchs = n,
          pg_rd_lat = NAND_READ_LATENCY, pg_wr_lat = NAND_PROG_LATENCY,
          blk_er_lat = NAND_ERASE_LATENCY, ch_xfer_lat = 0,
          gc_thres_pcent = pcent, gc_thres_lines = c_trunc ((1 - pcent) * of_int lines),
          gc_thres_pcent_high = pcent_high,
          gc_thres_lines_high = c_trunc ((1 - pcent_high) * of_int lines),
          enable_gc_delay = True, op_area_pcent = op,
          secs_per_blk = s_blk, secs_per_pl = s_pl, secs_per_lun = s_lun, secs_per_ch = s_ch,
          tt_secs = s_ch * n, pgs_per_pl = p_pl, pgs_per_lun = p_lun, pgs_per_ch = p_ch,
          tt_pgs = p_ch * n, blks_per_lun = b_lun, blks_per_ch = b_ch, tt_blks = b_ch * n,
          secs_per_line = p_line * secs_pg, pgs_per_line = p_line, blks_per_line = b_line,
          tt_lines = lines, pls_per_ch = pl_ch, tt_pls = pl_ch * n, tt_luns = luns,
          pba_pcent = c_trunc ((1 + op) * 100)\<rparr>)"

text \<open>Every element of an array is initialised by the same loop body.\<close>

definition ssd_init_nand_page :: "ssdparams \<Rightarrow> nand_page" where
  "ssd_init_nand_page spp =
     \<lparr>pg_sec = replicate (nat (secs_per_pg spp)) SEC_FREE, pg_nsecs = secs_per_pg spp,
      pg_stat = PG_FREE\<rparr>"

definition ssd_init_nand_blk :: "ssdparams \<Rightarrow> nand_block" where
  "ssd_init_nand_blk spp =
     \<lparr>blk_pg = replicate (nat (pgs_per_blk spp)) (ssd_init_nand_page spp),
      blk_npgs = pgs_per_blk spp, blk_ipc = 0, blk_vpc = 0, blk_erase_cnt = 0, blk_wp = 0\<rparr>"

definition ssd_init_nand_plane :: "ssdparams \<Rightarrow> nand_plane" where
  "ssd_init_nand_plane spp =
     \<lparr>pl_blk = replicate (nat (blks_per_pl spp)) (ssd_init_nand_blk spp),
      pl_nblks = blks_per_pl spp\<rparr>"

definition ssd_init_nand_lun :: "ssdparams \<Rightarrow> nand_lun" where
  "ssd_init_nand_lun spp =
     \<lparr>lun_pl = replicate (nat (pls_per_lun spp)) (ssd_init_nand_plane spp),
      lun_npls = pls_per_lun spp, next_lun_avail_time = 0, lun_busy = False,
      lun_gc_endtime = None\<rparr>"

definition ssd_init_ch :: "ssdparams \<Rightarrow> ssd_channel" where
  "ssd_init_ch spp =
     \<lparr>ch_lun = replicate (nat (luns_per_ch spp)) (ssd_init_nand_lun spp),
      ch_nluns = luns_per_ch spp, next_ch_avail_time = 0, ch_busy = False, ch_gc_endtime = None\<rparr>"

definition ssd_init_maptbl :: "ssd \<Rightarrow> ssd" where
  "ssd_init_maptbl s = s\<lparr>ssd_maptbl := replicate (nat (tt_pgs (ssd_sp s))) (ppa_of_bits UNMAPPED_PPA)\<rparr>"

definition ssd_init_rmap :: "ssd \<Rightarrow> ssd" where
  "ssd_init_rmap s = s\<lparr>ssd_rmap := replicate (nat (tt_pgs (ssd_sp s))) INVALID_LPN\<rparr>"

text \<open>
  The tail of \<open>ssd_init\<close>, for any parameters: the channels, the two tables, the lines and
  the write pointer.
\<close>

definition ssd_init_layout :: "ssd \<Rightarrow> ssd option" where
  "ssd_init_layout s =
     (let spp = ssd_sp s;
          s = s\<lparr>ssd_ch := replicate (nat (nchs spp)) (ssd_init_ch spp)\<rparr>
      in ssd_init_write_pointer (ssd_init_lines (ssd_init_rmap (ssd_init_maptbl s))))"

definition ssd_init :: "u32 \<Rightarrow> u64 \<Rightarrow> ssd \<Rightarrow> (u64 \<times> ssd) option" where
  "ssd_init cpu memmap_size s = do {
     let size_in_gb = int_of_u64 (drop_bit 30 memmap_size);
     let n = drop_bit 1 size_in_gb;
     let s = s\<lparr>cpu_nr_dispatcher := cpu\<rparr>;
     let s = s\<lparr>ssd_sp := ssd_init_params n\<rparr>;
     let logical_space = (memmap_size * 100) div u64_of_int (pba_pcent (ssd_sp s));
     s \<leftarrow> ssd_init_layout s;
     Some (logical_space, s)
   }"

section \<open>Addresses\<close>

definition valid_ppa :: "ssd \<Rightarrow> ppa \<Rightarrow> bool" where
  "valid_ppa s p =
     (let spp = ssd_sp s;
          ch = uint (g_ch p); lun = uint (g_lun p); pl = uint (g_pl p);
          blk = uint (g_blk p); pg = uint (g_pg p); sec = uint (g_sec p)
      in 0 \<le> ch \<and> ch < nchs spp \<and> 0 \<le> lun \<and> lun < luns_per_ch spp \<and>
         0 \<le> pl \<and> pl < pls_per_lun spp \<and> 0 \<le> blk \<and> blk < blks_per_pl spp \<and>
         0 \<le> pg \<and> pg < pgs_per_blk spp \<and> 0 \<le> sec \<and> sec < secs_per_pg spp)"

definition valid_lpn :: "ssd \<Rightarrow> u64 \<Rightarrow> bool" where
  "valid_lpn s lpn = (lpn < u64_of_int (tt_pgs (ssd_sp s)))"

definition mapped_ppa :: "ppa \<Rightarrow> bool" where
  "mapped_ppa p = (\<not> ppa_bits p = UNMAPPED_PPA)"

definition get_ch :: "ssd \<Rightarrow> ppa \<Rightarrow> ssd_channel option" where
  "get_ch s p = arr_get (ssd_ch s) (unat (g_ch p))"

definition get_lun :: "ssd \<Rightarrow> ppa \<Rightarrow> nand_lun option" where
  "get_lun s p = get_ch s p \<bind> (\<lambda>ch. arr_get (ch_lun ch) (unat (g_lun p)))"

definition get_pl :: "ssd \<Rightarrow> ppa \<Rightarrow> nand_plane option" where
  "get_pl s p = get_lun s p \<bind> (\<lambda>lun. arr_get (lun_pl lun) (unat (g_pl p)))"

definition get_blk :: "ssd \<Rightarrow> ppa \<Rightarrow> nand_block option" where
  "get_blk s p = get_pl s p \<bind> (\<lambda>pl. arr_get (pl_blk pl) (unat (g_blk p)))"

definition get_line :: "ssd \<Rightarrow> ppa \<Rightarrow> line option" where
  "get_line s p = arr_get (lm_lines (ssd_lm s)) (unat (g_blk p))"

definition get_pg :: "ssd \<Rightarrow> ppa \<Rightarrow> nand_page option" where
  "get_pg s p = get_blk s p \<bind> (\<lambda>blk. arr_get (blk_pg blk) (unat (g_pg p)))"

text \<open>
  Writing through the pointers that the functions above return: the element at the
  address is replaced by its image under \<open>f\<close>.
\<close>

definition upd_at :: "'a list \<Rightarrow> nat \<Rightarrow> ('a \<Rightarrow> 'a option) \<Rightarrow> 'a list option" where
  "upd_at xs i f = do { x \<leftarrow> arr_get xs i; y \<leftarrow> f x; arr_set xs i y }"

definition upd_lun :: "ssd \<Rightarrow> ppa \<Rightarrow> (nand_lun \<Rightarrow> nand_lun option) \<Rightarrow> ssd option" where
  "upd_lun s p f = do {
     cs \<leftarrow> upd_at (ssd_ch s) (unat (g_ch p)) (\<lambda>ch. do {
       ls \<leftarrow> upd_at (ch_lun ch) (unat (g_lun p)) f;
       Some (ch\<lparr>ch_lun := ls\<rparr>)
     });
     Some (s\<lparr>ssd_ch := cs\<rparr>)
   }"

definition upd_blk :: "ssd \<Rightarrow> ppa \<Rightarrow> (nand_block \<Rightarrow> nand_block option) \<Rightarrow> ssd option" where
  "upd_blk s p f = upd_lun s p (\<lambda>lun. do {
     ps \<leftarrow> upd_at (lun_pl lun) (unat (g_pl p)) (\<lambda>pl. do {
       bs \<leftarrow> upd_at (pl_blk pl) (unat (g_blk p)) f;
       Some (pl\<lparr>pl_blk := bs\<rparr>)
     });
     Some (lun\<lparr>lun_pl := ps\<rparr>)
   })"

definition upd_pg :: "ssd \<Rightarrow> ppa \<Rightarrow> (nand_page \<Rightarrow> nand_page) \<Rightarrow> ssd option" where
  "upd_pg s p f = upd_blk s p (\<lambda>blk. do {
     gs \<leftarrow> upd_at (blk_pg blk) (unat (g_pg p)) (\<lambda>pg. Some (f pg));
     Some (blk\<lparr>blk_pg := gs\<rparr>)
   })"

definition upd_line :: "ssd \<Rightarrow> ppa \<Rightarrow> (line \<Rightarrow> line) \<Rightarrow> ssd option" where
  "upd_line s p f = do {
     ls \<leftarrow> upd_at (lm_lines (ssd_lm s)) (unat (g_blk p)) (\<lambda>l. Some (f l));
     Some (s\<lparr>ssd_lm := (ssd_lm s)\<lparr>lm_lines := ls\<rparr>\<rparr>)
   }"

section \<open>Time and page states\<close>

definition nand_start :: "u64 \<Rightarrow> u64 \<Rightarrow> u64" where
  "nand_start avail cmd_stime = (if avail < cmd_stime then cmd_stime else avail)"

definition ssd_advance_status :: "ssd \<Rightarrow> ppa \<Rightarrow> nand_cmd \<Rightarrow> (u64 \<times> ssd) option" where
  "ssd_advance_status s p ncmd = do {
     let (cmd_stime, s) = (if nc_stime ncmd = 0 then get_ioclock s else (nc_stime ncmd, s));
     let spp = ssd_sp s;
     lun \<leftarrow> get_lun s p;
     let c = nc_cmd ncmd;
     if c = NAND_READ then do {
       let avail = nand_start (next_lun_avail_time lun) cmd_stime + u64_of_int (pg_rd_lat spp);
       s \<leftarrow> upd_lun s p (\<lambda>l. Some (l\<lparr>next_lun_avail_time := avail\<rparr>));
       Some (avail - cmd_stime, s)
     } else if c = NAND_WRITE then do {
       let nand_stime = nand_start (next_lun_avail_time lun) cmd_stime;
       let avail = (if nc_type ncmd = USER_IO then nand_stime + u64_of_int (pg_wr_lat spp)
                    else nand_stime + u64_of_int (pg_wr_lat spp));
       s \<leftarrow> upd_lun s p (\<lambda>l. Some (l\<lparr>next_lun_avail_time := avail\<rparr>));
       Some (avail - cmd_stime, s)
     } else if c = NAND_ERASE then do {
       let avail = nand_start (next_lun_avail_time lun) cmd_stime + u64_of_int (blk_er_lat spp);
       s \<leftarrow> upd_lun s p (\<lambda>l. Some (l\<lparr>next_lun_avail_time := avail\<rparr>));
       Some (avail - cmd_stime, s)
     } else Some (0, nvmev_error 563 s)
   }"

text \<open>
  \<^verbatim>\<open>QTAILQ_REMOVE\<close> of an element that is not in the list corrupts the links: undefined.
\<close>

definition full_list_remove :: "ssd \<Rightarrow> nat \<Rightarrow> ssd option" where
  "full_list_remove s i =
     (let lm = ssd_lm s in
      if i \<in> set (full_line_list lm)
      then Some (s\<lparr>ssd_lm := lm\<lparr>full_line_list := remove1 i (full_line_list lm),
                                  full_line_cnt := full_line_cnt lm - 1\<rparr>\<rparr>)
      else None)"

text \<open>The page and block part of \<^verbatim>\<open>mark_page_invalid\<close>, then its line part.\<close>

definition mark_page_invalid_blk :: "ssd \<Rightarrow> ppa \<Rightarrow> ssd option" where
  "mark_page_invalid_blk s p = do {
     let spp = ssd_sp s;
     pg \<leftarrow> get_pg s p;
     let s = nvmev_assert 581 (pg_stat pg = PG_VALID) s;
     s \<leftarrow> upd_pg s p (\<lambda>g. g\<lparr>pg_stat := PG_INVALID\<rparr>);
     blk \<leftarrow> get_blk s p;
     let s = nvmev_assert 586 (0 \<le> blk_ipc blk \<and> blk_ipc blk < pgs_per_blk spp) s;
     s \<leftarrow> upd_blk s p (\<lambda>b. Some (b\<lparr>blk_ipc := blk_ipc b + 1\<rparr>));
     let s = nvmev_assert 588 (0 < blk_vpc blk \<and> blk_vpc blk \<le> pgs_per_blk spp) s;
     upd_blk s p (\<lambda>b. Some (b\<lparr>blk_vpc := blk_vpc b - 1\<rparr>))
   }"

definition mark_page_invalid_line :: "ssd \<Rightarrow> ppa \<Rightarrow> ssd option" where
  "mark_page_invalid_line s p = do {
     let spp = ssd_sp s;
     let i = unat (g_blk p);
     line \<leftarrow> get_line s p;
     let s = nvmev_assert 593 (0 \<le> line_ipc line \<and> line_ipc line < pgs_per_line spp) s;
     let was_full_line = (line_vpc line = pgs_per_line spp);
     let s = (if was_full_line then nvmev_assert 595 (line_ipc line = 0) s else s);
     s \<leftarrow> upd_line s p (\<lambda>l. l\<lparr>line_ipc := line_ipc l + 1\<rparr>);
     let s = nvmev_assert 599 (0 < line_vpc line \<and> line_vpc line \<le> pgs_per_line spp) s;
     s \<leftarrow> (if line_pos line \<noteq> 0 then do {
            let lm = ssd_lm s;
            (q, ls) \<leftarrow> pqueue_change_priority (victim_line_pq lm) (lm_lines lm)
                        (u64_of_int (line_vpc line - 1)) i;
            Some (s\<lparr>ssd_lm := lm\<lparr>victim_line_pq := q, lm_lines := ls\<rparr>\<rparr>)
          } else upd_line s p (\<lambda>l. l\<lparr>line_vpc := line_vpc l - 1\<rparr>));
     if was_full_line then do {
       s \<leftarrow> full_list_remove s i;
       victim_insert s i
     } else Some s
   }"

definition mark_page_invalid :: "ssd \<Rightarrow> ppa \<Rightarrow> ssd option" where
  "mark_page_invalid s p = do {
     s \<leftarrow> mark_page_invalid_blk s p;
     mark_page_invalid_line s p
   }"

definition mark_page_valid :: "ssd \<Rightarrow> ppa \<Rightarrow> ssd option" where
  "mark_page_valid s p = do {
     let spp = ssd_sp s;
     pg \<leftarrow> get_pg s p;
     let s = nvmev_assert 625 (pg_stat pg = PG_FREE) s;
     s \<leftarrow> upd_pg s p (\<lambda>g. g\<lparr>pg_stat := PG_VALID\<rparr>);
     blk \<leftarrow> get_blk s p;
     let s = nvmev_assert 630 (0 \<le> blk_vpc blk \<and> blk_vpc blk < pgs_per_blk spp) s;
     s \<leftarrow> upd_blk s p (\<lambda>b. Some (b\<lparr>blk_vpc := blk_vpc b + 1\<rparr>));
     line \<leftarrow> get_line s p;
     let s = nvmev_assert 635 (0 \<le> line_vpc line \<and> line_vpc line < pgs_per_line spp) s;
     upd_line s p (\<lambda>l. l\<lparr>line_vpc := line_vpc l + 1\<rparr>)
   }"

text \<open>One round of the loop of \<^verbatim>\<open>mark_block_free\<close>; the loop; the block's own fields.\<close>

definition mark_block_page_free :: "ppa \<Rightarrow> nat \<Rightarrow> ssd \<Rightarrow> ssd option" where
  "mark_block_page_free p i s = do {
     blk \<leftarrow> get_blk s p;
     pg \<leftarrow> arr_get (blk_pg blk) i;
     let s = nvmev_assert 649 (pg_nsecs pg = secs_per_pg (ssd_sp s)) s;
     upd_blk s p (\<lambda>b. do {
       gs \<leftarrow> upd_at (blk_pg b) i (\<lambda>g. Some (g\<lparr>pg_stat := PG_FREE\<rparr>));
       Some (b\<lparr>blk_pg := gs\<rparr>)
     })
   }"

definition mark_block_free :: "ssd \<Rightarrow> ppa \<Rightarrow> ssd option" where
  "mark_block_free s p = do {
     s \<leftarrow> foldM (mark_block_page_free p) [0..<nat (pgs_per_blk (ssd_sp s))] s;
     blk \<leftarrow> get_blk s p;
     let s = nvmev_assert 654 (blk_npgs blk = pgs_per_blk (ssd_sp s)) s;
     upd_blk s p (\<lambda>b. Some (b\<lparr>blk_ipc := 0, blk_vpc := 0, blk_erase_cnt := wrap32 (blk_erase_cnt b + 1)\<rparr>))
   }"

section \<open>Garbage collection\<close>

definition gc_read_page :: "ssd \<Rightarrow> ppa \<Rightarrow> ssd option" where
  "gc_read_page s p =
     (if enable_gc_delay (ssd_sp s)
      then do {
        (_, s) \<leftarrow> ssd_advance_status s p \<lparr>nc_type = GC_IO, nc_cmd = NAND_READ, nc_stime = 0\<rparr>;
        Some s
      } else Some s)"

definition lun_set_gc_endtime :: "ssd \<Rightarrow> ppa \<Rightarrow> ssd option" where
  "lun_set_gc_endtime s p =
     upd_lun s p (\<lambda>l. Some (l\<lparr>lun_gc_endtime := Some (next_lun_avail_time l)\<rparr>))"

definition gc_write_page :: "ssd \<Rightarrow> ppa \<Rightarrow> ssd option" where
  "gc_write_page s old_ppa = do {
     (lpn, s) \<leftarrow> get_rmap_ent s old_ppa;
     let s = nvmev_assert 679 (valid_lpn s lpn) s;
     let (new_ppa, s) = get_new_page s;
     s \<leftarrow> set_maptbl_ent s lpn new_ppa;
     s \<leftarrow> set_rmap_ent s lpn new_ppa;
     s \<leftarrow> mark_page_valid s new_ppa;
     s \<leftarrow> ssd_advance_write_pointer s;
     s \<leftarrow> (if enable_gc_delay (ssd_sp s) then do {
            (_, s) \<leftarrow> ssd_advance_status s new_ppa \<lparr>nc_type = GC_IO, nc_cmd = NAND_WRITE, nc_stime = 0\<rparr>;
            Some s
          } else Some s);
     lun_set_gc_endtime s new_ppa
   }"

definition select_victim_line :: "ssd \<Rightarrow> bool \<Rightarrow> (nat option \<times> ssd) option" where
  "select_victim_line s force = do {
     let lm = ssd_lm s;
     v \<leftarrow> pqueue_peek (victim_line_pq lm);
     case v of
       None \<Rightarrow> Some (None, s)
     | Some i \<Rightarrow> do {
         l \<leftarrow> arr_get (lm_lines lm) i;
         if \<not> force \<and> line_ipc l < pgs_per_line (ssd_sp s) div 8 then Some (None, s)
         else do {
           (_, q, ls) \<leftarrow> pqueue_pop (victim_line_pq lm) (lm_lines lm);
           l \<leftarrow> arr_get ls i;
           ls \<leftarrow> arr_set ls i (l\<lparr>line_pos := 0\<rparr>);
           Some (Some i, s\<lparr>ssd_lm := lm\<lparr>victim_line_pq := q, lm_lines := ls,
                            victim_line_cnt := victim_line_cnt lm - 1\<rparr>\<rparr>)
         }
       }
   }"

text \<open>\<^verbatim>\<open>clean_one_block\<close> moves \<open>ppa->g.pg\<close> through the block; the address is part of its result.\<close>

definition clean_one_page :: "nat \<Rightarrow> ssd \<times> ppa \<times> int \<Rightarrow> (ssd \<times> ppa \<times> int) option" where
  "clean_one_page g = (\<lambda>(s, p, cnt). do {
     let p = p\<lparr>g_pg := word_of_nat g\<rparr>;
     pg_iter \<leftarrow> get_pg s p;
     let s = nvmev_assert 745 (pg_stat pg_iter \<noteq> PG_FREE) s;
     if pg_stat pg_iter = PG_VALID then do {
       s \<leftarrow> gc_read_page s p;
       s \<leftarrow> gc_write_page s p;
       Some (s, p, cnt + 1)
     } else Some (s, p, cnt)
   })"

definition clean_one_block :: "ssd \<Rightarrow> ppa \<Rightarrow> (ssd \<times> ppa) option" where
  "clean_one_block s p = do {
     (s, p, cnt) \<leftarrow> foldM clean_one_page [0..<nat (pgs_per_blk (ssd_sp s))] (s, p, 0);
     blk \<leftarrow> get_blk s p;
     Some (nvmev_assert 754 (blk_vpc blk = cnt) s, p)
   }"

definition mark_line_free :: "ssd \<Rightarrow> ppa \<Rightarrow> ssd option" where
  "mark_line_free s p = do {
     s \<leftarrow> upd_line s p (\<lambda>l. l\<lparr>line_ipc := 0, line_vpc := 0\<rparr>);
     let lm = ssd_lm s;
     Some (s\<lparr>ssd_lm := lm\<lparr>free_line_list := free_line_list lm @ [unat (g_blk p)],
                           free_line_cnt := free_line_cnt lm + 1\<rparr>\<rparr>)
   }"

definition gc_one_lun :: "nat \<Rightarrow> nat \<Rightarrow> ssd \<times> ppa \<Rightarrow> (ssd \<times> ppa) option" where
  "gc_one_lun c l = (\<lambda>(s, p). do {
     let p = p\<lparr>g_ch := word_of_nat c, g_lun := word_of_nat l, g_pl := 0\<rparr>;
     _ \<leftarrow> get_lun s p;
     (s, p) \<leftarrow> clean_one_block s p;
     s \<leftarrow> mark_block_free s p;
     s \<leftarrow> (if enable_gc_delay (ssd_sp s) then do {
            (_, s) \<leftarrow> ssd_advance_status s p \<lparr>nc_type = GC_IO, nc_cmd = NAND_ERASE, nc_stime = 0\<rparr>;
            Some s
          } else Some s);
     s \<leftarrow> lun_set_gc_endtime s p;
     Some (s, p)
   })"

definition do_gc :: "bool \<Rightarrow> ssd \<Rightarrow> (int \<times> ssd) option" where
  "do_gc force s = do {
     (v, s) \<leftarrow> select_victim_line s force;
     case v of
       None \<Rightarrow> Some (-1, s)
     | Some i \<Rightarrow> do {
         victim \<leftarrow> arr_get (lm_lines (ssd_lm s)) i;
         let p = (ssd_stack_ppa s)\<lparr>g_blk := word_of_int (line_id victim)\<rparr>;
         let spp = ssd_sp s;
         (s, p) \<leftarrow> foldM (\<lambda>c. foldM (gc_one_lun c) [0..<nat (luns_per_ch spp)])
                    [0..<nat (nchs spp)] (s, p);
         s \<leftarrow> mark_line_free s p;
         Some (0, s)
       }
   }"

section \<open>Reads, writes and latencies\<close>

text \<open>
  The bounds of a command in pages: \<^verbatim>\<open>lba / secs_per_pg\<close> and
  \<^verbatim>\<open>(lba + nsecs - 1) / secs_per_pg\<close> in 64-bit arithmetic. A division by zero traps.
\<close>

definition cmd_lpns :: "ssd \<Rightarrow> nvme_command \<Rightarrow> (u64 \<times> u64) option" where
  "cmd_lpns s cmd =
     (let lba = rw_slba cmd;
          nsecs = uint (rw_length cmd) + 1;
          spg = u64_of_int (secs_per_pg (ssd_sp s))
      in if spg = 0 then None
         else Some (lba div spg, (lba + u64_of_int nsecs - 1) div spg))"

definition ssd_read_one :: "u64 \<Rightarrow> nat \<Rightarrow> ssd \<times> u64 \<Rightarrow> (ssd \<times> u64) option" where
  "ssd_read_one nsecs_start lpn = (\<lambda>(s, maxlat). do {
     p \<leftarrow> get_maptbl_ent s (word_of_nat lpn);
     if \<not> mapped_ppa p \<or> \<not> valid_ppa s p then Some (s, maxlat)
     else do {
       (sublat, s) \<leftarrow> ssd_advance_status s p
         \<lparr>nc_type = USER_IO, nc_cmd = NAND_READ, nc_stime = nsecs_start\<rparr>;
       Some (s, if maxlat < sublat then sublat else maxlat)
     }
   })"

text \<open>
  The loops \<^verbatim>\<open>for (lpn = start_lpn; lpn <= end_lpn; lpn++)\<close> run over the natural numbers:
  past the range check \<open>end_lpn\<close> is below \<open>tt_pgs\<close>, so \<^verbatim>\<open>lpn++\<close> does not wrap.
\<close>

definition ssd_read :: "nvme_command \<Rightarrow> u64 \<Rightarrow> ssd \<Rightarrow> (u64 \<times> ssd) option" where
  "ssd_read cmd nsecs_start s = do {
     (start_lpn, end_lpn) \<leftarrow> cmd_lpns s cmd;
     if u64_of_int (tt_pgs (ssd_sp s)) \<le> end_lpn then Some (0, nvmev_error 827 s)
     else do {
       (s, maxlat) \<leftarrow> foldM (ssd_read_one nsecs_start) [unat start_lpn..<Suc (unat end_lpn)] (s, 0);
       Some (maxlat, s)
     }
   }"

partial_function (option) gc_high_loop :: "ssd \<Rightarrow> ssd option" where
  "gc_high_loop s =
     (if should_gc_high s then do {
        (r, s) \<leftarrow> do_gc True s;
        if r = -1 then Some s else gc_high_loop s
      } else Some s)"

declare gc_high_loop.simps [code]

text \<open>One round of the write loop: the old page of the LPN dies, the new one is placed.\<close>

definition ssd_write_old :: "nat \<Rightarrow> ssd \<Rightarrow> ssd option" where
  "ssd_write_old lpn s = do {
     p \<leftarrow> get_maptbl_ent s (word_of_nat lpn);
     if mapped_ppa p then do {
       s \<leftarrow> mark_page_invalid s p;
       set_rmap_ent s INVALID_LPN p
     } else Some s
   }"

definition ssd_write_new :: "u64 \<Rightarrow> nat \<Rightarrow> ssd \<Rightarrow> (u64 \<times> ssd) option" where
  "ssd_write_new nsecs_start lpn s = do {
     let (p, s) = get_new_page s;
     s \<leftarrow> set_maptbl_ent s (word_of_nat lpn) p;
     s \<leftarrow> set_rmap_ent s (word_of_nat lpn) p;
     s \<leftarrow> mark_page_valid s p;
     s \<leftarrow> ssd_advance_write_pointer s;
     ssd_advance_status s p \<lparr>nc_type = USER_IO, nc_cmd = NAND_WRITE, nc_stime = nsecs_start\<rparr>
   }"

definition ssd_write_one :: "u64 \<Rightarrow> nat \<Rightarrow> ssd \<times> u64 \<Rightarrow> (ssd \<times> u64) option" where
  "ssd_write_one nsecs_start lpn = (\<lambda>(s, maxlat). do {
     s \<leftarrow> ssd_write_old lpn s;
     (curlat, s) \<leftarrow> ssd_write_new nsecs_start lpn s;
     Some (s, if maxlat < curlat then curlat else maxlat)
   })"

definition ssd_write :: "nvme_command \<Rightarrow> u64 \<Rightarrow> ssd \<Rightarrow> (u64 \<times> ssd) option" where
  "ssd_write cmd nsecs_start s = do {
     (start_lpn, end_lpn) \<leftarrow> cmd_lpns s cmd;
     if u64_of_int (tt_pgs (ssd_sp s)) \<le> end_lpn then Some (0, nvmev_error 867 s)
     else do {
       s \<leftarrow> gc_high_loop s;
       (s, maxlat) \<leftarrow> foldM (ssd_write_one nsecs_start) [unat start_lpn..<Suc (unat end_lpn)] (s, 0);
       Some (maxlat, s)
     }
   }"

definition adjust_ftl_latency :: "int \<Rightarrow> int \<Rightarrow> ssd \<Rightarrow> ssd" where
  "adjust_ftl_latency target lat s =
     (if target = NAND_READ then s\<lparr>ssd_sp := (ssd_sp s)\<lparr>pg_rd_lat := lat\<rparr>\<rparr>
      else if target = NAND_WRITE then s\<lparr>ssd_sp := (ssd_sp s)\<lparr>pg_wr_lat := lat\<rparr>\<rparr>
      else if target = NAND_ERASE then s\<lparr>ssd_sp := (ssd_sp s)\<lparr>blk_er_lat := lat\<rparr>\<rparr>
      else nvmev_error 932 s)"

end
