(* ===== verification/FTL_Geo.thy ===== *)
theory FTL_Geo
  imports FTL
begin

text \<open>
  The nested arrays of the NAND media seen as one array of blocks. \<open>blk_at\<close>, \<open>lun_at\<close>
  and \<open>pst\<close> (the state of a page) are the views every later proof is about; the lemmas
  here say that the pointer functions of \<^verbatim>\<open>ftl.c\<close> read and write exactly these views when
  the address is in range, and that nothing else changes.
\<close>

section \<open>Dimensions and views\<close>

definition nC :: "ssd \<Rightarrow> nat" where "nC s = nat (nchs (ssd_sp s))"
definition nL :: "ssd \<Rightarrow> nat" where "nL s = nat (luns_per_ch (ssd_sp s))"
definition nB :: "ssd \<Rightarrow> nat" where "nB s = nat (blks_per_pl (ssd_sp s))"
definition nG :: "ssd \<Rightarrow> nat" where "nG s = nat (pgs_per_blk (ssd_sp s))"

definition lun_at :: "ssd \<Rightarrow> nat \<Rightarrow> nat \<Rightarrow> nand_lun" where
  "lun_at s c l = ch_lun (ssd_ch s ! c) ! l"

definition blk_at :: "ssd \<Rightarrow> nat \<Rightarrow> nat \<Rightarrow> nat \<Rightarrow> nand_block" where
  "blk_at s c l b = pl_blk (lun_pl (lun_at s c l) ! 0) ! b"

definition pst :: "ssd \<Rightarrow> nat \<Rightarrow> nat \<Rightarrow> nat \<Rightarrow> nat \<Rightarrow> pg_status" where
  "pst s c l b g = pg_stat (blk_pg (blk_at s c l b) ! g)"

text \<open>The parameters fit the bit fields and the derived ones are what they should be.\<close>

definition params_ok :: "ssdparams \<Rightarrow> bool" where
  "params_ok p \<longleftrightarrow>
     0 < nchs p \<and> nchs p \<le> 128 \<and> 0 < luns_per_ch p \<and> luns_per_ch p \<le> 256 \<and>
     0 < blks_per_pl p \<and> blks_per_pl p \<le> 65536 \<and> 0 < pgs_per_blk p \<and> pgs_per_blk p \<le> 65536 \<and>
     pls_per_lun p = 1 \<and> 0 < secs_per_pg p \<and> secs_per_pg p < 2 ^ 31 \<and>
     pgs_per_pl p = pgs_per_blk p * blks_per_pl p \<and>
     pgs_per_lun p = pgs_per_pl p \<and> pgs_per_ch p = pgs_per_lun p * luns_per_ch p \<and>
     tt_pgs p = pgs_per_ch p * nchs p \<and> tt_pgs p < 2 ^ 31 \<and>
     pgs_per_line p = luns_per_ch p * nchs p * pgs_per_blk p \<and> tt_lines p = blks_per_pl p"

definition blk_shape :: "ssdparams \<Rightarrow> nand_block \<Rightarrow> bool" where
  "blk_shape p b \<longleftrightarrow> length (blk_pg b) = nat (pgs_per_blk p) \<and> blk_npgs b = pgs_per_blk p \<and>
     (\<forall>g\<in>set (blk_pg b). pg_nsecs g = secs_per_pg p)"

definition lun_shape :: "ssdparams \<Rightarrow> nand_lun \<Rightarrow> bool" where
  "lun_shape p l \<longleftrightarrow> length (lun_pl l) = nat (pls_per_lun p) \<and>
     (\<forall>q\<in>set (lun_pl l). length (pl_blk q) = nat (blks_per_pl p) \<and>
        (\<forall>b\<in>set (pl_blk q). blk_shape p b))"

definition geo_ok :: "ssd \<Rightarrow> bool" where
  "geo_ok s \<longleftrightarrow> params_ok (ssd_sp s) \<and> length (ssd_ch s) = nat (nchs (ssd_sp s)) \<and>
     (\<forall>ch\<in>set (ssd_ch s). length (ch_lun ch) = nat (luns_per_ch (ssd_sp s)) \<and>
        (\<forall>l\<in>set (ch_lun ch). lun_shape (ssd_sp s) l))"

definition in_lun :: "ssd \<Rightarrow> nat \<Rightarrow> nat \<Rightarrow> bool" where
  "in_lun s c l \<longleftrightarrow> c < nC s \<and> l < nL s"

definition in_blk :: "ssd \<Rightarrow> nat \<Rightarrow> nat \<Rightarrow> nat \<Rightarrow> bool" where
  "in_blk s c l b \<longleftrightarrow> in_lun s c l \<and> b < nB s"

definition in_pg :: "ssd \<Rightarrow> nat \<Rightarrow> nat \<Rightarrow> nat \<Rightarrow> nat \<Rightarrow> bool" where
  "in_pg s c l b g \<longleftrightarrow> in_blk s c l b \<and> g < nG s"

lemma dims_eq:
  "ssd_sp s' = ssd_sp s \<Longrightarrow> nC s' = nC s" "ssd_sp s' = ssd_sp s \<Longrightarrow> nL s' = nL s"
  "ssd_sp s' = ssd_sp s \<Longrightarrow> nB s' = nB s" "ssd_sp s' = ssd_sp s \<Longrightarrow> nG s' = nG s"
  "ssd_sp s' = ssd_sp s \<Longrightarrow> in_lun s' c l = in_lun s c l"
  "ssd_sp s' = ssd_sp s \<Longrightarrow> in_blk s' c l b = in_blk s c l b"
  "ssd_sp s' = ssd_sp s \<Longrightarrow> in_pg s' c l b g = in_pg s c l b g"
  by (simp_all add: nC_def nL_def nB_def nG_def in_lun_def in_blk_def in_pg_def)

text \<open>The address a \<^verbatim>\<open>struct ppa\<close> stands for, and the address as the write path builds it.\<close>

definition at_lun :: "ppa \<Rightarrow> nat \<Rightarrow> nat \<Rightarrow> bool" where
  "at_lun p c l \<longleftrightarrow> unat (g_ch p) = c \<and> unat (g_lun p) = l \<and> g_pl p = 0"

definition at_blk :: "ppa \<Rightarrow> nat \<Rightarrow> nat \<Rightarrow> nat \<Rightarrow> bool" where
  "at_blk p c l b \<longleftrightarrow> at_lun p c l \<and> unat (g_blk p) = b"

definition at_pg :: "ppa \<Rightarrow> nat \<Rightarrow> nat \<Rightarrow> nat \<Rightarrow> nat \<Rightarrow> bool" where
  "at_pg p c l b g \<longleftrightarrow> at_blk p c l b \<and> unat (g_pg p) = g"

definition mk_ppa :: "nat \<Rightarrow> nat \<Rightarrow> nat \<Rightarrow> nat \<Rightarrow> ppa" where
  "mk_ppa c l b g = \<lparr>g_blk = word_of_nat b, g_pg = word_of_nat g, g_sec = 0, g_pl = 0,
     g_lun = word_of_nat l, g_ch = word_of_nat c, g_rsv = 0\<rparr>"

lemma geo_params: "geo_ok s \<Longrightarrow> params_ok (ssd_sp s)"
  by (simp add: geo_ok_def)

lemma dims_bound:
  assumes "geo_ok s"
  shows "nC s \<le> 128" "nL s \<le> 256" "nB s \<le> 65536" "nG s \<le> 65536"
    "0 < nC s" "0 < nL s" "0 < nB s" "0 < nG s"
  using geo_params [OF assms] by (auto simp: params_ok_def nC_def nL_def nB_def nG_def)

lemma dims_int:
  assumes "geo_ok s"
  shows "nchs (ssd_sp s) = int (nC s)" "luns_per_ch (ssd_sp s) = int (nL s)"
    "blks_per_pl (ssd_sp s) = int (nB s)" "pgs_per_blk (ssd_sp s) = int (nG s)"
  using geo_params [OF assms] by (auto simp: params_ok_def nC_def nL_def nB_def nG_def)

lemma unat_word_of_nat_less: "n < 2 ^ LENGTH('a) \<Longrightarrow> unat (word_of_nat n :: 'a::len word) = n"
  by (simp add: unat_of_nat take_bit_nat_eq_self)

lemma mk_ppa_at_pg:
  assumes "geo_ok s" "in_pg s c l b g"
  shows "at_pg (mk_ppa c l b g) c l b g"
  using dims_bound [OF assms(1)] assms(2)
  by (auto simp: at_pg_def at_blk_def at_lun_def mk_ppa_def in_pg_def in_blk_def in_lun_def
      intro!: unat_word_of_nat_less)

lemma mk_ppa_inj:
  assumes "geo_ok s" "in_pg s c l b g" "in_pg s c' l' b' g'" "mk_ppa c l b g = mk_ppa c' l' b' g'"
  shows "c = c' \<and> l = l' \<and> b = b' \<and> g = g'"
  using mk_ppa_at_pg [OF assms(1,2)] mk_ppa_at_pg [OF assms(1,3)] assms(4)
  by (auto simp: at_pg_def at_blk_def at_lun_def)

lemma mapped_mk_ppa [simp]: "mapped_ppa (mk_ppa c l b g)"
proof -
  have "\<not> bit (ppa_bits (mk_ppa c l b g)) 63" by (simp add: ppa_bits_rsv mk_ppa_def)
  moreover have "bit UNMAPPED_PPA 63" by (simp add: UNMAPPED_PPA_def)
  ultimately show ?thesis by (auto simp: mapped_ppa_def)
qed

lemma valid_mk_ppa:
  assumes "geo_ok s" "in_pg s c l b g"
  shows "valid_ppa s (mk_ppa c l b g)"
proof -
  have "at_pg (mk_ppa c l b g) c l b g" by (rule mk_ppa_at_pg [OF assms])
  then have "uint (g_ch (mk_ppa c l b g)) = int c" "uint (g_lun (mk_ppa c l b g)) = int l"
    "uint (g_blk (mk_ppa c l b g)) = int b" "uint (g_pg (mk_ppa c l b g)) = int g"
    by (auto simp: at_pg_def at_blk_def at_lun_def uint_nat)
  then show ?thesis
    using assms geo_params [OF assms(1)] dims_int [OF assms(1)]
    by (auto simp: valid_ppa_def Let_def in_pg_def in_blk_def in_lun_def params_ok_def mk_ppa_def)
qed

section \<open>Reading and writing through pointers\<close>

definition put_lun :: "ssd \<Rightarrow> nat \<Rightarrow> nat \<Rightarrow> nand_lun \<Rightarrow> ssd" where
  "put_lun s c l x = s\<lparr>ssd_ch := (ssd_ch s)[c := (ssd_ch s ! c)\<lparr>ch_lun := (ch_lun (ssd_ch s ! c))[l := x]\<rparr>]\<rparr>"

definition put_blk :: "ssd \<Rightarrow> nat \<Rightarrow> nat \<Rightarrow> nat \<Rightarrow> nand_block \<Rightarrow> ssd" where
  "put_blk s c l b x = put_lun s c l ((lun_at s c l)\<lparr>lun_pl := (lun_pl (lun_at s c l))[0 :=
     (lun_pl (lun_at s c l) ! 0)\<lparr>pl_blk := (pl_blk (lun_pl (lun_at s c l) ! 0))[b := x]\<rparr>]\<rparr>)"

lemma put_lun_fields [simp]:
  "ssd_sp (put_lun s c l x) = ssd_sp s" "ssd_maptbl (put_lun s c l x) = ssd_maptbl s"
  "ssd_rmap (put_lun s c l x) = ssd_rmap s" "ssd_wp (put_lun s c l x) = ssd_wp s"
  "ssd_lm (put_lun s c l x) = ssd_lm s" "ssd_klog (put_lun s c l x) = ssd_klog s"
  "ssd_ioclock (put_lun s c l x) = ssd_ioclock s" "ssd_nclock (put_lun s c l x) = ssd_nclock s"
  "ssd_stack_ppa (put_lun s c l x) = ssd_stack_ppa s"
  "cpu_nr_dispatcher (put_lun s c l x) = cpu_nr_dispatcher s"
  by (simp_all add: put_lun_def)

lemma put_blk_fields [simp]:
  "ssd_sp (put_blk s c l b x) = ssd_sp s" "ssd_maptbl (put_blk s c l b x) = ssd_maptbl s"
  "ssd_rmap (put_blk s c l b x) = ssd_rmap s" "ssd_wp (put_blk s c l b x) = ssd_wp s"
  "ssd_lm (put_blk s c l b x) = ssd_lm s" "ssd_klog (put_blk s c l b x) = ssd_klog s"
  "ssd_ioclock (put_blk s c l b x) = ssd_ioclock s" "ssd_nclock (put_blk s c l b x) = ssd_nclock s"
  "ssd_stack_ppa (put_blk s c l b x) = ssd_stack_ppa s"
  "cpu_nr_dispatcher (put_blk s c l b x) = cpu_nr_dispatcher s"
  by (simp_all add: put_blk_def)

lemma geo_lens:
  assumes "geo_ok s" "in_lun s c l"
  shows "c < length (ssd_ch s)" "l < length (ch_lun (ssd_ch s ! c))"
    "lun_shape (ssd_sp s) (lun_at s c l)" "0 < length (lun_pl (lun_at s c l))"
proof -
  show c: "c < length (ssd_ch s)" using assms by (auto simp: geo_ok_def in_lun_def nC_def)
  then show l: "l < length (ch_lun (ssd_ch s ! c))"
    using assms by (auto simp: geo_ok_def in_lun_def nL_def)
  show "lun_shape (ssd_sp s) (lun_at s c l)"
    using assms c l unfolding geo_ok_def lun_at_def by (meson nth_mem)
  then show "0 < length (lun_pl (lun_at s c l))"
    using geo_params [OF assms(1)] by (auto simp: lun_shape_def params_ok_def)
qed

lemma geo_blk:
  assumes "geo_ok s" "in_blk s c l b"
  shows "b < length (pl_blk (lun_pl (lun_at s c l) ! 0))" "blk_shape (ssd_sp s) (blk_at s c l b)"
proof -
  have l: "in_lun s c l" and b: "b < nB s" using assms(2) by (auto simp: in_blk_def)
  have "lun_pl (lun_at s c l) ! 0 \<in> set (lun_pl (lun_at s c l))"
    using geo_lens(4) [OF assms(1) l] by simp
  then show b': "b < length (pl_blk (lun_pl (lun_at s c l) ! 0))"
    using geo_lens(3) [OF assms(1) l] b by (auto simp: lun_shape_def nB_def)
  then have "blk_at s c l b \<in> set (pl_blk (lun_pl (lun_at s c l) ! 0))"
    unfolding blk_at_def by (rule nth_mem)
  then show "blk_shape (ssd_sp s) (blk_at s c l b)"
    using geo_lens(3,4) [OF assms(1) l] by (auto simp: lun_shape_def)
qed

lemma geo_pg:
  assumes "geo_ok s" "in_pg s c l b g"
  shows "g < length (blk_pg (blk_at s c l b))"
  using geo_blk(2) [of s c l b] assms by (auto simp: in_pg_def blk_shape_def nG_def)

lemma lun_at_put_lun:
  assumes "geo_ok s" "in_lun s c l"
  shows "lun_at (put_lun s c l x) c' l' = (if c' = c \<and> l' = l then x else lun_at s c' l')"
  using geo_lens(1,2) [OF assms] by (auto simp: lun_at_def put_lun_def nth_list_update_if)

lemma ball_set_update:
  "(\<forall>x\<in>set xs. P x) \<Longrightarrow> P y \<Longrightarrow> \<forall>x\<in>set (xs[i := y]). P x"
  by (auto dest!: set_update_subset_insert [THEN subsetD])

lemma geo_put_lun:
  assumes "geo_ok s" "in_lun s c l" "lun_shape (ssd_sp s) x"
  shows "geo_ok (put_lun s c l x)"
proof -
  let ?P = "\<lambda>ch. length (ch_lun ch) = nat (luns_per_ch (ssd_sp s)) \<and>
        (\<forall>l\<in>set (ch_lun ch). lun_shape (ssd_sp s) l)"
  have all: "\<forall>ch\<in>set (ssd_ch s). ?P ch" using assms(1) by (simp add: geo_ok_def)
  then have c: "?P (ssd_ch s ! c)" by (rule bspec [OF _ nth_mem [OF geo_lens(1) [OF assms(1,2)]]])
  have "\<forall>ch\<in>set ((ssd_ch s)[c := (ssd_ch s ! c)\<lparr>ch_lun := (ch_lun (ssd_ch s ! c))[l := x]\<rparr>]). ?P ch"
    by (rule ball_set_update [OF all]) (use c assms(3) in \<open>auto dest!: set_update_subset_insert [THEN subsetD]\<close>)
  then show ?thesis using assms(1) by (simp add: geo_ok_def put_lun_def)
qed

lemma blk_at_put_lun:
  assumes "geo_ok s" "in_lun s c l" "lun_pl x = lun_pl (lun_at s c l)"
  shows "blk_at (put_lun s c l x) = blk_at s"
  using assms lun_at_put_lun [OF assms(1,2)] by (auto simp: blk_at_def fun_eq_iff)

lemma blk_at_put_blk:
  assumes "geo_ok s" "in_blk s c l b"
  shows "blk_at (put_blk s c l b x) c' l' b' = (if c' = c \<and> l' = l \<and> b' = b then x else blk_at s c' l' b')"
proof -
  have l: "in_lun s c l" using assms(2) by (simp add: in_blk_def)
  show ?thesis
    using geo_blk(1) [OF assms] geo_lens(4) [OF assms(1) l]
    by (auto simp: blk_at_def put_blk_def lun_at_put_lun [OF assms(1) l] nth_list_update_if)
qed

lemma geo_put_blk:
  assumes "geo_ok s" "in_blk s c l b" "blk_shape (ssd_sp s) x"
  shows "geo_ok (put_blk s c l b x)"
proof -
  have l: "in_lun s c l" using assms(2) by (simp add: in_blk_def)
  have sh: "lun_shape (ssd_sp s) (lun_at s c l)" "0 < length (lun_pl (lun_at s c l))"
    using geo_lens [OF assms(1) l] by auto
  let ?P = "\<lambda>q. length (pl_blk q) = nat (blks_per_pl (ssd_sp s)) \<and>
        (\<forall>b\<in>set (pl_blk q). blk_shape (ssd_sp s) b)"
  have all: "\<forall>q\<in>set (lun_pl (lun_at s c l)). ?P q" using sh(1) by (simp add: lun_shape_def)
  then have q: "?P (lun_pl (lun_at s c l) ! 0)" by (rule bspec [OF _ nth_mem [OF sh(2)]])
  have "\<forall>q\<in>set ((lun_pl (lun_at s c l))[0 :=
     (lun_pl (lun_at s c l) ! 0)\<lparr>pl_blk := (pl_blk (lun_pl (lun_at s c l) ! 0))[b := x]\<rparr>]). ?P q"
    by (rule ball_set_update [OF all]) (use q assms(3) in \<open>auto dest!: set_update_subset_insert [THEN subsetD]\<close>)
  then show ?thesis
    unfolding put_blk_def using sh(1) by (intro geo_put_lun [OF assms(1) l]) (simp add: lun_shape_def)
qed

lemma upd_at_Some:
  "i < length xs \<Longrightarrow> f (xs ! i) = Some y \<Longrightarrow> upd_at xs i f = Some (xs[i := y])"
  by (simp add: upd_at_def)

lemma get_lun_ok: "geo_ok s \<Longrightarrow> in_lun s c l \<Longrightarrow> at_lun p c l \<Longrightarrow> get_lun s p = Some (lun_at s c l)"
  using geo_lens(1,2) [of s c l] by (auto simp: get_lun_def get_ch_def at_lun_def lun_at_def)

lemma get_blk_ok: "geo_ok s \<Longrightarrow> in_blk s c l b \<Longrightarrow> at_blk p c l b \<Longrightarrow> get_blk s p = Some (blk_at s c l b)"
  using geo_lens(4) [of s c l] geo_blk(1) [of s c l b]
  by (auto simp: get_blk_def get_pl_def at_blk_def in_blk_def get_lun_ok blk_at_def at_lun_def)

lemma get_pg_ok: "geo_ok s \<Longrightarrow> in_pg s c l b g \<Longrightarrow> at_pg p c l b g \<Longrightarrow>
    get_pg s p = Some (blk_pg (blk_at s c l b) ! g)"
  using geo_pg [of s c l b g] by (auto simp: get_pg_def at_pg_def in_pg_def get_blk_ok)

lemma upd_lun_ok:
  assumes "geo_ok s" "in_lun s c l" "at_lun p c l" "f (lun_at s c l) = Some x"
  shows "upd_lun s p f = Some (put_lun s c l x)"
proof -
  have "upd_at (ch_lun (ssd_ch s ! c)) l f = Some ((ch_lun (ssd_ch s ! c))[l := x])"
    using geo_lens(2) [OF assms(1,2)] assms(4) by (intro upd_at_Some) (auto simp: lun_at_def)
  then show ?thesis
    using geo_lens(1) [OF assms(1,2)] assms(3)
    by (simp add: upd_lun_def at_lun_def upd_at_def [of "ssd_ch s"] put_lun_def)
qed

lemma upd_blk_ok:
  assumes "geo_ok s" "in_blk s c l b" "at_blk p c l b" "f (blk_at s c l b) = Some x"
  shows "upd_blk s p f = Some (put_blk s c l b x)"
proof -
  let ?q = "lun_pl (lun_at s c l) ! 0"
  have l: "in_lun s c l" "at_lun p c l" and pl: "unat (g_pl p) = 0" and b: "unat (g_blk p) = b"
    using assms(2,3) by (auto simp: in_blk_def at_blk_def at_lun_def)
  have "upd_at (pl_blk ?q) b f = Some ((pl_blk ?q)[b := x])"
    using geo_blk(1) [OF assms(1,2)] assms(4) by (intro upd_at_Some) (auto simp: blk_at_def)
  then show ?thesis
    unfolding upd_blk_def put_blk_def
    by (intro upd_lun_ok [OF assms(1) l])
      (use geo_lens(4) [OF assms(1) l(1)] pl b in \<open>simp add: upd_at_def [of "lun_pl _"]\<close>)
qed

definition set_pg :: "nat \<Rightarrow> pg_status \<Rightarrow> nand_block \<Rightarrow> nand_block" where
  "set_pg g st b = b\<lparr>blk_pg := (blk_pg b)[g := (blk_pg b ! g)\<lparr>pg_stat := st\<rparr>]\<rparr>"

lemma upd_pg_ok:
  assumes "geo_ok s" "in_pg s c l b g" "at_pg p c l b g"
  shows "upd_pg s p (\<lambda>x. x\<lparr>pg_stat := st\<rparr>) = Some (put_blk s c l b (set_pg g st (blk_at s c l b)))"
  unfolding upd_pg_def
  by (rule upd_blk_ok)
    (use assms geo_pg [OF assms(1,2)] in \<open>auto simp: in_pg_def at_pg_def upd_at_def set_pg_def\<close>)

lemma blk_shape_set_pg: "blk_shape p b \<Longrightarrow> g < length (blk_pg b) \<Longrightarrow> blk_shape p (set_pg g st b)"
  by (auto simp: blk_shape_def set_pg_def dest!: set_update_subset_insert [THEN subsetD])

lemma blk_shape_counts [simp]:
  "blk_shape p (b\<lparr>blk_ipc := i\<rparr>) = blk_shape p b" "blk_shape p (b\<lparr>blk_vpc := v\<rparr>) = blk_shape p b"
  "blk_shape p (b\<lparr>blk_erase_cnt := e\<rparr>) = blk_shape p b"
  by (simp_all add: blk_shape_def)

end
