(* ===== verification/PQueue_Correct.thy ===== *)
theory PQueue_Correct
  imports PQueue
begin

text \<open>
  Correctness of the heap of \<^theory_text>\<open>PQueue\<close>. The locale \<open>pq_store\<close> is the contract
  between the queue and the owner of its elements: the callbacks are lawful getters and
  setters, and the queue's comparison is the strict order that puts the least priority
  first. Inside it every operation is shown to return, to keep \<open>pq_wf\<close> (heap order, and
  every element's stored position is its index) and to change the set of elements as it
  should, while the rest of the store is left alone.
\<close>

section \<open>Views and the invariant\<close>

definition pq_nth :: "('s, 'e) pqueue_t \<Rightarrow> nat \<Rightarrow> 'e" where
  "pq_nth q j = the (pq_d q ! j)"

definition pq_shape :: "('s, 'e) pqueue_t \<Rightarrow> bool" where
  "pq_shape q \<longleftrightarrow> length (pq_d q) = pq_avail q \<and> 1 \<le> pq_size q \<and> pq_size q \<le> pq_avail q \<and>
     (\<forall>j\<in>{1..<pq_size q}. pq_d q ! j \<noteq> None)"

definition pq_elems :: "('s, 'e) pqueue_t \<Rightarrow> 'e set" where
  "pq_elems q = pq_nth q ` {1..<pq_size q}"

definition pq_heap :: "('s, 'e) pqueue_t \<Rightarrow> 's \<Rightarrow> bool" where
  "pq_heap q s \<longleftrightarrow> heap_order (\<lambda>j. getpri q s (pq_nth q j)) (pq_size q)"

definition pq_wf :: "('s, 'e) pqueue_t \<Rightarrow> 's \<Rightarrow> bool" where
  "pq_wf q s \<longleftrightarrow> pq_shape q \<and> pq_heap q s \<and>
     (\<forall>j\<in>{1..<pq_size q}. getpos q s (pq_nth q j) = j)"

lemma pq_elt_nth: "pq_shape q \<Longrightarrow> 1 \<le> j \<Longrightarrow> j < pq_size q \<Longrightarrow> pq_elt q j = Some (pq_nth q j)"
  by (auto simp: pq_shape_def pq_elt_def pq_nth_def)

lemma pq_put_ok:
  assumes "i < length (pq_d q)"
  shows "pq_put q i e = Some (q\<lparr>pq_d := (pq_d q)[i := Some e]\<rparr>)"
  using assms by (simp add: pq_put_def)

lemma pq_nth_put:
  "i < length (pq_d q) \<Longrightarrow> pq_nth (q\<lparr>pq_d := (pq_d q)[i := Some e]\<rparr>) = (pq_nth q)(i := e)"
  by (auto simp: pq_nth_def fun_eq_iff nth_list_update)

lemma nth_list_update_Some:
  "xs ! j = Some y \<Longrightarrow> \<exists>z. xs[i := Some e] ! j = Some z"
  by (cases "i < length xs") (auto simp: nth_list_update list_update_beyond)

lemma pq_shape_put:
  "pq_shape q \<Longrightarrow> pq_shape (q\<lparr>pq_d := (pq_d q)[i := Some e]\<rparr>)"
  by (auto simp: pq_shape_def dest: nth_list_update_Some)

lemma pq_shape_len: "pq_shape q \<Longrightarrow> j < pq_size q \<Longrightarrow> j < length (pq_d q)"
  by (auto simp: pq_shape_def)

lemma pq_wf_inj: "pq_wf q s \<Longrightarrow> inj_on (pq_nth q) {1..<pq_size q}"
  by (metis (no_types, lifting) inj_onI pq_wf_def)

lemma pq_wf_card: "pq_wf q s \<Longrightarrow> card (pq_elems q) = pqueue_size q"
  using card_image [OF pq_wf_inj] by (simp add: pq_elems_def pqueue_size_def)

lemma pq_wf_pos: "pq_wf q s \<Longrightarrow> e \<in> pq_elems q \<Longrightarrow>
    1 \<le> getpos q s e \<and> getpos q s e < pq_size q \<and> pq_nth q (getpos q s e) = e"
  by (auto simp: pq_wf_def pq_elems_def)

lemma fun_upd_image_swap:
  assumes "i \<in> A" "k \<in> A"
  shows "(f(i := f k, k := f i)) ` A = f ` A"
proof (cases "i = k")
  case False
  have A: "A = insert i (insert k (A - {i, k}))" using assms by auto
  have "(f(i := f k, k := f i)) ` (A - {i, k}) = f ` (A - {i, k})"
    by (rule image_cong) auto
  then have "(f(i := f k, k := f i)) ` insert i (insert k (A - {i, k})) = f ` insert i (insert k (A - {i, k}))"
    using False by (simp only: image_insert) (simp add: insert_commute)
  then show ?thesis using A by metis
qed simp

section \<open>The contract with the owner of the elements\<close>

locale pq_store =
  fixes gp :: "'s \<Rightarrow> 'e \<Rightarrow> u64"
    and spri :: "'s \<Rightarrow> 'e \<Rightarrow> u64 \<Rightarrow> 's"
    and gpos :: "'s \<Rightarrow> 'e \<Rightarrow> nat"
    and spos :: "'s \<Rightarrow> 'e \<Rightarrow> nat \<Rightarrow> 's"
    and cmp :: "u64 \<Rightarrow> u64 \<Rightarrow> bool"
    and valid :: "'s \<Rightarrow> 'e \<Rightarrow> bool"
    and okpri :: "u64 \<Rightarrow> bool"
    and rest :: "'s \<Rightarrow> 'r"
  assumes cmp: "cmp a b \<longleftrightarrow> b < a"
    and gpos_spos: "valid s e \<Longrightarrow> gpos (spos s e p) x = (if x = e then p else gpos s x)"
    and gp_spos: "valid s e \<Longrightarrow> gp (spos s e p) x = gp s x"
    and valid_spos: "valid s e \<Longrightarrow> valid (spos s e p) x = valid s x"
    and rest_spos: "valid s e \<Longrightarrow> rest (spos s e p) = rest s"
    and gp_spri: "valid s e \<Longrightarrow> okpri w \<Longrightarrow> gp (spri s e w) x = (if x = e then w else gp s x)"
    and gpos_spri: "valid s e \<Longrightarrow> gpos (spri s e w) x = gpos s x"
    and valid_spri: "valid s e \<Longrightarrow> valid (spri s e w) x = valid s x"
begin

definition cb :: "('s, 'e) pqueue_t \<Rightarrow> bool" where
  "cb q \<longleftrightarrow> cmppri q = cmp \<and> getpri q = gp \<and> setpri q = spri \<and> getpos q = gpos \<and> setpos q = spos"

text \<open>What an operation keeps: everything but the array and the stored positions.\<close>

definition frame :: "('s, 'e) pqueue_t \<Rightarrow> 's \<Rightarrow> ('s, 'e) pqueue_t \<Rightarrow> 's \<Rightarrow> bool" where
  "frame q s q' s' \<longleftrightarrow> (\<exists>d. q' = q\<lparr>pq_d := d\<rparr> \<and> length d = length (pq_d q)) \<and>
     (\<forall>x. gp s' x = gp s x) \<and> (\<forall>x. valid s' x = valid s x) \<and> rest s' = rest s"

lemma frame_refl: "frame q s q s"
  unfolding frame_def by (metis (no_types) pqueue_t.surjective pqueue_t.update_convs(9))

lemma frame_trans: "frame q s q' s' \<Longrightarrow> frame q' s' q'' s'' \<Longrightarrow> frame q s q'' s''"
  by (auto simp: frame_def)

lemma frame_put:
  "valid s e \<Longrightarrow> frame q s (q\<lparr>pq_d := (pq_d q)[i := Some x]\<rparr>) (spos s e p)"
  unfolding frame_def by (auto simp: gp_spos valid_spos rest_spos intro!: exI[of _ "(pq_d q)[i := Some x]"])

lemma frame_cb: "frame q s q' s' \<Longrightarrow> cb q' = cb q"
  by (auto simp: frame_def cb_def)

lemma frame_size: "frame q s q' s' \<Longrightarrow> pq_size q' = pq_size q"
  by (auto simp: frame_def)

lemma frame_fields: "frame q s q' s' \<Longrightarrow> gp s' x = gp s x"
  "frame q s q' s' \<Longrightarrow> valid s' x = valid s x" "frame q s q' s' \<Longrightarrow> rest s' = rest s"
  "frame q s q' s' \<Longrightarrow> pq_avail q' = pq_avail q" "frame q s q' s' \<Longrightarrow> pq_step q' = pq_step q"
  by (auto simp: frame_def)

text \<open>
  The array with the hole at \<open>i\<close> filled by the moving element \<open>m\<close>, and the invariant of
  the two loops: every element but \<open>m\<close> knows its position.
\<close>

definition hole :: "('s, 'e) pqueue_t \<Rightarrow> 's \<Rightarrow> nat \<Rightarrow> 'e \<Rightarrow> bool" where
  "hole q s i m \<longleftrightarrow> cb q \<and> pq_shape q \<and> 1 \<le> i \<and> i < pq_size q \<and> valid s m \<and>
     (\<forall>j\<in>{1..<pq_size q}. j \<noteq> i \<longrightarrow> valid s (pq_nth q j) \<and> gpos s (pq_nth q j) = j \<and> pq_nth q j \<noteq> m)"

text \<open>What a loop started with a hole at \<open>i\<close> ends with, a hole at \<open>k\<close>.\<close>

definition moved :: "('s, 'e) pqueue_t \<Rightarrow> 's \<Rightarrow> nat \<Rightarrow> 'e \<Rightarrow> ('s, 'e) pqueue_t \<Rightarrow> 's \<Rightarrow> nat \<Rightarrow> bool" where
  "moved q s i m q' s' k \<longleftrightarrow> hole q' s' k m \<and> frame q s q' s' \<and>
     ((pq_nth q')(k := m)) ` {1..<pq_size q} = ((pq_nth q)(i := m)) ` {1..<pq_size q} \<and>
     (\<forall>x. x \<notin> ((pq_nth q)(i := m)) ` {1..<pq_size q} \<longrightarrow> gpos s' x = gpos s x) \<and>
     heap_order (\<lambda>j. gp s (((pq_nth q')(k := m)) j)) (pq_size q)"

text \<open>One step of either loop: the element at \<open>k\<close> is moved into the hole at \<open>i\<close>.\<close>

lemma hole_step:
  assumes h: "hole q s i m" and k: "1 \<le> k" "k < pq_size q" "k \<noteq> i"
  defines "q' \<equiv> q\<lparr>pq_d := (pq_d q)[i := Some (pq_nth q k)]\<rparr>"
    and "s' \<equiv> spos s (pq_nth q k) i"
  shows "pq_put q i (pq_nth q k) = Some q'" "hole q' s' k m" "frame q s q' s'"
    "(pq_nth q')(k := m) = ((pq_nth q)(i := m))(i := ((pq_nth q)(i := m)) k, k := ((pq_nth q)(i := m)) i)"
    "((pq_nth q')(k := m)) ` {1..<pq_size q} = ((pq_nth q)(i := m)) ` {1..<pq_size q}"
    "\<forall>x. x \<notin> ((pq_nth q)(i := m)) ` {1..<pq_size q} \<longrightarrow> gpos s' x = gpos s x"
proof -
  have len: "i < length (pq_d q)" and v: "valid s (pq_nth q k)"
    using h k pq_shape_len [of q i] by (auto simp: hole_def)
  show put: "pq_put q i (pq_nth q k) = Some q'"
    using len by (simp add: pq_put_ok q'_def)
  have nth: "pq_nth q' = (pq_nth q)(i := pq_nth q k)"
    using len by (simp add: q'_def pq_nth_put)
  show fr: "frame q s q' s'"
    unfolding q'_def s'_def by (rule frame_put) (rule v)
  have ne: "pq_nth q j \<noteq> pq_nth q k" if "1 \<le> j" "j < pq_size q" "j \<noteq> i" "j \<noteq> k" for j
    using h k that unfolding hole_def by (metis atLeastLessThan_iff)
  show "hole q' s' k m"
    using h k v nth ne unfolding hole_def s'_def
    by (auto simp: frame_cb [OF fr] q'_def pq_shape_put gpos_spos valid_spos cb_def)
  show eq: "(pq_nth q')(k := m) =
      ((pq_nth q)(i := m))(i := ((pq_nth q)(i := m)) k, k := ((pq_nth q)(i := m)) i)"
    using nth k by auto
  have "i \<in> {1..<pq_size q}" "k \<in> {1..<pq_size q}" using h k by (auto simp: hole_def)
  then show im: "((pq_nth q')(k := m)) ` {1..<pq_size q} = ((pq_nth q)(i := m)) ` {1..<pq_size q}"
    unfolding eq by (rule fun_upd_image_swap)
  have "pq_nth q k \<in> ((pq_nth q)(i := m)) ` {1..<pq_size q}"
    using k by (auto intro!: image_eqI [of _ _ k])
  then show "\<forall>x. x \<notin> ((pq_nth q)(i := m)) ` {1..<pq_size q} \<longrightarrow> gpos s' x = gpos s x"
    unfolding s'_def using v by (auto simp: gpos_spos)
qed

lemma moved_refl:
  "hole q s i m \<Longrightarrow> heap_order (\<lambda>j. gp s (((pq_nth q)(i := m)) j)) (pq_size q) \<Longrightarrow> moved q s i m q s i"
  by (simp add: moved_def frame_refl)

lemma moved_trans:
  assumes "hole q s i m" "frame q s q1 s1"
    "((pq_nth q1)(k := m)) ` {1..<pq_size q} = ((pq_nth q)(i := m)) ` {1..<pq_size q}"
    "\<forall>x. x \<notin> ((pq_nth q)(i := m)) ` {1..<pq_size q} \<longrightarrow> gpos s1 x = gpos s x"
    "moved q1 s1 k m q' s' l"
  shows "moved q s i m q' s' l"
  using assms frame_trans [of q s q1 s1 q' s']
  unfolding moved_def by (auto simp: frame_size frame_fields)

lemma bubble_up_loop_ok:
  assumes "hole q s i m" "ex_up (\<lambda>j. gp s (((pq_nth q)(i := m)) j)) (pq_size q) i"
  shows "returns (bubble_up_loop q s (gp s m) i) (\<lambda>(q', s', k). moved q s i m q' s' k)"
  using assms
proof (induction i arbitrary: q s rule: less_induct)
  case (less i)
  let ?f = "\<lambda>j. gp s (((pq_nth q)(i := m)) j)"
  note h = less.prems(1) and ex = less.prems(2)
  have C: "cmppri q = cmp" "getpri q = gp" "setpos q = spos" and i: "1 \<le> i" "i < pq_size q"
    and shape: "pq_shape q"
    using h by (auto simp: hole_def cb_def)
  show ?case
  proof (cases "1 < i \<and> gp s m < gp s (pq_nth q (i div 2))")
    case False
    then have "i \<le> 1 \<or> ?f (i div 2) \<le> ?f i" by auto
    with ex have "heap_order ?f (pq_size q)" by (rule ex_up_done)
    then have "moved q s i m q s i" using h by (intro moved_refl)
    moreover have "1 < i \<Longrightarrow> pq_elt q (i div 2) = Some (pq_nth q (i div 2))"
      using i shape by (intro pq_elt_nth) auto
    ultimately show ?thesis
      using False C by (subst bubble_up_loop.simps) (auto simp: cmp)
  next
    case True
    let ?k = "i div 2"
    have k: "1 \<le> ?k" "?k < pq_size q" "?k \<noteq> i" using True i by auto
    note st = hole_step [OF h k]
    let ?q1 = "q\<lparr>pq_d := (pq_d q)[i := Some (pq_nth q ?k)]\<rparr>" and ?s1 = "spos s (pq_nth q ?k) i"
    have elt: "pq_elt q ?k = Some (pq_nth q ?k)" using k shape by (intro pq_elt_nth)
    have gp1: "gp ?s1 x = gp s x" for x using st(3) by (rule frame_fields)
    have "ex_up (?f(i := ?f ?k, ?k := ?f i)) (pq_size q) ?k"
      using ex True i k by (intro ex_up_swap) auto
    also have "?f(i := ?f ?k, ?k := ?f i) = (\<lambda>j. gp ?s1 (((pq_nth ?q1)(?k := m)) j))"
      unfolding st(4) gp1 by (auto simp: fun_eq_iff)
    finally have "ex_up (\<lambda>j. gp ?s1 (((pq_nth ?q1)(?k := m)) j)) (pq_size ?q1) ?k" by simp
    from less.IH [OF _ st(2) this] True
    have "returns (bubble_up_loop ?q1 ?s1 (gp s m) ?k) (\<lambda>(q', s', l). moved ?q1 ?s1 ?k m q' s' l)"
      by (simp add: gp1)
    then have "returns (bubble_up_loop ?q1 ?s1 (gp s m) ?k) (\<lambda>(q', s', l). moved q s i m q' s' l)"
      by (rule returns_mono) (use moved_trans [OF h st(3,5,6)] in auto)
    then show ?thesis
      using True elt st(1) C by (subst bubble_up_loop.simps) (simp add: cmp)
  qed
qed

lemma maxchild_ok:
  assumes "cb q" "pq_shape q" "1 \<le> i"
  obtains c where "maxchild q s i = Some c"
    "c = 0 \<Longrightarrow> \<forall>j\<in>{2..<pq_size q}. j div 2 \<noteq> i"
    "c \<noteq> 0 \<Longrightarrow> 2 \<le> c \<and> c < pq_size q \<and> c div 2 = i \<and>
      (\<forall>j\<in>{2..<pq_size q}. j div 2 = i \<longrightarrow> gp s (pq_nth q c) \<le> gp s (pq_nth q j))"
proof -
  have kids: "j = 2 * i \<or> j = 2 * i + 1" if "j div 2 = i" for j using that by auto
  have elt: "2 * i < pq_size q \<Longrightarrow> pq_elt q (2 * i) = Some (pq_nth q (2 * i))"
    "2 * i + 1 < pq_size q \<Longrightarrow> pq_elt q (2 * i + 1) = Some (pq_nth q (2 * i + 1))"
    using assms by (auto intro!: pq_elt_nth)
  have C: "cmppri q = cmp" "getpri q = gp" using assms by (auto simp: cb_def)
  consider (none) "pq_size q \<le> 2 * i" | (one) "pq_size q = 2 * i + 1" | (two) "2 * i + 1 < pq_size q"
    by linarith
  then show ?thesis
  proof cases
    case none
    then show ?thesis by (intro that [of 0]) (auto simp: maxchild_def dest!: kids)
  next
    case one
    then have "\<forall>j\<in>{2..<pq_size q}. j div 2 = i \<longrightarrow> j = 2 * i" using kids by fastforce
    then show ?thesis using assms(3) one
      by (intro that [of "2 * i"]) (auto simp: maxchild_def)
  next
    case two
    let ?c = "if gp s (pq_nth q (2 * i + 1)) < gp s (pq_nth q (2 * i)) then 2 * i + 1 else 2 * i"
    have "maxchild q s i = Some ?c"
      using two elt C by (simp add: maxchild_def cmp)
    moreover have "2 \<le> ?c \<and> ?c < pq_size q \<and> ?c div 2 = i" using two assms(3) by auto
    moreover have "gp s (pq_nth q ?c) \<le> gp s (pq_nth q j)" if "j div 2 = i" for j
      using kids [OF that] by auto
    ultimately show ?thesis by (intro that [of ?c]) auto
  qed
qed

lemma percolate_down_loop_ok:
  assumes "hole q s i m" "ex_down (\<lambda>j. gp s (((pq_nth q)(i := m)) j)) (pq_size q) i"
  shows "returns (percolate_down_loop q s (gp s m) i) (\<lambda>(q', s', k). moved q s i m q' s' k)"
  using assms
proof (induction "pq_size q - i" arbitrary: q s i rule: less_induct)
  case less
  let ?f = "\<lambda>j. gp s (((pq_nth q)(i := m)) j)"
  note h = less.prems(1) and ex = less.prems(2)
  have C: "cmppri q = cmp" "getpri q = gp" "setpos q = spos" "cb q" and i: "1 \<le> i" "i < pq_size q"
    and shape: "pq_shape q"
    using h by (auto simp: hole_def cb_def)
  obtain c where c: "maxchild q s i = Some c"
    and c0: "c = 0 \<Longrightarrow> \<forall>j\<in>{2..<pq_size q}. j div 2 \<noteq> i"
    and c1: "c \<noteq> 0 \<Longrightarrow> 2 \<le> c \<and> c < pq_size q \<and> c div 2 = i \<and>
      (\<forall>j\<in>{2..<pq_size q}. j div 2 = i \<longrightarrow> gp s (pq_nth q c) \<le> gp s (pq_nth q j))"
    using maxchild_ok [OF C(4) shape i(1)] by metis
  have elt: "c \<noteq> 0 \<Longrightarrow> pq_elt q c = Some (pq_nth q c)"
    using c1 shape by (intro pq_elt_nth) auto
  show ?case
  proof (cases "c \<noteq> 0 \<and> gp s (pq_nth q c) < gp s m")
    case False
    have "?f i \<le> ?f j" if "2 \<le> j" "j < pq_size q" "j div 2 = i" for j
      using False c0 c1 that i by (cases "c = 0") (auto intro: order_trans)
    with ex have "heap_order ?f (pq_size q)" by (rule ex_down_done)
    then have "moved q s i m q s i" using h by (intro moved_refl)
    then show ?thesis
      using False C elt c by (subst percolate_down_loop.simps) (auto simp: cmp)
  next
    case True
    have k: "1 \<le> c" "c < pq_size q" "c \<noteq> i" "i < c" using True c1 i by auto
    note st = hole_step [OF h k(1-3)]
    let ?q1 = "q\<lparr>pq_d := (pq_d q)[i := Some (pq_nth q c)]\<rparr>" and ?s1 = "spos s (pq_nth q c) i"
    have gp1: "gp ?s1 x = gp s x" for x using st(3) by (rule frame_fields)
    have "ex_down (?f(i := ?f c, c := ?f i)) (pq_size q) c"
      using ex True c1 k by (intro ex_down_swap) auto
    also have "?f(i := ?f c, c := ?f i) = (\<lambda>j. gp ?s1 (((pq_nth ?q1)(c := m)) j))"
      unfolding st(4) gp1 by (auto simp: fun_eq_iff)
    finally have "ex_down (\<lambda>j. gp ?s1 (((pq_nth ?q1)(c := m)) j)) (pq_size ?q1) c" by simp
    from less.hyps [OF _ st(2) this] k i
    have "returns (percolate_down_loop ?q1 ?s1 (gp s m) c) (\<lambda>(q', s', l). moved ?q1 ?s1 c m q' s' l)"
      by (simp add: gp1)
    then have "returns (percolate_down_loop ?q1 ?s1 (gp s m) c) (\<lambda>(q', s', l). moved q s i m q' s' l)"
      by (rule returns_mono) (use moved_trans [OF h st(3,5,6)] in auto)
    then show ?thesis
      using True elt st(1) C c by (subst percolate_down_loop.simps) (simp add: cmp)
  qed
qed

section \<open>The operations\<close>

definition pq_ok :: "('s, 'e) pqueue_t \<Rightarrow> 's \<Rightarrow> bool" where
  "pq_ok q s \<longleftrightarrow> cb q \<and> pq_wf q s \<and> (\<forall>e\<in>pq_elems q. valid s e)"

text \<open>The queue that holds the elements \<open>E\<close> after the hole has been filled.\<close>

definition settled :: "('s, 'e) pqueue_t \<Rightarrow> 's \<Rightarrow> 'e set \<Rightarrow> ('s, 'e) pqueue_t \<Rightarrow> 's \<Rightarrow> bool" where
  "settled q s E q' s' \<longleftrightarrow> pq_ok q' s' \<and> frame q s q' s' \<and> pq_elems q' = E \<and>
     (\<forall>x. x \<notin> E \<longrightarrow> gpos s' x = gpos s x)"

lemma moved_settled:
  assumes m: "moved q s i m q' s' k" and h: "hole q s i m"
  shows "returns (pq_put q' k m)
    (\<lambda>q''. settled q s (((pq_nth q)(i := m)) ` {1..<pq_size q}) q'' (spos s' m k))"
proof -
  let ?q'' = "q'\<lparr>pq_d := (pq_d q')[k := Some m]\<rparr>" and ?s'' = "spos s' m k"
  have h': "hole q' s' k m" and fr: "frame q s q' s'" using m by (auto simp: moved_def)
  have sz: "pq_size q' = pq_size q" using fr by (rule frame_size)
  have len: "k < length (pq_d q')" and v: "valid s' m"
    using h' pq_shape_len [of q' k] by (auto simp: hole_def)
  have fr2: "frame q' s' ?q'' ?s''" by (rule frame_put) (rule v)
  have nth: "pq_nth ?q'' = (pq_nth q')(k := m)" using len by (rule pq_nth_put)
  have gp'': "gp ?s'' x = gp s x" for x using frame_fields(1) [OF fr] frame_fields(1) [OF fr2] by simp
  have cb': "cb ?q''" using h' frame_cb [OF fr2] by (simp add: hole_def)
  have pos: "gpos ?s'' (pq_nth ?q'' j) = j" if "1 \<le> j" "j < pq_size q" for j
    using h' that v sz unfolding nth by (auto simp: hole_def gpos_spos)
  have "pq_wf ?q'' ?s''"
    using h' m pos cb' unfolding pq_wf_def pq_heap_def moved_def
    by (auto simp: gp'' nth sz pq_shape_put hole_def cb_def)
  moreover have el: "pq_elems ?q'' = ((pq_nth q)(i := m)) ` {1..<pq_size q}"
  proof -
    have "pq_size ?q'' = pq_size q" using sz by simp
    then show ?thesis using m unfolding pq_elems_def nth by (simp only: moved_def)
  qed
  moreover have "valid ?s'' e" if "e \<in> pq_elems ?q''" for e
    using h' that v by (auto simp: pq_elems_def nth hole_def valid_spos split: if_splits)
  moreover have "gpos ?s'' x = gpos s x" if "x \<notin> ((pq_nth q)(i := m)) ` {1..<pq_size q}" for x
  proof -
    have "x \<noteq> m" using that h by (auto simp: hole_def)
    then show ?thesis using that m v by (simp add: gpos_spos moved_def)
  qed
  ultimately have "settled q s (((pq_nth q)(i := m)) ` {1..<pq_size q}) ?q'' ?s''"
    using cb' frame_trans [OF fr fr2] by (auto simp: settled_def pq_ok_def)
  then show ?thesis using len by (simp add: pq_put_ok)
qed

lemma bubble_up_ok:
  assumes h: "hole q s i (pq_nth q i)" and ex: "ex_up (\<lambda>j. gp s (pq_nth q j)) (pq_size q) i"
  shows "returns (bubble_up q s i) (\<lambda>(q', s'). settled q s (pq_elems q) q' s')"
proof -
  let ?m = "pq_nth q i"
  have C: "getpri q = gp" "setpos q = spos" and elt: "pq_elt q i = Some ?m"
    using h by (auto simp: hole_def cb_def intro!: pq_elt_nth)
  have "returns (bubble_up_loop q s (gp s ?m) i) (\<lambda>(q', s', k). moved q s i ?m q' s' k)"
    using bubble_up_loop_ok [OF h] ex by simp
  then have "returns (bubble_up_loop q s (gp s ?m) i)
      (\<lambda>(q', s', k). returns (pq_put q' k ?m) (\<lambda>q''. settled q s (pq_elems q) q'' (spos s' ?m k)))"
    by (rule returns_mono) (use moved_settled [OF _ h] in \<open>auto simp: pq_elems_def\<close>)
  then show ?thesis
    unfolding bubble_up_def by (auto simp: elt C returns_iff)
qed

lemma percolate_down_ok:
  assumes h: "hole q s i (pq_nth q i)" and ex: "ex_down (\<lambda>j. gp s (pq_nth q j)) (pq_size q) i"
  shows "returns (percolate_down q s i) (\<lambda>(q', s'). settled q s (pq_elems q) q' s')"
proof -
  let ?m = "pq_nth q i"
  have C: "getpri q = gp" "setpos q = spos" and elt: "pq_elt q i = Some ?m"
    using h by (auto simp: hole_def cb_def intro!: pq_elt_nth)
  have "returns (percolate_down_loop q s (gp s ?m) i) (\<lambda>(q', s', k). moved q s i ?m q' s' k)"
    using percolate_down_loop_ok [OF h] ex by simp
  then have "returns (percolate_down_loop q s (gp s ?m) i)
      (\<lambda>(q', s', k). returns (pq_put q' k ?m) (\<lambda>q''. settled q s (pq_elems q) q'' (spos s' ?m k)))"
    by (rule returns_mono) (use moved_settled [OF _ h] in \<open>auto simp: pq_elems_def\<close>)
  then show ?thesis
    unfolding percolate_down_def by (auto simp: elt C returns_iff)
qed

lemma pq_ok_hole: "pq_ok q s \<Longrightarrow> 1 \<le> i \<Longrightarrow> i < pq_size q \<Longrightarrow> hole q s i (pq_nth q i)"
proof -
  assume a: "pq_ok q s" "1 \<le> i" "i < pq_size q"
  then have p: "gpos s (pq_nth q j) = j" "valid s (pq_nth q j)" if "1 \<le> j" "j < pq_size q" for j
    using that by (auto simp: pq_ok_def pq_wf_def cb_def pq_elems_def)
  have "pq_nth q j \<noteq> pq_nth q i" if "1 \<le> j" "j < pq_size q" "j \<noteq> i" for j
    using p(1) [of j] p(1) [of i] that a by metis
  then show ?thesis
    using a p unfolding hole_def pq_ok_def pq_wf_def by auto
qed

lemma pq_ok_heap: "pq_ok q s \<Longrightarrow> heap_order (\<lambda>j. gp s (pq_nth q j)) (pq_size q)"
  by (auto simp: pq_ok_def pq_wf_def pq_heap_def cb_def)

lemma pq_ok_valid: "pq_ok q s \<Longrightarrow> e \<in> pq_elems q \<Longrightarrow> valid s e"
  by (simp add: pq_ok_def)

lemma pq_ok_pos: "pq_ok q s \<Longrightarrow> e \<in> pq_elems q \<Longrightarrow>
    1 \<le> gpos s e \<and> gpos s e < pq_size q \<and> pq_nth q (gpos s e) = e"
  using pq_wf_pos [of q s e] by (auto simp: pq_ok_def cb_def)

lemma pq_ok_sizes: "pq_ok q s \<Longrightarrow> 1 \<le> pq_size q \<and> pq_size q \<le> pq_avail q \<and> length (pq_d q) = pq_avail q"
  by (simp add: pq_ok_def pq_wf_def pq_shape_def)

text \<open>What all operations keep, for the client's frame conditions.\<close>

lemma settled_D:
  assumes "settled q s E q' s'"
  shows "pq_ok q' s' \<and> pq_elems q' = E \<and> pq_size q' = pq_size q \<and> pq_avail q' = pq_avail q \<and>
    (\<forall>x. gp s' x = gp s x) \<and> (\<forall>x. valid s' x = valid s x) \<and> rest s' = rest s \<and>
    (\<forall>x. x \<notin> E \<longrightarrow> gpos s' x = gpos s x)"
  using assms by (auto simp: settled_def frame_size frame_fields)

lemma pqueue_insert_ok:
  assumes ok: "pq_ok q s" and v: "valid s d" and new: "d \<notin> pq_elems q"
    and room: "pq_size q < pq_avail q"
  shows "returns (pqueue_insert q s d) (\<lambda>(q', s'). pq_ok q' s' \<and>
    pq_elems q' = insert d (pq_elems q) \<and> pq_size q' = pq_size q + 1 \<and>
    pq_avail q' = pq_avail q \<and> (\<forall>x. gp s' x = gp s x) \<and> (\<forall>x. valid s' x = valid s x) \<and>
    rest s' = rest s \<and> (\<forall>x. x \<notin> pq_elems q' \<longrightarrow> gpos s' x = gpos s x))"
proof -
  let ?i = "pq_size q"
  let ?q1 = "q\<lparr>pq_size := ?i + 1, pq_d := (pq_d q)[?i := Some d]\<rparr>"
  have len: "?i < length (pq_d q)" and i: "1 \<le> ?i" using pq_ok_sizes [OF ok] room by auto
  have "pq_nth (q\<lparr>pq_d := (pq_d q)[?i := Some d]\<rparr>) = (pq_nth q)(?i := d)" using len by (rule pq_nth_put)
  then have nth: "pq_nth ?q1 = (pq_nth q)(?i := d)" by (simp add: pq_nth_def fun_eq_iff)
  have put: "pq_put (q\<lparr>pq_size := ?i + 1\<rparr>) ?i d = Some ?q1" using len by (simp add: pq_put_ok)
  have C: "cb ?q1" using ok by (simp add: pq_ok_def cb_def)
  have "\<exists>y. (pq_d q)[?i := Some d] ! j = Some y" if "1 \<le> j" "j < ?i + 1" for j
    using that ok len unfolding pq_ok_def pq_wf_def pq_shape_def
    by (cases "j = ?i") (auto dest: nth_list_update_Some)
  then have "pq_shape ?q1"
    using pq_ok_sizes [OF ok] room unfolding pq_shape_def by auto
  then have h: "hole ?q1 s ?i (pq_nth ?q1 ?i)"
    using ok v new i C unfolding hole_def pq_ok_def pq_wf_def nth
    by (auto simp: less_Suc_eq pq_elems_def cb_def)
  have "ex_up (\<lambda>j. gp s (pq_nth ?q1 j)) (pq_size ?q1) ?i"
    using pq_ok_heap [OF ok] unfolding ex_up_def heap_order_def nth
    by (auto simp: less_Suc_eq)
  from bubble_up_ok [OF h this]
  have "returns (bubble_up ?q1 s ?i) (\<lambda>(q', s'). settled ?q1 s (pq_elems ?q1) q' s')" .
  moreover have "pq_elems ?q1 = insert d (pq_elems q)"
    using i unfolding pq_elems_def nth by (auto simp: less_Suc_eq image_iff)
  ultimately have "returns (bubble_up ?q1 s ?i)
      (\<lambda>(q', s'). settled ?q1 s (insert d (pq_elems q)) q' s')" by simp
  then have "returns (bubble_up ?q1 s ?i) (\<lambda>(q', s'). pq_ok q' s' \<and>
    pq_elems q' = insert d (pq_elems q) \<and> pq_size q' = pq_size q + 1 \<and>
    pq_avail q' = pq_avail q \<and> (\<forall>x. gp s' x = gp s x) \<and> (\<forall>x. valid s' x = valid s x) \<and>
    rest s' = rest s \<and> (\<forall>x. x \<notin> pq_elems q' \<longrightarrow> gpos s' x = gpos s x))"
    by (rule returns_mono) (auto dest!: settled_D)
  then show ?thesis
    unfolding pqueue_insert_def Let_def put by simp
qed

lemma pqueue_peek_empty: "pq_ok q s \<Longrightarrow> pq_elems q = {} \<Longrightarrow> pqueue_peek q = Some None"
  using pq_ok_sizes [of q s] by (auto simp: pqueue_peek_def pq_elems_def)

lemma pqueue_peek_ok:
  assumes ok: "pq_ok q s" and ne: "pq_elems q \<noteq> {}"
  shows "pqueue_peek q = Some (Some (pq_nth q 1))" "pq_nth q 1 \<in> pq_elems q"
    "\<forall>e\<in>pq_elems q. gp s (pq_nth q 1) \<le> gp s e"
proof -
  have sz: "1 < pq_size q" using ne by (auto simp: pq_elems_def)
  then show "pqueue_peek q = Some (Some (pq_nth q 1))"
    using ok pq_elt_nth [of q 1] by (auto simp: pqueue_peek_def pq_ok_def pq_wf_def)
  show "pq_nth q 1 \<in> pq_elems q" using sz by (auto simp: pq_elems_def)
  show "\<forall>e\<in>pq_elems q. gp s (pq_nth q 1) \<le> gp s e"
    using heap_order_min [OF pq_ok_heap [OF ok]] by (auto simp: pq_elems_def)
qed

lemma pq_nth_inj:
  assumes "pq_ok q s" "1 \<le> i" "i < pq_size q" "1 \<le> j" "j < pq_size q" "pq_nth q i = pq_nth q j"
  shows "i = j"
  using inj_onD [OF pq_wf_inj [of q s], of i j] assms by (auto simp: pq_ok_def)

text \<open>
  Taking out the element at \<open>k\<close>: the last element goes into its slot. \<open>shrunk\<close> is the
  queue before the sift, whose hole is the slot.
\<close>

lemma shrink_hole:
  assumes ok: "pq_ok q s" and k: "1 \<le> k" "k < pq_size q"
  defines "q1 \<equiv> q\<lparr>pq_size := pq_size q - 1, pq_d := (pq_d q)[k := Some (pq_nth q (pq_size q - 1))]\<rparr>"
  shows "pq_put (q\<lparr>pq_size := pq_size q - 1\<rparr>) k (pq_nth q (pq_size q - 1)) = Some q1"
    "pq_nth q1 = (pq_nth q)(k := pq_nth q (pq_size q - 1))"
    "pq_shape q1" "cb q1" "pq_elems q1 = pq_elems q - {pq_nth q k}"
    "k < pq_size q - 1 \<Longrightarrow> hole q1 s k (pq_nth q1 k)"
proof -
  let ?l = "pq_size q - 1"
  have len: "k < length (pq_d q)" using pq_ok_sizes [OF ok] k by auto
  then show "pq_put (q\<lparr>pq_size := ?l\<rparr>) k (pq_nth q ?l) = Some q1"
    by (simp add: pq_put_ok q1_def)
  have "pq_nth (q\<lparr>pq_d := (pq_d q)[k := Some (pq_nth q ?l)]\<rparr>) = (pq_nth q)(k := pq_nth q ?l)"
    using len by (rule pq_nth_put)
  then show nth: "pq_nth q1 = (pq_nth q)(k := pq_nth q ?l)" by (simp add: pq_nth_def fun_eq_iff q1_def)
  show shape: "pq_shape q1"
    using ok k unfolding pq_ok_def pq_wf_def pq_shape_def q1_def
    by (auto simp: nth_list_update split: if_splits)
  show C: "cb q1" using ok by (simp add: pq_ok_def cb_def q1_def)
  have inj: "pq_nth q i \<noteq> pq_nth q j"
    if "1 \<le> i" "i < pq_size q" "1 \<le> j" "j < pq_size q" "i \<noteq> j" for i j
    using pq_nth_inj [OF ok] that by blast
  have sz1: "pq_size q1 = ?l" by (simp add: q1_def)
  have "pq_nth q1 ` {1..<?l} = pq_nth q ` {1..<pq_size q} - {pq_nth q k}"
  proof (cases "k = ?l")
    case True
    have "{1..<pq_size q} = insert k {1..<?l}" using True k by auto
    moreover have "pq_nth q k \<notin> pq_nth q ` {1..<?l}" using inj True k by auto
    moreover have "pq_nth q1 ` {1..<?l} = pq_nth q ` {1..<?l}"
      using True by (intro image_cong) (auto simp: nth)
    ultimately show ?thesis by auto
  next
    case False
    have ks: "{1..<pq_size q} = insert ?l (insert k ({1..<?l} - {k}))" using k False by auto
    have ks1: "{1..<?l} = insert k ({1..<?l} - {k})" using k False by auto
    have im: "pq_nth q1 ` ({1..<?l} - {k}) = pq_nth q ` ({1..<?l} - {k})"
      by (intro image_cong) (auto simp: nth)
    have "pq_nth q1 ` {1..<?l} = insert (pq_nth q ?l) (pq_nth q ` ({1..<?l} - {k}))"
      by (subst ks1, subst image_insert) (simp add: im nth)
    moreover have "pq_nth q k \<notin> insert (pq_nth q ?l) (pq_nth q ` ({1..<?l} - {k}))"
    proof -
      have "pq_nth q k \<noteq> pq_nth q j" if "j \<in> insert ?l ({1..<?l} - {k})" for j
      proof -
        have "1 \<le> j \<and> j < pq_size q \<and> k \<noteq> j" using that k False by auto
        then show ?thesis using inj k by blast
      qed
      then show ?thesis by blast
    qed
    moreover have "pq_nth q ` {1..<pq_size q} =
        insert (pq_nth q ?l) (insert (pq_nth q k) (pq_nth q ` ({1..<?l} - {k})))"
      by (subst ks) (simp only: image_insert)
    ultimately show ?thesis by (metis Diff_insert_absorb insert_commute)
  qed
  then show "pq_elems q1 = pq_elems q - {pq_nth q k}" by (simp add: pq_elems_def sz1)
  show "hole q1 s k (pq_nth q1 k)" if "k < ?l"
    using that k C shape ok inj unfolding hole_def nth sz1 pq_ok_def pq_wf_def pq_elems_def
    by (auto simp: cb_def)
qed

lemma pqueue_pop_empty: "pq_ok q s \<Longrightarrow> pq_elems q = {} \<Longrightarrow> pqueue_pop q s = Some (None, q, s)"
  using pq_ok_sizes [of q s] by (auto simp: pqueue_pop_def pq_elems_def)

lemma pqueue_pop_ok:
  assumes ok: "pq_ok q s" and ne: "pq_elems q \<noteq> {}"
  shows "returns (pqueue_pop q s) (\<lambda>(r, q', s'). r = Some (pq_nth q 1) \<and>
    (pq_size q > 2 \<longrightarrow> pq_ok q' s') \<and> (pq_size q = 2 \<longrightarrow> pq_size q' = 1 \<and> cb q' \<and> pq_shape q') \<and>
    pq_elems q' = pq_elems q - {pq_nth q 1} \<and> pq_size q' = pq_size q - 1 \<and>
    pq_avail q' = pq_avail q \<and> (\<forall>x. gp s' x = gp s x) \<and> (\<forall>x. valid s' x = valid s x) \<and>
    rest s' = rest s \<and> (\<forall>x. x \<notin> pq_elems q \<longrightarrow> gpos s' x = gpos s x))"
proof -
  have sz: "1 < pq_size q" using ne by (auto simp: pq_elems_def)
  let ?l = "pq_size q - 1"
  let ?q1 = "q\<lparr>pq_size := ?l, pq_d := (pq_d q)[1 := Some (pq_nth q ?l)]\<rparr>"
  note sh = shrink_hole [OF ok order_refl sz]
  have shape: "pq_shape q" using ok by (simp add: pq_ok_def pq_wf_def)
  have elt: "pq_elt q 1 = Some (pq_nth q 1)" "pq_elt q ?l = Some (pq_nth q ?l)"
    using sz shape by (auto intro!: pq_elt_nth)
  have E: "pq_elems q - {pq_nth q 1} \<subseteq> pq_elems q" by auto
  show ?thesis
  proof (cases "pq_size q = 2")
    case True
    have mx: "maxchild ?q1 s 1 = Some 0" using True by (simp add: maxchild_def)
    have d1: "pq_elt ?q1 1 = Some (pq_nth q 1)"
      using pq_ok_sizes [OF ok] True by (simp add: pq_elt_def One_nat_def)
    let ?q2 = "?q1\<lparr>pq_d := (pq_d ?q1)[1 := Some (pq_nth q 1)]\<rparr>"
    have put: "pq_put ?q1 1 (pq_nth q 1) = Some ?q2"
      using pq_ok_sizes [OF ok] True by (intro pq_put_ok) auto
    have C: "cb ?q1" "setpos q = spos" using sh(4) ok by (auto simp: pq_ok_def cb_def)
    have "percolate_down ?q1 s 1 = Some (?q2, spos s (pq_nth q 1) 1)"
      using mx d1 put C by (simp add: percolate_down_def percolate_down_loop.simps [of ?q1])
    moreover have "valid s (pq_nth q 1)"
      using pqueue_peek_ok(2) [OF ok ne] by (rule pq_ok_valid [OF ok])
    moreover have "pq_shape ?q2" using sh(3) by (rule pq_shape_put)
    moreover have "cb ?q2" using C by (simp add: cb_def)
    moreover have "pq_nth q 1 \<in> pq_elems q" using pqueue_peek_ok(2) [OF ok ne] .
    moreover have "pq_elems q - {pq_nth q 1} = {}" using sh(5) True by (auto simp: pq_elems_def)
    ultimately show ?thesis using sz elt sh(1) True
      by (auto simp: pqueue_pop_def gp_spos gpos_spos valid_spos rest_spos pq_elems_def)
  next
    case False
    then have "1 < ?l" using sz by auto
    then have h: "hole ?q1 s 1 (pq_nth ?q1 1)" by (rule sh(6))
    have "ex_down (\<lambda>j. gp s (pq_nth ?q1 j)) (pq_size ?q1) 1"
      using pq_ok_heap [OF ok] unfolding ex_down_def heap_order_def sh(2) by auto
    from percolate_down_ok [OF h this] sh(5)
    have "returns (percolate_down ?q1 s 1)
        (\<lambda>(q', s'). settled ?q1 s (pq_elems q - {pq_nth q 1}) q' s')" by simp
    then have "returns (percolate_down ?q1 s 1) (\<lambda>(q', s'). pq_ok q' s' \<and>
        pq_elems q' = pq_elems q - {pq_nth q 1} \<and> pq_size q' = pq_size q - 1 \<and>
        pq_avail q' = pq_avail q \<and> (\<forall>x. gp s' x = gp s x) \<and> (\<forall>x. valid s' x = valid s x) \<and>
        rest s' = rest s \<and> (\<forall>x. x \<notin> pq_elems q \<longrightarrow> gpos s' x = gpos s x))"
      by (rule returns_mono) (auto dest!: settled_D)
    then show ?thesis using sz elt sh(1) False
      by (auto simp: pqueue_pop_def returns_iff)
  qed
qed

text \<open>
  Popping the last element leaves an empty queue, which is well formed too (its stale
  slot is outside \<open>size\<close>).
\<close>

lemma pq_ok_empty: "pq_size q = 1 \<Longrightarrow> cb q \<Longrightarrow> pq_shape q \<Longrightarrow> pq_ok q s"
  by (auto simp: pq_ok_def pq_wf_def pq_heap_def heap_order_def pq_elems_def)

lemma pqueue_pop_wf:
  assumes "pq_ok q s" and "pq_elems q \<noteq> {}"
  shows "returns (pqueue_pop q s) (\<lambda>(r, q', s'). r = Some (pq_nth q 1) \<and> pq_ok q' s' \<and>
    pq_elems q' = pq_elems q - {pq_nth q 1} \<and> pq_size q' = pq_size q - 1 \<and>
    pq_avail q' = pq_avail q \<and> (\<forall>x. gp s' x = gp s x) \<and> (\<forall>x. valid s' x = valid s x) \<and>
    rest s' = rest s \<and> (\<forall>x. x \<notin> pq_elems q \<longrightarrow> gpos s' x = gpos s x))"
proof -
  have "1 < pq_size q" using assms(2) by (auto simp: pq_elems_def)
  then have "pq_size q = 2 \<or> pq_size q > 2" by auto
  then show ?thesis
    by (intro returns_mono [OF pqueue_pop_ok [OF assms]]) (auto intro: pq_ok_empty)
qed

lemma pqueue_change_priority_ok:
  assumes ok: "pq_ok q s" and d: "d \<in> pq_elems q" and w: "okpri w"
  shows "returns (pqueue_change_priority q s w d) (\<lambda>(q', s'). pq_ok q' s' \<and>
    pq_elems q' = pq_elems q \<and> pq_size q' = pq_size q \<and> pq_avail q' = pq_avail q \<and>
    (\<forall>x. gp s' x = (if x = d then w else gp s x)) \<and> (\<forall>x. valid s' x = valid s x) \<and>
    rest s' = rest (spri s d w) \<and> (\<forall>x. x \<notin> pq_elems q \<longrightarrow> gpos s' x = gpos s x))"
proof -
  let ?s1 = "spri s d w" and ?i = "gpos s d"
  have v: "valid s d" using pq_ok_valid [OF ok d] .
  have i: "1 \<le> ?i" "?i < pq_size q" and nth: "pq_nth q ?i = d" using pq_ok_pos [OF ok d] by auto
  have C: "getpri q = gp" "setpri q = spri" "getpos q = gpos" "cmppri q = cmp"
    using ok by (auto simp: pq_ok_def cb_def)
  have h: "hole q ?s1 ?i (pq_nth q ?i)"
    using pq_ok_hole [OF ok i] v unfolding hole_def by (simp add: gpos_spri valid_spri)
  have gp1: "gp ?s1 x = (if x = d then w else gp s x)" for x using v w by (rule gp_spri)
  have ne: "pq_nth q j \<noteq> d" if "1 \<le> j" "j < pq_size q" "j \<noteq> ?i" for j
    using pq_nth_inj [OF ok that(1,2) i] that(3) nth by auto
  have off: "gp ?s1 (pq_nth q j) = gp s (pq_nth q j)" if "1 \<le> j" "j < pq_size q" "j \<noteq> ?i" for j
    using ne that by (simp add: gp1)
  have ho: "heap_order (\<lambda>j. gp s (pq_nth q j)) (pq_size q)" by (rule pq_ok_heap [OF ok])
  have res: "returns (if cmp (gp s d) w then bubble_up q ?s1 ?i else percolate_down q ?s1 ?i)
      (\<lambda>(q', s'). settled q ?s1 (pq_elems q) q' s')"
  proof (cases "w < gp s d")
    case True
    have "ex_up (\<lambda>j. gp ?s1 (pq_nth q j)) (pq_size q) ?i"
      by (rule ex_upI [OF ho]) (use off True nth in \<open>auto simp: gp1\<close>)
    then show ?thesis using True bubble_up_ok [OF h] by (simp add: cmp)
  next
    case False
    have "ex_down (\<lambda>j. gp ?s1 (pq_nth q j)) (pq_size q) ?i"
      by (rule ex_downI [OF ho]) (use off False nth in \<open>auto simp: gp1\<close>)
    then show ?thesis using False percolate_down_ok [OF h] by (simp add: cmp)
  qed
  have "pqueue_change_priority q s w d =
      (if cmp (gp s d) w then bubble_up q ?s1 ?i else percolate_down q ?s1 ?i)"
    using v by (simp add: pqueue_change_priority_def C gpos_spri Let_def)
  moreover have "returns (if cmp (gp s d) w then bubble_up q ?s1 ?i else percolate_down q ?s1 ?i)
    (\<lambda>(q', s'). pq_ok q' s' \<and>
    pq_elems q' = pq_elems q \<and> pq_size q' = pq_size q \<and> pq_avail q' = pq_avail q \<and>
    (\<forall>x. gp s' x = (if x = d then w else gp s x)) \<and> (\<forall>x. valid s' x = valid s x) \<and>
    rest s' = rest (spri s d w) \<and> (\<forall>x. x \<notin> pq_elems q \<longrightarrow> gpos s' x = gpos s x))"
    by (rule returns_mono [OF res])
      (use v in \<open>auto dest!: settled_D simp: gp1 gpos_spri valid_spri\<close>)
  ultimately show ?thesis by simp
qed

lemma pqueue_remove_ok:
  assumes ok: "pq_ok q s" and d: "d \<in> pq_elems q" and last: "pq_nth q (pq_size q - 1) \<noteq> d"
  shows "returns (pqueue_remove q s d) (\<lambda>(q', s'). pq_ok q' s' \<and>
    pq_elems q' = pq_elems q - {d} \<and> pq_size q' = pq_size q - 1 \<and> pq_avail q' = pq_avail q \<and>
    (\<forall>x. gp s' x = gp s x) \<and> (\<forall>x. valid s' x = valid s x) \<and> rest s' = rest s \<and>
    (\<forall>x. x \<notin> pq_elems q - {d} \<longrightarrow> gpos s' x = gpos s x))"
proof -
  let ?k = "gpos s d" and ?l = "pq_size q - 1"
  have k: "1 \<le> ?k" "?k < pq_size q" and nth: "pq_nth q ?k = d" using pq_ok_pos [OF ok d] by auto
  have kl: "?k < ?l" using k nth last by (cases "?k = ?l") auto
  let ?q1 = "q\<lparr>pq_size := ?l, pq_d := (pq_d q)[?k := Some (pq_nth q ?l)]\<rparr>"
  note sh = shrink_hole [OF ok k]
  have h: "hole ?q1 s ?k (pq_nth ?q1 ?k)" using kl by (rule sh(6))
  have C: "getpri q = gp" "getpos q = gpos" "cmppri q = cmp" and shape: "pq_shape q"
    using ok by (auto simp: pq_ok_def pq_wf_def cb_def)
  have elt: "pq_elt q ?l = Some (pq_nth q ?l)" using kl shape by (intro pq_elt_nth) auto
  have "heap_order (\<lambda>j. gp s (pq_nth q j)) ?l" using pq_ok_heap [OF ok] by (auto simp: heap_order_def)
  then have ho: "heap_order (\<lambda>j. gp s (pq_nth q j)) (pq_size ?q1)" by simp
  have res: "returns (if cmp (gp s d) (gp s (pq_nth q ?l)) then bubble_up ?q1 s ?k else percolate_down ?q1 s ?k)
      (\<lambda>(q', s'). settled ?q1 s (pq_elems q - {d}) q' s')"
  proof (cases "gp s (pq_nth q ?l) < gp s d")
    case True
    have "ex_up (\<lambda>j. gp s (pq_nth ?q1 j)) (pq_size ?q1) ?k"
      by (rule ex_upI [OF ho]) (use True nth in \<open>auto simp: sh(2)\<close>)
    then show ?thesis using True bubble_up_ok [OF h] sh(5) nth by (simp add: cmp)
  next
    case False
    have "ex_down (\<lambda>j. gp s (pq_nth ?q1 j)) (pq_size ?q1) ?k"
      by (rule ex_downI [OF ho]) (use False nth in \<open>auto simp: sh(2)\<close>)
    then show ?thesis using False percolate_down_ok [OF h] sh(5) nth by (simp add: cmp)
  qed
  have "pqueue_remove q s d =
      (if cmp (gp s d) (gp s (pq_nth q ?l)) then bubble_up ?q1 s ?k else percolate_down ?q1 s ?k)"
    using sh(1) elt by (simp add: pqueue_remove_def C Let_def)
  moreover have "returns (if cmp (gp s d) (gp s (pq_nth q ?l)) then bubble_up ?q1 s ?k else percolate_down ?q1 s ?k)
    (\<lambda>(q', s'). pq_ok q' s' \<and>
    pq_elems q' = pq_elems q - {d} \<and> pq_size q' = pq_size q - 1 \<and> pq_avail q' = pq_avail q \<and>
    (\<forall>x. gp s' x = gp s x) \<and> (\<forall>x. valid s' x = valid s x) \<and> rest s' = rest s \<and>
    (\<forall>x. x \<notin> pq_elems q - {d} \<longrightarrow> gpos s' x = gpos s x))"
    by (rule returns_mono [OF res]) (auto dest!: settled_D)
  ultimately show ?thesis by simp
qed

end

end
