(* ===== verification/FTL_Inv.thy ===== *)
theory FTL_Inv
  imports FTL_Geo PQueue_Correct
begin

text \<open>
  What must hold of a device between the operations of \<^verbatim>\<open>ftl.c\<close>: the counters of blocks
  and lines count page states, every line is in exactly one place (free, full, victim,
  current), the current line is filled up to the write pointer, and the mapping table
  and the reverse map are inverse to each other on the valid pages. The victim queue is
  an instance of the contract of \<^theory_text>\<open>PQueue_Correct\<close>.
\<close>

section \<open>Counting page states\<close>

lemma card_filter_upd:
  assumes "finite A" "a \<in> A" "f a = x" "x \<noteq> y"
  shows "int (card {i \<in> A. (if i = a then y else f i) = z}) =
    int (card {i \<in> A. f i = z}) + (if z = y then 1 else if z = x then - 1 else 0)"
proof -
  have fin: "finite {i \<in> A. f i = z}" using assms(1) by simp
  consider "z = y" | "z = x" | "z \<noteq> x \<and> z \<noteq> y" by auto
  then show ?thesis
  proof cases
    case 1
    then have "{i \<in> A. (if i = a then y else f i) = z} = insert a {i \<in> A. f i = z}"
      using assms(2) by auto
    moreover have "a \<notin> {i \<in> A. f i = z}" using assms 1 by auto
    ultimately show ?thesis using 1 fin by simp
  next
    case 2
    then have eq: "{i \<in> A. (if i = a then y else f i) = z} = {i \<in> A. f i = z} - {a}"
      using assms by auto
    have "a \<in> {i \<in> A. f i = z}" using assms 2 by auto
    with fin have "card {i \<in> A. f i = z} = Suc (card ({i \<in> A. f i = z} - {a}))"
      by (metis card_Suc_Diff1)
    then show ?thesis using 2 assms(4) unfolding eq by simp
  next
    case 3
    then have "{i \<in> A. (if i = a then y else f i) = z} = {i \<in> A. f i = z}"
      using assms by auto
    then show ?thesis using 3 by simp
  qed
qed

lemma card_three_states:
  fixes f :: "'a \<Rightarrow> pg_status"
  assumes "finite A"
  shows "card {i \<in> A. f i = PG_FREE} + card {i \<in> A. f i = PG_INVALID} + card {i \<in> A. f i = PG_VALID} = card A"
proof -
  have "A = {i \<in> A. f i = PG_FREE} \<union> {i \<in> A. f i = PG_INVALID} \<union> {i \<in> A. f i = PG_VALID}"
    using pg_status.exhaust by auto
  moreover have "card ({i \<in> A. f i = PG_FREE} \<union> {i \<in> A. f i = PG_INVALID} \<union> {i \<in> A. f i = PG_VALID})
    = card {i \<in> A. f i = PG_FREE} + card {i \<in> A. f i = PG_INVALID} + card {i \<in> A. f i = PG_VALID}"
    using assms by (subst card_Un_disjoint; (subst card_Un_disjoint)?) auto
  ultimately show ?thesis by metis
qed

text \<open>The pages of one line, and how many of a line and of a block are in a state.\<close>

definition pg_idx :: "ssd \<Rightarrow> (nat \<times> nat \<times> nat) set" where
  "pg_idx s = {..<nC s} \<times> {..<nL s} \<times> {..<nG s}"

definition P_ln :: "ssd \<Rightarrow> nat" where
  "P_ln s = nC s * nL s * nG s"

definition cnt :: "ssd \<Rightarrow> nat \<Rightarrow> pg_status \<Rightarrow> nat" where
  "cnt s b st = card {i \<in> pg_idx s. (case i of (c, l, g) \<Rightarrow> pst s c l b g) = st}"

definition bcnt :: "ssd \<Rightarrow> nat \<Rightarrow> nat \<Rightarrow> nat \<Rightarrow> pg_status \<Rightarrow> nat" where
  "bcnt s c l b st = card {g \<in> {..<nG s}. pst s c l b g = st}"

lemma finite_pg_idx [simp]: "finite (pg_idx s)"
  by (simp add: pg_idx_def)

lemma card_pg_idx: "card (pg_idx s) = P_ln s"
  by (simp add: pg_idx_def P_ln_def)

lemma in_pg_idx: "in_pg s c l b g \<longleftrightarrow> (c, l, g) \<in> pg_idx s \<and> b < nB s"
  by (auto simp: in_pg_def in_blk_def in_lun_def pg_idx_def)

lemma cnt_total: "cnt s b PG_FREE + cnt s b PG_INVALID + cnt s b PG_VALID = P_ln s"
  unfolding cnt_def by (subst card_three_states) (simp_all add: card_pg_idx)

lemma bcnt_total: "bcnt s c l b PG_FREE + bcnt s c l b PG_INVALID + bcnt s c l b PG_VALID = nG s"
  unfolding bcnt_def by (subst card_three_states) simp_all

lemma cnt_pos: "in_pg s c l b g \<Longrightarrow> pst s c l b g = st \<Longrightarrow> 0 < cnt s b st"
  unfolding cnt_def by (subst card_gt_0_iff) (auto simp: in_pg_idx)

lemma cnt_zero: "cnt s b st = 0 \<longleftrightarrow> (\<forall>c l g. (c, l, g) \<in> pg_idx s \<longrightarrow> pst s c l b g \<noteq> st)"
  unfolding cnt_def by auto

lemma bcnt_pos: "in_pg s c l b g \<Longrightarrow> pst s c l b g = st \<Longrightarrow> 0 < bcnt s c l b st"
  unfolding bcnt_def by (subst card_gt_0_iff) (auto simp: in_pg_def)

text \<open>One page changes state.\<close>

definition pg_changed :: "ssd \<Rightarrow> ssd \<Rightarrow> nat \<Rightarrow> nat \<Rightarrow> nat \<Rightarrow> nat \<Rightarrow> pg_status \<Rightarrow> bool" where
  "pg_changed s s' c l b g st \<longleftrightarrow> ssd_sp s' = ssd_sp s \<and>
     (\<forall>c' l' b' g'. in_pg s c' l' b' g' \<longrightarrow> pst s' c' l' b' g' =
        (if c' = c \<and> l' = l \<and> b' = b \<and> g' = g then st else pst s c' l' b' g'))"

lemma pg_idx_cong: "ssd_sp s' = ssd_sp s \<Longrightarrow> pg_idx s' = pg_idx s"
  by (simp add: pg_idx_def nC_def nL_def nG_def)

lemma P_ln_cong: "ssd_sp s' = ssd_sp s \<Longrightarrow> P_ln s' = P_ln s"
  by (simp add: P_ln_def nC_def nL_def nG_def)

lemma cnt_cong:
  assumes "ssd_sp s' = ssd_sp s"
    and "\<And>c l g. (c, l, g) \<in> pg_idx s \<Longrightarrow> pst s' c l b g = pst s c l b g"
  shows "cnt s' b st = cnt s b st"
proof -
  have "{i \<in> pg_idx s. (case i of (c, l, g) \<Rightarrow> pst s' c l b g) = st} =
    {i \<in> pg_idx s. (case i of (c, l, g) \<Rightarrow> pst s c l b g) = st}"
    using assms(2) by auto
  then show ?thesis by (simp add: cnt_def pg_idx_cong [OF assms(1)])
qed

lemma bcnt_cong:
  assumes "ssd_sp s' = ssd_sp s" and "\<And>g. g < nG s \<Longrightarrow> pst s' c l b g = pst s c l b g"
  shows "bcnt s' c l b st = bcnt s c l b st"
proof -
  have "{g \<in> {..<nG s}. pst s' c l b g = st} = {g \<in> {..<nG s}. pst s c l b g = st}"
    using assms(2) by auto
  then show ?thesis by (simp add: bcnt_def dims_eq [OF assms(1)])
qed

lemma cnt_changed:
  assumes ch: "pg_changed s s' c l b g st" and pg: "in_pg s c l b g" and ne: "pst s c l b g \<noteq> st"
    and b': "b' < nB s"
  shows "int (cnt s' b' z) = int (cnt s b' z) +
    (if b' = b then if z = st then 1 else if z = pst s c l b g then - 1 else 0 else 0)"
proof (cases "b' = b")
  case False
  then have "cnt s' b' z = cnt s b' z"
    using ch b' by (intro cnt_cong) (auto simp: pg_changed_def in_pg_idx)
  then show ?thesis using False by simp
next
  case True
  have sp: "ssd_sp s' = ssd_sp s" using ch by (simp add: pg_changed_def)
  have eq: "pst s' c' l' b g' = (if (c', l', g') = (c, l, g) then st else pst s c' l' b g')"
    if "(c', l', g') \<in> pg_idx s" for c' l' g'
    using ch pg that by (simp add: pg_changed_def in_pg_idx)
  have "{i \<in> pg_idx s. (case i of (c, l, g) \<Rightarrow> pst s' c l b g) = z} =
    {i \<in> pg_idx s. (if i = (c, l, g) then st else (case i of (c, l, g) \<Rightarrow> pst s c l b g)) = z}"
    by (rule Collect_cong, rule conj_cong [OF refl]) (clarify, simp only: prod.case eq)
  moreover have "(c, l, g) \<in> pg_idx s" using pg by (simp add: in_pg_idx)
  ultimately show ?thesis
    using True ne card_filter_upd [of "pg_idx s" "(c, l, g)" "\<lambda>i. case i of (c, l, g) \<Rightarrow> pst s c l b g"
      "pst s c l b g" st z]
    by (simp add: cnt_def pg_idx_cong [OF sp])
qed

lemma bcnt_changed:
  assumes ch: "pg_changed s s' c l b g st" and pg: "in_pg s c l b g" and ne: "pst s c l b g \<noteq> st"
    and b': "in_blk s c' l' b'"
  shows "int (bcnt s' c' l' b' z) = int (bcnt s c' l' b' z) +
    (if c' = c \<and> l' = l \<and> b' = b then if z = st then 1 else if z = pst s c l b g then - 1 else 0 else 0)"
proof (cases "c' = c \<and> l' = l \<and> b' = b")
  case False
  then have "bcnt s' c' l' b' z = bcnt s c' l' b' z"
    using ch b' by (intro bcnt_cong) (auto simp: pg_changed_def in_pg_def)
  then show ?thesis using False by auto
next
  case True
  have sp: "ssd_sp s' = ssd_sp s" using ch by (simp add: pg_changed_def)
  have eq: "pst s' c l b g' = (if g' = g then st else pst s c l b g')" if "g' < nG s" for g'
    using ch pg that by (simp add: pg_changed_def in_pg_def)
  have "{i \<in> {..<nG s}. pst s' c l b i = z} =
    {i \<in> {..<nG s}. (if i = g then st else pst s c l b i) = z}"
    by (rule Collect_cong, rule conj_cong [OF refl]) (simp add: eq)
  moreover have "g \<in> {..<nG s}" using pg by (simp add: in_pg_def)
  ultimately show ?thesis
    using True ne card_filter_upd [of "{..<nG s}" g "pst s c l b" "pst s c l b g" st z]
    by (simp add: bcnt_def dims_eq [OF sp])
qed

section \<open>Blocks\<close>

definition blks_ok :: "ssd \<Rightarrow> bool" where
  "blks_ok s \<longleftrightarrow> (\<forall>c l b. in_blk s c l b \<longrightarrow>
     blk_vpc (blk_at s c l b) = int (bcnt s c l b PG_VALID) \<and>
     blk_ipc (blk_at s c l b) = int (bcnt s c l b PG_INVALID))"

lemma blks_okD:
  "blks_ok s \<Longrightarrow> in_blk s c l b \<Longrightarrow> blk_vpc (blk_at s c l b) = int (bcnt s c l b PG_VALID)"
  "blks_ok s \<Longrightarrow> in_blk s c l b \<Longrightarrow> blk_ipc (blk_at s c l b) = int (bcnt s c l b PG_INVALID)"
  by (simp_all add: blks_ok_def)

text \<open>A step that changes at most the times kept per chip.\<close>

definition tick :: "ssd \<Rightarrow> ssd \<Rightarrow> bool" where
  "tick s s' \<longleftrightarrow> ssd_sp s' = ssd_sp s \<and> ssd_maptbl s' = ssd_maptbl s \<and> ssd_rmap s' = ssd_rmap s \<and>
     ssd_wp s' = ssd_wp s \<and> ssd_lm s' = ssd_lm s \<and> ssd_klog s' = ssd_klog s \<and>
     blk_at s' = blk_at s \<and> geo_ok s' = geo_ok s"

lemma tick_refl [simp]: "tick s s"
  by (simp add: tick_def)

lemma tick_trans: "tick s s' \<Longrightarrow> tick s' s'' \<Longrightarrow> tick s s''"
  by (simp add: tick_def)

lemma tick_pst: "tick s s' \<Longrightarrow> pst s' = pst s"
  by (simp add: tick_def pst_def fun_eq_iff)

lemma tick_cnt: "tick s s' \<Longrightarrow> cnt s' = cnt s"
  by (intro ext cnt_cong) (auto simp: tick_def pst_def)

lemma tick_bcnt: "tick s s' \<Longrightarrow> bcnt s' = bcnt s"
  by (intro ext bcnt_cong) (auto simp: tick_def pst_def)

lemma tick_blks_ok: "tick s s' \<Longrightarrow> blks_ok s' = blks_ok s"
  using tick_bcnt [of s s'] dims_eq(6) [of s' s] by (simp add: blks_ok_def tick_def)

end
