(* ===== verification/FTL_Lines.thy ===== *)
theory FTL_Lines
  imports FTL_Inv
begin

text \<open>
  Lines: the victim queue as an instance of the contract of \<^theory_text>\<open>PQueue_Correct\<close>, the
  invariant of the line lists, and the operations of \<^verbatim>\<open>ftl.c\<close> that move a line from one
  list to another or change its counters.
\<close>

section \<open>The victim queue\<close>

definition lines_rest :: "line list \<Rightarrow> line list" where
  "lines_rest ls = map (\<lambda>l. l\<lparr>line_pos := 0\<rparr>) ls"

interpretation vq: pq_store victim_line_get_pri victim_line_set_pri victim_line_get_pos
  victim_line_set_pos victim_line_cmp_pri "\<lambda>ls a. a < length ls" "\<lambda>w. uint w < 2 ^ 31" lines_rest
proof
  fix ls :: "line list" and e x p :: nat and w :: u64 and a b :: u64
  show "victim_line_cmp_pri a b = (b < a)" by (simp add: victim_line_cmp_pri_def)
  assume e: "e < length ls"
  show "victim_line_get_pos (victim_line_set_pos ls e p) x = (if x = e then p else victim_line_get_pos ls x)"
    using e by (simp add: victim_line_get_pos_def victim_line_set_pos_def nth_list_update_if)
  show "victim_line_get_pri (victim_line_set_pos ls e p) x = victim_line_get_pri ls x"
    using e by (simp add: victim_line_get_pri_def victim_line_set_pos_def nth_list_update_if)
  show "(x < length (victim_line_set_pos ls e p)) = (x < length ls)"
    by (simp add: victim_line_set_pos_def)
  show "lines_rest (victim_line_set_pos ls e p) = lines_rest ls"
    using e by (intro nth_equalityI) (auto simp: lines_rest_def victim_line_set_pos_def nth_list_update)
  show "victim_line_get_pos (victim_line_set_pri ls e w) x = victim_line_get_pos ls x"
    using e by (simp add: victim_line_get_pos_def victim_line_set_pri_def nth_list_update_if)
  show "(x < length (victim_line_set_pri ls e w)) = (x < length ls)"
    by (simp add: victim_line_set_pri_def)
  assume "uint w < 2 ^ 31"
  then show "victim_line_get_pri (victim_line_set_pri ls e w) x = (if x = e then w else victim_line_get_pri ls x)"
    using e by (simp add: victim_line_get_pri_def victim_line_set_pri_def nth_list_update_if u64_of_int_of_u64)
qed

lemma lines_restD:
  assumes "lines_rest ls' = lines_rest ls"
  shows "length ls' = length ls"
    and "i < length ls \<Longrightarrow> line_id (ls' ! i) = line_id (ls ! i)"
    and "i < length ls \<Longrightarrow> line_ipc (ls' ! i) = line_ipc (ls ! i)"
    and "i < length ls \<Longrightarrow> line_vpc (ls' ! i) = line_vpc (ls ! i)"
proof -
  show len: "length ls' = length ls"
    using arg_cong [OF assms, of length] by (simp add: lines_rest_def)
  assume i: "i < length ls"
  then have "(ls' ! i)\<lparr>line_pos := 0\<rparr> = (ls ! i)\<lparr>line_pos := 0\<rparr>"
    using arg_cong [OF assms, of "\<lambda>xs. xs ! i"] len by (simp add: lines_rest_def)
  then show "line_id (ls' ! i) = line_id (ls ! i)" "line_ipc (ls' ! i) = line_ipc (ls ! i)"
    "line_vpc (ls' ! i) = line_vpc (ls ! i)"
    by (cases "ls' ! i"; cases "ls ! i"; simp)+
qed

text \<open>The queue depends only on the priorities and positions of its elements.\<close>

lemma vq_ok_cong:
  assumes ok: "vq.pq_ok q ls" and len: "length ls' = length ls"
    and eq: "\<And>e. e \<in> pq_elems q \<Longrightarrow> line_vpc (ls' ! e) = line_vpc (ls ! e) \<and> line_pos (ls' ! e) = line_pos (ls ! e)"
  shows "vq.pq_ok q ls'"
proof -
  have cb: "vq.cb q" and C: "getpri q = victim_line_get_pri" "getpos q = victim_line_get_pos"
    using ok by (auto simp: vq.pq_ok_def vq.cb_def)
  have el: "pq_nth q j \<in> pq_elems q" if "1 \<le> j" "j < pq_size q" for j
    using that by (auto simp: pq_elems_def)
  have gp: "victim_line_get_pri ls' (pq_nth q j) = victim_line_get_pri ls (pq_nth q j)"
    "victim_line_get_pos ls' (pq_nth q j) = victim_line_get_pos ls (pq_nth q j)"
    if "1 \<le> j" "j < pq_size q" for j
    using eq [OF el [OF that]] by (simp_all add: victim_line_get_pri_def victim_line_get_pos_def)
  have wf: "pq_wf q ls" using ok by (simp add: vq.pq_ok_def)
  then have "heap_order (\<lambda>j. victim_line_get_pri ls (pq_nth q j)) (pq_size q)"
    by (simp add: pq_wf_def pq_heap_def C)
  then have "heap_order (\<lambda>j. victim_line_get_pri ls' (pq_nth q j)) (pq_size q)"
    using gp(1) by (auto simp: heap_order_def)
  with wf gp have "pq_wf q ls'" by (simp add: pq_wf_def pq_heap_def C)
  with ok cb len show ?thesis by (simp add: vq.pq_ok_def)
qed

section \<open>The invariant of the lines\<close>

abbreviation "lns s \<equiv> lm_lines (ssd_lm s)"
abbreviation "freeL s \<equiv> free_line_list (ssd_lm s)"
abbreviation "fullL s \<equiv> full_line_list (ssd_lm s)"
abbreviation "vicQ s \<equiv> victim_line_pq (ssd_lm s)"
abbreviation "victims s \<equiv> pq_elems (victim_line_pq (ssd_lm s))"

text \<open>
  The lists hold every line exactly once, the lines \<open>X\<close> excepted (the current line, and
  the victim while it is cleaned).
\<close>

definition lists_ok :: "ssd \<Rightarrow> nat set \<Rightarrow> bool" where
  "lists_ok s X \<longleftrightarrow>
     length (lns s) = nB s \<and> (\<forall>b<nB s. line_id (lns s ! b) = int b) \<and>
     distinct (freeL s) \<and> distinct (fullL s) \<and> set (freeL s) \<inter> set (fullL s) = {} \<and>
     (set (freeL s) \<union> set (fullL s)) \<inter> victims s = {} \<and>
     (set (freeL s) \<union> set (fullL s) \<union> victims s) \<inter> X = {} \<and>
     set (freeL s) \<union> set (fullL s) \<union> victims s \<union> X = {..<nB s} \<and>
     free_line_cnt (ssd_lm s) = int (length (freeL s)) \<and>
     full_line_cnt (ssd_lm s) = int (length (fullL s)) \<and>
     victim_line_cnt (ssd_lm s) = int (card (victims s)) \<and>
     vq.pq_ok (vicQ s) (lns s) \<and> pq_avail (vicQ s) = nB s + 1 \<and>
     (\<forall>b<nB s. b \<notin> victims s \<longrightarrow> line_pos (lns s ! b) = 0)"

text \<open>The counters of the lines outside \<open>D\<close> count their pages.\<close>

definition counts_ok :: "ssd \<Rightarrow> nat set \<Rightarrow> bool" where
  "counts_ok s D \<longleftrightarrow> (\<forall>b<nB s. b \<notin> D \<longrightarrow>
     line_vpc (lns s ! b) = int (cnt s b PG_VALID) \<and>
     line_ipc (lns s ! b) = int (cnt s b PG_INVALID))"

text \<open>Free lines are erased, full lines all valid, victims written with something to reclaim.\<close>

definition content_ok :: "ssd \<Rightarrow> bool" where
  "content_ok s \<longleftrightarrow>
     (\<forall>b\<in>set (freeL s). cnt s b PG_FREE = P_ln s) \<and>
     (\<forall>b\<in>set (fullL s). cnt s b PG_VALID = P_ln s) \<and>
     (\<forall>b\<in>victims s. cnt s b PG_FREE = 0 \<and> 0 < cnt s b PG_INVALID)"

lemma finite_victims [simp]: "finite (pq_elems q)"
  by (simp add: pq_elems_def)

lemma lists_ok_lt: "lists_ok s X \<Longrightarrow> b \<in> set (freeL s) \<union> set (fullL s) \<union> victims s \<union> X \<Longrightarrow> b < nB s"
  unfolding lists_ok_def by blast

lemma lists_ok_room:
  assumes "lists_ok s X" "b \<in> X"
  shows "pq_size (vicQ s) < pq_avail (vicQ s)"
proof -
  have ok: "vq.pq_ok (vicQ s) (lns s)" using assms(1) by (simp add: lists_ok_def)
  have "victims s \<subset> {..<nB s}" using assms unfolding lists_ok_def by blast
  then have "card (victims s) < nB s" using psubset_card_mono [of "{..<nB s}"] by auto
  moreover have "card (victims s) = pqueue_size (vicQ s)"
    using ok by (auto simp: vq.pq_ok_def intro: pq_wf_card)
  ultimately show ?thesis
    using assms(1) vq.pq_ok_sizes [OF ok] by (auto simp: lists_ok_def pqueue_size_def)
qed

text \<open>The parameter \<open>pgs_per_line\<close> is the number of pages counted.\<close>

lemma ppl_int: "geo_ok s \<Longrightarrow> pgs_per_line (ssd_sp s) = int (P_ln s)"
  using geo_params [of s] dims_int [of s] by (simp add: params_ok_def P_ln_def)

lemma P_ln_bound:
  assumes "geo_ok s" shows "P_ln s * nB s < 2 ^ 31" "0 < P_ln s" "P_ln s < 2 ^ 31"
proof -
  have "int (P_ln s * nB s) = tt_pgs (ssd_sp s)"
    using geo_params [OF assms] dims_int [OF assms] by (simp add: params_ok_def P_ln_def)
  moreover have "tt_pgs (ssd_sp s) < 2 ^ 31"
    using geo_params [OF assms] unfolding params_ok_def by blast
  ultimately have "int (P_ln s * nB s) < int (2 ^ 31)" by simp
  then show a: "P_ln s * nB s < 2 ^ 31" by (simp only: of_nat_less_iff)
  show "0 < P_ln s" using dims_bound [OF assms] by (simp add: P_ln_def)
  have "P_ln s * 1 \<le> P_ln s * nB s" using dims_bound [OF assms] by (intro mult_le_mono) auto
  then show "P_ln s < 2 ^ 31" using a by linarith
qed

lemma cnt_le: "cnt s b st \<le> P_ln s"
  unfolding cnt_def by (metis (no_types, lifting) card_mono card_pg_idx finite_pg_idx mem_Collect_eq subsetI)

section \<open>Moving lines between the lists\<close>

text \<open>The views do not depend on the soft state.\<close>

lemma view_upd [simp]:
  "nC (s\<lparr>ssd_lm := lm\<rparr>) = nC s" "nL (s\<lparr>ssd_lm := lm\<rparr>) = nL s"
  "nB (s\<lparr>ssd_lm := lm\<rparr>) = nB s" "nG (s\<lparr>ssd_lm := lm\<rparr>) = nG s"
  "P_ln (s\<lparr>ssd_lm := lm\<rparr>) = P_ln s" "pg_idx (s\<lparr>ssd_lm := lm\<rparr>) = pg_idx s"
  "pst (s\<lparr>ssd_lm := lm\<rparr>) = pst s" "cnt (s\<lparr>ssd_lm := lm\<rparr>) = cnt s"
  "blk_at (s\<lparr>ssd_lm := lm\<rparr>) = blk_at s" "lun_at (s\<lparr>ssd_lm := lm\<rparr>) = lun_at s"
  "geo_ok (s\<lparr>ssd_lm := lm\<rparr>) = geo_ok s" "blks_ok (s\<lparr>ssd_lm := lm\<rparr>) = blks_ok s"
  "in_pg (s\<lparr>ssd_lm := lm\<rparr>) = in_pg s" "bcnt (s\<lparr>ssd_lm := lm\<rparr>) = bcnt s"
  by (simp_all add: nC_def nL_def nB_def nG_def P_ln_def pg_idx_def pst_def [abs_def] cnt_def [abs_def]
      blk_at_def [abs_def] lun_at_def [abs_def] geo_ok_def blks_ok_def in_blk_def in_lun_def in_pg_def [abs_def]
      bcnt_def [abs_def])

definition lm_step :: "ssd \<Rightarrow> ssd \<Rightarrow> bool" where
  "lm_step s s' \<longleftrightarrow> (\<exists>lm. s' = s\<lparr>ssd_lm := lm\<rparr>)"

lemma lm_stepI [simp]: "lm_step s (s\<lparr>ssd_lm := lm\<rparr>)"
  by (auto simp: lm_step_def)

lemma lm_step_trans: "lm_step s s' \<Longrightarrow> lm_step s' s'' \<Longrightarrow> lm_step s s''"
  by (auto simp: lm_step_def)

lemma lm_step_fields:
  assumes "lm_step s s'"
  shows "ssd_sp s' = ssd_sp s" "ssd_maptbl s' = ssd_maptbl s" "ssd_rmap s' = ssd_rmap s"
    "ssd_wp s' = ssd_wp s" "ssd_klog s' = ssd_klog s" "pst s' = pst s" "cnt s' = cnt s"
    "geo_ok s' = geo_ok s" "blks_ok s' = blks_ok s" "nB s' = nB s" "P_ln s' = P_ln s"
    "nC s' = nC s" "nL s' = nL s" "nG s' = nG s" "blk_at s' = blk_at s" "ssd_stack_ppa s' = ssd_stack_ppa s"
  using assms by (auto simp: lm_step_def)

lemma counts_ok_rest:
  assumes "counts_ok s D" "lm_step s s'" "lines_rest (lns s') = lines_rest (lns s)" "length (lns s) = nB s"
  shows "counts_ok s' D"
  using assms(1) lm_step_fields [OF assms(2)] lines_restD [OF assms(3)] assms(4)
  by (simp add: counts_ok_def)

lemma victim_insert_ok:
  assumes ok: "lists_ok s X" and i: "i \<in> X"
  shows "returns (victim_insert s i) (\<lambda>s'. lm_step s s' \<and> lists_ok s' (X - {i}) \<and>
    victims s' = insert i (victims s) \<and> freeL s' = freeL s \<and> fullL s' = fullL s \<and>
    lines_rest (lns s') = lines_rest (lns s))"
proof -
  have q: "vq.pq_ok (vicQ s) (lns s)" and len: "length (lns s) = nB s"
    using ok by (auto simp: lists_ok_def)
  have lt: "i < length (lns s)" using lists_ok_lt [OF ok] i len by auto
  have new: "i \<notin> victims s" using ok i unfolding lists_ok_def by blast
  from vq.pqueue_insert_ok [OF q lt new lists_ok_room [OF ok i]]
  obtain q' ls' where ins: "pqueue_insert (vicQ s) (lns s) i = Some (q', ls')"
    and q': "vq.pq_ok q' ls'" and E: "pq_elems q' = insert i (victims s)"
    and av: "pq_avail q' = pq_avail (vicQ s)" and rest: "lines_rest ls' = lines_rest (lns s)"
    and pos: "\<forall>x. x \<notin> insert i (victims s) \<longrightarrow> victim_line_get_pos ls' x = victim_line_get_pos (lns s) x"
    by (auto elim!: returnsE)
  have p0: "line_pos (ls' ! b) = 0" if "b < nB s" "b \<notin> insert i (victims s)" for b
    using pos ok that by (auto simp: victim_line_get_pos_def lists_ok_def)
  have d: "(set (freeL s) \<union> set (fullL s)) \<inter> insert i (victims s) = {}"
    "(set (freeL s) \<union> set (fullL s) \<union> insert i (victims s)) \<inter> (X - {i}) = {}"
    "set (freeL s) \<union> set (fullL s) \<union> insert i (victims s) \<union> (X - {i}) = {..<nB s}"
    using ok i new unfolding lists_ok_def by blast+
  have "lists_ok (s\<lparr>ssd_lm := ssd_lm s\<lparr>victim_line_pq := q', lm_lines := ls',
      victim_line_cnt := victim_line_cnt (ssd_lm s) + 1\<rparr>\<rparr>) (X - {i})"
    using ok q' d p0 new E av lines_restD [OF rest] len unfolding lists_ok_def by simp
  then show ?thesis using ins E rest by (simp add: victim_insert_def Let_def)
qed

lemma full_list_remove_ok:
  assumes ok: "lists_ok s X" and i: "i \<in> set (fullL s)"
  shows "returns (full_list_remove s i) (\<lambda>s'. lm_step s s' \<and> lists_ok s' (insert i X) \<and>
    victims s' = victims s \<and> freeL s' = freeL s \<and> set (fullL s') = set (fullL s) - {i} \<and>
    lns s' = lns s)"
proof -
  have dist: "distinct (fullL s)" using ok by (simp add: lists_ok_def)
  then have st: "set (remove1 i (fullL s)) = set (fullL s) - {i}" by simp
  have len: "int (length (remove1 i (fullL s))) = int (length (fullL s)) - 1"
    using i length_pos_if_in_set [OF i] by (cases "length (fullL s)") (auto simp: length_remove1)
  have d: "set (freeL s) \<inter> (set (fullL s) - {i}) = {}"
    "(set (freeL s) \<union> (set (fullL s) - {i})) \<inter> victims s = {}"
    "(set (freeL s) \<union> (set (fullL s) - {i}) \<union> victims s) \<inter> insert i X = {}"
    "set (freeL s) \<union> (set (fullL s) - {i}) \<union> victims s \<union> insert i X = {..<nB s}"
    using ok i unfolding lists_ok_def by blast+
  show ?thesis
    using ok i dist d unfolding full_list_remove_def Let_def lists_ok_def by (simp add: st len)
qed

lemma get_line_ok: "unat (g_blk p) = b \<Longrightarrow> b < length (lns s) \<Longrightarrow> get_line s p = Some (lns s ! b)"
  by (simp add: get_line_def)

lemma upd_line_ok: "unat (g_blk p) = b \<Longrightarrow> b < length (lns s) \<Longrightarrow>
    upd_line s p f = Some (s\<lparr>ssd_lm := (ssd_lm s)\<lparr>lm_lines := (lns s)[b := f (lns s ! b)]\<rparr>\<rparr>)"
  by (simp add: upd_line_def upd_at_def)

lemma lists_ok_upd_line:
  assumes ok: "lists_ok s X" and b: "b < nB s" and l: "line_id l = int b" "line_pos l = line_pos (lns s ! b)"
    and v: "b \<in> victims s \<Longrightarrow> line_vpc l = line_vpc (lns s ! b)"
  shows "lists_ok (s\<lparr>ssd_lm := (ssd_lm s)\<lparr>lm_lines := (lns s)[b := l]\<rparr>\<rparr>) X"
proof -
  have len: "length (lns s) = nB s" and id: "\<forall>b<nB s. line_id (lns s ! b) = int b"
    and q: "vq.pq_ok (vicQ s) (lns s)"
    and pos: "\<forall>b<nB s. b \<notin> victims s \<longrightarrow> line_pos (lns s ! b) = 0"
    using ok unfolding lists_ok_def by blast+
  have "vq.pq_ok (vicQ s) ((lns s)[b := l])"
    using b l v len by (intro vq_ok_cong [OF q]) (simp_all add: nth_list_update)
  moreover have "\<forall>i<nB s. line_id ((lns s)[b := l] ! i) = int i"
    using id l b by (simp add: nth_list_update len)
  moreover have "\<forall>i<nB s. i \<notin> victims s \<longrightarrow> line_pos ((lns s)[b := l] ! i) = 0"
    using pos l b by (simp add: nth_list_update len)
  ultimately show ?thesis using ok len unfolding lists_ok_def by simp
qed

lemma lists_ok_pos:
  assumes ok: "lists_ok s X" and b: "b < nB s"
  shows "line_pos (lns s ! b) \<noteq> 0 \<longleftrightarrow> b \<in> victims s"
proof -
  have q: "vq.pq_ok (vicQ s) (lns s)" and z: "b \<notin> victims s \<longrightarrow> line_pos (lns s ! b) = 0"
    using ok b unfolding lists_ok_def by blast+
  then show ?thesis using vq.pq_ok_pos [OF q, of b] by (auto simp: victim_line_get_pos_def)
qed

lemma lists_ok_requeue:
  assumes ok: "lists_ok s X" and q: "vq.pq_ok q' ls'" "pq_elems q' = victims s" "pq_avail q' = pq_avail (vicQ s)"
    and ls: "length ls' = length (lns s)" "\<And>i. i < nB s \<Longrightarrow> line_id (ls' ! i) = line_id (lns s ! i)"
      "\<And>i. i \<notin> victims s \<Longrightarrow> line_pos (ls' ! i) = line_pos (lns s ! i)"
  shows "lists_ok (s\<lparr>ssd_lm := (ssd_lm s)\<lparr>victim_line_pq := q', lm_lines := ls'\<rparr>\<rparr>) X"
  using ok q ls unfolding lists_ok_def by simp

lemma spri_nth: "d < length ls \<Longrightarrow> victim_line_set_pri ls d w ! i =
    (if i = d then (ls ! d)\<lparr>line_vpc := int_of_u64 w\<rparr> else ls ! i)"
  by (simp add: victim_line_set_pri_def nth_list_update_if)

lemma lower_priority_ok:
  assumes ok: "lists_ok s X" and b: "b \<in> victims s" and v: "0 \<le> v" "v < 2 ^ 31"
  shows "returns (pqueue_change_priority (vicQ s) (lns s) (u64_of_int v) b) (\<lambda>(q', ls').
    lists_ok (s\<lparr>ssd_lm := (ssd_lm s)\<lparr>victim_line_pq := q', lm_lines := ls'\<rparr>\<rparr>) X \<and>
    pq_elems q' = victims s \<and>
    lines_rest ls' = lines_rest ((lns s)[b := (lns s ! b)\<lparr>line_vpc := v\<rparr>]))"
proof -
  have q: "vq.pq_ok (vicQ s) (lns s)" and len: "length (lns s) = nB s"
    using ok by (auto simp: lists_ok_def)
  have lt: "b < length (lns s)" using lists_ok_lt [OF ok] b len by auto
  have w: "uint (u64_of_int v) < 2 ^ 31" and vw: "int_of_u64 (u64_of_int v) = v"
    using v by (simp_all add: uint_u64_of_int int_of_u64_of_int)
  from vq.pqueue_change_priority_ok [OF q b w]
  obtain q' ls' where r: "pqueue_change_priority (vicQ s) (lns s) (u64_of_int v) b = Some (q', ls')"
    and q': "vq.pq_ok q' ls'" "pq_elems q' = victims s" "pq_avail q' = pq_avail (vicQ s)"
    and rest: "lines_rest ls' = lines_rest (victim_line_set_pri (lns s) b (u64_of_int v))"
    and pos: "\<forall>x. x \<notin> victims s \<longrightarrow> victim_line_get_pos ls' x = victim_line_get_pos (lns s) x"
    by (auto elim!: returnsE)
  have set: "victim_line_set_pri (lns s) b (u64_of_int v) = (lns s)[b := (lns s ! b)\<lparr>line_vpc := v\<rparr>]"
    by (simp add: victim_line_set_pri_def vw)
  note rD = lines_restD [OF rest [unfolded set]]
  have "lists_ok (s\<lparr>ssd_lm := (ssd_lm s)\<lparr>victim_line_pq := q', lm_lines := ls'\<rparr>\<rparr>) X"
  proof (rule lists_ok_requeue [OF ok q'])
    show "line_id (ls' ! i) = line_id (lns s ! i)" if "i < nB s" for i
      using rD(2) [of i] that len lt by (simp add: nth_list_update)
  qed (use rD(1) pos in \<open>simp_all add: victim_line_get_pos_def\<close>)
  with r q' rest show ?thesis by (simp add: set)
qed

text \<open>The line part of \<^verbatim>\<open>mark_page_invalid\<close>: one page less valid, one more invalid.\<close>

definition line_moved :: "ssd \<Rightarrow> ssd \<Rightarrow> nat \<Rightarrow> bool" where
  "line_moved s s' b \<longleftrightarrow> length (lns s') = length (lns s) \<and>
     line_vpc (lns s' ! b) = line_vpc (lns s ! b) - 1 \<and> line_ipc (lns s' ! b) = line_ipc (lns s ! b) + 1 \<and>
     (\<forall>i<length (lns s). i \<noteq> b \<longrightarrow> line_vpc (lns s' ! i) = line_vpc (lns s ! i) \<and>
        line_ipc (lns s' ! i) = line_ipc (lns s ! i))"

lemma mark_page_invalid_line_ok:
  assumes geo: "geo_ok s" and ok: "lists_ok s X" and b: "unat (g_blk p) = b" "b < nB s"
    and v: "0 < line_vpc (lns s ! b)" "line_vpc (lns s ! b) \<le> int (P_ln s)"
    and k: "0 \<le> line_ipc (lns s ! b)" "line_ipc (lns s ! b) < int (P_ln s)"
    and full: "line_vpc (lns s ! b) = int (P_ln s) \<longleftrightarrow> b \<in> set (fullL s)"
      "b \<in> set (fullL s) \<Longrightarrow> line_ipc (lns s ! b) = 0"
  shows "returns (mark_page_invalid_line s p) (\<lambda>s'. lm_step s s' \<and> lists_ok s' X \<and> freeL s' = freeL s \<and>
    set (fullL s') = set (fullL s) - {b} \<and>
    victims s' = victims s \<union> (if b \<in> set (fullL s) then {b} else {}) \<and> line_moved s s' b)"
proof -
  have len: "length (lns s) = nB s" and id: "line_id (lns s ! b) = int b" using ok b by (auto simp: lists_ok_def)
  have lt: "b < length (lns s)" using b len by simp
  note ppl = ppl_int [OF geo]
  let ?l1 = "(lns s ! b)\<lparr>line_ipc := line_ipc (lns s ! b) + 1\<rparr>"
  let ?s1 = "s\<lparr>ssd_lm := (ssd_lm s)\<lparr>lm_lines := (lns s)[b := ?l1]\<rparr>\<rparr>"
  have ok1: "lists_ok ?s1 X" by (rule lists_ok_upd_line [OF ok b(2)]) (simp_all add: id)
  let ?l2 = "?l1\<lparr>line_vpc := line_vpc (lns s ! b) - 1\<rparr>"
  let ?s2 = "?s1\<lparr>ssd_lm := (ssd_lm ?s1)\<lparr>lm_lines := (lns ?s1)[b := ?l2]\<rparr>\<rparr>"
  have pos: "line_pos (lns s ! b) \<noteq> 0 \<longleftrightarrow> b \<in> victims s" by (rule lists_ok_pos [OF ok b(2)])
  have mv: "line_moved s s' b" if "lines_rest (lns s') = lines_rest (lns ?s2)" for s'
    using lines_restD [OF that] lt by (simp add: line_moved_def nth_list_update)
  have start: "mark_page_invalid_line s p = do {
      s \<leftarrow> (if b \<in> victims s then do {
            (q, ls) \<leftarrow> pqueue_change_priority (vicQ ?s1) (lns ?s1) (u64_of_int (line_vpc (lns s ! b) - 1)) b;
            Some (?s1\<lparr>ssd_lm := (ssd_lm ?s1)\<lparr>victim_line_pq := q, lm_lines := ls\<rparr>\<rparr>)
          } else Some ?s2);
      if b \<in> set (fullL s) then do { s \<leftarrow> full_list_remove s b; victim_insert s b } else Some s }"
    using v k full pos lt b(1) ppl
    by (cases "b \<in> set (fullL s)"; cases "b \<in> victims s")
      (simp_all add: mark_page_invalid_line_def get_line_ok upd_line_ok Let_def nth_list_update_if split_def)
  consider (vic) "b \<in> victims s" "b \<notin> set (fullL s)" | (full) "b \<in> set (fullL s)" "b \<notin> victims s"
    | (cur) "b \<notin> victims s" "b \<notin> set (fullL s)"
    using ok unfolding lists_ok_def by blast
  then show ?thesis
  proof cases
    case vic
    have "0 \<le> line_vpc (lns s ! b) - 1" "line_vpc (lns s ! b) - 1 < 2 ^ 31"
      using v P_ln_bound(3) [OF geo] by auto
    from lower_priority_ok [OF ok1 _ this, of b] vic(1) obtain q' ls' where
      "pqueue_change_priority (vicQ ?s1) (lns ?s1) (u64_of_int (line_vpc (lns s ! b) - 1)) b = Some (q', ls')"
      "lists_ok (?s1\<lparr>ssd_lm := (ssd_lm ?s1)\<lparr>victim_line_pq := q', lm_lines := ls'\<rparr>\<rparr>) X"
      "pq_elems q' = victims s" "lines_rest ls' = lines_rest (lns ?s2)"
      using lt by (auto elim!: returnsE simp: nth_list_update_if)
    with vic show ?thesis unfolding start by (simp add: mv)
  next
    case cur
    have "lists_ok ?s2 X" by (rule lists_ok_upd_line [OF ok1]) (use b cur lt id in auto)
    with cur show ?thesis unfolding start by (simp add: mv)
  next
    case full
    have "lists_ok ?s2 X" by (rule lists_ok_upd_line [OF ok1]) (use b full lt id in auto)
    from full_list_remove_ok [OF this, of b] full(1) obtain s3 where s3: "full_list_remove ?s2 b = Some s3"
      "lm_step ?s2 s3" "lists_ok s3 (insert b X)" "victims s3 = victims s" "freeL s3 = freeL s"
      "set (fullL s3) = set (fullL s) - {b}" "lns s3 = lns ?s2"
      by (auto elim!: returnsE)
    have bX: "b \<notin> X" using ok full(1) unfolding lists_ok_def by blast
    from victim_insert_ok [OF s3(3) insertI1] obtain s4 where s4: "victim_insert s3 b = Some s4"
      "lm_step s3 s4" "lists_ok s4 X" "victims s4 = insert b (victims s)" "freeL s4 = freeL s"
      "fullL s4 = fullL s3" "lines_rest (lns s4) = lines_rest (lns s3)"
      using bX s3 by (auto elim!: returnsE)
    have "lm_step s s4"
      using lm_step_trans [OF s3(2) s4(2)] by (auto simp: lm_step_def)
    moreover have "line_moved s s4 b" using s4(7) s3(7) by (intro mv) simp
    ultimately show ?thesis unfolding start using full s3(1,6) s4 by simp
  qed
qed

end
