(* ===== verification/FTL_Wp.thy ===== *)
theory FTL_Wp
  imports FTL_Lines
begin

text \<open>
  The write pointer: how far the current line is filled, and \<^verbatim>\<open>ssd_advance_write_pointer\<close>.
\<close>

section \<open>The order in which a line is filled\<close>

text \<open>Pages are written channel first, then chip, then page number.\<close>

definition pord :: "ssd \<Rightarrow> nat \<Rightarrow> nat \<Rightarrow> nat \<Rightarrow> nat" where
  "pord s c l g = (g * nL s + l) * nC s + c"

definition wp_n :: "ssd \<Rightarrow> nat" where
  "wp_n s = pord s (nat (wp_ch (ssd_wp s))) (nat (wp_lun (ssd_wp s))) (nat (wp_pg (ssd_wp s)))"

definition wp_ok :: "ssd \<Rightarrow> nat \<Rightarrow> bool" where
  "wp_ok s cur \<longleftrightarrow> (let w = ssd_wp s in wp_curline w = Some cur \<and> wp_blk w = int cur \<and> wp_pl w = 0 \<and>
     0 \<le> wp_ch w \<and> wp_ch w < int (nC s) \<and> 0 \<le> wp_lun w \<and> wp_lun w < int (nL s) \<and>
     0 \<le> wp_pg w \<and> wp_pg w < int (nG s) \<and> cur < nB s)"

text \<open>Exactly the first \<open>n\<close> pages of the current line are written.\<close>

definition fill :: "ssd \<Rightarrow> nat \<Rightarrow> nat \<Rightarrow> bool" where
  "fill s cur n \<longleftrightarrow> (\<forall>c l g. (c, l, g) \<in> pg_idx s \<longrightarrow> (pst s c l cur g \<noteq> PG_FREE \<longleftrightarrow> pord s c l g < n))"

lemma mult_add_less: "a < n \<Longrightarrow> b < m \<Longrightarrow> a * m + b < n * (m::nat)"
proof -
  assume "a < n" "b < m"
  then have "a * m + b < (a + 1) * m" by simp
  also have "(a + 1) * m \<le> n * m" using \<open>a < n\<close> by (intro mult_le_mono1) simp
  finally show ?thesis .
qed

lemma mult_add_inj: "a * m + b = a' * m + b' \<Longrightarrow> b < m \<Longrightarrow> b' < (m::nat) \<Longrightarrow> a = a' \<and> b = b'"
  by (metis add.commute div_mult_self1 div_less add_cancel_right_left mod_less mod_mult_self1 not_less0)

lemma pord_less: "(c, l, g) \<in> pg_idx s \<Longrightarrow> pord s c l g < P_ln s"
proof -
  assume i: "(c, l, g) \<in> pg_idx s"
  then have "g * nL s + l < nG s * nL s" by (intro mult_add_less) (auto simp: pg_idx_def)
  then have "(g * nL s + l) * nC s + c < (nG s * nL s) * nC s"
    using i by (intro mult_add_less) (auto simp: pg_idx_def)
  then show ?thesis by (simp add: pord_def P_ln_def mult.commute mult.left_commute)
qed

lemma pord_inj:
  assumes "pord s c l g = pord s c' l' g'" "(c, l, g) \<in> pg_idx s" "(c', l', g') \<in> pg_idx s"
  shows "c = c' \<and> l = l' \<and> g = g'"
proof -
  have "g * nL s + l = g' * nL s + l' \<and> c = c'"
    using assms by (intro mult_add_inj) (auto simp: pord_def pg_idx_def)
  moreover from this have "g = g' \<and> l = l'"
    using assms(2,3) by (intro mult_add_inj [of g "nL s" l g' l']) (auto simp: pg_idx_def)
  ultimately show ?thesis by simp
qed

lemma wp_okE:
  assumes "wp_ok s cur"
  obtains c l g where "ssd_wp s = \<lparr>wp_curline = Some cur, wp_ch = int c, wp_lun = int l, wp_pg = int g,
      wp_blk = int cur, wp_pl = 0\<rparr>" "in_pg s c l cur g" "wp_n s = pord s c l g"
proof -
  let ?w = "ssd_wp s"
  have "?w = \<lparr>wp_curline = Some cur, wp_ch = int (nat (wp_ch ?w)), wp_lun = int (nat (wp_lun ?w)),
      wp_pg = int (nat (wp_pg ?w)), wp_blk = int cur, wp_pl = 0\<rparr>"
    using assms by (cases ?w) (simp add: wp_ok_def)
  moreover have "in_pg s (nat (wp_ch ?w)) (nat (wp_lun ?w)) cur (nat (wp_pg ?w))"
    using assms by (auto simp: wp_ok_def Let_def in_pg_def in_blk_def in_lun_def)
  ultimately show ?thesis by (rule that) (simp add: wp_n_def)
qed

lemma wp_n_less: "wp_ok s cur \<Longrightarrow> wp_n s < P_ln s"
  by (erule wp_okE) (auto simp: in_pg_idx intro: pord_less)

lemma cnt_all: "cnt s b st = P_ln s \<longleftrightarrow> (\<forall>c l g. (c, l, g) \<in> pg_idx s \<longrightarrow> pst s c l b g = st)"
proof
  assume "cnt s b st = P_ln s"
  then have "{i \<in> pg_idx s. (case i of (c, l, g) \<Rightarrow> pst s c l b g) = st} = pg_idx s"
    unfolding cnt_def card_pg_idx [symmetric] by (intro card_subset_eq) auto
  then have "\<forall>i\<in>pg_idx s. (case i of (c, l, g) \<Rightarrow> pst s c l b g) = st" by blast
  then show "\<forall>c l g. (c, l, g) \<in> pg_idx s \<longrightarrow> pst s c l b g = st" by fastforce
next
  assume a: "\<forall>c l g. (c, l, g) \<in> pg_idx s \<longrightarrow> pst s c l b g = st"
  then have "{i \<in> pg_idx s. (case i of (c, l, g) \<Rightarrow> pst s c l b g) = st} = pg_idx s" by auto
  then show "cnt s b st = P_ln s" by (simp add: cnt_def card_pg_idx)
qed

lemma fill_none: "cnt s b PG_FREE = P_ln s \<Longrightarrow> fill s b 0"
  by (simp add: fill_def cnt_all)

lemma fill_all: "fill s b (P_ln s) \<Longrightarrow> cnt s b PG_FREE = 0"
  by (simp add: fill_def cnt_zero pord_less)

section \<open>The invariant of blocks, lines and write pointer\<close>

text \<open>
  \<open>D\<close> holds the line under garbage collection, \<open>cur\<close> is the current line; \<open>k\<close> is 1 between
  the writing of the page at the write pointer and the advance of the pointer.
\<close>

definition lines_inv :: "ssd \<Rightarrow> nat set \<Rightarrow> nat \<Rightarrow> nat \<Rightarrow> bool" where
  "lines_inv s D cur k \<longleftrightarrow> geo_ok s \<and> blks_ok s \<and> lists_ok s (insert cur D) \<and> cur \<notin> D \<and>
     counts_ok s D \<and> content_ok s \<and> wp_ok s cur \<and> fill s cur (wp_n s + k)"

lemma lines_invD:
  assumes "lines_inv s D cur k"
  shows "geo_ok s" "blks_ok s" "lists_ok s (insert cur D)" "cur \<notin> D" "counts_ok s D" "content_ok s"
    "wp_ok s cur" "fill s cur (wp_n s + k)" "cur < nB s"
  using assms lists_ok_lt [of s "insert cur D" cur] by (auto simp: lines_inv_def)

text \<open>How many more pages can be placed before the free lines are used up.\<close>

definition room :: "ssd \<Rightarrow> nat" where
  "room s = length (freeL s) * P_ln s + (P_ln s - wp_n s)"

text \<open>A step on the lines and the write pointer only.\<close>

definition soft_step :: "ssd \<Rightarrow> ssd \<Rightarrow> bool" where
  "soft_step s s' \<longleftrightarrow> (\<exists>lm w. s' = s\<lparr>ssd_lm := lm, ssd_wp := w\<rparr>)"

lemma view_upd_wp [simp]:
  "nC (s\<lparr>ssd_wp := w\<rparr>) = nC s" "nL (s\<lparr>ssd_wp := w\<rparr>) = nL s"
  "nB (s\<lparr>ssd_wp := w\<rparr>) = nB s" "nG (s\<lparr>ssd_wp := w\<rparr>) = nG s"
  "P_ln (s\<lparr>ssd_wp := w\<rparr>) = P_ln s" "pg_idx (s\<lparr>ssd_wp := w\<rparr>) = pg_idx s"
  "pst (s\<lparr>ssd_wp := w\<rparr>) = pst s" "cnt (s\<lparr>ssd_wp := w\<rparr>) = cnt s"
  "blk_at (s\<lparr>ssd_wp := w\<rparr>) = blk_at s" "lun_at (s\<lparr>ssd_wp := w\<rparr>) = lun_at s"
  "geo_ok (s\<lparr>ssd_wp := w\<rparr>) = geo_ok s" "blks_ok (s\<lparr>ssd_wp := w\<rparr>) = blks_ok s"
  "in_pg (s\<lparr>ssd_wp := w\<rparr>) = in_pg s" "pord (s\<lparr>ssd_wp := w\<rparr>) = pord s"
  "pord (s\<lparr>ssd_lm := lm\<rparr>) = pord s"
  "lists_ok (s\<lparr>ssd_wp := w\<rparr>) X = lists_ok s X" "counts_ok (s\<lparr>ssd_wp := w\<rparr>) X = counts_ok s X"
  "content_ok (s\<lparr>ssd_wp := w\<rparr>) = content_ok s" "fill (s\<lparr>ssd_wp := w\<rparr>) = fill s"
  "fill (s\<lparr>ssd_lm := lm\<rparr>) = fill s" "wp_n (s\<lparr>ssd_lm := lm\<rparr>) = wp_n s" "wp_ok (s\<lparr>ssd_lm := lm\<rparr>) = wp_ok s"
  by (simp_all add: nC_def nL_def nB_def nG_def P_ln_def pg_idx_def pst_def [abs_def] cnt_def [abs_def]
      blk_at_def [abs_def] lun_at_def [abs_def] geo_ok_def blks_ok_def in_blk_def in_lun_def in_pg_def [abs_def]
      bcnt_def [abs_def] pord_def [abs_def] lists_ok_def counts_ok_def content_ok_def fill_def [abs_def]
      wp_n_def wp_ok_def [abs_def])

section \<open>Advancing the write pointer\<close>

lemma wp_retire_line_ok:
  assumes geo: "geo_ok s" and ok: "lists_ok s (insert cur D)" and cD: "cur \<notin> D" and cs: "counts_ok s D"
    and con: "content_ok s" and w: "wp_curline (ssd_wp s) = Some cur" and z: "cnt s cur PG_FREE = 0"
  shows "returns (wp_retire_line s) (\<lambda>s'. lm_step s s' \<and> lists_ok s' D \<and> counts_ok s' D \<and>
    content_ok s' \<and> freeL s' = freeL s)"
proof -
  have len: "length (lns s) = nB s" and lt: "cur < nB s"
    using ok lists_ok_lt [OF ok] by (auto simp: lists_ok_def)
  have v: "line_vpc (lns s ! cur) = int (cnt s cur PG_VALID)"
    and i: "line_ipc (lns s ! cur) = int (cnt s cur PG_INVALID)"
    using cs cD lt by (auto simp: counts_ok_def)
  have tot: "cnt s cur PG_INVALID + cnt s cur PG_VALID = P_ln s" using cnt_total [of s cur] z by simp
  note ppl = ppl_int [OF geo]
  show ?thesis
  proof (cases "cnt s cur PG_VALID = P_ln s")
    case True
    let ?s' = "s\<lparr>ssd_lm := (ssd_lm s)\<lparr>full_line_list := fullL s @ [cur],
        full_line_cnt := full_line_cnt (ssd_lm s) + 1\<rparr>\<rparr>"
    have r: "wp_retire_line s = Some ?s'"
      using w len lt v i tot True ppl by (simp add: wp_retire_line_def Let_def)
    have d: "set (freeL s) \<inter> insert cur (set (fullL s)) = {}"
      "(set (freeL s) \<union> insert cur (set (fullL s))) \<inter> victims s = {}"
      "(set (freeL s) \<union> insert cur (set (fullL s)) \<union> victims s) \<inter> D = {}" "cur \<notin> set (fullL s)"
      "set (freeL s) \<union> insert cur (set (fullL s)) \<union> victims s \<union> D = {..<nB s}"
      using ok cD unfolding lists_ok_def by blast+
    have "lists_ok ?s' D" using ok d unfolding lists_ok_def by simp
    moreover have "content_ok ?s'" using con True by (simp add: content_ok_def)
    ultimately show ?thesis using r cs by (simp add: counts_ok_def)
  next
    case False
    then have lt2: "cnt s cur PG_VALID < P_ln s" "0 < cnt s cur PG_INVALID" using tot by auto
    have r: "wp_retire_line s = victim_insert s cur"
      using w len lt v i lt2 ppl by (simp add: wp_retire_line_def Let_def)
    have D: "insert cur D - {cur} = D" using cD by simp
    show ?thesis
      unfolding r
    proof (rule returns_mono [OF victim_insert_ok [OF ok insertI1]], clarify, intro conjI)
      fix s' assume l: "lm_step s s'" and ok': "lists_ok s' (insert cur D - {cur})"
        and vs: "victims s' = insert cur (victims s)" and f: "freeL s' = freeL s" "fullL s' = fullL s"
        and rest: "lines_rest (lns s') = lines_rest (lns s)"
      show "counts_ok s' D" by (rule counts_ok_rest [OF cs l rest len])
      show "content_ok s'" using con lt2 z by (simp add: content_ok_def lm_step_fields [OF l] vs f)
      show "lists_ok s' D" using ok' by (simp add: D)
    qed
  qed
qed

lemma wp_next_line_ok:
  assumes geo: "geo_ok s" and ok: "lists_ok s D" and con: "content_ok s" and f: "freeL s = f # fs"
    and blk: "0 \<le> wp_blk (ssd_wp s)" "wp_blk (ssd_wp s) < int (nB s)"
    and w: "wp_pg (ssd_wp s) = 0" "wp_lun (ssd_wp s) = 0" "wp_ch (ssd_wp s) = 0" "wp_pl (ssd_wp s) = 0"
  defines "s' \<equiv> s\<lparr>ssd_lm := (ssd_lm s)\<lparr>free_line_list := fs, free_line_cnt := free_line_cnt (ssd_lm s) - 1\<rparr>,
    ssd_wp := \<lparr>wp_curline = Some f, wp_ch = 0, wp_lun = 0, wp_pg = 0, wp_blk = int f, wp_pl = 0\<rparr>\<rparr>"
  shows "wp_next_line s = Some s'" "lists_ok s' (insert f D)" "f \<notin> D" "content_ok s'"
    "cnt s f PG_FREE = P_ln s" "f < nB s"
proof -
  have f': "f \<in> set (freeL s)" using f by simp
  show lt: "f < nB s" using lists_ok_lt [OF ok, of f] f' by blast
  have len: "length (lns s) = nB s" and id: "line_id (lns s ! f) = int f"
    using ok lt by (auto simp: lists_ok_def)
  have "ssd_wp s = \<lparr>wp_curline = wp_curline (ssd_wp s), wp_ch = 0, wp_lun = 0, wp_pg = 0,
      wp_blk = wp_blk (ssd_wp s), wp_pl = 0\<rparr>"
    using w by (cases "ssd_wp s") simp
  then show "wp_next_line s = Some s'"
    using f lt len id blk w dims_int(3) [OF geo]
    by (cases "ssd_wp s") (simp add: wp_next_line_def check_addr_def get_next_free_line_def Let_def s'_def)
  show "f \<notin> D" using ok f' unfolding lists_ok_def by blast
  have nf: "f \<notin> set fs" using ok f by (auto simp: lists_ok_def)
  have d: "distinct fs" "set fs \<inter> set (fullL s) = {}" "(set fs \<union> set (fullL s)) \<inter> victims s = {}"
    "(set fs \<union> set (fullL s) \<union> victims s) \<inter> insert f D = {}"
    "set fs \<union> set (fullL s) \<union> victims s \<union> insert f D = {..<nB s}"
    using ok nf unfolding lists_ok_def f by auto
  show "lists_ok s' (insert f D)"
    using ok d f unfolding lists_ok_def s'_def by simp
  show "content_ok s'" "cnt s f PG_FREE = P_ln s"
    using con f by (simp_all add: content_ok_def s'_def)
qed

text \<open>
  One advance. The caller has just written the page at the pointer; if that was the last
  page of the line, a free line must be left.
\<close>

lemma pord_next_ch: "Suc (pord s c l g) = pord s (Suc c) l g"
  by (simp add: pord_def)

lemma pord_next_lun: "nC s = Suc c \<Longrightarrow> Suc (pord s c l g) = pord s 0 (Suc l) g"
  by (simp add: pord_def)

lemma pord_next_pg: "nC s = Suc c \<Longrightarrow> nL s = Suc l \<Longrightarrow> Suc (pord s c l g) = pord s 0 0 (Suc g)"
  by (simp add: pord_def algebra_simps)

lemma pord_last: "nC s = Suc c \<Longrightarrow> nL s = Suc l \<Longrightarrow> nG s = Suc g \<Longrightarrow> Suc (pord s c l g) = P_ln s"
  by (simp add: pord_def P_ln_def algebra_simps)

text \<open>Where the pointer stands after one advance within the line.\<close>

definition wp_set :: "ssd \<Rightarrow> nat \<Rightarrow> nat \<Rightarrow> nat \<Rightarrow> nat \<Rightarrow> ssd" where
  "wp_set s cur c l g = s\<lparr>ssd_wp := \<lparr>wp_curline = Some cur, wp_ch = int c, wp_lun = int l, wp_pg = int g,
     wp_blk = int cur, wp_pl = 0\<rparr>\<rparr>"

lemma advance_cases:
  assumes geo: "geo_ok s" and w: "wp_ok s cur"
  shows "(\<exists>c l g. ssd_advance_write_pointer s = Some (wp_set s cur c l g) \<and> in_pg s c l cur g \<and>
      wp_n s + 1 = pord s c l g \<and> wp_n s + 1 < P_ln s) \<or>
    wp_n s + 1 = P_ln s \<and>
    ssd_advance_write_pointer s = wp_retire_line (wp_set s cur 0 0 0) \<bind> wp_next_line"
proof -
  note dims = dims_int [OF geo]
  from w obtain c l g where wp: "ssd_wp s = \<lparr>wp_curline = Some cur, wp_ch = int c, wp_lun = int l,
      wp_pg = int g, wp_blk = int cur, wp_pl = 0\<rparr>" and i: "in_pg s c l cur g" and n: "wp_n s = pord s c l g"
    by (rule wp_okE)
  have b: "c < nC s" "l < nL s" "g < nG s" "cur < nB s"
    using i by (auto simp: in_pg_def in_blk_def in_lun_def)
  note adv = ssd_advance_write_pointer_def check_addr_def Let_def wp dims wp_set_def
  consider (ch) "Suc c < nC s" | (lun) "nC s = Suc c" "Suc l < nL s"
    | (pg) "nC s = Suc c" "nL s = Suc l" "Suc g < nG s" | (last) "nC s = Suc c" "nL s = Suc l" "nG s = Suc g"
    using b by linarith
  then show ?thesis
  proof cases
    case ch
    then have "ssd_advance_write_pointer s = Some (wp_set s cur (Suc c) l g)" using b by (simp add: adv)
    moreover have j: "in_pg s (Suc c) l cur g" using i ch by (simp add: in_pg_def in_blk_def in_lun_def)
    ultimately show ?thesis
      using pord_next_ch [of s c l g] pord_less [of "Suc c" l g s] n by (auto simp: in_pg_idx)
  next
    case lun
    then have "ssd_advance_write_pointer s = Some (wp_set s cur 0 (Suc l) g)" using b by (simp add: adv)
    moreover have j: "in_pg s 0 (Suc l) cur g" using i lun by (simp add: in_pg_def in_blk_def in_lun_def)
    ultimately show ?thesis
      using pord_next_lun [OF lun(1), of l g] pord_less [of 0 "Suc l" g s] n by (auto simp: in_pg_idx)
  next
    case pg
    then have "ssd_advance_write_pointer s = Some (wp_set s cur 0 0 (Suc g))" using b by (simp add: adv)
    moreover have j: "in_pg s 0 0 cur (Suc g)" using i pg by (simp add: in_pg_def in_blk_def in_lun_def)
    ultimately show ?thesis
      using pord_next_pg [OF pg(1,2), of g] pord_less [of 0 0 "Suc g" s] n by (auto simp: in_pg_idx)
  next
    case last
    then have "ssd_advance_write_pointer s = wp_retire_line (wp_set s cur 0 0 0) \<bind> wp_next_line"
      using b by (simp add: adv)
    then show ?thesis using pord_last [OF last] n by simp
  qed
qed

lemma soft_step_fields:
  assumes "soft_step s s'"
  shows "ssd_sp s' = ssd_sp s" "ssd_maptbl s' = ssd_maptbl s" "ssd_rmap s' = ssd_rmap s"
    "ssd_klog s' = ssd_klog s" "pst s' = pst s" "cnt s' = cnt s"
    "geo_ok s' = geo_ok s" "blks_ok s' = blks_ok s" "nB s' = nB s" "P_ln s' = P_ln s"
    "nC s' = nC s" "nL s' = nL s" "nG s' = nG s" "ssd_stack_ppa s' = ssd_stack_ppa s"
  using assms by (auto simp: soft_step_def)

lemma advance_ok:
  assumes inv: "lines_inv s D cur 1" and room: "1 < room s"
  shows "returns (ssd_advance_write_pointer s) (\<lambda>s'. \<exists>cur'. lines_inv s' D cur' 0 \<and> soft_step s s' \<and>
    room s' + 1 = room s)"
proof -
  note I = lines_invD [OF inv]
  from advance_cases [OF I(1,7)] show ?thesis
  proof (elim disjE exE conjE)
    fix c l g
    assume adv: "ssd_advance_write_pointer s = Some (wp_set s cur c l g)" and i: "in_pg s c l cur g"
      and n: "wp_n s + 1 = pord s c l g" "wp_n s + 1 < P_ln s"
    have wn: "wp_n (wp_set s cur c l g) = wp_n s + 1"
      using n by (simp add: wp_n_def wp_set_def)
    have "wp_ok (wp_set s cur c l g) cur"
      using i by (simp add: wp_ok_def wp_set_def Let_def in_pg_def in_blk_def in_lun_def)
    with inv wn have "lines_inv (wp_set s cur c l g) D cur 0"
      unfolding lines_inv_def by (simp add: wp_set_def)
    moreover have "soft_step s (wp_set s cur c l g)"
      unfolding soft_step_def wp_set_def by (metis ssd.surjective ssd.update_convs(6))
    ultimately show ?thesis
      using adv n wn by (auto simp: room_def wp_set_def)
  next
    assume n: "wp_n s + 1 = P_ln s"
      and adv: "ssd_advance_write_pointer s = wp_retire_line (wp_set s cur 0 0 0) \<bind> wp_next_line"
    let ?s0 = "wp_set s cur 0 0 0"
    have z: "cnt s cur PG_FREE = 0" using I(8) n by (intro fill_all) simp
    obtain f fs where f: "freeL s = f # fs"
      using room n by (cases "freeL s") (auto simp: room_def)
    have "returns (wp_retire_line ?s0) (\<lambda>s'. lm_step ?s0 s' \<and> lists_ok s' D \<and> counts_ok s' D \<and>
      content_ok s' \<and> freeL s' = freeL ?s0)"
      by (rule wp_retire_line_ok) (use I z in \<open>simp_all add: wp_set_def\<close>)
    then obtain s1 where s1: "wp_retire_line ?s0 = Some s1" "lm_step ?s0 s1" "lists_ok s1 D"
      "counts_ok s1 D" "content_ok s1" "freeL s1 = f # fs"
      using f by (auto elim!: returnsE simp: wp_set_def)
    note L = lm_step_fields [OF s1(2)]
    have w: "ssd_wp s1 = \<lparr>wp_curline = Some cur, wp_ch = 0, wp_lun = 0, wp_pg = 0, wp_blk = int cur, wp_pl = 0\<rparr>"
      by (simp add: L wp_set_def)
    have geo1: "geo_ok s1" using I(1) by (simp add: L wp_set_def)
    let ?s2 = "s1\<lparr>ssd_lm := (ssd_lm s1)\<lparr>free_line_list := fs, free_line_cnt := free_line_cnt (ssd_lm s1) - 1\<rparr>,
      ssd_wp := \<lparr>wp_curline = Some f, wp_ch = 0, wp_lun = 0, wp_pg = 0, wp_blk = int f, wp_pl = 0\<rparr>\<rparr>"
    have N: "wp_next_line s1 = Some ?s2" "lists_ok ?s2 (insert f D)" "f \<notin> D" "content_ok ?s2"
      "cnt s1 f PG_FREE = P_ln s1" "f < nB s1"
      by (rule wp_next_line_ok [OF geo1 s1(3,5,6)]; simp add: w L wp_set_def I)+
    have "wp_ok ?s2 f" using N(6) dims_bound [OF geo1] by (simp add: wp_ok_def)
    moreover have wn: "wp_n ?s2 = 0" by (simp add: wp_n_def pord_def)
    moreover have "fill ?s2 f 0" using N(5) by (intro fill_none) simp
    moreover have "blks_ok s1" using I(2) by (simp add: L wp_set_def)
    moreover have "counts_ok ?s2 D" using s1(4) by (simp add: counts_ok_def)
    ultimately have "lines_inv ?s2 D f 0" using N geo1 by (simp add: lines_inv_def)
    moreover have "soft_step s ?s2"
      using s1(2) unfolding lm_step_def soft_step_def wp_set_def by force
    moreover have "P_ln s1 = P_ln s" by (simp add: L wp_set_def)
    then have "room ?s2 + 1 = room s" using n f wn by (simp add: room_def)
    ultimately show ?thesis using adv s1(1) N(1) by auto
  qed
qed

end
