(* ===== verification/FTL_Media.thy ===== *)
theory FTL_Media
  imports FTL_Wp
begin

text \<open>
  The operations of \<^verbatim>\<open>ftl.c\<close> that change page states or chip times, as steps on the views:
  marking a page invalid or valid, erasing a block, and the pure passing of time.
\<close>

section \<open>Changing one block\<close>

lemma put_blk_put_blk:
  assumes "geo_ok s" "in_blk s c l b" "blk_shape (ssd_sp s) x"
  shows "put_blk (put_blk s c l b x) c l b y = put_blk s c l b y"
proof -
  have l: "in_lun s c l" using assms(2) by (simp add: in_blk_def)
  have eq: "lun_at (put_blk s c l b x) c l = (lun_at s c l)\<lparr>lun_pl := (lun_pl (lun_at s c l))[0 :=
     (lun_pl (lun_at s c l) ! 0)\<lparr>pl_blk := (pl_blk (lun_pl (lun_at s c l) ! 0))[b := x]\<rparr>]\<rparr>"
    by (simp add: put_blk_def lun_at_put_lun [OF assms(1) l])
  have two: "put_lun (put_lun s c l u) c l v = put_lun s c l v" for u v
    using geo_lens(1,2) [OF assms(1) l] by (simp add: put_lun_def)
  show ?thesis
    unfolding put_blk_def [of "put_blk s c l b x"] eq
    using geo_lens(4) [OF assms(1) l] by (simp add: put_blk_def two)
qed

lemma pst_put_blk:
  assumes "geo_ok s" "in_blk s c l b"
  shows "pst (put_blk s c l b x) c' l' b' g' =
    (if c' = c \<and> l' = l \<and> b' = b then pg_stat (blk_pg x ! g') else pst s c' l' b' g')"
  by (simp add: pst_def blk_at_put_blk [OF assms])

lemma set_pg_nth:
  "g < length (blk_pg B) \<Longrightarrow> pg_stat (blk_pg (set_pg g st B) ! g') = (if g' = g then st else pg_stat (blk_pg B ! g'))"
  by (simp add: set_pg_def nth_list_update)

lemma set_pg_counts [simp]: "blk_vpc (set_pg g st B) = blk_vpc B" "blk_ipc (set_pg g st B) = blk_ipc B"
  by (simp_all add: set_pg_def)

text \<open>The block \<open>B\<close> with page \<open>g\<close> in state \<open>st\<close> and new counters.\<close>

lemma put_pg_changed:
  assumes geo: "geo_ok s" and pg: "in_pg s c l b g"
    and x: "blk_pg x = blk_pg (set_pg g st (blk_at s c l b))" "blk_npgs x = blk_npgs (blk_at s c l b)"
  shows "pg_changed s (put_blk s c l b x) c l b g st" "geo_ok (put_blk s c l b x)"
proof -
  have ib: "in_blk s c l b" using pg by (simp add: in_pg_def)
  note len = geo_pg [OF geo pg]
  show "pg_changed s (put_blk s c l b x) c l b g st"
    by (auto simp: pg_changed_def pst_def blk_at_put_blk [OF geo ib] x set_pg_nth [OF len])
  have "blk_shape (ssd_sp s) (set_pg g st (blk_at s c l b))"
    by (rule blk_shape_set_pg [OF geo_blk(2) [OF geo ib] len])
  then have "blk_shape (ssd_sp s) x"
    using geo_blk(2) [OF geo ib] x by (simp add: blk_shape_def)
  then show "geo_ok (put_blk s c l b x)" by (rule geo_put_blk [OF geo ib])
qed

definition delta :: "pg_status \<Rightarrow> pg_status \<Rightarrow> pg_status \<Rightarrow> int" where
  "delta old new z = (if z = new then 1 else if z = old then - 1 else 0)"

lemma blks_ok_changed:
  assumes ok: "blks_ok s" and ch: "pg_changed s s' c l b g st" and pg: "in_pg s c l b g"
    and ne: "pst s c l b g \<noteq> st"
    and same: "\<And>c' l' b'. (c', l', b') \<noteq> (c, l, b) \<Longrightarrow> blk_at s' c' l' b' = blk_at s c' l' b'"
    and v: "blk_vpc (blk_at s' c l b) = blk_vpc (blk_at s c l b) + delta (pst s c l b g) st PG_VALID"
    and i: "blk_ipc (blk_at s' c l b) = blk_ipc (blk_at s c l b) + delta (pst s c l b g) st PG_INVALID"
  shows "blks_ok s'"
  unfolding blks_ok_def
proof (intro allI impI)
  fix c' l' b'
  have sp: "ssd_sp s' = ssd_sp s" using ch by (simp add: pg_changed_def)
  assume "in_blk s' c' l' b'"
  then have ib: "in_blk s c' l' b'" by (simp add: dims_eq(6) [OF sp])
  note B = bcnt_changed [OF ch pg ne ib] and O = blks_okD [OF ok ib]
  show "blk_vpc (blk_at s' c' l' b') = int (bcnt s' c' l' b' PG_VALID) \<and>
    blk_ipc (blk_at s' c' l' b') = int (bcnt s' c' l' b' PG_INVALID)"
  proof (cases "(c', l', b') = (c, l, b)")
    case True
    then show ?thesis using B O v i by (simp add: delta_def)
  next
    case False
    have "\<not> (c' = c \<and> l' = l \<and> b' = b)" using False by simp
    then show ?thesis unfolding same [OF False] B using O by (simp only: if_False) simp
  qed
qed

lemma counts_ok_changed:
  assumes ok: "counts_ok s D" and ch: "pg_changed s s' c l b g st" and pg: "in_pg s c l b g"
    and ne: "pst s c l b g \<noteq> st"
    and same: "\<And>i. i < nB s \<Longrightarrow> i \<noteq> b \<Longrightarrow> line_vpc (lns s' ! i) = line_vpc (lns s ! i) \<and>
      line_ipc (lns s' ! i) = line_ipc (lns s ! i)"
    and v: "line_vpc (lns s' ! b) = line_vpc (lns s ! b) + delta (pst s c l b g) st PG_VALID"
    and i: "line_ipc (lns s' ! b) = line_ipc (lns s ! b) + delta (pst s c l b g) st PG_INVALID"
  shows "counts_ok s' D"
  unfolding counts_ok_def
proof (intro allI impI)
  fix b' assume "b' < nB s'" "b' \<notin> D"
  moreover have sp: "ssd_sp s' = ssd_sp s" using ch by (simp add: pg_changed_def)
  ultimately have b': "b' < nB s" "b' \<notin> D" by (simp_all add: dims_eq(3) [OF sp])
  note B = cnt_changed [OF ch pg ne b'(1)]
  have O: "line_vpc (lns s ! b') = int (cnt s b' PG_VALID)" "line_ipc (lns s ! b') = int (cnt s b' PG_INVALID)"
    using ok b' by (auto simp: counts_ok_def)
  show "line_vpc (lns s' ! b') = int (cnt s' b' PG_VALID) \<and> line_ipc (lns s' ! b') = int (cnt s' b' PG_INVALID)"
    using same [OF b'(1)] B O v i by (cases "b' = b") (auto simp: delta_def)
qed

text \<open>The tables and the log are left alone; so is the free list.\<close>

definition keeps :: "ssd \<Rightarrow> ssd \<Rightarrow> bool" where
  "keeps s s' \<longleftrightarrow> ssd_sp s' = ssd_sp s \<and> ssd_maptbl s' = ssd_maptbl s \<and> ssd_rmap s' = ssd_rmap s \<and>
     ssd_wp s' = ssd_wp s \<and> ssd_klog s' = ssd_klog s \<and> freeL s' = freeL s"

lemma keeps_refl [simp]: "keeps s s"
  by (simp add: keeps_def)

lemma keeps_trans: "keeps s s' \<Longrightarrow> keeps s' s'' \<Longrightarrow> keeps s s''"
  by (simp add: keeps_def)

lemma dims_wp: "ssd_sp s' = ssd_sp s \<Longrightarrow> pord s' = pord s"
  by (simp add: pord_def [abs_def] nC_def nL_def)

lemma wp_cong:
  assumes "ssd_sp s' = ssd_sp s" "ssd_wp s' = ssd_wp s"
  shows "wp_n s' = wp_n s" "wp_ok s' b = wp_ok s b"
  using assms(2) dims_wp [OF assms(1)] dims_eq [OF assms(1)] by (simp_all add: wp_n_def wp_ok_def)

lemma keeps_room: "keeps s s' \<Longrightarrow> room s' = room s"
  using wp_cong(1) [of s' s] P_ln_cong [of s' s] by (simp add: room_def keeps_def)

section \<open>Marking pages\<close>

lemma mark_page_invalid_blk_ok:
  assumes geo: "geo_ok s" and bo: "blks_ok s" and pg: "in_pg s c l b g" and p: "at_pg p c l b g"
    and st: "pst s c l b g = PG_VALID"
  shows "returns (mark_page_invalid_blk s p) (\<lambda>s'. pg_changed s s' c l b g PG_INVALID \<and> geo_ok s' \<and>
    blks_ok s' \<and> keeps s s' \<and> ssd_lm s' = ssd_lm s)"
proof -
  let ?B = "blk_at s c l b"
  let ?B1 = "set_pg g PG_INVALID ?B"
  let ?B2 = "?B1\<lparr>blk_ipc := blk_ipc ?B + 1\<rparr>"
  let ?B3 = "?B2\<lparr>blk_vpc := blk_vpc ?B - 1\<rparr>"
  have ib: "in_blk s c l b" and ap: "at_blk p c l b" using pg p by (auto simp: in_pg_def at_pg_def)
  note len = geo_pg [OF geo pg]
  have sh: "blk_shape (ssd_sp s) ?B1" by (rule blk_shape_set_pg [OF geo_blk(2) [OF geo ib] len])
  have sh2: "blk_shape (ssd_sp s) ?B2" using sh by simp
  have geo1: "geo_ok (put_blk s c l b ?B1)" and geo2: "geo_ok (put_blk s c l b ?B2)"
    by (rule geo_put_blk [OF geo ib] sh sh2)+
  have ib': "in_blk (put_blk s c l b x) c l b" for x
    using ib dims_eq(6) [of "put_blk s c l b x" s] by simp
  have at: "blk_at (put_blk s c l b x) c l b = x" for x by (simp add: blk_at_put_blk [OF geo ib])
  have "0 < bcnt s c l b PG_VALID" using bcnt_pos [OF pg st] .
  then have cnts: "0 \<le> blk_ipc ?B" "blk_ipc ?B < pgs_per_blk (ssd_sp s)" "0 < blk_vpc ?B" "blk_vpc ?B \<le> pgs_per_blk (ssd_sp s)"
    using bcnt_total [of s c l b] blks_okD [OF bo ib] dims_int(4) [OF geo] by auto
  have st': "pg_stat (blk_pg ?B ! g) = PG_VALID" using st by (simp add: pst_def)
  have run: "mark_page_invalid_blk s p = Some (put_blk s c l b ?B3)"
    using st' cnts
    by (simp add: mark_page_invalid_blk_def get_pg_ok [OF geo pg p] upd_pg_ok [OF geo pg p] Let_def
        get_blk_ok [OF geo1 ib' ap] at upd_blk_ok [OF geo1 ib' ap] upd_blk_ok [OF geo2 ib' ap]
        put_blk_put_blk [OF geo ib sh] put_blk_put_blk [OF geo ib sh2])
  note ch = put_pg_changed [OF geo pg, of ?B3 PG_INVALID]
  have "blks_ok (put_blk s c l b ?B3)"
    by (rule blks_ok_changed [OF bo ch(1) pg])
      (auto simp: st blk_at_put_blk [OF geo ib] delta_def set_pg_def)
  then show ?thesis using run ch by (simp add: keeps_def set_pg_def)
qed

lemma mark_page_valid_run:
  assumes geo: "geo_ok s" and bo: "blks_ok s" and pg: "in_pg s c l b g" and p: "at_pg p c l b g"
    and st: "pst s c l b g = PG_FREE" and len: "length (lns s) = nB s"
    and v: "line_vpc (lns s ! b) = int (cnt s b PG_VALID)"
  shows "returns (mark_page_valid s p) (\<lambda>s'. pg_changed s s' c l b g PG_VALID \<and> geo_ok s' \<and>
    blks_ok s' \<and> keeps s s' \<and>
    ssd_lm s' = (ssd_lm s)\<lparr>lm_lines := (lns s)[b := (lns s ! b)\<lparr>line_vpc := line_vpc (lns s ! b) + 1\<rparr>]\<rparr>)"
proof -
  let ?B = "blk_at s c l b"
  let ?B1 = "set_pg g PG_VALID ?B"
  let ?B2 = "?B1\<lparr>blk_vpc := blk_vpc ?B + 1\<rparr>"
  have ib: "in_blk s c l b" and ap: "at_blk p c l b" using pg p by (auto simp: in_pg_def at_pg_def)
  have bl: "unat (g_blk p) = b" "b < length (lns s)" using ap ib len by (auto simp: at_blk_def in_blk_def)
  note lenp = geo_pg [OF geo pg]
  have sh: "blk_shape (ssd_sp s) ?B1" by (rule blk_shape_set_pg [OF geo_blk(2) [OF geo ib] lenp])
  have geo1: "geo_ok (put_blk s c l b ?B1)" by (rule geo_put_blk [OF geo ib sh])
  have ib': "in_blk (put_blk s c l b x) c l b" for x
    using ib dims_eq(6) [of "put_blk s c l b x" s] by simp
  have at: "blk_at (put_blk s c l b x) c l b = x" for x by (simp add: blk_at_put_blk [OF geo ib])
  have "0 < bcnt s c l b PG_FREE" using bcnt_pos [OF pg st] .
  then have cnts: "0 \<le> blk_vpc ?B" "blk_vpc ?B < pgs_per_blk (ssd_sp s)"
    using bcnt_total [of s c l b] blks_okD [OF bo ib] dims_int(4) [OF geo] by auto
  have "0 < cnt s b PG_FREE" using cnt_pos [OF pg st] .
  then have lc: "0 \<le> line_vpc (lns s ! b)" "line_vpc (lns s ! b) < pgs_per_line (ssd_sp s)"
    using cnt_total [of s b] v ppl_int [OF geo] by auto
  have st': "pg_stat (blk_pg ?B ! g) = PG_FREE" using st by (simp add: pst_def)
  let ?s2 = "put_blk s c l b ?B2"
  let ?lm = "(ssd_lm s)\<lparr>lm_lines := (lns s)[b := (lns s ! b)\<lparr>line_vpc := line_vpc (lns s ! b) + 1\<rparr>]\<rparr>"
  have run: "mark_page_valid s p = Some (?s2\<lparr>ssd_lm := ?lm\<rparr>)"
    using st' cnts lc bl
    by (simp add: mark_page_valid_def get_pg_ok [OF geo pg p] upd_pg_ok [OF geo pg p] Let_def
        get_blk_ok [OF geo1 ib' ap] at upd_blk_ok [OF geo1 ib' ap] get_line_ok upd_line_ok
        put_blk_put_blk [OF geo ib sh])
  note ch = put_pg_changed [OF geo pg, of ?B2 PG_VALID]
  have "blks_ok ?s2"
    by (rule blks_ok_changed [OF bo ch(1) pg])
      (auto simp: st blk_at_put_blk [OF geo ib] delta_def set_pg_def)
  then show ?thesis using run ch by (simp add: keeps_def set_pg_def pg_changed_def)
qed

lemma keeps_parts:
  assumes "keeps s s'"
  shows "ssd_sp s' = ssd_sp s" "ssd_wp s' = ssd_wp s" "freeL s' = freeL s"
  using assms by (auto simp: keeps_def)

lemma fill_changed:
  assumes f: "fill s cur n" and ch: "pg_changed s s' c l b g st" and ok: "cur < nB s"
    and st: "st \<noteq> PG_FREE" and old: "pst s c l b g \<noteq> PG_FREE"
  shows "fill s' cur n"
proof -
  have sp: "ssd_sp s' = ssd_sp s" using ch by (simp add: pg_changed_def)
  show ?thesis
    using f ch st old ok unfolding fill_def pg_idx_cong [OF sp] dims_wp [OF sp]
    by (auto simp: pg_changed_def in_pg_idx)
qed

lemma lists_ok_cong:
  assumes "lists_ok s X" "ssd_lm s' = ssd_lm s" "ssd_sp s' = ssd_sp s"
  shows "lists_ok s' X"
  using assms(1) unfolding lists_ok_def assms(2) dims_eq(3) [OF assms(3)] .

text \<open>A line that holds a valid page is not free, and is full exactly when its count says so.\<close>

lemma valid_line_where:
  assumes inv: "lines_inv s D cur 0" and pg: "in_pg s c l b g" and st: "pst s c l b g = PG_VALID"
    and bD: "b \<notin> D"
  shows "b \<notin> set (freeL s)" "cnt s b PG_VALID = P_ln s \<longleftrightarrow> b \<in> set (fullL s)"
proof -
  note I = lines_invD [OF inv]
  have v: "0 < cnt s b PG_VALID" by (rule cnt_pos [OF pg st])
  have con: "\<forall>b\<in>set (freeL s). cnt s b PG_FREE = P_ln s" "\<forall>b\<in>set (fullL s). cnt s b PG_VALID = P_ln s"
    "\<forall>b\<in>victims s. cnt s b PG_FREE = 0 \<and> 0 < cnt s b PG_INVALID"
    using I(6) by (auto simp: content_ok_def)
  show f: "b \<notin> set (freeL s)" using con(1) v cnt_total [of s b] by auto
  from I(7) obtain c' l' g' where w: "in_pg s c' l' cur g'" "wp_n s = pord s c' l' g'" by (rule wp_okE)
  then have "pst s c' l' cur g' = PG_FREE"
    using I(8) by (auto simp: fill_def in_pg_idx)
  then have cur: "0 < cnt s cur PG_FREE" by (rule cnt_pos [OF w(1)])
  have "b \<in> set (freeL s) \<union> set (fullL s) \<union> victims s \<union> insert cur D"
    using I(3) pg unfolding lists_ok_def by (auto simp: in_pg_idx)
  then show "cnt s b PG_VALID = P_ln s \<longleftrightarrow> b \<in> set (fullL s)"
    using f bD con(2,3) cur cnt_total [of s b] by fastforce
qed

lemma mark_page_invalid_ok:
  assumes inv: "lines_inv s D cur 0" and pg: "in_pg s c l b g" and p: "at_pg p c l b g"
    and st: "pst s c l b g = PG_VALID" and bD: "b \<notin> D"
  shows "returns (mark_page_invalid s p) (\<lambda>s'. lines_inv s' D cur 0 \<and>
    pg_changed s s' c l b g PG_INVALID \<and> keeps s s')"
proof -
  note I = lines_invD [OF inv] and wh = valid_line_where [OF inv pg st bD]
  from mark_page_invalid_blk_ok [OF I(1,2) pg p st] obtain s1 where
    s1: "mark_page_invalid_blk s p = Some s1" "pg_changed s s1 c l b g PG_INVALID" "geo_ok s1" "blks_ok s1"
      "keeps s s1" "ssd_lm s1 = ssd_lm s"
    by (auto elim!: returnsE)
  have sp: "ssd_sp s1 = ssd_sp s" using s1(5) by (simp add: keeps_def)
  have bl: "unat (g_blk p) = b" "b < nB s" using p pg by (auto simp: at_pg_def at_blk_def in_pg_idx)
  have lc: "line_vpc (lns s ! b) = int (cnt s b PG_VALID)" "line_ipc (lns s ! b) = int (cnt s b PG_INVALID)"
    using I(5) bD bl(2) by (auto simp: counts_ok_def)
  have v: "0 < cnt s b PG_VALID" by (rule cnt_pos [OF pg st])
  have P1: "P_ln s1 = P_ln s" and nB1: "nB s1 = nB s" using P_ln_cong [OF sp] dims_eq(3) [OF sp] by auto
  have "returns (mark_page_invalid_line s1 p) (\<lambda>s'. lm_step s1 s' \<and> lists_ok s' (insert cur D) \<and>
    freeL s' = freeL s1 \<and> set (fullL s') = set (fullL s1) - {b} \<and>
    victims s' = victims s1 \<union> (if b \<in> set (fullL s1) then {b} else {}) \<and> line_moved s1 s' b)"
    by (rule mark_page_invalid_line_ok [OF s1(3) lists_ok_cong [OF I(3) s1(6) sp] bl(1)])
      (use bl lc v wh cnt_total [of s b] s1(6) P1 nB1 in auto)
  then obtain s2 where s2: "mark_page_invalid_line s1 p = Some s2" "lm_step s1 s2"
    "lists_ok s2 (insert cur D)" "freeL s2 = freeL s" "set (fullL s2) = set (fullL s) - {b}"
    "victims s2 = victims s \<union> (if b \<in> set (fullL s) then {b} else {})" "line_moved s1 s2 b"
    using s1(6) by (auto elim!: returnsE)
  note L = lm_step_fields [OF s2(2)]
  have ch: "pg_changed s s2 c l b g PG_INVALID" using s1(2) by (simp add: pg_changed_def L)
  have len: "length (lns s) = nB s" using I(3) by (simp add: lists_ok_def)
  have "counts_ok s2 D"
    by (rule counts_ok_changed [OF I(5) ch pg])
      (use s2(7) len bl(2) in \<open>auto simp: st line_moved_def delta_def s1(6)\<close>)
  moreover have "content_ok s2"
  proof -
    note C = cnt_changed [OF ch pg]
    have ne: "pst s c l b g \<noteq> PG_INVALID" using st by simp
    have f: "cnt s2 x PG_FREE = cnt s x PG_FREE" if "x < nB s" for x
      using C [OF ne that, of PG_FREE] st by (cases "x = b") simp_all
    have o: "cnt s2 x = cnt s x" if "x < nB s" "x \<noteq> b" for x
    proof
      show "cnt s2 x z = cnt s x z" for z using C [OF ne that(1), of z] that(2) by simp
    qed
    have i: "0 < cnt s2 b PG_INVALID" using C [OF ne bl(2), of PG_INVALID] by simp
    have P2: "P_ln s2 = P_ln s" by (simp add: L P1)
    have lt: "x < nB s" if "x \<in> set (freeL s) \<union> set (fullL s) \<union> victims s" for x
      using lists_ok_lt [OF I(3)] that by blast
    have con: "\<forall>b\<in>set (freeL s). cnt s b PG_FREE = P_ln s" "\<forall>b\<in>set (fullL s). cnt s b PG_VALID = P_ln s"
      "\<forall>b\<in>victims s. cnt s b PG_FREE = 0 \<and> 0 < cnt s b PG_INVALID"
      using I(6) by (auto simp: content_ok_def)
    show ?thesis
      unfolding content_ok_def s2(4-6) P2
    proof (intro conjI ballI)
      show "cnt s2 x PG_FREE = P_ln s" if "x \<in> set (freeL s)" for x
        using con(1) f lt that by simp
      show "cnt s2 x PG_VALID = P_ln s" if "x \<in> set (fullL s) - {b}" for x
        using con(2) o [of x] lt [of x] that by simp
      fix x assume x: "x \<in> victims s \<union> (if b \<in> set (fullL s) then {b} else {})"
      show "cnt s2 x PG_FREE = 0"
      proof (cases "x \<in> victims s")
        case False
        then have "x = b" "b \<in> set (fullL s)" using x by (auto split: if_splits)
        then show ?thesis using f [OF bl(2)] con(2) cnt_total [of s b] by auto
      qed (use con(3) f lt in simp)
      show "0 < cnt s2 x PG_INVALID"
        using i o [of x] lt [of x] x con(3) by (cases "x = b") (auto split: if_splits)
    qed
  qed
  moreover have "fill s2 cur (wp_n s + 0)"
    by (rule fill_changed [OF I(8) ch I(9)]) (simp_all add: st)
  moreover have K: "keeps s s2" using s1(5) s2(4) by (simp add: keeps_def L)
  moreover have "wp_n s2 = wp_n s" "wp_ok s2 cur" using wp_cong [OF keeps_parts(1,2) [OF K]] I(7) by auto
  ultimately have "lines_inv s2 D cur 0"
    using I(4) s1(3,4) s2(3) by (simp add: lines_inv_def L)
  then show ?thesis using s1(1) s2(1) ch K by (simp add: mark_page_invalid_def)
qed

lemma mark_page_valid_ok:
  assumes inv: "lines_inv s D cur 0" and pg: "in_pg s c l cur g" and p: "at_pg p c l cur g"
    and wp: "pord s c l g = wp_n s"
  shows "returns (mark_page_valid s p) (\<lambda>s'. lines_inv s' D cur 1 \<and>
    pg_changed s s' c l cur g PG_VALID \<and> keeps s s')"
proof -
  note I = lines_invD [OF inv]
  have st: "pst s c l cur g = PG_FREE" using I(8) pg wp unfolding fill_def in_pg_idx by force
  have len: "length (lns s) = nB s" and id: "line_id (lns s ! cur) = int cur"
    using I(3,9) by (auto simp: lists_ok_def)
  have v: "line_vpc (lns s ! cur) = int (cnt s cur PG_VALID)"
    using I(4,5,9) by (auto simp: counts_ok_def)
  let ?l = "(lns s ! cur)\<lparr>line_vpc := line_vpc (lns s ! cur) + 1\<rparr>"
  from mark_page_valid_run [OF I(1,2) pg p st len v] obtain s' where
    s': "mark_page_valid s p = Some s'" "pg_changed s s' c l cur g PG_VALID" "geo_ok s'" "blks_ok s'" "keeps s s'"
      "ssd_lm s' = (ssd_lm s)\<lparr>lm_lines := (lns s)[cur := ?l]\<rparr>"
    by (auto elim!: returnsE)
  note K = keeps_parts [OF s'(5)]
  have out: "cur \<notin> set (freeL s) \<union> set (fullL s) \<union> victims s" using I(3) unfolding lists_ok_def by blast
  have ok': "lists_ok (s\<lparr>ssd_lm := (ssd_lm s)\<lparr>lm_lines := (lns s)[cur := ?l]\<rparr>\<rparr>) (insert cur D)"
    by (rule lists_ok_upd_line [OF I(3,9)]) (use out id in auto)
  have "lists_ok s' (insert cur D)"
    by (rule lists_ok_cong [OF ok']) (simp_all add: s'(6) K(1))
  moreover have "counts_ok s' D"
    by (rule counts_ok_changed [OF I(5) s'(2) pg])
      (use len I(9) in \<open>auto simp: st delta_def s'(6) nth_list_update\<close>)
  moreover have "content_ok s'"
  proof -
    have "cnt s' x = cnt s x" if "x \<in> set (freeL s) \<union> set (fullL s) \<union> victims s" for x
    proof
      have "x \<noteq> cur" "x < nB s" using that out lists_ok_lt [OF I(3), of x] by auto
      then show "cnt s' x z = cnt s x z" for z
        using cnt_changed [OF s'(2) pg, of x z] st by simp
    qed
    then show ?thesis using I(6) P_ln_cong [OF K(1)] by (simp add: content_ok_def s'(6))
  qed
  moreover have "fill s' cur (wp_n s + 1)"
    unfolding fill_def pg_idx_cong [OF K(1)] dims_wp [OF K(1)]
  proof (intro allI impI)
    fix c' l' g' assume i: "(c', l', g') \<in> pg_idx s"
    have "(pst s c' l' cur g' \<noteq> PG_FREE) = (pord s c' l' g' < wp_n s)"
      using I(8) i by (simp add: fill_def)
    moreover have "pord s c' l' g' = wp_n s \<longleftrightarrow> c' = c \<and> l' = l \<and> g' = g"
      using pord_inj [of s c' l' g' c l g] wp i pg by (auto simp: in_pg_idx)
    ultimately show "(pst s' c' l' cur g' \<noteq> PG_FREE) = (pord s c' l' g' < wp_n s + 1)"
      using s'(2) i I(9) by (auto simp: pg_changed_def in_pg_idx)
  qed
  ultimately have "lines_inv s' D cur 1"
    using I(4,7) s'(3,4) wp_cong [OF K(1,2)] by (simp add: lines_inv_def)
  then show ?thesis using s' by simp
qed

section \<open>Erasing a block\<close>

definition block_erased :: "ssd \<Rightarrow> ssd \<Rightarrow> nat \<Rightarrow> nat \<Rightarrow> nat \<Rightarrow> nat \<Rightarrow> bool" where
  "block_erased s t c l b i \<longleftrightarrow> keeps s t \<and> ssd_lm t = ssd_lm s \<and> geo_ok t \<and>
     (\<forall>c' l' b'. (c', l', b') \<noteq> (c, l, b) \<longrightarrow> blk_at t c' l' b' = blk_at s c' l' b') \<and>
     (\<forall>g<i. pst t c l b g = PG_FREE)"

lemma mark_block_page_free_ok:
  assumes e: "block_erased s t c l b i" and ib: "in_blk s c l b" and i: "i < nG s" and p: "at_blk p c l b"
  shows "returns (mark_block_page_free p i t) (\<lambda>t'. block_erased s t' c l b (Suc i))"
proof -
  have geo: "geo_ok t" and sp: "ssd_sp t = ssd_sp s" using e by (auto simp: block_erased_def keeps_def)
  have pg: "in_pg t c l b i" and ib': "in_blk t c l b"
    using ib i by (auto simp: in_pg_def dims_eq [OF sp])
  note len = geo_pg [OF geo pg]
  let ?x = "set_pg i PG_FREE (blk_at t c l b)"
  have ns: "pg_nsecs (blk_pg (blk_at t c l b) ! i) = secs_per_pg (ssd_sp t)"
    using geo_blk(2) [OF geo ib'] nth_mem [OF len] by (simp add: blk_shape_def)
  have run: "mark_block_page_free p i t = Some (put_blk t c l b ?x)"
    unfolding mark_block_page_free_def
    using get_blk_ok [OF geo ib' p] len ns
      upd_blk_ok [OF geo ib' p, of "\<lambda>b. do { gs \<leftarrow> upd_at (blk_pg b) i (\<lambda>g. Some (g\<lparr>pg_stat := PG_FREE\<rparr>));
        Some (b\<lparr>blk_pg := gs\<rparr>) }" ?x]
    by (simp add: upd_at_def set_pg_def)
  have "geo_ok (put_blk t c l b ?x)" by (rule put_pg_changed [OF geo pg]) (simp_all add: set_pg_def)
  moreover have "pst (put_blk t c l b ?x) c l b g = PG_FREE" if "g < Suc i" for g
    using that e by (auto simp: blk_at_put_blk [OF geo ib'] set_pg_nth [OF len] block_erased_def pst_def less_Suc_eq)
  moreover have "blk_at (put_blk t c l b ?x) c' l' b' = blk_at s c' l' b'" if "(c', l', b') \<noteq> (c, l, b)" for c' l' b'
    using e that by (auto simp: blk_at_put_blk [OF geo ib'] block_erased_def)
  ultimately show ?thesis using e run by (simp add: block_erased_def keeps_def)
qed

lemma mark_block_free_ok:
  assumes geo: "geo_ok s" and bo: "blks_ok s" and ib: "in_blk s c l b" and p: "at_blk p c l b"
  shows "returns (mark_block_free s p) (\<lambda>s'. block_erased s s' c l b (nG s) \<and> blks_ok s')"
proof -
  have G: "nat (pgs_per_blk (ssd_sp s)) = nG s" by (simp add: nG_def)
  have "returns (foldM (mark_block_page_free p) [0..<nG s] s) (\<lambda>t. block_erased s t c l b (nG s))"
  proof (rule returns_foldM_upt [where I = "\<lambda>i t. block_erased s t c l b i"])
    show "block_erased s s c l b 0" using geo by (simp add: block_erased_def)
  qed (auto intro: mark_block_page_free_ok [OF _ ib _ p])
  then obtain t where t: "foldM (mark_block_page_free p) [0..<nG s] s = Some t" "block_erased s t c l b (nG s)"
    by (auto elim!: returnsE)
  have geo': "geo_ok t" and sp: "ssd_sp t = ssd_sp s" using t(2) by (auto simp: block_erased_def keeps_def)
  have ib': "in_blk t c l b" using ib by (simp add: dims_eq(6) [OF sp])
  let ?B = "blk_at t c l b"
  let ?x = "?B\<lparr>blk_ipc := 0, blk_vpc := 0, blk_erase_cnt := wrap32 (blk_erase_cnt ?B + 1)\<rparr>"
  let ?s' = "put_blk t c l b ?x"
  have sh: "blk_shape (ssd_sp t) ?B" by (rule geo_blk(2) [OF geo' ib'])
  then have npgs: "blk_npgs ?B = pgs_per_blk (ssd_sp t)" by (simp add: blk_shape_def)
  have run: "mark_block_free s p = Some ?s'"
    by (simp add: mark_block_free_def G t(1) get_blk_ok [OF geo' ib' p] npgs upd_blk_ok [OF geo' ib' p])
  have geo2: "geo_ok ?s'" by (rule geo_put_blk [OF geo' ib']) (use sh in simp)
  have at: "blk_at ?s' c' l' b' = (if (c', l', b') = (c, l, b) then ?x else blk_at s c' l' b')" for c' l' b'
    using t(2) by (cases "c' = c"; cases "l' = l"; cases "b' = b") (simp_all add: blk_at_put_blk [OF geo' ib'] block_erased_def)
  have fr: "pst ?s' c l b g = PG_FREE" if "g < nG s" for g
    using t(2) that by (simp add: block_erased_def pst_def at)
  have e: "block_erased s ?s' c l b (nG s)"
    unfolding block_erased_def
  proof (intro conjI allI impI)
    show "blk_at ?s' c' l' b' = blk_at s c' l' b'" if "(c', l', b') \<noteq> (c, l, b)" for c' l' b'
      using that at [of c' l' b'] by (simp only: if_False)
  qed (use t(2) fr geo2 in \<open>simp_all add: block_erased_def keeps_def\<close>)
  have "blks_ok ?s'"
    unfolding blks_ok_def
  proof (intro allI impI)
    have sp2: "ssd_sp ?s' = ssd_sp s" using sp by simp
    fix c' l' b' assume "in_blk ?s' c' l' b'"
    then have ib2: "in_blk s c' l' b'" by (simp add: dims_eq(6) [OF sp2])
    show "blk_vpc (blk_at ?s' c' l' b') = int (bcnt ?s' c' l' b' PG_VALID) \<and>
      blk_ipc (blk_at ?s' c' l' b') = int (bcnt ?s' c' l' b' PG_INVALID)"
    proof (cases "(c', l', b') = (c, l, b)")
      case True
      then have "bcnt ?s' c' l' b' PG_VALID = 0" "bcnt ?s' c' l' b' PG_INVALID = 0"
        using fr by (auto simp: bcnt_def dims_eq [OF sp2])
      then show ?thesis using True by (simp add: at)
    next
      case False
      then have a: "blk_at ?s' c' l' b' = blk_at s c' l' b'" unfolding at by (simp only: if_False)
      then have "bcnt ?s' c' l' b' z = bcnt s c' l' b' z" for z
        using sp2 by (intro bcnt_cong) (auto simp: pst_def)
      then show ?thesis using a blks_okD [OF bo ib2] by simp
    qed
  qed
  then show ?thesis using run e by simp
qed

section \<open>The passing of time\<close>

lemma tick_put_lun:
  assumes geo: "geo_ok s" and il: "in_lun s c l" and x: "lun_pl x = lun_pl (lun_at s c l)"
  shows "tick s (put_lun s c l x)"
proof -
  have "lun_shape (ssd_sp s) x" using geo_lens(3) [OF geo il] x by (simp add: lun_shape_def)
  then have "geo_ok (put_lun s c l x)" by (rule geo_put_lun [OF geo il])
  then show ?thesis using geo blk_at_put_lun [OF geo il x] by (simp add: tick_def)
qed

lemma tick_clock: "tick s (snd (get_ioclock s))"
  by (simp add: tick_def get_ioclock_def geo_ok_def blk_at_def [abs_def] lun_at_def [abs_def])

lemma ssd_advance_status_ok:
  assumes geo: "geo_ok s" and il: "in_lun s c l" and p: "at_lun p c l"
    and cmd: "nc_cmd n = NAND_READ \<or> nc_cmd n = NAND_WRITE \<or> nc_cmd n = NAND_ERASE"
  shows "returns (ssd_advance_status s p n) (\<lambda>(_, s'). tick s s')"
proof -
  define s0 where "s0 = (if nc_stime n = 0 then snd (get_ioclock s) else s)"
  define tm where "tm = (if nc_stime n = 0 then fst (get_ioclock s) else nc_stime n)"
  have t0: "tick s s0" using tick_clock by (simp add: s0_def)
  have geo0: "geo_ok s0" and sp: "ssd_sp s0 = ssd_sp s" using t0 geo by (auto simp: tick_def)
  have il0: "in_lun s0 c l" using il by (simp add: dims_eq(5) [OF sp])
  have eq: "(if nc_stime n = 0 then get_ioclock s else (nc_stime n, s)) = (tm, s0)"
    by (simp add: tm_def s0_def)
  have tick: "tick s (put_lun s0 c l ((lun_at s0 c l)\<lparr>next_lun_avail_time := a\<rparr>))" for a
    by (rule tick_trans [OF t0]) (rule tick_put_lun [OF geo0 il0], simp)
  show ?thesis
    using cmd tick unfolding ssd_advance_status_def eq
    by (auto simp: Let_def get_lun_ok [OF geo0 il0 p] upd_lun_ok [OF geo0 il0 p])
qed

lemma lun_set_gc_endtime_ok:
  assumes geo: "geo_ok s" and il: "in_lun s c l" and p: "at_lun p c l"
  shows "returns (lun_set_gc_endtime s p) (tick s)"
  unfolding lun_set_gc_endtime_def
  by (subst upd_lun_ok [OF geo il p refl]) (simp add: tick_put_lun [OF geo il])

lemma gc_read_page_ok:
  assumes geo: "geo_ok s" and il: "in_lun s c l" and p: "at_lun p c l"
  shows "returns (gc_read_page s p) (tick s)"
  unfolding gc_read_page_def
  by (auto intro!: returns_mono [OF ssd_advance_status_ok [OF geo il p]])

lemma tick_keeps: "tick s s' \<Longrightarrow> keeps s s'"
  by (simp add: tick_def keeps_def)

lemma tick_lines_inv:
  assumes t: "tick s s'" shows "lines_inv s' D cur k = lines_inv s D cur k"
proof -
  have sp: "ssd_sp s' = ssd_sp s" and lm: "ssd_lm s' = ssd_lm s" and w: "ssd_wp s' = ssd_wp s"
    and g: "geo_ok s' = geo_ok s" using t by (auto simp: tick_def)
  note c = tick_cnt [OF t] and p = tick_pst [OF t] and B = tick_blks_ok [OF t]
  have "counts_ok s' D = counts_ok s D" "content_ok s' = content_ok s"
    by (simp_all add: counts_ok_def content_ok_def c lm dims_eq(3) [OF sp] P_ln_cong [OF sp])
  moreover have "fill s' = fill s"
    by (simp add: fill_def [abs_def] p pg_idx_cong [OF sp] dims_wp [OF sp])
  moreover have "lists_ok s' X = lists_ok s X" for X
    by (simp add: lists_ok_def lm dims_eq(3) [OF sp])
  ultimately show ?thesis using g B wp_cong [OF sp w] by (simp add: lines_inv_def)
qed

end
