(* ===== verification/FTL_Map.thy ===== *)
theory FTL_Map
  imports FTL_Media
begin

text \<open>
  The mapping table and the reverse map: they are inverse to each other on the valid
  pages. The write of one page at the write pointer, common to host writes and to garbage
  collection, and the invalidation of the page a host write replaces.
\<close>

section \<open>Page numbers\<close>

definition tt :: "ssd \<Rightarrow> nat" where
  "tt s = nat (tt_pgs (ssd_sp s))"

definition pgidx :: "ssd \<Rightarrow> nat \<Rightarrow> nat \<Rightarrow> nat \<Rightarrow> nat \<Rightarrow> nat" where
  "pgidx s c l b g = ((c * nL s + l) * nB s + b) * nG s + g"

lemma tt_int:
  assumes "geo_ok s" shows "tt_pgs (ssd_sp s) = int (tt s)" "tt s = nC s * nL s * nB s * nG s"
    "tt s = P_ln s * nB s" "tt s < 2 ^ 31"
proof -
  have e: "tt_pgs (ssd_sp s) = int (nC s * nL s * nB s * nG s)"
    using geo_params [OF assms] dims_int [OF assms] by (simp add: params_ok_def)
  then show "tt_pgs (ssd_sp s) = int (tt s)" by (simp add: tt_def)
  show "tt s = nC s * nL s * nB s * nG s" unfolding tt_def e by (rule nat_int)
  then show "tt s = P_ln s * nB s" by (simp add: P_ln_def)
  then show "tt s < 2 ^ 31" using P_ln_bound(1) [OF assms] by simp
qed

lemma pgidx_less: 
  assumes "in_pg s c l b g" shows "pgidx s c l b g < nC s * nL s * nB s * nG s"
  unfolding pgidx_def using assms
  by (intro mult_add_less) (auto simp: in_pg_def in_blk_def in_lun_def)

lemma pgidx_inj:
  assumes "in_pg s c l b g" "in_pg s c' l' b' g'" "pgidx s c l b g = pgidx s c' l' b' g'"
  shows "c = c' \<and> l = l' \<and> b = b' \<and> g = g'"
proof -
  have r: "l < nL s" "b < nB s" "g < nG s" "l' < nL s" "b' < nB s" "g' < nG s"
    using assms(1,2) by (auto simp: in_pg_def in_blk_def in_lun_def)
  have 1: "(c * nL s + l) * nB s + b = (c' * nL s + l') * nB s + b' \<and> g = g'"
    using assms(3) r by (intro mult_add_inj [of _ "nG s"]) (simp_all add: pgidx_def)
  then have 2: "c * nL s + l = c' * nL s + l' \<and> b = b'"
    using r by (intro mult_add_inj [of _ "nB s"]) simp_all
  then have "c = c' \<and> l = l'" using r by (intro mult_add_inj [of _ "nL s"]) simp_all
  with 1 2 show ?thesis by simp
qed

lemma pgidx_cong: "ssd_sp s' = ssd_sp s \<Longrightarrow> pgidx s' = pgidx s"
  by (simp add: pgidx_def [abs_def] nL_def nB_def nG_def)

lemma tt_cong: "ssd_sp s' = ssd_sp s \<Longrightarrow> tt s' = tt s"
  by (simp add: tt_def)

lemma word_nat_less: "n < 2 ^ 31 \<Longrightarrow> unat (word_of_nat n :: u64) = n"
  by (intro unat_word_of_nat_less) simp

lemma u64_nat_less_iff:
  "n < 2 ^ 31 \<Longrightarrow> m < 2 ^ 31 \<Longrightarrow> (word_of_nat n :: u64) < word_of_nat m \<longleftrightarrow> n < m"
  by (simp add: word_less_nat_alt word_nat_less)

lemma u64_of_int_nat: "u64_of_int (int n) = word_of_nat n"
  by (simp add: u64_of_int_def)

lemma ppa2pgidx_ok:
  assumes geo: "geo_ok s" and pg: "in_pg s c l b g" and p: "at_pg p c l b g"
  shows "ppa2pgidx s p = (word_of_nat (pgidx s c l b g), s)" "pgidx s c l b g < tt s"
    "unat (word_of_nat (pgidx s c l b g) :: u64) = pgidx s c l b g"
proof -
  note T = tt_int [OF geo]
  show lt: "pgidx s c l b g < tt s" using pgidx_less [OF pg] T(2) by simp
  have f: "uint (g_ch p) = int c" "uint (g_lun p) = int l" "uint (g_pl p) = 0" "uint (g_blk p) = int b"
    "uint (g_pg p) = int g"
    using p by (auto simp: at_pg_def at_blk_def at_lun_def uint_nat)
  have par: "pgs_per_ch (ssd_sp s) = int (nG s * nB s * nL s)" "pgs_per_lun (ssd_sp s) = int (nG s * nB s)"
    "pgs_per_blk (ssd_sp s) = int (nG s)"
    using geo_params [OF geo] dims_int [OF geo] by (simp_all add: params_ok_def)
  have sum: "int c * pgs_per_ch (ssd_sp s) + int l * pgs_per_lun (ssd_sp s) +
      0 * pgs_per_pl (ssd_sp s) + int b * pgs_per_blk (ssd_sp s) + int g = int (pgidx s c l b g)"
    unfolding par by (simp add: pgidx_def algebra_simps)
  have lt2: "pgidx s c l b g < 2 ^ 31" using lt T(4) by simp
  then show "unat (word_of_nat (pgidx s c l b g) :: u64) = pgidx s c l b g" by (rule word_nat_less)
  show "ppa2pgidx s p = (word_of_nat (pgidx s c l b g), s)"
    unfolding ppa2pgidx_def Let_def f sum T(1) u64_of_int_nat u64_nat_less_iff [OF lt2 T(4)]
    using lt by simp
qed

section \<open>The tables\<close>

text \<open>
  \<open>M\<close> holds the pages garbage collection has moved away but not yet erased, \<open>H\<close> the
  logical pages that are being rewritten.
\<close>

definition map_ok :: "ssd \<Rightarrow> (nat \<times> nat \<times> nat \<times> nat) set \<Rightarrow> nat set \<Rightarrow> bool" where
  "map_ok s M H \<longleftrightarrow> length (ssd_maptbl s) = tt s \<and> length (ssd_rmap s) = tt s \<and>
     (\<forall>lpn<tt s. lpn \<notin> H \<longrightarrow> mapped_ppa (ssd_maptbl s ! lpn) \<longrightarrow> (\<exists>c l b g.
        ssd_maptbl s ! lpn = mk_ppa c l b g \<and> in_pg s c l b g \<and> (c, l, b, g) \<notin> M \<and>
        pst s c l b g = PG_VALID \<and> ssd_rmap s ! pgidx s c l b g = word_of_nat lpn)) \<and>
     (\<forall>c l b g. in_pg s c l b g \<longrightarrow> pst s c l b g = PG_VALID \<longrightarrow> (c, l, b, g) \<notin> M \<longrightarrow>
        (\<exists>lpn<tt s. lpn \<notin> H \<and> ssd_maptbl s ! lpn = mk_ppa c l b g))"

definition mapset :: "ssd \<Rightarrow> nat set" where
  "mapset s = {lpn. lpn < tt s \<and> mapped_ppa (ssd_maptbl s ! lpn)}"

lemma map_ok_len: "map_ok s M H \<Longrightarrow> length (ssd_maptbl s) = tt s" "map_ok s M H \<Longrightarrow> length (ssd_rmap s) = tt s"
  by (simp_all add: map_ok_def)

lemma map_okE:
  assumes "map_ok s M H" "lpn < tt s" "lpn \<notin> H" "mapped_ppa (ssd_maptbl s ! lpn)"
  obtains c l b g where "ssd_maptbl s ! lpn = mk_ppa c l b g" "in_pg s c l b g" "(c, l, b, g) \<notin> M"
    "pst s c l b g = PG_VALID" "ssd_rmap s ! pgidx s c l b g = word_of_nat lpn"
proof -
  have "\<exists>c l b g. ssd_maptbl s ! lpn = mk_ppa c l b g \<and> in_pg s c l b g \<and> (c, l, b, g) \<notin> M \<and>
        pst s c l b g = PG_VALID \<and> ssd_rmap s ! pgidx s c l b g = word_of_nat lpn"
    using assms unfolding map_ok_def by blast
  then show ?thesis using that by blast
qed

lemma map_ok_valid:
  assumes "map_ok s M H" "in_pg s c l b g" "pst s c l b g = PG_VALID" "(c, l, b, g) \<notin> M"
  obtains lpn where "lpn < tt s" "lpn \<notin> H" "ssd_maptbl s ! lpn = mk_ppa c l b g"
  using assms unfolding map_ok_def by blast

text \<open>The reverse map names the logical page a valid page holds.\<close>

lemma map_ok_rmap:
  assumes ok: "map_ok s M H" and geo: "geo_ok s" and pg: "in_pg s c l b g"
    and v: "pst s c l b g = PG_VALID" and m: "(c, l, b, g) \<notin> M"
  obtains lpn where "lpn < tt s" "lpn \<notin> H" "ssd_maptbl s ! lpn = mk_ppa c l b g"
    "ssd_rmap s ! pgidx s c l b g = word_of_nat lpn"
proof -
  obtain lpn where lpn: "lpn < tt s" "lpn \<notin> H" "ssd_maptbl s ! lpn = mk_ppa c l b g"
    by (rule map_ok_valid [OF ok pg v m])
  have "mapped_ppa (ssd_maptbl s ! lpn)" by (simp add: lpn)
  then obtain c' l' b' g' where x: "ssd_maptbl s ! lpn = mk_ppa c' l' b' g'" "in_pg s c' l' b' g'"
      "ssd_rmap s ! pgidx s c' l' b' g' = word_of_nat lpn"
    by (rule map_okE [OF ok lpn(1,2)])
  have "c' = c \<and> l' = l \<and> b' = b \<and> g' = g"
    using x(1) lpn(3) mk_ppa_inj [OF geo x(2) pg] by simp
  then show ?thesis using that lpn x(3) by simp
qed

lemma map_ok_cong:
  assumes "ssd_sp s' = ssd_sp s" "ssd_maptbl s' = ssd_maptbl s" "ssd_rmap s' = ssd_rmap s" "pst s' = pst s"
  shows "map_ok s' M H = map_ok s M H" "mapset s' = mapset s"
  unfolding map_ok_def mapset_def assms tt_cong [OF assms(1)] pgidx_cong [OF assms(1)] dims_eq(7) [OF assms(1)]
  by (rule refl)+

text \<open>Two logical pages never share a physical page.\<close>

lemma map_ok_inj:
  assumes ok: "map_ok s M H" and geo: "geo_ok s" and "i < tt s" "i \<notin> H" "j < tt s" "j \<notin> H"
    and eq: "ssd_maptbl s ! i = ssd_maptbl s ! j" and m: "mapped_ppa (ssd_maptbl s ! i)"
  shows "i = j"
proof -
  obtain c l b g where x: "ssd_maptbl s ! i = mk_ppa c l b g" "in_pg s c l b g"
      "ssd_rmap s ! pgidx s c l b g = word_of_nat i"
    by (rule map_okE [OF ok assms(3,4) m])
  obtain c' l' b' g' where y: "ssd_maptbl s ! j = mk_ppa c' l' b' g'" "in_pg s c' l' b' g'"
      "ssd_rmap s ! pgidx s c' l' b' g' = word_of_nat j"
    using map_okE [OF ok assms(5,6)] m eq by metis
  have "c = c' \<and> l = l' \<and> b = b' \<and> g = g'" using x y eq mk_ppa_inj [OF geo x(2) y(2)] by simp
  then have "unat (word_of_nat i :: u64) = unat (word_of_nat j :: u64)" using x y by simp
  then show ?thesis using assms(3,5) tt_int(4) [OF geo] by (simp add: word_nat_less)
qed

section \<open>Steps on the tables\<close>

lemma map_okI:
  assumes "length (ssd_maptbl s) = tt s" "length (ssd_rmap s) = tt s"
    and "\<And>lpn. lpn < tt s \<Longrightarrow> lpn \<notin> H \<Longrightarrow> mapped_ppa (ssd_maptbl s ! lpn) \<Longrightarrow> \<exists>c l b g.
        ssd_maptbl s ! lpn = mk_ppa c l b g \<and> in_pg s c l b g \<and> (c, l, b, g) \<notin> M \<and>
        pst s c l b g = PG_VALID \<and> ssd_rmap s ! pgidx s c l b g = word_of_nat lpn"
    and "\<And>c l b g. in_pg s c l b g \<Longrightarrow> pst s c l b g = PG_VALID \<Longrightarrow> (c, l, b, g) \<notin> M \<Longrightarrow>
        \<exists>lpn<tt s. lpn \<notin> H \<and> ssd_maptbl s ! lpn = mk_ppa c l b g"
  shows "map_ok s M H"
  using assms unfolding map_ok_def by blast

text \<open>A logical page is placed on an erased physical page.\<close>

lemma map_ok_place:
  assumes ok: "map_ok s M H" and geo: "geo_ok s" and ch: "pg_changed s s' c l b g PG_VALID"
    and pg: "in_pg s c l b g" and fr: "pst s c l b g = PG_FREE" and M: "(c, l, b, g) \<notin> M"
    and lpn: "lpn < tt s" and mt: "ssd_maptbl s' = (ssd_maptbl s)[lpn := mk_ppa c l b g]"
    and rm: "ssd_rmap s' = (ssd_rmap s)[pgidx s c l b g := word_of_nat lpn]" and H: "lpn \<in> H"
  shows "map_ok s' M (H - {lpn})"
proof -
  have sp: "ssd_sp s' = ssd_sp s" using ch by (simp add: pg_changed_def)
  note cong = tt_cong [OF sp] pgidx_cong [OF sp] dims_eq(7) [OF sp]
  note len = map_ok_len [OF ok]
  have idx: "pgidx s c l b g < tt s" using pgidx_less [OF pg] tt_int(2) [OF geo] by simp
  have pst': "pst s' c' l' b' g' = (if c' = c \<and> l' = l \<and> b' = b \<and> g' = g then PG_VALID else pst s c' l' b' g')"
    if "in_pg s c' l' b' g'" for c' l' b' g'
    using ch that by (simp add: pg_changed_def)
  show ?thesis
  proof (rule map_okI)
    show "length (ssd_maptbl s') = tt s'" "length (ssd_rmap s') = tt s'"
      using len by (simp_all add: cong mt rm)
  next
    fix i assume i: "i < tt s'" "i \<notin> H - {lpn}" "mapped_ppa (ssd_maptbl s' ! i)"
    show "\<exists>c l b g. ssd_maptbl s' ! i = mk_ppa c l b g \<and> in_pg s' c l b g \<and> (c, l, b, g) \<notin> M \<and>
        pst s' c l b g = PG_VALID \<and> ssd_rmap s' ! pgidx s' c l b g = word_of_nat i"
    proof (cases "i = lpn")
      case True
      then have "ssd_maptbl s' ! i = mk_ppa c l b g \<and> in_pg s' c l b g \<and> (c, l, b, g) \<notin> M \<and>
        pst s' c l b g = PG_VALID \<and> ssd_rmap s' ! pgidx s' c l b g = word_of_nat i"
        using lpn pg M idx len pst' by (simp add: cong mt rm)
      then show ?thesis by blast
    next
      case False
      then have j: "i < tt s" "i \<notin> H" "mapped_ppa (ssd_maptbl s ! i)" and e: "ssd_maptbl s' ! i = ssd_maptbl s ! i"
        using i by (auto simp: cong mt)
      obtain c' l' b' g' where x: "ssd_maptbl s ! i = mk_ppa c' l' b' g'" "in_pg s c' l' b' g'"
        "(c', l', b', g') \<notin> M" "pst s c' l' b' g' = PG_VALID" "ssd_rmap s ! pgidx s c' l' b' g' = word_of_nat i"
        by (rule map_okE [OF ok j])
      have "pgidx s c' l' b' g' \<noteq> pgidx s c l b g" using pgidx_inj [OF x(2) pg] x(4) fr by auto
      then have "ssd_maptbl s' ! i = mk_ppa c' l' b' g' \<and> in_pg s' c' l' b' g' \<and> (c', l', b', g') \<notin> M \<and>
        pst s' c' l' b' g' = PG_VALID \<and> ssd_rmap s' ! pgidx s' c' l' b' g' = word_of_nat i"
        using x e pst' by (simp add: cong rm)
      then show ?thesis by blast
    qed
  next
    fix c' l' b' g' assume a: "in_pg s' c' l' b' g'" "pst s' c' l' b' g' = PG_VALID" "(c', l', b', g') \<notin> M"
    then have a1: "in_pg s c' l' b' g'" by (simp add: cong)
    show "\<exists>i<tt s'. i \<notin> H - {lpn} \<and> ssd_maptbl s' ! i = mk_ppa c' l' b' g'"
    proof (cases "c' = c \<and> l' = l \<and> b' = b \<and> g' = g")
      case True
      then show ?thesis using lpn len by (auto simp: cong mt)
    next
      case False
      then have "pst s c' l' b' g' = PG_VALID" using a(2) pst' [OF a1] by (simp only: if_False)
      then obtain i where "i < tt s" "i \<notin> H" "ssd_maptbl s ! i = mk_ppa c' l' b' g'"
        by (rule map_ok_valid [OF ok a1 _ a(3)])
      moreover from this H have "i \<noteq> lpn" by blast
      ultimately show ?thesis by (intro exI [of _ i]) (auto simp: cong mt)
    qed
  qed
qed

text \<open>The page that holds a logical page dies.\<close>

lemma map_ok_kill:
  assumes ok: "map_ok s M H" and geo: "geo_ok s" and ch: "pg_changed s s' c l b g PG_INVALID"
    and pg: "in_pg s c l b g" and lpn: "lpn < tt s" "lpn \<notin> H" and e: "ssd_maptbl s ! lpn = mk_ppa c l b g"
    and mt: "ssd_maptbl s' = ssd_maptbl s" and rm: "ssd_rmap s' = (ssd_rmap s)[pgidx s c l b g := w]"
  shows "map_ok s' M (insert lpn H)"
proof -
  have sp: "ssd_sp s' = ssd_sp s" using ch by (simp add: pg_changed_def)
  note cong = tt_cong [OF sp] pgidx_cong [OF sp] dims_eq(7) [OF sp]
  note len = map_ok_len [OF ok]
  have pst': "pst s' c' l' b' g' = (if c' = c \<and> l' = l \<and> b' = b \<and> g' = g then PG_INVALID else pst s c' l' b' g')"
    if "in_pg s c' l' b' g'" for c' l' b' g'
    using ch that by (simp add: pg_changed_def)
  show ?thesis
  proof (rule map_okI)
    show "length (ssd_maptbl s') = tt s'" "length (ssd_rmap s') = tt s'"
      using len by (simp_all add: cong mt rm)
  next
    fix i assume i: "i < tt s'" "i \<notin> insert lpn H" "mapped_ppa (ssd_maptbl s' ! i)"
    then have j: "i < tt s" "i \<notin> H" "mapped_ppa (ssd_maptbl s ! i)" "i \<noteq> lpn" by (auto simp: cong mt)
    obtain c' l' b' g' where x: "ssd_maptbl s ! i = mk_ppa c' l' b' g'" "in_pg s c' l' b' g'"
      "(c', l', b', g') \<notin> M" "pst s c' l' b' g' = PG_VALID" "ssd_rmap s ! pgidx s c' l' b' g' = word_of_nat i"
      by (rule map_okE [OF ok j(1-3)])
    have ne: "\<not> (c' = c \<and> l' = l \<and> b' = b \<and> g' = g)"
      using map_ok_inj [OF ok geo j(1,2) lpn] j(3,4) x(1) e by auto
    then have "pgidx s c' l' b' g' \<noteq> pgidx s c l b g" using pgidx_inj [OF x(2) pg] by auto
    moreover have "pst s' c' l' b' g' = PG_VALID" unfolding pst' [OF x(2)] using ne x(4) by (simp only: if_False)
    ultimately have "ssd_maptbl s' ! i = mk_ppa c' l' b' g' \<and> in_pg s' c' l' b' g' \<and> (c', l', b', g') \<notin> M \<and>
        pst s' c' l' b' g' = PG_VALID \<and> ssd_rmap s' ! pgidx s' c' l' b' g' = word_of_nat i"
      using x by (simp add: cong rm mt)
    then show "\<exists>c l b g. ssd_maptbl s' ! i = mk_ppa c l b g \<and> in_pg s' c l b g \<and> (c, l, b, g) \<notin> M \<and>
        pst s' c l b g = PG_VALID \<and> ssd_rmap s' ! pgidx s' c l b g = word_of_nat i" by blast
  next
    fix c' l' b' g' assume a: "in_pg s' c' l' b' g'" "pst s' c' l' b' g' = PG_VALID" "(c', l', b', g') \<notin> M"
    then have a1: "in_pg s c' l' b' g'" by (simp add: cong)
    have ne: "\<not> (c' = c \<and> l' = l \<and> b' = b \<and> g' = g)" using a(2) pst' [OF a1] by auto
    then have "pst s c' l' b' g' = PG_VALID" using a(2) pst' [OF a1] by (simp only: if_False)
    then obtain i where i: "i < tt s" "i \<notin> H" "ssd_maptbl s ! i = mk_ppa c' l' b' g'"
      by (rule map_ok_valid [OF ok a1 _ a(3)])
    have "i \<noteq> lpn" using i(3) e mk_ppa_inj [OF geo a1 pg] ne by auto
    then show "\<exists>i<tt s'. i \<notin> insert lpn H \<and> ssd_maptbl s' ! i = mk_ppa c' l' b' g'"
      using i by (auto simp: cong mt)
  qed
qed

text \<open>Garbage collection sets a page aside, erases pages set aside, forgets them.\<close>

lemma map_ok_unmapped: "map_ok s M H \<Longrightarrow> \<not> mapped_ppa (ssd_maptbl s ! lpn) \<Longrightarrow> map_ok s M (insert lpn H)"
  by (rule map_okI) (auto simp: map_ok_def, metis mapped_mk_ppa)

lemma map_ok_aside:
  assumes ok: "map_ok s M H" and geo: "geo_ok s" and pg: "in_pg s c l b g"
    and lpn: "lpn < tt s" "lpn \<notin> H" and e: "ssd_maptbl s ! lpn = mk_ppa c l b g"
  shows "map_ok s (insert (c, l, b, g) M) (insert lpn H)"
proof (rule map_okI)
  show "length (ssd_maptbl s) = tt s" "length (ssd_rmap s) = tt s" using map_ok_len [OF ok] .
next
  fix i assume i: "i < tt s" "i \<notin> insert lpn H" "mapped_ppa (ssd_maptbl s ! i)"
  then obtain c' l' b' g' where x: "ssd_maptbl s ! i = mk_ppa c' l' b' g'" "in_pg s c' l' b' g'"
      "(c', l', b', g') \<notin> M" "pst s c' l' b' g' = PG_VALID" "ssd_rmap s ! pgidx s c' l' b' g' = word_of_nat i"
    using map_okE [OF ok i(1) _ i(3)] by blast
  have "(c', l', b', g') \<noteq> (c, l, b, g)"
    using map_ok_inj [OF ok geo i(1) _ lpn] i(2,3) x(1) e by auto
  then show "\<exists>c' l' b' g'. ssd_maptbl s ! i = mk_ppa c' l' b' g' \<and> in_pg s c' l' b' g' \<and>
      (c', l', b', g') \<notin> insert (c, l, b, g) M \<and>
      pst s c' l' b' g' = PG_VALID \<and> ssd_rmap s ! pgidx s c' l' b' g' = word_of_nat i"
    using x by blast
next
  fix c' l' b' g' assume a: "in_pg s c' l' b' g'" "pst s c' l' b' g' = PG_VALID"
    "(c', l', b', g') \<notin> insert (c, l, b, g) M"
  then obtain i where i: "i < tt s" "i \<notin> H" "ssd_maptbl s ! i = mk_ppa c' l' b' g'"
    using map_ok_valid [OF ok a(1,2)] by blast
  have "i \<noteq> lpn" using i(3) e mk_ppa_inj [OF geo a(1) pg] a(3) by auto
  then show "\<exists>i<tt s. i \<notin> insert lpn H \<and> ssd_maptbl s ! i = mk_ppa c' l' b' g'" using i by blast
qed

lemma map_ok_skip: "map_ok s M H \<Longrightarrow> pst s c l b g \<noteq> PG_VALID \<Longrightarrow> map_ok s (insert (c, l, b, g) M) H"
  by (rule map_okI) (auto simp: map_ok_def, metis)

lemma map_ok_erase:
  assumes ok: "map_ok s M H" and t: "ssd_sp s' = ssd_sp s" "ssd_maptbl s' = ssd_maptbl s" "ssd_rmap s' = ssd_rmap s"
    and same: "\<And>c l b g. in_pg s c l b g \<Longrightarrow> (c, l, b, g) \<notin> M \<Longrightarrow> pst s' c l b g = pst s c l b g"
  shows "map_ok s' M H"
  using ok same unfolding map_ok_def t(2,3) tt_cong [OF t(1)] pgidx_cong [OF t(1)] dims_eq(7) [OF t(1)]
  by metis

lemma map_ok_drop:
  assumes ok: "map_ok s M H"
    and dead: "\<And>c l b g. in_pg s c l b g \<Longrightarrow> (c, l, b, g) \<in> M \<Longrightarrow> pst s c l b g \<noteq> PG_VALID"
  shows "map_ok s {} H"
proof (rule map_okI)
  show "length (ssd_maptbl s) = tt s" "length (ssd_rmap s) = tt s" using map_ok_len [OF ok] .
next
  fix i assume "i < tt s" "i \<notin> H" "mapped_ppa (ssd_maptbl s ! i)"
  then show "\<exists>c l b g. ssd_maptbl s ! i = mk_ppa c l b g \<and> in_pg s c l b g \<and> (c, l, b, g) \<notin> {} \<and>
      pst s c l b g = PG_VALID \<and> ssd_rmap s ! pgidx s c l b g = word_of_nat i"
    by (rule map_okE [OF ok]) blast
next
  fix c l b g assume "in_pg s c l b g" "pst s c l b g = PG_VALID"
  moreover from this have "(c, l, b, g) \<notin> M" using dead by blast
  ultimately show "\<exists>i<tt s. i \<notin> H \<and> ssd_maptbl s ! i = mk_ppa c l b g"
    by (rule map_ok_valid [OF ok]) blast
qed

section \<open>Writing one page at the write pointer\<close>

text \<open>The common part of \<^verbatim>\<open>gc_write_page\<close> and of the write loop of \<^verbatim>\<open>ssd_write\<close>.\<close>

definition place_page :: "ssd \<Rightarrow> u64 \<Rightarrow> (ppa \<times> ssd) option" where
  "place_page s lpn = do {
     let (p, s) = get_new_page s;
     s \<leftarrow> set_maptbl_ent s lpn p;
     s \<leftarrow> set_rmap_ent s lpn p;
     s \<leftarrow> mark_page_valid s p;
     s \<leftarrow> ssd_advance_write_pointer s;
     Some (p, s)
   }"

lemma ssd_write_new_place:
  "ssd_write_new t lpn s = do {
     (p, s) \<leftarrow> place_page s (word_of_nat lpn);
     ssd_advance_status s p \<lparr>nc_type = USER_IO, nc_cmd = NAND_WRITE, nc_stime = t\<rparr>
   }"
  by (simp add: ssd_write_new_def place_page_def Let_def split_def)

lemma gc_write_page_place:
  "gc_write_page s old_ppa = do {
     (lpn, s) \<leftarrow> get_rmap_ent s old_ppa;
     (p, s) \<leftarrow> place_page (nvmev_assert 679 (valid_lpn s lpn) s) lpn;
     s \<leftarrow> (if enable_gc_delay (ssd_sp s) then do {
            (_, s) \<leftarrow> ssd_advance_status s p \<lparr>nc_type = GC_IO, nc_cmd = NAND_WRITE, nc_stime = 0\<rparr>;
            Some s
          } else Some s);
     lun_set_gc_endtime s p
   }"
  by (simp add: gc_write_page_def place_page_def Let_def split_def cong: if_cong)

lemma get_new_page_ok:
  assumes "wp_ok s cur"
  obtains c l g where "get_new_page s = (mk_ppa c l cur g, s)" "in_pg s c l cur g" "pord s c l g = wp_n s"
proof -
  from assms obtain c l g where wp: "ssd_wp s = \<lparr>wp_curline = Some cur, wp_ch = int c, wp_lun = int l, wp_pg = int g,
      wp_blk = int cur, wp_pl = 0\<rparr>" and i: "in_pg s c l cur g" and n: "wp_n s = pord s c l g"
    by (rule wp_okE)
  have "get_new_page s = (mk_ppa c l cur g, s)"
    by (simp add: get_new_page_def wp mk_ppa_def ppa_of_bits_def Let_def)
  then show ?thesis using that i n by simp
qed

lemma set_maptbl_ent_ok:
  assumes geo: "geo_ok s" and len: "length (ssd_maptbl s) = tt s" and lpn: "lpn < tt s"
  shows "set_maptbl_ent s (word_of_nat lpn) p = Some (s\<lparr>ssd_maptbl := (ssd_maptbl s)[lpn := p]\<rparr>)"
  using assms tt_int(1,4) [OF geo]
  by (simp add: set_maptbl_ent_def Let_def u64_of_int_nat u64_nat_less_iff word_nat_less)

lemma get_maptbl_ent_ok:
  assumes geo: "geo_ok s" and len: "length (ssd_maptbl s) = tt s" and lpn: "lpn < tt s"
  shows "get_maptbl_ent s (word_of_nat lpn) = Some (ssd_maptbl s ! lpn)"
  using assms tt_int(1,4) [OF geo] by (simp add: get_maptbl_ent_def word_nat_less)

lemma set_rmap_ent_ok:
  assumes geo: "geo_ok s" and len: "length (ssd_rmap s) = tt s" and pg: "in_pg s c l b g" and p: "at_pg p c l b g"
  shows "set_rmap_ent s w p = Some (s\<lparr>ssd_rmap := (ssd_rmap s)[pgidx s c l b g := w]\<rparr>)"
  using ppa2pgidx_ok [OF geo pg p] len by (simp add: set_rmap_ent_def Let_def)

lemma get_rmap_ent_ok:
  assumes geo: "geo_ok s" and len: "length (ssd_rmap s) = tt s" and pg: "in_pg s c l b g" and p: "at_pg p c l b g"
  shows "get_rmap_ent s p = Some (ssd_rmap s ! pgidx s c l b g, s)"
  using ppa2pgidx_ok [OF geo pg p] len by (simp add: get_rmap_ent_def Let_def)

text \<open>The views do not depend on the tables.\<close>

lemma lines_inv_tabs [simp]:
  "lines_inv (s\<lparr>ssd_maptbl := m\<rparr>) D cur k = lines_inv s D cur k"
  "lines_inv (s\<lparr>ssd_rmap := r\<rparr>) D cur k = lines_inv s D cur k"
  "geo_ok (s\<lparr>ssd_maptbl := m\<rparr>) = geo_ok s" "geo_ok (s\<lparr>ssd_rmap := r\<rparr>) = geo_ok s"
  "pst (s\<lparr>ssd_maptbl := m\<rparr>) = pst s" "pst (s\<lparr>ssd_rmap := r\<rparr>) = pst s"
  "in_pg (s\<lparr>ssd_maptbl := m\<rparr>) = in_pg s" "in_pg (s\<lparr>ssd_rmap := r\<rparr>) = in_pg s"
  "pgidx (s\<lparr>ssd_maptbl := m\<rparr>) = pgidx s" "pgidx (s\<lparr>ssd_rmap := r\<rparr>) = pgidx s"
  "pord (s\<lparr>ssd_maptbl := m\<rparr>) = pord s" "pord (s\<lparr>ssd_rmap := r\<rparr>) = pord s"
  "wp_n (s\<lparr>ssd_maptbl := m\<rparr>) = wp_n s" "wp_n (s\<lparr>ssd_rmap := r\<rparr>) = wp_n s"
  "tt (s\<lparr>ssd_maptbl := m\<rparr>) = tt s" "tt (s\<lparr>ssd_rmap := r\<rparr>) = tt s"
  "room (s\<lparr>ssd_maptbl := m\<rparr>) = room s" "room (s\<lparr>ssd_rmap := r\<rparr>) = room s"
  by (simp_all add: lines_inv_def nC_def nL_def nB_def nG_def P_ln_def pg_idx_def pst_def [abs_def] cnt_def
      blk_at_def [abs_def] lun_at_def [abs_def] geo_ok_def blks_ok_def in_blk_def in_lun_def in_pg_def [abs_def]
      bcnt_def pord_def [abs_def] lists_ok_def counts_ok_def content_ok_def fill_def
      wp_n_def wp_ok_def tt_def pgidx_def [abs_def] room_def)

text \<open>The pages of the lines \<open>D\<close> are untouched.\<close>

definition same_in :: "nat set \<Rightarrow> ssd \<Rightarrow> ssd \<Rightarrow> bool" where
  "same_in D s s' \<longleftrightarrow> (\<forall>c l b g. in_pg s c l b g \<longrightarrow> b \<in> D \<longrightarrow> pst s' c l b g = pst s c l b g)"

lemma place_ok:
  assumes inv: "lines_inv s D cur 0" and ok: "map_ok s M H" and lpn: "lpn < tt s" "lpn \<in> H"
    and M: "\<And>c l b g. (c, l, b, g) \<in> M \<Longrightarrow> b \<in> D" and room: "1 < room s"
  shows "returns (place_page s (word_of_nat lpn)) (\<lambda>(p, s'). (\<exists>cur'. lines_inv s' D cur' 0) \<and>
    map_ok s' M (H - {lpn}) \<and> room s' + 1 = room s \<and> ssd_sp s' = ssd_sp s \<and> ssd_klog s' = ssd_klog s \<and>
    same_in D s s' \<and> ssd_maptbl s' = (ssd_maptbl s)[lpn := p] \<and>
    (\<exists>c l g. p = mk_ppa c l cur g \<and> in_pg s c l cur g))"
proof -
  note I = lines_invD [OF inv] and len = map_ok_len [OF ok]
  obtain c l g where np: "get_new_page s = (mk_ppa c l cur g, s)" and pg: "in_pg s c l cur g"
    and n: "pord s c l g = wp_n s"
    by (rule get_new_page_ok [OF I(7)])
  note at = mk_ppa_at_pg [OF I(1) pg]
  let ?p = "mk_ppa c l cur g"
  let ?s1 = "s\<lparr>ssd_maptbl := (ssd_maptbl s)[lpn := ?p]\<rparr>"
  let ?s2 = "?s1\<lparr>ssd_rmap := (ssd_rmap s)[pgidx s c l cur g := word_of_nat lpn]\<rparr>"
  have m1: "set_maptbl_ent s (word_of_nat lpn) ?p = Some ?s1" by (rule set_maptbl_ent_ok [OF I(1) len(1) lpn(1)])
  have m2: "set_rmap_ent ?s1 (word_of_nat lpn) ?p = Some ?s2"
    using set_rmap_ent_ok [of ?s1 c l cur g ?p "word_of_nat lpn"] I(1) len(2) pg at by simp
  have "lines_inv ?s2 D cur 0" "in_pg ?s2 c l cur g" "pord ?s2 c l g = wp_n ?s2"
    using inv pg n by simp_all
  from mark_page_valid_ok [OF this(1,2) at this(3)] obtain s3 where
    s3: "mark_page_valid ?s2 ?p = Some s3" "lines_inv s3 D cur 1" "pg_changed ?s2 s3 c l cur g PG_VALID" "keeps ?s2 s3"
    by (auto elim!: returnsE)
  have r3: "room s3 = room s" using keeps_room [OF s3(4)] by simp
  from advance_ok [OF s3(2)] r3 room obtain s4 cur' where
    s4: "ssd_advance_write_pointer s3 = Some s4" "lines_inv s4 D cur' 0" "soft_step s3 s4" "room s4 + 1 = room s"
    by (auto elim!: returnsE)
  note S = soft_step_fields [OF s4(3)]
  have ch: "pg_changed s s4 c l cur g PG_VALID" using s3(3) by (simp add: pg_changed_def S)
  have fr: "pst s c l cur g = PG_FREE" using I(8) pg n unfolding fill_def in_pg_idx by force
  have "map_ok s4 M (H - {lpn})"
    by (rule map_ok_place [OF ok I(1) ch pg fr _ lpn(1) _ _ lpn(2)])
      (use M I(4) s3(4) in \<open>auto simp: S keeps_def\<close>)
  moreover have "same_in D s s4" using ch I(4) unfolding same_in_def by (auto simp: pg_changed_def)
  moreover have "ssd_sp s4 = ssd_sp s" "ssd_klog s4 = ssd_klog s" "ssd_maptbl s4 = (ssd_maptbl s)[lpn := ?p]"
    using s3(4) by (simp_all add: S keeps_def)
  ultimately show ?thesis
    using np m1 m2 s3(1) s4(1,2,4) pg by (auto simp: place_page_def)
qed

lemma mapset_place: 
  "ssd_sp s' = ssd_sp s \<Longrightarrow> ssd_maptbl s' = (ssd_maptbl s)[lpn := mk_ppa c l b g] \<Longrightarrow> lpn < tt s \<Longrightarrow>
    length (ssd_maptbl s) = tt s \<Longrightarrow> mapset s' = insert lpn (mapset s)"
  using tt_cong [of s' s] by (auto simp: mapset_def nth_list_update)

text \<open>The page that is about to be overwritten.\<close>

lemma ssd_write_old_ok:
  assumes inv: "lines_inv s {} cur 0" and ok: "map_ok s {} {}" and lpn: "lpn < tt s"
  shows "returns (ssd_write_old lpn s) (\<lambda>s'. lines_inv s' {} cur 0 \<and> map_ok s' {} {lpn} \<and> room s' = room s \<and>
    ssd_sp s' = ssd_sp s \<and> ssd_klog s' = ssd_klog s \<and> ssd_maptbl s' = ssd_maptbl s)"
proof -
  note I = lines_invD [OF inv] and len = map_ok_len [OF ok]
  note get = get_maptbl_ent_ok [OF I(1) len(1) lpn]
  show ?thesis
  proof (cases "mapped_ppa (ssd_maptbl s ! lpn)")
    case False
    then show ?thesis using inv map_ok_unmapped [OF ok False] by (simp add: ssd_write_old_def get)
  next
    case True
    obtain c l b g where x: "ssd_maptbl s ! lpn = mk_ppa c l b g" "in_pg s c l b g" "pst s c l b g = PG_VALID"
      by (rule map_okE [OF ok lpn _ True]) auto
    note at = mk_ppa_at_pg [OF I(1) x(2)]
    from mark_page_invalid_ok [OF inv x(2) at x(3)] obtain s1 where
      s1: "mark_page_invalid s (mk_ppa c l b g) = Some s1" "lines_inv s1 {} cur 0"
        "pg_changed s s1 c l b g PG_INVALID" "keeps s s1"
      by (auto elim!: returnsE)
    have sp: "ssd_sp s1 = ssd_sp s" and geo1: "geo_ok s1" and rm1: "ssd_rmap s1 = ssd_rmap s"
      using s1(2,4) by (auto simp: keeps_def lines_inv_def)
    have pg1: "in_pg s1 c l b g" and l1: "length (ssd_rmap s1) = tt s1"
      using x(2) len(2) by (simp_all add: dims_eq(7) [OF sp] tt_cong [OF sp] rm1)
    let ?s2 = "s1\<lparr>ssd_rmap := (ssd_rmap s1)[pgidx s1 c l b g := INVALID_LPN]\<rparr>"
    have run: "ssd_write_old lpn s = Some ?s2"
      using True by (simp add: ssd_write_old_def get x(1) s1(1) set_rmap_ent_ok [OF geo1 l1 pg1 at])
    have "map_ok ?s2 {} {lpn}"
      by (rule map_ok_kill [OF ok I(1) _ x(2) lpn _ x(1)])
        (use s1(3,4) in \<open>auto simp: pg_changed_def keeps_def pgidx_cong [OF sp]\<close>)
    then show ?thesis using run s1(2,4) keeps_room [OF s1(4)] by (simp add: keeps_def)
  qed
qed

end
