(* ===== verification/FTL_GC.thy ===== *)
theory FTL_GC
  imports FTL_Map
begin

text \<open>
  Garbage collection: the choice of the victim, the move of its valid pages, the erasure of
  its blocks and its return to the free lines. Every step keeps the mapping intact, and a
  whole round frees at least one page.
\<close>

section \<open>Moving one page\<close>

text \<open>What garbage collection of line \<open>v\<close> leaves alone, seen from the state \<open>s0\<close> it began in.\<close>

definition gc_same :: "ssd \<Rightarrow> ssd \<Rightarrow> bool" where
  "gc_same s0 s \<longleftrightarrow> ssd_sp s = ssd_sp s0 \<and> ssd_klog s = ssd_klog s0 \<and> mapset s = mapset s0"

lemma gc_same_refl [simp]: "gc_same s s"
  by (simp add: gc_same_def)

lemma gc_same_trans: "gc_same s s' \<Longrightarrow> gc_same s' s'' \<Longrightarrow> gc_same s s''"
  by (simp add: gc_same_def)

lemma tick_gc_same: "tick s s' \<Longrightarrow> gc_same s s'"
  using map_ok_cong(2) [of s' s] tick_pst [of s s'] by (simp add: gc_same_def tick_def)

lemma tick_map_ok: "tick s s' \<Longrightarrow> map_ok s' M H = map_ok s M H"
  using map_ok_cong(1) [of s' s] tick_pst [of s s'] by (simp add: tick_def)

lemma tick_room: "tick s s' \<Longrightarrow> room s' = room s"
  by (simp add: tick_keeps keeps_room)

lemma gc_write_page_ok:
  assumes inv: "lines_inv s {v} cur 0" and ok: "map_ok s M {}" and M: "\<And>c l b g. (c, l, b, g) \<in> M \<Longrightarrow> b = v"
    and pg: "in_pg s c l v g" and p: "at_pg p c l v g" and st: "pst s c l v g = PG_VALID"
    and new: "(c, l, v, g) \<notin> M" and room: "1 < room s"
  shows "returns (gc_write_page s p) (\<lambda>s'. (\<exists>cur'. lines_inv s' {v} cur' 0) \<and>
    map_ok s' (insert (c, l, v, g) M) {} \<and> room s' + 1 = room s \<and> gc_same s s' \<and> same_in {v} s s')"
proof -
  note I = lines_invD [OF inv] and len = map_ok_len [OF ok]
  obtain lpn where lpn: "lpn < tt s" "ssd_maptbl s ! lpn = mk_ppa c l v g"
      "ssd_rmap s ! pgidx s c l v g = word_of_nat lpn"
    by (rule map_ok_rmap [OF ok I(1) pg st new])
  have get: "get_rmap_ent s p = Some (word_of_nat lpn, s)"
    using get_rmap_ent_ok [OF I(1) len(2) pg p] lpn(3) by simp
  have valid: "valid_lpn s (word_of_nat lpn)"
    using lpn(1) tt_int(1,4) [OF I(1)] by (simp add: valid_lpn_def u64_of_int_nat u64_nat_less_iff)
  have ok': "map_ok s (insert (c, l, v, g) M) {lpn}"
    using map_ok_aside [OF ok I(1) pg lpn(1) _ lpn(2)] by simp
  have "returns (place_page s (word_of_nat lpn)) (\<lambda>(p, s'). (\<exists>cur'. lines_inv s' {v} cur' 0) \<and>
    map_ok s' (insert (c, l, v, g) M) ({lpn} - {lpn}) \<and> room s' + 1 = room s \<and> ssd_sp s' = ssd_sp s \<and>
    ssd_klog s' = ssd_klog s \<and>
    same_in {v} s s' \<and> ssd_maptbl s' = (ssd_maptbl s)[lpn := p] \<and>
    (\<exists>c l g. p = mk_ppa c l cur g \<and> in_pg s c l cur g))"
    by (rule place_ok [OF inv ok' lpn(1) singletonI _ room]) (use M in auto)
  then obtain s1 cur1 c1 l1 g1 where s1: "place_page s (word_of_nat lpn) = Some (mk_ppa c1 l1 cur g1, s1)"
    "lines_inv s1 {v} cur1 0" "map_ok s1 (insert (c, l, v, g) M) {}" "room s1 + 1 = room s" "ssd_sp s1 = ssd_sp s"
    "ssd_klog s1 = ssd_klog s" "same_in {v} s s1" "ssd_maptbl s1 = (ssd_maptbl s)[lpn := mk_ppa c1 l1 cur g1]"
    "in_pg s c1 l1 cur g1"
    by (auto elim!: returnsE)
  have "mapset s1 = insert lpn (mapset s)" by (rule mapset_place [OF s1(5,8) lpn(1) len(1)])
  moreover have "lpn \<in> mapset s" using lpn by (simp add: mapset_def)
  ultimately have same: "gc_same s s1" using s1 by (auto simp: gc_same_def)
  have geo1: "geo_ok s1" by (rule lines_invD(1) [OF s1(2)])
  have il: "in_lun s1 c1 l1" and al: "at_lun (mk_ppa c1 l1 cur g1) c1 l1"
    using s1(9) mk_ppa_at_pg [OF I(1) s1(9)] dims_eq(5) [OF s1(5)]
    by (auto simp: in_pg_def in_blk_def at_pg_def at_blk_def)
  have "returns (if enable_gc_delay (ssd_sp s1) then do {
      (_, s) \<leftarrow> ssd_advance_status s1 (mk_ppa c1 l1 cur g1) \<lparr>nc_type = GC_IO, nc_cmd = NAND_WRITE, nc_stime = 0\<rparr>;
      Some s } else Some s1) (tick s1)"
    by (auto intro!: returns_mono [OF ssd_advance_status_ok [OF geo1 il al]])
  then obtain s2 where s2: "(if enable_gc_delay (ssd_sp s1) then do {
      (_, s) \<leftarrow> ssd_advance_status s1 (mk_ppa c1 l1 cur g1) \<lparr>nc_type = GC_IO, nc_cmd = NAND_WRITE, nc_stime = 0\<rparr>;
      Some s } else Some s1) = Some s2" "tick s1 s2"
    by (rule returnsE)
  have geo2: "geo_ok s2" and sp2: "ssd_sp s2 = ssd_sp s1" using s2(2) geo1 by (auto simp: tick_def)
  have "in_lun s2 c1 l1" using il dims_eq(5) [OF sp2] by simp
  from lun_set_gc_endtime_ok [OF geo2 this al] obtain s3 where
    s3: "lun_set_gc_endtime s2 (mk_ppa c1 l1 cur g1) = Some s3" "tick s2 s3"
    by (auto elim!: returnsE)
  have t: "tick s1 s3" by (rule tick_trans [OF s2(2) s3(2)])
  have "same_in {v} s s3" using s1(7) tick_pst [OF t] by (simp add: same_in_def)
  moreover have "gc_same s s3" by (rule gc_same_trans [OF same tick_gc_same [OF t]])
  ultimately show ?thesis
    using s1 s2(1) s3(1) valid get tick_lines_inv [OF t] tick_map_ok [OF t] tick_room [OF t]
    by (auto simp: gc_write_page_place)
qed

section \<open>Cleaning a block\<close>

definition clean_inv :: "ssd \<Rightarrow> nat \<Rightarrow> (nat \<times> nat \<times> nat \<times> nat) set \<Rightarrow> nat \<Rightarrow> nat \<Rightarrow> nat \<Rightarrow> ssd \<times> ppa \<times> int \<Rightarrow> bool" where
  "clean_inv s0 v M c l g = (\<lambda>(s, p, k). (\<exists>cur. lines_inv s {v} cur 0) \<and>
     map_ok s (M \<union> {(c', l', b', g'). c' = c \<and> l' = l \<and> b' = v \<and> g' < g}) {} \<and> gc_same s0 s \<and> same_in {v} s0 s \<and>
     at_blk p c l v \<and> k = int (card {g'. g' < g \<and> pst s0 c l v g' = PG_VALID}) \<and>
     int (room s) + k = int (room s0))"

lemma card_less_Suc_filter:
  "card {i. i < Suc n \<and> P i} = card {i. i < n \<and> P i} + (if P n then 1 else (0::nat))"
proof -
  have "{i. i < Suc n \<and> P i} = (if P n then insert n {i. i < n \<and> P i} else {i. i < n \<and> P i})"
    by (auto simp: less_Suc_eq)
  then show ?thesis by simp
qed

lemma clean_one_page_ok:
  assumes I: "clean_inv s0 v M c l g (s, p, k)" and g: "g < nG s0" and ib: "in_blk s0 c l v"
    and M: "\<And>c l b g. (c, l, b, g) \<in> M \<Longrightarrow> b = v" and new: "\<And>g. (c, l, v, g) \<notin> M"
    and nf: "pst s0 c l v g \<noteq> PG_FREE" and room: "bcnt s0 c l v PG_VALID < room s0"
  shows "returns (clean_one_page g (s, p, k)) (clean_inv s0 v M c l (Suc g))"
proof -
  let ?M = "M \<union> {(c', l', b', g'). c' = c \<and> l' = l \<and> b' = v \<and> g' < g}"
  have M': "insert (c, l, v, g) ?M = M \<union> {(c', l', b', g'). c' = c \<and> l' = l \<and> b' = v \<and> g' < Suc g}"
    by (auto simp: less_Suc_eq)
  obtain cur where inv: "lines_inv s {v} cur 0" and ok: "map_ok s ?M {}" and sm: "gc_same s0 s" "same_in {v} s0 s"
    and p: "at_blk p c l v" and k: "k = int (card {g'. g' < g \<and> pst s0 c l v g' = PG_VALID})"
    and r: "int (room s) + k = int (room s0)"
    using I by (auto simp: clean_inv_def)
  have sp: "ssd_sp s = ssd_sp s0" using sm by (simp add: gc_same_def)
  have geo: "geo_ok s" by (rule lines_invD(1) [OF inv])
  have pg: "in_pg s c l v g" using ib g by (simp add: in_pg_def dims_eq [OF sp])
  let ?p = "p\<lparr>g_pg := word_of_nat g\<rparr>"
  have "g < 2 ^ 16" using pg dims_bound(4) [OF geo] by (simp add: in_pg_def)
  then have ap: "at_pg ?p c l v g"
    using p by (auto simp: at_pg_def at_blk_def at_lun_def intro!: unat_word_of_nat_less)
  then have ab: "at_blk ?p c l v" and al: "at_lun ?p c l" by (auto simp: at_pg_def at_blk_def)
  have st: "pst s c l v g = pst s0 c l v g"
    using sm(2) pg by (auto simp: same_in_def dims_eq [OF sp])
  then have st': "pg_stat (blk_pg (blk_at s c l v) ! g) = pst s0 c l v g" by (simp add: pst_def)
  note get = get_pg_ok [OF geo pg ap]
  have kS: "int (card {g'. g' < Suc g \<and> pst s0 c l v g' = PG_VALID}) = k + (if pst s0 c l v g = PG_VALID then 1 else 0)"
    by (simp add: card_less_Suc_filter k)
  show ?thesis
  proof (cases "pst s0 c l v g = PG_VALID")
    case False
    have "map_ok s (insert (c, l, v, g) ?M) {}" by (rule map_ok_skip [OF ok]) (simp add: st False)
    then have "map_ok s (M \<union> {(c', l', b', g'). c' = c \<and> l' = l \<and> b' = v \<and> g' < Suc g}) {}"
      unfolding M' .
    then have "clean_inv s0 v M c l (Suc g) (s, ?p, k)"
      using inv sm ab r kS False by (auto simp: clean_inv_def)
    then show ?thesis using False nf st' by (simp add: clean_one_page_def get)
  next
    case True
    have il: "in_lun s c l" using pg by (simp add: in_pg_def in_blk_def)
    from gc_read_page_ok [OF geo il al] obtain s1 where s1: "gc_read_page s ?p = Some s1" "tick s s1"
      by (auto elim!: returnsE)
    have inv1: "lines_inv s1 {v} cur 0" and ok1: "map_ok s1 ?M {}" and r1: "room s1 = room s"
      using inv ok tick_lines_inv [OF s1(2)] tick_map_ok [OF s1(2)] tick_room [OF s1(2)] by auto
    have sp1: "ssd_sp s1 = ssd_sp s" and p1: "pst s1 = pst s" using s1(2) tick_pst [OF s1(2)] by (auto simp: tick_def)
    have "k + 1 \<le> int (bcnt s0 c l v PG_VALID)"
    proof -
      have "{g'. g' < Suc g \<and> pst s0 c l v g' = PG_VALID} \<subseteq> {g' \<in> {..<nG s0}. pst s0 c l v g' = PG_VALID}"
        using g by auto
      then have "card {g'. g' < Suc g \<and> pst s0 c l v g' = PG_VALID} \<le> bcnt s0 c l v PG_VALID"
        unfolding bcnt_def by (intro card_mono) auto
      then show ?thesis using kS True by simp
    qed
    then have "1 < room s1" using r r1 room by linarith
    then have "returns (gc_write_page s1 ?p) (\<lambda>s'. (\<exists>cur'. lines_inv s' {v} cur' 0) \<and>
      map_ok s' (insert (c, l, v, g) ?M) {} \<and> room s' + 1 = room s1 \<and> gc_same s1 s' \<and> same_in {v} s1 s')"
      by (intro gc_write_page_ok [OF inv1 ok1 _ _ ap])
        (use M new pg st True p1 dims_eq(7) [OF sp1] in auto)
    then obtain s2 cur2 where s2: "gc_write_page s1 ?p = Some s2" "lines_inv s2 {v} cur2 0"
      "map_ok s2 (insert (c, l, v, g) ?M) {}" "room s2 + 1 = room s1" "gc_same s1 s2" "same_in {v} s1 s2"
      by (auto elim!: returnsE)
    have "same_in {v} s0 s2"
      using sm(2) s2(6) p1 dims_eq(7) [OF sp1] dims_eq(7) [OF sp] by (simp add: same_in_def)
    moreover have "gc_same s0 s2"
      by (rule gc_same_trans [OF gc_same_trans [OF sm(1) tick_gc_same [OF s1(2)]] s2(5)])
    moreover have "map_ok s2 (M \<union> {(c', l', b', g'). c' = c \<and> l' = l \<and> b' = v \<and> g' < Suc g}) {}"
      using s2(3) unfolding M' .
    ultimately have "clean_inv s0 v M c l (Suc g) (s2, ?p, k + 1)"
      using s2(2,4) r1 ab r kS True by (auto simp: clean_inv_def)
    then show ?thesis using True st' s1(1) s2(1) by (simp add: clean_one_page_def get)
  qed
qed

lemma clean_one_block_ok:
  assumes inv: "lines_inv s {v} cur 0" and ok: "map_ok s M {}" and ib: "in_blk s c l v" and p: "at_blk p c l v"
    and M: "\<And>c l b g. (c, l, b, g) \<in> M \<Longrightarrow> b = v" and new: "\<And>g. (c, l, v, g) \<notin> M"
    and nf: "\<And>g. g < nG s \<Longrightarrow> pst s c l v g \<noteq> PG_FREE" and room: "bcnt s c l v PG_VALID < room s"
  shows "returns (clean_one_block s p) (\<lambda>(s', p'). (\<exists>cur'. lines_inv s' {v} cur' 0) \<and>
    map_ok s' (M \<union> {(c', l', b', g'). c' = c \<and> l' = l \<and> b' = v \<and> g' < nG s}) {} \<and> gc_same s s' \<and>
    same_in {v} s s' \<and> at_blk p' c l v \<and> room s' + bcnt s c l v PG_VALID = room s)"
proof -
  have G: "nat (pgs_per_blk (ssd_sp s)) = nG s" by (simp add: nG_def)
  have "M \<union> {(c', l', b', g'). c' = c \<and> l' = l \<and> b' = v \<and> g' < (0::nat)} = M" by auto
  then have "clean_inv s v M c l 0 (s, p, 0)"
    using inv ok p unfolding clean_inv_def same_in_def by auto
  then have "returns (foldM clean_one_page [0..<nG s] (s, p, 0)) (clean_inv s v M c l (nG s))"
  proof (rule returns_foldM_upt)
    fix i t assume i: "i < nG s" and t: "clean_inv s v M c l i t"
    obtain s1 p1 k1 where t': "t = (s1, p1, k1)" by (cases t) auto
    show "returns (clean_one_page i t) (clean_inv s v M c l (Suc i))"
      unfolding t' by (rule clean_one_page_ok [OF t [unfolded t'] i ib M new nf [OF i] room])
  qed simp
  then obtain s1 p1 k cur1 where f: "foldM clean_one_page [0..<nG s] (s, p, 0) = Some (s1, p1, k)"
    "lines_inv s1 {v} cur1 0"
    "map_ok s1 (M \<union> {(c', l', b', g'). c' = c \<and> l' = l \<and> b' = v \<and> g' < nG s}) {}" "gc_same s s1"
    "same_in {v} s s1" "at_blk p1 c l v" "k = int (card {g'. g' < nG s \<and> pst s c l v g' = PG_VALID})"
    "int (room s1) + k = int (room s)"
    by (auto elim!: returnsE simp: clean_inv_def)
  have sp: "ssd_sp s1 = ssd_sp s" using f(4) by (simp add: gc_same_def)
  note I = lines_invD [OF f(2)]
  have ib1: "in_blk s1 c l v" using ib by (simp add: dims_eq(6) [OF sp])
  have k: "k = int (bcnt s c l v PG_VALID)" using f(7) by (simp add: bcnt_def)
  have "bcnt s1 c l v PG_VALID = bcnt s c l v PG_VALID"
    by (rule bcnt_cong [OF sp]) (use f(5) ib in \<open>auto simp: same_in_def in_pg_def\<close>)
  then have "blk_vpc (blk_at s1 c l v) = k" using blks_okD(1) [OF I(2) ib1] k by simp
  then have "clean_one_block s p = Some (s1, p1)"
    by (simp add: clean_one_block_def G f(1) get_blk_ok [OF I(1) ib1 f(6)])
  then show ?thesis using f k by auto
qed

section \<open>Erasing the victim, chip by chip\<close>

lemma erased_lines_inv:
  assumes inv: "lines_inv s {v} cur 0" and e: "block_erased s s' c l v n" and bo: "blks_ok s'"
  shows "lines_inv s' {v} cur 0"
proof -
  note I = lines_invD [OF inv]
  have K: "keeps s s'" and lm: "ssd_lm s' = ssd_lm s" and geo: "geo_ok s'" using e by (auto simp: block_erased_def)
  note P = keeps_parts [OF K]
  have p: "pst s' c' l' b' g' = pst s c' l' b' g'" if "b' \<noteq> v" for c' l' b' g'
    using e that by (auto simp: block_erased_def pst_def)
  have c: "cnt s' b = cnt s b" if "b \<noteq> v" for b
    using p [OF that] by (intro ext cnt_cong [OF P(1)]) simp
  have v: "v \<notin> set (freeL s) \<union> set (fullL s) \<union> victims s" and cv: "cur \<noteq> v"
    using I(3,4) unfolding lists_ok_def by blast+
  have "counts_ok s' {v}"
    using I(5) c by (simp add: counts_ok_def lm dims_eq(3) [OF P(1)])
  moreover have "content_ok s'"
  proof -
    have "\<forall>b\<in>set (freeL s) \<union> set (fullL s) \<union> victims s. cnt s' b = cnt s b"
      using c v by (intro ballI) metis
    then show ?thesis using I(6) by (simp add: content_ok_def lm P_ln_cong [OF P(1)])
  qed
  moreover have "fill s' cur (wp_n s + 0)"
    using I(8) p [OF cv] by (simp add: fill_def pg_idx_cong [OF P(1)] dims_wp [OF P(1)])
  ultimately show ?thesis
    using geo bo I(4,7) lists_ok_cong [OF I(3) lm P(1)] wp_cong [OF P(1,2)] by (simp add: lines_inv_def)
qed

text \<open>The chips \<open>S\<close> of the victim are done.\<close>

definition gc_inv :: "ssd \<Rightarrow> nat \<Rightarrow> (nat \<times> nat) set \<Rightarrow> ssd \<times> ppa \<Rightarrow> bool" where
  "gc_inv s0 v S = (\<lambda>(s, p). (\<exists>cur. lines_inv s {v} cur 0) \<and>
     map_ok s {(c, l, b, g). (c, l) \<in> S \<and> b = v \<and> g < nG s0} {} \<and> gc_same s0 s \<and>
     (\<forall>c l g. in_pg s0 c l v g \<longrightarrow> pst s c l v g = (if (c, l) \<in> S then PG_FREE else pst s0 c l v g)) \<and>
     unat (g_blk p) = v \<and>
     room s + card {(c, l, g). (c, l, g) \<in> pg_idx s0 \<and> (c, l) \<in> S \<and> pst s0 c l v g = PG_VALID} = room s0)"

lemma card_new_chip:
  assumes "in_lun s c l" "(c, l) \<notin> S"
  shows "card {(c', l', g). (c', l', g) \<in> pg_idx s \<and> (c', l') \<in> insert (c, l) S \<and> pst s c' l' v g = PG_VALID} =
    card {(c', l', g). (c', l', g) \<in> pg_idx s \<and> (c', l') \<in> S \<and> pst s c' l' v g = PG_VALID} + bcnt s c l v PG_VALID"
proof -
  let ?A = "{(c', l', g). (c', l', g) \<in> pg_idx s \<and> (c', l') \<in> S \<and> pst s c' l' v g = PG_VALID}"
  let ?B = "(\<lambda>g. (c, l, g)) ` {g \<in> {..<nG s}. pst s c l v g = PG_VALID}"
  have "{(c', l', g). (c', l', g) \<in> pg_idx s \<and> (c', l') \<in> insert (c, l) S \<and> pst s c' l' v g = PG_VALID} = ?A \<union> ?B"
    using assms(1) by (auto simp: pg_idx_def in_lun_def)
  moreover have "?A \<inter> ?B = {}" using assms(2) by auto
  moreover have "finite ?A" by (rule finite_subset [of _ "pg_idx s"]) auto
  moreover have "card ?B = bcnt s c l v PG_VALID"
    unfolding bcnt_def by (rule card_image) (auto simp: inj_on_def)
  ultimately show ?thesis by (simp add: card_Un_disjoint)
qed

lemma card_chips_le:
  "card {(c', l', g). (c', l', g) \<in> pg_idx s \<and> (c', l') \<in> S \<and> pst s c' l' v g = PG_VALID} \<le> cnt s v PG_VALID"
  unfolding cnt_def by (rule card_mono) auto

lemma gc_one_lun_ok:
  assumes I: "gc_inv s0 v S (s, p)" and il: "in_lun s0 c l" and new: "(c, l) \<notin> S" and v: "v < nB s0"
    and nf: "\<And>c l g. (c, l, g) \<in> pg_idx s0 \<Longrightarrow> pst s0 c l v g \<noteq> PG_FREE"
    and room: "cnt s0 v PG_VALID < room s0"
  shows "returns (gc_one_lun c l (s, p)) (gc_inv s0 v (insert (c, l) S))"
proof -
  let ?M = "{(c, l, b, g). (c, l) \<in> S \<and> b = v \<and> g < nG s0}"
  obtain cur where inv: "lines_inv s {v} cur 0" and ok: "map_ok s ?M {}" and sm: "gc_same s0 s"
    and ps: "\<And>c l g. in_pg s0 c l v g \<Longrightarrow> pst s c l v g = (if (c, l) \<in> S then PG_FREE else pst s0 c l v g)"
    and pb: "unat (g_blk p) = v"
    and r: "room s + card {(c, l, g). (c, l, g) \<in> pg_idx s0 \<and> (c, l) \<in> S \<and> pst s0 c l v g = PG_VALID} = room s0"
    using I by (auto simp: gc_inv_def)
  have sp: "ssd_sp s = ssd_sp s0" using sm by (simp add: gc_same_def)
  have geo: "geo_ok s" by (rule lines_invD(1) [OF inv])
  have cl: "c < nC s0" "l < nL s0" using il by (auto simp: in_lun_def)
  have b: "in_blk s c l v" and il': "in_lun s c l"
    using il v by (simp_all add: in_blk_def dims_eq [OF sp])
  let ?p = "p\<lparr>g_ch := word_of_nat c, g_lun := word_of_nat l, g_pl := 0\<rparr>"
  have "c < 2 ^ 7" "l < 2 ^ 8" using il' dims_bound(1,2) [OF geo] by (auto simp: in_lun_def)
  then have at: "at_blk ?p c l v" and al: "at_lun ?p c l"
    using pb by (auto simp: at_blk_def at_lun_def intro!: unat_word_of_nat_less)
  have pg0: "in_pg s0 c l v g" if "g < nG s" for g
    using that il v by (simp add: in_pg_def in_blk_def dims_eq [OF sp])
  have old: "pst s c l v g = pst s0 c l v g" if "g < nG s" for g using ps [OF pg0 [OF that]] new by simp
  have nf': "pst s c l v g \<noteq> PG_FREE" if "g < nG s" for g
    using old [OF that] nf [of c l g] pg0 [OF that] by (simp add: in_pg_idx)
  have bc: "bcnt s c l v PG_VALID = bcnt s0 c l v PG_VALID"
    using old by (simp add: bcnt_def dims_eq [OF sp] cong: conj_cong)
  note card = card_new_chip [OF il new, of v]
  have "bcnt s c l v PG_VALID < room s"
    using r card card_chips_le [of s0 "insert (c, l) S" v] room bc by linarith
  then have "returns (clean_one_block s ?p) (\<lambda>(s', p'). (\<exists>cur'. lines_inv s' {v} cur' 0) \<and>
    map_ok s' (?M \<union> {(c', l', b', g'). c' = c \<and> l' = l \<and> b' = v \<and> g' < nG s}) {} \<and> gc_same s s' \<and>
    same_in {v} s s' \<and> at_blk p' c l v \<and> room s' + bcnt s c l v PG_VALID = room s)"
    by (intro clean_one_block_ok [OF inv ok b at _ _ nf']) (use new in auto)
  then obtain s1 p1 cur1 where s1: "clean_one_block s ?p = Some (s1, p1)" "lines_inv s1 {v} cur1 0"
    "map_ok s1 (?M \<union> {(c', l', b', g'). c' = c \<and> l' = l \<and> b' = v \<and> g' < nG s}) {}" "gc_same s s1"
    "same_in {v} s s1" "at_blk p1 c l v" "room s1 + bcnt s c l v PG_VALID = room s"
    by (auto elim!: returnsE)
  have sp1: "ssd_sp s1 = ssd_sp s" using s1(4) by (simp add: gc_same_def)
  have b1: "in_blk s1 c l v" using b by (simp add: dims_eq(6) [OF sp1])
  note I1 = lines_invD [OF s1(2)]
  from mark_block_free_ok [OF I1(1,2) b1 s1(6)] obtain s2 where
    s2: "mark_block_free s1 p1 = Some s2" "block_erased s1 s2 c l v (nG s1)" "blks_ok s2"
    by (auto elim!: returnsE)
  have inv2: "lines_inv s2 {v} cur1 0" by (rule erased_lines_inv [OF s1(2) s2(2,3)])
  have K2: "keeps s1 s2" using s2(2) by (simp add: block_erased_def)
  have sp2: "ssd_sp s2 = ssd_sp s1" using K2 by (simp add: keeps_def)
  have e2: "pst s2 c l v g = PG_FREE" if "g < nG s" for g
    using s2(2) that by (simp add: block_erased_def dims_eq(4) [OF sp1])
  have o2: "pst s2 c' l' b' g' = pst s1 c' l' b' g'" if "\<not> (c' = c \<and> l' = l \<and> b' = v)" for c' l' b' g'
  proof -
    have "(c', l', b') \<noteq> (c, l, v)" using that by simp
    then have "blk_at s2 c' l' b' = blk_at s1 c' l' b'" using s2(2) unfolding block_erased_def by blast
    then show ?thesis by (simp add: pst_def)
  qed
  let ?S = "insert (c, l) S"
  let ?M' = "{(c', l', b, g). (c', l') \<in> ?S \<and> b = v \<and> g < nG s0}"
  have M: "?M \<union> {(c', l', b', g'). c' = c \<and> l' = l \<and> b' = v \<and> g' < nG s} = ?M'"
    by (auto simp: dims_eq [OF sp])
  have ok2: "map_ok s2 ?M' {}"
  proof (rule map_ok_erase [OF s1(3) [unfolded M]])
    fix c' l' b' g' assume i: "in_pg s1 c' l' b' g'" and n: "(c', l', b', g') \<notin> ?M'"
    have "g' < nG s0" using i by (simp add: in_pg_def dims_eq [OF sp1] dims_eq [OF sp])
    then have "\<not> (c' = c \<and> l' = l \<and> b' = v)" using n by auto
    then show "pst s2 c' l' b' g' = pst s1 c' l' b' g'" by (rule o2)
  qed (use K2 in \<open>auto simp: keeps_def\<close>)
  have il2: "in_lun s2 c l" and geo2: "geo_ok s2"
    using il' inv2 by (auto simp: dims_eq [OF sp2] dims_eq [OF sp1] lines_inv_def)
  have al1: "at_lun p1 c l" using s1(6) by (simp add: at_blk_def)
  have "returns (if enable_gc_delay (ssd_sp s2) then do {
      (_, s) \<leftarrow> ssd_advance_status s2 p1 \<lparr>nc_type = GC_IO, nc_cmd = NAND_ERASE, nc_stime = 0\<rparr>;
      Some s } else Some s2) (tick s2)"
    by (auto intro!: returns_mono [OF ssd_advance_status_ok [OF geo2 il2 al1]])
  then obtain s3 where s3: "(if enable_gc_delay (ssd_sp s2) then do {
      (_, s) \<leftarrow> ssd_advance_status s2 p1 \<lparr>nc_type = GC_IO, nc_cmd = NAND_ERASE, nc_stime = 0\<rparr>;
      Some s } else Some s2) = Some s3" "tick s2 s3"
    by (rule returnsE)
  have geo3: "geo_ok s3" and sp3: "ssd_sp s3 = ssd_sp s2" using s3(2) geo2 by (auto simp: tick_def)
  have "in_lun s3 c l" using il2 by (simp add: dims_eq [OF sp3])
  from lun_set_gc_endtime_ok [OF geo3 this al1] obtain s4 where
    s4: "lun_set_gc_endtime s3 p1 = Some s4" "tick s3 s4"
    by (auto elim!: returnsE)
  have t: "tick s2 s4" by (rule tick_trans [OF s3(2) s4(2)])
  have "mapset s2 = mapset s1" using K2 tt_cong [OF sp2] by (simp add: mapset_def keeps_def)
  then have "gc_same s1 s2" using K2 by (simp add: gc_same_def keeps_def)
  then have sm4: "gc_same s0 s4"
    using gc_same_trans [OF gc_same_trans [OF sm s1(4)] gc_same_trans [OF _ tick_gc_same [OF t]]] by blast
  have p4: "pst s4 c' l' v g = (if (c', l') \<in> ?S then PG_FREE else pst s0 c' l' v g)"
    if i: "in_pg s0 c' l' v g" for c' l' g
  proof (cases "c' = c \<and> l' = l")
    case True
    then show ?thesis using e2 [of g] i by (simp add: tick_pst [OF t] in_pg_def dims_eq [OF sp])
  next
    case False
    have "pst s1 c' l' v g = pst s c' l' v g"
      using s1(5) i by (simp add: same_in_def dims_eq(7) [OF sp])
    then show ?thesis using False o2 [of c' l' v g] ps [OF i] by (auto simp: tick_pst [OF t])
  qed
  have "room s4 + card {(c', l', g). (c', l', g) \<in> pg_idx s0 \<and> (c', l') \<in> ?S \<and> pst s0 c' l' v g = PG_VALID} = room s0"
    using r card s1(7) bc tick_room [OF t] keeps_room [OF K2] by simp
  then have "gc_inv s0 v ?S (s4, p1)"
    using tick_lines_inv [OF t] inv2 tick_map_ok [OF t] ok2 sm4 p4 s1(6)
    by (auto simp: gc_inv_def at_blk_def)
  moreover have "get_lun s ?p = Some (lun_at s c l)" by (rule get_lun_ok [OF geo il' al])
  ultimately show ?thesis
    using s1(1) s2(1) s3(1) s4(1) by (simp add: gc_one_lun_def Let_def)
qed

section \<open>The victim\<close>

lemma select_victim_none:
  assumes inv: "lines_inv s D cur 0" and e: "victims s = {}"
  shows "select_victim_line s force = Some (None, s)"
proof -
  have "vq.pq_ok (vicQ s) (lns s)" using lines_invD(3) [OF inv] by (simp add: lists_ok_def)
  then show ?thesis using vq.pqueue_peek_empty e by (simp add: select_victim_line_def Let_def)
qed

text \<open>
  The victim is a line with the fewest valid pages. Without \<open>force\<close> it must also have an
  eighth of its pages invalid.
\<close>

lemma select_victim_line_ok:
  assumes inv: "lines_inv s {} cur 0" and ne: "victims s \<noteq> {}"
  defines "v \<equiv> pq_nth (vicQ s) 1"
  shows "v \<in> victims s" "\<forall>b\<in>victims s. line_vpc (lns s ! v) \<le> line_vpc (lns s ! b)"
    "\<not> force \<Longrightarrow> line_ipc (lns s ! v) < pgs_per_line (ssd_sp s) div 8 \<Longrightarrow>
      select_victim_line s force = Some (None, s)"
    "force \<or> pgs_per_line (ssd_sp s) div 8 \<le> line_ipc (lns s ! v) \<Longrightarrow>
      returns (select_victim_line s force) (\<lambda>(r, s'). r = Some v \<and> lm_step s s' \<and>
        lines_inv s' {v} cur 0 \<and> room s' = room s \<and> victims s' = victims s - {v})"
proof -
  note I = lines_invD [OF inv]
  have q: "vq.pq_ok (vicQ s) (lns s)" and len: "length (lns s) = nB s" using I(3) by (auto simp: lists_ok_def)
  note pk = vq.pqueue_peek_ok [OF q ne, folded v_def]
  show v: "v \<in> victims s" by (rule pk(2))
  have lt: "v < nB s" by (rule lists_ok_lt [OF I(3)]) (use v in blast)
  have rng: "0 \<le> line_vpc (lns s ! b)" "line_vpc (lns s ! b) < 2 ^ 31" if "b < nB s" for b
  proof -
    have "line_vpc (lns s ! b) = int (cnt s b PG_VALID)" using I(5) that by (simp add: counts_ok_def)
    moreover have "cnt s b PG_VALID < 2 ^ 31" using cnt_le [of s b] P_ln_bound(3) [OF I(1)] le_less_trans by blast
    ultimately show "0 \<le> line_vpc (lns s ! b)" "line_vpc (lns s ! b) < 2 ^ 31" by auto
  qed
  show "\<forall>b\<in>victims s. line_vpc (lns s ! v) \<le> line_vpc (lns s ! b)"
  proof
    fix b assume b: "b \<in> victims s"
    then have "b < nB s" using lists_ok_lt [OF I(3)] by blast
    moreover have "u64_of_int (line_vpc (lns s ! v)) \<le> u64_of_int (line_vpc (lns s ! b))"
      using pk(3) b by (simp add: victim_line_get_pri_def)
    ultimately show "line_vpc (lns s ! v) \<le> line_vpc (lns s ! b)"
      using u64_of_int_le_iff [OF rng [OF lt] rng [of b]] by simp
  qed
  have get: "arr_get (lns s) v = Some (lns s ! v)" using lt len by simp
  show "select_victim_line s force = Some (None, s)"
    if "\<not> force" "line_ipc (lns s ! v) < pgs_per_line (ssd_sp s) div 8"
    using that get by (simp add: select_victim_line_def Let_def pk(1))
  assume go: "force \<or> pgs_per_line (ssd_sp s) div 8 \<le> line_ipc (lns s ! v)"
  from vq.pqueue_pop_wf [OF q ne, folded v_def] obtain q' ls' where
    pop: "pqueue_pop (vicQ s) (lns s) = Some (Some v, q', ls')" and q': "vq.pq_ok q' ls'"
    and E: "pq_elems q' = victims s - {v}" and av: "pq_avail q' = pq_avail (vicQ s)"
    and rest: "lines_rest ls' = lines_rest (lns s)"
    and pos: "\<forall>x. x \<notin> victims s \<longrightarrow> victim_line_get_pos ls' x = victim_line_get_pos (lns s) x"
    by (auto elim!: returnsE)
  note R = lines_restD [OF rest]
  let ?ls = "ls'[v := (ls' ! v)\<lparr>line_pos := 0\<rparr>]"
  let ?s' = "s\<lparr>ssd_lm := (ssd_lm s)\<lparr>victim_line_pq := q', lm_lines := ?ls,
    victim_line_cnt := victim_line_cnt (ssd_lm s) - 1\<rparr>\<rparr>"
  have run: "select_victim_line s force = Some (Some v, ?s')"
    using go get pop lt len R(1) by (auto simp: select_victim_line_def Let_def pk(1))
  have lt': "v < length ls'" using lt len R(1) by simp
  have nth: "?ls ! i = (if i = v then (ls' ! v)\<lparr>line_pos := 0\<rparr> else ls' ! i)" for i
    using lt' by (simp add: nth_list_update_if)
  have q2: "vq.pq_ok q' ?ls"
    by (rule vq_ok_cong [OF q']) (auto simp: E nth simp del: nth_list_update)
  have ids: "\<forall>b<nB s. line_id (?ls ! b) = int b"
    using I(3) R(2) len by (auto simp: nth lists_ok_def simp del: nth_list_update)
  have p0: "\<forall>b<nB s. b \<notin> victims s - {v} \<longrightarrow> line_pos (?ls ! b) = 0"
    using I(3) pos by (auto simp: nth lists_ok_def victim_line_get_pos_def simp del: nth_list_update)
  have card: "int (card (victims s - {v})) = int (card (victims s)) - 1"
    using card.remove [OF finite_victims v] by simp
  have d: "(set (freeL s) \<union> set (fullL s)) \<inter> (victims s - {v}) = {}"
    "(set (freeL s) \<union> set (fullL s) \<union> (victims s - {v})) \<inter> insert cur {v} = {}"
    "set (freeL s) \<union> set (fullL s) \<union> (victims s - {v}) \<union> insert cur {v} = {..<nB s}" "cur \<noteq> v"
    using I(3) v unfolding lists_ok_def by blast+
  have "lists_ok ?s' (insert cur {v})"
    using I(3) q2 ids p0 card d R(1) len E av unfolding lists_ok_def by simp
  moreover have "counts_ok ?s' {v}"
    using I(5) R(3,4) len by (auto simp: counts_ok_def nth simp del: nth_list_update)
  moreover have "content_ok ?s'" using I(6) by (simp add: content_ok_def E)
  ultimately have "lines_inv ?s' {v} cur 0" using I d(4) unfolding lines_inv_def by simp
  then show "returns (select_victim_line s force) (\<lambda>(r, s'). r = Some v \<and> lm_step s s' \<and>
        lines_inv s' {v} cur 0 \<and> room s' = room s \<and> victims s' = victims s - {v})"
    by (simp add: run room_def E)
qed

section \<open>A whole round\<close>

lemma mark_line_free_ok:
  assumes inv: "lines_inv s {v} cur 0" and p: "unat (g_blk p) = v" and fr: "cnt s v PG_FREE = P_ln s"
  shows "returns (mark_line_free s p) (\<lambda>s'. lm_step s s' \<and> lines_inv s' {} cur 0 \<and> room s' = room s + P_ln s)"
proof -
  note I = lines_invD [OF inv]
  have lt: "v < nB s" using lists_ok_lt [OF I(3), of v] by blast
  have len: "length (lns s) = nB s" and id: "line_id (lns s ! v) = int v" using I(3) lt by (auto simp: lists_ok_def)
  let ?l = "(lns s ! v)\<lparr>line_ipc := 0, line_vpc := 0\<rparr>"
  let ?s1 = "s\<lparr>ssd_lm := (ssd_lm s)\<lparr>lm_lines := (lns s)[v := ?l]\<rparr>\<rparr>"
  have nv: "v \<notin> set (freeL s) \<union> set (fullL s) \<union> victims s" using I(3) unfolding lists_ok_def by blast
  have ok1: "lists_ok ?s1 (insert cur {v})" by (rule lists_ok_upd_line [OF I(3) lt]) (use id nv in auto)
  let ?s2 = "?s1\<lparr>ssd_lm := (ssd_lm ?s1)\<lparr>free_line_list := freeL s @ [v], free_line_cnt := free_line_cnt (ssd_lm s) + 1\<rparr>\<rparr>"
  have run: "mark_line_free s p = Some ?s2"
    using p lt len by (simp add: mark_line_free_def upd_line_ok Let_def)
  have sets: "set (freeL s) \<inter> set (fullL s) = {}" "(set (freeL s) \<union> set (fullL s)) \<inter> victims s = {}"
    "(set (freeL s) \<union> set (fullL s) \<union> victims s) \<inter> {cur, v} = {}" "cur \<noteq> v"
    "set (freeL s) \<union> set (fullL s) \<union> victims s \<union> {cur, v} = {..<nB s}"
    using I(3,4) by (simp_all add: lists_ok_def)
  have d: "insert v (set (freeL s)) \<inter> set (fullL s) = {}"
    "(insert v (set (freeL s)) \<union> set (fullL s)) \<inter> victims s = {}"
    "(insert v (set (freeL s)) \<union> set (fullL s) \<union> victims s) \<inter> {cur} = {}" "v \<notin> set (freeL s)"
    using sets by auto
  have all: "insert v (set (freeL s)) \<union> set (fullL s) \<union> victims s \<union> {cur} = {..<nB s}"
    using sets(5) by (simp add: insert_commute)
  have parts: "length (lns ?s1) = nB s" "\<forall>b<nB s. line_id (lns ?s1 ! b) = int b" "distinct (freeL s)"
    "distinct (fullL s)" "free_line_cnt (ssd_lm s) = int (length (freeL s))"
    "full_line_cnt (ssd_lm s) = int (length (fullL s))" "victim_line_cnt (ssd_lm s) = int (card (victims s))"
    "vq.pq_ok (vicQ s) (lns ?s1)" "pq_avail (vicQ s) = nB s + 1"
    "\<forall>b<nB s. b \<notin> victims s \<longrightarrow> line_pos (lns ?s1 ! b) = 0"
    using ok1 by (simp_all add: lists_ok_def)
  have "lists_ok ?s2 {cur}"
    unfolding lists_ok_def using parts d all by simp
  moreover have "counts_ok ?s2 {}"
  proof -
    have "cnt s v PG_VALID = 0" "cnt s v PG_INVALID = 0" using fr cnt_total [of s v] by auto
    then show ?thesis using I(5) len lt by (simp add: counts_ok_def nth_list_update)
  qed
  moreover have "content_ok ?s2" using I(6) fr by (simp add: content_ok_def)
  ultimately have "lines_inv ?s2 {} cur 0" using I unfolding lines_inv_def by simp
  then show ?thesis using run by (simp add: room_def)
qed

text \<open>
  One round: the victim is cleaned and becomes a free line; nothing is lost, and there is
  room for more pages than before.
\<close>

definition gc_ready :: "ssd \<Rightarrow> bool" where
  "gc_ready s \<longleftrightarrow> (\<exists>cur. lines_inv s {} cur 0) \<and> map_ok s {} {}"

lemma Collect_tuple_False [simp]: "{(a, b, c). False} = {}" "{(a, b, c, d). False} = {}"
  by auto

lemma do_gc_loop_ok:
  assumes inv: "lines_inv s {v} cur 0" and ok: "map_ok s {} {}" and p: "unat (g_blk p) = v" and v: "v < nB s"
    and nf: "cnt s v PG_FREE = 0" and room: "cnt s v PG_VALID < room s"
  shows "returns (foldM (\<lambda>c. foldM (gc_one_lun c) [0..<nL s]) [0..<nC s] (s, p))
    (gc_inv s v ({..<nC s} \<times> {..<nL s}))"
proof -
  define S where "S c l = {(c', l'). l' < nL s \<and> (c' < c \<or> c' = c \<and> l' < l)}" for c l :: nat
  have nf': "pst s c l v g \<noteq> PG_FREE" if "(c, l, g) \<in> pg_idx s" for c l g
    using nf that by (simp add: cnt_zero)
  have "gc_inv s v (S 0 0) (s, p)" using inv ok p by (auto simp: gc_inv_def S_def)
  then have "returns (foldM (\<lambda>c. foldM (gc_one_lun c) [0..<nL s]) [0..<nC s] (s, p)) (gc_inv s v (S (nC s) 0))"
  proof (rule returns_foldM_upt [where I = "\<lambda>c. gc_inv s v (S c 0)"])
    fix c t assume c: "c < nC s" and t: "gc_inv s v (S c 0) t"
    have "returns (foldM (gc_one_lun c) [0..<nL s] t) (gc_inv s v (S c (nL s)))"
    proof (rule returns_foldM_upt [where I = "\<lambda>l. gc_inv s v (S c l)"])
      fix l u assume l: "l < nL s" and u: "gc_inv s v (S c l) u"
      obtain s1 p1 where u': "u = (s1, p1)" by (cases u)
      have "S c (Suc l) = insert (c, l) (S c l)" using l by (auto simp: S_def)
      moreover have "returns (gc_one_lun c l (s1, p1)) (gc_inv s v (insert (c, l) (S c l)))"
        by (rule gc_one_lun_ok [OF u [unfolded u'] _ _ v nf' room])
          (use c l in \<open>auto simp: in_lun_def S_def\<close>)
      ultimately show "returns (gc_one_lun c l u) (gc_inv s v (S c (Suc l)))" by (simp add: u')
    qed (use t in simp_all)
    moreover have "S c (nL s) = S (Suc c) 0" by (auto simp: S_def)
    ultimately show "returns (foldM (gc_one_lun c) [0..<nL s] t) (gc_inv s v (S (Suc c) 0))" by simp
  qed simp
  moreover have "S (nC s) 0 = {..<nC s} \<times> {..<nL s}" by (auto simp: S_def)
  ultimately show ?thesis by simp
qed

lemma do_gc_ok:
  assumes inv: "gc_ready s" and ne: "victims s \<noteq> {}" and room: "P_ln s \<le> room s"
  shows "returns (do_gc True s) (\<lambda>(r, s'). r = 0 \<and> gc_ready s' \<and> gc_same s s' \<and> room s < room s')"
proof -
  obtain cur where L: "lines_inv s {} cur 0" and ok: "map_ok s {} {}" using inv by (auto simp: gc_ready_def)
  note I = lines_invD [OF L]
  note sel = select_victim_line_ok [OF L ne]
  let ?v = "pq_nth (vicQ s) 1"
  obtain s1 where s1: "select_victim_line s True = Some (Some ?v, s1)" "lm_step s s1" "lines_inv s1 {?v} cur 0"
    "room s1 = room s"
    using sel(4) [of True] by (auto elim!: returnsE)
  note F = lm_step_fields [OF s1(2)]
  have v: "?v < nB s" by (rule lists_ok_lt [OF I(3)]) (use sel(1) in blast)
  have con: "cnt s ?v PG_FREE = 0" "0 < cnt s ?v PG_INVALID" using I(6) sel(1) by (auto simp: content_ok_def)
  then have lt: "cnt s ?v PG_VALID < P_ln s" using cnt_total [of s ?v] by simp
  have id: "line_id (lns s1 ! ?v) = int ?v" and len: "length (lns s1) = nB s1"
    using lines_invD(3) [OF s1(3)] v by (auto simp: lists_ok_def F)
  let ?p = "(ssd_stack_ppa s1)\<lparr>g_blk := word_of_int (int ?v)\<rparr>"
  have "?v < 2 ^ 16" using v dims_bound(3) [OF I(1)] by simp
  then have p: "unat (g_blk ?p) = ?v" by (simp add: unat_word_of_nat_less)
  have ok1: "map_ok s1 {} {}" and ms: "mapset s1 = mapset s" using ok map_ok_cong [of s1 s] F by auto
  have "returns (foldM (\<lambda>c. foldM (gc_one_lun c) [0..<nL s1]) [0..<nC s1] (s1, ?p))
    (gc_inv s1 ?v ({..<nC s1} \<times> {..<nL s1}))"
    by (rule do_gc_loop_ok [OF s1(3) ok1 p]) (use v con lt room s1(4) in \<open>simp_all add: F\<close>)
  then obtain s2 p2 where f: "foldM (\<lambda>c. foldM (gc_one_lun c) [0..<nL s1]) [0..<nC s1] (s1, ?p) = Some (s2, p2)"
    and g: "gc_inv s1 ?v ({..<nC s1} \<times> {..<nL s1}) (s2, p2)"
    by (auto elim!: returnsE)
  let ?M = "{(c, l, b, g). (c, l) \<in> {..<nC s1} \<times> {..<nL s1} \<and> b = ?v \<and> g < nG s1}"
  obtain cur2 where g': "lines_inv s2 {?v} cur2 0" "map_ok s2 ?M {}" "gc_same s1 s2"
    "\<And>c l g. in_pg s1 c l ?v g \<Longrightarrow> pst s2 c l ?v g = PG_FREE" "unat (g_blk p2) = ?v"
    and r: "room s2 + card {(c, l, g). (c, l, g) \<in> pg_idx s1 \<and> (c, l) \<in> {..<nC s1} \<times> {..<nL s1} \<and>
      pst s1 c l ?v g = PG_VALID} = room s1"
    using g by (auto simp: gc_inv_def in_pg_def in_blk_def in_lun_def)
  have sp2: "ssd_sp s2 = ssd_sp s1" using g'(3) by (simp add: gc_same_def)
  have v1: "?v < nB s1" using v by (simp add: F)
  have all: "pst s2 c l ?v g = PG_FREE" if "(c, l, g) \<in> pg_idx s2" for c l g
    using g'(4) [of c l g] that v1 by (simp add: in_pg_idx pg_idx_cong [OF sp2])
  have fr: "cnt s2 ?v PG_FREE = P_ln s2" using all by (simp add: cnt_all)
  have ok2: "map_ok s2 {} {}"
    by (rule map_ok_drop [OF g'(2)]) (use all in \<open>auto simp: in_pg_idx\<close>)
  from mark_line_free_ok [OF g'(1,5) fr] obtain s3 where
    s3: "mark_line_free s2 p2 = Some s3" "lm_step s2 s3" "lines_inv s3 {} cur2 0" "room s3 = room s2 + P_ln s2"
    by (auto elim!: returnsE)
  note F3 = lm_step_fields [OF s3(2)]
  have ok3: "map_ok s3 {} {}" and ms3: "mapset s3 = mapset s2" using ok2 map_ok_cong [of s3 s2] F3 by auto
  have run: "do_gc True s = Some (0, s3)"
    using s1(1) len v1 id f s3(1) by (simp add: do_gc_def Let_def nC_def nL_def)
  have "room s1 \<le> room s2 + cnt s1 ?v PG_VALID"
    using r card_chips_le [of s1 "{..<nC s1} \<times> {..<nL s1}" ?v] by linarith
  then have "room s < room s3" using s3(4) s1(4) lt P_ln_cong [OF sp2] by (simp add: F)
  moreover have "gc_same s s3"
    using g'(3) ms ms3 by (simp add: gc_same_def F F3)
  ultimately show ?thesis using run s3(3) ok3 by (auto simp: gc_ready_def)
qed

end
