(* ===== verification/FTL_Safe.thy ===== *)
theory FTL_Safe
  imports FTL_GC
begin

text \<open>
  The host interface of the translation layer: garbage collection in the foreground stops,
  and reads and writes return, keep the invariant and log nothing, as long as the host
  does not fill the device.
\<close>

section \<open>Foreground garbage collection\<close>

lemma room_le:
  assumes "lines_inv s D cur 0" shows "room s \<le> (nB s + 1) * P_ln s"
proof -
  note I = lines_invD [OF assms]
  have "set (freeL s) \<subseteq> {..<nB s}" using lists_ok_lt [OF I(3)] by blast
  moreover have "distinct (freeL s)" using I(3) by (simp add: lists_ok_def)
  ultimately have "length (freeL s) \<le> nB s"
    using card_mono [of "{..<nB s}" "set (freeL s)"] by (simp add: distinct_card)
  then have "length (freeL s) * P_ln s \<le> nB s * P_ln s" by (rule mult_le_mono1)
  then have "room s \<le> nB s * P_ln s + P_ln s" unfolding room_def by linarith
  then show ?thesis by (simp only: add_mult_distrib mult_1)
qed

lemma do_gc_none: "gc_ready s \<Longrightarrow> victims s = {} \<Longrightarrow> do_gc force s = Some (-1, s)"
  using select_victim_none [of s "{}" _ force] by (auto simp: gc_ready_def do_gc_def)

lemma gc_high_loop_ok:
  assumes "gc_ready s" "P_ln s \<le> room s"
  shows "returns (gc_high_loop s) (\<lambda>s'. gc_ready s' \<and> gc_same s s' \<and> room s \<le> room s' \<and>
    (should_gc_high s' \<longrightarrow> victims s' = {}))"
  using assms
proof (induction "(nB s + 1) * P_ln s - room s" arbitrary: s rule: less_induct)
  case less
  show ?case
  proof (cases "should_gc_high s \<and> victims s \<noteq> {}")
    case False
    then have "gc_high_loop s = Some s"
      using do_gc_none [OF less.prems(1)] by (subst gc_high_loop.simps) auto
    then show ?thesis using False less.prems by auto
  next
    case True
    from do_gc_ok [OF less.prems(1) _ less.prems(2)] True obtain s1 where
      s1: "do_gc True s = Some (0, s1)" "gc_ready s1" "gc_same s s1" "room s < room s1"
      by (auto elim!: returnsE)
    have sp: "ssd_sp s1 = ssd_sp s" using s1(3) by (simp add: gc_same_def)
    note c = P_ln_cong [OF sp] dims_eq(3) [OF sp]
    have "room s1 \<le> (nB s1 + 1) * P_ln s1" using s1(2) room_le by (auto simp: gc_ready_def)
    then have "returns (gc_high_loop s1) (\<lambda>s'. gc_ready s' \<and> gc_same s1 s' \<and> room s1 \<le> room s' \<and>
        (should_gc_high s' \<longrightarrow> victims s' = {}))"
      using s1(2,4) less.prems(2) by (intro less.hyps) (auto simp: c)
    then obtain s2 where s2: "gc_high_loop s1 = Some s2" "gc_ready s2" "gc_same s1 s2" "room s1 \<le> room s2"
        "should_gc_high s2 \<longrightarrow> victims s2 = {}"
      by (auto elim!: returnsE)
    have "gc_high_loop s = Some s2"
      using True s1(1) s2(1) by (subst gc_high_loop.simps) simp
    then show ?thesis using s1(3,4) s2 gc_same_trans by auto
  qed
qed

text \<open>The full lines hold mapped pages only, so a device that is not full leaves free lines.\<close>

lemma full_lines_mapped:
  assumes "gc_ready s" shows "length (fullL s) * P_ln s \<le> card (mapset s)"
proof -
  obtain cur where inv: "lines_inv s {} cur 0" and ok: "map_ok s {} {}" using assms by (auto simp: gc_ready_def)
  note I = lines_invD [OF inv]
  let ?A = "set (fullL s) \<times> pg_idx s"
  let ?f = "\<lambda>(b, c, l, g). mk_ppa c l b g"
  have pgs: "in_pg s c l b g" "pst s c l b g = PG_VALID" if "(b, c, l, g) \<in> ?A" for b c l g
    using that lists_ok_lt [OF I(3), of b] I(6) by (auto simp: in_pg_idx content_ok_def cnt_all)
  have "?f ` ?A \<subseteq> (\<lambda>i. ssd_maptbl s ! i) ` mapset s"
  proof
    fix p assume "p \<in> ?f ` ?A"
    then obtain b c l g where p: "p = mk_ppa c l b g" and a: "(b, c, l, g) \<in> ?A" by auto
    obtain i where "i < tt s" "ssd_maptbl s ! i = p"
      using map_ok_valid [OF ok pgs [OF a]] p by auto
    then show "p \<in> (\<lambda>i. ssd_maptbl s ! i) ` mapset s" by (auto simp: mapset_def p intro!: image_eqI)
  qed
  then have "card (?f ` ?A) \<le> card (mapset s)"
    by (rule surj_card_le [rotated]) (simp add: mapset_def)
  moreover have "inj_on ?f ?A"
    using mk_ppa_inj [OF I(1) pgs(1) pgs(1)] by (fastforce simp: inj_on_def)
  moreover have "card ?A = length (fullL s) * P_ln s"
    using I(3) by (simp add: card_cartesian_product card_pg_idx lists_ok_def distinct_card)
  ultimately show ?thesis by (simp add: card_image)
qed

lemma lines_total:
  assumes inv: "lines_inv s {} cur 0"
  shows "length (freeL s) + length (fullL s) + card (victims s) + 1 = nB s"
proof -
  note I = lines_invD [OF inv]
  have sets: "set (freeL s) \<inter> set (fullL s) = {}" "(set (freeL s) \<union> set (fullL s)) \<inter> victims s = {}"
    "cur \<notin> set (freeL s) \<union> set (fullL s) \<union> victims s" "distinct (freeL s)" "distinct (fullL s)"
    "set (freeL s) \<union> set (fullL s) \<union> victims s \<union> {cur} = {..<nB s}"
    using I(3) by (simp_all add: lists_ok_def)
  have "card (set (freeL s) \<union> set (fullL s) \<union> victims s \<union> {cur}) =
      length (freeL s) + length (fullL s) + card (victims s) + 1"
    using sets(1-5) by (simp add: card_Un_disjoint distinct_card)
  then show ?thesis unfolding sets(6) by simp
qed

section \<open>Writing\<close>

lemma ssd_write_one_ok:
  assumes g: "gc_ready s" and lpn: "lpn < tt s" and room: "1 < room s"
  shows "returns (ssd_write_one t lpn (s, m)) (\<lambda>(s', m'). gc_ready s' \<and> room s' + 1 = room s \<and>
    mapset s' = insert lpn (mapset s) \<and> ssd_sp s' = ssd_sp s \<and> ssd_klog s' = ssd_klog s \<and>
    (\<exists>p. ssd_maptbl s' = (ssd_maptbl s)[lpn := p]))"
proof -
  obtain cur where inv: "lines_inv s {} cur 0" and ok: "map_ok s {} {}" using g by (auto simp: gc_ready_def)
  from ssd_write_old_ok [OF inv ok lpn] obtain s1 where
    s1: "ssd_write_old lpn s = Some s1" "lines_inv s1 {} cur 0" "map_ok s1 {} {lpn}" "room s1 = room s"
      "ssd_sp s1 = ssd_sp s" "ssd_klog s1 = ssd_klog s" "ssd_maptbl s1 = ssd_maptbl s"
    by (auto elim!: returnsE)
  have lpn1: "lpn < tt s1" using lpn tt_cong [OF s1(5)] by simp
  have "returns (place_page s1 (word_of_nat lpn)) (\<lambda>(p, s'). (\<exists>cur'. lines_inv s' {} cur' 0) \<and>
    map_ok s' {} ({lpn} - {lpn}) \<and> room s' + 1 = room s1 \<and> ssd_sp s' = ssd_sp s1 \<and> ssd_klog s' = ssd_klog s1 \<and>
    same_in {} s1 s' \<and> ssd_maptbl s' = (ssd_maptbl s1)[lpn := p] \<and>
    (\<exists>c l g. p = mk_ppa c l cur g \<and> in_pg s1 c l cur g))"
    by (rule place_ok [OF s1(2,3) lpn1 singletonI]) (use room s1(4) in auto)
  then obtain s2 cur2 c l g where s2: "place_page s1 (word_of_nat lpn) = Some (mk_ppa c l cur g, s2)"
    "lines_inv s2 {} cur2 0" "map_ok s2 {} {}" "room s2 + 1 = room s1" "ssd_sp s2 = ssd_sp s1"
    "ssd_klog s2 = ssd_klog s1" "ssd_maptbl s2 = (ssd_maptbl s1)[lpn := mk_ppa c l cur g]" "in_pg s1 c l cur g"
    by (auto elim!: returnsE)
  have geo1: "geo_ok s1" and geo2: "geo_ok s2" using s1(2) s2(2) by (auto simp: lines_inv_def)
  have il: "in_lun s2 c l" and al: "at_lun (mk_ppa c l cur g) c l"
    using s2(8) mk_ppa_at_pg [OF geo1 s2(8)] dims_eq(5) [OF s2(5)]
    by (auto simp: in_pg_def in_blk_def at_pg_def at_blk_def)
  have "returns (ssd_advance_status s2 (mk_ppa c l cur g)
      \<lparr>nc_type = USER_IO, nc_cmd = NAND_WRITE, nc_stime = t\<rparr>) (\<lambda>(_, s'). tick s2 s')"
    by (rule ssd_advance_status_ok [OF geo2 il al]) simp
  then obtain a s3 where s3: "ssd_advance_status s2 (mk_ppa c l cur g)
      \<lparr>nc_type = USER_IO, nc_cmd = NAND_WRITE, nc_stime = t\<rparr> = Some (a, s3)" and tk: "tick s2 s3"
    by (auto elim!: returnsE)
  have "mapset s2 = insert lpn (mapset s1)"
    by (rule mapset_place [OF s2(5,7) lpn1 map_ok_len(1) [OF s1(3)]])
  moreover have "mapset s1 = mapset s" using s1(7) tt_cong [OF s1(5)] by (simp add: mapset_def)
  ultimately have "mapset s3 = insert lpn (mapset s)" using tick_gc_same [OF tk] by (simp add: gc_same_def)
  moreover have "gc_ready s3"
    using s2(2,3) tick_lines_inv [OF tk] tick_map_ok [OF tk] by (auto simp: gc_ready_def)
  ultimately show ?thesis
    using s1(1,4-7) s2(1,4-7) s3 tk tick_room [OF tk]
    by (auto simp: ssd_write_one_def ssd_write_new_place tick_def)
qed

text \<open>A device that can take the next write: more than one line of room is left.\<close>

definition write_ready :: "ssd \<Rightarrow> bool" where
  "write_ready s \<longleftrightarrow> gc_ready s \<and> P_ln s < room s"

lemma ssd_write_loop_ok:
  assumes g: "gc_ready s" and b: "b < tt s" and room: "Suc b - a < room s"
  shows "returns (foldM (ssd_write_one t) [a..<Suc b] (s, m)) (\<lambda>(s', m'). gc_ready s' \<and>
    room s' + (Suc b - a) = room s \<and> mapset s' = mapset s \<union> {a..b} \<and>
    ssd_sp s' = ssd_sp s \<and> ssd_klog s' = ssd_klog s)"
proof (cases "a \<le> b")
  case False
  then show ?thesis using g by simp
next
  case True
  let ?I = "\<lambda>i (s', m' :: u64). gc_ready s' \<and> room s' + (i - a) = room s \<and> mapset s' = mapset s \<union> {a..<i} \<and>
    ssd_sp s' = ssd_sp s \<and> ssd_klog s' = ssd_klog s"
  have "returns (foldM (ssd_write_one t) [a..<Suc b] (s, m)) (?I (Suc b))"
  proof (rule returns_foldM_upt [where I = ?I])
    fix i u assume i: "a \<le> i" "i < Suc b" and u: "?I i u"
    obtain s1 m1 where u': "u = (s1, m1)" by (cases u)
    have s1: "gc_ready s1" "room s1 + (i - a) = room s" "mapset s1 = mapset s \<union> {a..<i}" "ssd_sp s1 = ssd_sp s"
      "ssd_klog s1 = ssd_klog s"
      using u by (auto simp: u')
    have "i < tt s1" using i b tt_cong [OF s1(4)] by simp
    moreover have "1 < room s1" using s1(2) room i by linarith
    ultimately have "returns (ssd_write_one t i (s1, m1)) (\<lambda>(s', m'). gc_ready s' \<and> room s' + 1 = room s1 \<and>
      mapset s' = insert i (mapset s1) \<and> ssd_sp s' = ssd_sp s1 \<and> ssd_klog s' = ssd_klog s1 \<and>
      (\<exists>p. ssd_maptbl s' = (ssd_maptbl s1)[i := p]))"
      by (rule ssd_write_one_ok [OF s1(1)])
    then show "returns (ssd_write_one t i u) (?I (Suc i))"
      unfolding u' by (rule returns_mono) (use s1 i in auto)
  qed (use g True in auto)
  then show ?thesis by (rule returns_mono) (auto simp: atLeastLessThanSuc_atLeastAtMost)
qed

lemma ssd_write_run:
  assumes rd: "write_ready s" and lp: "cmd_lpns s cmd = Some (a, b)" and b: "unat b < tt s"
    and few: "int (card (mapset s)) < (int (nB s) - 1 - gc_thres_lines_high (ssd_sp s)) * int (P_ln s)"
    and n: "int (Suc (unat b) - unat a) \<le> gc_thres_lines_high (ssd_sp s) * int (P_ln s)"
  shows "returns (ssd_write cmd t s) (\<lambda>(lat, s'). write_ready s' \<and>
    mapset s' = mapset s \<union> {unat a..unat b} \<and> ssd_sp s' = ssd_sp s \<and> ssd_klog s' = ssd_klog s)"
proof -
  have g: "gc_ready s" and r: "P_ln s \<le> room s" using rd by (auto simp: write_ready_def)
  then have geo: "geo_ok s" by (auto simp: gc_ready_def lines_inv_def)
  note T = tt_int [OF geo]
  have rng: "\<not> u64_of_int (tt_pgs (ssd_sp s)) \<le> b"
    using b T(4) by (simp add: T(1) u64_of_int_nat word_le_nat_alt word_nat_less not_le)
  from gc_high_loop_ok [OF g r] obtain s1 where s1: "gc_high_loop s = Some s1" "gc_ready s1" "gc_same s s1"
      "room s \<le> room s1" "should_gc_high s1 \<longrightarrow> victims s1 = {}"
    by (auto elim!: returnsE)
  have sp: "ssd_sp s1 = ssd_sp s" and ms: "mapset s1 = mapset s" using s1(3) by (auto simp: gc_same_def)
  note c = P_ln_cong [OF sp] dims_eq(3) [OF sp] tt_cong [OF sp]
  obtain cur where inv: "lines_inv s1 {} cur 0" using s1(2) by (auto simp: gc_ready_def)
  have fc: "free_line_cnt (ssd_lm s1) = int (length (freeL s1))"
    using lines_invD(3) [OF inv] by (simp add: lists_ok_def)
  have P: "0 < P_ln s" by (rule P_ln_bound(2) [OF geo])
  have free: "gc_thres_lines_high (ssd_sp s) < int (length (freeL s1))"
  proof (cases "should_gc_high s1")
    case False
    then show ?thesis by (simp add: should_gc_high_def fc sp)
  next
    case True
    then have tot: "length (freeL s1) + length (fullL s1) + 1 = nB s" using lines_total [OF inv] s1(5) c by simp
    have "int (length (fullL s1)) * int (P_ln s) \<le> int (card (mapset s))"
      using full_lines_mapped [OF s1(2)] ms c(1) by (metis of_nat_le_iff of_nat_mult)
    then have "int (length (fullL s1)) * int (P_ln s) < (int (nB s) - 1 - gc_thres_lines_high (ssd_sp s)) * int (P_ln s)"
      using few by linarith
    then have "int (length (fullL s1)) < int (nB s) - 1 - gc_thres_lines_high (ssd_sp s)"
      using P by (simp add: mult_less_cancel_right)
    then show ?thesis using tot by linarith
  qed
  have "(gc_thres_lines_high (ssd_sp s) + 1) * int (P_ln s) \<le> int (length (freeL s1)) * int (P_ln s)"
    using free by (intro mult_right_mono) auto
  then have "int (Suc (unat b) - unat a + P_ln s) \<le> int (length (freeL s1) * P_ln s)"
    using n unfolding of_nat_add of_nat_mult distrib_right by linarith
  then have "Suc (unat b) - unat a + P_ln s \<le> length (freeL s1) * P_ln s" by (simp only: of_nat_le_iff)
  moreover have "wp_n s1 < P_ln s" using wp_n_less [OF lines_invD(7) [OF inv]] c by simp
  ultimately have r1: "Suc (unat b) - unat a + P_ln s < room s1" unfolding room_def c by linarith
  have "returns (foldM (ssd_write_one t) [unat a..<Suc (unat b)] (s1, 0)) (\<lambda>(s', m'). gc_ready s' \<and>
    room s' + (Suc (unat b) - unat a) = room s1 \<and> mapset s' = mapset s1 \<union> {unat a..unat b} \<and>
    ssd_sp s' = ssd_sp s1 \<and> ssd_klog s' = ssd_klog s1)"
    by (rule ssd_write_loop_ok [OF s1(2)]) (use b r1 c in auto)
  then obtain s2 m2 where s2: "foldM (ssd_write_one t) [unat a..<Suc (unat b)] (s1, 0) = Some (s2, m2)"
    "gc_ready s2" "room s2 + (Suc (unat b) - unat a) = room s1" "mapset s2 = mapset s1 \<union> {unat a..unat b}"
    "ssd_sp s2 = ssd_sp s1" "ssd_klog s2 = ssd_klog s1"
    by (auto elim!: returnsE)
  have "P_ln s2 < room s2" using s2(3) r1 P_ln_cong [of s2 s] s2(5) sp by simp
  then show ?thesis
    using lp rng s1(1,3) s2 by (simp add: ssd_write_def write_ready_def ms gc_same_def del: upt_Suc)
qed

section \<open>Initialisation\<close>

lemma init_lines_fold:
  "fold (\<lambda>i lm. lm\<lparr>lm_lines := lm_lines lm @ [\<lparr>line_id = int i, line_ipc = 0, line_vpc = 0, line_pos = 0\<rparr>],
      free_line_list := free_line_list lm @ [i], free_line_cnt := free_line_cnt lm + 1\<rparr>) [0..<n] lm =
    lm\<lparr>lm_lines := lm_lines lm @ map (\<lambda>i. \<lparr>line_id = int i, line_ipc = 0, line_vpc = 0, line_pos = 0\<rparr>) [0..<n],
      free_line_list := free_line_list lm @ [0..<n], free_line_cnt := free_line_cnt lm + int n\<rparr>"
  by (induction n) simp_all

lemma ssd_init_layout_ok:
  assumes p: "params_ok (ssd_sp s)"
  shows "returns (ssd_init_layout s) (\<lambda>s'. gc_ready s' \<and> mapset s' = {} \<and> room s' = nB s * P_ln s \<and>
    ssd_sp s' = ssd_sp s \<and> ssd_klog s' = ssd_klog s)"
proof -
  let ?sp = "ssd_sp s"
  have dims: "nB s > 0" "int (nB s) = blks_per_pl ?sp" "blks_per_pl ?sp = tt_lines ?sp" "nG s > 0"
    "tt_pgs ?sp = int (tt s)"
    using p by (auto simp: params_ok_def nB_def nG_def tt_def)
  then obtain n where n: "nB s = Suc n" by (cases "nB s") auto
  define ls where "ls = map (\<lambda>i. \<lparr>line_id = int i, line_ipc = 0, line_vpc = 0, line_pos = 0\<rparr>) [0..<nB s]"
  define q where "q = pqueue_init (nat (tt_lines ?sp)) victim_line_cmp_pri victim_line_get_pri
    victim_line_set_pri victim_line_get_pos victim_line_set_pos"
  define s' where "s' = s\<lparr>ssd_ch := replicate (nat (nchs ?sp)) (ssd_init_ch ?sp),
    ssd_maptbl := replicate (tt s) (ppa_of_bits UNMAPPED_PPA), ssd_rmap := replicate (tt s) INVALID_LPN,
    ssd_lm := \<lparr>lm_lines = ls, free_line_list = [1..<nB s], victim_line_pq = q, full_line_list = [],
      lm_tt_lines = blks_per_pl ?sp, free_line_cnt = int n, victim_line_cnt = 0, full_line_cnt = 0\<rparr>,
    ssd_wp := \<lparr>wp_curline = Some 0, wp_ch = 0, wp_lun = 0, wp_pg = 0, wp_blk = 0, wp_pl = 0\<rparr>\<rparr>"
  have sp: "ssd_sp s' = ?sp" by (simp add: s'_def)
  note c = dims_eq [OF sp] P_ln_cong [OF sp] tt_cong [OF sp] pg_idx_cong [OF sp]
  have B: "blks_per_pl ?sp = int (Suc n)" "tt_lines ?sp = int (Suc n)" using dims n by simp_all
  have upt: "[0..<Suc n] = 0 # [1..<Suc n]" by (simp add: upt_conv_Cons One_nat_def del: upt_Suc)
  have run: "ssd_init_layout s = Some s'"
    by (simp add: ssd_init_layout_def ssd_init_lines_def ssd_init_rmap_def ssd_init_maptbl_def Let_def
        init_lines_fold ssd_init_write_pointer_def s'_def ls_def q_def B n dims(5) upt del: upt_Suc of_nat_Suc)
  have blk: "blk_at s' c l b = ssd_init_nand_blk ?sp" if "in_blk s c l b" for c l b
    using that p by (auto simp: blk_at_def lun_at_def s'_def in_blk_def in_lun_def nC_def nL_def nB_def
        ssd_init_ch_def ssd_init_nand_lun_def ssd_init_nand_plane_def params_ok_def)
  have fr: "pst s' c l b g = PG_FREE" if "in_pg s c l b g" for c l b g
    using that blk [of c l b] by (auto simp: pst_def in_pg_def nG_def ssd_init_nand_blk_def ssd_init_nand_page_def)
  have geo: "geo_ok s'"
    using p by (auto simp: geo_ok_def s'_def ssd_init_ch_def ssd_init_nand_lun_def ssd_init_nand_plane_def
        lun_shape_def blk_shape_def ssd_init_nand_blk_def ssd_init_nand_page_def)
  have bz: "bcnt s' c l b z = 0" if "in_blk s c l b" "z \<noteq> PG_FREE" for c l b z
    using that fr [of c l b] by (auto simp: bcnt_def in_pg_def c)
  have bo: "blks_ok s'"
    by (auto simp: blks_ok_def c blk bz) (simp_all add: ssd_init_nand_blk_def)
  have cz: "cnt s' b PG_FREE = P_ln s" if "b < nB s" for b
    using that fr by (simp add: cnt_all c in_pg_idx flip: P_ln_cong [OF sp])
  have cz0: "cnt s' b PG_VALID = 0 \<and> cnt s' b PG_INVALID = 0" if "b < nB s" for b
    using cnt_total [of s' b] cz [OF that] c by simp
  have q: "vq.pq_ok q ls'" "pq_elems q = {}" "pq_avail q = nB s + 1" for ls'
    by (auto simp: q_def pqueue_init_def vq.cb_def pq_shape_def pq_elems_def B n intro!: vq.pq_ok_empty)
  have L: "lns s' = ls" "freeL s' = [1..<nB s]" "vicQ s' = q" "fullL s' = []"
    "free_line_cnt (ssd_lm s') = int n" "victim_line_cnt (ssd_lm s') = 0" "full_line_cnt (ssd_lm s') = 0"
    by (simp_all add: s'_def)
  have ls: "length ls = nB s" "b < nB s \<Longrightarrow> ls ! b = \<lparr>line_id = int b, line_ipc = 0, line_vpc = 0, line_pos = 0\<rparr>" for b
    by (simp_all add: ls_def)
  have "{1..<nB s} \<union> {0} = {..<nB s}" using dims(1) by (auto simp: One_nat_def)
  then have lists: "lists_ok s' {0}"
    unfolding lists_ok_def L c by (simp add: q ls n del: upt_Suc)
  have "counts_ok s' {}" using cz0 by (simp add: counts_ok_def L c ls)
  moreover have "content_ok s'" using cz by (auto simp: content_ok_def L c q)
  moreover have "wp_ok s' 0" using geo dims_bound [OF geo] by (simp add: wp_ok_def c s'_def)
  moreover have wn: "wp_n s' = 0" by (simp add: wp_n_def pord_def s'_def)
  moreover have "fill s' 0 0" using cz [of 0] dims(1) c by (intro fill_none) simp
  ultimately have "lines_inv s' {} 0 0" using geo bo lists by (simp add: lines_inv_def)
  moreover have nm: "\<not> mapped_ppa (ppa_of_bits UNMAPPED_PPA)" by (simp add: mapped_ppa_def ppa_bits_of_bits)
  have tabs: "ssd_maptbl s' = replicate (tt s) (ppa_of_bits UNMAPPED_PPA)" "length (ssd_rmap s') = tt s"
    by (simp_all add: s'_def)
  have "map_ok s' {} {}"
    by (rule map_okI) (use nm fr in \<open>auto simp: c tabs\<close>)
  moreover have "mapset s' = {}" using nm by (auto simp: mapset_def c tabs)
  moreover have "room s' = nB s * P_ln s" using wn by (simp add: room_def c L n)
  ultimately show ?thesis using run by (auto simp: gc_ready_def s'_def)
qed

section \<open>Reading\<close>

lemma ssd_read_one_ok:
  assumes g: "gc_ready s" and lpn: "lpn < tt s"
  shows "returns (ssd_read_one t lpn (s, m)) (\<lambda>(s', m'). tick s s' \<and> m \<le> m')"
proof -
  obtain cur where inv: "lines_inv s {} cur 0" and ok: "map_ok s {} {}" using g by (auto simp: gc_ready_def)
  have geo: "geo_ok s" by (rule lines_invD(1) [OF inv])
  note get = get_maptbl_ent_ok [OF geo map_ok_len(1) [OF ok] lpn]
  show ?thesis
  proof (cases "mapped_ppa (ssd_maptbl s ! lpn)")
    case False
    then show ?thesis by (simp add: ssd_read_one_def get)
  next
    case True
    obtain c l b g where x: "ssd_maptbl s ! lpn = mk_ppa c l b g" "in_pg s c l b g"
      by (rule map_okE [OF ok lpn _ True]) auto
    have il: "in_lun s c l" and al: "at_lun (mk_ppa c l b g) c l"
      using x(2) mk_ppa_at_pg [OF geo x(2)] by (auto simp: in_pg_def in_blk_def at_pg_def at_blk_def)
    have "returns (ssd_advance_status s (mk_ppa c l b g)
        \<lparr>nc_type = USER_IO, nc_cmd = NAND_READ, nc_stime = t\<rparr>) (\<lambda>(_, s'). tick s s')"
      by (rule ssd_advance_status_ok [OF geo il al]) simp
    then show ?thesis
      using x valid_mk_ppa [OF geo x(2)] by (auto simp: ssd_read_one_def get elim!: returnsE)
  qed
qed

lemma tick_gc_ready: "tick s s' \<Longrightarrow> gc_ready s' = gc_ready s"
  by (simp add: gc_ready_def tick_lines_inv tick_map_ok)

lemma ssd_read_run:
  assumes g: "gc_ready s" and lp: "cmd_lpns s cmd = Some (a, b)" and b: "unat b < tt s"
  shows "returns (ssd_read cmd t s) (\<lambda>(_, s'). tick s s')"
proof -
  have geo: "geo_ok s" using g by (auto simp: gc_ready_def lines_inv_def)
  note T = tt_int [OF geo]
  have rng: "\<not> u64_of_int (tt_pgs (ssd_sp s)) \<le> b"
    using b T(4) by (simp add: T(1) u64_of_int_nat word_le_nat_alt word_nat_less not_le)
  have "returns (foldM (ssd_read_one t) [unat a..<Suc (unat b)] (s, 0)) (\<lambda>(s', _). tick s s')"
  proof (cases "unat a \<le> unat b")
    case True
    let ?I = "\<lambda>_ (s', _ :: u64). tick s s'"
    have "returns (foldM (ssd_read_one t) [unat a..<Suc (unat b)] (s, 0)) (?I (Suc (unat b)))"
    proof (rule returns_foldM_upt [where I = ?I])
      fix i u assume i: "i < Suc (unat b)" and u: "?I i u"
      obtain s1 m1 where u': "u = (s1, m1)" by (cases u)
      have tk: "tick s s1" using u by (simp add: u')
      have "gc_ready s1" "i < tt s1" using g tk i b tick_gc_ready [OF tk] by (auto simp: tick_def tt_def)
      then have "returns (ssd_read_one t i (s1, m1)) (\<lambda>(s', m'). tick s1 s' \<and> m1 \<le> m')"
        by (rule ssd_read_one_ok)
      then show "returns (ssd_read_one t i u) (?I (Suc i))"
        unfolding u' by (rule returns_mono) (use tk tick_trans in auto)
    qed (use True in auto)
    then show ?thesis .
  qed simp
  then show ?thesis using lp rng by (auto simp: ssd_read_def simp del: upt_Suc elim!: returnsE)
qed

text \<open>
  What a read costs, without the media: the time from which each chip is free, and the latency so far.
\<close>

definition charge :: "u64 \<Rightarrow> u64 \<Rightarrow> nat \<times> nat \<Rightarrow> (nat \<times> nat \<Rightarrow> u64) \<times> u64 \<Rightarrow> (nat \<times> nat \<Rightarrow> u64) \<times> u64" where
  "charge rd t x = (\<lambda>(T, m). let v = max (T x) t + rd in (T(x := v), max m (v - t)))"

definition avail :: "ssd \<Rightarrow> nat \<times> nat \<Rightarrow> u64" where
  "avail s = (\<lambda>(c, l). next_lun_avail_time (lun_at s c l))"

text \<open>The chips of the mapped pages among \<open>lpns\<close>, in their order.\<close>

definition read_chips :: "ssd \<Rightarrow> nat list \<Rightarrow> (nat \<times> nat) list" where
  "read_chips s lpns = map (\<lambda>i. (unat (g_ch (ssd_maptbl s ! i)), unat (g_lun (ssd_maptbl s ! i))))
     (filter (\<lambda>i. mapped_ppa (ssd_maptbl s ! i)) lpns)"

text \<open>The device with other times of its chips.\<close>

definition with_times :: "ssd \<Rightarrow> (nat \<times> nat \<Rightarrow> u64) \<Rightarrow> ssd" where
  "with_times s T = s\<lparr>ssd_ch := map (\<lambda>c. (ssd_ch s ! c)\<lparr>ch_lun := map (\<lambda>l. (lun_at s c l)\<lparr>next_lun_avail_time := T (c, l)\<rparr>)
     [0..<length (ch_lun (ssd_ch s ! c))]\<rparr>) [0..<length (ssd_ch s)]\<rparr>"

lemma with_times_fields [simp]:
  "ssd_sp (with_times s T) = ssd_sp s" "ssd_maptbl (with_times s T) = ssd_maptbl s"
  "length (ssd_ch (with_times s T)) = length (ssd_ch s)"
  by (simp_all add: with_times_def)

lemma with_times_self: "with_times s (avail s) = s"
proof -
  have "map (\<lambda>c. (ssd_ch s ! c)\<lparr>ch_lun := map (\<lambda>l. (lun_at s c l)\<lparr>next_lun_avail_time := avail s (c, l)\<rparr>)
     [0..<length (ch_lun (ssd_ch s ! c))]\<rparr>) [0..<length (ssd_ch s)] = ssd_ch s"
    by (rule nth_equalityI) (simp_all add: avail_def lun_at_def map_nth)
  then show ?thesis by (simp add: with_times_def)
qed

lemma lun_at_with_times:
  assumes "geo_ok s" and "in_lun s c l"
  shows "lun_at (with_times s T) c l = (lun_at s c l)\<lparr>next_lun_avail_time := T (c, l)\<rparr>"
  using geo_lens(1,2) [OF assms] by (simp add: with_times_def lun_at_def)

lemma put_lun_times:
  assumes "geo_ok s" and "in_lun s c l"
  shows "put_lun (with_times s T) c l ((lun_at (with_times s T) c l)\<lparr>next_lun_avail_time := v\<rparr>) = with_times s (T((c, l) := v))"
proof -
  note len = geo_lens(1,2) [OF assms]
  have "(ssd_ch (with_times s T))[c := (ssd_ch (with_times s T) ! c)\<lparr>ch_lun := (ch_lun (ssd_ch (with_times s T) ! c))
      [l := (lun_at s c l)\<lparr>next_lun_avail_time := v\<rparr>]\<rparr>] = ssd_ch (with_times s (T((c, l) := v)))"
  proof (rule nth_equalityI)
    fix i assume "i < length ((ssd_ch (with_times s T))[c := (ssd_ch (with_times s T) ! c)\<lparr>ch_lun :=
        (ch_lun (ssd_ch (with_times s T) ! c))[l := (lun_at s c l)\<lparr>next_lun_avail_time := v\<rparr>]\<rparr>])"
    then have i: "i < length (ssd_ch s)" by simp
    have "(map (\<lambda>j. (lun_at s c j)\<lparr>next_lun_avail_time := T (c, j)\<rparr>) [0..<length (ch_lun (ssd_ch s ! c))])
        [l := (lun_at s c l)\<lparr>next_lun_avail_time := v\<rparr>] =
      map (\<lambda>j. (lun_at s c j)\<lparr>next_lun_avail_time := (T((c, l) := v)) (c, j)\<rparr>) [0..<length (ch_lun (ssd_ch s ! c))]"
      by (rule nth_equalityI) (use len in \<open>auto simp: nth_list_update\<close>)
    then show "(ssd_ch (with_times s T))[c := (ssd_ch (with_times s T) ! c)\<lparr>ch_lun := (ch_lun (ssd_ch (with_times s T) ! c))
        [l := (lun_at s c l)\<lparr>next_lun_avail_time := v\<rparr>]\<rparr>] ! i = ssd_ch (with_times s (T((c, l) := v))) ! i"
      using i len by (cases "i = c") (simp_all add: with_times_def)
  qed simp
  then show ?thesis
    unfolding lun_at_with_times [OF assms] by (simp add: put_lun_def) (simp add: with_times_def)
qed

lemma tick_with_times:
  assumes "geo_ok s"
  shows "geo_ok (with_times s T)"
proof -
  have "ch_lun (ssd_ch s ! c) ! l \<in> set (ch_lun (ssd_ch s ! c))" if "l < length (ch_lun (ssd_ch s ! c))" for c l using that by simp
  then show ?thesis
    using assms unfolding geo_ok_def with_times_def
    by (auto simp: lun_at_def lun_shape_def all_set_conv_all_nth)
qed

lemma ssd_read_one_exact:
  assumes g: "gc_ready s" and lpn: "lpn < tt s" and t: "t \<noteq> 0"
  shows "ssd_read_one t lpn (with_times s T, m) =
    (let (T', m') = fold (charge (u64_of_int (pg_rd_lat (ssd_sp s))) t) (read_chips s [lpn]) (T, m) in Some (with_times s T', m'))"
proof -
  obtain cur where inv: "lines_inv s {} cur 0" and ok: "map_ok s {} {}" using g by (auto simp: gc_ready_def)
  have geo: "geo_ok s" by (rule lines_invD(1) [OF inv])
  let ?s = "with_times s T"
  have geo': "geo_ok ?s" by (rule tick_with_times [OF geo])
  have get: "get_maptbl_ent ?s (word_of_nat lpn) = Some (ssd_maptbl s ! lpn)"
    using get_maptbl_ent_ok [OF geo map_ok_len(1) [OF ok] lpn] by (simp add: get_maptbl_ent_def)
  show ?thesis
  proof (cases "mapped_ppa (ssd_maptbl s ! lpn)")
    case False
    then show ?thesis by (simp add: ssd_read_one_def get read_chips_def)
  next
    case True
    obtain c l b g where x: "ssd_maptbl s ! lpn = mk_ppa c l b g" "in_pg s c l b g"
      by (rule map_okE [OF ok lpn _ True]) auto
    have il: "in_lun s c l" and al: "at_lun (mk_ppa c l b g) c l"
      using x(2) mk_ppa_at_pg [OF geo x(2)] by (auto simp: in_pg_def in_blk_def at_pg_def at_blk_def)
    have il': "in_lun ?s c l" and ip': "in_pg ?s c l b g" using il x(2) dims_eq(5,7) [of ?s s] by simp_all
    let ?v = "max (T (c, l)) t + u64_of_int (pg_rd_lat (ssd_sp s))"
    have v: "nand_start (next_lun_avail_time (lun_at ?s c l)) t + u64_of_int (pg_rd_lat (ssd_sp s)) = ?v"
      by (auto simp: nand_start_def lun_at_with_times [OF geo il] max_def)
    have "ssd_advance_status ?s (mk_ppa c l b g) \<lparr>nc_type = USER_IO, nc_cmd = NAND_READ, nc_stime = t\<rparr> =
        Some (?v - t, with_times s (T((c, l) := ?v)))"
      using t by (simp add: ssd_advance_status_def Let_def get_lun_ok [OF geo' il' al] upd_lun_ok [OF geo' il' al] v
          put_lun_times [OF geo il])
    moreover have "valid_ppa ?s (mk_ppa c l b g)" by (rule valid_mk_ppa [OF geo' ip'])
    moreover have "unat (g_ch (mk_ppa c l b g)) = c" "unat (g_lun (mk_ppa c l b g)) = l" using al by (simp_all add: at_lun_def)
    ultimately show ?thesis
      using x(1) by (auto simp: ssd_read_one_def get read_chips_def charge_def Let_def max_def)
  qed
qed

lemma ssd_read_loop_exact:
  assumes g: "gc_ready s" and t: "t \<noteq> 0" and "\<forall>i\<in>set lpns. i < tt s"
  shows "foldM (ssd_read_one t) lpns (with_times s T, m) =
    (let (T', m') = fold (charge (u64_of_int (pg_rd_lat (ssd_sp s))) t) (read_chips s lpns) (T, m) in Some (with_times s T', m'))"
  using assms(3)
proof (induction lpns arbitrary: T m)
  case (Cons i lpns)
  obtain T1 m1 where 1: "fold (charge (u64_of_int (pg_rd_lat (ssd_sp s))) t) (read_chips s [i]) (T, m) = (T1, m1)" by fastforce
  have "read_chips s (i # lpns) = read_chips s [i] @ read_chips s lpns" by (simp add: read_chips_def)
  then show ?case using Cons ssd_read_one_exact [OF g _ t, of i T m] 1 by simp
qed (simp add: read_chips_def)

lemma ssd_read_exact:
  assumes g: "gc_ready s" and lp: "cmd_lpns s cmd = Some (a, b)" and b: "unat b < tt s" and t: "t \<noteq> 0"
  shows "ssd_read cmd t s = (let (T, lat) = fold (charge (u64_of_int (pg_rd_lat (ssd_sp s))) t)
      (read_chips s [unat a..<Suc (unat b)]) (avail s, 0) in Some (lat, with_times s T))"
proof -
  have geo: "geo_ok s" using g by (auto simp: gc_ready_def lines_inv_def)
  note T = tt_int [OF geo]
  have rng: "\<not> u64_of_int (tt_pgs (ssd_sp s)) \<le> b"
    using b T(4) by (simp add: T(1) u64_of_int_nat word_le_nat_alt word_nat_less not_le)
  have "\<forall>i\<in>set [unat a..<Suc (unat b)]. i < tt s" using b by auto
  from ssd_read_loop_exact [OF g t this, of "avail s" 0]
  show ?thesis using lp rng unfolding with_times_self by (simp add: ssd_read_def Let_def split: prod.splits del: upt_Suc)
qed

section \<open>A device filled to the last page\<close>

lemma pord_surj: "n < P_ln s \<Longrightarrow> \<exists>c l g. (c, l, g) \<in> pg_idx s \<and> pord s c l g = n"
proof -
  let ?f = "\<lambda>(c, l, g). pord s c l g"
  have inj: "inj_on ?f (pg_idx s)"
  proof (rule inj_onI)
    fix x y assume a: "x \<in> pg_idx s" "y \<in> pg_idx s" "?f x = ?f y"
    obtain c l g c' l' g' where xy: "x = (c, l, g)" "y = (c', l', g')" by (cases x; cases y) auto
    show "x = y" using a pord_inj [of s c l g c' l' g'] by (simp add: xy)
  qed
  have "?f ` pg_idx s = {..<P_ln s}"
  proof (rule card_subset_eq)
    show "?f ` pg_idx s \<subseteq> {..<P_ln s}" using pord_less by fastforce
  qed (simp_all add: card_image [OF inj] card_pg_idx)
  moreover assume "n < P_ln s"
  ultimately have "n \<in> ?f ` pg_idx s" by simp
  then show ?thesis by fastforce
qed

text \<open>All pages but one are valid.\<close>

lemma one_left:
  assumes inv: "lines_inv s {} cur 0" and ok: "map_ok s {} {}" and full: "card (mapset s) + 1 = tt s"
  obtains c l g where "in_pg s c l cur g" "pord s c l g = wp_n s"
    "\<And>c' l' b' g'. in_pg s c' l' b' g' \<Longrightarrow> (c', l', b', g') \<noteq> (c, l, cur, g) \<Longrightarrow> pst s c' l' b' g' = PG_VALID"
proof -
  note I = lines_invD [OF inv]
  obtain c l g where w: "in_pg s c l cur g" "wp_n s = pord s c l g" using wp_okE [OF I(7)] by metis
  have fr: "pst s c l cur g = PG_FREE" using I(8) w unfolding fill_def in_pg_idx by force
  let ?A = "{(c, l, b, g). in_pg s c l b g}"
  let ?V = "{(c, l, b, g). in_pg s c l b g \<and> pst s c l b g = PG_VALID}"
  have A: "?A = {..<nC s} \<times> {..<nL s} \<times> {..<nB s} \<times> {..<nG s}"
    by (auto simp: in_pg_def in_blk_def in_lun_def)
  have fin: "finite ?A" and cardA: "card ?A = tt s" unfolding A using tt_int(2) [OF I(1)] by (simp_all add: mult.assoc)
  have "(\<lambda>i. ssd_maptbl s ! i) ` mapset s \<subseteq> (\<lambda>(c, l, b, g). mk_ppa c l b g) ` ?V"
  proof
    fix p assume "p \<in> (\<lambda>i. ssd_maptbl s ! i) ` mapset s"
    then obtain i where i: "i < tt s" "mapped_ppa (ssd_maptbl s ! i)" "p = ssd_maptbl s ! i" by (auto simp: mapset_def)
    obtain c l b g where "ssd_maptbl s ! i = mk_ppa c l b g" "in_pg s c l b g" "pst s c l b g = PG_VALID"
      by (rule map_okE [OF ok i(1) _ i(2)]) auto
    then show "p \<in> (\<lambda>(c, l, b, g). mk_ppa c l b g) ` ?V" using i(3) by force
  qed
  moreover have "finite ?V" by (rule finite_subset [OF _ fin]) auto
  moreover have "inj_on (\<lambda>i. ssd_maptbl s ! i) (mapset s)"
    using map_ok_inj [OF ok I(1)] unfolding inj_on_def mapset_def by blast
  ultimately have le: "card (mapset s) \<le> card ?V"
  proof -
    assume sub: "(\<lambda>i. ssd_maptbl s ! i) ` mapset s \<subseteq> (\<lambda>(c, l, b, g). mk_ppa c l b g) ` ?V"
      and f: "finite ?V" and inj: "inj_on (\<lambda>i. ssd_maptbl s ! i) (mapset s)"
    have "card ((\<lambda>i. ssd_maptbl s ! i) ` mapset s) \<le> card ?V" by (rule surj_card_le [OF f sub])
    then show ?thesis using card_image [OF inj] by simp
  qed
  have sub: "?V \<subseteq> ?A - {(c, l, cur, g)}" using fr by auto
  have "card (?A - {(c, l, cur, g)}) + 1 = tt s"
  proof -
    have "(c, l, cur, g) \<in> ?A" using w(1) by simp
    then show ?thesis using card.remove [OF fin] cardA by (metis Suc_eq_plus1)
  qed
  then have "card (?A - {(c, l, cur, g)}) \<le> card ?V" using le full by linarith
  then have V: "?V = ?A - {(c, l, cur, g)}"
    by (rule card_seteq [OF finite_Diff [OF fin] sub])
  have "pst s c' l' b' g' = PG_VALID" if "in_pg s c' l' b' g'" "(c', l', b', g') \<noteq> (c, l, cur, g)" for c' l' b' g'
  proof -
    have "(c', l', b', g') \<in> ?V" unfolding V using that by blast
    then show ?thesis by simp
  qed
  then show ?thesis using that w by metis
qed

lemma wp_next_line_empty: "freeL s = [] \<Longrightarrow> wp_next_line s = None"
  by (simp add: wp_next_line_def Let_def get_next_free_line_def check_addr_def nvmev_assert_def)

lemma one_left_lists:
  assumes inv: "lines_inv s {} cur 0" and ok: "map_ok s {} {}" and full: "card (mapset s) + 1 = tt s"
  shows "freeL s = []" "victims s = {}" "wp_n s + 1 = P_ln s"
    "\<And>c l g. (c, l, g) \<in> pg_idx s \<Longrightarrow> pord s c l g \<noteq> wp_n s \<Longrightarrow> pst s c l cur g = PG_VALID"
proof -
  note I = lines_invD [OF inv]
  obtain c l g where w: "in_pg s c l cur g" "pord s c l g = wp_n s"
    and v: "\<And>c' l' b' g'. in_pg s c' l' b' g' \<Longrightarrow> (c', l', b', g') \<noteq> (c, l, cur, g) \<Longrightarrow> pst s c' l' b' g' = PG_VALID"
    using one_left [OF inv ok full] by blast
  have other: "cnt s b PG_VALID = P_ln s" if "b < nB s" "b \<noteq> cur" for b
    using v that by (simp add: cnt_all in_pg_idx)
  have out: "cur \<notin> set (freeL s) \<union> set (fullL s) \<union> victims s"
    and lt: "\<forall>b\<in>set (freeL s) \<union> victims s. b < nB s"
    using I(3) lists_ok_lt [OF I(3)] unfolding lists_ok_def by blast+
  have con: "\<forall>b\<in>set (freeL s). cnt s b PG_FREE = P_ln s" "\<forall>b\<in>victims s. 0 < cnt s b PG_INVALID"
    using I(6) by (auto simp: content_ok_def)
  have none: "False" if "b \<in> set (freeL s) \<union> victims s" for b
  proof -
    have "b < nB s" "b \<noteq> cur" using that lt out by blast+
    then have "cnt s b PG_VALID = P_ln s" by (rule other)
    then show False using that con cnt_total [of s b] P_ln_bound(2) [OF I(1)] by auto
  qed
  have "set (freeL s) \<union> victims s = {}" using none by (rule equals0I)
  then show "freeL s = []" "victims s = {}" by simp_all
  show cur: "pst s c' l' cur g' = PG_VALID" if "(c', l', g') \<in> pg_idx s" "pord s c' l' g' \<noteq> wp_n s" for c' l' g'
    using v [of c' l' cur g'] that w I(9) by (auto simp: in_pg_idx)
  show "wp_n s + 1 = P_ln s"
  proof (rule ccontr)
    assume "wp_n s + 1 \<noteq> P_ln s"
    then have "wp_n s + 1 < P_ln s" using wp_n_less [OF I(7)] by simp
    then obtain c' l' g' where x: "(c', l', g') \<in> pg_idx s" "pord s c' l' g' = wp_n s + 1" using pord_surj by blast
    then have "pst s c' l' cur g' = PG_FREE" using I(8) unfolding fill_def by force
    then show False using cur [OF x(1)] x(2) by simp
  qed
qed

lemma ssd_write_full_None:
  assumes g: "gc_ready s" and full: "card (mapset s) + 1 = tt s" and a: "a < tt s" "a \<notin> mapset s"
  shows "gc_high_loop s = Some s" "ssd_write_one t a (s, m) = None"
proof -
  obtain cur where inv: "lines_inv s {} cur 0" and ok: "map_ok s {} {}" using g by (auto simp: gc_ready_def)
  note I = lines_invD [OF inv] and len = map_ok_len [OF ok] and F = one_left_lists [OF inv ok full]
  show "gc_high_loop s = Some s"
    using do_gc_none [OF g F(2)] by (subst gc_high_loop.simps) simp
  have old: "ssd_write_old a s = Some s"
    using a get_maptbl_ent_ok [OF I(1) len(1) a(1)] by (simp add: ssd_write_old_def mapset_def)
  obtain c l g where np: "get_new_page s = (mk_ppa c l cur g, s)" and pg: "in_pg s c l cur g" and n: "pord s c l g = wp_n s"
    by (rule get_new_page_ok [OF I(7)])
  note at = mk_ppa_at_pg [OF I(1) pg]
  let ?p = "mk_ppa c l cur g"
  let ?s1 = "s\<lparr>ssd_maptbl := (ssd_maptbl s)[a := ?p]\<rparr>"
  let ?s2 = "?s1\<lparr>ssd_rmap := (ssd_rmap s)[pgidx s c l cur g := word_of_nat a]\<rparr>"
  have m1: "set_maptbl_ent s (word_of_nat a) ?p = Some ?s1" by (rule set_maptbl_ent_ok [OF I(1) len(1) a(1)])
  have m2: "set_rmap_ent ?s1 (word_of_nat a) ?p = Some ?s2"
    using set_rmap_ent_ok [of ?s1 c l cur g ?p "word_of_nat a"] I(1) len(2) pg at by simp
  have "lines_inv ?s2 {} cur 0" "in_pg ?s2 c l cur g" "pord ?s2 c l g = wp_n ?s2"
    using inv pg n by simp_all
  from mark_page_valid_ok [OF this(1,2) at this(3)] obtain s3 where
    s3: "mark_page_valid ?s2 ?p = Some s3" "lines_inv s3 {} cur 1" "keeps ?s2 s3"
    by (auto elim!: returnsE)
  note J = lines_invD [OF s3(2)]
  have sp: "ssd_sp s3 = ssd_sp s" and w3: "wp_n s3 = wp_n s" and f3: "freeL s3 = []"
    using s3(3) F(1) wp_cong(1) [of s3 s] by (auto simp: keeps_def)
  have P: "P_ln s3 = P_ln s" by (rule P_ln_cong [OF sp])
  have adv: "ssd_advance_write_pointer s3 = wp_retire_line (wp_set s3 cur 0 0 0) \<bind> wp_next_line"
    using advance_cases [OF J(1,7)] F(3) w3 P by auto
  have z: "cnt s3 cur PG_FREE = 0" using J(8) F(3) w3 P by (intro fill_all) simp
  have "returns (wp_retire_line (wp_set s3 cur 0 0 0)) (\<lambda>s'. lm_step (wp_set s3 cur 0 0 0) s' \<and>
    lists_ok s' {} \<and> counts_ok s' {} \<and> content_ok s' \<and> freeL s' = freeL (wp_set s3 cur 0 0 0))"
    by (rule wp_retire_line_ok) (use J z in \<open>simp_all add: wp_set_def\<close>)
  then obtain s4 where "wp_retire_line (wp_set s3 cur 0 0 0) = Some s4" "freeL s4 = []"
    using f3 by (auto elim!: returnsE simp: wp_set_def)
  then have "ssd_advance_write_pointer s3 = None" by (simp add: adv wp_next_line_empty)
  then show "ssd_write_one t a (s, m) = None"
    using np m1 m2 s3(1) old by (simp add: ssd_write_one_def ssd_write_new_def)
qed

section \<open>The parameters of \<^verbatim>\<open>ssd_init\<close>\<close>

lemma params_ok_init:
  assumes "0 < n" "n \<le> 128" shows "params_ok (ssd_init_params n)"
  using assms by (simp add: params_ok_def ssd_init_params_def Let_def)

lemma init_params_fields:
  "nchs (ssd_init_params n) = n" "luns_per_ch (ssd_init_params n) = 8" "blks_per_pl (ssd_init_params n) = 256"
  "pgs_per_blk (ssd_init_params n) = 256" "secs_per_pg (ssd_init_params n) = 8"
  "pba_pcent (ssd_init_params n) = 100" "gc_thres_lines_high (ssd_init_params n) = 12"
  "tt_pgs (ssd_init_params n) = 524288 * n" "pgs_per_line (ssd_init_params n) = 2048 * n"
  by (simp_all add: ssd_init_params_def Let_def c_trunc_def floor_eq_iff)

text \<open>Half a channel per gigabyte: \<^verbatim>\<open>nchs\<close> as \<^verbatim>\<open>ssd_init\<close> computes it.\<close>

definition init_nchs :: "u64 \<Rightarrow> int" where
  "init_nchs memmap_size = drop_bit 1 (int_of_u64 (drop_bit 30 memmap_size))"

lemma ssd_init_run:
  assumes "0 < init_nchs mm" "init_nchs mm \<le> 128"
  shows "returns (ssd_init cpu mm s) (\<lambda>(sz, s'). write_ready s' \<and> mapset s' = {} \<and>
    ssd_sp s' = ssd_init_params (init_nchs mm) \<and> ssd_klog s' = ssd_klog s \<and> sz = mm * 100 div 100)"
proof -
  let ?s = "s\<lparr>cpu_nr_dispatcher := cpu, ssd_sp := ssd_init_params (init_nchs mm)\<rparr>"
  have "params_ok (ssd_sp ?s)" using params_ok_init [OF assms] by simp
  from ssd_init_layout_ok [OF this] obtain s' where s': "ssd_init_layout ?s = Some s'" "gc_ready s'"
    "mapset s' = {}" "room s' = nB ?s * P_ln ?s" "ssd_sp s' = ssd_init_params (init_nchs mm)" "ssd_klog s' = ssd_klog s"
    by (auto elim!: returnsE)
  have "nB ?s = 256" by (simp add: nB_def init_params_fields)
  moreover have "P_ln s' = P_ln ?s" using P_ln_cong [of s' ?s] s'(5) by simp
  moreover have "0 < P_ln s'" using s'(2) P_ln_bound(2) by (auto simp: gc_ready_def lines_inv_def)
  ultimately have "P_ln s' < room s'" using s'(4) by simp
  then show ?thesis
    using s' unfolding ssd_init_def Let_def init_nchs_def [symmetric]
    by (simp add: write_ready_def init_params_fields u64_of_int_def)
qed

end
