(* ===== verification/Tiny.thy ===== *)
theory Tiny
  imports FTL_Safe
begin

text \<open>
  A small device for the witnesses: one chip with four blocks of two pages; only its geometry
  differs from what \<open>ssd_init_params\<close> computes.
\<close>

section \<open>A small device\<close>

definition tiny_sp :: ssdparams where
  "tiny_sp = (ssd_init_params 1)\<lparr>pgs_per_blk := 2, blks_per_pl := 4, luns_per_ch := 1,
     pgs_per_pl := 8, pgs_per_lun := 8, pgs_per_ch := 8, tt_pgs := 8, pgs_per_line := 2, tt_lines := 4,
     gc_thres_lines_high := 1\<rparr>"

text \<open>A device before \<^verbatim>\<open>ssd_init\<close>: zeroed memory, and a clock that counts its calls.\<close>

definition blank :: "ssdparams \<Rightarrow> ssd" where
  "blank sp = \<lparr>ssd_sp = sp, ssd_ch = [], ssd_maptbl = [], ssd_rmap = [],
     ssd_wp = \<lparr>wp_curline = None, wp_ch = 0, wp_lun = 0, wp_pg = 0, wp_blk = 0, wp_pl = 0\<rparr>,
     ssd_lm = \<lparr>lm_lines = [], free_line_list = [], victim_line_pq = pqueue_init 0 victim_line_cmp_pri
         victim_line_get_pri victim_line_set_pri victim_line_get_pos victim_line_set_pos,
       full_line_list = [], lm_tt_lines = 0, free_line_cnt = 0, victim_line_cnt = 0, full_line_cnt = 0\<rparr>,
     cpu_nr_dispatcher = 0, ssd_ioclock = (\<lambda>n. word_of_nat n), ssd_nclock = 0, ssd_stack_ppa = ppa_of_bits 0,
     ssd_klog = []\<rparr>"

definition io_cmd :: "u8 \<Rightarrow> u32 \<Rightarrow> u32 \<Rightarrow> nvme_command" where
  "io_cmd op lba len = \<lparr>opcode = op, cmd_flags = 0, command_id = 0, nsid = 1, cdw2 = 0, cdw3 = 0, metadata = 0,
     prp1 = 0, prp2 = 0, cdw10 = lba, cdw11 = 0, cdw12 = len, cdw13 = 0, cdw14 = 0, cdw15 = 0\<rparr>"

lemma tiny_layout:
  "returns (ssd_init_layout (blank tiny_sp)) (\<lambda>s. write_ready s \<and> mapset s = {} \<and> room s = 8 \<and>
     ssd_sp s = tiny_sp \<and> ssd_klog s = [])"
proof -
  have "params_ok (ssd_sp (blank tiny_sp))"
    by (simp add: blank_def tiny_sp_def params_ok_def ssd_init_params_def Let_def)
  from ssd_init_layout_ok [OF this] obtain s where s: "ssd_init_layout (blank tiny_sp) = Some s" "gc_ready s"
    "mapset s = {}" "room s = nB (blank tiny_sp) * P_ln (blank tiny_sp)" "ssd_sp s = tiny_sp" "ssd_klog s = []"
    by (auto elim!: returnsE simp: blank_def)
  have "nB (blank tiny_sp) * P_ln (blank tiny_sp) = 8"
    by (simp add: blank_def tiny_sp_def nB_def P_ln_def nC_def nL_def nG_def ssd_init_params_def Let_def)
  moreover have "P_ln s = 2" using s(5)
    by (simp add: tiny_sp_def P_ln_def nC_def nL_def nG_def ssd_init_params_def Let_def)
  ultimately show ?thesis using s by (simp add: write_ready_def)
qed

lemma tiny_dims:
  assumes "ssd_sp s = tiny_sp"
  shows "P_ln s = 2" "nB s = 4" "tt s = 8" "gc_thres_lines_high (ssd_sp s) = 1"
    "secs_per_pg (ssd_sp s) = 8" "tt_pgs (ssd_sp s) = 8"
  using assms by (simp_all add: tiny_sp_def P_ln_def nB_def tt_def nC_def nL_def nG_def ssd_init_params_def Let_def)

lemma tiny_secs: "secs_per_pg tiny_sp = 8"
  by (simp add: tiny_sp_def ssd_init_params_def Let_def)

lemma tiny_lpns: "ssd_sp s = tiny_sp \<Longrightarrow> cmd_lpns s (io_cmd op 0 15) = Some (0, 1)"
  "ssd_sp s = tiny_sp \<Longrightarrow> cmd_lpns s (io_cmd op 56 7) = Some (7, 7)"
  "ssd_sp s = tiny_sp \<Longrightarrow> cmd_lpns s (io_cmd op 64 7) = Some (8, 8)"
  by (simp_all add: cmd_lpns_def tiny_secs io_cmd_def rw_slba_def rw_length_def lo16_def Let_def u64_of_int_def)

text \<open>A device whose first line has been overwritten in part, so that it is a victim.\<close>

definition tiny_run :: "ssd option" where
  "tiny_run = do { s \<leftarrow> ssd_init_layout (blank tiny_sp);
     foldM (\<lambda>lpn s. do { (s, _) \<leftarrow> ssd_write_one 1 lpn (s, 0); Some s }) [0, 1, 0] s }"

lemma tiny_run_eval:
  "returns tiny_run (\<lambda>s. pq_size (vicQ s) = 2 \<and> pq_nth (vicQ s) 1 = 0)"
  by code_simp

lemma tiny_run_ok:
  "returns tiny_run (\<lambda>s. gc_ready s \<and> mapset s = {0, 1} \<and> ssd_sp s = tiny_sp \<and> P_ln s \<le> room s \<and>
     victims s = {0} \<and> ssd_klog s = [])"
proof -
  obtain s where s: "ssd_init_layout (blank tiny_sp) = Some s" "write_ready s" "mapset s = {}" "room s = 8"
    "ssd_sp s = tiny_sp" "ssd_klog s = []"
    using tiny_layout by (auto elim!: returnsE)
  have step: "returns (ssd_write_one 1 lpn (t, 0)) (\<lambda>(t', m'). gc_ready t' \<and> room t' + 1 = room t \<and>
      mapset t' = insert lpn (mapset t) \<and> ssd_sp t' = tiny_sp \<and> ssd_klog t' = ssd_klog t)"
    if "gc_ready t" "ssd_sp t = tiny_sp" "lpn < 8" "1 < room t" for t lpn
    using ssd_write_one_ok [OF that(1) _ that(4), of lpn 1 0] that(2,3) tiny_dims(3) [OF that(2)]
    by (auto elim!: returns_mono)
  have "returns tiny_run (\<lambda>s. gc_ready s \<and> room s = 5 \<and> mapset s = {0, 1} \<and> ssd_sp s = tiny_sp \<and> ssd_klog s = [])"
  proof -
    obtain s1 m1 where s1: "ssd_write_one 1 0 (s, 0) = Some (s1, m1)" "gc_ready s1" "room s1 = 7" "mapset s1 = {0}"
      "ssd_sp s1 = tiny_sp" "ssd_klog s1 = []"
      using step [of s 0] s by (auto elim!: returnsE simp: write_ready_def)
    obtain s2 m2 where s2: "ssd_write_one 1 1 (s1, 0) = Some (s2, m2)" "gc_ready s2" "room s2 = 6"
      "mapset s2 = {0, 1}" "ssd_sp s2 = tiny_sp" "ssd_klog s2 = []"
      using step [of s1 1] s1 by (auto elim!: returnsE)
    obtain s3 m3 where s3: "ssd_write_one 1 0 (s2, 0) = Some (s3, m3)" "gc_ready s3" "room s3 = 5"
      "mapset s3 = {0, 1}" "ssd_sp s3 = tiny_sp" "ssd_klog s3 = []"
      using step [of s2 0] s2 by (auto elim!: returnsE)
    show ?thesis using s(1) s1(1) s2(1) s3 by (simp add: tiny_run_def)
  qed
  from returns_conj [OF this tiny_run_eval] have "returns tiny_run (\<lambda>s. (gc_ready s \<and> room s = 5 \<and> mapset s = {0, 1} \<and> ssd_sp s = tiny_sp \<and>
      ssd_klog s = []) \<and> pq_size (vicQ s) = 2 \<and> pq_nth (vicQ s) 1 = 0)" .
  moreover have "{1..<2} = {1::nat}" by (auto simp: One_nat_def)
  ultimately show ?thesis by (elim returns_mono) (simp add: pq_elems_def tiny_dims(1))
qed

end
