(* ===== verification/FTL_Host.thy ===== *)
theory FTL_Host
  imports FTL_Safe
begin

text \<open>
  The commands that a host sends to an initialised device, one after the other, and what each of
  them does to the invariant of the translation layer.
\<close>

text \<open>A host: commands with their start times, one after the other.\<close>

datatype host_cmd = HostRead nvme_command u64 | HostWrite nvme_command u64

fun host_step :: "host_cmd \<Rightarrow> ssd \<Rightarrow> ssd option" where
  "host_step (HostRead cmd t) s = map_option snd (ssd_read cmd t s)"
| "host_step (HostWrite cmd t) s = map_option snd (ssd_write cmd t s)"

fun host_nvme :: "host_cmd \<Rightarrow> nvme_command" where
  "host_nvme (HostRead cmd t) = cmd"
| "host_nvme (HostWrite cmd t) = cmd"

definition last_lpn :: "nvme_command \<Rightarrow> nat" where
  "last_lpn cmd = unat ((rw_slba cmd + u64_of_int (uint (rw_length cmd) + 1) - 1) div 8)"

lemma page_span:
  assumes k: "k < 2 ^ 16"
  shows "unat ((x + k) div 8 :: u64) \<le> unat (x div 8) + 8192"
proof -
  have "unat (x + k) \<le> unat x + unat k" by (simp add: unat_plus_if')
  moreover have "unat k < 65536" using k by (simp add: word_less_nat_alt)
  ultimately have "unat (x + k) div 8 \<le> (unat x + 65535) div 8" by (intro div_le_mono) simp
  also have "\<dots> \<le> unat x div 8 + 8192" by presburger
  finally show ?thesis by (simp add: unat_div)
qed

lemma uint16_bounds: "0 \<le> uint (w :: u16)" "uint w < 65536"
  using unsigned_less [of w, where 'a=int] by auto

lemma len16: "u64_of_int (uint (w :: u16) + 1) - 1 < 2 ^ 16"
proof -
  have "u64_of_int (uint w + 1) - 1 = u64_of_int (uint w)" by (simp add: u64_of_int_def)
  moreover have "uint (u64_of_int (uint w)) = uint w" using uint16_bounds [of w] by (intro uint_u64_of_int) auto
  ultimately show ?thesis using uint16_bounds(2) [of w] by (simp add: word_less_def)
qed

lemma host_lpns:
  assumes "secs_per_pg (ssd_sp s) = 8"
  shows "\<exists>a b. cmd_lpns s cmd = Some (a, b) \<and> unat b = last_lpn cmd \<and> Suc (unat b) - unat a \<le> 8193"
proof -
  let ?k = "u64_of_int (uint (rw_length cmd) + 1) - 1"
  have e: "rw_slba cmd + u64_of_int (uint (rw_length cmd) + 1) - 1 = rw_slba cmd + ?k" by simp
  have "unat ((rw_slba cmd + ?k) div 8) \<le> unat (rw_slba cmd div 8) + 8192" by (rule page_span [OF len16])
  then show ?thesis
    using assms by (simp add: cmd_lpns_def Let_def last_lpn_def e u64_of_int_def)
qed

lemma host_step_ok:
  assumes rd: "write_ready s" and sp: "ssd_sp s = ssd_init_params n" and n: "0 < n" "n \<le> 128"
    and ms: "mapset s \<subseteq> {..<K}" and K: "int K < 243 * 2048 * n" and c: "last_lpn (host_nvme c) < K"
  shows "returns (host_step c s) (\<lambda>s'. write_ready s' \<and> ssd_sp s' = ssd_sp s \<and> mapset s' \<subseteq> {..<K} \<and>
    ssd_klog s' = ssd_klog s)"
proof -
  have g: "gc_ready s" using rd by (simp add: write_ready_def)
  have P: "int (P_ln s) = 2048 * n" and B: "nB s = 256" and T: "int (tt s) = 524288 * n" "secs_per_pg (ssd_sp s) = 8"
    using n by (simp_all add: P_ln_def nC_def nL_def nG_def nB_def tt_def sp init_params_fields)
  from host_lpns [OF T(2), of "host_nvme c"] obtain a b where
    ab: "cmd_lpns s (host_nvme c) = Some (a, b)" "unat b = last_lpn (host_nvme c)" "Suc (unat b) - unat a \<le> 8193"
    by blast
  have "int (unat b) < int (tt s)" using ab(2) c K T(1) n by simp
  then have b: "unat b < tt s" by (simp only: of_nat_less_iff)
  show ?thesis
  proof (cases c)
    case (HostRead cmd t)
    then have "returns (ssd_read cmd t s) (\<lambda>(_, s'). tick s s')" using ssd_read_run [OF g _ b] ab(1) by simp
    then obtain m s' where s': "ssd_read cmd t s = Some (m, s')" "tick s s'" by (auto elim!: returnsE)
    have "write_ready s'"
      using rd tick_gc_ready [OF s'(2)] tick_room [OF s'(2)] P_ln_cong [of s' s] s'(2)
      by (simp add: write_ready_def tick_def)
    then show ?thesis using HostRead s' ms tick_gc_same [OF s'(2)] by (simp add: gc_same_def)
  next
    case (HostWrite cmd t)
    have "card (mapset s) \<le> K" using card_mono [OF _ ms] by simp
    then have few: "int (card (mapset s)) < (int (nB s) - 1 - gc_thres_lines_high (ssd_sp s)) * int (P_ln s)"
      using K by (simp add: B P sp init_params_fields)
    have "int (Suc (unat b) - unat a) \<le> 8193" using ab(3) by simp
    also have "8193 \<le> gc_thres_lines_high (ssd_sp s) * int (P_ln s)"
      using n by (simp add: P sp init_params_fields)
    finally have "returns (ssd_write cmd t s) (\<lambda>(lat, s'). write_ready s' \<and>
        mapset s' = mapset s \<union> {unat a..unat b} \<and> ssd_sp s' = ssd_sp s \<and> ssd_klog s' = ssd_klog s)"
      using HostWrite ab(1) by (intro ssd_write_run [OF rd _ b few]) simp_all
    then obtain m s' where "ssd_write cmd t s = Some (m, s')" "write_ready s'" "mapset s' = mapset s \<union> {unat a..unat b}"
      "ssd_sp s' = ssd_sp s" "ssd_klog s' = ssd_klog s"
      by (auto elim!: returnsE)
    moreover have "{unat a..unat b} \<subseteq> {..<K}" using ab(2) c by auto
    ultimately show ?thesis using HostWrite ms by simp
  qed
qed

end
