(* ===== verification/FTL_Props.thy ===== *)
theory FTL_Props
  imports Tiny FTL_Host
begin

text \<open>
  The properties of the translation layer, each with a witness on the small device of \<open>Tiny\<close>.
\<close>

section \<open>Writes\<close>

text \<open>C2. A host write returns, no assertion of the code fails, nothing is logged, the
  invariant of the device and room for the next write are kept, and exactly the logical
  pages of the command become mapped on top of those already mapped. This holds while the
  mapped pages leave free as many lines as the foreground collection wants to keep, and
  for any command of at most that many lines.\<close>

theorem ssd_write_correct:
  assumes "write_ready s" and "cmd_lpns s cmd = Some (a, b)" and "unat b < tt s"
    and "int (card (mapset s)) < (int (nB s) - 1 - gc_thres_lines_high (ssd_sp s)) * int (P_ln s)"
    and "int (Suc (unat b) - unat a) \<le> gc_thres_lines_high (ssd_sp s) * int (P_ln s)"
  shows "returns (ssd_write cmd t s) (\<lambda>(lat, s'). write_ready s' \<and>
    mapset s' = mapset s \<union> {unat a..unat b} \<and> ssd_sp s' = ssd_sp s \<and> ssd_klog s' = ssd_klog s)"
  by (rule ssd_write_run [OF assms])

theorem ssd_write_correct_witness:
  "returns (ssd_init_layout (blank tiny_sp) \<bind> ssd_write (io_cmd 1 0 15) 1)
    (\<lambda>(lat, s'). write_ready s' \<and> mapset s' = {0, 1} \<and> ssd_klog s' = [])"
proof -
  obtain s where s: "ssd_init_layout (blank tiny_sp) = Some s" "write_ready s" "mapset s = {}"
    "ssd_sp s = tiny_sp" "ssd_klog s = []"
    using tiny_layout by (auto elim!: returnsE)
  have "returns (ssd_write (io_cmd 1 0 15) 1 s) (\<lambda>(lat, s'). write_ready s' \<and>
    mapset s' = mapset s \<union> {unat (0 :: u64)..unat (1 :: u64)} \<and> ssd_sp s' = ssd_sp s \<and> ssd_klog s' = ssd_klog s)"
    by (rule ssd_write_correct [OF s(2) tiny_lpns(1) [OF s(4)]]) (simp_all add: tiny_dims [OF s(4)] s(3))
  then show ?thesis using s(1,3,5) by (auto elim!: returns_mono)
qed

text \<open>One round of the write loop: the logical page is mapped to a valid physical page whose
  reverse map entry names it, the entry of no other logical page changes, one page of room
  is used.\<close>

theorem ssd_write_one_correct:
  assumes "gc_ready s" and "lpn < tt s" and "1 < room s"
  shows "returns (ssd_write_one t lpn (s, m)) (\<lambda>(s', m').
    (\<exists>c l b g. ssd_maptbl s' = (ssd_maptbl s)[lpn := mk_ppa c l b g] \<and> in_pg s' c l b g \<and>
       pst s' c l b g = PG_VALID \<and> ssd_rmap s' ! pgidx s' c l b g = word_of_nat lpn) \<and>
    gc_ready s' \<and> room s' + 1 = room s \<and> ssd_klog s' = ssd_klog s)"
proof (rule returns_mono [OF ssd_write_one_ok [OF assms]], clarify)
  fix s' m' p assume g: "gc_ready s'" and r: "room s' + 1 = room s" and ms: "mapset s' = insert lpn (mapset s)"
    and sp: "ssd_sp s' = ssd_sp s" and k: "ssd_klog s' = ssd_klog s" and mt: "ssd_maptbl s' = (ssd_maptbl s)[lpn := p]"
  have ok: "map_ok s' {} {}" and len: "length (ssd_maptbl s) = tt s"
    using g assms(1) by (auto simp: gc_ready_def map_ok_def)
  have "lpn < tt s'" "mapped_ppa (ssd_maptbl s' ! lpn)" using ms by (auto simp: mapset_def)
  then obtain c l b g where x: "ssd_maptbl s' ! lpn = mk_ppa c l b g" "in_pg s' c l b g" "pst s' c l b g = PG_VALID"
    "ssd_rmap s' ! pgidx s' c l b g = word_of_nat lpn"
    by (elim map_okE [OF ok]) auto
  have "p = mk_ppa c l b g" using x(1) mt len assms(2) by simp
  then show "(\<exists>c l b g. ssd_maptbl s' = (ssd_maptbl s)[lpn := mk_ppa c l b g] \<and> in_pg s' c l b g \<and>
       pst s' c l b g = PG_VALID \<and> ssd_rmap s' ! pgidx s' c l b g = word_of_nat lpn) \<and>
    gc_ready s' \<and> room s' + 1 = room s \<and> ssd_klog s' = ssd_klog s"
    using x mt g r k by blast
qed

theorem ssd_write_one_correct_witness:
  "returns (ssd_init_layout (blank tiny_sp) \<bind> (\<lambda>s. ssd_write_one 1 5 (s, 0))) (\<lambda>(s', m'). gc_ready s' \<and> room s' = 7)"
proof -
  obtain s where s: "ssd_init_layout (blank tiny_sp) = Some s" "gc_ready s" "room s = 8" "ssd_sp s = tiny_sp"
    using tiny_layout by (auto elim!: returnsE simp: write_ready_def)
  then show ?thesis
    using ssd_write_one_correct [of s 5 1 0] tiny_dims(3) [OF s(4)] by (auto elim!: returns_mono)
qed

text \<open>A write whose last page lies beyond the device changes nothing and reports latency 0.\<close>

theorem ssd_write_out_of_range:
  assumes "cmd_lpns s cmd = Some (a, b)" and "u64_of_int (tt_pgs (ssd_sp s)) \<le> b"
  shows "ssd_write cmd t s = Some (0, s\<lparr>ssd_klog := ssd_klog s @ [ErrorMsg 867]\<rparr>)"
  using assms by (simp add: ssd_write_def nvmev_error_def)

theorem ssd_write_out_of_range_witness:
  "ssd_write (io_cmd 1 64 7) 0 (blank tiny_sp) = Some (0, (blank tiny_sp)\<lparr>ssd_klog := [ErrorMsg 867]\<rparr>)"
proof -
  have sp: "ssd_sp (blank tiny_sp) = tiny_sp" and k: "ssd_klog (blank tiny_sp) = []" by (simp_all add: blank_def)
  have "cmd_lpns (blank tiny_sp) (io_cmd 1 64 7) = Some (8, 8)"
    by (simp add: cmd_lpns_def sp tiny_secs io_cmd_def rw_slba_def rw_length_def lo16_def Let_def u64_of_int_def)
  from ssd_write_out_of_range [OF this, of 0] show ?thesis
    by (simp add: k tiny_dims [OF sp] u64_of_int_def)
qed

text \<open>C3. The device accepts its whole logical space but keeps no spare pages: when every logical page
  but one is mapped, a write to the last one dereferences the NULL pointer that
  \<^verbatim>\<open>get_next_free_line\<close> returns in \<^verbatim>\<open>ssd_advance_write_pointer\<close>.\<close>

theorem ssd_write_last_page_faults:
  assumes "gc_ready s" and "card (mapset s) + 1 = tt s" and "cmd_lpns s cmd = Some (a, a)"
    and "unat a < tt s" and "unat a \<notin> mapset s"
  shows "ssd_write cmd t s = None"
proof -
  note F = ssd_write_full_None [OF assms(1,2,4,5)]
  have geo: "geo_ok s" using assms(1) by (auto simp: gc_ready_def lines_inv_def)
  note T = tt_int [OF geo]
  have "\<not> u64_of_int (tt_pgs (ssd_sp s)) \<le> a"
    using assms(4) T(4) by (simp add: T(1) u64_of_int_nat word_le_nat_alt word_nat_less not_le)
  then show ?thesis using assms(3) F by (simp add: ssd_write_def upt_conv_Cons)
qed

theorem ssd_write_last_page_faults_witness:
  "returns (ssd_init_layout (blank tiny_sp) \<bind> (\<lambda>s. foldM (ssd_write_one 1) [0..<7] (s, 0)))
    (\<lambda>(s, m). ssd_klog s = [] \<and> ssd_write (io_cmd 1 56 7) 1 s = None)"
proof -
  obtain s where s: "ssd_init_layout (blank tiny_sp) = Some s" "gc_ready s" "room s = 8" "ssd_sp s = tiny_sp"
    "mapset s = {}" "ssd_klog s = []"
    using tiny_layout by (auto elim!: returnsE simp: write_ready_def)
  have e: "[0..<7] = [0..<Suc 6]" by simp
  have "returns (foldM (ssd_write_one 1) [0..<Suc 6] (s, 0)) (\<lambda>(s', m'). gc_ready s' \<and>
    room s' + (Suc 6 - 0) = room s \<and> mapset s' = mapset s \<union> {0..6} \<and> ssd_sp s' = ssd_sp s \<and> ssd_klog s' = ssd_klog s)"
    by (rule ssd_write_loop_ok [OF s(2)]) (simp_all add: tiny_dims [OF s(4)] s(3))
  then have "returns (foldM (ssd_write_one 1) [0..<7] (s, 0))
    (\<lambda>(s, m). ssd_klog s = [] \<and> ssd_write (io_cmd 1 56 7) 1 s = None)"
    unfolding e
  proof (rule returns_mono, clarify)
    fix s' and m' :: u64 assume g: "gc_ready s'" and ms: "mapset s' = mapset s \<union> {0..6}" and sp: "ssd_sp s' = ssd_sp s"
      and k: "ssd_klog s' = ssd_klog s"
    have sp': "ssd_sp s' = tiny_sp" using sp s(4) by simp
    have "ssd_write (io_cmd 1 56 7) 1 s' = None"
      by (rule ssd_write_last_page_faults [OF g _ tiny_lpns(2) [OF sp']])
        (simp_all add: ms s(5) tiny_dims [OF sp'])
    then show "ssd_klog s' = [] \<and> ssd_write (io_cmd 1 56 7) 1 s' = None" using k s(6) by simp
  qed
  then show ?thesis by (simp add: s(1))
qed

section \<open>Reads\<close>

text \<open>C4. A read within the device returns and changes nothing but the times of the chips: parameters, tables,
  blocks with their states and counters, lines, write pointer and log are as before. For a command with
  a start time (0 stands for the clock) device and latency are exactly those of charging the chip
  of every mapped page of the command, in order, with one page read from the start time or from the time at which
  the chip is free, if that is later, and taking the longest wait; no other field of any chip or channel
  changes.\<close>

theorem ssd_read_correct:
  assumes "gc_ready s" and "cmd_lpns s cmd = Some (a, b)" and "unat b < tt s"
  shows "returns (ssd_read cmd t s) (\<lambda>(lat, s'). tick s s' \<and> gc_ready s' \<and>
    (t \<noteq> 0 \<longrightarrow> (let (T, longest) = fold (charge (u64_of_int (pg_rd_lat (ssd_sp s))) t)
        (read_chips s [unat a..<Suc (unat b)]) (avail s, 0) in
      lat = longest \<and> s' = with_times s T)))"
proof -
  obtain lat s' where r: "ssd_read cmd t s = Some (lat, s')" and tk: "tick s s'"
    using ssd_read_run [OF assms, of t] by (auto elim!: returnsE)
  then show ?thesis
    using assms(1) tick_gc_ready [OF tk] ssd_read_exact [OF assms, of t] by (auto simp: Let_def split: prod.splits)
qed

theorem ssd_read_correct_witness:
  "returns tiny_run (\<lambda>s. returns (ssd_read (io_cmd 2 0 15) 1 s) (\<lambda>(lat, s'). gc_ready s' \<and> blk_at s' = blk_at s \<and>
    (lat, s') = (let (T, longest) = fold (charge (u64_of_int (pg_rd_lat tiny_sp)) 1) (read_chips s [0..<Suc 1]) (avail s, 0) in
      (longest, with_times s T))))"
proof -
  obtain s where s: "tiny_run = Some s" "gc_ready s" "ssd_sp s = tiny_sp" "ssd_klog s = []"
    using tiny_run_ok by (auto elim!: returnsE)
  have "unat (1 :: u64) < tt s" by (simp add: tiny_dims(3) [OF s(3)])
  from ssd_read_correct [OF s(2) tiny_lpns(1) [OF s(3)] this, of 2 1] show ?thesis
    by (simp only: s(1,3) returns_Some) (erule returns_mono, auto simp: tick_def Let_def split: prod.splits)
qed

section \<open>Initialisation\<close>

text \<open>C5. \<^verbatim>\<open>ssd_init\<close> on 2 GB to 257 GB of memory returns a device with nothing mapped that is ready for
  writes, no assertion failing, and reports the whole memory as its logical space.\<close>

theorem ssd_init_correct:
  assumes "0 < init_nchs mm" and "init_nchs mm \<le> 128"
  shows "returns (ssd_init cpu mm s) (\<lambda>(sz, s'). write_ready s' \<and> mapset s' = {} \<and>
    ssd_sp s' = ssd_init_params (init_nchs mm) \<and> ssd_klog s' = ssd_klog s \<and> sz = mm * 100 div 100)"
  by (rule ssd_init_run [OF assms])

theorem ssd_init_correct_witness:
  "returns (ssd_init 0 (2 ^ 32) (blank tiny_sp)) (\<lambda>(sz, s'). write_ready s' \<and> nchs (ssd_sp s') = 2 \<and> sz = 2 ^ 32)"
proof -
  have "init_nchs (2 ^ 32) = 2" by (simp add: init_nchs_def int_of_u64_def)
  then show ?thesis
    using ssd_init_correct [of "2 ^ 32" 0 "blank tiny_sp"] by (auto elim!: returns_mono simp: init_params_fields)
qed

text \<open>C6. None of the integer parameters that \<^verbatim>\<open>ssd_init_params\<close> computes leaves the range of a
  32-bit \<^verbatim>\<open>int\<close> for fewer than 512 channels, and they fit together: the pages of all lines are
  the pages of the device, and the thresholds lie within the lines.\<close>

theorem ssd_init_params_bounds:
  assumes "0 \<le> n" and "n < 512"
  shows "(\<forall>f\<in>{secs_per_blk, secs_per_pl, secs_per_lun, secs_per_ch, tt_secs, pgs_per_pl, pgs_per_lun, pgs_per_ch,
      tt_pgs, blks_per_lun, blks_per_ch, tt_blks, secs_per_line, pgs_per_line, blks_per_line, tt_lines,
      pls_per_ch, tt_pls, tt_luns, pba_pcent, gc_thres_lines, gc_thres_lines_high}.
      0 \<le> f (ssd_init_params n) \<and> f (ssd_init_params n) < 2 ^ 31) \<and>
    tt_pgs (ssd_init_params n) = pgs_per_line (ssd_init_params n) * tt_lines (ssd_init_params n) \<and>
    gc_thres_lines_high (ssd_init_params n) < gc_thres_lines (ssd_init_params n) \<and>
    gc_thres_lines (ssd_init_params n) < tt_lines (ssd_init_params n)"
  using assms by (simp_all add: ssd_init_params_def Let_def c_trunc_def floor_eq_iff)

theorem ssd_init_params_bounds_witness:
  "tt_secs (ssd_init_params 511) < 2 ^ 31 \<and> gc_thres_lines (ssd_init_params 511) < tt_lines (ssd_init_params 511)"
  using ssd_init_params_bounds [of 511] by simp

text \<open>C7. From initialisation on, any sequence of reads and writes that stays below 243 of the 256 lines
  keeps the device alive: every command returns, no assertion fails, nothing is logged.\<close>

theorem ssd_trace_safe:
  assumes "0 < init_nchs mm" and "init_nchs mm \<le> 128" and "int K < 243 * 2048 * init_nchs mm"
    and "\<forall>c\<in>set cs. last_lpn (host_nvme c) < K"
  shows "returns (ssd_init cpu mm s0 \<bind> (\<lambda>(_, s). foldM host_step cs s))
    (\<lambda>s'. write_ready s' \<and> mapset s' \<subseteq> {..<K} \<and> ssd_klog s' = ssd_klog s0)"
proof -
  obtain sz s where s: "ssd_init cpu mm s0 = Some (sz, s)" "write_ready s" "mapset s = {}"
    "ssd_sp s = ssd_init_params (init_nchs mm)" "ssd_klog s = ssd_klog s0"
    using ssd_init_run [OF assms(1,2), of cpu s0] by (auto elim!: returnsE)
  have "returns (foldM host_step cs s) (\<lambda>s'. write_ready s' \<and> mapset s' \<subseteq> {..<K} \<and> ssd_klog s' = ssd_klog s)"
    if "write_ready s" "ssd_sp s = ssd_init_params (init_nchs mm)" "mapset s \<subseteq> {..<K}" for s
    using that assms(4)
  proof (induction cs arbitrary: s)
    case (Cons c cs)
    have "returns (host_step c s) (\<lambda>s'. write_ready s' \<and> ssd_sp s' = ssd_sp s \<and> mapset s' \<subseteq> {..<K} \<and>
      ssd_klog s' = ssd_klog s)"
      by (rule host_step_ok [OF Cons.prems(1,2) assms(1,2) Cons.prems(3) assms(3)]) (use Cons.prems(4) in simp)
    then obtain s1 where s1: "host_step c s = Some s1" "write_ready s1" "ssd_sp s1 = ssd_sp s" "mapset s1 \<subseteq> {..<K}"
      "ssd_klog s1 = ssd_klog s"
      by (auto elim!: returnsE)
    then show ?case using Cons.IH [of s1] Cons.prems by simp
  qed simp
  from this [OF s(2,4)] show ?thesis using s by simp
qed

theorem ssd_trace_safe_witness:
  "returns (ssd_init 0 (2 ^ 32) (blank tiny_sp) \<bind>
      (\<lambda>(_, s). foldM host_step [HostWrite (io_cmd 1 0 15) 1, HostRead (io_cmd 2 8 7) 2, HostWrite (io_cmd 1 8 7) 3] s))
    (\<lambda>s'. write_ready s' \<and> mapset s' \<subseteq> {..<100} \<and> ssd_klog s' = [])"
proof -
  have n: "init_nchs 4294967296 = 2" by (simp add: init_nchs_def int_of_u64_def)
  have l: "last_lpn (io_cmd op 0 15) = 1" "last_lpn (io_cmd op 8 7) = 1" for op
    by (simp_all add: last_lpn_def io_cmd_def rw_slba_def rw_length_def lo16_def u64_of_int_def)
  have k: "ssd_klog (blank tiny_sp) = []" by (simp add: blank_def)
  show ?thesis
    using ssd_trace_safe [of "2 ^ 32" 100 "[HostWrite (io_cmd 1 0 15) 1, HostRead (io_cmd 2 8 7) 2,
      HostWrite (io_cmd 1 8 7) 3]" 0 "blank tiny_sp"]
    by (simp add: n l k del: foldM.simps)
qed

section \<open>Garbage collection\<close>

text \<open>C8. One forced round of garbage collection with a victim at hand returns 0, fails no assertion, keeps
  the invariant and the set of mapped logical pages, and leaves strictly more room than before.\<close>

theorem do_gc_correct:
  assumes "gc_ready s" and "victims s \<noteq> {}" and "P_ln s \<le> room s"
  shows "returns (do_gc True s) (\<lambda>(r, s'). r = 0 \<and> gc_ready s' \<and> room s < room s' \<and>
    mapset s' = mapset s \<and> ssd_klog s' = ssd_klog s)"
  by (rule returns_mono [OF do_gc_ok [OF assms]]) (auto simp: gc_same_def)

theorem do_gc_correct_witness:
  "returns (tiny_run \<bind> do_gc True) (\<lambda>(r, s'). r = 0 \<and> gc_ready s' \<and> mapset s' = {0, 1} \<and> ssd_klog s' = [])"
proof -
  obtain s where s: "tiny_run = Some s" "gc_ready s" "mapset s = {0, 1}" "P_ln s \<le> room s" "victims s = {0}" "ssd_klog s = []"
    using tiny_run_ok by (auto elim!: returnsE)
  have "returns (do_gc True s) (\<lambda>(r, s'). r = 0 \<and> gc_ready s' \<and> room s < room s' \<and>
    mapset s' = mapset s \<and> ssd_klog s' = ssd_klog s)"
    by (rule do_gc_correct) (use s in auto)
  then show ?thesis by (simp add: s(1,3,6)) (auto elim!: returns_mono)
qed

text \<open>C9. The foreground collection loop of \<^verbatim>\<open>ssd_write\<close> ends, and it ends with enough free lines or with
  nothing left to collect.\<close>

theorem gc_high_loop_ends:
  assumes "gc_ready s" and "P_ln s \<le> room s"
  shows "returns (gc_high_loop s) (\<lambda>s'. gc_ready s' \<and> mapset s' = mapset s \<and> ssd_klog s' = ssd_klog s \<and>
    (gc_thres_lines_high (ssd_sp s') < free_line_cnt (ssd_lm s') \<or> victims s' = {}))"
  by (rule returns_mono [OF gc_high_loop_ok [OF assms]]) (auto simp: gc_same_def should_gc_high_def)

theorem gc_high_loop_ends_witness:
  "returns (tiny_run \<bind> gc_high_loop) (\<lambda>s'. gc_ready s' \<and> mapset s' = {0, 1})"
proof -
  obtain s where s: "tiny_run = Some s" "gc_ready s" "mapset s = {0, 1}" "P_ln s \<le> room s"
    using tiny_run_ok by (auto elim!: returnsE)
  from gc_high_loop_ends [OF s(2,4)] show ?thesis by (simp add: s(1,3)) (auto elim!: returns_mono)
qed

text \<open>The victim of a forced selection is a line with the fewest valid pages among the victims; it
  leaves the queue and its position is reset.\<close>

theorem select_victim_least:
  assumes "gc_ready s" and "victims s \<noteq> {}"
  shows "returns (select_victim_line s True) (\<lambda>(r, s'). \<exists>v\<in>victims s. r = Some v \<and>
    (\<forall>b\<in>victims s. line_vpc (lns s ! v) \<le> line_vpc (lns s ! b)) \<and>
    victims s' = victims s - {v} \<and> line_pos (lns s' ! v) = 0 \<and> pst s' = pst s \<and> ssd_klog s' = ssd_klog s)"
proof -
  obtain cur where inv: "lines_inv s {} cur 0" using assms(1) by (auto simp: gc_ready_def)
  note sel = select_victim_line_ok [OF inv assms(2)]
  let ?v = "pq_nth (vicQ s) 1"
  have "returns (select_victim_line s True) (\<lambda>(r, s'). r = Some ?v \<and> lm_step s s' \<and>
        lines_inv s' {?v} cur 0 \<and> room s' = room s \<and> victims s' = victims s - {?v})"
    by (rule sel(4)) simp
  then obtain s' where s': "select_victim_line s True = Some (Some ?v, s')" "lm_step s s'" "lines_inv s' {?v} cur 0"
    "victims s' = victims s - {?v}"
    by (auto elim!: returnsE)
  note I = lines_invD(3) [OF inv] and I' = lines_invD(3) [OF s'(3)] and F = lm_step_fields [OF s'(2)]
  have "?v < nB s'" using lists_ok_lt [OF I'] by blast
  moreover have "?v \<notin> victims s'" using I' unfolding lists_ok_def by blast
  ultimately have "line_pos (lns s' ! ?v) = 0" using I' by (simp add: lists_ok_def)
  then show ?thesis using s'(1,4) sel(1,2) by (auto simp: F)
qed

theorem select_victim_least_witness:
  "returns (tiny_run \<bind> (\<lambda>s. select_victim_line s True)) (\<lambda>(r, s'). r = Some 0 \<and> victims s' = {})"
proof -
  obtain s where s: "tiny_run = Some s" "gc_ready s" "victims s = {0}"
    using tiny_run_ok by (auto elim!: returnsE)
  from select_victim_least [OF s(2)] s(3) show ?thesis by (simp add: s(1)) (auto elim!: returns_mono)
qed

section \<open>The mapping\<close>

text \<open>Between operations no two logical pages share a physical page, every mapped logical page
  lies on a valid page whose reverse map entry names it, and every valid page is mapped.\<close>

theorem mapping_bijective:
  assumes "gc_ready s"
  shows "inj_on (\<lambda>i. ssd_maptbl s ! i) (mapset s) \<and>
    (\<lambda>i. ssd_maptbl s ! i) ` mapset s = {mk_ppa c l b g |c l b g. in_pg s c l b g \<and> pst s c l b g = PG_VALID} \<and>
    (\<forall>i\<in>mapset s. \<forall>c l b g. ssd_maptbl s ! i = mk_ppa c l b g \<longrightarrow> in_pg s c l b g \<longrightarrow>
      ssd_rmap s ! pgidx s c l b g = word_of_nat i)"
proof -
  obtain cur where inv: "lines_inv s {} cur 0" and ok: "map_ok s {} {}" using assms by (auto simp: gc_ready_def)
  have geo: "geo_ok s" by (rule lines_invD(1) [OF inv])
  have m: "\<exists>c l b g. ssd_maptbl s ! i = mk_ppa c l b g \<and> in_pg s c l b g \<and> pst s c l b g = PG_VALID \<and>
      ssd_rmap s ! pgidx s c l b g = word_of_nat i" if "i \<in> mapset s" for i
    using that unfolding mapset_def by (elim CollectE conjE map_okE [OF ok]) auto
  have "inj_on (\<lambda>i. ssd_maptbl s ! i) (mapset s)"
    using map_ok_inj [OF ok geo] unfolding inj_on_def mapset_def by blast
  moreover have "(\<lambda>i. ssd_maptbl s ! i) ` mapset s =
      {mk_ppa c l b g |c l b g. in_pg s c l b g \<and> pst s c l b g = PG_VALID}"
  proof (intro set_eqI iffI)
    fix p assume "p \<in> (\<lambda>i. ssd_maptbl s ! i) ` mapset s"
    then show "p \<in> {mk_ppa c l b g |c l b g. in_pg s c l b g \<and> pst s c l b g = PG_VALID}" using m by blast
  next
    fix p assume "p \<in> {mk_ppa c l b g |c l b g. in_pg s c l b g \<and> pst s c l b g = PG_VALID}"
    then obtain c l b g where x: "p = mk_ppa c l b g" "in_pg s c l b g" "pst s c l b g = PG_VALID" by blast
    obtain i where "i < tt s" "ssd_maptbl s ! i = mk_ppa c l b g" by (rule map_ok_valid [OF ok x(2,3)]) auto
    then show "p \<in> (\<lambda>i. ssd_maptbl s ! i) ` mapset s" using x(1) by (auto simp: mapset_def intro!: image_eqI)
  qed
  moreover have "ssd_rmap s ! pgidx s c l b g = word_of_nat i"
    if i: "i \<in> mapset s" and e: "ssd_maptbl s ! i = mk_ppa c l b g" and pg: "in_pg s c l b g" for i c l b g
  proof -
    obtain c' l' b' g' where x: "ssd_maptbl s ! i = mk_ppa c' l' b' g'" "in_pg s c' l' b' g'"
      "ssd_rmap s ! pgidx s c' l' b' g' = word_of_nat i" using m [OF i] by blast
    show ?thesis using mk_ppa_inj [OF geo x(2) pg] x(1,3) e by simp
  qed
  ultimately show ?thesis by blast
qed

theorem mapping_bijective_witness:
  "returns tiny_run (\<lambda>s. inj_on (\<lambda>i. ssd_maptbl s ! i) {0, 1})"
proof -
  obtain s where s: "tiny_run = Some s" "gc_ready s" "mapset s = {0, 1}"
    using tiny_run_ok by (auto elim!: returnsE)
  from mapping_bijective [OF s(2)] show ?thesis unfolding s(3) by (simp add: s(1))
qed

section \<open>Single steps\<close>

text \<open>\<^verbatim>\<open>mark_page_invalid\<close> on a valid page fails no assertion, makes exactly that page invalid and
  keeps all counters and lists right, whether the line is the current one, a victim (whose
  priority drops) or full (it becomes a victim).\<close>

theorem mark_page_invalid_correct:
  assumes "lines_inv s D cur 0" and "in_pg s c l b g" and "at_pg p c l b g"
    and "pst s c l b g = PG_VALID" and "b \<notin> D"
  shows "returns (mark_page_invalid s p) (\<lambda>s'. lines_inv s' D cur 0 \<and>
    (\<forall>c' l' b' g'. in_pg s c' l' b' g' \<longrightarrow> pst s' c' l' b' g' =
       (if c' = c \<and> l' = l \<and> b' = b \<and> g' = g then PG_INVALID else pst s c' l' b' g')) \<and>
    ssd_maptbl s' = ssd_maptbl s \<and> ssd_wp s' = ssd_wp s \<and> ssd_klog s' = ssd_klog s)"
  by (rule returns_mono [OF mark_page_invalid_ok [OF assms]]) (simp add: pg_changed_def keeps_def)

theorem mark_page_invalid_correct_witness:
  "returns (tiny_run \<bind> (\<lambda>s. mark_page_invalid s (ssd_maptbl s ! 1))) (\<lambda>s'. ssd_klog s' = [])"
proof -
  obtain s where s: "tiny_run = Some s" "gc_ready s" "mapset s = {0, 1}" "ssd_klog s = []"
    using tiny_run_ok by (auto elim!: returnsE)
  obtain cur where inv: "lines_inv s {} cur 0" and ok: "map_ok s {} {}" using s(2) by (auto simp: gc_ready_def)
  have "1 \<in> mapset s" using s(3) by simp
  then obtain c l b g where x: "ssd_maptbl s ! 1 = mk_ppa c l b g" "in_pg s c l b g" "pst s c l b g = PG_VALID"
    unfolding mapset_def by (elim CollectE conjE map_okE [OF ok]) auto
  note at = mk_ppa_at_pg [OF lines_invD(1) [OF inv] x(2)]
  from mark_page_invalid_correct [OF inv x(2) at x(3) empty_iff [THEN iffD1, THEN FalseE, THEN notI]]
  have "returns (mark_page_invalid s (mk_ppa c l b g)) (\<lambda>s'. ssd_klog s' = ssd_klog s)"
    by (auto elim!: returns_mono)
  then show ?thesis by (simp only: s(1,4) x(1) returns_bind returns_Some)
qed

text \<open>The page at the write pointer is erased; writing it and advancing the pointer returns while
  more than one page of room is left, keeps the invariant and uses one page of room.\<close>

theorem advance_write_pointer_correct:
  assumes "lines_inv s D cur 0" and "1 < room s"
  shows "(\<exists>c l g. get_new_page s = (mk_ppa c l cur g, s) \<and> in_pg s c l cur g \<and> pst s c l cur g = PG_FREE) \<and>
    returns (mark_page_valid s (fst (get_new_page s)) \<bind> ssd_advance_write_pointer)
      (\<lambda>s'. (\<exists>cur'. lines_inv s' D cur' 0) \<and> room s' + 1 = room s \<and> ssd_klog s' = ssd_klog s)"
proof -
  note I = lines_invD [OF assms(1)]
  obtain c l g where np: "get_new_page s = (mk_ppa c l cur g, s)" and pg: "in_pg s c l cur g" and n: "pord s c l g = wp_n s"
    by (rule get_new_page_ok [OF I(7)])
  have "pst s c l cur g = PG_FREE" using I(8) pg n unfolding fill_def in_pg_idx by force
  moreover obtain s1 where s1: "mark_page_valid s (mk_ppa c l cur g) = Some s1" "lines_inv s1 D cur 1" "keeps s s1"
    using mark_page_valid_ok [OF assms(1) pg mk_ppa_at_pg [OF I(1) pg] n] by (auto elim!: returnsE)
  moreover obtain s2 cur' where "ssd_advance_write_pointer s1 = Some s2" "lines_inv s2 D cur' 0" "soft_step s1 s2"
    "room s2 + 1 = room s1"
    using advance_ok [OF s1(2)] keeps_room [OF s1(3)] assms(2) by (auto elim!: returnsE)
  ultimately show ?thesis
    using np pg keeps_room [OF s1(3)] by (auto simp: keeps_def soft_step_fields)
qed

theorem advance_write_pointer_correct_witness:
  "returns (ssd_init_layout (blank tiny_sp) \<bind> (\<lambda>s. mark_page_valid s (fst (get_new_page s))) \<bind> ssd_advance_write_pointer)
    (\<lambda>s'. room s' = 7 \<and> ssd_klog s' = [])"
proof -
  obtain s where s: "ssd_init_layout (blank tiny_sp) = Some s" "gc_ready s" "room s = 8" "ssd_klog s = []"
    using tiny_layout by (auto elim!: returnsE simp: write_ready_def)
  obtain cur where inv: "lines_inv s {} cur 0" using s(2) by (auto simp: gc_ready_def)
  have "returns (mark_page_valid s (fst (get_new_page s)) \<bind> ssd_advance_write_pointer)
      (\<lambda>s'. (\<exists>cur'. lines_inv s' {} cur' 0) \<and> room s' + 1 = room s \<and> ssd_klog s' = ssd_klog s)"
    using advance_write_pointer_correct [OF inv] s(3) by simp
  then show ?thesis using s(3,4) by (simp add: s(1)) (auto elim!: returns_mono)
qed

text \<open>Erasing a block fails no assertion, frees exactly its pages and resets its counters; all
  other blocks, the lines and the tables stay as they are.\<close>

theorem mark_block_free_correct:
  assumes "geo_ok s" and "blks_ok s" and "in_blk s c l b" and "at_blk p c l b"
  shows "returns (mark_block_free s p) (\<lambda>s'. (\<forall>g<nG s. pst s' c l b g = PG_FREE) \<and>
    (\<forall>c' l' b'. (c', l', b') \<noteq> (c, l, b) \<longrightarrow> blk_at s' c' l' b' = blk_at s c' l' b') \<and>
    geo_ok s' \<and> blks_ok s' \<and> ssd_lm s' = ssd_lm s \<and> ssd_maptbl s' = ssd_maptbl s \<and> ssd_klog s' = ssd_klog s)"
  by (rule returns_mono [OF mark_block_free_ok [OF assms]]) (simp add: block_erased_def keeps_def)

theorem mark_block_free_correct_witness:
  "returns (tiny_run \<bind> (\<lambda>s. mark_block_free s (mk_ppa 0 0 0 0))) (\<lambda>s'. pst s' 0 0 0 1 = PG_FREE \<and> ssd_klog s' = [])"
proof -
  obtain s where s: "tiny_run = Some s" "gc_ready s" "ssd_sp s = tiny_sp" "ssd_klog s = []"
    using tiny_run_ok by (auto elim!: returnsE)
  have inv: "geo_ok s" "blks_ok s" using s(2) by (auto simp: gc_ready_def lines_inv_def)
  have d: "nG s = 2" "in_blk s 0 0 0"
    using s(3) dims_bound [OF inv(1)] by (simp_all add: nG_def tiny_sp_def in_blk_def in_lun_def)
  have "at_blk (mk_ppa 0 0 0 0) 0 0 0" by (simp add: at_blk_def at_lun_def mk_ppa_def)
  from mark_block_free_correct [OF inv d(2) this] show ?thesis
    by (simp add: s(1,4) d(1)) (auto elim!: returns_mono)
qed

text \<open>The two views of \<^verbatim>\<open>struct ppa\<close>, bit fields and 64-bit word, are inverse to each other, so the
  all-ones word of an unmapped entry never is an address the write path builds.\<close>

theorem ppa_union_roundtrip:
  "ppa_bits (ppa_of_bits w) = w \<and> ppa_of_bits (ppa_bits p) = p \<and>
    mapped_ppa (mk_ppa c l b g) \<and> \<not> mapped_ppa (ppa_of_bits UNMAPPED_PPA)"
  by (simp add: ppa_bits_of_bits ppa_of_bits_bits mapped_ppa_def [of "ppa_of_bits UNMAPPED_PPA"])

end
