(* ===== verification/PQueue_Props.thy ===== *)
theory PQueue_Props
  imports FTL_Lines
begin

text \<open>
  The properties of the priority queue, stated for the queue the program builds (the
  victim lines) through the interpretation of the contract in \<^theory_text>\<open>FTL_Lines\<close>, and of its
  debug check for any queue.
\<close>

section \<open>The debug check\<close>

definition below :: "nat \<Rightarrow> nat \<Rightarrow> bool" where
  "below i k \<longleftrightarrow> (\<exists>m. k div 2 ^ m = i)"

definition sub_heap :: "(nat \<Rightarrow> u64) \<Rightarrow> nat \<Rightarrow> nat \<Rightarrow> bool" where
  "sub_heap f n i \<longleftrightarrow> (\<forall>j\<in>{2..<n}. below i (j div 2) \<longrightarrow> f (j div 2) \<le> f j)"

lemma below_le: "below i k \<Longrightarrow> i \<le> k"
  by (auto simp: below_def)

lemma below_split: "below i k \<longleftrightarrow> k = i \<or> below (2 * i) k \<or> below (2 * i + 1) k"
proof
  assume "below i k"
  then obtain m where m: "k div 2 ^ m = i" by (auto simp: below_def)
  show "k = i \<or> below (2 * i) k \<or> below (2 * i + 1) k"
  proof (cases m)
    case (Suc m')
    then have "(k div 2 ^ m') div 2 = i" using m by (simp only: power_Suc2 div_mult2_eq)
    then have "k div 2 ^ m' = 2 * i \<or> k div 2 ^ m' = 2 * i + 1" by linarith
    then show ?thesis by (auto simp: below_def)
  qed (use m in simp)
next
  assume "k = i \<or> below (2 * i) k \<or> below (2 * i + 1) k"
  then show "below i k"
  proof (elim disjE)
    assume "k = i" then have "k div 2 ^ 0 = i" by simp
    then show ?thesis unfolding below_def by blast
  next
    assume "below (2 * i) k" then obtain m where "k div 2 ^ m = 2 * i" by (auto simp: below_def)
    then have "k div 2 ^ Suc m = i" by (simp add: power_Suc2 div_mult2_eq del: power_Suc)
    then show ?thesis unfolding below_def by blast
  next
    assume "below (2 * i + 1) k" then obtain m where "k div 2 ^ m = 2 * i + 1" by (auto simp: below_def)
    then have "k div 2 ^ Suc m = i" by (simp add: power_Suc2 div_mult2_eq del: power_Suc)
    then show ?thesis unfolding below_def by blast
  qed
qed

lemma below_root: "1 \<le> k \<Longrightarrow> below 1 k"
proof (induction k rule: less_induct)
  case (less k)
  show ?case
  proof (cases "k = 1")
    case True
    then have "k div 2 ^ 0 = 1" by simp
    then show ?thesis unfolding below_def by blast
  next
    case False
    then have "below 1 (k div 2)" using less by auto
    then obtain m where "k div 2 div 2 ^ m = 1" by (auto simp: below_def)
    then have "k div 2 ^ Suc m = 1" by (simp add: div_mult2_eq)
    then show ?thesis unfolding below_def by blast
  qed
qed

lemma sub_heap_leaf: "n \<le> i \<Longrightarrow> sub_heap f n i"
  by (force simp: sub_heap_def dest: below_le)

lemma sub_heap_split:
  assumes "1 \<le> i"
  shows "sub_heap f n i \<longleftrightarrow> (2 * i < n \<longrightarrow> f i \<le> f (2 * i) \<and> sub_heap f n (2 * i)) \<and>
    (2 * i + 1 < n \<longrightarrow> f i \<le> f (2 * i + 1) \<and> sub_heap f n (2 * i + 1))"
proof -
  have "sub_heap f n i \<longleftrightarrow> (\<forall>j\<in>{2..<n}. j div 2 = i \<longrightarrow> f i \<le> f j) \<and> sub_heap f n (2 * i) \<and> sub_heap f n (2 * i + 1)"
    unfolding sub_heap_def below_split [of i] by blast
  moreover have "(\<forall>j\<in>{2..<n}. j div 2 = i \<longrightarrow> f i \<le> f j) \<longleftrightarrow>
      (2 * i < n \<longrightarrow> f i \<le> f (2 * i)) \<and> (2 * i + 1 < n \<longrightarrow> f i \<le> f (2 * i + 1))"
  proof
    assume a: "\<forall>j\<in>{2..<n}. j div 2 = i \<longrightarrow> f i \<le> f j"
    show "(2 * i < n \<longrightarrow> f i \<le> f (2 * i)) \<and> (2 * i + 1 < n \<longrightarrow> f i \<le> f (2 * i + 1))"
      using a [rule_format, of "2 * i"] a [rule_format, of "2 * i + 1"] assms by auto
  next
    assume a: "(2 * i < n \<longrightarrow> f i \<le> f (2 * i)) \<and> (2 * i + 1 < n \<longrightarrow> f i \<le> f (2 * i + 1))"
    show "\<forall>j\<in>{2..<n}. j div 2 = i \<longrightarrow> f i \<le> f j"
    proof (intro ballI impI)
      fix j assume "j \<in> {2..<n}" "j div 2 = i"
      then have "j < n" "j = 2 * i \<or> j = 2 * i + 1" by auto
      then show "f i \<le> f j" using a by auto
    qed
  qed
  moreover have "n \<le> 2 * i \<Longrightarrow> sub_heap f n (2 * i)" "n \<le> 2 * i + 1 \<Longrightarrow> sub_heap f n (2 * i + 1)"
    by (auto intro: sub_heap_leaf)
  ultimately show ?thesis by (meson not_le)
qed

lemma subtree_is_valid_iff:
  assumes sh: "pq_shape q" and cmp: "\<And>a b. cmppri q a b \<longleftrightarrow> b < a"
  shows "1 \<le> i \<Longrightarrow> subtree_is_valid q s i = Some (sub_heap (\<lambda>j. getpri q s (pq_nth q j)) (pq_size q) i)"
proof (induction "pq_size q - i" arbitrary: i rule: less_induct)
  case less
  let ?f = "\<lambda>j. getpri q s (pq_nth q j)" and ?n = "pq_size q"
  have l: "pq_left i = 2 * i" "pq_right i = 2 * i + 1" by (simp_all add: pq_left_def pq_right_def)
  have el: "pq_elt q j = Some (pq_nth q j)" if "1 \<le> j" "j < ?n" for j using pq_elt_nth [OF sh that] .
  have ihl: "subtree_is_valid q s (2 * i) = Some (sub_heap ?f ?n (2 * i))" if "2 * i < ?n"
    using less that by simp
  have ihr: "subtree_is_valid q s (2 * i + 1) = Some (sub_heap ?f ?n (2 * i + 1))" if "2 * i + 1 < ?n"
    using less that by simp
  consider (none) "?n \<le> 2 * i" | (one) "2 * i < ?n" "?n \<le> 2 * i + 1" | (two) "2 * i + 1 < ?n" by linarith
  then show ?case
  proof cases
    case none
    then show ?thesis
      using sub_heap_split [OF less.prems, of ?f ?n] by (subst subtree_is_valid.simps) (simp add: l)
  next
    case one
    then show ?thesis
      using sub_heap_split [OF less.prems, of ?f ?n] ihl el [of i] el [of "2 * i"] less.prems
      by (subst subtree_is_valid.simps) (auto simp add: l cmp not_less)
  next
    case two
    then show ?thesis
      using sub_heap_split [OF less.prems, of ?f ?n] ihl ihr el [of i] el [of "2 * i"] el [of "2 * i + 1"] less.prems
      by (subst subtree_is_valid.simps) (auto simp add: l cmp not_less)
  qed
qed

text \<open>C10. \<^verbatim>\<open>pqueue_is_valid\<close> ends on every well-shaped queue and answers whether the array is a
  heap: no element has a smaller priority than its parent.\<close>

theorem pqueue_is_valid_correct:
  assumes "pq_shape q" and "\<And>a b. cmppri q a b \<longleftrightarrow> b < a"
  shows "pqueue_is_valid q s = Some (pq_heap q s)"
proof -
  have "sub_heap f n 1 = heap_order f n" for f n
    unfolding sub_heap_def heap_order_def using below_root by fastforce
  then show ?thesis
    using subtree_is_valid_iff [OF assms, of 1 s] by (simp add: pqueue_is_valid_def pq_heap_def)
qed

section \<open>The queue of victim lines\<close>

text \<open>
  A queue of lines: its callbacks are those of \<^verbatim>\<open>ftl.c\<close>, its elements are lines of the array,
  it is a heap, and every element stores its index.
\<close>

definition victim_queue_ok :: "(line list, nat) pqueue_t \<Rightarrow> line list \<Rightarrow> bool" where
  "victim_queue_ok q ls \<longleftrightarrow> cmppri q = victim_line_cmp_pri \<and> getpri q = victim_line_get_pri \<and>
     setpri q = victim_line_set_pri \<and> getpos q = victim_line_get_pos \<and> setpos q = victim_line_set_pos \<and>
     pq_wf q ls \<and> (\<forall>e\<in>pq_elems q. e < length ls)"

lemma victim_queue_vq: "victim_queue_ok q ls \<longleftrightarrow> vq.pq_ok q ls"
  by (auto simp: victim_queue_ok_def vq.pq_ok_def vq.cb_def)

text \<open>Apart from positions, the lines \<open>ls'\<close> are the lines \<open>ls\<close>.\<close>

definition same_lines :: "line list \<Rightarrow> line list \<Rightarrow> bool" where
  "same_lines ls ls' \<longleftrightarrow> length ls' = length ls \<and> (\<forall>i<length ls. line_id (ls' ! i) = line_id (ls ! i) \<and>
     line_vpc (ls' ! i) = line_vpc (ls ! i) \<and> line_ipc (ls' ! i) = line_ipc (ls ! i))"

lemma same_lines_rest: assumes "lines_rest ls' = lines_rest ls" shows "same_lines ls ls'"
  using lines_restD [OF assms] by (simp add: same_lines_def)

definition demo_lines :: "line list" where
  "demo_lines = map (\<lambda>v. \<lparr>line_id = 0, line_ipc = 1, line_vpc = v, line_pos = 0\<rparr>) [5, 3, 4]"

definition empty_queue :: "(line list, nat) pqueue_t" where
  "empty_queue = pqueue_init 3 victim_line_cmp_pri victim_line_get_pri victim_line_set_pri
     victim_line_get_pos victim_line_set_pos"

definition demo_queue :: "((line list, nat) pqueue_t \<times> line list) option" where
  "demo_queue = foldM (\<lambda>e (q, ls). pqueue_insert q ls e) [2, 1, 0] (empty_queue, demo_lines)"

lemma empty_queue_ok: "victim_queue_ok empty_queue ls" "pq_elems empty_queue = {}"
  "pq_avail empty_queue = 4" "pq_size empty_queue = 1"
  by (auto simp: victim_queue_ok_def empty_queue_def pqueue_init_def pq_wf_def pq_shape_def pq_heap_def
      heap_order_def pq_elems_def)

lemma demo_queue_ok:
  "returns demo_queue (\<lambda>(q, ls). victim_queue_ok q ls \<and> pq_elems q = {0, 1, 2} \<and> same_lines demo_lines ls \<and> pq_size q = 4)"
proof -
  have step: "returns (pqueue_insert q ls e) (\<lambda>(q', ls'). victim_queue_ok q' ls' \<and>
      pq_elems q' = insert e (pq_elems q) \<and> pq_size q' = pq_size q + 1 \<and> pq_avail q' = pq_avail q \<and> same_lines ls ls')"
    if "victim_queue_ok q ls" "e < length ls" "e \<notin> pq_elems q" "pq_size q < pq_avail q" for q ls e
    using vq.pqueue_insert_ok [OF that(1) [unfolded victim_queue_vq] that(2,3,4)]
    by (auto elim!: returns_mono simp: victim_queue_vq same_lines_rest)
  have len: "length demo_lines = 3" by (simp add: demo_lines_def)
  obtain q1 l1 where 1: "pqueue_insert empty_queue demo_lines 2 = Some (q1, l1)" "victim_queue_ok q1 l1"
    "pq_elems q1 = {2}" "pq_size q1 = 2" "pq_avail q1 = 4" "same_lines demo_lines l1"
    using step [OF empty_queue_ok(1), of 2 demo_lines] len by (auto elim!: returnsE simp: empty_queue_ok)
  obtain q2 l2 where 2: "pqueue_insert q1 l1 1 = Some (q2, l2)" "victim_queue_ok q2 l2"
    "pq_elems q2 = {1, 2}" "pq_size q2 = 3" "pq_avail q2 = 4" "same_lines l1 l2"
    using step [OF 1(2), of 1] 1 len by (auto elim!: returnsE simp: same_lines_def)
  have l2: "0 < length l2" using 1(6) 2(6) len by (simp add: same_lines_def)
  obtain q3 l3 where 3: "pqueue_insert q2 l2 0 = Some (q3, l3)" "victim_queue_ok q3 l3"
    "pq_elems q3 = {0, 1, 2}" "pq_size q3 = 4" "same_lines l2 l3"
    using step [OF 2(2) l2] 2 by (auto elim!: returnsE)
  have "same_lines demo_lines l3" using 1(6) 2(6) 3(5) by (simp add: same_lines_def)
  then show ?thesis using 1(1) 2(1) 3 by (simp add: demo_queue_def)
qed

text \<open>C11. Inserting a line that is not queued into a queue with a free slot returns a queue of the old
  lines and the new one; the lines themselves keep everything but their positions.\<close>

theorem pqueue_insert_correct:
  assumes "victim_queue_ok q ls" and "e < length ls" and "e \<notin> pq_elems q" and "pq_size q < pq_avail q"
  shows "returns (pqueue_insert q ls e) (\<lambda>(q', ls'). victim_queue_ok q' ls' \<and>
    pq_elems q' = insert e (pq_elems q) \<and> pqueue_size q' = pqueue_size q + 1 \<and> same_lines ls ls')"
  using vq.pqueue_insert_ok [OF assms(1) [unfolded victim_queue_vq] assms(2,3,4)]
    vq.pq_ok_sizes [OF assms(1) [unfolded victim_queue_vq]]
  by (auto elim!: returns_mono simp: victim_queue_vq same_lines_rest pqueue_size_def)

theorem pqueue_insert_correct_witness:
  "returns (pqueue_insert empty_queue demo_lines 2) (\<lambda>(q', ls'). victim_queue_ok q' ls' \<and> pq_elems q' = {2})"
  using pqueue_insert_correct [OF empty_queue_ok(1), of 2 demo_lines]
  by (auto elim!: returns_mono simp: empty_queue_ok demo_lines_def)

text \<open>C12. Popping a queue that is not empty returns an element of least priority, the one \<^verbatim>\<open>pqueue_peek\<close>
  shows, and leaves a queue of the others; the lines keep everything but their positions.\<close>

theorem pqueue_pop_correct:
  assumes "victim_queue_ok q ls" and "pq_elems q \<noteq> {}"
  shows "returns (pqueue_pop q ls) (\<lambda>(r, q', ls'). \<exists>e\<in>pq_elems q. r = Some e \<and> pqueue_peek q = Some (Some e) \<and>
    (\<forall>x\<in>pq_elems q. victim_line_get_pri ls e \<le> victim_line_get_pri ls x) \<and>
    victim_queue_ok q' ls' \<and> pq_elems q' = pq_elems q - {e} \<and> pqueue_size q' = pqueue_size q - 1 \<and> same_lines ls ls')"
proof -
  note ok = assms(1) [unfolded victim_queue_vq]
  show ?thesis
    using vq.pqueue_peek_ok [OF ok assms(2)]
    by (intro returns_mono [OF vq.pqueue_pop_wf [OF ok assms(2)]])
      (auto simp: victim_queue_vq same_lines_rest pqueue_size_def)
qed

theorem pqueue_pop_correct_witness:
  "returns (demo_queue \<bind> (\<lambda>(q, ls). pqueue_pop q ls)) (\<lambda>(r, q', ls'). r \<noteq> None \<and> victim_queue_ok q' ls')"
proof -
  obtain q ls where q: "demo_queue = Some (q, ls)" "victim_queue_ok q ls" "pq_elems q = {0, 1, 2}"
    using demo_queue_ok by (auto elim!: returnsE)
  from pqueue_pop_correct [OF q(2)] q(3) show ?thesis by (simp add: q(1)) (auto elim!: returns_mono)
qed

text \<open>Changing the priority of a queued line moves it to its new place: the queue holds the same
  lines and is a heap again, and only the count of valid pages of that line changes.\<close>

theorem pqueue_change_priority_correct:
  assumes "victim_queue_ok q ls" and "e \<in> pq_elems q" and "uint w < 2 ^ 31"
  shows "returns (pqueue_change_priority q ls w e) (\<lambda>(q', ls'). victim_queue_ok q' ls' \<and>
    pq_elems q' = pq_elems q \<and> pqueue_size q' = pqueue_size q \<and>
    same_lines (ls[e := (ls ! e)\<lparr>line_vpc := int_of_u64 w\<rparr>]) ls')"
  using vq.pqueue_change_priority_ok [OF assms(1) [unfolded victim_queue_vq] assms(2,3)]
  by (auto elim!: returns_mono simp: victim_queue_vq pqueue_size_def victim_line_set_pri_def intro: same_lines_rest)

theorem pqueue_change_priority_correct_witness:
  "returns (demo_queue \<bind> (\<lambda>(q, ls). pqueue_change_priority q ls 1 2))
    (\<lambda>(q', ls'). victim_queue_ok q' ls' \<and> pq_elems q' = {0, 1, 2})"
proof -
  obtain q ls where q: "demo_queue = Some (q, ls)" "victim_queue_ok q ls" "pq_elems q = {0, 1, 2}"
    using demo_queue_ok by (auto elim!: returnsE)
  from pqueue_change_priority_correct [OF q(2), of 2 1] q(3) show ?thesis
    by (simp add: q(1)) (auto elim!: returns_mono)
qed

text \<open>Removing a line that is not the last of the array leaves a heap of the others.\<close>

theorem pqueue_remove_correct:
  assumes "victim_queue_ok q ls" and "e \<in> pq_elems q" and "pq_nth q (pq_size q - 1) \<noteq> e"
  shows "returns (pqueue_remove q ls e) (\<lambda>(q', ls'). victim_queue_ok q' ls' \<and>
    pq_elems q' = pq_elems q - {e} \<and> pqueue_size q' = pqueue_size q - 1 \<and> same_lines ls ls')"
  using vq.pqueue_remove_ok [OF assms(1) [unfolded victim_queue_vq] assms(2,3)]
  by (auto elim!: returns_mono simp: victim_queue_vq same_lines_rest pqueue_size_def)

lemma demo_queue_last: "returns demo_queue (\<lambda>(q, ls). pq_nth q (pq_size q - 1) = 0)"
  by code_simp

theorem pqueue_remove_correct_witness:
  "returns (demo_queue \<bind> (\<lambda>(q, ls). pqueue_remove q ls 2)) (\<lambda>(q', ls'). victim_queue_ok q' ls' \<and> pq_elems q' = {0, 1})"
proof -
  obtain q ls where q: "demo_queue = Some (q, ls)" "victim_queue_ok q ls" "pq_elems q = {0, 1, 2}"
    "pq_nth q (pq_size q - 1) = 0"
    using returns_conj [OF demo_queue_ok demo_queue_last] by (auto elim!: returnsE)
  have "{0, 1, 2} - {2} = {0, 1 :: nat}" by auto
  with pqueue_remove_correct [OF q(2), of 2] q(3,4) show ?thesis
    by (simp add: q(1)) (auto elim!: returns_mono)
qed

theorem pqueue_is_valid_correct_witness:
  "returns demo_queue (\<lambda>(q, ls). pqueue_is_valid q ls = Some True)"
proof -
  obtain q ls where q: "demo_queue = Some (q, ls)" "victim_queue_ok q ls" using demo_queue_ok by (auto elim!: returnsE)
  have "pq_shape q" "pq_heap q ls" and c: "cmppri q a b \<longleftrightarrow> b < a" for a b
    using q(2) by (auto simp: victim_queue_ok_def pq_wf_def victim_line_cmp_pri_def)
  with pqueue_is_valid_correct [of q ls] show ?thesis by (simp add: q(1))
qed

end
