(* ===== verification/Phys.thy ===== *)
theory Phys
  imports Prelude
begin

text \<open>
  Physical memory as the module uses it: \<^verbatim>\<open>page_address\<close>, \<^verbatim>\<open>kmap_atomic_pfn\<close> and
  \<^verbatim>\<open>memremap\<close> give addresses of the kernel's direct map, in which neighbouring pages are
  neighbours, so a pointer into it is a physical address. Integers are stored in little endian.
\<close>

unbundle bit_operations_syntax

type_synonym phys = "u64 \<Rightarrow> u8"

definition PAGE_SIZE :: nat where "PAGE_SIZE = 4096"
definition PAGE_SHIFT :: nat where "PAGE_SHIFT = 12"

section \<open>Little-endian integers\<close>

definition le16 :: "u16 \<Rightarrow> u8 list" where
  "le16 w = [ucast w, ucast (drop_bit 8 w)]"

definition le32 :: "u32 \<Rightarrow> u8 list" where
  "le32 w = le16 (ucast w) @ le16 (ucast (drop_bit 16 w))"

definition le64 :: "u64 \<Rightarrow> u8 list" where
  "le64 w = le32 (ucast w) @ le32 (ucast (drop_bit 32 w))"

definition cat16 :: "u8 \<Rightarrow> u8 \<Rightarrow> u16" where
  "cat16 l h = ucast l OR push_bit 8 (ucast h)"

definition cat32 :: "u16 \<Rightarrow> u16 \<Rightarrow> u32" where
  "cat32 l h = ucast l OR push_bit 16 (ucast h)"

definition cat64 :: "u32 \<Rightarrow> u32 \<Rightarrow> u64" where
  "cat64 l h = ucast l OR push_bit 32 (ucast h)"

lemma length_le [simp]: "length (le16 v) = 2" "length (le32 w) = 4" "length (le64 x) = 8"
  by (simp_all add: le16_def le32_def le64_def)

lemma cat16_split: "cat16 (ucast w) (ucast (drop_bit 8 w)) = w"
  by (rule bit_word_eqI) (auto simp: cat16_def bit_simps)

lemma cat32_split: "cat32 (ucast w) (ucast (drop_bit 16 w)) = w"
  by (rule bit_word_eqI) (auto simp: cat32_def bit_simps)

lemma cat64_split: "cat64 (ucast w) (ucast (drop_bit 32 w)) = w"
  by (rule bit_word_eqI) (auto simp: cat64_def bit_simps)

section \<open>Reading and writing\<close>

definition rd16 :: "phys \<Rightarrow> u64 \<Rightarrow> u16" where
  "rd16 m a = cat16 (m a) (m (a + 1))"

definition rd32 :: "phys \<Rightarrow> u64 \<Rightarrow> u32" where
  "rd32 m a = cat32 (rd16 m a) (rd16 m (a + 2))"

definition rd64 :: "phys \<Rightarrow> u64 \<Rightarrow> u64" where
  "rd64 m a = cat64 (rd32 m a) (rd32 m (a + 4))"

definition write_bytes :: "phys \<Rightarrow> u64 \<Rightarrow> u8 list \<Rightarrow> phys" where
  "write_bytes m a bs = (\<lambda>x. if unat (x - a) < length bs then bs ! unat (x - a) else m x)"

abbreviation wr16 :: "phys \<Rightarrow> u64 \<Rightarrow> u16 \<Rightarrow> phys" where
  "wr16 m a v \<equiv> write_bytes m a (le16 v)"

abbreviation wr32 :: "phys \<Rightarrow> u64 \<Rightarrow> u32 \<Rightarrow> phys" where
  "wr32 m a v \<equiv> write_bytes m a (le32 v)"

lemma write_bytes_apply:
  "write_bytes m a bs x = (if unat (x - a) < length bs then bs ! unat (x - a) else m x)"
  by (simp add: write_bytes_def)

lemma write_bytes_out: "length bs \<le> unat (x - a) \<Longrightarrow> write_bytes m a bs x = m x"
  by (simp add: write_bytes_def)

lemma rd16_wr16 [simp]: "rd16 (wr16 m a v) a = v"
  by (simp add: rd16_def write_bytes_apply le16_def cat16_split)

lemma rd32_wr32 [simp]: "rd32 (wr32 m a v) a = v"
  by (simp add: rd32_def rd16_def write_bytes_apply le32_def le16_def cat16_split cat32_split add.assoc)

lemma rd64_wr64 [simp]: "rd64 (write_bytes m a (le64 v)) a = v"
  by (simp add: rd64_def rd32_def rd16_def write_bytes_apply le64_def le32_def le16_def
      cat16_split cat32_split cat64_split add.assoc)

section \<open>Copies\<close>

text \<open>\<^verbatim>\<open>memcpy\<close> between the host's memory and the mapped storage, which is a region of its own.\<close>

type_synonym storage = "nat \<Rightarrow> u8"

definition copy_in :: "storage \<Rightarrow> nat \<Rightarrow> phys \<Rightarrow> u64 \<Rightarrow> nat \<Rightarrow> storage" where
  "copy_in st off m src n = (\<lambda>i. if off \<le> i \<and> i < off + n then m (src + of_nat (i - off)) else st i)"

definition copy_out :: "phys \<Rightarrow> u64 \<Rightarrow> storage \<Rightarrow> nat \<Rightarrow> nat \<Rightarrow> phys" where
  "copy_out m dst st off n = (\<lambda>a. if unat (a - dst) < n then st (off + unat (a - dst)) else m a)"

end
