(* ===== verification/NVMe_Data.thy ===== *)
theory NVMe_Data
  imports NVMe Phys
begin

text \<open>
  The entries of \<^verbatim>\<open>nvme.h\<close> as they lie in memory: a command is read from the 64 bytes of its
  slot, the data structures of the identify command are records with their byte layout.
\<close>

section \<open>Commands and completions in memory\<close>

definition read_command :: "phys \<Rightarrow> u64 \<Rightarrow> nvme_command" where
  "read_command m a =
     \<lparr>opcode = m a, cmd_flags = m (a + 1), command_id = rd16 m (a + 2), nsid = rd32 m (a + 4),
      cdw2 = rd32 m (a + 8), cdw3 = rd32 m (a + 12), metadata = rd64 m (a + 16), prp1 = rd64 m (a + 24),
      prp2 = rd64 m (a + 32), cdw10 = rd32 m (a + 40), cdw11 = rd32 m (a + 44), cdw12 = rd32 m (a + 48),
      cdw13 = rd32 m (a + 52), cdw14 = rd32 m (a + 56), cdw15 = rd32 m (a + 60)\<rparr>"

definition command_bytes :: "nvme_command \<Rightarrow> u8 list" where
  "command_bytes c =
     [opcode c, cmd_flags c] @ le16 (command_id c) @ le32 (nsid c) @ le32 (cdw2 c) @ le32 (cdw3 c) @
     le64 (metadata c) @ le64 (prp1 c) @ le64 (prp2 c) @ le32 (cdw10 c) @ le32 (cdw11 c) @
     le32 (cdw12 c) @ le32 (cdw13 c) @ le32 (cdw14 c) @ le32 (cdw15 c)"

definition read_completion :: "phys \<Rightarrow> u64 \<Rightarrow> nvme_completion" where
  "read_completion m a =
     \<lparr>cqe_result = rd32 m a, cqe_rsvd = rd32 m (a + 4), cqe_sq_head = rd16 m (a + 8),
      cqe_sq_id = rd16 m (a + 10), cqe_command_id = rd16 m (a + 12), cqe_status = rd16 m (a + 14)\<rparr>"

text \<open>Stores to the fields of a completion entry at address \<open>a\<close>.\<close>

definition set_cqe_result :: "u64 \<Rightarrow> u32 \<Rightarrow> phys \<Rightarrow> phys" where
  "set_cqe_result a v m = wr32 m a v"

definition set_cqe_sq_head :: "u64 \<Rightarrow> u16 \<Rightarrow> phys \<Rightarrow> phys" where
  "set_cqe_sq_head a v m = wr16 m (a + 8) v"

definition set_cqe_sq_id :: "u64 \<Rightarrow> u16 \<Rightarrow> phys \<Rightarrow> phys" where
  "set_cqe_sq_id a v m = wr16 m (a + 10) v"

definition set_cqe_command_id :: "u64 \<Rightarrow> u16 \<Rightarrow> phys \<Rightarrow> phys" where
  "set_cqe_command_id a v m = wr16 m (a + 12) v"

definition set_cqe_status :: "u64 \<Rightarrow> u16 \<Rightarrow> phys \<Rightarrow> phys" where
  "set_cqe_status a v m = wr16 m (a + 14) v"

lemmas set_cqe_defs = set_cqe_result_def set_cqe_sq_head_def set_cqe_sq_id_def set_cqe_command_id_def
  set_cqe_status_def

lemma read_set_cqe [simp]:
  "read_completion (set_cqe_result a x m) a = (read_completion m a)\<lparr>cqe_result := x\<rparr>"
  "read_completion (set_cqe_sq_head a v m) a = (read_completion m a)\<lparr>cqe_sq_head := v\<rparr>"
  "read_completion (set_cqe_sq_id a v m) a = (read_completion m a)\<lparr>cqe_sq_id := v\<rparr>"
  "read_completion (set_cqe_command_id a v m) a = (read_completion m a)\<lparr>cqe_command_id := v\<rparr>"
  "read_completion (set_cqe_status a v m) a = (read_completion m a)\<lparr>cqe_status := v\<rparr>"
  by (simp_all add: set_cqe_defs read_completion_def rd32_def rd16_def le32_def le16_def
      cat16_split cat32_split write_bytes_def unsigned_minus_1_eq_mask mask_eq_exp_minus_1 add.assoc)

text \<open>A field store changes only the bytes of its entry.\<close>

lemma set_cqe_frame:
  assumes "16 \<le> unat (x - a)"
  shows "set_cqe_result a r m x = m x" "set_cqe_sq_head a v m x = m x" "set_cqe_sq_id a v m x = m x"
    "set_cqe_command_id a v m x = m x" "set_cqe_status a v m x = m x"
proof -
  have "k + 2 \<le> 16 \<Longrightarrow> 2 \<le> unat (x - (a + of_nat k))" for k :: nat
  proof -
    assume k: "k + 2 \<le> 16"
    then have "unat (of_nat k :: u64) = k" by (simp add: unat_of_nat)
    moreover have "x - (a + of_nat k) = (x - a) - of_nat k" by simp
    moreover have "(of_nat k :: u64) \<le> x - a" using assms k calculation(1) by (simp add: word_le_nat_alt)
    ultimately have "unat (x - (a + of_nat k)) = unat (x - a) - k" by (metis unat_sub)
    then show ?thesis using assms k by simp
  qed
  from this [of 8] this [of 10] this [of 12] this [of 14] assms
  show "set_cqe_result a r m x = m x" "set_cqe_sq_head a v m x = m x" "set_cqe_sq_id a v m x = m x"
    "set_cqe_command_id a v m x = m x" "set_cqe_status a v m x = m x"
    by (simp_all add: set_cqe_defs write_bytes_out)
qed

lemma command_bytes_length [simp]: "length (command_bytes c) = 64"
  by (simp add: command_bytes_def)

lemma read_command_bytes: "read_command (write_bytes m a (command_bytes c)) a = c"
proof -
  have "c = \<lparr>opcode = opcode c, cmd_flags = cmd_flags c, command_id = command_id c, nsid = nsid c,
      cdw2 = cdw2 c, cdw3 = cdw3 c, metadata = metadata c, prp1 = prp1 c,
      prp2 = prp2 c, cdw10 = cdw10 c, cdw11 = cdw11 c, cdw12 = cdw12 c,
      cdw13 = cdw13 c, cdw14 = cdw14 c, cdw15 = cdw15 c\<rparr>" by simp
  then show ?thesis
    by (simp add: read_command_def command_bytes_def rd16_def rd32_def rd64_def write_bytes_apply
        le16_def le32_def le64_def cat16_split cat32_split cat64_split add.assoc)
qed

section \<open>The data structures of identify\<close>

record nvme_id_power_state =
  ps_max_power :: u16
  ps_rsvd2 :: u8
  ps_flags :: u8
  ps_entry_lat :: u32
  ps_exit_lat :: u32
  ps_read_tput :: u8
  ps_read_lat :: u8
  ps_write_tput :: u8
  ps_write_lat :: u8
  ps_idle_power :: u16
  ps_idle_scale :: u8
  ps_rsvd19 :: u8
  ps_active_power :: u16
  ps_active_work_scale :: u8
  ps_rsvd23 :: "u8 list"

definition power_state_bytes :: "nvme_id_power_state \<Rightarrow> u8 list" where
  "power_state_bytes p =
     le16 (ps_max_power p) @ [ps_rsvd2 p, ps_flags p] @ le32 (ps_entry_lat p) @ le32 (ps_exit_lat p) @
     [ps_read_tput p, ps_read_lat p, ps_write_tput p, ps_write_lat p] @ le16 (ps_idle_power p) @
     [ps_idle_scale p, ps_rsvd19 p] @ le16 (ps_active_power p) @ [ps_active_work_scale p] @ ps_rsvd23 p"

record nvme_id_ctrl =
  ic_vid :: u16
  ic_ssvid :: u16
  ic_sn :: "u8 list"
  ic_mn :: "u8 list"
  ic_fr :: "u8 list"
  ic_rab :: u8
  ic_ieee :: "u8 list"
  ic_mic :: u8
  ic_mdts :: u8
  ic_cntlid :: u16
  ic_ver :: u32
  ic_rsvd84 :: "u8 list"
  ic_oacs :: u16
  ic_acl :: u8
  ic_aerl :: u8
  ic_frmw :: u8
  ic_lpa :: u8
  ic_elpe :: u8
  ic_npss :: u8
  ic_avscc :: u8
  ic_apsta :: u8
  ic_wctemp :: u16
  ic_cctemp :: u16
  ic_rsvd270 :: "u8 list"
  ic_sqes :: u8
  ic_cqes :: u8
  ic_rsvd514 :: "u8 list"
  ic_nn :: u32
  ic_oncs :: u16
  ic_fuses :: u16
  ic_fna :: u8
  ic_vwc :: u8
  ic_awun :: u16
  ic_awupf :: u16
  ic_nvscc :: u8
  ic_rsvd531 :: u8
  ic_acwu :: u16
  ic_rsvd534 :: "u8 list"
  ic_sgls :: u32
  ic_rsvd540 :: "u8 list"
  ic_psd :: "nvme_id_power_state list"
  ic_vs :: "u8 list"

definition id_ctrl_bytes :: "nvme_id_ctrl \<Rightarrow> u8 list" where
  "id_ctrl_bytes c =
     (le16 (ic_vid c) @ le16 (ic_ssvid c) @ ic_sn c @ ic_mn c @ ic_fr c @ [ic_rab c] @ ic_ieee c @
      [ic_mic c, ic_mdts c] @ le16 (ic_cntlid c) @ le32 (ic_ver c) @ ic_rsvd84 c) @
     (le16 (ic_oacs c) @ [ic_acl c, ic_aerl c, ic_frmw c, ic_lpa c, ic_elpe c, ic_npss c, ic_avscc c,
      ic_apsta c] @ le16 (ic_wctemp c) @ le16 (ic_cctemp c) @ ic_rsvd270 c) @
     ([ic_sqes c, ic_cqes c] @ ic_rsvd514 c @ le32 (ic_nn c) @ le16 (ic_oncs c) @ le16 (ic_fuses c) @
      [ic_fna c, ic_vwc c] @ le16 (ic_awun c) @ le16 (ic_awupf c) @ [ic_nvscc c, ic_rsvd531 c] @
      le16 (ic_acwu c) @ ic_rsvd534 c @ le32 (ic_sgls c) @ ic_rsvd540 c) @
     concat (map power_state_bytes (ic_psd c)) @ ic_vs c"

record nvme_lbaf =
  lbaf_ms :: u16
  lbaf_ds :: u8
  lbaf_rp :: u8

definition lbaf_bytes :: "nvme_lbaf \<Rightarrow> u8 list" where
  "lbaf_bytes f = le16 (lbaf_ms f) @ [lbaf_ds f, lbaf_rp f]"

record nvme_id_ns =
  ns_nsze :: u64
  ns_ncap :: u64
  ns_nuse :: u64
  ns_nsfeat :: u8
  ns_nlbaf :: u8
  ns_flbas :: u8
  ns_mc :: u8
  ns_dpc :: u8
  ns_dps :: u8
  ns_nmic :: u8
  ns_rescap :: u8
  ns_fpi :: u8
  ns_rsvd33 :: u8
  ns_nawun :: u16
  ns_nawupf :: u16
  ns_nacwu :: u16
  ns_nabsn :: u16
  ns_nabo :: u16
  ns_nabspf :: u16
  ns_rsvd46 :: u16
  ns_nvmcap :: "u64 list"
  ns_rsvd64 :: "u8 list"
  ns_nguid :: "u8 list"
  ns_eui64 :: "u8 list"
  ns_lbaf :: "nvme_lbaf list"
  ns_rsvd192 :: "u8 list"
  ns_vs :: "u8 list"

definition id_ns_bytes :: "nvme_id_ns \<Rightarrow> u8 list" where
  "id_ns_bytes n =
     (le64 (ns_nsze n) @ le64 (ns_ncap n) @ le64 (ns_nuse n) @ [ns_nsfeat n, ns_nlbaf n, ns_flbas n,
      ns_mc n, ns_dpc n, ns_dps n, ns_nmic n, ns_rescap n, ns_fpi n, ns_rsvd33 n] @ le16 (ns_nawun n) @
      le16 (ns_nawupf n) @ le16 (ns_nacwu n) @ le16 (ns_nabsn n) @ le16 (ns_nabo n) @
      le16 (ns_nabspf n) @ le16 (ns_rsvd46 n)) @
     concat (map le64 (ns_nvmcap n)) @ ns_rsvd64 n @ ns_nguid n @ ns_eui64 n @
     concat (map lbaf_bytes (ns_lbaf n)) @ ns_rsvd192 n @ ns_vs n"

definition NVME_LBAF_RP_BEST :: u8 where "NVME_LBAF_RP_BEST = 0"
definition NVME_LBAF_RP_GOOD :: u8 where "NVME_LBAF_RP_GOOD = 2"

text \<open>The structures after \<^verbatim>\<open>memset\<close> to zero.\<close>

definition zero_power_state :: nvme_id_power_state where
  "zero_power_state =
     \<lparr>ps_max_power = 0, ps_rsvd2 = 0, ps_flags = 0, ps_entry_lat = 0, ps_exit_lat = 0, ps_read_tput = 0,
      ps_read_lat = 0, ps_write_tput = 0, ps_write_lat = 0, ps_idle_power = 0, ps_idle_scale = 0,
      ps_rsvd19 = 0, ps_active_power = 0, ps_active_work_scale = 0, ps_rsvd23 = replicate 9 0\<rparr>"

definition zero_id_ctrl :: nvme_id_ctrl where
  "zero_id_ctrl =
     \<lparr>ic_vid = 0, ic_ssvid = 0, ic_sn = replicate 20 0, ic_mn = replicate 40 0, ic_fr = replicate 8 0,
      ic_rab = 0, ic_ieee = replicate 3 0, ic_mic = 0, ic_mdts = 0, ic_cntlid = 0, ic_ver = 0,
      ic_rsvd84 = replicate 172 0, ic_oacs = 0, ic_acl = 0, ic_aerl = 0, ic_frmw = 0, ic_lpa = 0,
      ic_elpe = 0, ic_npss = 0, ic_avscc = 0, ic_apsta = 0, ic_wctemp = 0, ic_cctemp = 0,
      ic_rsvd270 = replicate 242 0, ic_sqes = 0, ic_cqes = 0, ic_rsvd514 = replicate 2 0, ic_nn = 0,
      ic_oncs = 0, ic_fuses = 0, ic_fna = 0, ic_vwc = 0, ic_awun = 0, ic_awupf = 0, ic_nvscc = 0,
      ic_rsvd531 = 0, ic_acwu = 0, ic_rsvd534 = replicate 2 0, ic_sgls = 0, ic_rsvd540 = replicate 1508 0,
      ic_psd = replicate 32 zero_power_state, ic_vs = replicate 1024 0\<rparr>"

definition zero_lbaf :: nvme_lbaf where
  "zero_lbaf = \<lparr>lbaf_ms = 0, lbaf_ds = 0, lbaf_rp = 0\<rparr>"

definition zero_id_ns :: nvme_id_ns where
  "zero_id_ns =
     \<lparr>ns_nsze = 0, ns_ncap = 0, ns_nuse = 0, ns_nsfeat = 0, ns_nlbaf = 0, ns_flbas = 0, ns_mc = 0,
      ns_dpc = 0, ns_dps = 0, ns_nmic = 0, ns_rescap = 0, ns_fpi = 0, ns_rsvd33 = 0, ns_nawun = 0,
      ns_nawupf = 0, ns_nacwu = 0, ns_nabsn = 0, ns_nabo = 0, ns_nabspf = 0, ns_rsvd46 = 0,
      ns_nvmcap = [0, 0], ns_rsvd64 = replicate 40 0, ns_nguid = replicate 16 0, ns_eui64 = replicate 8 0,
      ns_lbaf = replicate 16 zero_lbaf, ns_rsvd192 = replicate 192 0, ns_vs = replicate 3712 0\<rparr>"

end
