(* ===== verification/NVMeV.thy ===== *)
theory NVMeV
  imports FTL NVMe_Data
begin

text \<open>
  The state of the device, \<^verbatim>\<open>nvmev.h\<close> and the register file of \<^verbatim>\<open>pci.h\<close>: queues, request tables,
  configuration and \<^verbatim>\<open>struct nvmev_dev\<close>, with what surrounds it (the translation layer, the
  host's memory, the clock, the interrupt descriptors of the PCI device).
\<close>

unbundle bit_operations_syntax

definition NR_MAX_IO_QUEUE :: nat where "NR_MAX_IO_QUEUE = 72"
definition NR_MAX_PARALLEL_IO :: nat where "NR_MAX_PARALLEL_IO = 16384"

definition PAGE_OFFSET_MASK :: u64 where
  "PAGE_OFFSET_MASK = of_nat PAGE_SIZE - 1"

text \<open>\<open>-1\<close> in an \<^verbatim>\<open>unsigned int\<close> that links entries.\<close>

definition NIL :: u32 where "NIL = - 1"

section \<open>Queues\<close>

record nvmev_sq_stat =
  nr_dispatched :: u32
  nr_dispatch :: u32
  nr_in_flight :: u32
  max_nr_in_flight :: u32
  total_io :: u64

record nvmev_submission_queue =
  sq_qid :: int
  sq_cqid :: int
  sq_priority :: int
  sq_phys_contig :: bool
  sq_queue_size :: int
  sq_stat :: nvmev_sq_stat
  sq_sq :: "u64 list"

record nvmev_completion_queue =
  cq_qid :: int
  cq_irq_vector :: int
  cq_irq_enabled :: bool
  cq_interrupt_ready :: bool
  cq_phys_contig :: bool
  cq_queue_size :: int
  cq_phase :: int
  cq_head :: int
  cq_tail :: int
  cq_cq :: "u64 list"

text \<open>\<open>nvme_sq\<close> and \<open>nvme_cq\<close> are \<^const>\<open>None\<close> while they are NULL.\<close>

record nvmev_admin_queue =
  aq_phase :: int
  aq_sq_depth :: int
  aq_cq_depth :: int
  aq_cq_head :: int
  nvme_sq :: "u64 list option"
  nvme_cq :: "u64 list option"

definition NR_SQE_PER_PAGE :: nat where "NR_SQE_PER_PAGE = PAGE_SIZE div 64"
definition NR_CQE_PER_PAGE :: nat where "NR_CQE_PER_PAGE = PAGE_SIZE div 16"

definition SQ_ENTRY_TO_PAGE_NUM :: "nat \<Rightarrow> nat" where
  "SQ_ENTRY_TO_PAGE_NUM e = e div NR_SQE_PER_PAGE"

definition CQ_ENTRY_TO_PAGE_NUM :: "nat \<Rightarrow> nat" where
  "CQ_ENTRY_TO_PAGE_NUM e = e div NR_CQE_PER_PAGE"

definition SQ_ENTRY_TO_PAGE_OFFSET :: "nat \<Rightarrow> nat" where
  "SQ_ENTRY_TO_PAGE_OFFSET e = e mod NR_SQE_PER_PAGE"

definition CQ_ENTRY_TO_PAGE_OFFSET :: "nat \<Rightarrow> nat" where
  "CQ_ENTRY_TO_PAGE_OFFSET e = e mod NR_CQE_PER_PAGE"

text \<open>
  The macros \<open>sq_entry\<close> and \<open>cq_entry\<close>: the address of an entry in a list of pages. The index
  is converted to an unsigned type, so a negative one lies outside every queue.
\<close>

definition sq_entry :: "u64 list \<Rightarrow> int \<Rightarrow> u64 option" where
  "sq_entry pages e =
     (if e < 0 then None
      else do { p \<leftarrow> arr_get pages (SQ_ENTRY_TO_PAGE_NUM (nat e));
        Some (p + of_nat (64 * SQ_ENTRY_TO_PAGE_OFFSET (nat e))) })"

definition cq_entry :: "u64 list \<Rightarrow> int \<Rightarrow> u64 option" where
  "cq_entry pages e =
     (if e < 0 then None
      else do { p \<leftarrow> arr_get pages (CQ_ENTRY_TO_PAGE_NUM (nat e));
        Some (p + of_nat (16 * CQ_ENTRY_TO_PAGE_OFFSET (nat e))) })"

section \<open>Configuration and requests\<close>

record nvmev_config =
  memmap_start :: u64
  memmap_size :: u64
  storage_start :: u64
  storage_size :: u64
  read_delay :: u32
  read_time :: u32
  read_trailing :: u32
  write_delay :: u32
  write_time :: u32
  write_trailing :: u32
  nr_io_units :: u32
  io_unit_shift :: u32
  cfg_cpu_nr_dispatcher :: u32
  nr_io_cpu :: u32
  cpu_nr_proc_io :: "u32 list"

record nvmev_proc_table =
  pe_sqid :: int
  pe_cqid :: int
  pe_sq_entry :: int
  pe_command_id :: u32
  pe_nsecs_start :: u64
  pe_nsecs_target :: u64
  pe_nsecs_enqueue :: u64
  pe_nsecs_copy_start :: u64
  pe_nsecs_copy_done :: u64
  pe_nsecs_cq_filled :: u64
  pe_is_copied :: bool
  pe_is_completed :: bool
  pe_next :: u32
  pe_prev :: u32

text \<open>The task pointer of the worker is its index, its name the number in it.\<close>

record nvmev_proc_info =
  proc_table :: "nvmev_proc_table list"
  free_seq :: u32
  free_seq_end :: u32
  io_seq :: u32
  io_seq_end :: u32
  proc_io_nsecs :: u64
  nvmev_io_worker :: nat

section \<open>Registers\<close>

text \<open>
  \<^verbatim>\<open>struct __nvme_bar\<close>, which is also the \<open>u_\<close> view of the unions of \<^verbatim>\<open>struct nvme_ctrl_regs\<close>;
  the bit fields of the latter that the code uses are functions of the words.
\<close>

record nvme_bar =
  bar_cap :: u64
  bar_vs :: u32
  bar_intms :: u32
  bar_intmc :: u32
  bar_cc :: u32
  bar_rsvd1 :: u32
  bar_csts :: u32
  bar_nssr :: u32
  bar_aqa :: u32
  bar_asq :: u64
  bar_acq :: u64
  bar_cmbloc :: u32
  bar_cmbsz :: u32

definition cc_en :: "nvme_bar \<Rightarrow> u32" where
  "cc_en b = bar_cc b AND 1"

definition cc_shn :: "nvme_bar \<Rightarrow> u32" where
  "cc_shn b = drop_bit 14 (bar_cc b) AND 3"

definition aqa_asqs :: "nvme_bar \<Rightarrow> u32" where
  "aqa_asqs b = bar_aqa b AND 0xFFF"

definition aqa_acqs :: "nvme_bar \<Rightarrow> u32" where
  "aqa_acqs b = drop_bit 16 (bar_aqa b) AND 0xFFF"

definition csts_rdy :: "nvme_bar \<Rightarrow> u32" where
  "csts_rdy b = bar_csts b AND 1"

definition csts_shst :: "nvme_bar \<Rightarrow> u32" where
  "csts_shst b = drop_bit 2 (bar_csts b) AND 3"

definition set_csts_rdy :: "u32 \<Rightarrow> nvme_bar \<Rightarrow> nvme_bar" where
  "set_csts_rdy v b = b\<lparr>bar_csts := (bar_csts b AND NOT 1) OR (v AND 1)\<rparr>"

definition set_csts_shst :: "u32 \<Rightarrow> nvme_bar \<Rightarrow> nvme_bar" where
  "set_csts_shst v b = b\<lparr>bar_csts := (bar_csts b AND NOT 0xC) OR push_bit 2 (v AND 3)\<rparr>"

section \<open>The device\<close>

text \<open>
  What leaves the device: a line of the kernel log, by its place in the source, and an
  interrupt sent to a processor with a vector.
\<close>

datatype dev_event = KernelLog string nat | SendIPI u32 u32

text \<open>One MSI-X descriptor of the PCI device: entry number, destination APIC id, vector.\<close>

record msi_desc =
  entry_nr :: int
  dest_apicid :: u32
  irq_vector_nr :: u32

text \<open>
  \<^verbatim>\<open>struct nvmev_dev\<close>. \<open>local_clock n\<close> is the value of the \<open>n\<close>-th call of \<^verbatim>\<open>local_clock\<close>; the storage is
  mapped for \<open>storage_size\<close> bytes.
\<close>

record nvmev_dev =
  virtDev :: "u8 list"
  config :: nvmev_config
  storage_mapped :: storage
  proc_info :: "nvmev_proc_info list"
  proc_turn :: u32
  msix_enabled :: bool
  old_bar :: nvme_bar
  bar :: nvme_bar
  old_dbs :: "u32 list"
  dbs :: "u32 list"
  nr_ns :: int
  nr_sq :: int
  nr_cq :: int
  admin_q :: "nvmev_admin_queue option"
  sqes :: "nvmev_submission_queue option list"
  cqes :: "nvmev_completion_queue option list"
  io_unit_stat :: "u64 list"
  dev_ftl :: ssd
  dev_mem :: phys
  local_clock :: "nat \<Rightarrow> u64"
  nr_local_clock :: nat
  msi_entries :: "msi_desc list"
  apicid_to_cpuid :: "u32 list"
  dev_events :: "dev_event list"

definition dev_log :: "string \<Rightarrow> nat \<Rightarrow> nvmev_dev \<Rightarrow> nvmev_dev" where
  "dev_log f l d = d\<lparr>dev_events := dev_events d @ [KernelLog f l]\<rparr>"

text \<open>\<^verbatim>\<open>WARN_ON_ONCE\<close>: only the first warning of its line is logged.\<close>

definition dev_log_once :: "string \<Rightarrow> nat \<Rightarrow> nvmev_dev \<Rightarrow> nvmev_dev" where
  "dev_log_once f l d = (if KernelLog f l \<in> set (dev_events d) then d else dev_log f l d)"

definition get_local_clock :: "nvmev_dev \<Rightarrow> u64 \<times> nvmev_dev" where
  "get_local_clock d = (local_clock d (nr_local_clock d), d\<lparr>nr_local_clock := Suc (nr_local_clock d)\<rparr>)"

text \<open>\<^verbatim>\<open>__get_wallclock\<close> reads the clock of the processor that the translation layer reads too.\<close>

definition get_wallclock :: "nvmev_dev \<Rightarrow> u64 \<times> nvmev_dev" where
  "get_wallclock d = (let (t, s) = get_ioclock (dev_ftl d) in (t, d\<lparr>dev_ftl := s\<rparr>))"

text \<open>A pointer of \<open>sqes\<close> or \<open>cqes\<close> that is followed: outside the array or NULL it is undefined.\<close>

definition get_queue :: "'a option list \<Rightarrow> int \<Rightarrow> 'a option" where
  "get_queue qs qid = (if qid < 0 then None else arr_get qs (nat qid) \<bind> id)"

definition put_sq :: "nvmev_dev \<Rightarrow> int \<Rightarrow> nvmev_submission_queue \<Rightarrow> nvmev_dev" where
  "put_sq d qid q = d\<lparr>sqes := (sqes d)[nat qid := Some q]\<rparr>"

definition put_cq :: "nvmev_dev \<Rightarrow> int \<Rightarrow> nvmev_completion_queue \<Rightarrow> nvmev_dev" where
  "put_cq d qid q = d\<lparr>cqes := (cqes d)[nat qid := Some q]\<rparr>"

text \<open>The addresses of \<open>n\<close> consecutive pages, starting with the page of \<open>p\<close>.\<close>

definition page_list :: "u64 \<Rightarrow> nat \<Rightarrow> u64 list" where
  "page_list p n = map (\<lambda>i. push_bit PAGE_SHIFT (drop_bit PAGE_SHIFT p + of_nat i)) [0..<n]"

definition DIV_ROUND_UP :: "nat \<Rightarrow> nat \<Rightarrow> nat" where
  "DIV_ROUND_UP n d = (n + d - 1) div d"

text \<open>The conversion of an unsigned 32-bit value to \<^verbatim>\<open>int\<close>.\<close>

definition int_of_u32 :: "u32 \<Rightarrow> int" where
  "int_of_u32 w = sint w"

lemma int_of_u32_of_nat: "n < 2 ^ 31 \<Longrightarrow> int_of_u32 (of_nat n) = int n"
  by (simp add: int_of_u32_def signed_of_nat signed_take_bit_int_eq_self)

end
