(* ===== verification/IO_Table.thy ===== *)
theory IO_Table
  imports NVMeV
begin

text \<open>
  The request table of an I/O worker (\<^verbatim>\<open>io.c\<close>): a free list and a list of requests in flight,
  both threaded through the entries of \<open>proc_table\<close>; the latter is doubly linked and ordered by
  completion time. Here are its three operations and their effect on the two lists.
\<close>

section \<open>Entries\<close>

definition pe_get :: "nvmev_proc_info \<Rightarrow> u32 \<Rightarrow> nvmev_proc_table option" where
  "pe_get tb i = arr_get (proc_table tb) (unat i)"

definition pe_upd :: "u32 \<Rightarrow> (nvmev_proc_table \<Rightarrow> nvmev_proc_table) \<Rightarrow> nvmev_proc_info \<Rightarrow> nvmev_proc_info option" where
  "pe_upd i f tb = do {
     pe \<leftarrow> arr_get (proc_table tb) (unat i);
     Some (tb\<lparr>proc_table := (proc_table tb)[unat i := f pe]\<rparr>)
   }"

section \<open>Operations\<close>

text \<open>The table that \<^verbatim>\<open>NVMEV_IO_PROC_INIT\<close> builds for a worker.\<close>

definition zero_entry :: nvmev_proc_table where
  "zero_entry = \<lparr>pe_sqid = 0, pe_cqid = 0, pe_sq_entry = 0, pe_command_id = 0, pe_nsecs_start = 0,
     pe_nsecs_target = 0, pe_nsecs_enqueue = 0, pe_nsecs_copy_start = 0, pe_nsecs_copy_done = 0,
     pe_nsecs_cq_filled = 0, pe_is_copied = False, pe_is_completed = False, pe_next = 0, pe_prev = 0\<rparr>"

definition io_proc_info :: "nat \<Rightarrow> nvmev_proc_info" where
  "io_proc_info proc_idx =
     (let tbl = map (\<lambda>i. zero_entry\<lparr>pe_next := of_nat i + 1, pe_prev := of_nat i - 1\<rparr>) [0..<NR_MAX_PARALLEL_IO] in
      \<lparr>proc_table = tbl[NR_MAX_PARALLEL_IO - 1 := (tbl ! (NR_MAX_PARALLEL_IO - 1))\<lparr>pe_next := NIL\<rparr>],
       free_seq = 0, free_seq_end = of_nat (NR_MAX_PARALLEL_IO - 1), io_seq = NIL, io_seq_end = NIL,
       proc_io_nsecs = 0, nvmev_io_worker = proc_idx\<rparr>)"

text \<open>
  Where to insert: from the tail back to the first entry that is due already or not later
  than the new request; \<^const>\<open>NIL\<close> is the place before the head.
\<close>

partial_function (option) enqueue_pos :: "nvmev_proc_info \<Rightarrow> u64 \<Rightarrow> u32 \<Rightarrow> u32 option" where
  "enqueue_pos tb nsecs_target cur =
     (if cur = NIL then Some NIL
      else do {
        pe \<leftarrow> pe_get tb cur;
        if pe_nsecs_target pe \<le> proc_io_nsecs tb then Some cur
        else if pe_nsecs_target pe \<le> nsecs_target then Some cur
        else enqueue_pos tb nsecs_target (pe_prev pe)
      })"

declare enqueue_pos.simps [code]

definition enqueue_link :: "u32 \<Rightarrow> u64 \<Rightarrow> nvmev_proc_info \<Rightarrow> nvmev_proc_info option" where
  "enqueue_link entry nsecs_target tb =
     (if io_seq tb = NIL then Some (tb\<lparr>io_seq := entry, io_seq_end := entry\<rparr>)
      else do {
        cur \<leftarrow> enqueue_pos tb nsecs_target (io_seq_end tb);
        if cur = NIL then do {
          tb \<leftarrow> pe_upd (io_seq tb) (\<lambda>pe. pe\<lparr>pe_prev := entry\<rparr>) tb;
          tb \<leftarrow> pe_upd entry (\<lambda>pe. pe\<lparr>pe_next := io_seq tb\<rparr>) tb;
          Some (tb\<lparr>io_seq := entry\<rparr>)
        } else do {
          pc \<leftarrow> pe_get tb cur;
          if pe_next pc = NIL then do {
            tb \<leftarrow> pe_upd entry (\<lambda>pe. pe\<lparr>pe_prev := cur\<rparr>) tb;
            pe_upd cur (\<lambda>pe. pe\<lparr>pe_next := entry\<rparr>) (tb\<lparr>io_seq_end := entry\<rparr>)
          } else do {
            tb \<leftarrow> pe_upd entry (\<lambda>pe. pe\<lparr>pe_prev := cur\<rparr>) tb;
            pc \<leftarrow> pe_get tb cur;
            tb \<leftarrow> pe_upd entry (\<lambda>pe. pe\<lparr>pe_next := pe_next pc\<rparr>) tb;
            pe \<leftarrow> pe_get tb entry;
            tb \<leftarrow> pe_upd (pe_next pe) (\<lambda>pe. pe\<lparr>pe_prev := entry\<rparr>) tb;
            pe_upd cur (\<lambda>pe. pe\<lparr>pe_next := entry\<rparr>) tb
          }
        }
      })"

text \<open>
  \<^verbatim>\<open>__enqueue_io_req\<close> on the table of the worker whose turn it is: \<open>Inl\<close> when the table is full,
  otherwise the table with the request, whose entry \<open>req\<close> fills.
\<close>

definition enqueue_entry :: "(nvmev_proc_table \<Rightarrow> nvmev_proc_table) \<Rightarrow> u64 \<Rightarrow> nvmev_proc_info \<Rightarrow>
    (nvmev_proc_info + nvmev_proc_info) option" where
  "enqueue_entry req nsecs_target tb = do {
     let entry = free_seq tb;
     pe \<leftarrow> pe_get tb entry;
     if NR_MAX_PARALLEL_IO \<le> unat (pe_next pe) then Some (Inl tb)
     else do {
       tb \<leftarrow> pe_upd entry (\<lambda>pe. (req pe)\<lparr>pe_nsecs_target := nsecs_target, pe_is_completed := False,
         pe_is_copied := False, pe_prev := NIL, pe_next := NIL\<rparr>) (tb\<lparr>free_seq := pe_next pe\<rparr>);
       tb \<leftarrow> enqueue_link entry nsecs_target tb;
       Some (Inr tb)
     }
   }"

text \<open>The loop of \<^verbatim>\<open>__reclaim_completed_reqs\<close>: the last entry of the completed prefix.\<close>

definition reclaimable :: "nvmev_proc_info \<Rightarrow> nvmev_proc_table \<Rightarrow> bool" where
  "reclaimable tb pe \<longleftrightarrow> pe_is_completed pe \<and> pe_is_copied pe \<and> pe_nsecs_target pe \<le> proc_io_nsecs tb"

partial_function (option) reclaim_last :: "nvmev_proc_info \<Rightarrow> u32 \<Rightarrow> u32 \<Rightarrow> u32 option" where
  "reclaim_last tb last_entry cur =
     (if cur = NIL then Some last_entry
      else do {
        pe \<leftarrow> pe_get tb cur;
        if reclaimable tb pe then reclaim_last tb cur (pe_next pe) else Some last_entry
      })"

declare reclaim_last.simps [code]

definition reclaim_one :: "nvmev_proc_info \<Rightarrow> nvmev_proc_info option" where
  "reclaim_one tb = do {
     let first_entry = io_seq tb;
     last_entry \<leftarrow> reclaim_last tb NIL first_entry;
     if last_entry \<noteq> NIL then do {
       pe \<leftarrow> pe_get tb last_entry;
       let tb = tb\<lparr>io_seq := pe_next pe\<rparr>;
       tb \<leftarrow> (if pe_next pe \<noteq> NIL then pe_upd (pe_next pe) (\<lambda>pe. pe\<lparr>pe_prev := NIL\<rparr>) tb else Some tb);
       tb \<leftarrow> pe_upd last_entry (\<lambda>pe. pe\<lparr>pe_next := NIL\<rparr>) tb;
       tb \<leftarrow> pe_upd first_entry (\<lambda>pe. pe\<lparr>pe_prev := free_seq_end tb\<rparr>) tb;
       tb \<leftarrow> pe_upd (free_seq_end tb) (\<lambda>pe. pe\<lparr>pe_next := first_entry\<rparr>) tb;
       Some (tb\<lparr>free_seq_end := last_entry\<rparr>)
     } else Some tb
   }"

end
