(* ===== verification/IO.thy ===== *)
theory IO
  imports IO_Table
begin

text \<open>
  The I/O path of the device, \<^verbatim>\<open>io.c\<close>: the dispatcher hands each command of a submission
  queue to the translation layer, works out when it completes and enters it in the table of
  a worker; the worker copies the data, posts the completion and raises the interrupt.
  Every operation is one step on \<open>nvmev_dev\<close>; the locks of a completion queue are always free
  in it. The places where the source interleaves differently are separate operations.
\<close>

section \<open>The dispatcher's side\<close>

definition sq_of :: "nvmev_dev \<Rightarrow> int \<Rightarrow> nvmev_submission_queue option" where
  "sq_of d sqid = get_queue (sqes d) sqid"

definition cq_of :: "nvmev_dev \<Rightarrow> int \<Rightarrow> nvmev_completion_queue option" where
  "cq_of d cqid = get_queue (cqes d) cqid"

text \<open>The command in slot \<open>e\<close> of queue \<open>sqid\<close>, read anew from the memory of the host.\<close>

definition sq_command :: "nvmev_dev \<Rightarrow> int \<Rightarrow> int \<Rightarrow> nvme_command option" where
  "sq_command d sqid e = do {
     sq \<leftarrow> sq_of d sqid;
     a \<leftarrow> sq_entry (sq_sq sq) e;
     Some (read_command (dev_mem d) a)
   }"

definition check_gc_and_run :: "int \<Rightarrow> int \<Rightarrow> nvmev_dev \<Rightarrow> nvmev_dev option" where
  "check_gc_and_run sqid e d = do {
     cmd \<leftarrow> sq_command d sqid e;
     if opcode cmd = nvme_cmd_write \<and> should_gc (dev_ftl d) then do {
       (r, s) \<leftarrow> do_gc False (dev_ftl d);
       Some ((dev_log ''io.c'' 47 d)\<lparr>dev_ftl := s\<rparr>)
     } else Some d
   }"

text \<open>
  \<^verbatim>\<open>__schedule_io_units\<close>, which the module keeps beside the translation layer. The request is
  spread over the units of \<open>io_unit_size\<close> bytes; \<open>stat\<close> is \<open>io_unit_stat\<close>.
\<close>

partial_function (option) schedule_loop ::
  "nvmev_config \<Rightarrow> u32 \<Rightarrow> u32 \<Rightarrow> u32 \<Rightarrow> u32 \<Rightarrow> int \<Rightarrow> u32 \<Rightarrow> u64 \<Rightarrow> u64 list \<Rightarrow> (u64 \<times> u64 list) option" where
  "schedule_loop cfg unit_size latency trailing unit n len latest stat = do {
     let latest = latest + ucast latency;
     stat \<leftarrow> arr_set stat (unat unit) latest;
     stat \<leftarrow> (if n > 0 then arr_set stat (unat unit) (latest + ucast trailing) else Some stat);
     let len = len - min len unit_size;
     let unit = (if unit + 1 \<ge> nr_io_units cfg then 0 else unit + 1);
     if len > 0 then schedule_loop cfg unit_size latency trailing unit (n - 1) len latest stat
     else Some (latest, stat)
   }"

declare schedule_loop.simps [code]

definition schedule_io_units :: "u8 \<Rightarrow> u64 \<Rightarrow> u32 \<Rightarrow> u64 \<Rightarrow> nvmev_dev \<Rightarrow> (u64 \<times> nvmev_dev) option" where
  "schedule_io_units op lba len nsecs_start d =
     (let cfg = config d; shift = unat (io_unit_shift cfg);
          unit_size = push_bit shift (1 :: u32);
          n = sint (min (nr_io_units cfg) ((len + unit_size - 1) div unit_size));
          (delay, latency, trailing) =
            (if op = nvme_cmd_write then (write_delay cfg, write_time cfg, write_trailing cfg)
             else if op = nvme_cmd_read then (read_delay cfg, read_time cfg, read_trailing cfg)
             else (0, 0, 0))
      in if shift < 9 \<or> 31 < shift \<or> nr_io_units cfg = 0 then None
         else do {
           let unit = (ucast (drop_bit (shift - 9) lba mod ucast (nr_io_units cfg)) :: u32);
           busy \<leftarrow> arr_get (io_unit_stat d) (unat unit);
           (latest, stat) \<leftarrow> schedule_loop cfg unit_size latency trailing unit n len
             (max nsecs_start busy + ucast delay) (io_unit_stat d);
           Some (latest, d\<lparr>io_unit_stat := stat\<rparr>)
         })"

definition cmd_io_size :: "nvme_command \<Rightarrow> nat" where
  "cmd_io_size cmd = push_bit 9 (unat (rw_length cmd) + 1)"

text \<open>
  \<^verbatim>\<open>__enqueue_io_req\<close>. A table that is full drops the request; \<^verbatim>\<open>WARN_ON_ONCE\<close> warns of it the first time.
\<close>

definition enqueue_io_req :: "int \<Rightarrow> int \<Rightarrow> int \<Rightarrow> u64 \<Rightarrow> u64 \<Rightarrow> nvmev_dev \<Rightarrow> nvmev_dev option" where
  "enqueue_io_req sqid cqid e nsecs_start nsecs_target d = do {
     let turn = proc_turn d;
     tb \<leftarrow> arr_get (proc_info d) (unat turn);
     pe \<leftarrow> pe_get tb (free_seq tb);
     if NR_MAX_PARALLEL_IO \<le> unat (pe_next pe) then Some (dev_log_once ''io.c'' 168 d)
     else do {
       cmd \<leftarrow> sq_command d sqid e;
       let (now, d) = get_local_clock d;
       r \<leftarrow> enqueue_entry (\<lambda>pe. pe\<lparr>pe_sqid := sqid, pe_cqid := cqid, pe_sq_entry := e,
             pe_command_id := ucast (command_id cmd), pe_nsecs_start := nsecs_start,
             pe_nsecs_enqueue := now\<rparr>) nsecs_target tb;
       let tb = (case r of Inl tb \<Rightarrow> tb | Inr tb \<Rightarrow> tb);
       Some (d\<lparr>proc_turn := (if turn + 1 = nr_io_cpu (config d) then 0 else turn + 1),
               proc_info := (proc_info d)[unat turn := tb]\<rparr>)
     }
   }"

definition reclaim_turn :: "nat \<Rightarrow> nvmev_dev \<Rightarrow> nvmev_dev option" where
  "reclaim_turn turn d = do {
     tb \<leftarrow> arr_get (proc_info d) turn;
     tb \<leftarrow> reclaim_one tb;
     Some (d\<lparr>proc_info := (proc_info d)[turn := tb]\<rparr>)
   }"

definition reclaim_completed_reqs :: "nvmev_dev \<Rightarrow> nvmev_dev option" where
  "reclaim_completed_reqs d = foldM reclaim_turn [0..<unat (nr_io_cpu (config d))] d"

definition nvmev_proc_flush :: "nvmev_dev \<Rightarrow> u64 option" where
  "nvmev_proc_flush d =
     foldM (\<lambda>i latest. do { x \<leftarrow> arr_get (io_unit_stat d) i; Some (max latest x) })
       [0..<unat (nr_io_units (config d))] 0"

text \<open>The \<open>switch\<close> of \<^verbatim>\<open>__nvmev_proc_io\<close>: the time of completion.\<close>

definition io_target :: "nvme_command \<Rightarrow> u64 \<Rightarrow> nvmev_dev \<Rightarrow> (u64 \<times> nvmev_dev) option" where
  "io_target cmd nsecs_start d =
     (if opcode cmd = nvme_cmd_write then do {
        (lat, s) \<leftarrow> ssd_write cmd nsecs_start (dev_ftl d);
        Some (nsecs_start + lat, d\<lparr>dev_ftl := s\<rparr>)
      } else if opcode cmd = nvme_cmd_read then do {
        (lat, s) \<leftarrow> ssd_read cmd nsecs_start (dev_ftl d);
        Some (nsecs_start + lat, d\<lparr>dev_ftl := s\<rparr>)
      } else if opcode cmd = nvme_cmd_flush then do {
        t \<leftarrow> nvmev_proc_flush d;
        Some (t, d)
      } else Some (0, d))"

text \<open>The size that \<^verbatim>\<open>__nvmev_proc_io\<close> returns is 0: its assignments are commented out.\<close>

definition nvmev_proc_io :: "int \<Rightarrow> int \<Rightarrow> nvmev_dev \<Rightarrow> (nat \<times> nvmev_dev) option" where
  "nvmev_proc_io sqid e d = do {
     let (nsecs_start, d) = get_wallclock d;
     sq \<leftarrow> sq_of d sqid;
     cmd \<leftarrow> sq_command d sqid e;
     (nsecs_target, d) \<leftarrow> io_target cmd nsecs_start d;
     d \<leftarrow> enqueue_io_req sqid (sq_cqid sq) e nsecs_start nsecs_target d;
     d \<leftarrow> check_gc_and_run sqid e d;
     d \<leftarrow> reclaim_completed_reqs d;
     Some (0, d)
   }"

definition upd_sq_stat :: "int \<Rightarrow> (nvmev_sq_stat \<Rightarrow> nvmev_sq_stat) \<Rightarrow> nvmev_dev \<Rightarrow> nvmev_dev option" where
  "upd_sq_stat sqid f d = do {
     sq \<leftarrow> sq_of d sqid;
     Some (put_sq d sqid (sq\<lparr>sq_stat := f (sq_stat sq)\<rparr>))
   }"

primrec proc_io_sq_loop :: "nat \<Rightarrow> int \<Rightarrow> int \<Rightarrow> nvmev_dev \<Rightarrow> nvmev_dev option" where
  "proc_io_sq_loop 0 sqid e d = Some d"
| "proc_io_sq_loop (Suc n) sqid e d = do {
     (io_size, d) \<leftarrow> nvmev_proc_io sqid e d;
     sq \<leftarrow> sq_of d sqid;
     let e = (if e + 1 = sq_queue_size sq then 0 else e + 1);
     d \<leftarrow> upd_sq_stat sqid (\<lambda>st. st\<lparr>nr_dispatched := nr_dispatched st + 1,
            nr_in_flight := nr_in_flight st + 1, total_io := total_io st + of_nat io_size\<rparr>) d;
     proc_io_sq_loop n sqid e d
   }"

definition nvmev_proc_io_sq :: "int \<Rightarrow> int \<Rightarrow> int \<Rightarrow> nvmev_dev \<Rightarrow> nvmev_dev option" where
  "nvmev_proc_io_sq sqid new_db old_db d =
     (if sqid < 0 \<or> int (length (sqes d)) \<le> sqid then None
      else case sqes d ! nat sqid of None \<Rightarrow> Some d
      | Some sq \<Rightarrow> do {
          let num_proc = wrap32 (new_db - old_db);
          let num_proc = (if num_proc < 0 then num_proc + sq_queue_size sq else num_proc);
          d \<leftarrow> proc_io_sq_loop (nat num_proc) sqid old_db d;
          upd_sq_stat sqid (\<lambda>st. st\<lparr>nr_dispatch := nr_dispatch st + 1,
            max_nr_in_flight := (if sint (max_nr_in_flight st) < sint (nr_in_flight st)
              then nr_in_flight st else max_nr_in_flight st)\<rparr>) d
        })"

text \<open>
  The loop of \<^verbatim>\<open>nvmev_proc_io_cq\<close> over the completions that the host has taken. It does not end
  when \<open>new_db\<close> lies beyond the queue.
\<close>

partial_function (option) proc_io_cq_loop :: "int \<Rightarrow> int \<Rightarrow> int \<Rightarrow> nvmev_dev \<Rightarrow> nvmev_dev option" where
  "proc_io_cq_loop cqid new_db i d =
     (if i = new_db then Some d
      else do {
        cq \<leftarrow> cq_of d cqid;
        if cq_queue_size cq \<le> i then proc_io_cq_loop cqid new_db 0 d
        else do {
          a \<leftarrow> cq_entry (cq_cq cq) i;
          d \<leftarrow> upd_sq_stat (uint (cqe_sq_id (read_completion (dev_mem d) a)))
                 (\<lambda>st. st\<lparr>nr_in_flight := nr_in_flight st - 1\<rparr>) d;
          proc_io_cq_loop cqid new_db (i + 1) d
        }
      })"

declare proc_io_cq_loop.simps [code]

definition nvmev_proc_io_cq :: "int \<Rightarrow> int \<Rightarrow> int \<Rightarrow> nvmev_dev \<Rightarrow> nvmev_dev option" where
  "nvmev_proc_io_cq cqid new_db old_db d = do {
     d \<leftarrow> proc_io_cq_loop cqid new_db old_db d;
     cq \<leftarrow> cq_of d cqid;
     Some (put_cq d cqid (cq\<lparr>cq_tail := (if new_db = -1 then cq_queue_size cq - 1 else new_db - 1)\<rparr>))
   }"

section \<open>The worker's side\<close>

text \<open>
  \<^verbatim>\<open>__do_perform_io\<close>. The loop state: numbers of PRP entries taken and of list entries taken,
  the list once it is mapped, the offset in the page (kept from one round to the next, as in
  the source), the offset in the storage and the bytes that remain.
\<close>

record io_loop =
  prp_offs :: nat
  prp2_offs :: nat
  paddr_list :: "u64 option"
  mem_offs :: nat
  st_offset :: u64
  remaining :: nat

definition page_base :: "u64 \<Rightarrow> u64" where
  "page_base a = a AND NOT PAGE_OFFSET_MASK"

definition page_off :: "u64 \<Rightarrow> nat" where
  "page_off a = unat (a AND PAGE_OFFSET_MASK)"

text \<open>The address that the next PRP entry gives.\<close>

definition next_prp :: "phys \<Rightarrow> nvme_command \<Rightarrow> io_loop \<Rightarrow> (u64 \<times> io_loop) option" where
  "next_prp m cmd l =
     (let l = l\<lparr>prp_offs := prp_offs l + 1\<rparr> in
      if prp_offs l = 1 then Some (prp1 cmd, l)
      else if prp_offs l = 2 then
        (if remaining l > PAGE_SIZE then
           (let lst = page_base (prp2 cmd) + of_nat (page_off (prp2 cmd)) in
            Some (rd64 m (lst + of_nat (8 * prp2_offs l)),
                  l\<lparr>paddr_list := Some lst, prp2_offs := prp2_offs l + 1\<rparr>))
         else Some (prp2 cmd, l))
      else do {
        lst \<leftarrow> paddr_list l;
        Some (rd64 m (lst + of_nat (8 * prp2_offs l)), l\<lparr>prp2_offs := prp2_offs l + 1\<rparr>)
      })"

text \<open>How much of the page at \<open>paddr\<close> is copied, and from which offset.\<close>

definition io_chunk :: "u64 \<Rightarrow> io_loop \<Rightarrow> nat \<times> nat" where
  "io_chunk paddr l =
     (let io_size = min (remaining l) PAGE_SIZE in
      if page_off paddr \<noteq> 0 then
        (page_off paddr, if io_size + page_off paddr > PAGE_SIZE then PAGE_SIZE - page_off paddr else io_size)
      else (mem_offs l, io_size))"

lemma page_off_less: "page_off a < PAGE_SIZE"
proof -
  have "a AND PAGE_OFFSET_MASK \<le> PAGE_OFFSET_MASK" by (rule word_and_le1)
  then show ?thesis by (simp add: page_off_def word_le_nat_alt PAGE_OFFSET_MASK_def PAGE_SIZE_def)
qed

lemma io_chunk_pos: "0 < remaining l \<Longrightarrow> 0 < snd (io_chunk paddr l) \<and> snd (io_chunk paddr l) \<le> remaining l"
  using page_off_less [of paddr] by (auto simp: io_chunk_def Let_def PAGE_SIZE_def)

definition perform_page :: "u64 \<Rightarrow> io_loop \<Rightarrow> u8 \<Rightarrow> nvmev_dev \<Rightarrow> (io_loop \<times> nvmev_dev) option" where
  "perform_page paddr l op d =
     (let (mo, io_size) = io_chunk paddr l; off = unat (st_offset l);
          l' = l\<lparr>mem_offs := mo, st_offset := st_offset l + of_nat io_size, remaining := remaining l - io_size\<rparr>
      in if unat (storage_size (config d)) < off + io_size then None
         else if op = nvme_cmd_write then
           Some (l', d\<lparr>storage_mapped := copy_in (storage_mapped d) off (dev_mem d) (page_base paddr + of_nat mo) io_size\<rparr>)
         else
           Some (l', d\<lparr>dev_mem := copy_out (dev_mem d) (page_base paddr + of_nat mo) (storage_mapped d) off io_size\<rparr>))"

lemma next_prp_remaining: "next_prp m cmd l = Some (paddr, l') \<Longrightarrow> remaining l' = remaining l"
  by (auto simp: next_prp_def Let_def split: if_splits bind_splits)

lemma perform_page_remaining:
  "perform_page paddr l op d = Some (l', d') \<Longrightarrow> 0 < remaining l \<Longrightarrow> remaining l' < remaining l"
  using io_chunk_pos [of l paddr]
  by (auto simp: perform_page_def Let_def split: prod.splits if_splits)

function perform_io_loop :: "int \<Rightarrow> int \<Rightarrow> io_loop \<Rightarrow> nvmev_dev \<Rightarrow> nvmev_dev option" where
  "perform_io_loop sqid e l d =
     (if remaining l = 0 then Some d
      else do {
        cmd \<leftarrow> sq_command d sqid e;
        (paddr, l1) \<leftarrow> next_prp (dev_mem d) cmd l;
        (l2, d') \<leftarrow> perform_page paddr l1 (opcode cmd) d;
        perform_io_loop sqid e l2 d'
      })"
  by pat_completeness auto
termination
  by (relation "measure (\<lambda>(sqid, e, l, d). remaining l)")
     (auto dest!: perform_page_remaining simp: next_prp_remaining)

declare perform_io_loop.simps [simp del]

definition do_perform_io :: "int \<Rightarrow> int \<Rightarrow> nvmev_dev \<Rightarrow> (nat \<times> nvmev_dev) option" where
  "do_perform_io sqid e d = do {
     cmd \<leftarrow> sq_command d sqid e;
     let len = push_bit 9 (unat (rw_length cmd) + 1);
     d \<leftarrow> perform_io_loop sqid e \<lparr>prp_offs = 0, prp2_offs = 0, paddr_list = None, mem_offs = 0,
            st_offset = push_bit 9 (rw_slba cmd), remaining = len\<rparr> d;
     Some (len, d)
   }"

text \<open>
  \<^verbatim>\<open>__fill_cq_result\<close> reads the head of the queue before it takes the lock: \<open>fill_cq_post\<close> is
  what happens under the lock, with the head that was read.
\<close>

definition fill_cq_post :: "int \<Rightarrow> int \<Rightarrow> int \<Rightarrow> int \<Rightarrow> u32 \<Rightarrow> nvmev_dev \<Rightarrow> nvmev_dev option" where
  "fill_cq_post head sqid cqid e cid d = do {
     cq \<leftarrow> cq_of d cqid;
     a \<leftarrow> cq_entry (cq_cq cq) head;
     let m = dev_mem d;
     let m = set_cqe_command_id a (ucast cid) m;
     let m = set_cqe_sq_id a (word_of_int sqid) m;
     let m = set_cqe_sq_head a (word_of_int e) m;
     let m = set_cqe_status a (word_of_int (or (cq_phase cq) (int (NVME_SC_SUCCESS * 2)))) m;
     let wraps = (head + 1 = cq_queue_size cq);
     Some (put_cq (d\<lparr>dev_mem := m\<rparr>) cqid (cq\<lparr>cq_phase := (if wraps then (if cq_phase cq = 0 then 1 else 0) else cq_phase cq),
       cq_head := (if wraps then 0 else head + 1), cq_interrupt_ready := True\<rparr>))
   }"

definition fill_cq_result :: "int \<Rightarrow> int \<Rightarrow> int \<Rightarrow> u32 \<Rightarrow> nvmev_dev \<Rightarrow> nvmev_dev option" where
  "fill_cq_result sqid cqid e cid d = do {
     cq \<leftarrow> cq_of d cqid;
     fill_cq_post (cq_head cq) sqid cqid e cid d
   }"

text \<open>\<^verbatim>\<open>nvmev_signal_irq\<close> of \<^verbatim>\<open>pci.c\<close>: the first descriptor with the entry number is signalled; none is no error.\<close>

definition nvmev_signal_irq :: "int \<Rightarrow> nvmev_dev \<Rightarrow> nvmev_dev option" where
  "nvmev_signal_irq msi_index d =
     (case find (\<lambda>m. entry_nr m = msi_index) (msi_entries d) of
        None \<Rightarrow> Some d
      | Some m \<Rightarrow> do {
          cpu \<leftarrow> arr_get (apicid_to_cpuid d) (unat (dest_apicid m));
          Some (d\<lparr>dev_events := dev_events d @ [SendIPI cpu (irq_vector_nr m)]\<rparr>)
        })"

definition upd_worker :: "nat \<Rightarrow> (nvmev_proc_info \<Rightarrow> nvmev_proc_info option) \<Rightarrow> nvmev_dev \<Rightarrow> nvmev_dev option" where
  "upd_worker k f d = do {
     tb \<leftarrow> arr_get (proc_info d) k;
     tb \<leftarrow> f tb;
     Some (d\<lparr>proc_info := (proc_info d)[k := tb]\<rparr>)
   }"

text \<open>
  One round of the inner loop of \<^verbatim>\<open>nvmev_kthread_io\<close> for worker \<open>k\<close>: the entry to look at next,
  or \<^const>\<open>None\<close> when the loop is left.
\<close>

definition worker_entry :: "nat \<Rightarrow> u64 \<Rightarrow> u32 \<Rightarrow> nvmev_dev \<Rightarrow> (u32 option \<times> nvmev_dev) option" where
  "worker_entry k delta cur d = do {
     let (now, d) = get_local_clock d;
     let now = now + delta;
     d \<leftarrow> upd_worker k (\<lambda>tb. Some (tb\<lparr>proc_io_nsecs := now\<rparr>)) d;
     tb \<leftarrow> arr_get (proc_info d) k;
     pe \<leftarrow> pe_get tb cur;
     if pe_is_completed pe then Some (Some (pe_next pe), d)
     else do {
       d \<leftarrow> (if \<not> pe_is_copied pe then do {
              (len, d) \<leftarrow> do_perform_io (pe_sqid pe) (pe_sq_entry pe) d;
              upd_worker k (pe_upd cur (\<lambda>pe. pe\<lparr>pe_is_copied := True\<rparr>)) d
            } else Some d);
       if pe_nsecs_target pe \<le> now then do {
         d \<leftarrow> fill_cq_result (pe_sqid pe) (pe_cqid pe) (pe_sq_entry pe) (pe_command_id pe) d;
         d \<leftarrow> upd_worker k (pe_upd cur (\<lambda>pe. pe\<lparr>pe_is_completed := True\<rparr>)) d;
         Some (Some (pe_next pe), d)
       } else Some (None, d)
     }
   }"

partial_function (option) worker_scan :: "nat \<Rightarrow> u64 \<Rightarrow> u32 \<Rightarrow> nvmev_dev \<Rightarrow> nvmev_dev option" where
  "worker_scan k delta cur d =
     (if cur = NIL then Some d
      else do {
        (nxt, d) \<leftarrow> worker_entry k delta cur d;
        (case nxt of None \<Rightarrow> Some d | Some cur \<Rightarrow> worker_scan k delta cur d)
      })"

declare worker_scan.simps [code]

text \<open>The interrupts of one completion queue.\<close>

definition raise_irq :: "nat \<Rightarrow> nvmev_dev \<Rightarrow> nvmev_dev option" where
  "raise_irq qidx d = do {
     q \<leftarrow> arr_get (cqes d) qidx;
     (case q of None \<Rightarrow> Some d
      | Some cq \<Rightarrow>
          (if cq_irq_enabled cq \<and> cq_interrupt_ready cq
           then nvmev_signal_irq (cq_irq_vector cq) (put_cq d (int qidx) (cq\<lparr>cq_interrupt_ready := False\<rparr>))
           else Some d))
   }"

text \<open>One round of the worker's outer loop.\<close>

definition kthread_io_round :: "nat \<Rightarrow> nvmev_dev \<Rightarrow> nvmev_dev option" where
  "kthread_io_round k d = do {
     let (wall, d) = get_wallclock d;
     let (loc, d) = get_local_clock d;
     tb \<leftarrow> arr_get (proc_info d) k;
     d \<leftarrow> worker_scan k (wall - loc) (io_seq tb) d;
     foldM raise_irq [1..<nat (nr_cq d) + 1] d
   }"

text \<open>\<^verbatim>\<open>NVMEV_IO_PROC_INIT\<close>: one table for each worker; the processor of worker \<open>i\<close> is read from the
  array of 32 entries of the configuration.\<close>

definition NVMEV_IO_PROC_INIT :: "nvmev_dev \<Rightarrow> nvmev_dev option" where
  "NVMEV_IO_PROC_INIT d = do {
     let n = unat (nr_io_cpu (config d));
     cpus \<leftarrow> foldM (\<lambda>i cs. do { c \<leftarrow> arr_get (cpu_nr_proc_io (config d)) i; Some (cs @ [c]) }) [0..<n] [];
     Some (d\<lparr>proc_info := map io_proc_info [0..<n], proc_turn := 0\<rparr>)
   }"

end
