(* ===== verification/IO_Table_Correct.thy ===== *)
theory IO_Table_Correct
  imports IO_Table
begin

text \<open>
  The request table seen as two lists of entry numbers: \<open>table_rep tb io fr\<close> says that the
  requests in flight are \<open>io\<close>, in the order of the links, and the free entries \<open>fr\<close>. Enqueuing
  inserts the first free entry at its place by completion time, reclaiming moves the completed
  prefix to the end of the free list.
\<close>

section \<open>Chains of entries\<close>

primrec chain :: "nvmev_proc_table list \<Rightarrow> u32 \<Rightarrow> nat list \<Rightarrow> u32 \<Rightarrow> bool" where
  "chain T x [] y \<longleftrightarrow> x = y"
| "chain T x (i # ns) y \<longleftrightarrow> x = of_nat i \<and> i < length T \<and> chain T (pe_next (T ! i)) ns y"

primrec prevs :: "nvmev_proc_table list \<Rightarrow> u32 \<Rightarrow> nat list \<Rightarrow> bool" where
  "prevs T p [] \<longleftrightarrow> True"
| "prevs T p (i # ns) \<longleftrightarrow> pe_prev (T ! i) = p \<and> prevs T (of_nat i) ns"

lemma chain_append: "chain T x (xs @ ys) z \<longleftrightarrow> (\<exists>y. chain T x xs y \<and> chain T y ys z)"
  by (induction xs arbitrary: x) auto

lemma prevs_append: "prevs T p (xs @ ys) \<longleftrightarrow> prevs T p xs \<and> prevs T (if xs = [] then p else of_nat (last xs)) ys"
  by (induction xs arbitrary: p) auto

lemma chain_cong:
  assumes "\<And>i. i \<in> set xs \<Longrightarrow> pe_next (T' ! i) = pe_next (T ! i)" and "length T' = length T"
  shows "chain T' x xs y = chain T x xs y"
  using assms by (induction xs arbitrary: x) auto

lemma prevs_cong:
  assumes "\<And>i. i \<in> set xs \<Longrightarrow> pe_prev (T' ! i) = pe_prev (T ! i)"
  shows "prevs T' p xs = prevs T p xs"
  using assms by (induction xs arbitrary: p) auto

lemma chain_upd [simp]:
  "i \<notin> set xs \<or> pe_next v = pe_next (T ! i) \<Longrightarrow> chain (T[i := v]) x xs y = chain T x xs y"
  by (rule chain_cong) (metis nth_list_update_eq nth_list_update_neq list_update_beyond not_le, simp)

lemma prevs_upd [simp]:
  "i \<notin> set xs \<or> pe_prev v = pe_prev (T ! i) \<Longrightarrow> prevs (T[i := v]) p xs = prevs T p xs"
  by (rule prevs_cong) (metis nth_list_update_eq nth_list_update_neq list_update_beyond not_le)

lemma chain_hd: "xs \<noteq> [] \<Longrightarrow> chain T x xs y \<Longrightarrow> x = of_nat (hd xs)"
  by (cases xs) auto

section \<open>The two lists of a table\<close>

definition table_rep :: "nvmev_proc_info \<Rightarrow> nat list \<Rightarrow> nat list \<Rightarrow> bool" where
  "table_rep tb io fr \<longleftrightarrow>
     length (proc_table tb) \<le> NR_MAX_PARALLEL_IO \<and> distinct (io @ fr) \<and>
     set (io @ fr) = {..<length (proc_table tb)} \<and>
     fr \<noteq> [] \<and> chain (proc_table tb) (free_seq tb) fr NIL \<and> free_seq_end tb = of_nat (last fr) \<and>
     chain (proc_table tb) (io_seq tb) io NIL \<and> prevs (proc_table tb) NIL io \<and>
     (io \<noteq> [] \<longrightarrow> io_seq_end tb = of_nat (last io))"

lemma idx32:
  assumes "i < n" and "n \<le> NR_MAX_PARALLEL_IO"
  shows "unat (of_nat i :: u32) = i" "(of_nat i :: u32) \<noteq> NIL"
proof -
  have i: "i < 16384" using assms by (simp add: NR_MAX_PARALLEL_IO_def)
  then show u: "unat (of_nat i :: u32) = i" by (simp add: unat_of_nat)
  have "unat NIL = 4294967295" by (simp add: NIL_def unsigned_minus_1_eq_mask mask_eq_exp_minus_1)
  then show "(of_nat i :: u32) \<noteq> NIL" using u i by auto
qed

lemma NIL_big: "NR_MAX_PARALLEL_IO \<le> unat NIL"
  by (simp add: NIL_def NR_MAX_PARALLEL_IO_def unsigned_minus_1_eq_mask mask_eq_exp_minus_1)

lemma table_repD:
  assumes "table_rep tb io fr"
  shows "length (proc_table tb) \<le> NR_MAX_PARALLEL_IO" "distinct io" "distinct fr" "set io \<inter> set fr = {}"
    "set io \<union> set fr = {..<length (proc_table tb)}"
    "fr \<noteq> []" "chain (proc_table tb) (free_seq tb) fr NIL" "free_seq_end tb = of_nat (last fr)"
    "chain (proc_table tb) (io_seq tb) io NIL" "prevs (proc_table tb) NIL io"
    "io \<noteq> [] \<Longrightarrow> io_seq_end tb = of_nat (last io)"
  using assms by (auto simp: table_rep_def)

lemma table_rep_idx:
  assumes "table_rep tb io fr" and "i \<in> set io \<union> set fr"
  shows "i < length (proc_table tb)" "unat (of_nat i :: u32) = i" "(of_nat i :: u32) \<noteq> NIL"
  using assms idx32 [of i "length (proc_table tb)"] table_repD(1,5) [OF assms(1)] by auto

text \<open>The lists are determined by the table, and its entries decide whether it is full.\<close>

lemma chain_unique:
  assumes "length T \<le> NR_MAX_PARALLEL_IO"
  shows "chain T x xs NIL \<Longrightarrow> chain T x ys NIL \<Longrightarrow> xs = ys"
proof (induction xs arbitrary: x ys)
  case Nil
  then show ?case using idx32(2) [OF _ assms, THEN not_sym] by (cases ys) auto
next
  case (Cons i xs)
  from Cons.prems have "x \<noteq> NIL" using idx32(2) [OF _ assms] by auto
  then obtain j ys' where ys: "ys = j # ys'" using Cons.prems by (cases ys) auto
  with Cons.prems have "(of_nat i :: u32) = of_nat j" "i < length T" "j < length T" by auto
  then have "i = j" using idx32(1) [OF _ assms] by metis
  then show ?case using ys Cons.prems Cons.IH [of "pe_next (T ! i)" ys'] by simp
qed

lemma table_rep_unique:
  assumes "table_rep tb io fr" and "table_rep tb io' fr'"
  shows "io = io' \<and> fr = fr'"
  using chain_unique table_repD(1,7,9) [OF assms(1)] table_repD(7,9) [OF assms(2)] by blast

lemma pe_get_idx [simp]:
  "unat i < length (proc_table tb) \<Longrightarrow> pe_get tb i = Some (proc_table tb ! unat i)"
  by (simp add: pe_get_def)

lemma pe_upd_idx [simp]:
  "unat i < length (proc_table tb) \<Longrightarrow>
   pe_upd i f tb = Some (tb\<lparr>proc_table := (proc_table tb)[unat i := f (proc_table tb ! unat i)]\<rparr>)"
  by (simp add: pe_upd_def)

section \<open>Inserting by completion time\<close>

definition target :: "nvmev_proc_info \<Rightarrow> nat \<Rightarrow> u64" where
  "target tb i = pe_nsecs_target (proc_table tb ! i)"

text \<open>The requests that stay before a new one that is due at \<open>t\<close>.\<close>

definition stay_before :: "nvmev_proc_info \<Rightarrow> u64 \<Rightarrow> nat list \<Rightarrow> nat list" where
  "stay_before tb t io = rev (dropWhile (\<lambda>i. max (proc_io_nsecs tb) t < target tb i) (rev io))"

lemma stay_before_prefix: "\<exists>B. io = stay_before tb t io @ B \<and> (\<forall>i\<in>set B. max (proc_io_nsecs tb) t < target tb i)"
proof -
  let ?P = "\<lambda>i. max (proc_io_nsecs tb) t < target tb i"
  have "rev io = takeWhile ?P (rev io) @ dropWhile ?P (rev io)" by simp
  then have "io = rev (dropWhile ?P (rev io)) @ rev (takeWhile ?P (rev io))" by (metis rev_append rev_rev_ident)
  moreover have "\<forall>i\<in>set (rev (takeWhile ?P (rev io))). ?P i" by (auto dest: set_takeWhileD)
  ultimately show ?thesis unfolding stay_before_def by blast
qed

lemma enqueue_pos_ok:
  assumes "length (proc_table tb) \<le> NR_MAX_PARALLEL_IO"
  shows "prevs (proc_table tb) NIL io \<Longrightarrow> \<forall>i\<in>set io. i < length (proc_table tb) \<Longrightarrow>
    enqueue_pos tb t (if io = [] then NIL else of_nat (last io)) =
    Some (if stay_before tb t io = [] then NIL else of_nat (last (stay_before tb t io)))"
proof (induction io rule: rev_induct)
  case Nil
  then show ?case by (simp add: stay_before_def enqueue_pos.simps)
next
  case (snoc i io)
  then have i: "i < length (proc_table tb)" by simp
  note u = idx32 [OF i assms]
  have prev: "pe_prev (proc_table tb ! i) = (if io = [] then NIL else of_nat (last io))"
    using snoc.prems(1) by (simp add: prevs_append split: if_splits)
  have IH: "enqueue_pos tb t (pe_prev (proc_table tb ! i)) =
      Some (if stay_before tb t io = [] then NIL else of_nat (last (stay_before tb t io)))"
    unfolding prev using snoc by (auto simp: prevs_append)
  show ?case
  proof (cases "max (proc_io_nsecs tb) t < target tb i")
    case True
    then have "stay_before tb t (io @ [i]) = stay_before tb t io" by (simp add: stay_before_def)
    then show ?thesis using True IH u i by (subst enqueue_pos.simps) (auto simp: target_def)
  next
    case False
    then have "stay_before tb t (io @ [i]) = io @ [i]" by (auto simp: stay_before_def)
    then show ?thesis using False u i
      by (subst enqueue_pos.simps) (auto simp: target_def not_less max_def split: if_splits)
  qed
qed


text \<open>Linking entry \<open>e\<close> between \<open>A\<close> and \<open>B\<close>.\<close>

definition linked :: "nvmev_proc_info \<Rightarrow> nvmev_proc_info \<Rightarrow> nat \<Rightarrow> nat list \<Rightarrow> nat list \<Rightarrow> bool" where
  "linked tb tb' e A B \<longleftrightarrow>
     chain (proc_table tb') (io_seq tb') (A @ e # B) NIL \<and> prevs (proc_table tb') NIL (A @ e # B) \<and>
     io_seq_end tb' = of_nat (last (A @ e # B)) \<and> free_seq tb' = free_seq tb \<and>
     free_seq_end tb' = free_seq_end tb \<and> proc_io_nsecs tb' = proc_io_nsecs tb \<and>
     length (proc_table tb') = length (proc_table tb) \<and>
     (\<forall>i. i \<notin> set (A @ e # B) \<longrightarrow> proc_table tb' ! i = proc_table tb ! i) \<and>
     (\<forall>i. proc_table tb' ! i =
        (proc_table tb ! i)\<lparr>pe_next := pe_next (proc_table tb' ! i), pe_prev := pe_prev (proc_table tb' ! i)\<rparr>)"

lemma enqueue_link_ok:
  assumes len: "length (proc_table tb) \<le> NR_MAX_PARALLEL_IO"
    and dist: "distinct (A @ e # B)" and idx: "\<forall>i\<in>set (A @ e # B). i < length (proc_table tb)"
    and A: "A = stay_before tb t (A @ B)"
    and ch: "chain (proc_table tb) (io_seq tb) (A @ B) NIL" and pr: "prevs (proc_table tb) NIL (A @ B)"
    and en: "A @ B \<noteq> [] \<longrightarrow> io_seq_end tb = of_nat (last (A @ B))"
    and e: "pe_next (proc_table tb ! e) = NIL" "pe_prev (proc_table tb ! e) = NIL"
  shows "returns (enqueue_link (of_nat e) t tb) (\<lambda>tb'. linked tb tb' e A B)"
proof -
  let ?T = "proc_table tb"
  have ix: "unat (of_nat i :: u32) = i \<and> (of_nat i :: u32) \<noteq> NIL \<and> i < length ?T" if "i \<in> set (A @ e # B)" for i
    using idx that idx32 [OF _ len] by blast
  have pos: "enqueue_pos tb t (io_seq_end tb) = Some (if A = [] then NIL else of_nat (last A))" if "A @ B \<noteq> []"
    using enqueue_pos_ok [OF len pr, of t] idx en that unfolding A [symmetric] by auto
  have hd: "io_seq tb \<noteq> NIL" if "A @ B \<noteq> []"
  proof -
    have "hd (A @ B) \<in> set (A @ e # B)" using hd_in_set [OF that] by auto
    then show ?thesis using ix chain_hd [OF that ch] by simp
  qed
  show ?thesis
  proof (cases "A @ B = []")
    case True
    then show ?thesis using ch e ix [of e] by (simp add: enqueue_link_def linked_def)
  next
    case ne: False
    show ?thesis
    proof (cases "A = []")
      case True
      then obtain b B' where B: "B = b # B'" using ne by (cases B) auto
      have s: "io_seq tb = of_nat b" "of_nat b \<noteq> NIL" using ch True B ix [of b] by auto
      show ?thesis
        using True B s ch pr en e ix [of e] ix [of b] dist ne pos hd
        by (auto simp: enqueue_link_def linked_def nth_list_update split: if_splits)
    next
      case False
      then obtain A' a where A': "A = A' @ [a]" by (metis rev_exhaust)
      show ?thesis
      proof (cases B)
        case Nil
        show ?thesis
          using Nil A' ch pr en e ix [of e] ix [of a] dist ne pos hd
          by (auto simp: enqueue_link_def linked_def chain_append prevs_append nth_list_update
              split: if_splits)
      next
        case (Cons b B')
        show ?thesis
          using Cons A' ch pr en e ix [of e] ix [of a] ix [of b] dist ne pos hd
          by (auto simp: enqueue_link_def linked_def chain_append prevs_append nth_list_update
              split: if_splits)
      qed
    qed
  qed
qed


section \<open>Enqueuing\<close>

text \<open>What the lists are after a request was put in: the first free entry at its place.\<close>

definition enqueued :: "(nvmev_proc_table \<Rightarrow> nvmev_proc_table) \<Rightarrow> u64 \<Rightarrow> nvmev_proc_info \<Rightarrow> nvmev_proc_info \<Rightarrow>
    nat list \<Rightarrow> nat list \<Rightarrow> bool" where
  "enqueued req t tb tb' io fr \<longleftrightarrow>
     (let A = stay_before tb t io; B = drop (length A) io in
      table_rep tb' (A @ hd fr # B) (tl fr) \<and> proc_io_nsecs tb' = proc_io_nsecs tb \<and>
      length (proc_table tb') = length (proc_table tb) \<and>
      (\<forall>i. proc_table tb' ! i =
         (if i = hd fr then (req (proc_table tb ! i))\<lparr>pe_nsecs_target := t, pe_is_completed := False,
            pe_is_copied := False\<rparr> else proc_table tb ! i)
         \<lparr>pe_next := pe_next (proc_table tb' ! i), pe_prev := pe_prev (proc_table tb' ! i)\<rparr>))"

lemma enqueued_entry:
  assumes "enqueued req t tb tb' io fr"
  shows "proc_table tb' ! i =
         (if i = hd fr then (req (proc_table tb ! i))\<lparr>pe_nsecs_target := t, pe_is_completed := False,
            pe_is_copied := False\<rparr> else proc_table tb ! i)
         \<lparr>pe_next := pe_next (proc_table tb' ! i), pe_prev := pe_prev (proc_table tb' ! i)\<rparr>"
  using assms unfolding enqueued_def Let_def by blast

lemma enqueued_new:
  assumes "enqueued req t tb tb' io (e # fr)"
  shows "proc_table tb' ! e = (req (proc_table tb ! e))\<lparr>pe_nsecs_target := t, pe_is_completed := False,
      pe_is_copied := False, pe_next := pe_next (proc_table tb' ! e), pe_prev := pe_prev (proc_table tb' ! e)\<rparr>"
  using enqueued_entry [OF assms, of e] by (simp only: list.sel if_True refl)

lemma enqueue_entry_full:
  assumes "table_rep tb io [e]"
  shows "enqueue_entry req t tb = Some (Inl tb)"
proof -
  have "free_seq tb = of_nat e" "pe_next (proc_table tb ! e) = NIL" using table_repD(7) [OF assms] by auto
  then show ?thesis using table_rep_idx [OF assms, of e] NIL_big by (simp add: enqueue_entry_def)
qed

lemma enqueue_entry_ok:
  assumes rep: "table_rep tb io (e # f # fr)"
  shows "returns (enqueue_entry req t tb) (\<lambda>r. \<exists>tb'. r = Inr tb' \<and> enqueued req t tb tb' io (e # f # fr))"
proof -
  let ?T = "proc_table tb"
  let ?A = "stay_before tb t io"
  obtain B where B: "io = ?A @ B" using stay_before_prefix by blast
  then have dropB: "drop (length ?A) io = B" by (metis append_eq_conv_conj)
  note D = table_repD [OF rep]
  note e = table_rep_idx [OF rep, of e] and f = table_rep_idx [OF rep, of f]
  have fs: "free_seq tb = of_nat e" and en: "pe_next (?T ! e) = of_nat f" using D(7) by auto
  let ?v = "(req (?T ! e))\<lparr>pe_nsecs_target := t, pe_is_completed := False, pe_is_copied := False,
      pe_prev := NIL, pe_next := NIL\<rparr>"
  let ?tb = "tb\<lparr>free_seq := of_nat f, proc_table := ?T[e := ?v]\<rparr>"
  have eio: "e \<notin> set io" "e \<notin> set (f # fr)" using D(3,4) by auto
  have tgt: "target ?tb i = target tb i" if "i \<in> set io" for i
  proof -
    have "i \<noteq> e" using that eio by auto
    then show ?thesis by (simp add: target_def)
  qed
  have dw: "dropWhile (\<lambda>i. max (proc_io_nsecs ?tb) t < target ?tb i) (rev io) =
      dropWhile (\<lambda>i. max (proc_io_nsecs tb) t < target tb i) (rev io)"
    by (rule dropWhile_cong) (use tgt in auto)
  then have sb: "stay_before ?tb t io = ?A" by (simp add: stay_before_def)
  have AB: "distinct (?A @ B)" "set (?A @ B) = set io" using D(2) B by simp_all
  have "returns (enqueue_link (of_nat e) t ?tb) (\<lambda>tb'. linked ?tb tb' e ?A B)"
  proof (rule enqueue_link_ok)
    show "length (proc_table ?tb) \<le> NR_MAX_PARALLEL_IO" using D(1) by simp
    show "distinct (?A @ e # B)" using AB eio by auto
    show "\<forall>i\<in>set (?A @ e # B). i < length (proc_table ?tb)" using AB(2) D(5) by auto
    show "?A = stay_before ?tb t (?A @ B)" using sb B by simp
    show "chain (proc_table ?tb) (io_seq ?tb) (?A @ B) NIL" using D(9) eio B [symmetric] by simp
    show "prevs (proc_table ?tb) NIL (?A @ B)" using D(10) eio B [symmetric] by simp
    show "?A @ B \<noteq> [] \<longrightarrow> io_seq_end ?tb = of_nat (last (?A @ B))" using D(11) B [symmetric] by simp
  qed (use e in simp_all)
  then obtain tb' where tb': "enqueue_link (of_nat e) t ?tb = Some tb'" and L: "linked ?tb tb' e ?A B"
    by (rule returnsE)
  have "chain (proc_table tb') (free_seq tb') (f # fr) NIL"
  proof -
    have "chain (proc_table tb') (of_nat f) (f # fr) NIL = chain ?T (of_nat f) (f # fr) NIL"
    proof (rule chain_cong)
      fix i assume i: "i \<in> set (f # fr)"
      then have "i \<notin> set (?A @ e # B)" using AB(2) D(4) eio by auto
      then show "pe_next (proc_table tb' ! i) = pe_next (?T ! i)" using L i eio by (auto simp: linked_def)
    qed (use L in \<open>simp add: linked_def\<close>)
    then show ?thesis using D(7) en L by (simp add: linked_def)
  qed
  moreover have "set ((?A @ e # B) @ f # fr) = {..<length ?T}" using AB(2) D(5) by auto
  moreover have "distinct ((?A @ e # B) @ f # fr)" using AB D(3,4) eio by auto
  ultimately have "table_rep tb' (?A @ e # B) (f # fr)"
    using L D(1,8) unfolding table_rep_def linked_def by (intro conjI) simp_all
  moreover have "proc_table tb' ! i = (if i = e then (req (?T ! i))\<lparr>pe_nsecs_target := t, pe_is_completed := False,
      pe_is_copied := False\<rparr> else ?T ! i)\<lparr>pe_next := pe_next (proc_table tb' ! i), pe_prev := pe_prev (proc_table tb' ! i)\<rparr>" for i
  proof -
    have "proc_table tb' ! i = (proc_table ?tb ! i)\<lparr>pe_next := pe_next (proc_table tb' ! i), pe_prev := pe_prev (proc_table tb' ! i)\<rparr>"
      using L unfolding linked_def by blast
    then show ?thesis using e by (cases "i = e") simp_all
  qed
  ultimately have "enqueued req t tb tb' io (e # f # fr)"
    using L unfolding enqueued_def Let_def dropB linked_def by auto
  moreover have "enqueue_entry req t tb = Some (Inr tb')"
    using tb' fs en e f idx32 [OF f(1) D(1)] D(1) by (simp add: enqueue_entry_def)
  ultimately show ?thesis by simp
qed


section \<open>Reclaiming\<close>

lemma reclaim_last_ok:
  assumes "length (proc_table tb) \<le> NR_MAX_PARALLEL_IO"
  shows "chain (proc_table tb) cur io NIL \<Longrightarrow>
    reclaim_last tb l cur = Some (let W = takeWhile (\<lambda>i. reclaimable tb (proc_table tb ! i)) io in
      if W = [] then l else of_nat (last W))"
proof (induction io arbitrary: l cur)
  case Nil
  then show ?case by (simp add: reclaim_last.simps)
next
  case (Cons i io)
  then have i: "i < length (proc_table tb)" and c: "cur = of_nat i" by auto
  note u = idx32 [OF i assms]
  show ?case
    using Cons.prems Cons.IH [of "pe_next (proc_table tb ! i)" "of_nat i"] u i c
    by (subst reclaim_last.simps) (auto simp: Let_def)
qed

text \<open>Moving the prefix \<open>W\<close> of the requests behind the free entries.\<close>

definition moved_free :: "nvmev_proc_info \<Rightarrow> nvmev_proc_info \<Rightarrow> nat list \<Rightarrow> nat list \<Rightarrow> bool" where
  "moved_free tb tb' io fr \<longleftrightarrow>
     table_rep tb' io fr \<and> proc_io_nsecs tb' = proc_io_nsecs tb \<and>
     length (proc_table tb') = length (proc_table tb) \<and>
     (\<forall>i. proc_table tb' ! i =
        (proc_table tb ! i)\<lparr>pe_next := pe_next (proc_table tb' ! i), pe_prev := pe_prev (proc_table tb' ! i)\<rparr>)"

lemma reclaim_move:
  assumes rep: "table_rep tb ((W' @ [l]) @ D) (fr @ [g])"
    and last: "reclaim_last tb NIL (io_seq tb) = Some (of_nat l)"
  shows "returns (reclaim_one tb) (\<lambda>tb'. moved_free tb tb' D ((fr @ [g]) @ W' @ [l]))"
proof -
  let ?T = "proc_table tb"
  define w where "w = hd (W' @ [l])"
  note C = table_repD [OF rep]
  have wW: "w \<in> set (W' @ [l])" unfolding w_def by (rule hd_in_set) simp
  have w: "io_seq tb = of_nat w"
    using chain_hd [OF _ C(9)] unfolding w_def by (metis append_is_Nil_conv hd_append2 not_Cons_self2)
  have mem: "l \<in> set ((W' @ [l]) @ D) \<union> set (fr @ [g])" "w \<in> set ((W' @ [l]) @ D) \<union> set (fr @ [g])"
    "g \<in> set ((W' @ [l]) @ D) \<union> set (fr @ [g])" using wW by auto
  note u = table_rep_idx [OF rep mem(1)] table_rep_idx [OF rep mem(2)] table_rep_idx [OF rep mem(3)]
  have ne: "g \<noteq> w" "g \<noteq> l" using C(4) wW by auto
  have ch: "chain ?T (of_nat w) W' (of_nat l)" "chain ?T (pe_next (?T ! l)) D NIL"
    using C(9) w by (auto simp: chain_append)
  have cf: "chain ?T (free_seq tb) fr (of_nat g)" using C(7) by (auto simp: chain_append)
  have n: "l \<notin> set W'" "g \<notin> set fr" "g \<notin> set W'" "l \<notin> set fr" "w \<notin> set fr" "w \<notin> set D" "l \<notin> set D" "g \<notin> set D"
    using C(2,3,4) wW by auto
  have pl: "prevs ?T (of_nat l) D" using C(10) by (simp add: prevs_append)
  show ?thesis
  proof (cases D)
    case Nil
    then have nl: "pe_next (?T ! l) = NIL" using ch by simp
    define T' where "T' = ?T[l := (?T ! l)\<lparr>pe_next := NIL\<rparr>]"
    define T'' where "T'' = T'[w := (T' ! w)\<lparr>pe_prev := of_nat g\<rparr>]"
    define T3 where "T3 = T''[g := (T'' ! g)\<lparr>pe_next := of_nat w\<rparr>]"
    have ev: "reclaim_one tb = Some (tb\<lparr>io_seq := NIL, proc_table := T3, free_seq_end := of_nat l\<rparr>)"
      using u last w C(8) nl by (simp add: reclaim_one_def T3_def T''_def T'_def)
    have "table_rep (tb\<lparr>io_seq := NIL, proc_table := T3, free_seq_end := of_nat l\<rparr>) D ((fr @ [g]) @ W' @ [l])"
      using C(1-5) Nil ch cf ne n u nl
      unfolding table_rep_def T3_def T''_def T'_def by (auto simp: chain_append nth_list_update)
    moreover have "T3 ! i = (?T ! i)\<lparr>pe_next := pe_next (T3 ! i), pe_prev := pe_prev (T3 ! i)\<rparr>" for i
      using u unfolding T3_def T''_def T'_def
      by (cases "i = l"; cases "i = w"; cases "i = g") (simp_all add: nth_list_update)
    ultimately show ?thesis using ev by (simp add: moved_free_def T3_def T''_def T'_def)
  next
    case (Cons d D')
    then have "d \<in> set ((W' @ [l]) @ D) \<union> set (fr @ [g])" by simp
    note v = table_rep_idx [OF rep this]
    have nl: "pe_next (?T ! l) = of_nat d" using ch Cons by simp
    have nd: "d \<noteq> l" "d \<noteq> w" "d \<noteq> g" "d \<notin> set W'" "d \<notin> set fr" "d \<notin> set D'" using n C(2,4) Cons by auto
    define T0 where "T0 = ?T[d := (?T ! d)\<lparr>pe_prev := NIL\<rparr>]"
    define T' where "T' = T0[l := (T0 ! l)\<lparr>pe_next := NIL\<rparr>]"
    define T'' where "T'' = T'[w := (T' ! w)\<lparr>pe_prev := of_nat g\<rparr>]"
    define T3 where "T3 = T''[g := (T'' ! g)\<lparr>pe_next := of_nat w\<rparr>]"
    have ev: "reclaim_one tb = Some (tb\<lparr>io_seq := of_nat d, proc_table := T3, free_seq_end := of_nat l\<rparr>)"
      using u v last w C(8) nl by (simp add: reclaim_one_def T3_def T''_def T'_def T0_def)
    have "table_rep (tb\<lparr>io_seq := of_nat d, proc_table := T3, free_seq_end := of_nat l\<rparr>) D ((fr @ [g]) @ W' @ [l])"
      using C(1-5,11) Cons ch cf ne n nd u v nl pl
      unfolding table_rep_def T3_def T''_def T'_def T0_def by (auto simp: chain_append nth_list_update)
    moreover have "T3 ! i = (?T ! i)\<lparr>pe_next := pe_next (T3 ! i), pe_prev := pe_prev (T3 ! i)\<rparr>" for i
      using u v unfolding T3_def T''_def T'_def T0_def
      by (cases "i = l"; cases "i = w"; cases "i = g"; cases "i = d") (simp_all add: nth_list_update)
    ultimately show ?thesis using ev by (simp add: moved_free_def T3_def T''_def T'_def T0_def)
  qed
qed

lemma reclaim_one_ok:
  assumes rep: "table_rep tb io fr"
  defines "R \<equiv> \<lambda>i. reclaimable tb (proc_table tb ! i)"
  shows "returns (reclaim_one tb) (\<lambda>tb'. moved_free tb tb' (dropWhile R io) (fr @ takeWhile R io))"
proof (cases "takeWhile R io = []")
  case True
  moreover from True have "dropWhile R io = io" by (metis append_Nil takeWhile_dropWhile_id)
  ultimately show ?thesis
    using reclaim_last_ok [OF table_repD(1,9) [OF rep]] rep by (simp add: reclaim_one_def R_def moved_free_def)
next
  case False
  then obtain W' l where W: "takeWhile R io = W' @ [l]" by (metis rev_exhaust)
  obtain fr' g where fr: "fr = fr' @ [g]" using table_repD(6) [OF rep] by (metis rev_exhaust)
  have "io = (W' @ [l]) @ dropWhile R io" using W by (metis takeWhile_dropWhile_id)
  moreover have "reclaim_last tb NIL (io_seq tb) = Some (of_nat l)"
    using reclaim_last_ok [OF table_repD(1,9) [OF rep]] W by (simp add: R_def)
  ultimately show ?thesis using reclaim_move [of tb W' l "dropWhile R io" fr' g] rep W fr by simp
qed


section \<open>Order of the requests\<close>

text \<open>Requests that are not due yet are ordered by their completion time.\<close>

definition due_key :: "nvmev_proc_info \<Rightarrow> nat \<Rightarrow> u64" where
  "due_key tb i = max (proc_io_nsecs tb) (target tb i)"

definition ordered :: "nvmev_proc_info \<Rightarrow> nat list \<Rightarrow> bool" where
  "ordered tb io \<longleftrightarrow> sorted (map (due_key tb) io)"

lemma sorted_last_bound:
  "sorted (map f (xs @ [x])) \<Longrightarrow> y \<in> set (xs @ [x]) \<Longrightarrow> f y \<le> f x" for f :: "'a \<Rightarrow> 'b::linorder"
  by (auto simp: sorted_append)

lemma stay_before_le:
  assumes "ordered tb io" and "i \<in> set (stay_before tb t io)"
  shows "due_key tb i \<le> max (proc_io_nsecs tb) t"
proof -
  obtain B where B: "io = stay_before tb t io @ B" using stay_before_prefix by blast
  obtain A' a where A: "stay_before tb t io = A' @ [a]" using assms(2) by (metis empty_iff list.set(1) rev_exhaust)
  have "sorted (map (due_key tb) (A' @ [a]))"
    using assms(1) A unfolding ordered_def by (subst (asm) B) (simp add: sorted_append)
  then have "due_key tb i \<le> due_key tb a" using assms(2) A sorted_last_bound by metis
  moreover have "\<not> max (proc_io_nsecs tb) t < target tb a"
  proof -
    have "dropWhile (\<lambda>i. max (proc_io_nsecs tb) t < target tb i) (rev io) = a # rev A'"
      using A unfolding stay_before_def by (metis rev_append rev_rev_ident rev_singleton_conv append_Cons append_Nil)
    then show ?thesis by (metis hd_dropWhile list.distinct(1) list.sel(1))
  qed
  ultimately show ?thesis unfolding due_key_def by (auto simp: max_def split: if_splits)
qed

lemma enqueued_ordered:
  assumes enq: "enqueued req t tb tb' io fr" and rep: "table_rep tb io fr" and ord: "ordered tb io"
  shows "ordered tb' (stay_before tb t io @ hd fr # drop (length (stay_before tb t io)) io)"
proof -
  let ?A = "stay_before tb t io"
  obtain B where B: "io = ?A @ B" "\<forall>i\<in>set B. max (proc_io_nsecs tb) t < target tb i"
    using stay_before_prefix by blast
  then have drop: "drop (length ?A) io = B" by (metis append_eq_conv_conj)
  have P: "proc_io_nsecs tb' = proc_io_nsecs tb" using enq by (simp add: enqueued_def Let_def)
  have tgt: "target tb' i = (if i = hd fr then t else target tb i)" for i
  proof -
    note enqueued_entry [OF enq, of i]
    then have "pe_nsecs_target (proc_table tb' ! i) = pe_nsecs_target ((if i = hd fr
         then (req (proc_table tb ! i))\<lparr>pe_nsecs_target := t, pe_is_completed := False,
            pe_is_copied := False\<rparr> else proc_table tb ! i)
         \<lparr>pe_next := pe_next (proc_table tb' ! i), pe_prev := pe_prev (proc_table tb' ! i)\<rparr>)"
      by (rule arg_cong)
    then show ?thesis by (simp add: target_def)
  qed
  have notin: "hd fr \<notin> set io" using table_repD(4,6) [OF rep] hd_in_set [of fr] by auto
  have key: "map (due_key tb') xs = map (due_key tb) xs" if "set xs \<subseteq> set io" for xs
    using that notin by (auto simp: due_key_def tgt P)
  have AB: "set ?A \<subseteq> set io" "set B \<subseteq> set io" using B(1) by (metis set_append Un_upper1, metis set_append Un_upper2)
  have srt: "sorted (map (due_key tb) ?A)" "sorted (map (due_key tb) B)"
    using ord unfolding ordered_def by (subst (asm) B(1), simp add: sorted_append)+
  have e: "due_key tb' (hd fr) = max (proc_io_nsecs tb) t" by (simp add: due_key_def tgt P)
  have Ale: "\<forall>i\<in>set ?A. due_key tb i \<le> max (proc_io_nsecs tb) t" using stay_before_le [OF ord] by blast
  have Bge: "\<forall>i\<in>set B. max (proc_io_nsecs tb) t \<le> due_key tb i" using B(2) by (auto simp: due_key_def)
  have kA: "due_key tb' i = due_key tb i" if "i \<in> set ?A \<union> set B" for i
    using that AB notin by (auto simp: due_key_def tgt P)
  have "\<forall>i\<in>set ?A. \<forall>j\<in>set B. due_key tb i \<le> due_key tb j" using Ale Bge by (meson order_trans)
  then show ?thesis
    unfolding drop ordered_def using srt key [OF AB(1)] key [OF AB(2)] Ale Bge kA e
    by (simp add: sorted_append del: map_eq_conv)
qed

lemma moved_free_ordered:
  assumes "moved_free tb tb' D fr'" and "ordered tb (W @ D)"
  shows "ordered tb' D"
proof -
  have "target tb' i = target tb i" for i
  proof -
    have "proc_table tb' ! i = (proc_table tb ! i)\<lparr>pe_next := pe_next (proc_table tb' ! i), pe_prev := pe_prev (proc_table tb' ! i)\<rparr>"
      using assms(1) unfolding moved_free_def by blast
    then have "pe_nsecs_target (proc_table tb' ! i) = pe_nsecs_target ((proc_table tb ! i)
        \<lparr>pe_next := pe_next (proc_table tb' ! i), pe_prev := pe_prev (proc_table tb' ! i)\<rparr>)"
      by (rule arg_cong)
    then show ?thesis by (simp add: target_def)
  qed
  then have "due_key tb' = due_key tb" using assms(1) by (auto simp: due_key_def moved_free_def)
  then show ?thesis using assms(2) by (simp add: ordered_def sorted_append)
qed

section \<open>The first table\<close>

lemma io_proc_info_rep: "table_rep (io_proc_info k) [] [0..<NR_MAX_PARALLEL_IO]"
proof -
  define N where "N = NR_MAX_PARALLEL_IO"
  let ?T = "proc_table (io_proc_info k)"
  have N: "0 < N" by (simp add: N_def NR_MAX_PARALLEL_IO_def)
  have len: "length ?T = N" by (simp add: io_proc_info_def Let_def N_def)
  have nxt: "pe_next (?T ! i) = (if i = N - 1 then NIL else of_nat (Suc i))" if "i < N" for i
    using that by (auto simp: io_proc_info_def Let_def nth_list_update add.commute simp flip: N_def)
  have "chain ?T (of_nat a) [a..<N] NIL" if "a < N" for a
    using that
  proof (induction "N - a" arbitrary: a)
    case (Suc n)
    then show ?case
    proof (cases "a = N - 1")
      case True
      then have "[a..<N] = [a]" using Suc.prems by (simp add: upt_conv_Cons)
      then show ?thesis using nxt [of a] True Suc.prems len by simp
    next
      case False
      then have "chain ?T (of_nat (Suc a)) [Suc a..<N] NIL" using Suc by (intro Suc.hyps) auto
      then show ?thesis using nxt [of a] False Suc.prems len by (simp add: upt_conv_Cons)
    qed
  qed simp
  from this [of 0] N have "chain ?T 0 [0..<N] NIL" by simp
  then show ?thesis
    using N len unfolding table_rep_def
    by (simp add: io_proc_info_def Let_def lessThan_atLeast0 flip: N_def)
qed

end
