(* ===== verification/Demo_Device.thy ===== *)
theory Demo_Device
  imports IO IO_Table_Correct Tiny
begin

text \<open>
  The small device on which the properties of commands, queues and workers are evaluated: two workers with a
  table of five entries, one submission queue with a write command, one completion queue.
\<close>

section \<open>A small device\<close>

definition demo_cfg :: nvmev_config where
  "demo_cfg = \<lparr>memmap_start = 0, memmap_size = 0, storage_start = 0, storage_size = 16384, read_delay = 1,
     read_time = 10, read_trailing = 2, write_delay = 3, write_time = 20, write_trailing = 4, nr_io_units = 4,
     io_unit_shift = 12, cfg_cpu_nr_dispatcher = 0, nr_io_cpu = 2, cpu_nr_proc_io = replicate 32 7\<rparr>"

definition demo_entry :: "u64 \<Rightarrow> u32 \<Rightarrow> u32 \<Rightarrow> nvmev_proc_table" where
  "demo_entry t n p = zero_entry\<lparr>pe_nsecs_target := t, pe_next := n, pe_prev := p, pe_sqid := 1, pe_cqid := 1\<rparr>"

text \<open>A table of five entries: requests 3 and 1, due at 50 and 90; 0, 2 and 4 are free.\<close>

definition demo_table :: nvmev_proc_info where
  "demo_table = \<lparr>proc_table = [demo_entry 0 2 0, demo_entry 90 NIL 3, demo_entry 0 4 0, demo_entry 50 1 NIL,
      demo_entry 0 NIL 0],
     free_seq = 0, free_seq_end = 4, io_seq = 3, io_seq_end = 1, proc_io_nsecs = 10, nvmev_io_worker = 0\<rparr>"

lemma demo_table_rep: "table_rep demo_table [3, 1] [0, 2, 4]"
proof -
  have "{..<length (proc_table demo_table)} = {0, 1, 2, 3, 4}" by (auto simp: demo_table_def)
  then show ?thesis by (auto simp: table_rep_def demo_table_def demo_entry_def NR_MAX_PARALLEL_IO_def)
qed

lemma demo_table_ordered: "ordered demo_table [3, 1]"
  by (simp add: ordered_def due_key_def target_def demo_table_def demo_entry_def)

text \<open>The host: a write of one page in the first slot of a submission queue at 0x10000.\<close>

definition demo_cmd :: nvme_command where
  "demo_cmd = \<lparr>opcode = 1, cmd_flags = 0, command_id = 77, nsid = 1, cdw2 = 0, cdw3 = 0, metadata = 0,
     prp1 = 0x20000, prp2 = 0, cdw10 = 0, cdw11 = 0, cdw12 = 7, cdw13 = 0, cdw14 = 0, cdw15 = 0\<rparr>"

definition demo_sq :: nvmev_submission_queue where
  "demo_sq = \<lparr>sq_qid = 1, sq_cqid = 1, sq_priority = 0, sq_phys_contig = True, sq_queue_size = 64,
     sq_stat = \<lparr>nr_dispatched = 0, nr_dispatch = 0, nr_in_flight = 0, max_nr_in_flight = 0, total_io = 0\<rparr>,
     sq_sq = [0x10000]\<rparr>"

definition demo_cq :: nvmev_completion_queue where
  "demo_cq = \<lparr>cq_qid = 1, cq_irq_vector = 1, cq_irq_enabled = True, cq_interrupt_ready = False,
     cq_phys_contig = True, cq_queue_size = 4, cq_phase = 1, cq_head = 0, cq_tail = -1, cq_cq = [0x11000]\<rparr>"

definition zero_bar :: nvme_bar where
  "zero_bar = \<lparr>bar_cap = 0, bar_vs = 0, bar_intms = 0, bar_intmc = 0, bar_cc = 0, bar_rsvd1 = 0, bar_csts = 0,
     bar_nssr = 0, bar_aqa = 0, bar_asq = 0, bar_acq = 0, bar_cmbloc = 0, bar_cmbsz = 0\<rparr>"

definition demo_dev :: "ssd \<Rightarrow> nvmev_dev" where
  "demo_dev s = \<lparr>virtDev = replicate 256 0, config = demo_cfg, storage_mapped = (\<lambda>_. 0),
     proc_info = [demo_table, demo_table], proc_turn = 0, msix_enabled = True, old_bar = zero_bar, bar = zero_bar,
     old_dbs = replicate 8 0, dbs = replicate 8 0, nr_ns = 0, nr_sq = 1, nr_cq = 1, admin_q = None,
     sqes = [None, Some demo_sq, None], cqes = [None, Some demo_cq, None], io_unit_stat = [5, 0, 0, 0],
     dev_ftl = s, dev_mem = write_bytes (\<lambda>_. 9) 0x10000 (command_bytes demo_cmd),
     local_clock = of_nat, nr_local_clock = 0, msi_entries = [\<lparr>entry_nr = 1, dest_apicid = 0, irq_vector_nr = 33\<rparr>],
     apicid_to_cpuid = [3], dev_events = []\<rparr>"

lemma demo_command: "sq_command (demo_dev s) 1 0 = Some demo_cmd"
  by (simp add: sq_command_def sq_of_def get_queue_def demo_dev_def demo_sq_def sq_entry_def
      SQ_ENTRY_TO_PAGE_NUM_def SQ_ENTRY_TO_PAGE_OFFSET_def read_command_bytes)

end
