(* ===== verification/IO_Props.thy ===== *)
theory IO_Props
  imports Demo_Device
begin

text \<open>
  The properties of the I/O path, each with a witness on a small device: the request tables,
  the completion queues, the copies between the host's pages and the storage, the worker.
\<close>

section \<open>Request tables\<close>

text \<open>An entry with the same contents and possibly other links, and a table of the same size, clock and worker.\<close>

definition relinked :: "nvmev_proc_table \<Rightarrow> nvmev_proc_table \<Rightarrow> bool" where
  "relinked pe pe' \<longleftrightarrow> pe' = pe\<lparr>pe_next := pe_next pe', pe_prev := pe_prev pe'\<rparr>"

definition same_frame :: "nvmev_proc_info \<Rightarrow> nvmev_proc_info \<Rightarrow> bool" where
  "same_frame tb tb' \<longleftrightarrow> length (proc_table tb') = length (proc_table tb) \<and>
     proc_io_nsecs tb' = proc_io_nsecs tb \<and> nvmev_io_worker tb' = nvmev_io_worker tb"

lemma pe_upd_worker: "pe_upd i f tb = Some tb' \<Longrightarrow> nvmev_io_worker tb' = nvmev_io_worker tb"
  by (auto simp: pe_upd_def split: bind_splits)

lemma enqueue_entry_worker:
  assumes "enqueue_entry req t tb = Some (Inr tb')"
  shows "nvmev_io_worker tb' = nvmev_io_worker tb"
  using assms by (auto simp: enqueue_entry_def enqueue_link_def Let_def split: bind_splits if_splits dest!: pe_upd_worker)

lemma reclaim_one_worker:
  assumes "reclaim_one tb = Some tb'"
  shows "nvmev_io_worker tb' = nvmev_io_worker tb"
  using assms by (auto simp: reclaim_one_def Let_def split: bind_splits if_splits dest!: pe_upd_worker)

text \<open>C13. Entering a request takes the first free entry of the worker whose turn it is, fills it and links
  it in behind every request that is due or due no later, so that the list stays ordered. Every other
  entry of the table keeps its contents and changes at most its links, the entry that is filled keeps the
  members that are not assigned, and the table keeps its size, clock and worker; the turn
  passes on and nothing else in the device changes but the clock.\<close>

theorem enqueue_io_req_correct:
  assumes "unat (proc_turn d) < length (proc_info d)" and "proc_info d ! unat (proc_turn d) = tb"
    and "table_rep tb io (e # f # fr)" and "ordered tb io" and "sq_command d sqid slot = Some cmd"
  shows "returns (enqueue_io_req sqid cqid slot start t d) (\<lambda>d'. \<exists>tb'.
    (let A = stay_before tb t io; B = drop (length A) io in
      table_rep tb' (A @ e # B) (f # fr) \<and> ordered tb' (A @ e # B)) \<and>
    (let pe = proc_table tb' ! e in pe_sqid pe = sqid \<and> pe_cqid pe = cqid \<and> pe_sq_entry pe = slot \<and>
      pe_command_id pe = ucast (command_id cmd) \<and> pe_nsecs_start pe = start \<and> pe_nsecs_target pe = t \<and>
      \<not> pe_is_copied pe \<and> \<not> pe_is_completed pe) \<and>
    (let pe = proc_table tb ! e in relinked (pe\<lparr>pe_sqid := sqid, pe_cqid := cqid, pe_sq_entry := slot,
      pe_command_id := ucast (command_id cmd), pe_nsecs_start := start,
      pe_nsecs_enqueue := local_clock d (nr_local_clock d), pe_nsecs_target := t, pe_is_completed := False, pe_is_copied := False\<rparr>)
      (proc_table tb' ! e)) \<and>
    (\<forall>i. i \<noteq> e \<longrightarrow> relinked (proc_table tb ! i) (proc_table tb' ! i)) \<and> same_frame tb tb' \<and>
    d' = d\<lparr>nr_local_clock := Suc (nr_local_clock d),
           proc_turn := (if proc_turn d + 1 = nr_io_cpu (config d) then 0 else proc_turn d + 1),
           proc_info := (proc_info d)[unat (proc_turn d) := tb']\<rparr>)"
proof -
  note e = table_rep_idx [OF assms(3), of e] and f = table_rep_idx [OF assms(3), of f]
  have fs: "free_seq tb = of_nat e" "pe_next (proc_table tb ! e) = of_nat f"
    using table_repD(7) [OF assms(3)] by auto
  have nf: "\<not> NR_MAX_PARALLEL_IO \<le> f" using f table_repD(1) [OF assms(3)] by auto
  let ?req = "\<lambda>pe. pe\<lparr>pe_sqid := sqid, pe_cqid := cqid, pe_sq_entry := slot,
     pe_command_id := ucast (command_id cmd), pe_nsecs_start := start,
     pe_nsecs_enqueue := local_clock d (nr_local_clock d)\<rparr>"
  obtain tb' where r: "enqueue_entry ?req t tb = Some (Inr tb')" and E: "enqueued ?req t tb tb' io (e # f # fr)"
    using enqueue_entry_ok [OF assms(3)] by (auto elim!: returnsE)
  note eq = arg_cong [OF enqueued_new [OF E]]
  have new: "relinked ((?req (proc_table tb ! e))\<lparr>pe_nsecs_target := t, pe_is_completed := False, pe_is_copied := False\<rparr>)
      (proc_table tb' ! e)"
    using enqueued_entry [OF E, of e] unfolding relinked_def by simp
  have old: "relinked (proc_table tb ! i) (proc_table tb' ! i)" if "i \<noteq> e" for i
    using enqueued_entry [OF E, of i] that unfolding relinked_def by simp
  have fr: "same_frame tb tb'"
    using E enqueue_entry_worker [OF r] by (simp add: same_frame_def enqueued_def Let_def)
  have pe: "pe_sqid (proc_table tb' ! e) = sqid" "pe_cqid (proc_table tb' ! e) = cqid"
    "pe_sq_entry (proc_table tb' ! e) = slot" "pe_command_id (proc_table tb' ! e) = ucast (command_id cmd)"
    "pe_nsecs_start (proc_table tb' ! e) = start" "pe_nsecs_target (proc_table tb' ! e) = t"
    "\<not> pe_is_copied (proc_table tb' ! e)" "\<not> pe_is_completed (proc_table tb' ! e)"
    using eq [of pe_sqid] eq [of pe_cqid] eq [of pe_sq_entry] eq [of pe_command_id] eq [of pe_nsecs_start]
      eq [of pe_nsecs_target] eq [of pe_is_copied] eq [of pe_is_completed] by simp_all
  have "ordered tb' (stay_before tb t io @ e # drop (length (stay_before tb t io)) io)"
    using enqueued_ordered [OF E assms(3,4)] by simp
  moreover have "table_rep tb' (stay_before tb t io @ e # drop (length (stay_before tb t io)) io) (f # fr)"
    using E by (simp add: enqueued_def Let_def)
  moreover have "enqueue_io_req sqid cqid slot start t d = Some (d\<lparr>nr_local_clock := Suc (nr_local_clock d),
      proc_turn := (if proc_turn d + 1 = nr_io_cpu (config d) then 0 else proc_turn d + 1),
      proc_info := (proc_info d)[unat (proc_turn d) := tb']\<rparr>)"
    using r assms fs e f nf by (auto simp: enqueue_io_req_def get_local_clock_def Let_def)
  ultimately show ?thesis
    unfolding Let_def by - (erule returnsI, intro exI [of _ tb'] conjI pe fr allI impI old new refl, assumption+)
qed

lemma demo_stay: "stay_before demo_table 70 [3, 1] = [3]"
  by (simp add: stay_before_def target_def demo_table_def demo_entry_def)

lemma demo_others:
  "\<forall>i>0. relinked (proc_table demo_table ! i) (T ! i) \<Longrightarrow> relinked (demo_entry 90 NIL 3) (T ! Suc 0)"
  by (drule spec [of _ 1]) (simp add: demo_table_def)

theorem enqueue_io_req_correct_witness:
  "returns (enqueue_io_req 1 1 0 60 70 (demo_dev (blank tiny_sp))) (\<lambda>d'.
    table_rep (proc_info d' ! 0) [3, 0, 1] [2, 4] \<and> pe_command_id (proc_table (proc_info d' ! 0) ! 0) = 77 \<and>
    relinked (demo_entry 90 NIL 3) (proc_table (proc_info d' ! 0) ! 1) \<and>
    proc_turn d' = 1 \<and> proc_info d' ! 1 = demo_table)"
proof -
  have "returns (enqueue_io_req 1 1 0 60 70 (demo_dev (blank tiny_sp))) (\<lambda>d'. \<exists>tb'.
    (let A = stay_before demo_table 70 [3, 1]; B = drop (length A) [3, 1] in
      table_rep tb' (A @ 0 # B) [2, 4] \<and> ordered tb' (A @ 0 # B)) \<and>
    (let pe = proc_table tb' ! 0 in pe_sqid pe = 1 \<and> pe_cqid pe = 1 \<and> pe_sq_entry pe = 0 \<and>
      pe_command_id pe = ucast (command_id demo_cmd) \<and> pe_nsecs_start pe = 60 \<and> pe_nsecs_target pe = 70 \<and>
      \<not> pe_is_copied pe \<and> \<not> pe_is_completed pe) \<and>
    (let pe = proc_table demo_table ! 0 in relinked (pe\<lparr>pe_sqid := 1, pe_cqid := 1, pe_sq_entry := 0,
      pe_command_id := ucast (command_id demo_cmd), pe_nsecs_start := 60,
      pe_nsecs_enqueue := local_clock (demo_dev (blank tiny_sp)) (nr_local_clock (demo_dev (blank tiny_sp))),
      pe_nsecs_target := 70, pe_is_completed := False, pe_is_copied := False\<rparr>) (proc_table tb' ! 0)) \<and>
    (\<forall>i. i \<noteq> 0 \<longrightarrow> relinked (proc_table demo_table ! i) (proc_table tb' ! i)) \<and> same_frame demo_table tb' \<and>
    d' = (demo_dev (blank tiny_sp))\<lparr>nr_local_clock := Suc (nr_local_clock (demo_dev (blank tiny_sp))),
      proc_turn := (if proc_turn (demo_dev (blank tiny_sp)) + 1 = nr_io_cpu (config (demo_dev (blank tiny_sp))) then 0
         else proc_turn (demo_dev (blank tiny_sp)) + 1),
      proc_info := (proc_info (demo_dev (blank tiny_sp)))[unat (proc_turn (demo_dev (blank tiny_sp))) := tb']\<rparr>)"
    by (rule enqueue_io_req_correct [OF _ _ demo_table_rep demo_table_ordered demo_command])
       (simp_all add: demo_dev_def)
  then show ?thesis
    unfolding demo_stay
    by (elim returns_mono) (auto simp: demo_dev_def demo_cfg_def demo_cmd_def Let_def demo_others)
qed

text \<open>When only one free entry is left in the table, the request is dropped: the first time a warning is logged, and
  nothing else happens, so the command will never complete.\<close>

theorem enqueue_io_req_full:
  assumes "unat (proc_turn d) < length (proc_info d)" and "table_rep (proc_info d ! unat (proc_turn d)) io [e]"
  shows "enqueue_io_req sqid cqid slot start t d =
    Some (if KernelLog ''io.c'' 168 \<in> set (dev_events d) then d
          else d\<lparr>dev_events := dev_events d @ [KernelLog ''io.c'' 168]\<rparr>)"
proof -
  let ?tb = "proc_info d ! unat (proc_turn d)"
  have "free_seq ?tb = of_nat e" "pe_next (proc_table ?tb ! e) = NIL" using table_repD(7) [OF assms(2)] by auto
  then show ?thesis
    using table_rep_idx [OF assms(2), of e] assms NIL_big by (simp add: enqueue_io_req_def dev_log_once_def dev_log_def)
qed

definition full_table :: nvmev_proc_info where
  "full_table = demo_table\<lparr>proc_table := [demo_entry 0 NIL 0, demo_entry 90 NIL 2, demo_entry 50 1 NIL],
     free_seq_end := 0, io_seq := 2, io_seq_end := 1\<rparr>"

theorem enqueue_io_req_full_witness:
  "enqueue_io_req 1 1 0 60 70 ((demo_dev (blank tiny_sp))\<lparr>proc_info := [full_table]\<rparr>) =
   Some ((demo_dev (blank tiny_sp))\<lparr>proc_info := [full_table], dev_events := [KernelLog ''io.c'' 168]\<rparr>)"
proof -
  have "{..<length (proc_table full_table)} = {0, 1, 2}" by (auto simp: full_table_def)
  then have "table_rep full_table [2, 1] [0]"
    by (auto simp: table_rep_def full_table_def demo_table_def demo_entry_def NR_MAX_PARALLEL_IO_def)
  then show ?thesis
    using enqueue_io_req_full [of "(demo_dev (blank tiny_sp))\<lparr>proc_info := [full_table]\<rparr>" "[2, 1]" 0]
    by (simp add: demo_dev_def)
qed

text \<open>C14. Reclaiming moves, in the table of every worker, the longest prefix of requests that are copied,
  completed and due to the end of the free list and keeps the order of the others. Every entry keeps its
  contents and changes at most its links, every table keeps its size, clock and worker, and nothing else in the
  device changes.\<close>

theorem reclaim_completed_reqs_correct:
  assumes "n = unat (nr_io_cpu (config d))" and "n \<le> length (proc_info d)"
    and "\<forall>k<n. table_rep (proc_info d ! k) (io k) (fr k) \<and> ordered (proc_info d ! k) (io k)"
  shows "returns (reclaim_completed_reqs d) (\<lambda>d'.
    (\<forall>k<n. let tb = proc_info d ! k; R = (\<lambda>i. reclaimable tb (proc_table tb ! i)) in
      table_rep (proc_info d' ! k) (dropWhile R (io k)) (fr k @ takeWhile R (io k)) \<and>
      ordered (proc_info d' ! k) (dropWhile R (io k)) \<and> same_frame tb (proc_info d' ! k) \<and>
      (\<forall>i. relinked (proc_table tb ! i) (proc_table (proc_info d' ! k) ! i))) \<and>
    (\<forall>k\<ge>n. proc_info d' ! k = proc_info d ! k) \<and>
    length (proc_info d') = length (proc_info d) \<and> d' = d\<lparr>proc_info := proc_info d'\<rparr>)"
proof -
  let ?R = "\<lambda>tb i. reclaimable tb (proc_table tb ! i)"
  let ?done = "\<lambda>d' k. table_rep (proc_info d' ! k) (dropWhile (?R (proc_info d ! k)) (io k))
      (fr k @ takeWhile (?R (proc_info d ! k)) (io k)) \<and>
      ordered (proc_info d' ! k) (dropWhile (?R (proc_info d ! k)) (io k)) \<and>
      same_frame (proc_info d ! k) (proc_info d' ! k) \<and>
      (\<forall>i. relinked (proc_table (proc_info d ! k) ! i) (proc_table (proc_info d' ! k) ! i))"
  let ?I = "\<lambda>i d'. (\<forall>k<n. if k < i then ?done d' k else proc_info d' ! k = proc_info d ! k) \<and>
     (\<forall>k\<ge>n. proc_info d' ! k = proc_info d ! k) \<and>
     length (proc_info d') = length (proc_info d) \<and> d' = d\<lparr>proc_info := proc_info d'\<rparr>"
  have "returns (foldM reclaim_turn [0..<n] d) (?I n)"
  proof (rule returns_foldM_upt [where I = ?I])
    fix i d'
    assume i: "i < n" and I: "?I i d'"
    let ?tb = "proc_info d ! i"
    have tb: "proc_info d' ! i = ?tb" "i < length (proc_info d')" using I i assms(2) by auto
    have "returns (reclaim_one ?tb) (\<lambda>tb'. moved_free ?tb tb' (dropWhile (?R ?tb) (io i)) (fr i @ takeWhile (?R ?tb) (io i)))"
      using reclaim_one_ok assms(3) i by blast
    then obtain tb' where t: "reclaim_one ?tb = Some tb'"
      and M: "moved_free ?tb tb' (dropWhile (?R ?tb) (io i)) (fr i @ takeWhile (?R ?tb) (io i))"
      by (rule returnsE)
    have "ordered tb' (dropWhile (?R ?tb) (io i))"
      by (rule moved_free_ordered [OF M, of "takeWhile (?R ?tb) (io i)"]) (use assms(3) i in simp)
    then have nw: "?done (d'\<lparr>proc_info := (proc_info d')[i := tb']\<rparr>) i"
      using M tb(2) reclaim_one_worker [OF t] by (simp add: moved_free_def same_frame_def relinked_def)
    have "reclaim_turn i d' = Some (d'\<lparr>proc_info := (proc_info d')[i := tb']\<rparr>)"
      using tb t by (simp add: reclaim_turn_def)
    moreover have "?I (Suc i) (d'\<lparr>proc_info := (proc_info d')[i := tb']\<rparr>)"
    proof (intro conjI allI impI)
      fix k assume "k < n"
      then show "if k < Suc i then ?done (d'\<lparr>proc_info := (proc_info d')[i := tb']\<rparr>) k
          else proc_info (d'\<lparr>proc_info := (proc_info d')[i := tb']\<rparr>) ! k = proc_info d ! k"
        using I nw by (cases "k = i") (auto simp: less_Suc_eq)
    next
      obtain p where "d' = d\<lparr>proc_info := p\<rparr>" using I by blast
      then show "d'\<lparr>proc_info := (proc_info d')[i := tb']\<rparr> =
          d\<lparr>proc_info := proc_info (d'\<lparr>proc_info := (proc_info d')[i := tb']\<rparr>)\<rparr>"
        by simp
    next
      fix k assume "n \<le> k"
      then show "proc_info (d'\<lparr>proc_info := (proc_info d')[i := tb']\<rparr>) ! k = proc_info d ! k"
        using I i by simp
    next
      show "length (proc_info (d'\<lparr>proc_info := (proc_info d')[i := tb']\<rparr>)) = length (proc_info d)"
        using I by simp
    qed
    ultimately show "returns (reclaim_turn i d') (?I (Suc i))"
      unfolding returns_iff by blast
  qed simp_all
  then have "returns (reclaim_completed_reqs d) (?I n)"
    unfolding reclaim_completed_reqs_def assms(1) by simp
  then show ?thesis by (rule returns_mono) (simp add: Let_def)
qed

definition done_table :: nvmev_proc_info where
  "done_table = demo_table\<lparr>proc_io_nsecs := 60, proc_table := (proc_table demo_table)
     [3 := (demo_entry 50 1 NIL)\<lparr>pe_is_copied := True, pe_is_completed := True\<rparr>]\<rparr>"

theorem reclaim_completed_reqs_correct_witness:
  "returns (reclaim_completed_reqs ((demo_dev (blank tiny_sp))\<lparr>proc_info := [done_table, demo_table]\<rparr>)) (\<lambda>d'.
    table_rep (proc_info d' ! 0) [1] [0, 2, 4, 3] \<and> table_rep (proc_info d' ! 1) [3, 1] [0, 2, 4])"
proof -
  let ?d = "(demo_dev (blank tiny_sp))\<lparr>proc_info := [done_table, demo_table]\<rparr>"
  have "{..<length (proc_table done_table)} = {0, 1, 2, 3, 4}" by (auto simp: done_table_def demo_table_def)
  then have r: "table_rep done_table [3, 1] [0, 2, 4]"
    by (auto simp: table_rep_def done_table_def demo_table_def demo_entry_def NR_MAX_PARALLEL_IO_def)
  moreover have "ordered done_table [3, 1]"
    by (simp add: ordered_def due_key_def target_def done_table_def demo_table_def demo_entry_def)
  ultimately have all: "\<forall>k<2. table_rep (proc_info ?d ! k) [3, 1] [0, 2, 4] \<and> ordered (proc_info ?d ! k) [3, 1]"
    using demo_table_rep demo_table_ordered by (auto simp: less_2_cases_iff)
  have R: "reclaimable done_table (proc_table done_table ! 3)" "\<not> reclaimable done_table (proc_table done_table ! 1)"
    "\<not> reclaimable demo_table (proc_table demo_table ! 3)"
    by (simp_all add: reclaimable_def done_table_def demo_table_def demo_entry_def zero_entry_def)
  have "returns (reclaim_completed_reqs ?d) (\<lambda>d'.
    (\<forall>k<2. let tb = proc_info ?d ! k; R = (\<lambda>i. reclaimable tb (proc_table tb ! i)) in
      table_rep (proc_info d' ! k) (dropWhile R [3, 1]) ([0, 2, 4] @ takeWhile R [3, 1]) \<and>
      ordered (proc_info d' ! k) (dropWhile R [3, 1]) \<and> same_frame tb (proc_info d' ! k) \<and>
      (\<forall>i. relinked (proc_table tb ! i) (proc_table (proc_info d' ! k) ! i))) \<and>
    (\<forall>k\<ge>2. proc_info d' ! k = proc_info ?d ! k) \<and>
    length (proc_info d') = length (proc_info ?d) \<and> d' = ?d\<lparr>proc_info := proc_info d'\<rparr>)"
    by (rule reclaim_completed_reqs_correct [OF _ _ all]) (simp_all add: demo_dev_def demo_cfg_def)
  then show ?thesis
    by - (erule returns_mono, elim conjE, frule spec [of _ 0], drule spec [of _ 1], simp add: R R [unfolded One_nat_def] Let_def nth_Cons')
qed

text \<open>Initialisation gives every worker an empty table whose entries are all free; it fails exactly
  when there are more workers than the 32 processors that the configuration has room for.\<close>

theorem io_proc_init_correct:
  "case NVMEV_IO_PROC_INIT d of
     None \<Rightarrow> length (cpu_nr_proc_io (config d)) < unat (nr_io_cpu (config d))
   | Some d' \<Rightarrow> unat (nr_io_cpu (config d)) \<le> length (cpu_nr_proc_io (config d)) \<and>
       length (proc_info d') = unat (nr_io_cpu (config d)) \<and> proc_turn d' = 0 \<and>
       list_all (\<lambda>tb. table_rep tb [] [0..<NR_MAX_PARALLEL_IO] \<and> ordered tb []) (proc_info d')"
proof -
  let ?f = "\<lambda>i cs. do { c \<leftarrow> arr_get (cpu_nr_proc_io (config d)) i; Some (cs @ [c]) }"
  have "foldM ?f [0..<n] [] =
      (if n \<le> length (cpu_nr_proc_io (config d)) then Some (take n (cpu_nr_proc_io (config d))) else None)" for n
    by (induction n) (auto simp: foldM_append take_Suc_conv_app_nth not_less_eq_eq split: bind_splits)
  then show ?thesis
    by (auto simp: NVMEV_IO_PROC_INIT_def Let_def list_all_iff io_proc_info_rep ordered_def)
qed

end
