(* ===== verification/Tailq.thy ===== *)
theory Tailq
  imports Prelude
begin

text \<open>
  The tail queues of \<^verbatim>\<open>queue.h\<close>, on links in memory. A link lies in the head of a queue or in the
  entry of an element; it names the next element and the link before it. A head's link names the
  first element and the last link. Each macro is the sequence of its assignments; following a
  NULL pointer is undefined. The operations refine those on lists, which is how FTL models the
  free and the full lines; the locale \<open>tail_queues\<close> is the interface between the two.
\<close>

section \<open>Links\<close>

datatype tq_link = Head nat | Entry nat

record tq_mem =
  tql_next :: "tq_link \<Rightarrow> nat option"
  tql_prev :: "tq_link \<Rightarrow> tq_link option"

definition set_next :: "tq_link \<Rightarrow> nat option \<Rightarrow> tq_mem \<Rightarrow> tq_mem" where
  "set_next l v m = m\<lparr>tql_next := (tql_next m)(l := v)\<rparr>"

definition set_prev :: "tq_link \<Rightarrow> tq_link option \<Rightarrow> tq_mem \<Rightarrow> tq_mem" where
  "set_prev l v m = m\<lparr>tql_prev := (tql_prev m)(l := v)\<rparr>"

lemma set_link_sel [simp]:
  "tql_next (set_next l v m) = (tql_next m)(l := v)" "tql_prev (set_next l v m) = tql_prev m"
  "tql_prev (set_prev l w m) = (tql_prev m)(l := w)" "tql_next (set_prev l w m) = tql_next m"
  by (simp_all add: set_next_def set_prev_def)

section \<open>The macros\<close>

definition QTAILQ_INIT :: "nat \<Rightarrow> tq_mem \<Rightarrow> tq_mem" where
  "QTAILQ_INIT h m = set_prev (Head h) (Some (Head h)) (set_next (Head h) None m)"

definition QTAILQ_INSERT_HEAD :: "nat \<Rightarrow> nat \<Rightarrow> tq_mem \<Rightarrow> tq_mem option" where
  "QTAILQ_INSERT_HEAD h elm m = do {
     let m = set_next (Entry elm) (tql_next m (Head h)) m;
     let m = (case tql_next m (Entry elm) of
         Some nxt \<Rightarrow> set_prev (Entry nxt) (Some (Entry elm)) m
       | None \<Rightarrow> set_prev (Head h) (Some (Entry elm)) m);
     let m = set_next (Head h) (Some elm) m;
     Some (set_prev (Entry elm) (Some (Head h)) m) }"

definition QTAILQ_INSERT_TAIL :: "nat \<Rightarrow> nat \<Rightarrow> tq_mem \<Rightarrow> tq_mem option" where
  "QTAILQ_INSERT_TAIL h elm m = do {
     let m = set_next (Entry elm) None m;
     let m = set_prev (Entry elm) (tql_prev m (Head h)) m;
     l \<leftarrow> tql_prev m (Head h);
     let m = set_next l (Some elm) m;
     Some (set_prev (Head h) (Some (Entry elm)) m) }"

definition QTAILQ_INSERT_AFTER :: "nat \<Rightarrow> nat \<Rightarrow> nat \<Rightarrow> tq_mem \<Rightarrow> tq_mem option" where
  "QTAILQ_INSERT_AFTER h listelm elm m = do {
     let m = set_next (Entry elm) (tql_next m (Entry listelm)) m;
     let m = (case tql_next m (Entry elm) of
         Some nxt \<Rightarrow> set_prev (Entry nxt) (Some (Entry elm)) m
       | None \<Rightarrow> set_prev (Head h) (Some (Entry elm)) m);
     let m = set_next (Entry listelm) (Some elm) m;
     Some (set_prev (Entry elm) (Some (Entry listelm)) m) }"

definition QTAILQ_INSERT_BEFORE :: "nat \<Rightarrow> nat \<Rightarrow> tq_mem \<Rightarrow> tq_mem option" where
  "QTAILQ_INSERT_BEFORE listelm elm m = do {
     let m = set_prev (Entry elm) (tql_prev m (Entry listelm)) m;
     let m = set_next (Entry elm) (Some listelm) m;
     l \<leftarrow> tql_prev m (Entry listelm);
     let m = set_next l (Some elm) m;
     Some (set_prev (Entry listelm) (Some (Entry elm)) m) }"

definition QTAILQ_REMOVE :: "nat \<Rightarrow> nat \<Rightarrow> tq_mem \<Rightarrow> tq_mem option" where
  "QTAILQ_REMOVE h elm m = do {
     let m = (case tql_next m (Entry elm) of
         Some nxt \<Rightarrow> set_prev (Entry nxt) (tql_prev m (Entry elm)) m
       | None \<Rightarrow> set_prev (Head h) (tql_prev m (Entry elm)) m);
     l \<leftarrow> tql_prev m (Entry elm);
     let m = set_next l (tql_next m (Entry elm)) m;
     let m = set_prev (Entry elm) None m;
     Some (set_next (Entry elm) None m) }"

definition QTAILQ_REMOVE_SEVERAL :: "nat \<Rightarrow> nat \<Rightarrow> nat \<Rightarrow> tq_mem \<Rightarrow> tq_mem option" where
  "QTAILQ_REMOVE_SEVERAL h left right m = do {
     let m = (case tql_next m (Entry right) of
         Some nxt \<Rightarrow> set_prev (Entry nxt) (tql_prev m (Entry left)) m
       | None \<Rightarrow> set_prev (Head h) (tql_prev m (Entry left)) m);
     l \<leftarrow> tql_prev m (Entry left);
     Some (set_next l (tql_next m (Entry right)) m) }"

definition QTAILQ_EMPTY :: "tq_mem \<Rightarrow> nat \<Rightarrow> bool" where
  "QTAILQ_EMPTY m h \<longleftrightarrow> tql_next m (Head h) = None"

definition QTAILQ_FIRST :: "tq_mem \<Rightarrow> nat \<Rightarrow> nat option" where
  "QTAILQ_FIRST m h = tql_next m (Head h)"

definition QTAILQ_NEXT :: "tq_mem \<Rightarrow> nat \<Rightarrow> nat option" where
  "QTAILQ_NEXT m elm = tql_next m (Entry elm)"

definition QTAILQ_IN_USE :: "tq_mem \<Rightarrow> nat \<Rightarrow> bool" where
  "QTAILQ_IN_USE m elm \<longleftrightarrow> tql_prev m (Entry elm) \<noteq> None"

definition QTAILQ_LINK_PREV :: "tq_mem \<Rightarrow> tq_link \<Rightarrow> nat option option" where
  "QTAILQ_LINK_PREV m l = do { p \<leftarrow> tql_prev m l; q \<leftarrow> tql_prev m p; Some (tql_next m q) }"

definition QTAILQ_LAST :: "tq_mem \<Rightarrow> nat \<Rightarrow> nat option option" where
  "QTAILQ_LAST m h = QTAILQ_LINK_PREV m (Head h)"

definition QTAILQ_PREV :: "tq_mem \<Rightarrow> nat \<Rightarrow> nat option option" where
  "QTAILQ_PREV m elm = QTAILQ_LINK_PREV m (Entry elm)"

text \<open>The elements that a loop visits; a loop over a cycle does not end.\<close>

partial_function (option) qtailq_walk :: "tq_mem \<Rightarrow> nat option \<Rightarrow> nat list option" where
  "qtailq_walk m var =
     (case var of None \<Rightarrow> Some []
      | Some x \<Rightarrow> do { xs \<leftarrow> qtailq_walk m (QTAILQ_NEXT m x); Some (x # xs) })"

definition QTAILQ_FOREACH :: "tq_mem \<Rightarrow> nat \<Rightarrow> nat list option" where
  "QTAILQ_FOREACH m h = qtailq_walk m (QTAILQ_FIRST m h)"

partial_function (option) qtailq_walk_back :: "tq_mem \<Rightarrow> nat option \<Rightarrow> nat list option" where
  "qtailq_walk_back m var =
     (case var of None \<Rightarrow> Some []
      | Some x \<Rightarrow> do { p \<leftarrow> QTAILQ_PREV m x; xs \<leftarrow> qtailq_walk_back m p; Some (x # xs) })"

definition QTAILQ_FOREACH_REVERSE :: "tq_mem \<Rightarrow> nat \<Rightarrow> nat list option" where
  "QTAILQ_FOREACH_REVERSE m h = do { l \<leftarrow> QTAILQ_LAST m h; qtailq_walk_back m l }"

declare qtailq_walk.simps [code] qtailq_walk_back.simps [code]

section \<open>Queues that represent lists\<close>

text \<open>The elements \<open>xs\<close> follow the link \<open>l\<close>, each linked back to the one before it.\<close>

primrec tq_seg :: "tq_mem \<Rightarrow> tq_link \<Rightarrow> nat list \<Rightarrow> bool" where
  "tq_seg m l [] \<longleftrightarrow> tql_next m l = None"
| "tq_seg m l (x # xs) \<longleftrightarrow> tql_next m l = Some x \<and> tql_prev m (Entry x) = Some l \<and> tq_seg m (Entry x) xs"

definition last_link :: "tq_link \<Rightarrow> nat list \<Rightarrow> tq_link" where
  "last_link l xs = (if xs = [] then l else Entry (last xs))"

definition tq_rep :: "tq_mem \<Rightarrow> nat \<Rightarrow> nat list \<Rightarrow> bool" where
  "tq_rep m h xs \<longleftrightarrow> distinct xs \<and> tq_seg m (Head h) xs \<and> tql_prev m (Head h) = Some (last_link (Head h) xs)"

lemma last_link_simps [simp]:
  "last_link l [] = l" "last_link l (x # xs) = last_link (Entry x) xs"
  "last_link l (xs @ ys) = last_link (last_link l xs) ys"
  by (simp_all add: last_link_def)

text \<open>Segments that may end in another element, for splitting a queue.\<close>

primrec tq_path :: "tq_mem \<Rightarrow> tq_link \<Rightarrow> nat list \<Rightarrow> bool" where
  "tq_path m l [] \<longleftrightarrow> True"
| "tq_path m l (x # xs) \<longleftrightarrow> tql_next m l = Some x \<and> tql_prev m (Entry x) = Some l \<and> tq_path m (Entry x) xs"

lemma tq_seg_path: "tq_seg m l xs \<longleftrightarrow> tq_path m l xs \<and> tql_next m (last_link l xs) = None"
  by (induction xs arbitrary: l) auto

lemma tq_path_append: "tq_path m l (xs @ ys) \<longleftrightarrow> tq_path m l xs \<and> tq_path m (last_link l xs) ys"
  by (induction xs arbitrary: l) auto

text \<open>A path looks at the next of all its links but the last and at the prev of its elements.\<close>

lemma tq_path_cong:
  assumes "tq_path m l xs"
    and "\<And>k. k \<in> insert l (Entry ` set (butlast xs)) \<Longrightarrow> xs \<noteq> [] \<Longrightarrow> tql_next m' k = tql_next m k"
    and "\<And>x. x \<in> set xs \<Longrightarrow> tql_prev m' (Entry x) = tql_prev m (Entry x)"
  shows "tq_path m' l xs"
  using assms
proof (induction xs arbitrary: l)
  case (Cons x xs)
  have "tq_path m' (Entry x) xs"
  proof (rule Cons.IH)
    show "tq_path m (Entry x) xs" using Cons.prems(1) by simp
  next
    fix k assume "k \<in> insert (Entry x) (Entry ` set (butlast xs))" "xs \<noteq> []"
    then show "tql_next m' k = tql_next m k" by (intro Cons.prems(2)) auto
  next
    fix y assume "y \<in> set xs"
    then show "tql_prev m' (Entry y) = tql_prev m (Entry y)" by (intro Cons.prems(3)) simp
  qed
  moreover have "tql_next m' l = tql_next m l" "tql_prev m' (Entry x) = tql_prev m (Entry x)"
    using Cons.prems(2,3) by simp_all
  ultimately show ?case using Cons.prems(1) by simp
qed simp

lemma last_link_in: "last_link l xs \<in> insert l (Entry ` set xs)"
  by (simp add: last_link_def)

lemma tq_rep_path:
  "tq_rep m h xs \<longleftrightarrow> distinct xs \<and> tq_path m (Head h) xs \<and> tql_next m (last_link (Head h) xs) = None \<and>
     tql_prev m (Head h) = Some (last_link (Head h) xs)"
  by (auto simp: tq_rep_def tq_seg_path)

text \<open>Another queue does not see changes of links that are not its own.\<close>

lemma tq_rep_frame:
  assumes "tq_rep m h xs" and "\<And>k. k \<in> insert (Head h) (Entry ` set xs) \<Longrightarrow> tql_next m' k = tql_next m k \<and> tql_prev m' k = tql_prev m k"
  shows "tq_rep m' h xs"
proof -
  have "tq_path m' (Head h) xs"
  proof (rule tq_path_cong [of m])
    show "tq_path m (Head h) xs" using assms(1) by (simp add: tq_rep_path)
  next
    fix k assume "k \<in> insert (Head h) (Entry ` set (butlast xs))"
    then have "k \<in> insert (Head h) (Entry ` set xs)" by (blast dest: in_set_butlastD)
    then show "tql_next m' k = tql_next m k" using assms(2) by blast
  next
    fix x assume "x \<in> set xs"
    then show "tql_prev m' (Entry x) = tql_prev m (Entry x)" using assms(2) by blast
  qed
  moreover have "last_link (Head h) xs \<in> insert (Head h) (Entry ` set xs)" by (rule last_link_in)
  ultimately show ?thesis using assms by (simp add: tq_rep_path)
qed

section \<open>Linking in and out\<close>

text \<open>Between \<open>xs\<close> and \<open>ys\<close> a queue is joined by two links: the next of the last link of \<open>xs\<close> and the
  prev of the link behind it, the one of the first of \<open>ys\<close> or the head's.\<close>

definition nxt_of :: "nat list \<Rightarrow> nat option" where
  "nxt_of ys = (case ys of [] \<Rightarrow> None | y # _ \<Rightarrow> Some y)"

definition back_link :: "nat \<Rightarrow> nat list \<Rightarrow> tq_link" where
  "back_link h ys = (case ys of [] \<Rightarrow> Head h | y # _ \<Rightarrow> Entry y)"

definition tq_rest :: "tq_mem \<Rightarrow> nat \<Rightarrow> nat list \<Rightarrow> bool" where
  "tq_rest m h ys \<longleftrightarrow> (case ys of [] \<Rightarrow> True
     | y # zs \<Rightarrow> tq_path m (Entry y) zs \<and> tql_next m (last_link (Entry y) zs) = None \<and>
         tql_prev m (Head h) = Some (last_link (Entry y) zs))"

lemma nxt_back_simps [simp]:
  "nxt_of [] = None" "nxt_of (y # ys) = Some y" "back_link h [] = Head h" "back_link h (y # ys) = Entry y"
  by (simp_all add: nxt_of_def back_link_def)

lemma back_link_in: "back_link h ys \<in> insert (Head h) (Entry ` set ys)"
  by (cases ys) simp_all

lemma tq_rep_split:
  "tq_rep m h (xs @ ys) \<longleftrightarrow> distinct (xs @ ys) \<and> tq_path m (Head h) xs \<and>
     tql_next m (last_link (Head h) xs) = nxt_of ys \<and> tql_prev m (back_link h ys) = Some (last_link (Head h) xs) \<and>
     tq_rest m h ys"
  by (cases ys) (auto simp: tq_rep_path tq_path_append tq_rest_def)

lemma tq_front_cong:
  assumes "tq_path m (Head h) xs" and "distinct xs"
    and nx: "\<And>k. k \<in> insert (Head h) (Entry ` set xs) \<Longrightarrow> k \<noteq> last_link (Head h) xs \<Longrightarrow> tql_next m' k = tql_next m k"
    and pv: "\<And>z. z \<in> set xs \<Longrightarrow> tql_prev m' (Entry z) = tql_prev m (Entry z)"
  shows "tq_path m' (Head h) xs"
proof (rule tq_path_cong [of m])
  show "tq_path m (Head h) xs" by fact
next
  fix k assume k: "k \<in> insert (Head h) (Entry ` set (butlast xs))" and ne: "xs \<noteq> []"
  have "last xs \<notin> set (butlast xs)"
    using \<open>distinct xs\<close> ne by (metis append_butlast_last_id distinct_append disjoint_iff list.set_intros(1))
  then have "k \<noteq> last_link (Head h) xs" using k ne by (auto simp: last_link_def)
  then show "tql_next m' k = tql_next m k" using k by (intro nx) (auto dest: in_set_butlastD)
next
  fix z assume "z \<in> set xs"
  then show "tql_prev m' (Entry z) = tql_prev m (Entry z)" by (rule pv)
qed

lemma tq_rest_cong:
  assumes rest: "tq_rest m h ys" and dist: "distinct ys"
    and nx: "\<And>z. z \<in> set ys \<Longrightarrow> tql_next m' (Entry z) = tql_next m (Entry z)"
    and hd: "ys \<noteq> [] \<Longrightarrow> tql_prev m' (Head h) = tql_prev m (Head h)"
    and pv: "\<And>z. z \<in> set (tl ys) \<Longrightarrow> tql_prev m' (Entry z) = tql_prev m (Entry z)"
  shows "tq_rest m' h ys"
proof (cases ys)
  case (Cons y zs)
  have "tq_path m' (Entry y) zs"
  proof (rule tq_path_cong [of m])
    show "tq_path m (Entry y) zs" using rest by (simp add: tq_rest_def Cons)
  next
    fix k assume "k \<in> insert (Entry y) (Entry ` set (butlast zs))"
    then show "tql_next m' k = tql_next m k" using nx Cons by (auto dest: in_set_butlastD)
  next
    fix z assume "z \<in> set zs"
    then show "tql_prev m' (Entry z) = tql_prev m (Entry z)" using pv Cons by simp
  qed
  moreover have "tql_next m' (last_link (Entry y) zs) = tql_next m (last_link (Entry y) zs)"
    using nx Cons by (simp add: last_link_def)
  ultimately show ?thesis using rest hd by (simp add: tq_rest_def Cons)
qed (simp add: tq_rest_def)

lemma tq_link_in:
  assumes rep: "tq_rep m h (xs @ ys)" and x: "x \<notin> set (xs @ ys)"
    and nx: "tql_next m' = (tql_next m)(Entry x := nxt_of ys, last_link (Head h) xs := Some x)"
    and pv: "tql_prev m' = (tql_prev m)(back_link h ys := Some (Entry x), Entry x := Some (last_link (Head h) xs))"
  shows "tq_rep m' h (xs @ x # ys)"
proof -
  note r = rep [unfolded tq_rep_split]
  have a: "last_link (Head h) xs \<in> insert (Head h) (Entry ` set xs)" by (rule last_link_in)
  have b: "back_link h ys \<in> insert (Head h) (Entry ` set ys)" by (rule back_link_in)
  have ab: "last_link (Head h) xs \<noteq> Entry x" "back_link h ys \<noteq> Entry x" using a b x by auto
  have "tq_path m' (Head h) xs"
    by (rule tq_front_cong [of m]) (use r x b in \<open>auto simp: nx pv\<close>)
  moreover have "tq_rest m' h ys"
  proof (rule tq_rest_cong [of m])
    show "tq_rest m h ys" "distinct ys" using r by simp_all
    show "tql_next m' (Entry z) = tql_next m (Entry z)" if "z \<in> set ys" for z
      using that r x a by (auto simp: nx)
    show "tql_prev m' (Head h) = tql_prev m (Head h)" if "ys \<noteq> []"
      using that by (cases ys) (simp_all add: pv)
    show "tql_prev m' (Entry z) = tql_prev m (Entry z)" if "z \<in> set (tl ys)" for z
      using that r x by (cases ys) (auto simp: pv)
  qed
  ultimately have "tq_path m' (Head h) (xs @ [x]) \<and> tq_rest m' h ys"
    using ab by (simp add: tq_path_append nx pv)
  then have "tq_rep m' h ((xs @ [x]) @ ys)"
    unfolding tq_rep_split using r x ab by (simp add: nx pv)
  then show ?thesis by simp
qed

lemma tq_link_out:
  assumes rep: "tq_rep m h (xs @ zs @ ys)"
    and nx: "tql_next m' = (tql_next m)(last_link (Head h) xs := nxt_of ys)"
    and pv: "tql_prev m' = (tql_prev m)(back_link h ys := Some (last_link (Head h) xs))"
  shows "tq_rep m' h (xs @ ys)"
proof -
  have r: "distinct (xs @ zs @ ys)" "tq_path m (Head h) xs" "tq_rest m h ys"
    using rep tq_rep_split [of m h "xs @ zs" ys] by (simp_all add: tq_path_append)
  have a: "last_link (Head h) xs \<in> insert (Head h) (Entry ` set xs)" by (rule last_link_in)
  have b: "back_link h ys \<in> insert (Head h) (Entry ` set ys)" by (rule back_link_in)
  have "tq_path m' (Head h) xs"
    by (rule tq_front_cong [of m]) (use r b in \<open>auto simp: nx pv\<close>)
  moreover have "tq_rest m' h ys"
  proof (rule tq_rest_cong [of m])
    show "tq_rest m h ys" "distinct ys" using r by simp_all
    show "tql_next m' (Entry z) = tql_next m (Entry z)" if "z \<in> set ys" for z
      using that r a by (auto simp: nx)
    show "tql_prev m' (Head h) = tql_prev m (Head h)" if "ys \<noteq> []"
      using that by (cases ys) (simp_all add: pv)
    show "tql_prev m' (Entry z) = tql_prev m (Entry z)" if "z \<in> set (tl ys)" for z
      using that r by (cases ys) (auto simp: pv)
  qed
  ultimately show ?thesis unfolding tq_rep_split using r(1) by (auto simp: nx pv)
qed

lemma tq_rep_links:
  assumes "tq_rep m h (xs @ zs @ ys)" and "zs \<noteq> []"
  shows "tql_prev m (Entry (hd zs)) = Some (last_link (Head h) xs)" "tql_next m (Entry (last zs)) = nxt_of ys"
    "tql_next m (last_link (Head h) xs) = Some (hd zs)" "tql_prev m (back_link h ys) = Some (Entry (last zs))"
    "distinct (xs @ zs @ ys)"
proof -
  from assms obtain z us where z: "zs = z # us" by (cases zs) auto
  show "tql_prev m (Entry (hd zs)) = Some (last_link (Head h) xs)" "tql_next m (last_link (Head h) xs) = Some (hd zs)"
    "distinct (xs @ zs @ ys)"
    using assms(1) tq_rep_split [of m h xs "z # us @ ys"] by (simp_all add: z)
  show "tql_next m (Entry (last zs)) = nxt_of ys" "tql_prev m (back_link h ys) = Some (Entry (last zs))"
    using assms tq_rep_split [of m h "xs @ zs" ys] by (simp_all add: last_link_def)
qed

end
