(* ===== verification/Tailq_Props.thy ===== *)
theory Tailq_Props
  imports Tailq
begin

text \<open>
  The macros of the tail queue implement the operations on lists: what a queue represents after
  each of them, that no other queue changes, and what the accessors and loops give.
\<close>

section \<open>The operations\<close>

definition tq_links :: "nat \<Rightarrow> nat list \<Rightarrow> tq_link set" where
  "tq_links h xs = insert (Head h) (Entry ` set xs)"

text \<open>Only links of \<open>L\<close> change.\<close>

definition tq_frame :: "tq_link set \<Rightarrow> tq_mem \<Rightarrow> tq_mem \<Rightarrow> bool" where
  "tq_frame L m m' \<longleftrightarrow> (\<forall>k. k \<notin> L \<longrightarrow> tql_next m' k = tql_next m k \<and> tql_prev m' k = tql_prev m k)"

lemma tq_frame_rep:
  assumes "tq_frame (tq_links h xs) m m'" and "h' \<noteq> h" and "set ys \<inter> set xs = {}" and "tq_rep m h' ys"
  shows "tq_rep m' h' ys"
  by (rule tq_rep_frame [OF assms(4)]) (use assms(1-3) in \<open>auto simp: tq_frame_def tq_links_def\<close>)

lemma tq_init_rep: "tq_rep (QTAILQ_INIT h m) h []"
  by (simp add: tq_rep_def QTAILQ_INIT_def)

lemma tq_init_frame: "tq_frame (tq_links h []) m (QTAILQ_INIT h m)"
  by (simp add: tq_frame_def tq_links_def QTAILQ_INIT_def)

lemma link_in_returns:
  assumes "tq_rep m h (xs @ ys)" and "x \<notin> set (xs @ ys)"
    and "op = Some m'"
    and "tql_next m' = (tql_next m)(Entry x := nxt_of ys, last_link (Head h) xs := Some x)"
    and "tql_prev m' = (tql_prev m)(back_link h ys := Some (Entry x), Entry x := Some (last_link (Head h) xs))"
  shows "returns op (\<lambda>m'. tq_rep m' h (xs @ x # ys) \<and> tq_frame (tq_links h (xs @ x # ys)) m m')"
proof -
  have "tq_frame (tq_links h (xs @ x # ys)) m m'"
    using assms(4,5) last_link_in [of "Head h" xs] back_link_in [of h ys] by (auto simp: tq_frame_def tq_links_def)
  then show ?thesis using tq_link_in [OF assms(1,2,4,5)] assms(3) by simp
qed

lemma insert_tail_ok:
  assumes "tq_rep m h xs" and "x \<notin> set xs"
  shows "returns (QTAILQ_INSERT_TAIL h x m) (\<lambda>m'. tq_rep m' h (xs @ [x]) \<and> tq_frame (tq_links h (xs @ [x])) m m')"
proof -
  let ?m = "set_prev (Head h) (Some (Entry x)) (set_next (last_link (Head h) xs) (Some x)
      (set_prev (Entry x) (tql_prev m (Head h)) (set_next (Entry x) None m)))"
  have p: "tql_prev m (Head h) = Some (last_link (Head h) xs)" using assms(1) by (simp add: tq_rep_def)
  then have e: "QTAILQ_INSERT_TAIL h x m = Some ?m" by (simp add: QTAILQ_INSERT_TAIL_def Let_def)
  show ?thesis
    by (rule link_in_returns [where xs = xs and ys = "[]", simplified, OF _ _ e])
      (use assms p in \<open>auto simp: fun_eq_iff\<close>)
qed

lemma nxt_set_prev_simp [simp]:
  "(case nxt_of ys of Some nxt \<Rightarrow> set_prev (Entry nxt) v m | None \<Rightarrow> set_prev (Head h) v m) = set_prev (back_link h ys) v m"
  by (cases ys) simp_all

lemma insert_head_ok:
  assumes "tq_rep m h xs" and "x \<notin> set xs"
  shows "returns (QTAILQ_INSERT_HEAD h x m) (\<lambda>m'. tq_rep m' h (x # xs) \<and> tq_frame (tq_links h (x # xs)) m m')"
proof -
  let ?m = "set_prev (Entry x) (Some (Head h)) (set_next (Head h) (Some x)
      (set_prev (back_link h xs) (Some (Entry x)) (set_next (Entry x) (nxt_of xs) m)))"
  have p: "tql_next m (Head h) = nxt_of xs" using assms(1) tq_rep_split [of m h "[]" xs] by simp
  then have e: "QTAILQ_INSERT_HEAD h x m = Some ?m" by (simp add: QTAILQ_INSERT_HEAD_def Let_def)
  show ?thesis
    by (rule link_in_returns [where xs = "[]" and ys = xs, simplified, OF _ _ e]) (use assms in \<open>auto simp: fun_eq_iff\<close>)
qed

lemma insert_after_ok:
  assumes "tq_rep m h (xs @ y # ys)" and "x \<notin> set (xs @ y # ys)"
  shows "returns (QTAILQ_INSERT_AFTER h y x m)
    (\<lambda>m'. tq_rep m' h (xs @ y # x # ys) \<and> tq_frame (tq_links h (xs @ y # x # ys)) m m')"
proof -
  let ?m = "set_prev (Entry x) (Some (Entry y)) (set_next (Entry y) (Some x)
      (set_prev (back_link h ys) (Some (Entry x)) (set_next (Entry x) (nxt_of ys) m)))"
  have p: "tql_next m (Entry y) = nxt_of ys" using assms(1) tq_rep_split [of m h "xs @ [y]" ys] by simp
  then have e: "QTAILQ_INSERT_AFTER h y x m = Some ?m" by (simp add: QTAILQ_INSERT_AFTER_def Let_def)
  show ?thesis
    by (rule link_in_returns [where xs = "xs @ [y]" and ys = ys, simplified, OF _ _ e]) (use assms in \<open>auto simp: fun_eq_iff\<close>)
qed

lemma insert_before_ok:
  assumes "tq_rep m h (xs @ y # ys)" and "x \<notin> set (xs @ y # ys)"
  shows "returns (QTAILQ_INSERT_BEFORE y x m)
    (\<lambda>m'. tq_rep m' h (xs @ x # y # ys) \<and> tq_frame (tq_links h (xs @ x # y # ys)) m m')"
proof -
  let ?l = "last_link (Head h) xs"
  let ?m = "set_prev (Entry y) (Some (Entry x)) (set_next ?l (Some x)
      (set_next (Entry x) (Some y) (set_prev (Entry x) (Some ?l) m)))"
  have p: "tql_prev m (Entry y) = Some ?l" using assms(1) tq_rep_split [of m h xs "y # ys"] by simp
  moreover have "y \<noteq> x" using assms(2) by auto
  ultimately have e: "QTAILQ_INSERT_BEFORE y x m = Some ?m" by (simp add: QTAILQ_INSERT_BEFORE_def Let_def)
  show ?thesis
    by (rule link_in_returns [where xs = xs and ys = "y # ys", simplified, OF _ _ e])
      (use assms \<open>y \<noteq> x\<close> in \<open>auto simp: fun_eq_iff\<close>)
qed

lemma remove_several_ok:
  assumes rep: "tq_rep m h (xs @ zs @ ys)" and zs: "zs \<noteq> []"
  shows "returns (QTAILQ_REMOVE_SEVERAL h (hd zs) (last zs) m)
    (\<lambda>m'. tq_rep m' h (xs @ ys) \<and> tq_frame (tq_links h (xs @ ys)) m m')"
proof -
  let ?l = "last_link (Head h) xs"
  let ?m = "set_next ?l (nxt_of ys) (set_prev (back_link h ys) (Some ?l) m)"
  have hd_last: "hd zs \<in> set zs" "last zs \<in> set zs" using zs by simp_all
  note lk = tq_rep_links [OF rep zs]
  have b: "back_link h ys \<noteq> Entry (hd zs)" using back_link_in [of h ys] lk(5) hd_last by auto
  have e: "QTAILQ_REMOVE_SEVERAL h (hd zs) (last zs) m = Some ?m"
    using lk(1,2) b by (simp add: QTAILQ_REMOVE_SEVERAL_def Let_def)
  have "tq_rep ?m h (xs @ ys)" by (rule tq_link_out [OF rep]) simp_all
  moreover have "tq_frame (tq_links h (xs @ ys)) m ?m"
    using last_link_in [of "Head h" xs] back_link_in [of h ys] by (auto simp: tq_frame_def tq_links_def)
  ultimately show ?thesis using e by simp
qed

text \<open>\<^verbatim>\<open>QTAILQ_REMOVE\<close> is the removal of a range of one, then the links of the element are cleared.\<close>

lemma remove_eq:
  assumes rep: "tq_rep m h (xs @ x # ys)"
  shows "QTAILQ_REMOVE h x m = map_option (\<lambda>m. set_next (Entry x) None (set_prev (Entry x) None m)) (QTAILQ_REMOVE_SEVERAL h x x m)"
proof -
  have rep': "tq_rep m h (xs @ [x] @ ys)" using rep by simp
  note lk = tq_rep_links [OF rep', simplified]
  show ?thesis using lk(1,2) by (simp add: QTAILQ_REMOVE_def QTAILQ_REMOVE_SEVERAL_def Let_def)
qed

lemma remove_ok:
  assumes rep: "tq_rep m h (xs @ x # ys)"
  shows "returns (QTAILQ_REMOVE h x m)
    (\<lambda>m'. tq_rep m' h (xs @ ys) \<and> \<not> QTAILQ_IN_USE m' x \<and> QTAILQ_NEXT m' x = None \<and>
      tq_frame (tq_links h (xs @ x # ys)) m m')"
proof -
  have rep': "tq_rep m h (xs @ [x] @ ys)" using rep by simp
  obtain m1 where m1: "QTAILQ_REMOVE_SEVERAL h x x m = Some m1" "tq_rep m1 h (xs @ ys)"
    and f: "tq_frame (tq_links h (xs @ ys)) m m1"
    using remove_several_ok [OF rep'] by (auto elim!: returnsE)
  let ?m = "set_next (Entry x) None (set_prev (Entry x) None m1)"
  have x: "x \<notin> set (xs @ ys)" using rep by (auto simp: tq_rep_def)
  have "tq_rep ?m h (xs @ ys)" by (rule tq_rep_frame [OF m1(2)]) (use x in auto)
  moreover have "tq_frame (tq_links h (xs @ x # ys)) m ?m" using f by (auto simp: tq_frame_def tq_links_def)
  ultimately show ?thesis by (simp add: remove_eq [OF rep] m1(1) QTAILQ_IN_USE_def QTAILQ_NEXT_def)
qed

section \<open>Accessors and loops\<close>

lemma first_ok: "tq_rep m h xs \<Longrightarrow> QTAILQ_FIRST m h = nxt_of xs"
  by (cases xs) (simp_all add: QTAILQ_FIRST_def tq_rep_def)

lemma next_ok: "tq_rep m h (xs @ x # ys) \<Longrightarrow> QTAILQ_NEXT m x = nxt_of ys"
  using tq_rep_links(2) [of m h xs "[x]" ys] by (simp add: QTAILQ_NEXT_def)

text \<open>The link of the head and the link of an element name the last link before them.\<close>

definition last_elm :: "nat list \<Rightarrow> nat option" where
  "last_elm xs = (if xs = [] then None else Some (last xs))"

lemma link_prev_ok:
  assumes rep: "tq_rep m h (xs @ ys)" and l: "tql_prev m l = Some (last_link (Head h) xs)"
  shows "QTAILQ_LINK_PREV m l = Some (last_elm xs)"
proof (cases xs rule: rev_cases)
  case Nil
  have "tql_prev m (Head h) = Some (last_link (Head h) ys)" "tql_next m (last_link (Head h) ys) = None"
    using rep by (simp_all add: Nil tq_rep_path)
  then show ?thesis using l by (simp add: QTAILQ_LINK_PREV_def Nil last_elm_def)
next
  case (snoc us x)
  have "tql_prev m (Entry x) = Some (last_link (Head h) us)" "tql_next m (last_link (Head h) us) = Some x"
    using tq_rep_links [of m h us "[x]" ys] rep by (simp_all add: snoc)
  then show ?thesis using l by (simp add: QTAILQ_LINK_PREV_def snoc last_elm_def)
qed

lemma last_ok: "tq_rep m h xs \<Longrightarrow> QTAILQ_LAST m h = Some (last_elm xs)"
  unfolding QTAILQ_LAST_def by (rule link_prev_ok [of _ _ _ "[]"]) (simp_all add: tq_rep_def)

lemma prev_ok: "tq_rep m h (xs @ x # ys) \<Longrightarrow> QTAILQ_PREV m x = Some (last_elm xs)"
  unfolding QTAILQ_PREV_def
  by (rule link_prev_ok, assumption) (use tq_rep_links(1) [of m h xs "[x]" ys] in simp)

lemma walk_ok: "tq_rep m h (xs @ ys) \<Longrightarrow> qtailq_walk m (nxt_of ys) = Some ys"
proof (induction ys arbitrary: xs)
  case Nil
  then show ?case by (simp add: qtailq_walk.simps)
next
  case (Cons y ys)
  have "qtailq_walk m (nxt_of ys) = Some ys" using Cons.IH [of "xs @ [y]"] Cons.prems by simp
  then show ?case using next_ok [OF Cons.prems] by (simp add: qtailq_walk.simps [of m "Some y"])
qed

lemma walk_back_ok: "tq_rep m h (xs @ ys) \<Longrightarrow> qtailq_walk_back m (last_elm xs) = Some (rev xs)"
proof (induction xs arbitrary: ys rule: rev_induct)
  case Nil
  then show ?case by (simp add: qtailq_walk_back.simps last_elm_def)
next
  case (snoc x xs)
  have rep: "tq_rep m h (xs @ x # ys)" using snoc.prems by simp
  have "qtailq_walk_back m (last_elm xs) = Some (rev xs)" using snoc.IH [of "x # ys"] rep by simp
  then show ?case using prev_ok [OF rep] by (simp add: qtailq_walk_back.simps [of m "Some x"] last_elm_def [of "xs @ [x]"])
qed

lemma foreach_ok:
  assumes "tq_rep m h xs"
  shows "QTAILQ_FOREACH m h = Some xs" "QTAILQ_FOREACH_REVERSE m h = Some (rev xs)"
  using walk_ok [of m h "[]" xs] walk_back_ok [of m h xs "[]"] first_ok [OF assms] last_ok [OF assms] assms
  by (simp_all add: QTAILQ_FOREACH_def QTAILQ_FOREACH_REVERSE_def)

end
