(* ===== verification/Line_Queues.thy ===== *)
theory Line_Queues
  imports Tailq_Props Tiny
begin

text \<open>
  The lists of free and of full lines of FTL, as the tail queues that \<^verbatim>\<open>ftl.c\<close> uses. The locale
  \<open>tail_queue\<close> is what FTL needs of a queue: initialisation, the first element, insertion at the
  tail and removal; it is interpreted on the macros of \<^verbatim>\<open>queue.h\<close>.
\<close>

section \<open>The interface\<close>

locale tail_queue =
  fixes rep :: "'m \<Rightarrow> nat \<Rightarrow> nat list \<Rightarrow> bool"
    and init :: "nat \<Rightarrow> 'm \<Rightarrow> 'm"
    and first :: "'m \<Rightarrow> nat \<Rightarrow> nat option"
    and ins :: "nat \<Rightarrow> nat \<Rightarrow> 'm \<Rightarrow> 'm option"
    and rem :: "nat \<Rightarrow> nat \<Rightarrow> 'm \<Rightarrow> 'm option"
  assumes init: "rep (init h m) h []"
    and init_other: "h' \<noteq> h \<Longrightarrow> rep m h' ys \<Longrightarrow> rep (init h m) h' ys"
    and first: "rep m h xs \<Longrightarrow> first m h = nxt_of xs"
    and ins: "rep m h xs \<Longrightarrow> x \<notin> set xs \<Longrightarrow> returns (ins h x m) (\<lambda>m'. rep m' h (xs @ [x]) \<and>
      (\<forall>h' ys. h' \<noteq> h \<longrightarrow> set ys \<inter> set (xs @ [x]) = {} \<longrightarrow> rep m h' ys \<longrightarrow> rep m' h' ys))"
    and rem: "rep m h (xs @ x # ys) \<Longrightarrow> returns (rem h x m) (\<lambda>m'. rep m' h (xs @ ys) \<and>
      (\<forall>h' zs. h' \<noteq> h \<longrightarrow> set zs \<inter> set (xs @ x # ys) = {} \<longrightarrow> rep m h' zs \<longrightarrow> rep m' h' zs))"
begin

text \<open>Two queues that share no element.\<close>

definition two_reps :: "'m \<Rightarrow> nat \<Rightarrow> nat list \<Rightarrow> nat \<Rightarrow> nat list \<Rightarrow> bool" where
  "two_reps m h xs k ys \<longleftrightarrow> rep m h xs \<and> rep m k ys"

lemma two_sym: "two_reps m h xs k ys \<longleftrightarrow> two_reps m k ys h xs"
  by (auto simp: two_reps_def)

lemma two_init: "h \<noteq> k \<Longrightarrow> two_reps (init k (init h m)) h [] k []"
  by (simp add: two_reps_def init init_other)

lemma two_ins:
  assumes "two_reps m h xs k ys" and "h \<noteq> k" and "x \<notin> set xs \<union> set ys" and "set xs \<inter> set ys = {}"
  shows "returns (ins h x m) (\<lambda>m'. two_reps m' h (xs @ [x]) k ys)"
proof -
  have "set ys \<inter> set (xs @ [x]) = {}" using assms(3,4) by auto
  then show ?thesis
    using ins [of m h xs x] assms by (auto simp: two_reps_def elim!: returns_mono)
qed

lemma two_rem:
  assumes "two_reps m h xs k ys" and "h \<noteq> k" and "x \<in> set xs" and "distinct xs" and "set xs \<inter> set ys = {}"
  shows "returns (rem h x m) (\<lambda>m'. two_reps m' h (remove1 x xs) k ys)"
proof -
  obtain us vs where s: "xs = us @ x # vs" "x \<notin> set us" using assms(3) by (meson split_list_first)
  have "set ys \<inter> set (us @ x # vs) = {}" using assms(5) by (auto simp: s)
  then show ?thesis
    using rem [of m h us x vs] assms(1,2) s by (auto simp: two_reps_def remove1_append elim!: returns_mono)
qed

lemma two_fill:
  assumes "two_reps m h xs k ys" and "h \<noteq> k" and "distinct (xs @ zs)" and "set (xs @ zs) \<inter> set ys = {}"
  shows "returns (foldM (ins h) zs m) (\<lambda>m'. two_reps m' h (xs @ zs) k ys)"
  using assms
proof (induction zs arbitrary: xs m)
  case (Cons z zs)
  have "returns (ins h z m) (\<lambda>m'. two_reps m' h (xs @ [z]) k ys)"
    using Cons.prems by (intro two_ins) auto
  then obtain m1 where "ins h z m = Some m1" "two_reps m1 h (xs @ [z]) k ys" by (auto elim!: returnsE)
  then show ?case using Cons.IH [of m1 "xs @ [z]"] Cons.prems by simp
qed simp

end

interpretation tq: tail_queue tq_rep QTAILQ_INIT QTAILQ_FIRST QTAILQ_INSERT_TAIL QTAILQ_REMOVE
proof
  fix m h h' xs ys x
  show "tq_rep (QTAILQ_INIT h m) h []" by (rule tq_init_rep)
  show "h' \<noteq> h \<Longrightarrow> tq_rep m h' ys \<Longrightarrow> tq_rep (QTAILQ_INIT h m) h' ys"
    by (rule tq_frame_rep [OF tq_init_frame]) simp_all
  show "tq_rep m h xs \<Longrightarrow> QTAILQ_FIRST m h = nxt_of xs" by (rule first_ok)
  show "returns (QTAILQ_INSERT_TAIL h x m) (\<lambda>m'. tq_rep m' h (xs @ [x]) \<and>
      (\<forall>h' ys. h' \<noteq> h \<longrightarrow> set ys \<inter> set (xs @ [x]) = {} \<longrightarrow> tq_rep m h' ys \<longrightarrow> tq_rep m' h' ys))"
    if "tq_rep m h xs" "x \<notin> set xs"
    by (rule returns_mono [OF insert_tail_ok [OF that]]) (blast intro: tq_frame_rep)
  show "returns (QTAILQ_REMOVE h x m) (\<lambda>m'. tq_rep m' h (xs @ ys) \<and>
      (\<forall>h' zs. h' \<noteq> h \<longrightarrow> set zs \<inter> set (xs @ x # ys) = {} \<longrightarrow> tq_rep m h' zs \<longrightarrow> tq_rep m' h' zs))"
    if "tq_rep m h (xs @ x # ys)"
    by (rule returns_mono [OF remove_ok [OF that]]) (blast intro: tq_frame_rep)
qed

section \<open>The lines of FTL\<close>

definition FREE_LINES :: nat where "FREE_LINES = 0"
definition FULL_LINES :: nat where "FULL_LINES = 1"

definition line_queues :: "tq_mem \<Rightarrow> ssd \<Rightarrow> bool" where
  "line_queues m s \<longleftrightarrow> tq_rep m FREE_LINES (free_line_list (ssd_lm s)) \<and> tq_rep m FULL_LINES (full_line_list (ssd_lm s))"

lemma line_heads [simp]: "FREE_LINES \<noteq> FULL_LINES" "FULL_LINES \<noteq> FREE_LINES"
  by (simp_all add: FREE_LINES_def FULL_LINES_def)

lemma line_queues_two:
  "line_queues m s \<longleftrightarrow> tq.two_reps m FREE_LINES (freeL s) FULL_LINES (fullL s)"
  "line_queues m s \<longleftrightarrow> tq.two_reps m FULL_LINES (fullL s) FREE_LINES (freeL s)"
  by (auto simp: line_queues_def tq.two_reps_def)

lemma line_queues_cong:
  "freeL s' = freeL s \<Longrightarrow> fullL s' = fullL s \<Longrightarrow> line_queues m s' = line_queues m s"
  by (simp add: line_queues_def)

lemma lists_ok_lists:
  assumes "lists_ok s X"
  shows "distinct (freeL s)" "distinct (fullL s)" "set (freeL s) \<inter> set (fullL s) = {}"
    "x \<in> X \<Longrightarrow> x \<notin> set (freeL s) \<union> set (fullL s)"
  using assms unfolding lists_ok_def by blast+

lemma init_line_queues:
  "returns (foldM (QTAILQ_INSERT_TAIL FREE_LINES) [0..<nat (blks_per_pl (ssd_sp s))]
     (QTAILQ_INIT FULL_LINES (QTAILQ_INIT FREE_LINES m))) (\<lambda>m'. line_queues m' (ssd_init_lines s))"
proof -
  have "freeL (ssd_init_lines s) = [0..<nat (blks_per_pl (ssd_sp s))]" "fullL (ssd_init_lines s) = []"
    by (simp_all add: ssd_init_lines_def Let_def init_lines_fold nvmev_assert_def)
  then show ?thesis
    using tq.two_fill [OF tq.two_init [of FREE_LINES FULL_LINES m], of "[0..<nat (blks_per_pl (ssd_sp s))]"]
    by (simp add: line_queues_two(1))
qed

lemma next_free_line_queues:
  assumes "lists_ok s X" and "line_queues m s" and "get_next_free_line s = (Some i, s')"
  shows "returns (QTAILQ_REMOVE FREE_LINES i m) (\<lambda>m'. line_queues m' s')"
proof -
  obtain ls where l: "freeL s = i # ls" "freeL s' = ls" "fullL s' = fullL s"
    using assms(3) by (auto simp: get_next_free_line_def Let_def split: list.splits)
  show ?thesis
    using tq.two_rem [OF assms(2) [unfolded line_queues_two(1)], of i] lists_ok_lists [OF assms(1)]
    by (simp add: l line_queues_two(1))
qed

lemma full_list_remove_queues:
  assumes "lists_ok s X" and "line_queues m s" and "full_list_remove s i = Some s'"
  shows "returns (QTAILQ_REMOVE FULL_LINES i m) (\<lambda>m'. line_queues m' s')"
proof -
  have l: "i \<in> set (fullL s)" "fullL s' = remove1 i (fullL s)" "freeL s' = freeL s"
    using assms(3) by (auto simp: full_list_remove_def Let_def split: if_splits)
  show ?thesis
    using tq.two_rem [OF assms(2) [unfolded line_queues_two(2)], of i] lists_ok_lists [OF assms(1)]
    by (simp add: l line_queues_two(2) Int_commute)
qed

lemma add_line_queues:
  assumes "lists_ok s X" and "line_queues m s" and "i \<in> X"
  shows "freeL s' = freeL s @ [i] \<Longrightarrow> fullL s' = fullL s \<Longrightarrow>
      returns (QTAILQ_INSERT_TAIL FREE_LINES i m) (\<lambda>m'. line_queues m' s')"
    and "freeL s' = freeL s \<Longrightarrow> fullL s' = fullL s @ [i] \<Longrightarrow>
      returns (QTAILQ_INSERT_TAIL FULL_LINES i m) (\<lambda>m'. line_queues m' s')"
  using tq.two_ins [OF assms(2) [unfolded line_queues_two(1)], of i]
    tq.two_ins [OF assms(2) [unfolded line_queues_two(2)], of i] lists_ok_lists [OF assms(1)] assms(3)
  by (auto simp: line_queues_def tq.two_reps_def Int_commute elim!: returns_mono)

lemma victim_insert_lists: "victim_insert t i = Some t' \<Longrightarrow> freeL t' = freeL t \<and> fullL t' = fullL t"
  by (auto simp: victim_insert_def Let_def split: bind_splits)

lemma assert_lists: "ssd_lm (nvmev_assert n c s) = ssd_lm s"
  by (simp add: nvmev_assert_def)

lemma retire_line_queues:
  assumes ok: "lists_ok s X" and q: "line_queues m s" and i: "i \<in> X" and cur: "wp_curline (ssd_wp s) = Some i"
    and s': "wp_retire_line s = Some s'"
  shows "returns (if line_vpc (lm_lines (ssd_lm s) ! i) = pgs_per_line (ssd_sp s) then QTAILQ_INSERT_TAIL FULL_LINES i m
    else Some m) (\<lambda>m'. line_queues m' s')"
proof -
  have lt: "i < length (lns s)" using lists_ok_lt [OF ok] i ok by (auto simp: lists_ok_def)
  show ?thesis
  proof (cases "line_vpc (lns s ! i) = pgs_per_line (ssd_sp s)")
    case True
    then have "freeL s' = freeL s" "fullL s' = fullL s @ [i]"
      using s' cur lt by (auto simp: wp_retire_line_def arr_get_def Let_def nvmev_assert_def split: if_splits)
    then show ?thesis using add_line_queues(2) [OF ok q i] True by simp
  next
    case False
    then obtain t where t: "freeL t = freeL s" "fullL t = fullL s" "victim_insert t i = Some s'"
      using s' cur lt by (intro that [of "nvmev_assert 202 (0 < line_ipc (lns s ! i))
          (nvmev_assert 200 (0 \<le> line_vpc (lns s ! i) \<and> line_vpc (lns s ! i) < pgs_per_line (ssd_sp s)) s)"])
        (simp_all add: wp_retire_line_def arr_get_def Let_def assert_lists)
    then have "freeL s' = freeL s" "fullL s' = fullL s" using victim_insert_lists [OF t(3)] t(1,2) by simp_all
    then show ?thesis using q False line_queues_cong [of s' s m] by simp
  qed
qed

lemma line_free_queues:
  assumes ok: "lists_ok s X" and q: "line_queues m s" and i: "unat (g_blk p) \<in> X" and s': "mark_line_free s p = Some s'"
  shows "returns (QTAILQ_INSERT_TAIL FREE_LINES (unat (g_blk p)) m) (\<lambda>m'. line_queues m' s')"
proof -
  have "freeL s' = freeL s @ [unat (g_blk p)]" "fullL s' = fullL s"
    using s' by (auto simp: mark_line_free_def upd_line_def Let_def split: bind_splits)
  then show ?thesis by (rule add_line_queues(1) [OF ok q i])
qed

lemma line_queues_exist:
  assumes "lists_ok s X"
  shows "\<exists>m. line_queues m s"
proof -
  fix m0 :: tq_mem
  have "returns (foldM (QTAILQ_INSERT_TAIL FREE_LINES) (freeL s) (QTAILQ_INIT FULL_LINES (QTAILQ_INIT FREE_LINES m0)))
    (\<lambda>m. tq.two_reps m FREE_LINES (freeL s) FULL_LINES [])"
    using tq.two_fill [OF tq.two_init [of FREE_LINES FULL_LINES m0], of "freeL s"] lists_ok_lists [OF assms] by simp
  then obtain m1 where "tq.two_reps m1 FULL_LINES [] FREE_LINES (freeL s)" using tq.two_sym by (auto elim!: returnsE)
  then have "returns (foldM (QTAILQ_INSERT_TAIL FULL_LINES) (fullL s) m1)
    (\<lambda>m. tq.two_reps m FULL_LINES (fullL s) FREE_LINES (freeL s))"
    using tq.two_fill [of m1 FULL_LINES "[]" FREE_LINES "freeL s" "fullL s"] lists_ok_lists [OF assms] by (simp add: Int_commute)
  then show ?thesis unfolding line_queues_two(2) by (auto elim!: returnsE)
qed

section \<open>Properties\<close>

text \<open>C33. The macros of the tail queue implement the operations on the list of its elements, which may be
  empty: insertion at either end, the first and the last element, whether there is one, and the loops in both
  directions; at every element the insertion before and after it, its removal, which clears its links, and its
  neighbours; and the removal of every range of elements, which leaves the links of the range as they are. None of
  them follows a NULL pointer, and each of them, the initialisation of a queue included, changes no link but those
  of the queue it works on (\<open>tq_frame\<close>).\<close>

theorem tail_queue_refines:
  assumes "tq_rep m h zs" and "x \<notin> set zs"
  shows "tq_rep (QTAILQ_INIT k m) k [] \<and> tq_frame (tq_links k []) m (QTAILQ_INIT k m) \<and>
    returns (QTAILQ_INSERT_HEAD h x m) (\<lambda>m'. tq_rep m' h (x # zs) \<and> tq_frame (tq_links h (x # zs)) m m') \<and>
    returns (QTAILQ_INSERT_TAIL h x m) (\<lambda>m'. tq_rep m' h (zs @ [x]) \<and> tq_frame (tq_links h (zs @ [x])) m m') \<and>
    (QTAILQ_EMPTY m h \<longleftrightarrow> zs = []) \<and> QTAILQ_FIRST m h = nxt_of zs \<and> QTAILQ_LAST m h = Some (last_elm zs) \<and>
    QTAILQ_FOREACH m h = Some zs \<and> QTAILQ_FOREACH_REVERSE m h = Some (rev zs) \<and>
    (\<forall>xs y ys. zs = xs @ y # ys \<longrightarrow>
      returns (QTAILQ_INSERT_AFTER h y x m)
        (\<lambda>m'. tq_rep m' h (xs @ y # x # ys) \<and> tq_frame (tq_links h (xs @ y # x # ys)) m m') \<and>
      returns (QTAILQ_INSERT_BEFORE y x m)
        (\<lambda>m'. tq_rep m' h (xs @ x # y # ys) \<and> tq_frame (tq_links h (xs @ x # y # ys)) m m') \<and>
      returns (QTAILQ_REMOVE h y m) (\<lambda>m'. tq_rep m' h (xs @ ys) \<and> \<not> QTAILQ_IN_USE m' y \<and>
        QTAILQ_NEXT m' y = None \<and> tq_frame (tq_links h (xs @ y # ys)) m m') \<and>
      QTAILQ_IN_USE m y \<and> QTAILQ_NEXT m y = nxt_of ys \<and> QTAILQ_PREV m y = Some (last_elm xs)) \<and>
    (\<forall>xs us ys. zs = xs @ us @ ys \<longrightarrow> us \<noteq> [] \<longrightarrow>
      returns (QTAILQ_REMOVE_SEVERAL h (hd us) (last us) m)
        (\<lambda>m'. tq_rep m' h (xs @ ys) \<and> tq_frame (tq_links h (xs @ ys)) m m'))"
proof (intro conjI allI impI)
  show "QTAILQ_EMPTY m h \<longleftrightarrow> zs = []"
    using first_ok [OF assms(1)] by (simp add: QTAILQ_EMPTY_def QTAILQ_FIRST_def nxt_of_def split: list.splits)
next
  fix xs y ys assume zs: "zs = xs @ y # ys"
  note r = assms [unfolded zs]
  show "returns (QTAILQ_INSERT_AFTER h y x m)
        (\<lambda>m'. tq_rep m' h (xs @ y # x # ys) \<and> tq_frame (tq_links h (xs @ y # x # ys)) m m')"
    by (rule insert_after_ok [OF r])
  show "returns (QTAILQ_INSERT_BEFORE y x m)
        (\<lambda>m'. tq_rep m' h (xs @ x # y # ys) \<and> tq_frame (tq_links h (xs @ x # y # ys)) m m')"
    by (rule insert_before_ok [OF r])
  show "returns (QTAILQ_REMOVE h y m) (\<lambda>m'. tq_rep m' h (xs @ ys) \<and> \<not> QTAILQ_IN_USE m' y \<and>
        QTAILQ_NEXT m' y = None \<and> tq_frame (tq_links h (xs @ y # ys)) m m')"
    by (rule remove_ok [OF r(1)])
  show "QTAILQ_IN_USE m y" using tq_rep_links(1) [of m h xs "[y]" ys] r(1) by (simp add: QTAILQ_IN_USE_def)
  show "QTAILQ_NEXT m y = nxt_of ys" by (rule next_ok [OF r(1)])
  show "QTAILQ_PREV m y = Some (last_elm xs)" by (rule prev_ok [OF r(1)])
next
  fix xs us ys assume "zs = xs @ us @ ys" "us \<noteq> []"
  then show "returns (QTAILQ_REMOVE_SEVERAL h (hd us) (last us) m)
        (\<lambda>m'. tq_rep m' h (xs @ ys) \<and> tq_frame (tq_links h (xs @ ys)) m m')"
    using remove_several_ok assms(1) by simp
qed (rule tq_init_rep tq_init_frame insert_head_ok [OF assms] insert_tail_ok [OF assms] first_ok [OF assms(1)]
    last_ok [OF assms(1)] foreach_ok [OF assms(1)])+

text \<open>Three elements in two queues.\<close>

definition demo_queue_mem :: "tq_mem option" where
  "demo_queue_mem = foldM (QTAILQ_INSERT_TAIL 0) [5, 7]
     (QTAILQ_INIT 0 \<lparr>tql_next = \<lambda>_. None, tql_prev = \<lambda>_. None\<rparr>)"

lemma demo_queue_rep: "returns demo_queue_mem (\<lambda>m. tq_rep m 0 [5, 7])"
  by (simp add: demo_queue_mem_def QTAILQ_INSERT_TAIL_def QTAILQ_INIT_def tq_rep_def last_link_def)

theorem tail_queue_refines_witness:
  "returns demo_queue_mem (\<lambda>m. returns (QTAILQ_INSERT_AFTER 0 5 6 m) (\<lambda>m'. QTAILQ_FIRST m' 0 = Some 5 \<and> tq_rep m' 0 [5, 6, 7]))"
proof -
  obtain m where m: "demo_queue_mem = Some m" "tq_rep m 0 ([] @ 5 # [7])" using demo_queue_rep by (auto elim!: returnsE)
  have "\<forall>xs y ys. [] @ 5 # [7] = xs @ y # ys \<longrightarrow>
      returns (QTAILQ_INSERT_AFTER 0 y 6 m) (\<lambda>m'. tq_rep m' 0 (xs @ y # 6 # ys) \<and> tq_frame (tq_links 0 (xs @ y # 6 # ys)) m m')"
    using tail_queue_refines [OF m(2), of 6 0] by simp
  from this [rule_format, OF refl]
  have "returns (QTAILQ_INSERT_AFTER 0 5 6 m) (\<lambda>m'. tq_rep m' 0 ([] @ 5 # 6 # [7]) \<and> tq_frame (tq_links 0 ([] @ 5 # 6 # [7])) m m')" .
  then have "returns (QTAILQ_INSERT_AFTER 0 5 6 m) (\<lambda>m'. QTAILQ_FIRST m' 0 = Some 5 \<and> tq_rep m' 0 [5, 6, 7])"
    by (rule returns_mono) (auto dest: first_ok)
  then show ?thesis by (simp add: m(1))
qed

text \<open>C34. The lists of free and of full lines are kept by tail queues: initialisation builds the
  queue of all lines; taking the next free line, taking a line off the full ones, freeing a
  collected line and retiring the current line do on the queues what they do on the lists.\<close>

theorem line_lists_refined:
  assumes "lists_ok s X" and "line_queues m s"
  shows "returns (foldM (QTAILQ_INSERT_TAIL FREE_LINES) [0..<nat (blks_per_pl (ssd_sp s0))]
      (QTAILQ_INIT FULL_LINES (QTAILQ_INIT FREE_LINES m0))) (\<lambda>m'. line_queues m' (ssd_init_lines s0)) \<and>
    QTAILQ_FIRST m FREE_LINES = fst (get_next_free_line s) \<and>
    (\<forall>i s'. get_next_free_line s = (Some i, s') \<longrightarrow> returns (QTAILQ_REMOVE FREE_LINES i m) (\<lambda>m'. line_queues m' s')) \<and>
    (\<forall>i s'. full_list_remove s i = Some s' \<longrightarrow> returns (QTAILQ_REMOVE FULL_LINES i m) (\<lambda>m'. line_queues m' s')) \<and>
    (\<forall>p s'. unat (g_blk p) \<in> X \<longrightarrow> mark_line_free s p = Some s' \<longrightarrow>
      returns (QTAILQ_INSERT_TAIL FREE_LINES (unat (g_blk p)) m) (\<lambda>m'. line_queues m' s')) \<and>
    (\<forall>i s'. i \<in> X \<longrightarrow> wp_curline (ssd_wp s) = Some i \<longrightarrow> wp_retire_line s = Some s' \<longrightarrow>
      returns (if line_vpc (lm_lines (ssd_lm s) ! i) = pgs_per_line (ssd_sp s) then QTAILQ_INSERT_TAIL FULL_LINES i m
        else Some m) (\<lambda>m'. line_queues m' s'))"
proof (intro conjI allI impI)
  show "QTAILQ_FIRST m FREE_LINES = fst (get_next_free_line s)"
    using first_ok [of m FREE_LINES "freeL s"] assms(2)
    by (auto simp: line_queues_def get_next_free_line_def Let_def nxt_of_def split: list.splits)
  show "returns (foldM (QTAILQ_INSERT_TAIL FREE_LINES) [0..<nat (blks_per_pl (ssd_sp s0))]
      (QTAILQ_INIT FULL_LINES (QTAILQ_INIT FREE_LINES m0))) (\<lambda>m'. line_queues m' (ssd_init_lines s0))"
    by (rule init_line_queues)
next
  fix i s' assume "get_next_free_line s = (Some i, s')"
  then show "returns (QTAILQ_REMOVE FREE_LINES i m) (\<lambda>m'. line_queues m' s')" by (rule next_free_line_queues [OF assms])
next
  fix i s' assume "full_list_remove s i = Some s'"
  then show "returns (QTAILQ_REMOVE FULL_LINES i m) (\<lambda>m'. line_queues m' s')" by (rule full_list_remove_queues [OF assms])
next
  fix p s' assume "unat (g_blk p) \<in> X" "mark_line_free s p = Some s'"
  then show "returns (QTAILQ_INSERT_TAIL FREE_LINES (unat (g_blk p)) m) (\<lambda>m'. line_queues m' s')"
    by (rule line_free_queues [OF assms])
next
  fix i s' assume "i \<in> X" "wp_curline (ssd_wp s) = Some i" "wp_retire_line s = Some s'"
  then show "returns (if line_vpc (lm_lines (ssd_lm s) ! i) = pgs_per_line (ssd_sp s) then QTAILQ_INSERT_TAIL FULL_LINES i m
      else Some m) (\<lambda>m'. line_queues m' s')"
    by (rule retire_line_queues [OF assms])
qed

theorem line_lists_refined_witness:
  "returns tiny_run (\<lambda>s. \<exists>m. line_queues m s \<and> QTAILQ_FIRST m FREE_LINES = fst (get_next_free_line s))"
proof -
  obtain s where s: "tiny_run = Some s" "gc_ready s" using tiny_run_ok by (auto elim!: returnsE)
  then obtain cur where "lines_inv s {} cur 0" by (auto simp: gc_ready_def)
  then have ok: "lists_ok s {cur}" by (simp add: lines_inv_def)
  obtain m where m: "line_queues m s" using line_queues_exist [OF ok] by blast
  have "QTAILQ_FIRST m FREE_LINES = fst (get_next_free_line s)" using line_lists_refined [OF ok m] by blast
  with m have "\<exists>m. line_queues m s \<and> QTAILQ_FIRST m FREE_LINES = fst (get_next_free_line s)" by blast
  then show ?thesis by (simp add: s(1))
qed

end
