(* ===== verification/PCI.thy ===== *)
theory PCI
  imports IO
begin

text \<open>
  The PCI side of the device, \<^verbatim>\<open>pci.c\<close> and \<^verbatim>\<open>pci.h\<close>: the configuration space with its header and
  capabilities, the accesses of the PCI core to it, and the controller registers.

  A structure of \<^verbatim>\<open>pci.h\<close> is the bytes of the configuration space from its offset; a bit field is
  bits of its storage unit, the first declared field in the lowest bits. The constants of the
  kernel's \<^verbatim>\<open>pci_regs.h\<close> are a parameter.
\<close>

unbundle bit_operations_syntax

section \<open>Bytes and bit fields\<close>

definition cfg_put :: "nat \<Rightarrow> u8 list \<Rightarrow> u8 list \<Rightarrow> u8 list" where
  "cfg_put off bs xs = take off xs @ bs @ drop (off + length bs) xs"

definition cfg8 :: "u8 list \<Rightarrow> nat \<Rightarrow> u8" where
  "cfg8 xs off = xs ! off"

definition cfg16 :: "u8 list \<Rightarrow> nat \<Rightarrow> u16" where
  "cfg16 xs off = cat16 (xs ! off) (xs ! (off + 1))"

definition cfg32 :: "u8 list \<Rightarrow> nat \<Rightarrow> u32" where
  "cfg32 xs off = cat32 (cfg16 xs off) (cfg16 xs (off + 2))"

text \<open>Assignment to a bit field of \<open>n\<close> bits from bit \<open>lo\<close>.\<close>

definition bits_set :: "nat \<Rightarrow> nat \<Rightarrow> 'a::len word \<Rightarrow> 'a word \<Rightarrow> 'a word" where
  "bits_set lo n v w = (w AND NOT (push_bit lo (mask n))) OR push_bit lo (v AND mask n)"

definition bits_get :: "nat \<Rightarrow> nat \<Rightarrow> 'a::len word \<Rightarrow> 'a word" where
  "bits_get lo n w = drop_bit lo w AND mask n"

definition upd8 :: "nat \<Rightarrow> (u8 \<Rightarrow> u8) \<Rightarrow> u8 list \<Rightarrow> u8 list" where
  "upd8 off f xs = cfg_put off [f (cfg8 xs off)] xs"

definition upd16 :: "nat \<Rightarrow> (u16 \<Rightarrow> u16) \<Rightarrow> u8 list \<Rightarrow> u8 list" where
  "upd16 off f xs = cfg_put off (le16 (f (cfg16 xs off))) xs"

definition upd32 :: "nat \<Rightarrow> (u32 \<Rightarrow> u32) \<Rightarrow> u8 list \<Rightarrow> u8 list" where
  "upd32 off f xs = cfg_put off (le32 (f (cfg32 xs off))) xs"

definition OFFS_PCI_HDR :: nat where "OFFS_PCI_HDR = 0x0"
definition OFFS_PCI_PM_CAP :: nat where "OFFS_PCI_PM_CAP = 0x40"
definition OFFS_PCI_MSIX_CAP :: nat where "OFFS_PCI_MSIX_CAP = 0x50"
definition OFFS_PCIE_CAP :: nat where "OFFS_PCIE_CAP = 0x60"
definition PCI_CFG_SPACE_SIZE :: nat where "PCI_CFG_SPACE_SIZE = 256"

lemmas cfg_offsets = OFFS_PCI_HDR_def OFFS_PCI_PM_CAP_def OFFS_PCI_MSIX_CAP_def OFFS_PCIE_CAP_def
  PCI_CFG_SPACE_SIZE_def

section \<open>Header and capabilities\<close>

record pci_regs =
  PCI_HEADER_TYPE_NORMAL :: u8
  PCI_BASE_CLASS_STORAGE :: u8
  PCI_BASE_ADDRESS_MEM_TYPE_64 :: u32
  PCI_CAP_ID_PM :: u8
  PCI_PM_CAP_PME_D0 :: u32
  PCI_CAP_ID_MSIX :: u8
  PCI_CAP_ID_EXP :: u8
  PCI_EXP_FLAGS :: u8
  PCI_EXP_TYPE_ENDPOINT :: u8
  PCI_EXT_CAP_ID_ERR :: u16
  PCI_EXT_CAP_ID_VC :: u16
  PCI_EXT_CAP_ID_PWR :: u16
  PCI_EXT_CAP_ID_ARI :: u16
  PCI_EXT_CAP_ID_DSN :: u16
  PCI_EXT_CAP_ID_SECPCI :: u16

text \<open>\<^verbatim>\<open>struct pci_header\<close> at offset \<open>p\<close>.\<close>

definition PCI_HEADER_SETTINGS :: "pci_regs \<Rightarrow> nat \<Rightarrow> u64 \<Rightarrow> u8 list \<Rightarrow> u8 list" where
  "PCI_HEADER_SETTINGS R p base_pa xs =
     (let xs = upd16 (p + 0x02) (\<lambda>_. 0x0101) xs;
          xs = upd16 (p + 0x00) (\<lambda>_. 0x0c51) xs;
          xs = upd8 (p + 0x04) (bits_set 1 1 1) xs;
          xs = upd8 (p + 0x06) (bits_set 4 1 1) xs;
          xs = upd8 (p + 0x0e) (bits_set 7 1 0) xs;
          xs = upd8 (p + 0x0e) (bits_set 0 7 (PCI_HEADER_TYPE_NORMAL R)) xs;
          xs = upd8 (p + 0x08) (\<lambda>_. 0x01) xs;
          xs = upd8 (p + 0x0b) (\<lambda>_. PCI_BASE_CLASS_STORAGE R) xs;
          xs = upd8 (p + 0x0a) (\<lambda>_. 0x08) xs;
          xs = upd8 (p + 0x09) (\<lambda>_. 0x02) xs;
          xs = upd32 (p + 0x10) (bits_set 1 2 (drop_bit 1 (PCI_BASE_ADDRESS_MEM_TYPE_64 R))) xs;
          xs = upd32 (p + 0x10) (bits_set 14 18 (ucast (drop_bit 14 (base_pa AND 0xFFFFFFFF)))) xs;
          xs = upd32 (p + 0x14) (\<lambda>_. ucast (drop_bit 32 base_pa)) xs;
          xs = upd16 (p + 0x2e) (\<lambda>_. 0x370d) xs;
          xs = upd16 (p + 0x2c) (\<lambda>_. 0x0c51) xs;
          xs = upd32 (p + 0x30) (\<lambda>_. 0) xs;
          xs = upd8 (p + 0x34) (\<lambda>_. of_nat OFFS_PCI_PM_CAP) xs;
          xs = upd8 (p + 0x3d) (\<lambda>_. 0) xs
      in upd8 (p + 0x3c) (\<lambda>_. 0) xs)"

text \<open>\<^verbatim>\<open>struct pci_pm_cap\<close>: \<open>pid\<close> at 0, \<open>pc\<close> at 2, \<open>pmcs\<close> at 4.\<close>

definition PCI_PMCAP_SETTINGS :: "pci_regs \<Rightarrow> nat \<Rightarrow> u8 list \<Rightarrow> u8 list" where
  "PCI_PMCAP_SETTINGS R p xs =
     (let xs = upd8 p (\<lambda>_. PCI_CAP_ID_PM R) xs;
          xs = upd8 (p + 1) (\<lambda>_. of_nat OFFS_PCI_MSIX_CAP) xs;
          xs = upd16 (p + 2) (bits_set 0 3 3) xs;
          xs = upd16 (p + 4) (bits_set 3 1 1) xs
      in upd16 (p + 4) (bits_set 0 2 (ucast (drop_bit 16 (PCI_PM_CAP_PME_D0 R)))) xs)"

text \<open>\<^verbatim>\<open>struct pci_msix_cap\<close>: \<open>mxid\<close> at 0, \<open>mxc\<close> at 2, \<open>mtab\<close> at 4, \<open>mpba\<close> at 8.\<close>

definition PCI_MSIXCAP_SETTINGS :: "pci_regs \<Rightarrow> nat \<Rightarrow> u8 list \<Rightarrow> u8 list" where
  "PCI_MSIXCAP_SETTINGS R p xs =
     (let xs = upd8 p (\<lambda>_. PCI_CAP_ID_MSIX R) xs;
          xs = upd8 (p + 1) (\<lambda>_. of_nat OFFS_PCIE_CAP) xs;
          xs = upd16 (p + 2) (bits_set 15 1 1) xs;
          xs = upd16 (p + 2) (bits_set 0 11 127) xs;
          xs = upd32 (p + 4) (bits_set 0 3 0) xs;
          xs = upd32 (p + 4) (bits_set 3 29 0x400) xs;
          xs = upd32 (p + 8) (bits_set 3 29 0x1000) xs
      in upd32 (p + 8) (bits_set 0 3 0) xs)"

text \<open>\<^verbatim>\<open>struct pcie_cap\<close>: \<open>pxid\<close> at 0, the bytes of \<open>pxcap\<close> at 2 and 3, \<open>pxdcap\<close> at 4.\<close>

definition PCI_PCIECAP_SETTINGS :: "pci_regs \<Rightarrow> nat \<Rightarrow> u8 list \<Rightarrow> u8 list" where
  "PCI_PCIECAP_SETTINGS R p xs =
     (let xs = upd8 p (\<lambda>_. PCI_CAP_ID_EXP R) xs;
          xs = upd8 (p + 1) (\<lambda>_. 0) xs;
          xs = upd8 (p + 2) (bits_set 0 4 (PCI_EXP_FLAGS R)) xs;
          xs = upd8 (p + 3) (bits_set 1 5 0) xs;
          xs = upd8 (p + 2) (bits_set 4 4 (PCI_EXP_TYPE_ENDPOINT R)) xs;
          xs = upd32 (p + 4) (bits_set 0 3 1) xs;
          xs = upd32 (p + 4) (bits_set 3 2 0) xs;
          xs = upd32 (p + 4) (bits_set 5 1 1) xs;
          xs = upd32 (p + 4) (bits_set 6 3 6) xs;
          xs = upd32 (p + 4) (bits_set 9 3 2) xs;
          xs = upd32 (p + 4) (bits_set 15 1 1) xs;
          xs = upd32 (p + 4) (bits_set 18 8 0) xs;
          xs = upd32 (p + 4) (bits_set 26 2 0) xs
      in upd32 (p + 4) (bits_set 28 1 1) xs)"

text \<open>The header of an extended capability: identifier, then version and next in one unit.\<close>

definition ext_header :: "nat \<Rightarrow> u16 \<Rightarrow> u16 \<Rightarrow> u8 list \<Rightarrow> u8 list" where
  "ext_header p cid nxt xs =
     (let xs = upd16 p (\<lambda>_. cid) xs;
          xs = upd16 (p + 2) (bits_set 0 4 1) xs
      in upd16 (p + 2) (bits_set 4 12 nxt) xs)"

definition PCI_AERCAP_SETTINGS :: "pci_regs \<Rightarrow> nat \<Rightarrow> u8 list \<Rightarrow> u8 list" where
  "PCI_AERCAP_SETTINGS R p = ext_header p (PCI_EXT_CAP_ID_ERR R) (of_nat (PCI_CFG_SPACE_SIZE + 0x50))"

text \<open>\<open>exp_cap + n\<close> moves a pointer to a structure of four bytes.\<close>

definition exp_hdr_at :: "nat \<Rightarrow> nat \<Rightarrow> nat" where
  "exp_hdr_at p n = p + 4 * n"

definition PCI_PCIE_EXTCAP_SETTINGS :: "pci_regs \<Rightarrow> nat \<Rightarrow> u8 list \<Rightarrow> u8 list" where
  "PCI_PCIE_EXTCAP_SETTINGS R p xs =
     (let xs = ext_header (exp_hdr_at p 0x50) (PCI_EXT_CAP_ID_VC R) (of_nat (PCI_CFG_SPACE_SIZE + 0x80)) xs;
          xs = ext_header (exp_hdr_at p 0x80) (PCI_EXT_CAP_ID_PWR R) (of_nat (PCI_CFG_SPACE_SIZE + 0x90)) xs;
          xs = ext_header (exp_hdr_at p 0x90) (PCI_EXT_CAP_ID_ARI R) (of_nat (PCI_CFG_SPACE_SIZE + 0x170)) xs;
          xs = ext_header (exp_hdr_at p 0x170) (PCI_EXT_CAP_ID_DSN R) (of_nat (PCI_CFG_SPACE_SIZE + 0x1a0)) xs
      in ext_header (exp_hdr_at p 0x1a0) (PCI_EXT_CAP_ID_SECPCI R) 0 xs)"

section \<open>Accesses to the configuration space\<close>

text \<open>\<^verbatim>\<open>memcpy\<close> of some bytes into a 32-bit variable: the others keep what they held.\<close>

definition bytes_into :: "u8 list \<Rightarrow> u32 \<Rightarrow> u32" where
  "bytes_into bs v = (let ys = bs @ drop (length bs) (le32 v) in cfg32 ys 0)"

text \<open>An access stays within the page of the configuration space and the four bytes of the value.\<close>

definition cfg_bytes :: "nvmev_dev \<Rightarrow> int \<Rightarrow> int \<Rightarrow> u8 list option" where
  "cfg_bytes d wh n =
     (if wh < 0 \<or> n < 0 \<or> 4 < n \<or> int (length (virtDev d)) < wh + n then None
      else Some (take (nat n) (drop (nat wh) (virtDev d))))"

definition nvmev_pci_read :: "nvmev_dev \<Rightarrow> u32 \<Rightarrow> int \<Rightarrow> int \<Rightarrow> u32 \<Rightarrow> (int \<times> u32) option" where
  "nvmev_pci_read d devfn wh n val =
     (if devfn \<noteq> 0 then Some (1, val)
      else do { bs \<leftarrow> cfg_bytes d wh n; Some (0, bytes_into bs val) })"

text \<open>The writable bits at an offset of the header.\<close>

definition hdr_mask :: "int \<Rightarrow> u32" where
  "hdr_mask target =
     (if target = 0x0 then 0x0
      else if target = 0x04 then 0x0547
      else if target = 0x06 then 0xF200
      else if target = 0x09 then 0x0
      else if target = 0x0d then 0x0
      else if target = 0x0e then 0x0
      else if target = 0x0f then 0x40
      else if target = 0x10 then 0xFFFFC000
      else if target = 0x18 then 0x0
      else if target = 0x1c then 0x0
      else if target = 0x20 then 0x0
      else if target = 0x24 then 0x0
      else if target = 0x28 then 0x0
      else if target = 0x2c then 0x0
      else if target = 0x34 then 0x0
      else if target = 0x3c then 0xF
      else if target = 0x3e then 0x0
      else if target = 0x3f then 0x0
      else 0xFFFFFFFF)"

definition msix_mask :: "int \<Rightarrow> u32" where
  "msix_mask target =
     (if target = 0 then 0x0
      else if target = 2 then 0xC000
      else if target = 4 then 0x0
      else if target = 8 then 0x0
      else 0xFFFFFFFF)"

definition cfg_mask :: "int \<Rightarrow> u32" where
  "cfg_mask wh =
     (if wh < int OFFS_PCI_PM_CAP then hdr_mask wh
      else if wh < int OFFS_PCI_MSIX_CAP then 0xFFFFFFFF
      else if wh < int OFFS_PCIE_CAP then msix_mask (wh - int OFFS_PCI_MSIX_CAP)
      else 0xFFFFFFFF)"

text \<open>\<open>junk\<close> is what the uninitialised local \<open>val\<close> holds; \<open>devfn\<close> is not looked at.\<close>

definition nvmev_pci_write :: "u32 \<Rightarrow> u32 \<Rightarrow> int \<Rightarrow> int \<Rightarrow> u32 \<Rightarrow> nvmev_dev \<Rightarrow> (int \<times> nvmev_dev) option" where
  "nvmev_pci_write junk devfn wh n w d = do {
     bs \<leftarrow> cfg_bytes d wh n;
     let val = bytes_into bs junk;
     let m = cfg_mask wh;
     let d = (if int OFFS_PCI_MSIX_CAP \<le> wh \<and> wh < int OFFS_PCIE_CAP \<and> wh - int OFFS_PCI_MSIX_CAP = 2 \<and>
                 val AND m = m then d\<lparr>msix_enabled := True\<rparr> else d);
     let val = (val AND NOT m) OR (w AND m);
     Some (0, d\<lparr>virtDev := cfg_put (nat wh) (take (nat n) (le32 val)) (virtDev d)\<rparr>)
   }"

section \<open>Controller registers\<close>

text \<open>
  \<^verbatim>\<open>nvmev_proc_bars\<close>, one group of registers after the other. A queue pointer that is NULL is
  followed by the settings of the base addresses, which is undefined.
\<close>

definition copy_intms :: "nvmev_dev \<Rightarrow> nvmev_dev" where
  "copy_intms d = d\<lparr>old_bar := (old_bar d)\<lparr>bar_intms := bar_intms (bar d), bar_intmc := bar_intmc (bar d),
     bar_nssr := bar_nssr (bar d)\<rparr>\<rparr>"

definition proc_aqa :: "nvmev_dev \<Rightarrow> nvmev_dev" where
  "proc_aqa d =
     (if bar_aqa (old_bar d) \<noteq> bar_aqa (bar d) then
        (let d = d\<lparr>old_bar := (old_bar d)\<lparr>bar_aqa := bar_aqa (bar d)\<rparr>\<rparr>;
             q = \<lparr>aq_phase = 1, aq_sq_depth = uint (aqa_asqs (bar d)) + 1, aq_cq_depth = uint (aqa_acqs (bar d)) + 1,
               aq_cq_head = 0, nvme_sq = None, nvme_cq = None\<rparr>;
             d = (if admin_q d \<noteq> None then dev_log ''pci.c'' 104 d else d)
         in d\<lparr>admin_q := Some q\<rparr>)
      else d)"

definition proc_asq :: "nvmev_dev \<Rightarrow> nvmev_dev option" where
  "proc_asq d =
     (if bar_asq (old_bar d) \<noteq> bar_asq (bar d) then do {
        let d = d\<lparr>old_bar := (old_bar d)\<lparr>bar_asq := bar_asq (bar d)\<rparr>\<rparr>;
        q \<leftarrow> admin_q d;
        let d = (if nvme_sq q \<noteq> None then dev_log ''pci.c'' 111 d else d);
        let num_pages = DIV_ROUND_UP (nat (aq_sq_depth q) * 64) PAGE_SIZE;
        Some (d\<lparr>admin_q := Some (q\<lparr>nvme_sq := Some (page_list (bar_asq (bar d)) num_pages)\<rparr>)\<rparr>)
      } else Some d)"

definition proc_acq :: "nvmev_dev \<Rightarrow> nvmev_dev option" where
  "proc_acq d =
     (if bar_acq (old_bar d) \<noteq> bar_acq (bar d) then do {
        let d = d\<lparr>old_bar := (old_bar d)\<lparr>bar_acq := bar_acq (bar d)\<rparr>\<rparr>;
        q \<leftarrow> admin_q d;
        let d = (if nvme_cq q \<noteq> None then dev_log ''pci.c'' 125 d else d);
        let num_pages = DIV_ROUND_UP (nat (aq_cq_depth q) * 16) PAGE_SIZE;
        Some (d\<lparr>admin_q := Some (q\<lparr>nvme_cq := Some (page_list (bar_acq (bar d)) num_pages)\<rparr>)\<rparr>)
      } else Some d)"

text \<open>A controller that is enabled without an admin queue keeps the old value, so that it is looked at again.\<close>

definition proc_cc :: "nvmev_dev \<Rightarrow> nvmev_dev" where
  "proc_cc d =
     (if bar_cc (old_bar d) \<noteq> bar_cc (bar d) then
        (if cc_en (bar d) = 1 \<and> admin_q d = None then d
         else
           (let d = (if cc_en (bar d) = 1 then d\<lparr>bar := set_csts_rdy 1 (bar d)\<rparr>
                     else if cc_en (bar d) = 0 then d\<lparr>bar := set_csts_rdy 0 (bar d)\<rparr> else d);
                d = (if cc_shn (bar d) = 1 then d\<lparr>bar := set_csts_shst 2 (bar d)\<rparr> else d)
            in d\<lparr>old_bar := (old_bar d)\<lparr>bar_cc := bar_cc (bar d)\<rparr>\<rparr>))
      else d)"

definition nvmev_proc_bars :: "nvmev_dev \<Rightarrow> nvmev_dev option" where
  "nvmev_proc_bars d = do {
     d \<leftarrow> proc_asq (proc_aqa (copy_intms d));
     d \<leftarrow> proc_acq d;
     Some (proc_cc d)
   }"

section \<open>Initialisation\<close>

definition reset_bar :: nvme_bar where
  "reset_bar = \<lparr>bar_cap = 0, bar_vs = 0, bar_intms = 0, bar_intmc = 0, bar_cc = 0, bar_rsvd1 = 0, bar_csts = 0,
     bar_nssr = 0, bar_aqa = 0, bar_asq = 0, bar_acq = 0, bar_cmbloc = 0, bar_cmbsz = 0\<rparr>"

text \<open>Two pages of zeros at the BAR, then version 1.0, the smallest page 4 KiB and 1024 entries.\<close>

definition init_bar :: nvme_bar where
  "init_bar = reset_bar\<lparr>bar_vs := bits_set 8 8 0 (bits_set 16 16 1 0),
     bar_cap := bits_set 0 16 1023 (bits_set 48 4 0 0)\<rparr>"

definition pci_dev_setup :: "nvmev_dev \<Rightarrow> nvmev_dev" where
  "pci_dev_setup d = (let n = PAGE_SIZE div 4; dbs0 = replicate n 0 in
     d\<lparr>bar := init_bar, dbs := dbs0, old_dbs := (replicate n 0)[0 := dbs0 ! 0], old_bar := init_bar\<rparr>)"

text \<open>
  \<^verbatim>\<open>__create_pci_bus\<close>: \<open>found\<close> is what \<^verbatim>\<open>pci_scan_bus\<close> found, the number of devices on the bus
  or \<^const>\<open>None\<close> when it failed. The PCI core reads and writes the configuration space through
  \<^const>\<open>nvmev_pci_read\<close> and \<^const>\<open>nvmev_pci_write\<close> while it scans the bus and adds the devices; these
  accesses are not part of this function, they are calls of their own (in the system of all steps,
  the step of a configuration write).
\<close>

definition create_pci_bus :: "nat option \<Rightarrow> nvmev_dev \<Rightarrow> bool \<times> nvmev_dev" where
  "create_pci_bus found d =
     (case found of None \<Rightarrow> (False, dev_log ''pci.c'' 236 d)
      | Some n \<Rightarrow> (True, (pci_dev_setup ^^ n) d))"

text \<open>\<open>apics ! i\<close> is the APIC identifier of processor \<open>i\<close>; the table has 256 entries.\<close>

definition init_apicid_to_cpuid :: "u32 list \<Rightarrow> nvmev_dev \<Rightarrow> nvmev_dev option" where
  "init_apicid_to_cpuid apics d =
     foldM (\<lambda>i d. do { t \<leftarrow> arr_set (apicid_to_cpuid d) (unat (apics ! i)) (of_nat i);
                       Some (d\<lparr>apicid_to_cpuid := t\<rparr>) }) [0..<length apics] d"

definition pci_config_settings :: "pci_regs \<Rightarrow> u64 \<Rightarrow> u8 list \<Rightarrow> u8 list" where
  "pci_config_settings R base_pa =
     PCI_PCIE_EXTCAP_SETTINGS R PCI_CFG_SPACE_SIZE \<circ> PCI_AERCAP_SETTINGS R PCI_CFG_SPACE_SIZE \<circ>
     PCI_PCIECAP_SETTINGS R OFFS_PCIE_CAP \<circ> PCI_MSIXCAP_SETTINGS R OFFS_PCI_MSIX_CAP \<circ>
     PCI_PMCAP_SETTINGS R OFFS_PCI_PM_CAP \<circ> PCI_HEADER_SETTINGS R OFFS_PCI_HDR base_pa"

definition NVMEV_PCI_INIT :: "pci_regs \<Rightarrow> u32 list \<Rightarrow> nat option \<Rightarrow> nvmev_dev \<Rightarrow> (bool \<times> nvmev_dev) option" where
  "NVMEV_PCI_INIT R apics found d = do {
     let d = d\<lparr>virtDev := pci_config_settings R (memmap_start (config d)) (virtDev d)\<rparr>;
     d \<leftarrow> init_apicid_to_cpuid apics d;
     Some (create_pci_bus found d)
   }"

text \<open>
  \<^verbatim>\<open>VDEV_INIT\<close>: the structure is zeroed; what surrounds it (translation layer, memory, clock,
  interrupt descriptors, log) stays.
\<close>

definition zero_config :: nvmev_config where
  "zero_config = \<lparr>memmap_start = 0, memmap_size = 0, storage_start = 0, storage_size = 0, read_delay = 0,
     read_time = 0, read_trailing = 0, write_delay = 0, write_time = 0, write_trailing = 0, nr_io_units = 0,
     io_unit_shift = 0, cfg_cpu_nr_dispatcher = 0, nr_io_cpu = 0, cpu_nr_proc_io = replicate 32 0\<rparr>"

definition VDEV_INIT :: "nvmev_dev \<Rightarrow> nvmev_dev" where
  "VDEV_INIT d = d\<lparr>virtDev := replicate PAGE_SIZE 0, config := zero_config, proc_info := [], proc_turn := 0,
     msix_enabled := True, old_bar := reset_bar, bar := reset_bar, old_dbs := [], dbs := [], nr_ns := 0, nr_sq := 0,
     nr_cq := 0, admin_q := None, sqes := replicate (NR_MAX_IO_QUEUE + 1) None,
     cqes := replicate (NR_MAX_IO_QUEUE + 1) None, io_unit_stat := []\<rparr>"

end
