(* ===== verification/Layout.thy ===== *)
theory Layout
  imports PCI "HOL-Library.Code_Target_Nat"
begin

text \<open>
  The structures of \<^verbatim>\<open>pci.h\<close> and \<^verbatim>\<open>nvme.h\<close> as data, with the layout that the C compiler of the
  machine gives them: a type is an integer of some bytes, a bit field with its storage unit, an
  array, a structure or a union. The layout computes sizes, alignments and the bit position of a
  member; loads and stores of members follow from it. A member without a name is transparent.
\<close>

unbundle bit_operations_syntax

definition PCIE_EXPCAP_START :: nat where "PCIE_EXPCAP_START = 0x50"

section \<open>Types and their layout\<close>

datatype ctype =
    U nat
  | Bits nat nat
  | Arr nat ctype
  | Struct "(string \<times> ctype) list"
  | Union "(string \<times> ctype) list"

definition round_up :: "nat \<Rightarrow> nat \<Rightarrow> nat" where
  "round_up b a = (b + a - 1) div a * a"

fun ctype_align :: "ctype \<Rightarrow> nat"
  and members_align :: "(string \<times> ctype) list \<Rightarrow> nat" where
  "ctype_align (U n) = n"
| "ctype_align (Bits n w) = n"
| "ctype_align (Arr k t) = ctype_align t"
| "ctype_align (Struct fs) = members_align fs"
| "ctype_align (Union fs) = members_align fs"
| "members_align [] = 1"
| "members_align ((f, t) # fs) = max (ctype_align t) (members_align fs)"

text \<open>
  The position of a member that follows bit \<open>b\<close>: a bit field continues the storage unit when it
  fits into what is left of it, everything else starts at its alignment.
\<close>

definition member_pos :: "nat \<Rightarrow> ctype \<Rightarrow> nat" where
  "member_pos b t =
     (case t of Bits n w \<Rightarrow> if b mod (8 * n) + w \<le> 8 * n then b else round_up b (8 * n)
      | _ \<Rightarrow> round_up b (8 * ctype_align t))"

text \<open>Sizes are in bits; \<open>struct_end b fs\<close> is the end of the members \<open>fs\<close> laid out from bit \<open>b\<close>.\<close>

fun ctype_bits :: "ctype \<Rightarrow> nat"
  and struct_end :: "nat \<Rightarrow> (string \<times> ctype) list \<Rightarrow> nat"
  and union_end :: "(string \<times> ctype) list \<Rightarrow> nat" where
  "ctype_bits (U n) = 8 * n"
| "ctype_bits (Bits n w) = w"
| "ctype_bits (Arr k t) = k * ctype_bits t"
| "ctype_bits (Struct fs) = round_up (struct_end 0 fs) (8 * members_align fs)"
| "ctype_bits (Union fs) = round_up (union_end fs) (8 * members_align fs)"
| "struct_end b [] = b"
| "struct_end b ((f, t) # fs) = struct_end (member_pos b t + ctype_bits t) fs"
| "union_end [] = 0"
| "union_end ((f, t) # fs) = max (ctype_bits t) (union_end fs)"

definition ctype_size :: "ctype \<Rightarrow> nat" where
  "ctype_size t = ctype_bits t div 8"

text \<open>The bit position and the type of the member that a path of names selects.\<close>

fun locate :: "nat \<Rightarrow> ctype \<Rightarrow> string list \<Rightarrow> (nat \<times> ctype) option"
  and locate_struct :: "nat \<Rightarrow> nat \<Rightarrow> (string \<times> ctype) list \<Rightarrow> string list \<Rightarrow> (nat \<times> ctype) option"
  and locate_union :: "nat \<Rightarrow> (string \<times> ctype) list \<Rightarrow> string list \<Rightarrow> (nat \<times> ctype) option" where
  "locate o0 t [] = Some (o0, t)"
| "locate o0 (Struct fs) (n # ns) = locate_struct o0 0 fs (n # ns)"
| "locate o0 (Union fs) (n # ns) = locate_union o0 fs (n # ns)"
| "locate o0 (U k) (n # ns) = None"
| "locate o0 (Bits k w) (n # ns) = None"
| "locate o0 (Arr k t) (n # ns) = None"
| "locate_struct o0 b [] ns = None"
| "locate_struct o0 b ((f, t) # fs) ns =
     (let p = member_pos b t in
      case (if f = hd ns then locate (o0 + p) t (tl ns) else if f = '''' then locate (o0 + p) t ns else None) of
        Some r \<Rightarrow> Some r
      | None \<Rightarrow> locate_struct o0 (p + ctype_bits t) fs ns)"
| "locate_union o0 [] ns = None"
| "locate_union o0 ((f, t) # fs) ns =
     (case (if f = hd ns then locate o0 t (tl ns) else if f = '''' then locate o0 t ns else None) of
        Some r \<Rightarrow> Some r
      | None \<Rightarrow> locate_union o0 fs ns)"

definition member_offset :: "ctype \<Rightarrow> string list \<Rightarrow> nat option" where
  "member_offset t ns = map_option (\<lambda>(b, _). b div 8) (locate 0 t ns)"

section \<open>Loads and stores of members\<close>

text \<open>
  An integer is the bits from 0 to its width of the unit at its place, a bit field some bits of
  its storage unit. Loads and stores of units that the code does not use are not defined.
\<close>

definition unit_of :: "nat \<times> ctype \<Rightarrow> (nat \<times> nat \<times> nat \<times> nat) option" where
  "unit_of bt = (case bt of
     (b, U n) \<Rightarrow> Some (n, b div 8, 0, 8 * n)
   | (b, Bits n w) \<Rightarrow> Some (n, b div (8 * n) * n, b mod (8 * n), w)
   | _ \<Rightarrow> None)"

definition member_unit :: "ctype \<Rightarrow> string list \<Rightarrow> (nat \<times> nat \<times> nat \<times> nat) option" where
  "member_unit t ns = Option.bind (locate 0 t ns) unit_of"

definition set_member :: "ctype \<Rightarrow> nat \<Rightarrow> string list \<Rightarrow> u64 \<Rightarrow> u8 list \<Rightarrow> u8 list option" where
  "set_member t p ns v xs = do {
     (n, a, lo, w) \<leftarrow> member_unit t ns;
     if n = 1 then Some (upd8 (p + a) (bits_set lo w (ucast v)) xs)
     else if n = 2 then Some (upd16 (p + a) (bits_set lo w (ucast v)) xs)
     else if n = 4 then Some (upd32 (p + a) (bits_set lo w (ucast v)) xs)
     else None }"

fun set_members :: "ctype \<Rightarrow> nat \<Rightarrow> (string list \<times> u64) list \<Rightarrow> u8 list \<Rightarrow> u8 list option" where
  "set_members t p [] xs = Some xs"
| "set_members t p ((ns, v) # ws) xs = do { xs \<leftarrow> set_member t p ns v xs; set_members t p ws xs }"

definition cfg64 :: "u8 list \<Rightarrow> nat \<Rightarrow> u64" where
  "cfg64 xs off = cat64 (cfg32 xs off) (cfg32 xs (off + 4))"

definition get_member :: "ctype \<Rightarrow> nat \<Rightarrow> string list \<Rightarrow> u8 list \<Rightarrow> u64 option" where
  "get_member t p ns xs = do {
     (n, a, lo, w) \<leftarrow> member_unit t ns;
     if n = 1 then Some (ucast (bits_get lo w (cfg8 xs (p + a))))
     else if n = 2 then Some (ucast (bits_get lo w (cfg16 xs (p + a))))
     else if n = 4 then Some (ucast (bits_get lo w (cfg32 xs (p + a))))
     else if n = 8 then Some (bits_get lo w (cfg64 xs (p + a)))
     else None }"

section \<open>The structures of \<^verbatim>\<open>pci.h\<close>\<close>

text \<open>\<^verbatim>\<open>struct __nvme_bar\<close> and the structures of the configuration space.\<close>

definition struct_nvme_bar :: ctype where
  "struct_nvme_bar = Struct [
    (''cap'', U 8), (''vs'', U 4), (''intms'', U 4), (''intmc'', U 4), (''cc'', U 4),
    (''rsvd1'', U 4), (''csts'', U 4), (''nssr'', U 4), (''aqa'', U 4), (''asq'', U 8),
    (''acq'', U 8), (''cmbloc'', U 4), (''cmbsz'', U 4)]"

definition struct_pci_header :: ctype where
  "struct_pci_header = Struct [
    (''id'', Struct [(''vid'', U 2), (''did'', U 2)]),
    (''cmd'', Struct [
      (''iose'', Bits 1 1), (''mse'', Bits 1 1), (''bme'', Bits 1 1), (''sce'', Bits 1 1),
      (''mwie'', Bits 1 1), (''vga'', Bits 1 1), (''pee'', Bits 1 1), (''fixed'', Bits 1 1),
      (''see'', Bits 1 1), (''fbe'', Bits 1 1), (''id'', Bits 1 1), (''rsvd'', Bits 1 5)]),
    (''sts'', Struct [
      (''rsvd1'', Bits 1 3), (''is'', Bits 1 1), (''cl'', Bits 1 1), (''c66'', Bits 1 1),
      (''rsvd2'', Bits 1 1), (''fbc'', Bits 1 1), (''dpd'', Bits 1 1), (''devt'', Bits 1 2),
      (''sta'', Bits 1 1), (''rta'', Bits 1 1), (''rma'', Bits 1 1), (''sse'', Bits 1 1),
      (''dpe'', Bits 1 1)]),
    (''rid'', U 1), (''cc'', Struct [(''pi'', U 1), (''scc'', U 1), (''bcc'', U 1)]),
    (''cls'', U 1), (''mlt'', U 1), (''htype'', Struct [(''hl'', Bits 1 7), (''mfd'', Bits 1 1)]),
    (''bist'', Struct [(''cc'', Bits 1 4), (''rsvd'', Bits 1 2), (''sb'', Bits 1 1), (''bc'', Bits 1 1)]),
    (''mlbar'', Struct [
      (''rte'', Bits 4 1), (''tp'', Bits 4 2), (''pf'', Bits 4 1), (''rsvd'', Bits 4 10),
      (''ba'', Bits 4 18)]),
    (''mulbar'', U 4), (''idbar'', U 4), (''bar3'', U 4), (''bar4'', U 4), (''bar5'', U 4),
    (''ccptr'', U 4), (''ss'', Struct [(''ssvid'', U 2), (''ssid'', U 2)]), (''erom'', U 4),
    (''cap'', U 1), (''rsvd'', Arr 7 (U 1)),
    (''intr'', Struct [(''iline'', U 1), (''ipin'', U 1)]), (''mgnt'', U 1), (''mlat'', U 1)]"

definition struct_pci_pm_cap :: ctype where
  "struct_pci_pm_cap = Struct [
    (''pid'', Struct [(''cid'', U 1), (''next'', U 1)]),
    (''pc'', Struct [
      (''vs'', Bits 2 3), (''pmec'', Bits 2 1), (''resv'', Bits 2 1), (''dsi'', Bits 2 1),
      (''auxc'', Bits 2 3), (''d1s'', Bits 2 1), (''d2s'', Bits 2 1), (''psup'', Bits 2 5)]),
    (''pmcs'', Struct [
      (''ps'', Bits 2 2), (''rsvd01'', Bits 2 1), (''nsfrst'', Bits 2 1), (''rsvd02'', Bits 2 4),
      (''pmee'', Bits 2 1), (''dse'', Bits 2 4), (''dsc'', Bits 2 2), (''pmes'', Bits 2 1)]),
    (''ext'', Arr 2 (U 1))]"

definition struct_pci_msix_cap :: ctype where
  "struct_pci_msix_cap = Struct [
    (''mxid'', Struct [(''cid'', U 1), (''next'', U 1)]),
    (''mxc'', Struct [(''ts'', Bits 2 11), (''rsvd'', Bits 2 3), (''fm'', Bits 2 1), (''mxe'', Bits 2 1)]),
    (''mtab'', Struct [(''tbir'', Bits 4 3), (''to'', Bits 4 29)]),
    (''mpba'', Struct [(''pbir'', Bits 4 3), (''pbao'', Bits 4 29)])]"

definition struct_pcie_cap :: ctype where
  "struct_pcie_cap = Struct [
    (''pxid'', Struct [(''cid'', U 1), (''next'', U 1)]),
    (''pxcap'', Struct [
      (''ver'', Bits 1 4), (''dpt'', Bits 1 4), (''si'', Bits 1 1), (''imn'', Bits 1 5),
      (''rsvd'', Bits 1 2)]),
    (''pxdcap'', Struct [
      (''mps'', Bits 4 3), (''pfs'', Bits 4 2), (''etfs'', Bits 4 1), (''l0sl'', Bits 4 3),
      (''l1l'', Bits 4 3), (''rsvd'', Bits 4 3), (''rer'', Bits 4 1), (''rsvd2'', Bits 4 2),
      (''csplv'', Bits 4 8), (''cspls'', Bits 4 2), (''flrc'', Bits 4 1), (''rsvd3'', Bits 4 3)]),
    (''pxdc'', Struct [
      (''cere'', Bits 2 1), (''nfere'', Bits 2 1), (''fere'', Bits 2 2), (''urre'', Bits 2 1),
      (''ero'', Bits 2 1), (''mps'', Bits 2 3), (''ete'', Bits 2 1), (''pfe'', Bits 2 1),
      (''appme'', Bits 2 1), (''ens'', Bits 2 1), (''mrrs'', Bits 2 3), (''iflr'', Bits 2 1)]),
    (''pxds'', Struct [
      (''ced'', Bits 2 1), (''nfed'', Bits 2 1), (''fed'', Bits 2 1), (''urd'', Bits 2 1),
      (''apd'', Bits 2 1), (''tp'', Bits 2 1), (''rsvd'', Bits 2 10)]),
    (''pxlcap'', Struct [
      (''sls'', Bits 4 4), (''mlw'', Bits 4 6), (''aspms'', Bits 4 2), (''l0sel'', Bits 4 3),
      (''l1el'', Bits 4 3), (''cpm'', Bits 4 1), (''sderc'', Bits 4 1), (''dllla'', Bits 4 20),
      (''lbnc'', Bits 4 1), (''aoc'', Bits 4 1), (''rsvd'', Bits 4 1), (''pn'', Bits 4 8)]),
    (''pxlc'', Struct [
      (''aspmc'', Bits 2 2), (''rsvd'', Bits 2 1), (''rcb'', Bits 2 1), (''rsvd2'', Bits 2 2),
      (''ccc'', Bits 2 1), (''es'', Bits 2 1), (''ecpm'', Bits 2 1), (''hawd'', Bits 2 1),
      (''rsvd3'', Bits 2 6)]),
    (''pxls'', Struct [
      (''clc'', Bits 2 4), (''nlw'', Bits 2 6), (''rsvd'', Bits 2 2), (''scc'', Bits 2 1),
      (''rsvd2'', Bits 2 3)]),
    (''pxdcap2'', Struct [
      (''ctrs'', Bits 4 4), (''ctds'', Bits 4 1), (''arifs'', Bits 4 1), (''aors'', Bits 4 1),
      (''aocs32'', Bits 4 1), (''aocs'', Bits 4 1), (''ccs128'', Bits 4 1), (''nprpr'', Bits 4 1),
      (''ltrs'', Bits 4 1), (''tphcs'', Bits 4 2), (''rsvd'', Bits 4 4), (''obffs'', Bits 4 2),
      (''effs'', Bits 4 1), (''eetps'', Bits 4 1), (''meetp'', Bits 4 2), (''rsvd2'', Bits 4 8)]),
    (''pxdc2'', Struct [
      (''ctv'', Bits 4 4), (''ctd'', Bits 4 1), (''rsvd'', Bits 4 5), (''ltrme'', Bits 4 1),
      (''rsvd2'', Bits 4 2), (''obffe'', Bits 4 2), (''rsvd3'', Bits 4 17)])]"

definition struct_aer_cap :: ctype where
  "struct_aer_cap = Struct [
    (''aerid'', Struct [(''cid'', U 2), (''cver'', Bits 2 4), (''next'', Bits 2 12)]),
    (''aeruces'', Struct [
      (''rsvd'', Bits 4 4), (''dlpes'', Bits 4 1), (''rsvd2'', Bits 4 7), (''pts'', Bits 4 1),
      (''fcpes'', Bits 4 1), (''cts'', Bits 4 1), (''cas'', Bits 4 1), (''ucs'', Bits 4 1),
      (''ros'', Bits 4 1), (''mts'', Bits 4 1), (''ecrces'', Bits 4 1), (''ures'', Bits 4 1),
      (''acsvs'', Bits 4 1), (''uies'', Bits 4 1), (''mcbts'', Bits 4 1), (''aoebs'', Bits 4 1),
      (''tpbes'', Bits 4 1), (''rsvd3'', Bits 4 6)]),
    (''aerucem'', Struct [
      (''rsvd'', Bits 4 4), (''dlpem'', Bits 4 1), (''rsvd2'', Bits 4 7), (''ptm'', Bits 4 1),
      (''fcpem'', Bits 4 1), (''ctm'', Bits 4 1), (''cam'', Bits 4 1), (''ucm'', Bits 4 1),
      (''rom'', Bits 4 1), (''mtm'', Bits 4 1), (''ecrcem'', Bits 4 1), (''urem'', Bits 4 1),
      (''acsvm'', Bits 4 1), (''uiem'', Bits 4 1), (''mcbtm'', Bits 4 1), (''aoebm'', Bits 4 1),
      (''tpbem'', Bits 4 1), (''rsvd3'', Bits 4 6)]),
    (''aerucesev'', Struct [
      (''rsvd'', Bits 4 4), (''dlpesev'', Bits 4 1), (''rsvd2'', Bits 4 7), (''ptsev'', Bits 4 1),
      (''fcpesev'', Bits 4 1), (''ctsev'', Bits 4 1), (''casev'', Bits 4 1),
      (''ucsev'', Bits 4 1), (''rosev'', Bits 4 1), (''mtsev'', Bits 4 1),
      (''ecrcesev'', Bits 4 1), (''uresev'', Bits 4 1), (''acsvsev'', Bits 4 1),
      (''uiesev'', Bits 4 1), (''mcbtsev'', Bits 4 1), (''aoebsev'', Bits 4 1),
      (''tpbesev'', Bits 4 1), (''rsvd3'', Bits 4 6)]),
    (''aerces'', Struct [
      (''res'', Bits 4 1), (''rsvd'', Bits 4 5), (''bts'', Bits 4 1), (''bds'', Bits 4 1),
      (''rrs'', Bits 4 1), (''rsvd2'', Bits 4 3), (''rts'', Bits 4 1), (''anfes'', Bits 4 1),
      (''cies'', Bits 4 1), (''hlos'', Bits 4 1), (''rsvd3'', Bits 4 16)]),
    (''aercem'', Struct [
      (''rem'', Bits 4 1), (''rsvd'', Bits 4 5), (''btm'', Bits 4 1), (''bdm'', Bits 4 1),
      (''rrm'', Bits 4 1), (''rsvd2'', Bits 4 3), (''rtm'', Bits 4 1), (''anfem'', Bits 4 1),
      (''ciem'', Bits 4 1), (''hlom'', Bits 4 1), (''rsvd3'', Bits 4 16)]),
    (''aercc'', Struct [
      (''fep'', Bits 4 5), (''egc'', Bits 4 1), (''ege'', Bits 4 1), (''ecc'', Bits 4 1),
      (''ece'', Bits 4 1), (''mhrc'', Bits 4 1), (''mhre'', Bits 4 1), (''tplp'', Bits 4 1),
      (''rsvd'', Bits 4 20)]),
    (''aerhl'', Struct [
      (''hb3'', U 1), (''hb2'', U 1), (''hb1'', U 1), (''hb0'', U 1), (''hb7'', U 1),
      (''hb6'', U 1), (''hb5'', U 1), (''hb4'', U 1), (''hb11'', U 1), (''hb10'', U 1),
      (''hb9'', U 1), (''hb8'', U 1), (''hb15'', U 1), (''hb14'', U 1), (''hb13'', U 1),
      (''hb12'', U 1)]),
    (''aertlp'', Struct [
      (''tpl1b3'', U 1), (''tpl1b2'', U 1), (''tpl1b1'', U 1), (''tpl1b0'', U 1),
      (''tpl2b3'', U 1), (''tpl2b2'', U 1), (''tpl2b1'', U 1), (''tpl2b0'', U 1),
      (''tpl3b3'', U 1), (''tpl3b2'', U 1), (''tpl3b1'', U 1), (''tpl3b0'', U 1),
      (''tpl4b3'', U 1), (''tpl4b2'', U 1), (''tpl4b1'', U 1), (''tpl4b0'', U 1)])]"

definition struct_pci_exp_hdr :: ctype where
  "struct_pci_exp_hdr = Struct [(''id'', Struct [(''cid'', U 2), (''cver'', Bits 2 4), (''next'', Bits 2 12)])]"

definition struct_nvme_ctrl_regs :: ctype where
  "struct_nvme_ctrl_regs = Struct [
    ('''', Union [
      (''cap'', Struct [
        (''mqes'', U 2), (''cqr'', Bits 2 1), (''ams'', Bits 2 2), (''rsvd'', Bits 2 5),
        (''to'', Bits 2 8), (''dstrd'', Bits 2 4), (''nssrs'', Bits 2 1), (''css'', Bits 2 8),
        (''rsvd2'', Bits 2 3), (''mpsmin'', Bits 2 4), (''mpsmax'', Bits 2 4),
        (''rsvd3'', Bits 2 8)]),
      (''u_cap'', U 8)]),
    ('''', Union [(''vs'', Struct [(''rsvd'', U 1), (''mnr'', U 1), (''mjr'', U 2)]), (''u_vs'', U 4)]),
    (''intms'', U 4), (''intmc'', U 4),
    ('''', Union [
      (''cc'', Struct [
        (''en'', Bits 2 1), (''rsvd'', Bits 2 3), (''css'', Bits 2 3), (''mps'', Bits 2 4),
        (''ams'', Bits 2 3), (''shn'', Bits 2 2), (''iosqes'', Bits 2 4), (''iocqes'', Bits 2 4),
        (''rsvd2'', Bits 2 8)]),
      (''u_cc'', U 4)]),
    (''rsvd1'', U 4),
    ('''', Union [
      (''csts'', Struct [
        (''rdy'', Bits 4 1), (''cfs'', Bits 4 1), (''shst'', Bits 4 2), (''nssro'', Bits 4 1),
        (''pp'', Bits 4 1), (''rsvd'', Bits 4 26)]),
      (''u_csts'', U 4)]),
    (''nssr'', U 4),
    ('''', Union [
      (''aqa'', Struct [(''asqs'', Bits 4 12), (''rsvd1'', Bits 4 4), (''acqs'', Bits 4 12), (''rsvd2'', Bits 4 4)]),
      (''u_aqa'', U 4)]),
    ('''', Union [(''asq'', Struct [(''rsvd'', Bits 8 12), (''asqb'', Bits 8 52)]), (''u_asq'', U 8)]),
    ('''', Union [(''acq'', Struct [(''rsvd'', Bits 8 12), (''acqb'', Bits 8 52)]), (''u_acq'', U 8)]),
    ('''', Union [
      (''cmbloc'', Struct [(''bir'', Bits 4 3), (''rsvd'', Bits 4 9), (''ofst'', Bits 4 20)]),
      (''u_cmbloc'', U 4)]),
    ('''', Union [
      (''cmbsz'', Struct [
        (''sqs'', Bits 4 1), (''cqs'', Bits 4 1), (''lists'', Bits 4 1), (''rds'', Bits 4 1),
        (''wds'', Bits 4 1), (''rsvd'', Bits 4 3), (''szu'', Bits 4 4), (''sz'', Bits 4 20)]),
      (''u_cmbsz'', U 4)])]"

section \<open>The structures of \<^verbatim>\<open>nvme.h\<close>\<close>

definition struct_nvme_common_command :: ctype where
  "struct_nvme_common_command = Struct [
    (''opcode'', U 1), (''flags'', U 1), (''command_id'', U 2), (''nsid'', U 4),
    (''cdw2'', Arr 2 (U 4)), (''metadata'', U 8), (''prp1'', U 8), (''prp2'', U 8),
    (''cdw10'', Arr 6 (U 4))]"

definition struct_nvme_rw_command :: ctype where
  "struct_nvme_rw_command = Struct [
    (''opcode'', U 1), (''flags'', U 1), (''command_id'', U 2), (''nsid'', U 4), (''rsvd2'', U 8),
    (''metadata'', U 8), (''prp1'', U 8), (''prp2'', U 8), (''slba'', U 8), (''length'', U 2),
    (''control'', U 2), (''dsmgmt'', U 4), (''reftag'', U 4), (''apptag'', U 2),
    (''appmask'', U 2)]"

definition struct_nvme_dsm_cmd :: ctype where
  "struct_nvme_dsm_cmd = Struct [
    (''opcode'', U 1), (''flags'', U 1), (''command_id'', U 2), (''nsid'', U 4),
    (''rsvd2'', Arr 2 (U 8)), (''prp1'', U 8), (''prp2'', U 8), (''nr'', U 4),
    (''attributes'', U 4), (''rsvd12'', Arr 4 (U 4))]"

definition struct_nvme_identify :: ctype where
  "struct_nvme_identify = Struct [
    (''opcode'', U 1), (''flags'', U 1), (''command_id'', U 2), (''nsid'', U 4),
    (''rsvd2'', Arr 2 (U 8)), (''prp1'', U 8), (''prp2'', U 8), (''cns'', U 4),
    (''rsvd11'', Arr 5 (U 4))]"

definition struct_nvme_features :: ctype where
  "struct_nvme_features = Struct [
    (''opcode'', U 1), (''flags'', U 1), (''command_id'', U 2), (''nsid'', U 4),
    (''rsvd2'', Arr 2 (U 8)), (''prp1'', U 8), (''prp2'', U 8), (''fid'', U 4),
    (''dword11'', U 4), (''rsvd12'', Arr 4 (U 4))]"

definition struct_nvme_create_cq :: ctype where
  "struct_nvme_create_cq = Struct [
    (''opcode'', U 1), (''flags'', U 1), (''command_id'', U 2), (''rsvd1'', Arr 5 (U 4)),
    (''prp1'', U 8), (''rsvd8'', U 8), (''cqid'', U 2), (''qsize'', U 2), (''cq_flags'', U 2),
    (''irq_vector'', U 2), (''rsvd12'', Arr 4 (U 4))]"

definition struct_nvme_create_sq :: ctype where
  "struct_nvme_create_sq = Struct [
    (''opcode'', U 1), (''flags'', U 1), (''command_id'', U 2), (''rsvd1'', Arr 5 (U 4)),
    (''prp1'', U 8), (''rsvd8'', U 8), (''sqid'', U 2), (''qsize'', U 2), (''sq_flags'', U 2),
    (''cqid'', U 2), (''rsvd12'', Arr 4 (U 4))]"

definition struct_nvme_delete_queue :: ctype where
  "struct_nvme_delete_queue = Struct [
    (''opcode'', U 1), (''flags'', U 1), (''command_id'', U 2), (''rsvd1'', Arr 9 (U 4)),
    (''qid'', U 2), (''rsvd10'', U 2), (''rsvd11'', Arr 5 (U 4))]"

definition struct_nvme_abort_cmd :: ctype where
  "struct_nvme_abort_cmd = Struct [
    (''opcode'', U 1), (''flags'', U 1), (''command_id'', U 2), (''rsvd1'', Arr 9 (U 4)),
    (''sqid'', U 2), (''cid'', U 2), (''rsvd11'', Arr 5 (U 4))]"

definition struct_nvme_download_firmware :: ctype where
  "struct_nvme_download_firmware = Struct [
    (''opcode'', U 1), (''flags'', U 1), (''command_id'', U 2), (''rsvd1'', Arr 5 (U 4)),
    (''prp1'', U 8), (''prp2'', U 8), (''numd'', U 4), (''offset'', U 4),
    (''rsvd12'', Arr 4 (U 4))]"

definition struct_nvme_format_cmd :: ctype where
  "struct_nvme_format_cmd = Struct [
    (''opcode'', U 1), (''flags'', U 1), (''command_id'', U 2), (''nsid'', U 4),
    (''rsvd2'', Arr 4 (U 8)), (''cdw10'', U 4), (''rsvd11'', Arr 5 (U 4))]"

definition struct_nvme_command :: ctype where
  "struct_nvme_command = Struct [
    ('''', Union [
      (''common'', struct_nvme_common_command), (''rw'', struct_nvme_rw_command),
      (''identify'', struct_nvme_identify), (''features'', struct_nvme_features),
      (''create_cq'', struct_nvme_create_cq), (''create_sq'', struct_nvme_create_sq),
      (''delete_queue'', struct_nvme_delete_queue), (''dlfw'', struct_nvme_download_firmware),
      (''format'', struct_nvme_format_cmd), (''dsm'', struct_nvme_dsm_cmd),
      (''abort'', struct_nvme_abort_cmd)])]"

definition struct_nvme_completion :: ctype where
  "struct_nvme_completion = Struct [
    (''result'', U 4), (''rsvd'', U 4), (''sq_head'', U 2), (''sq_id'', U 2),
    (''command_id'', U 2), (''status'', U 2)]"

lemmas ctype_structs = struct_nvme_bar_def struct_pci_header_def struct_pci_pm_cap_def struct_pci_msix_cap_def
  struct_pcie_cap_def struct_aer_cap_def struct_pci_exp_hdr_def struct_nvme_ctrl_regs_def
  struct_nvme_common_command_def struct_nvme_rw_command_def struct_nvme_dsm_cmd_def struct_nvme_identify_def
  struct_nvme_features_def struct_nvme_create_cq_def struct_nvme_create_sq_def struct_nvme_delete_queue_def
  struct_nvme_abort_cmd_def struct_nvme_download_firmware_def struct_nvme_format_cmd_def struct_nvme_command_def
  struct_nvme_completion_def

end
