(* ===== verification/Layout_Props.thy ===== *)
theory Layout_Props
  imports Layout
begin

text \<open>
  What the layout of the structures shows: sizes and offsets, that the settings of the
  configuration space are the assignments to members that \<^verbatim>\<open>pci.c\<close> writes, and that the members
  of commands and registers are what the accessors of the model read.
\<close>

unbundle bit_operations_syntax

section \<open>Units of the members\<close>

lemma header_units:
  "member_unit struct_pci_header [''id'', ''did''] = Some (2, 2, 0, 16)"
  "member_unit struct_pci_header [''id'', ''vid''] = Some (2, 0, 0, 16)"
  "member_unit struct_pci_header [''cmd'', ''mse''] = Some (1, 4, 1, 1)"
  "member_unit struct_pci_header [''sts'', ''cl''] = Some (1, 6, 4, 1)"
  "member_unit struct_pci_header [''htype'', ''mfd''] = Some (1, 14, 7, 1)"
  "member_unit struct_pci_header [''htype'', ''hl''] = Some (1, 14, 0, 7)"
  "member_unit struct_pci_header [''rid''] = Some (1, 8, 0, 8)"
  "member_unit struct_pci_header [''cc'', ''bcc''] = Some (1, 11, 0, 8)"
  "member_unit struct_pci_header [''cc'', ''scc''] = Some (1, 10, 0, 8)"
  "member_unit struct_pci_header [''cc'', ''pi''] = Some (1, 9, 0, 8)"
  "member_unit struct_pci_header [''mlbar'', ''tp''] = Some (4, 16, 1, 2)"
  "member_unit struct_pci_header [''mlbar'', ''ba''] = Some (4, 16, 14, 18)"
  "member_unit struct_pci_header [''mulbar''] = Some (4, 20, 0, 32)"
  "member_unit struct_pci_header [''ss'', ''ssid''] = Some (2, 46, 0, 16)"
  "member_unit struct_pci_header [''ss'', ''ssvid''] = Some (2, 44, 0, 16)"
  "member_unit struct_pci_header [''erom''] = Some (4, 48, 0, 32)"
  "member_unit struct_pci_header [''cap''] = Some (1, 52, 0, 8)"
  "member_unit struct_pci_header [''intr'', ''ipin''] = Some (1, 61, 0, 8)"
  "member_unit struct_pci_header [''intr'', ''iline''] = Some (1, 60, 0, 8)"
  by code_simp+

lemma pm_cap_units:
  "member_unit struct_pci_pm_cap [''pid'', ''cid''] = Some (1, 0, 0, 8)"
  "member_unit struct_pci_pm_cap [''pid'', ''next''] = Some (1, 1, 0, 8)"
  "member_unit struct_pci_pm_cap [''pc'', ''vs''] = Some (2, 2, 0, 3)"
  "member_unit struct_pci_pm_cap [''pmcs'', ''nsfrst''] = Some (2, 4, 3, 1)"
  "member_unit struct_pci_pm_cap [''pmcs'', ''ps''] = Some (2, 4, 0, 2)"
  by code_simp+

lemma msix_cap_units:
  "member_unit struct_pci_msix_cap [''mxid'', ''cid''] = Some (1, 0, 0, 8)"
  "member_unit struct_pci_msix_cap [''mxid'', ''next''] = Some (1, 1, 0, 8)"
  "member_unit struct_pci_msix_cap [''mxc'', ''mxe''] = Some (2, 2, 15, 1)"
  "member_unit struct_pci_msix_cap [''mxc'', ''ts''] = Some (2, 2, 0, 11)"
  "member_unit struct_pci_msix_cap [''mtab'', ''tbir''] = Some (4, 4, 0, 3)"
  "member_unit struct_pci_msix_cap [''mtab'', ''to''] = Some (4, 4, 3, 29)"
  "member_unit struct_pci_msix_cap [''mpba'', ''pbao''] = Some (4, 8, 3, 29)"
  "member_unit struct_pci_msix_cap [''mpba'', ''pbir''] = Some (4, 8, 0, 3)"
  by code_simp+

lemma pcie_cap_units:
  "member_unit struct_pcie_cap [''pxid'', ''cid''] = Some (1, 0, 0, 8)"
  "member_unit struct_pcie_cap [''pxid'', ''next''] = Some (1, 1, 0, 8)"
  "member_unit struct_pcie_cap [''pxcap'', ''ver''] = Some (1, 2, 0, 4)"
  "member_unit struct_pcie_cap [''pxcap'', ''imn''] = Some (1, 3, 1, 5)"
  "member_unit struct_pcie_cap [''pxcap'', ''dpt''] = Some (1, 2, 4, 4)"
  "member_unit struct_pcie_cap [''pxdcap'', ''mps''] = Some (4, 4, 0, 3)"
  "member_unit struct_pcie_cap [''pxdcap'', ''pfs''] = Some (4, 4, 3, 2)"
  "member_unit struct_pcie_cap [''pxdcap'', ''etfs''] = Some (4, 4, 5, 1)"
  "member_unit struct_pcie_cap [''pxdcap'', ''l0sl''] = Some (4, 4, 6, 3)"
  "member_unit struct_pcie_cap [''pxdcap'', ''l1l''] = Some (4, 4, 9, 3)"
  "member_unit struct_pcie_cap [''pxdcap'', ''rer''] = Some (4, 4, 15, 1)"
  "member_unit struct_pcie_cap [''pxdcap'', ''csplv''] = Some (4, 4, 18, 8)"
  "member_unit struct_pcie_cap [''pxdcap'', ''cspls''] = Some (4, 4, 26, 2)"
  "member_unit struct_pcie_cap [''pxdcap'', ''flrc''] = Some (4, 4, 28, 1)"
  by code_simp+

lemma ext_header_units:
  "member_unit struct_aer_cap [''aerid'', ''cid''] = Some (2, 0, 0, 16)"
  "member_unit struct_aer_cap [''aerid'', ''cver''] = Some (2, 2, 0, 4)"
  "member_unit struct_aer_cap [''aerid'', ''next''] = Some (2, 2, 4, 12)"
  "member_unit struct_pci_exp_hdr [''id'', ''cid''] = Some (2, 0, 0, 16)"
  "member_unit struct_pci_exp_hdr [''id'', ''cver''] = Some (2, 2, 0, 4)"
  "member_unit struct_pci_exp_hdr [''id'', ''next''] = Some (2, 2, 4, 12)"
  by code_simp+

lemma command_units:
  "member_unit struct_nvme_command [''common'', ''opcode''] = Some (1, 0, 0, 8)"
  "member_unit struct_nvme_command [''common'', ''command_id''] = Some (2, 2, 0, 16)"
  "member_unit struct_nvme_command [''common'', ''nsid''] = Some (4, 4, 0, 32)"
  "member_unit struct_nvme_command [''rw'', ''prp1''] = Some (8, 24, 0, 64)"
  "member_unit struct_nvme_command [''rw'', ''prp2''] = Some (8, 32, 0, 64)"
  "member_unit struct_nvme_command [''rw'', ''slba''] = Some (8, 40, 0, 64)"
  "member_unit struct_nvme_command [''rw'', ''length''] = Some (2, 48, 0, 16)"
  "member_unit struct_nvme_command [''identify'', ''cns''] = Some (4, 40, 0, 32)"
  "member_unit struct_nvme_command [''features'', ''fid''] = Some (4, 40, 0, 32)"
  "member_unit struct_nvme_command [''features'', ''dword11''] = Some (4, 44, 0, 32)"
  "member_unit struct_nvme_command [''create_cq'', ''prp1''] = Some (8, 24, 0, 64)"
  "member_unit struct_nvme_command [''create_cq'', ''cqid''] = Some (2, 40, 0, 16)"
  "member_unit struct_nvme_command [''create_cq'', ''qsize''] = Some (2, 42, 0, 16)"
  "member_unit struct_nvme_command [''create_cq'', ''cq_flags''] = Some (2, 44, 0, 16)"
  "member_unit struct_nvme_command [''create_cq'', ''irq_vector''] = Some (2, 46, 0, 16)"
  "member_unit struct_nvme_command [''create_sq'', ''sqid''] = Some (2, 40, 0, 16)"
  "member_unit struct_nvme_command [''create_sq'', ''qsize''] = Some (2, 42, 0, 16)"
  "member_unit struct_nvme_command [''create_sq'', ''sq_flags''] = Some (2, 44, 0, 16)"
  "member_unit struct_nvme_command [''create_sq'', ''cqid''] = Some (2, 46, 0, 16)"
  "member_unit struct_nvme_command [''delete_queue'', ''qid''] = Some (2, 40, 0, 16)"
  by code_simp+

lemma register_units:
  "member_unit struct_nvme_ctrl_regs [''cc'', ''en''] = Some (2, 20, 0, 1)"
  "member_unit struct_nvme_ctrl_regs [''cc'', ''shn''] = Some (2, 20, 14, 2)"
  "member_unit struct_nvme_ctrl_regs [''csts'', ''rdy''] = Some (4, 28, 0, 1)"
  "member_unit struct_nvme_ctrl_regs [''csts'', ''shst''] = Some (4, 28, 2, 2)"
  "member_unit struct_nvme_ctrl_regs [''aqa'', ''asqs''] = Some (4, 36, 0, 12)"
  "member_unit struct_nvme_ctrl_regs [''aqa'', ''acqs''] = Some (4, 36, 16, 12)"
  by code_simp+

lemma bits_full [simp]:
  "bits_set 0 8 v = (\<lambda>x :: u8. v)" "bits_set 0 16 w = (\<lambda>y :: u16. w)" "bits_set 0 32 d = (\<lambda>z :: u32. d)"
  "bits_get 0 8 (x :: u8) = x" "bits_get 0 16 (y :: u16) = y" "bits_get 0 32 (z :: u32) = z"
  "bits_get 0 64 (q :: u64) = q"
  by (rule ext bit_word_eqI, auto intro!: bit_word_eqI simp: bits_set_def bits_get_def bit_simps)+

lemma u64_down [simp]:
  "(ucast (ucast (x :: u8) :: u64) :: u8) = x" "(ucast (ucast (y :: u16) :: u64) :: u16) = y"
  "(ucast (ucast (z :: u32) :: u64) :: u32) = z" "(ucast (ucast (z :: u32) :: u64) :: u16) = ucast z"
  "(ucast (of_nat n :: u64) :: u16) = of_nat n"
  by (rule bit_word_eqI, auto simp: bit_simps)+

section \<open>Sizes and offsets\<close>

text \<open>The structures have the places and sizes that the code gives them: the header fills the
  space up to the power management capability, each capability ends before the next one, the
  controller registers have in \<open>__nvme_bar\<close> the offsets that they have in \<open>nvme_ctrl_regs\<close>, all
  forms of a command take 64 bytes and a completion takes 16. The registers of the PCI Express
  capability after the device control register do not lie where the standard has them (status at
  10, link capabilities at 12, link control at 16): two members are declared too wide.\<close>

theorem structure_layout:
  "ctype_size struct_pci_header = OFFS_PCI_PM_CAP \<and>
   OFFS_PCI_PM_CAP + ctype_size struct_pci_pm_cap \<le> OFFS_PCI_MSIX_CAP \<and>
   OFFS_PCI_MSIX_CAP + ctype_size struct_pci_msix_cap \<le> OFFS_PCIE_CAP \<and>
   OFFS_PCIE_CAP + ctype_size struct_pcie_cap \<le> PCI_CFG_SPACE_SIZE \<and>
   ctype_size struct_aer_cap \<le> PCIE_EXPCAP_START \<and>
   exp_hdr_at 1 1 = 1 + ctype_size struct_pci_exp_hdr \<and>
   ctype_size struct_nvme_bar = ctype_size struct_nvme_ctrl_regs \<and>
   map (\<lambda>r. member_offset struct_nvme_bar [r])
     [''cap'', ''vs'', ''intms'', ''intmc'', ''cc'', ''rsvd1'', ''csts'', ''nssr'', ''aqa'', ''asq'', ''acq'',
      ''cmbloc'', ''cmbsz''] =
   map (\<lambda>r. member_offset struct_nvme_ctrl_regs [r])
     [''u_cap'', ''u_vs'', ''intms'', ''intmc'', ''u_cc'', ''rsvd1'', ''u_csts'', ''nssr'', ''u_aqa'', ''u_asq'',
      ''u_acq'', ''u_cmbloc'', ''u_cmbsz''] \<and>
   map ctype_size [struct_nvme_common_command, struct_nvme_rw_command, struct_nvme_dsm_cmd, struct_nvme_identify,
     struct_nvme_features, struct_nvme_create_cq, struct_nvme_create_sq, struct_nvme_delete_queue,
     struct_nvme_abort_cmd, struct_nvme_download_firmware, struct_nvme_format_cmd, struct_nvme_command] =
   replicate 12 64 \<and>
   ctype_size struct_nvme_completion = 16 \<and>
   map (\<lambda>r. member_offset struct_pcie_cap [r]) [''pxdcap'', ''pxdc'', ''pxds'', ''pxlcap'', ''pxlc''] =
     map Some [4, 8, 12, 16, 24]"
  by code_simp

section \<open>The settings as assignments to members\<close>

text \<open>The assignments of \<^verbatim>\<open>pci.c\<close> in their order.\<close>

definition header_assigns :: "pci_regs \<Rightarrow> u64 \<Rightarrow> (string list \<times> u64) list" where
  "header_assigns R base_pa = [
     ([''id'', ''did''], 0x0101), ([''id'', ''vid''], 0x0c51),
     ([''cmd'', ''mse''], 1), ([''sts'', ''cl''], 1),
     ([''htype'', ''mfd''], 0), ([''htype'', ''hl''], ucast (PCI_HEADER_TYPE_NORMAL R)),
     ([''rid''], 0x01),
     ([''cc'', ''bcc''], ucast (PCI_BASE_CLASS_STORAGE R)), ([''cc'', ''scc''], 0x08), ([''cc'', ''pi''], 0x02),
     ([''mlbar'', ''tp''], ucast (drop_bit 1 (PCI_BASE_ADDRESS_MEM_TYPE_64 R))),
     ([''mlbar'', ''ba''], drop_bit 14 (base_pa AND 0xFFFFFFFF)),
     ([''mulbar''], drop_bit 32 base_pa),
     ([''ss'', ''ssid''], 0x370d), ([''ss'', ''ssvid''], 0x0c51),
     ([''erom''], 0), ([''cap''], of_nat OFFS_PCI_PM_CAP),
     ([''intr'', ''ipin''], 0), ([''intr'', ''iline''], 0)]"

definition pm_cap_assigns :: "pci_regs \<Rightarrow> (string list \<times> u64) list" where
  "pm_cap_assigns R = [
     ([''pid'', ''cid''], ucast (PCI_CAP_ID_PM R)), ([''pid'', ''next''], of_nat OFFS_PCI_MSIX_CAP),
     ([''pc'', ''vs''], 3), ([''pmcs'', ''nsfrst''], 1),
     ([''pmcs'', ''ps''], ucast (drop_bit 16 (PCI_PM_CAP_PME_D0 R)))]"

definition msix_cap_assigns :: "pci_regs \<Rightarrow> (string list \<times> u64) list" where
  "msix_cap_assigns R = [
     ([''mxid'', ''cid''], ucast (PCI_CAP_ID_MSIX R)), ([''mxid'', ''next''], of_nat OFFS_PCIE_CAP),
     ([''mxc'', ''mxe''], 1), ([''mxc'', ''ts''], 127),
     ([''mtab'', ''tbir''], 0), ([''mtab'', ''to''], 0x400),
     ([''mpba'', ''pbao''], 0x1000), ([''mpba'', ''pbir''], 0)]"

definition pcie_cap_assigns :: "pci_regs \<Rightarrow> (string list \<times> u64) list" where
  "pcie_cap_assigns R = [
     ([''pxid'', ''cid''], ucast (PCI_CAP_ID_EXP R)), ([''pxid'', ''next''], 0),
     ([''pxcap'', ''ver''], ucast (PCI_EXP_FLAGS R)), ([''pxcap'', ''imn''], 0),
     ([''pxcap'', ''dpt''], ucast (PCI_EXP_TYPE_ENDPOINT R)),
     ([''pxdcap'', ''mps''], 1), ([''pxdcap'', ''pfs''], 0), ([''pxdcap'', ''etfs''], 1),
     ([''pxdcap'', ''l0sl''], 6), ([''pxdcap'', ''l1l''], 2), ([''pxdcap'', ''rer''], 1),
     ([''pxdcap'', ''csplv''], 0), ([''pxdcap'', ''cspls''], 0), ([''pxdcap'', ''flrc''], 1)]"

text \<open>The header of an extended capability; \<open>m\<close> is the name of its member.\<close>

definition ext_assigns :: "string \<Rightarrow> u16 \<Rightarrow> nat \<Rightarrow> (string list \<times> u64) list" where
  "ext_assigns m cid nxt = [([m, ''cid''], ucast cid), ([m, ''cver''], 1), ([m, ''next''], of_nat nxt)]"

lemmas set_member_simps = set_member_def header_units pm_cap_units msix_cap_units pcie_cap_units ext_header_units

lemma header_members:
  "set_members struct_pci_header p (header_assigns R base_pa) xs = Some (PCI_HEADER_SETTINGS R p base_pa xs)"
  by (simp add: set_member_simps header_assigns_def PCI_HEADER_SETTINGS_def Let_def cfg_offsets)

lemma pm_cap_members:
  "set_members struct_pci_pm_cap p (pm_cap_assigns R) xs = Some (PCI_PMCAP_SETTINGS R p xs)"
  by (simp add: set_member_simps pm_cap_assigns_def PCI_PMCAP_SETTINGS_def Let_def cfg_offsets)

lemma msix_cap_members:
  "set_members struct_pci_msix_cap p (msix_cap_assigns R) xs = Some (PCI_MSIXCAP_SETTINGS R p xs)"
  by (simp add: set_member_simps msix_cap_assigns_def PCI_MSIXCAP_SETTINGS_def Let_def cfg_offsets)

lemma pcie_cap_members:
  "set_members struct_pcie_cap p (pcie_cap_assigns R) xs = Some (PCI_PCIECAP_SETTINGS R p xs)"
  by (simp add: set_member_simps pcie_cap_assigns_def PCI_PCIECAP_SETTINGS_def Let_def cfg_offsets)

lemma ext_members:
  "set_members struct_aer_cap p (ext_assigns ''aerid'' c n) xs = Some (ext_header p c (of_nat n) xs)"
  "set_members struct_pci_exp_hdr p (ext_assigns ''id'' c n) xs = Some (ext_header p c (of_nat n) xs)"
  by (simp_all add: set_member_simps ext_assigns_def ext_header_def Let_def)

text \<open>The functions that fill the configuration space are the assignments of \<^verbatim>\<open>pci.c\<close> to the
  members of the structures, in their order and at the places that the compiler gives the members;
  every member that the code names exists. The structures at \<open>exp_cap + n\<close> lie \<open>n\<close> headers, that is
  \<open>4 * n\<close> bytes, behind the first one.\<close>

theorem settings_are_assignments:
  "set_members struct_pci_header p (header_assigns R base_pa) xs = Some (PCI_HEADER_SETTINGS R p base_pa xs) \<and>
   set_members struct_pci_pm_cap p (pm_cap_assigns R) xs = Some (PCI_PMCAP_SETTINGS R p xs) \<and>
   set_members struct_pci_msix_cap p (msix_cap_assigns R) xs = Some (PCI_MSIXCAP_SETTINGS R p xs) \<and>
   set_members struct_pcie_cap p (pcie_cap_assigns R) xs = Some (PCI_PCIECAP_SETTINGS R p xs) \<and>
   set_members struct_aer_cap p (ext_assigns ''aerid'' (PCI_EXT_CAP_ID_ERR R) (PCI_CFG_SPACE_SIZE + 0x50)) xs =
     Some (PCI_AERCAP_SETTINGS R p xs) \<and>
   do { let hdr = (\<lambda>n. p + n * ctype_size struct_pci_exp_hdr);
        xs \<leftarrow> set_members struct_pci_exp_hdr (hdr 0x50)
          (ext_assigns ''id'' (PCI_EXT_CAP_ID_VC R) (PCI_CFG_SPACE_SIZE + 0x80)) xs;
        xs \<leftarrow> set_members struct_pci_exp_hdr (hdr 0x80)
          (ext_assigns ''id'' (PCI_EXT_CAP_ID_PWR R) (PCI_CFG_SPACE_SIZE + 0x90)) xs;
        xs \<leftarrow> set_members struct_pci_exp_hdr (hdr 0x90)
          (ext_assigns ''id'' (PCI_EXT_CAP_ID_ARI R) (PCI_CFG_SPACE_SIZE + 0x170)) xs;
        xs \<leftarrow> set_members struct_pci_exp_hdr (hdr 0x170)
          (ext_assigns ''id'' (PCI_EXT_CAP_ID_DSN R) (PCI_CFG_SPACE_SIZE + 0x1a0)) xs;
        set_members struct_pci_exp_hdr (hdr 0x1a0) (ext_assigns ''id'' (PCI_EXT_CAP_ID_SECPCI R) 0) xs } =
     Some (PCI_PCIE_EXTCAP_SETTINGS R p xs)"
proof -
  have four: "ctype_size struct_pci_exp_hdr = 4" by code_simp
  show ?thesis
    by (simp add: header_members pm_cap_members msix_cap_members pcie_cap_members ext_members four
      PCI_AERCAP_SETTINGS_def PCI_PCIE_EXTCAP_SETTINGS_def exp_hdr_at_def Let_def cfg_offsets algebra_simps)
qed

section \<open>Commands and registers\<close>

text \<open>The registers as they lie in memory.\<close>

definition bar_bytes :: "nvme_bar \<Rightarrow> u8 list" where
  "bar_bytes b =
     le64 (bar_cap b) @ le32 (bar_vs b) @ le32 (bar_intms b) @ le32 (bar_intmc b) @ le32 (bar_cc b) @
     le32 (bar_rsvd1 b) @ le32 (bar_csts b) @ le32 (bar_nssr b) @ le32 (bar_aqa b) @ le64 (bar_asq b) @
     le64 (bar_acq b) @ le32 (bar_cmbloc b) @ le32 (bar_cmbsz b)"

lemmas le_defs = le64_def le32_def le16_def
lemmas cfg_defs = cfg8_def cfg16_def cfg32_def cfg64_def

lemma command_words:
  fixes c :: nvme_command
  shows "cfg8 (command_bytes c) 0 = opcode c" "cfg16 (command_bytes c) 2 = command_id c"
    "cfg32 (command_bytes c) 4 = nsid c" "cfg64 (command_bytes c) 24 = prp1 c" "cfg64 (command_bytes c) 32 = prp2 c"
    "cfg64 (command_bytes c) 40 = cat64 (cdw10 c) (cdw11 c)" "cfg32 (command_bytes c) 40 = cdw10 c" "cfg32 (command_bytes c) 44 = cdw11 c"
    "cfg16 (command_bytes c) 40 = lo16 (cdw10 c)" "cfg16 (command_bytes c) 42 = hi16 (cdw10 c)"
    "cfg16 (command_bytes c) 44 = lo16 (cdw11 c)" "cfg16 (command_bytes c) 46 = hi16 (cdw11 c)"
    "cfg16 (command_bytes c) 48 = lo16 (cdw12 c)"
  by (simp_all add: command_bytes_def cfg_defs le_defs cat16_split cat32_split cat64_split lo16_def hi16_def)

lemma bar_words:
  "cfg16 (bar_bytes b) 20 = ucast (bar_cc b)" "cfg32 (bar_bytes b) 28 = bar_csts b" "cfg32 (bar_bytes b) 36 = bar_aqa b"
  by (simp_all add: bar_bytes_def cfg_defs le_defs cat16_split cat32_split)

lemma register_bits:
  "(ucast (bits_get 0 (Suc 0) (ucast (bar_cc b) :: u16)) :: u64) = ucast (cc_en b)"
  "(ucast (bits_get 14 2 (ucast (bar_cc b) :: u16)) :: u64) = ucast (cc_shn b)"
  "bits_get 0 (Suc 0) (bar_csts b) = csts_rdy b" "bits_get 2 2 (bar_csts b) = csts_shst b"
  "bits_get 0 12 (bar_aqa b) = aqa_asqs b" "bits_get 16 12 (bar_aqa b) = aqa_acqs b"
proof -
  have m: "(3 :: u32) = mask 2" "(0xFFF :: u32) = mask 12" by (simp_all add: mask_numeral)
  show "(ucast (bits_get 0 (Suc 0) (ucast (bar_cc b) :: u16)) :: u64) = ucast (cc_en b)"
    "(ucast (bits_get 14 2 (ucast (bar_cc b) :: u16)) :: u64) = ucast (cc_shn b)"
    "bits_get 0 (Suc 0) (bar_csts b) = csts_rdy b" "bits_get 2 2 (bar_csts b) = csts_shst b"
    "bits_get 0 12 (bar_aqa b) = aqa_asqs b" "bits_get 16 12 (bar_aqa b) = aqa_acqs b"
    unfolding bits_get_def cc_en_def cc_shn_def csts_rdy_def csts_shst_def aqa_asqs_def aqa_acqs_def m
    by (rule bit_word_eqI, auto simp: bit_simps)+
qed

lemma csts_store:
  "upd32 28 (bits_set 0 (Suc 0) v) (bar_bytes b) = bar_bytes (set_csts_rdy v b)"
  "upd32 28 (bits_set 2 2 v) (bar_bytes b) = bar_bytes (set_csts_shst v b)"
proof -
  have at: "upd32 28 f (bar_bytes b) = bar_bytes (b\<lparr>bar_csts := f (bar_csts b)\<rparr>)" for f
    by (simp add: upd32_def bar_words cfg_put_def) (simp add: bar_bytes_def)
  show "upd32 28 (bits_set 0 (Suc 0) v) (bar_bytes b) = bar_bytes (set_csts_rdy v b)"
    "upd32 28 (bits_set 2 2 v) (bar_bytes b) = bar_bytes (set_csts_shst v b)"
    by (simp_all add: at bits_set_def set_csts_rdy_def set_csts_shst_def mask_numeral)
qed

lemmas accessor_defs = cat64_def rw_slba_def rw_length_def identify_cns_def features_fid_def features_dword11_def
  create_cq_cqid_def create_cq_qsize_def create_cq_flags_def create_cq_irq_vector_def create_sq_sqid_def
  create_sq_qsize_def create_sq_flags_def create_sq_cqid_def delete_queue_qid_def

text \<open>The model reads the members of commands and controller registers where the compiler
  places them, and stores the status bits there.\<close>

theorem accessors_are_members:
  "list_all (\<lambda>(ns, v). get_member struct_nvme_command 0 ns (command_bytes c) = Some v)
     [([''common'', ''opcode''], ucast (opcode c)), ([''common'', ''command_id''], ucast (command_id c)),
      ([''common'', ''nsid''], ucast (nsid c)),
      ([''rw'', ''prp1''], prp1 c), ([''rw'', ''prp2''], prp2 c), ([''rw'', ''slba''], rw_slba c),
      ([''rw'', ''length''], ucast (rw_length c)),
      ([''identify'', ''cns''], ucast (identify_cns c)),
      ([''features'', ''fid''], ucast (features_fid c)), ([''features'', ''dword11''], ucast (features_dword11 c)),
      ([''create_cq'', ''prp1''], prp1 c), ([''create_cq'', ''cqid''], ucast (create_cq_cqid c)),
      ([''create_cq'', ''qsize''], ucast (create_cq_qsize c)), ([''create_cq'', ''cq_flags''], ucast (create_cq_flags c)),
      ([''create_cq'', ''irq_vector''], ucast (create_cq_irq_vector c)),
      ([''create_sq'', ''sqid''], ucast (create_sq_sqid c)), ([''create_sq'', ''qsize''], ucast (create_sq_qsize c)),
      ([''create_sq'', ''sq_flags''], ucast (create_sq_flags c)), ([''create_sq'', ''cqid''], ucast (create_sq_cqid c)),
      ([''delete_queue'', ''qid''], ucast (delete_queue_qid c))] \<and>
   list_all (\<lambda>(ns, v). get_member struct_nvme_ctrl_regs 0 ns (bar_bytes b) = Some (ucast (v :: u32)))
     [([''cc'', ''en''], cc_en b), ([''cc'', ''shn''], cc_shn b), ([''csts'', ''rdy''], csts_rdy b),
      ([''csts'', ''shst''], csts_shst b), ([''aqa'', ''asqs''], aqa_asqs b), ([''aqa'', ''acqs''], aqa_acqs b)] \<and>
   set_member struct_nvme_ctrl_regs 0 [''csts'', ''rdy''] (ucast v) (bar_bytes b) = Some (bar_bytes (set_csts_rdy v b)) \<and>
   set_member struct_nvme_ctrl_regs 0 [''csts'', ''shst''] (ucast v) (bar_bytes b) = Some (bar_bytes (set_csts_shst v b))"
proof (intro conjI)
  show "list_all (\<lambda>(ns, v). get_member struct_nvme_ctrl_regs 0 ns (bar_bytes b) = Some (ucast (v :: u32)))
     [([''cc'', ''en''], cc_en b), ([''cc'', ''shn''], cc_shn b), ([''csts'', ''rdy''], csts_rdy b),
      ([''csts'', ''shst''], csts_shst b), ([''aqa'', ''asqs''], aqa_asqs b), ([''aqa'', ''acqs''], aqa_acqs b)]"
    by (simp add: get_member_def register_units bar_words register_bits)
qed (simp_all add: get_member_def set_member_def command_units register_units command_words accessor_defs csts_store)

end
