(* ===== verification/IO_Data.thy ===== *)
theory IO_Data
  imports IO
begin

text \<open>
  The data of a command, \<^verbatim>\<open>__do_perform_io\<close>: with page-aligned PRP entries the loop copies the
  pages of the command to or from consecutive bytes of the storage.
\<close>

section \<open>Pages\<close>

lemma page_mask: "PAGE_OFFSET_MASK = mask 12"
  by (simp add: PAGE_OFFSET_MASK_def PAGE_SIZE_def mask_eq_exp_minus_1)

lemma page_off_mod: "page_off a = unat a mod 4096"
proof -
  have "a AND mask 12 = take_bit 12 a" by (rule take_bit_eq_mask [symmetric])
  moreover have "unat (take_bit 12 a) = take_bit 12 (unat a)" by (rule unsigned_take_bit_eq)
  ultimately show ?thesis by (simp add: page_off_def page_mask take_bit_eq_mod)
qed

lemma page_base_off: "page_base a + of_nat (page_off a) = a"
proof -
  have "(a AND PAGE_OFFSET_MASK) + (a AND NOT PAGE_OFFSET_MASK) = a"
    by (subst disjunctive_add) (auto simp: bit_simps intro!: bit_word_eqI)
  then show ?thesis by (simp add: page_base_def page_off_def add.commute)
qed

lemma page_base_aligned: "page_off a = 0 \<Longrightarrow> page_base a = a"
  using page_base_off [of a] by simp

text \<open>A byte of an aligned page.\<close>

lemma in_page:
  assumes "page_off p = 0" and "i < 4096"
  shows "unat (p + of_nat i) = unat p + i"
proof -
  have "4096 dvd unat p" using assms(1) by (simp add: page_off_mod mod_eq_0_iff_dvd)
  then obtain k where k: "unat p = 4096 * k" by blast
  moreover have "unat p < 2 ^ 64" using unsigned_less [of p, where 'a = nat] by simp
  ultimately have "unat p + i < 2 ^ 64" using assms(2) by simp
  then show ?thesis using assms(2) by (simp add: unat_add_lem [symmetric] unat_of_nat unat_word_ariths)
qed

lemma page_diff:
  assumes "page_off p = 0"
  shows "unat (x - p) < 4096 \<longleftrightarrow> unat x div 4096 = unat p div 4096"
proof
  assume l: "unat (x - p) < 4096"
  have "x = p + of_nat (unat (x - p))" by simp
  then have "unat x = unat p + unat (x - p)" using in_page [OF assms l] by metis
  moreover have "4096 dvd unat p" using assms by (simp add: page_off_mod mod_eq_0_iff_dvd)
  ultimately show "unat x div 4096 = unat p div 4096" using l by auto
next
  assume e: "unat x div 4096 = unat p div 4096"
  have p: "unat p mod 4096 = 0" using assms by (simp add: page_off_mod)
  then have le: "unat p \<le> unat x" using e by (metis add.right_neutral div_mult_mod_eq le_add1)
  then have "unat (x - p) = unat x - unat p" by (simp add: unat_sub word_le_nat_alt)
  moreover have "unat x - unat p = unat x mod 4096" using e p by (metis add.right_neutral add_diff_cancel_left' div_mult_mod_eq)
  ultimately show "unat (x - p) < 4096" by simp
qed

section \<open>The pages of a command\<close>

definition io_bytes :: "nvme_command \<Rightarrow> nat" where
  "io_bytes cmd = push_bit 9 (unat (rw_length cmd) + 1)"

definition io_pages :: "nvme_command \<Rightarrow> nat" where
  "io_pages cmd = DIV_ROUND_UP (io_bytes cmd) PAGE_SIZE"

text \<open>The page number \<open>k\<close> of the data: the first entry, then the second or the list that it points to.\<close>

definition data_page :: "phys \<Rightarrow> nvme_command \<Rightarrow> nat \<Rightarrow> u64" where
  "data_page m cmd k =
     (if k = 0 then prp1 cmd else if io_pages cmd \<le> 2 then prp2 cmd
      else rd64 m (prp2 cmd + of_nat (8 * (k - 1))))"

definition data_byte :: "phys \<Rightarrow> nvme_command \<Rightarrow> nat \<Rightarrow> u64" where
  "data_byte m cmd i = data_page m cmd (i div 4096) + of_nat (i mod 4096)"

lemma io_bytes_pos: "0 < io_bytes cmd" "io_bytes cmd \<le> 2 ^ 25"
proof -
  have "unat (rw_length cmd) < 2 ^ 16" using unsigned_less [of "rw_length cmd", where 'a = nat] by simp
  then show "0 < io_bytes cmd" "io_bytes cmd \<le> 2 ^ 25" by (auto simp: io_bytes_def push_bit_eq_mult)
qed

lemma io_pages_bound:
  "k < io_pages cmd \<longleftrightarrow> 4096 * k < io_bytes cmd"
  unfolding io_pages_def DIV_ROUND_UP_def PAGE_SIZE_def using io_bytes_pos(1) [of cmd]
  by (simp add: less_eq_div_iff_mult_less_eq Suc_le_eq [symmetric]) linarith

definition loop_at :: "nvme_command \<Rightarrow> nat \<Rightarrow> io_loop" where
  "loop_at cmd k = \<lparr>prp_offs = k, prp2_offs = (if 2 \<le> k \<and> 2 < io_pages cmd then k - 1 else 0),
     paddr_list = (if 2 \<le> k \<and> 2 < io_pages cmd then Some (prp2 cmd) else None), mem_offs = 0,
     st_offset = push_bit 9 (rw_slba cmd) + of_nat (4096 * k), remaining = io_bytes cmd - 4096 * k\<rparr>"

lemma next_prp_page:
  assumes "k < io_pages cmd"
  shows "next_prp m cmd (loop_at cmd k) = Some (data_page m cmd k,
    (loop_at cmd (Suc k))\<lparr>st_offset := st_offset (loop_at cmd k), remaining := remaining (loop_at cmd k)\<rparr>)"
proof -
  have r: "PAGE_SIZE < io_bytes cmd - 4096 \<longleftrightarrow> 2 < io_pages cmd"
    using io_pages_bound [of 2 cmd] by (auto simp: PAGE_SIZE_def)
  consider "k = 0" | "k = 1" | "2 \<le> k" by linarith
  then show ?thesis
  proof cases
    case 2
    then show ?thesis using r page_base_off [of "prp2 cmd"]
      by (auto simp: next_prp_def loop_at_def data_page_def Let_def)
  next
    case 3
    then show ?thesis using assms by (auto simp: next_prp_def loop_at_def data_page_def Let_def)
  qed (simp add: next_prp_def loop_at_def data_page_def)
qed

text \<open>The size of page \<open>k\<close>, and the loop after it.\<close>

definition chunk :: "nvme_command \<Rightarrow> nat \<Rightarrow> nat" where
  "chunk cmd k = min (io_bytes cmd - 4096 * k) 4096"

lemma io_chunk_aligned:
  "page_off p = 0 \<Longrightarrow> mem_offs l = 0 \<Longrightarrow> remaining l = io_bytes cmd - 4096 * k \<Longrightarrow> io_chunk p l = (0, chunk cmd k)"
  by (simp add: io_chunk_def chunk_def PAGE_SIZE_def)

lemma unat_of_nat64: "n < 2 ^ 64 \<Longrightarrow> unat (of_nat n :: u64) = n"
  by (simp add: unat_of_nat)

lemma unat_add64: "unat (a :: u64) + n < 2 ^ 64 \<Longrightarrow> unat (a + of_nat n) = unat a + n"
  by (simp add: unat_word_ariths unat_of_nat mod_simps)

lemma offset_at:
  assumes "unat (push_bit 9 (rw_slba cmd) :: u64) + io_bytes cmd \<le> unat (sz :: u64)" and "4096 * k < io_bytes cmd"
  shows "unat (push_bit 9 (rw_slba cmd) + of_nat (4096 * k) :: u64) = unat (push_bit 9 (rw_slba cmd) :: u64) + 4096 * k"
  by (rule unat_add64) (use assms unsigned_less [of sz, where 'a = nat] in simp)

lemma chunk_pos:
  assumes "k < io_pages cmd"
  shows "0 < chunk cmd k" "chunk cmd k \<le> 4096" "4096 * k + chunk cmd k \<le> io_bytes cmd"
  using assms io_pages_bound [of k cmd] by (auto simp: chunk_def)

text \<open>One round of the loop on an aligned page.\<close>

lemma perform_page_aligned:
  assumes al: "page_off p = 0" and k: "k < io_pages cmd"
    and fit: "unat (push_bit 9 (rw_slba cmd) :: u64) + io_bytes cmd \<le> unat (storage_size (config d))"
  shows "perform_page p ((loop_at cmd (Suc k))\<lparr>st_offset := st_offset (loop_at cmd k), remaining := remaining (loop_at cmd k)\<rparr>) op d =
    Some ((loop_at cmd (Suc k))\<lparr>st_offset := st_offset (loop_at cmd k) + of_nat (chunk cmd k),
       remaining := io_bytes cmd - 4096 * k - chunk cmd k\<rparr>,
     (let off = unat (push_bit 9 (rw_slba cmd) :: u64) + 4096 * k in
      if op = nvme_cmd_write then d\<lparr>storage_mapped := copy_in (storage_mapped d) off (dev_mem d) p (chunk cmd k)\<rparr>
      else d\<lparr>dev_mem := copy_out (dev_mem d) p (storage_mapped d) off (chunk cmd k)\<rparr>))"
proof -
  have kb: "4096 * k < io_bytes cmd" using k io_pages_bound by simp
  let ?l = "(loop_at cmd (Suc k))\<lparr>st_offset := st_offset (loop_at cmd k), remaining := remaining (loop_at cmd k)\<rparr>"
  have c: "io_chunk p ?l = (0, chunk cmd k)"
    by (rule io_chunk_aligned [OF al]) (simp_all add: loop_at_def)
  have o: "unat (st_offset ?l) = unat (push_bit 9 (rw_slba cmd) :: u64) + 4096 * k"
    using offset_at [OF fit kb] by (simp add: loop_at_def)
  have "unat (push_bit 9 (rw_slba cmd) :: u64) + 4096 * k + chunk cmd k \<le> unat (storage_size (config d))"
    using fit chunk_pos(3) [OF k] by simp
  then show ?thesis
    using o page_base_aligned [OF al] unfolding perform_page_def c
    by (simp add: Let_def loop_at_def not_less)
qed

text \<open>The loop state after the last page does not matter, after any other it is that of the next page.\<close>

lemma loop_next:
  assumes "k < io_pages cmd"
  shows "(loop_at cmd (Suc k))\<lparr>st_offset := st_offset (loop_at cmd k) + of_nat (chunk cmd k),
       remaining := io_bytes cmd - 4096 * k - chunk cmd k\<rparr> = loop_at cmd (Suc k) \<or>
    Suc k = io_pages cmd"
proof (cases "Suc k < io_pages cmd")
  case True
  then have "chunk cmd k = 4096" using io_pages_bound [of "Suc k" cmd] by (simp add: chunk_def)
  then show ?thesis by (simp add: loop_at_def algebra_simps)
qed (use assms in simp)

lemma last_page: "Suc k = io_pages cmd \<Longrightarrow> 4096 * k + chunk cmd k = io_bytes cmd"
  using io_pages_bound [of k cmd] io_pages_bound [of "Suc k" cmd] by (auto simp: chunk_def)

section \<open>Writes\<close>

text \<open>The storage when the first \<open>n\<close> bytes have been copied.\<close>

definition stored :: "storage \<Rightarrow> nat \<Rightarrow> phys \<Rightarrow> nvme_command \<Rightarrow> nat \<Rightarrow> storage" where
  "stored st off m cmd n = (\<lambda>i. if off \<le> i \<and> i < off + n then m (data_byte m cmd (i - off)) else st i)"

lemma copy_in_stored:
  assumes "c \<le> 4096"
  shows "copy_in (stored st off m cmd (4096 * k)) (off + 4096 * k) m (data_page m cmd k) c =
    stored st off m cmd (4096 * k + c)"
proof
  fix i
  show "copy_in (stored st off m cmd (4096 * k)) (off + 4096 * k) m (data_page m cmd k) c i =
    stored st off m cmd (4096 * k + c) i"
  proof (cases "off + 4096 * k \<le> i \<and> i < off + 4096 * k + c")
    case True
    then obtain j where j: "i = off + 4096 * k + j" "j < c" by (metis le_Suc_ex nat_add_left_cancel_less)
    have e: "i - off = 4096 * k + j" using j(1) by simp
    have "(4096 * k + j) div 4096 = k" "(4096 * k + j) mod 4096 = j" using j(2) assms by auto
    then show ?thesis using True j(1) unfolding copy_in_def stored_def data_byte_def e by simp
  qed (auto simp: copy_in_def stored_def)
qed

lemma write_loop:
  assumes cmd: "sq_command d sqid e = Some cmd" and op: "opcode cmd = nvme_cmd_write"
    and al: "\<forall>k<io_pages cmd. page_off (data_page (dev_mem d) cmd k) = 0"
    and fit: "unat (push_bit 9 (rw_slba cmd) :: u64) + io_bytes cmd \<le> unat (storage_size (config d))"
  defines "st n \<equiv> stored (storage_mapped d) (unat (push_bit 9 (rw_slba cmd) :: u64)) (dev_mem d) cmd n"
  assumes "k < io_pages cmd"
  shows "perform_io_loop sqid e (loop_at cmd k) (d\<lparr>storage_mapped := st (4096 * k)\<rparr>) =
    Some (d\<lparr>storage_mapped := st (io_bytes cmd)\<rparr>)"
  using assms(6)
proof (induction "io_pages cmd - k" arbitrary: k)
  case 0
  then show ?case by simp
next
  case (Suc n)
  let ?d = "d\<lparr>storage_mapped := st (4096 * k)\<rparr>"
  let ?p = "data_page (dev_mem d) cmd k"
  have rem: "remaining (loop_at cmd k) \<noteq> 0" using io_pages_bound [of k cmd] Suc.prems by (simp add: loop_at_def)
  have c: "sq_command ?d sqid e = Some cmd" using cmd by (simp add: sq_command_def sq_of_def)
  have al': "page_off ?p = 0" using al Suc.prems by blast
  note step = perform_page_aligned [OF al' Suc.prems, of ?d "opcode cmd"]
  let ?l = "(loop_at cmd (Suc k))\<lparr>st_offset := st_offset (loop_at cmd k) + of_nat (chunk cmd k),
     remaining := io_bytes cmd - 4096 * k - chunk cmd k\<rparr>"
  have "copy_in (st (4096 * k)) (unat (push_bit 9 (rw_slba cmd) :: u64) + 4096 * k) (dev_mem d) ?p (chunk cmd k) =
      st (4096 * k + chunk cmd k)"
    unfolding st_def by (rule copy_in_stored) (rule chunk_pos(2) [OF Suc.prems])
  then have unroll: "perform_io_loop sqid e (loop_at cmd k) ?d =
      perform_io_loop sqid e ?l (d\<lparr>storage_mapped := st (4096 * k + chunk cmd k)\<rparr>)"
    using rem c next_prp_page [OF Suc.prems, of "dev_mem d"] step fit op
    by (subst perform_io_loop.simps) (simp add: Let_def)
  show ?case
  proof (cases "Suc k = io_pages cmd")
    case True
    note l = last_page [OF this]
    then have "remaining ?l = 0" by simp
    then show ?thesis unfolding unroll l by (subst perform_io_loop.simps) simp
  next
    case False
    then have lt: "Suc k < io_pages cmd" using Suc.prems by simp
    then have "chunk cmd k = 4096" using io_pages_bound [of "Suc k" cmd] by (simp add: chunk_def)
    moreover have "?l = loop_at cmd (Suc k)" using loop_next [OF Suc.prems] False by blast
    ultimately show ?thesis using Suc.hyps(1) [of "Suc k"] Suc.hyps(2) lt unroll by (simp add: add.commute)
  qed
qed

lemma perform_write_ok:
  assumes cmd: "sq_command d sqid e = Some cmd" and op: "opcode cmd = nvme_cmd_write"
    and al: "\<forall>k<io_pages cmd. page_off (data_page (dev_mem d) cmd k) = 0"
    and fit: "unat (push_bit 9 (rw_slba cmd) :: u64) + io_bytes cmd \<le> unat (storage_size (config d))"
  shows "do_perform_io sqid e d = Some (io_bytes cmd, d\<lparr>storage_mapped :=
    stored (storage_mapped d) (unat (push_bit 9 (rw_slba cmd) :: u64)) (dev_mem d) cmd (io_bytes cmd)\<rparr>)"
proof -
  have n: "0 < io_pages cmd" using io_pages_bound [of 0 cmd] io_bytes_pos by simp
  have "stored (storage_mapped d) (unat (push_bit 9 (rw_slba cmd) :: u64)) (dev_mem d) cmd 0 = storage_mapped d"
    by (rule ext) (auto simp: stored_def)
  moreover have "loop_at cmd 0 = \<lparr>prp_offs = 0, prp2_offs = 0, paddr_list = None, mem_offs = 0,
      st_offset = push_bit 9 (rw_slba cmd), remaining = push_bit 9 (unat (rw_length cmd) + 1)\<rparr>"
    by (simp add: loop_at_def io_bytes_def)
  ultimately show ?thesis
    using write_loop [OF cmd op al fit n] cmd by (simp add: do_perform_io_def io_bytes_def Let_def)
qed

section \<open>Reads\<close>

text \<open>The memory when the first \<open>n\<close> bytes have been copied.\<close>

definition loaded :: "phys \<Rightarrow> phys \<Rightarrow> storage \<Rightarrow> nat \<Rightarrow> nvme_command \<Rightarrow> nat \<Rightarrow> bool" where
  "loaded m m' st off cmd n \<longleftrightarrow>
     (\<forall>i<n. m' (data_byte m cmd i) = st (off + i)) \<and>
     (\<forall>x. x \<notin> data_byte m cmd ` {..<n} \<longrightarrow> m' x = m x)"

lemma loaded_page:
  assumes L: "loaded m m' st off cmd (4096 * k)" and c: "c \<le> 4096"
    and inj: "inj_on (data_byte m cmd) {..<4096 * k + c}"
  shows "loaded m (copy_out m' (data_page m cmd k) st (off + 4096 * k) c) st off cmd (4096 * k + c)"
proof -
  let ?p = "data_page m cmd k"
  have byte: "data_byte m cmd (4096 * k + j) = ?p + of_nat j" if "j < c" for j
  proof -
    have "(4096 * k + j) div 4096 = k" "(4096 * k + j) mod 4096 = j" using that c by auto
    then show ?thesis by (simp add: data_byte_def)
  qed
  have hit: "x = data_byte m cmd (4096 * k + unat (x - ?p))" if "unat (x - ?p) < c" for x
    using byte [OF that] by simp
  have at: "unat (?p + of_nat j - ?p) = j" if "j < c" for j
    using that c by (simp add: unat_of_nat)
  show ?thesis
    unfolding loaded_def
  proof (intro conjI allI impI)
    fix i assume i: "i < 4096 * k + c"
    show "copy_out m' ?p st (off + 4096 * k) c (data_byte m cmd i) = st (off + i)"
    proof (cases "i < 4096 * k")
      case True
      have "\<not> unat (data_byte m cmd i - ?p) < c"
      proof
        assume h: "unat (data_byte m cmd i - ?p) < c"
        then have "i = 4096 * k + unat (data_byte m cmd i - ?p)"
          using hit [OF h] i by (intro inj_onD [OF inj]) auto
        then show False using True by simp
      qed
      then show ?thesis using L True by (simp add: copy_out_def loaded_def)
    next
      case False
      then obtain j where j: "i = 4096 * k + j" "j < c" using i by (metis le_Suc_ex nat_add_left_cancel_less not_less)
      then show ?thesis using byte [OF j(2)] at [OF j(2)] by (simp add: copy_out_def add.assoc)
    qed
  next
    fix x assume x: "x \<notin> data_byte m cmd ` {..<4096 * k + c}"
    then have "\<not> unat (x - ?p) < c" using hit [of x] by auto
    moreover have "x \<notin> data_byte m cmd ` {..<4096 * k}" using x by auto
    ultimately show "copy_out m' ?p st (off + 4096 * k) c x = m x"
      using L by (simp add: copy_out_def loaded_def)
  qed
qed

lemma read_command_cong:
  assumes "\<And>i. i < 64 \<Longrightarrow> m' (a + of_nat i) = m (a + of_nat i)"
  shows "read_command m' a = read_command m a"
proof -
  have w: "rd16 m' (a + of_nat i) = rd16 m (a + of_nat i)" if "i + 1 < 64" for i
    using assms [of i] assms [of "i + 1"] that by (simp add: rd16_def ac_simps)
  have d: "rd32 m' (a + of_nat i) = rd32 m (a + of_nat i)" if "i + 3 < 64" for i
    using w [of i] w [of "i + 2"] that by (simp add: rd32_def ac_simps)
  have q: "rd64 m' (a + of_nat i) = rd64 m (a + of_nat i)" if "i + 7 < 64" for i
    using d [of i] d [of "i + 4"] that by (simp add: rd64_def ac_simps)
  show ?thesis
    unfolding read_command_def
    using assms [of 0] assms [of 1] w [of 2] d [of 4] d [of 8] d [of 12] q [of 16] q [of 24] q [of 32]
      d [of 40] d [of 44] d [of 48] d [of 52] d [of 56] d [of 60] by simp
qed

lemma rd64_cong:
  assumes "\<And>i. i < 8 \<Longrightarrow> m' (a + of_nat i) = m (a + of_nat i)"
  shows "rd64 m' a = rd64 m a"
  using assms [of 0] assms [of 1] assms [of 2] assms [of 3] assms [of 4] assms [of 5] assms [of 6] assms [of 7]
  by (simp add: rd64_def rd32_def rd16_def add.assoc)

text \<open>The command and its list of pages lie outside the bytes that are written.\<close>

definition command_apart :: "phys \<Rightarrow> u64 \<Rightarrow> nvme_command \<Rightarrow> bool" where
  "command_apart m a cmd \<longleftrightarrow>
     (\<forall>i<64. a + of_nat i \<notin> data_byte m cmd ` {..<io_bytes cmd}) \<and>
     (2 < io_pages cmd \<longrightarrow>
        (\<forall>i<8 * (io_pages cmd - 1). prp2 cmd + of_nat i \<notin> data_byte m cmd ` {..<io_bytes cmd}))"

lemma command_apart_read:
  assumes ap: "command_apart m a cmd" and L: "loaded m m' st off cmd n" and n: "n \<le> io_bytes cmd"
  shows "read_command m' a = read_command m a" "k < io_pages cmd \<Longrightarrow> data_page m' cmd k = data_page m cmd k"
proof -
  have same: "m' x = m x" if "x \<notin> data_byte m cmd ` {..<io_bytes cmd}" for x
  proof -
    have "x \<notin> data_byte m cmd ` {..<n}" using that n by auto
    then show ?thesis using L by (simp add: loaded_def)
  qed
  show "read_command m' a = read_command m a"
    by (rule read_command_cong) (use ap same in \<open>simp add: command_apart_def\<close>)
  assume k: "k < io_pages cmd"
  have "rd64 m' (prp2 cmd + of_nat (8 * (k - 1))) = rd64 m (prp2 cmd + of_nat (8 * (k - 1)))"
    if "k \<noteq> 0" "2 < io_pages cmd"
  proof (rule rd64_cong)
    fix i :: nat assume i: "i < 8"
    have "8 * (k - 1) + i < 8 * (io_pages cmd - 1)" using that k i by simp
    then have "prp2 cmd + of_nat (8 * (k - 1) + i) \<notin> data_byte m cmd ` {..<io_bytes cmd}"
      using ap that(2) unfolding command_apart_def by blast
    then show "m' (prp2 cmd + of_nat (8 * (k - 1)) + of_nat i) = m (prp2 cmd + of_nat (8 * (k - 1)) + of_nat i)"
      using same by (simp add: add.assoc)
  qed
  then show "data_page m' cmd k = data_page m cmd k" by (simp add: data_page_def)
qed

lemma read_loop:
  assumes sq: "sq_of d sqid = Some sq" "sq_entry (sq_sq sq) e = Some a" and cmd: "read_command (dev_mem d) a = cmd"
    and op: "opcode cmd \<noteq> nvme_cmd_write"
    and al: "\<forall>k<io_pages cmd. page_off (data_page (dev_mem d) cmd k) = 0"
    and fit: "unat (push_bit 9 (rw_slba cmd) :: u64) + io_bytes cmd \<le> unat (storage_size (config d))"
    and inj: "inj_on (data_byte (dev_mem d) cmd) {..<io_bytes cmd}" and ap: "command_apart (dev_mem d) a cmd"
  defines "L \<equiv> \<lambda>m' n. loaded (dev_mem d) m' (storage_mapped d) (unat (push_bit 9 (rw_slba cmd) :: u64)) cmd n"
  assumes "k < io_pages cmd" and "L m' (4096 * k)"
  shows "returns (perform_io_loop sqid e (loop_at cmd k) (d\<lparr>dev_mem := m'\<rparr>))
    (\<lambda>d'. \<exists>m''. d' = d\<lparr>dev_mem := m''\<rparr> \<and> L m'' (io_bytes cmd))"
  using assms(10,11)
proof (induction "io_pages cmd - k" arbitrary: k m')
  case 0
  then show ?case by simp
next
  case (Suc n)
  let ?d = "d\<lparr>dev_mem := m'\<rparr>"
  let ?p = "data_page (dev_mem d) cmd k"
  have b: "4096 * k \<le> io_bytes cmd" and rem: "remaining (loop_at cmd k) \<noteq> 0"
    using io_pages_bound [of k cmd] Suc.prems(1) by (auto simp: loop_at_def)
  note L = Suc.prems(2) [unfolded L_def]
  have c: "sq_command ?d sqid e = Some cmd"
    using sq cmd command_apart_read(1) [OF ap L b] by (simp add: sq_command_def sq_of_def)
  have pg: "data_page m' cmd k = ?p" by (rule command_apart_read(2) [OF ap L b Suc.prems(1)])
  have al': "page_off ?p = 0" using al Suc.prems(1) by blast
  note step = perform_page_aligned [OF al' Suc.prems(1), of ?d "opcode cmd"]
  let ?l = "(loop_at cmd (Suc k))\<lparr>st_offset := st_offset (loop_at cmd k) + of_nat (chunk cmd k),
     remaining := io_bytes cmd - 4096 * k - chunk cmd k\<rparr>"
  let ?m = "copy_out m' ?p (storage_mapped d) (unat (push_bit 9 (rw_slba cmd) :: u64) + 4096 * k) (chunk cmd k)"
  have unroll: "perform_io_loop sqid e (loop_at cmd k) ?d = perform_io_loop sqid e ?l (d\<lparr>dev_mem := ?m\<rparr>)"
    using rem c next_prp_page [OF Suc.prems(1), of m'] step fit op
    by (subst perform_io_loop.simps) (simp add: Let_def pg)
  have new: "L ?m (4096 * k + chunk cmd k)"
    unfolding L_def by (rule loaded_page [OF L chunk_pos(2) [OF Suc.prems(1)]])
      (rule inj_on_subset [OF inj], use chunk_pos(3) [OF Suc.prems(1)] in auto)
  show ?case
  proof (cases "Suc k = io_pages cmd")
    case True
    note l = last_page [OF this]
    then have "remaining ?l = 0" by simp
    then show ?thesis using new unfolding unroll l by (subst perform_io_loop.simps) auto
  next
    case False
    then have lt: "Suc k < io_pages cmd" using Suc.prems(1) by simp
    then have "chunk cmd k = 4096" using io_pages_bound [of "Suc k" cmd] by (simp add: chunk_def)
    moreover have "?l = loop_at cmd (Suc k)" using loop_next [OF Suc.prems(1)] False by blast
    ultimately show ?thesis
      using Suc.hyps(1) [of "Suc k" ?m] Suc.hyps(2) lt unroll new by (simp add: add.commute)
  qed
qed

lemma perform_read_ok:
  assumes sq: "sq_of d sqid = Some sq" "sq_entry (sq_sq sq) e = Some a" and cmd: "read_command (dev_mem d) a = cmd"
    and op: "opcode cmd \<noteq> nvme_cmd_write"
    and al: "\<forall>k<io_pages cmd. page_off (data_page (dev_mem d) cmd k) = 0"
    and fit: "unat (push_bit 9 (rw_slba cmd) :: u64) + io_bytes cmd \<le> unat (storage_size (config d))"
    and inj: "inj_on (data_byte (dev_mem d) cmd) {..<io_bytes cmd}" and ap: "command_apart (dev_mem d) a cmd"
  shows "returns (do_perform_io sqid e d) (\<lambda>(n, d'). n = io_bytes cmd \<and> (\<exists>m'. d' = d\<lparr>dev_mem := m'\<rparr> \<and>
    loaded (dev_mem d) m' (storage_mapped d) (unat (push_bit 9 (rw_slba cmd) :: u64)) cmd (io_bytes cmd)))"
proof -
  have n: "0 < io_pages cmd" using io_pages_bound [of 0 cmd] io_bytes_pos by simp
  have "loaded (dev_mem d) (dev_mem d) (storage_mapped d) (unat (push_bit 9 (rw_slba cmd) :: u64)) cmd (4096 * 0)"
    by (simp add: loaded_def)
  from read_loop [OF sq cmd op al fit inj ap n this]
  obtain m' where "perform_io_loop sqid e (loop_at cmd 0) d = Some (d\<lparr>dev_mem := m'\<rparr>)"
    "loaded (dev_mem d) m' (storage_mapped d) (unat (push_bit 9 (rw_slba cmd) :: u64)) cmd (io_bytes cmd)"
    by (auto elim!: returnsE)
  moreover have "sq_command d sqid e = Some cmd" using sq cmd by (simp add: sq_command_def)
  moreover have "loop_at cmd 0 = \<lparr>prp_offs = 0, prp2_offs = 0, paddr_list = None, mem_offs = 0,
      st_offset = push_bit 9 (rw_slba cmd), remaining = push_bit 9 (unat (rw_length cmd) + 1)\<rparr>"
    by (simp add: loop_at_def io_bytes_def)
  ultimately show ?thesis by (auto simp: do_perform_io_def io_bytes_def Let_def)
qed

end
