(* ===== verification/Data_Props.thy ===== *)
theory Data_Props
  imports IO_Data Demo_Device
begin

text \<open>
  The properties of the data copies: what a command copies when its PRP entries are page
  aligned, and two cases in which the code copies something else than the host asked for.
\<close>

text \<open>C17. A write whose PRP entries are page aligned copies the bytes of its pages, in order, to the storage from
  \<open>slba * 512\<close> on, and changes nothing else.\<close>

theorem perform_io_write_correct:
  assumes "sq_command d sqid e = Some cmd" and "opcode cmd = nvme_cmd_write"
    and "\<forall>k<io_pages cmd. page_off (data_page (dev_mem d) cmd k) = 0"
    and "unat (push_bit 9 (rw_slba cmd) :: u64) + io_bytes cmd \<le> unat (storage_size (config d))"
  shows "do_perform_io sqid e d = Some (io_bytes cmd, d\<lparr>storage_mapped := (\<lambda>i.
    let off = unat (push_bit 9 (rw_slba cmd) :: u64) in
    if off \<le> i \<and> i < off + io_bytes cmd then dev_mem d (data_byte (dev_mem d) cmd (i - off)) else storage_mapped d i)\<rparr>)"
  using perform_write_ok [OF assms] by (simp add: stored_def Let_def)

lemma demo_cmd_fields: "opcode demo_cmd = 1" "prp1 demo_cmd = 0x20000" "prp2 demo_cmd = 0"
  by (simp_all add: demo_cmd_def)

lemma demo_dev_fields: "storage_size (config (demo_dev s)) = 16384" "storage_mapped (demo_dev s) = (\<lambda>_. 0)"
  "dev_mem (demo_dev s) = write_bytes (\<lambda>_. 9) 0x10000 (command_bytes demo_cmd)"
  by (simp_all add: demo_dev_def demo_cfg_def)

lemma demo_cmd_pages: "io_bytes demo_cmd = 4096" "io_pages demo_cmd = 1" "rw_slba demo_cmd = 0"
proof -
  show b: "io_bytes demo_cmd = 4096"
    by (simp add: io_bytes_def rw_length_def lo16_def demo_cmd_def push_bit_eq_mult)
  show "io_pages demo_cmd = 1" by (simp add: io_pages_def b DIV_ROUND_UP_def PAGE_SIZE_def)
  show "rw_slba demo_cmd = 0" by (simp add: rw_slba_def demo_cmd_def)
qed

theorem perform_io_write_correct_witness:
  "returns (do_perform_io 1 0 (demo_dev (blank tiny_sp))) (\<lambda>(n, d'). n = 4096 \<and> storage_mapped d' 0 = 9 \<and>
    storage_mapped d' 4095 = 9 \<and> storage_mapped d' 4096 = 0)"
proof -
  let ?d = "demo_dev (blank tiny_sp)"
  have "do_perform_io 1 0 ?d = Some (io_bytes demo_cmd, ?d\<lparr>storage_mapped := (\<lambda>i.
    let off = unat (push_bit 9 (rw_slba demo_cmd) :: u64) in
    if off \<le> i \<and> i < off + io_bytes demo_cmd then dev_mem ?d (data_byte (dev_mem ?d) demo_cmd (i - off)) else storage_mapped ?d i)\<rparr>)"
    by (rule perform_io_write_correct [OF demo_command])
       (simp_all add: demo_cmd_pages demo_cmd_fields demo_dev_fields data_page_def page_off_mod nvme_cmd_write_def)
  then show ?thesis
    by (simp add: demo_cmd_pages demo_cmd_fields demo_dev_fields data_byte_def data_page_def write_bytes_def)
qed

text \<open>C18. Any other command with page-aligned PRP entries, distinct pages and the queue and the list outside
  them, copies the storage from \<open>slba * 512\<close> on to the bytes of its pages and changes no other byte.\<close>

theorem perform_io_read_correct:
  assumes "sq_of d sqid = Some sq" and "sq_entry (sq_sq sq) e = Some a" and "read_command (dev_mem d) a = cmd"
    and "opcode cmd \<noteq> nvme_cmd_write"
    and "\<forall>k<io_pages cmd. page_off (data_page (dev_mem d) cmd k) = 0"
    and "unat (push_bit 9 (rw_slba cmd) :: u64) + io_bytes cmd \<le> unat (storage_size (config d))"
    and "inj_on (data_byte (dev_mem d) cmd) {..<io_bytes cmd}" and "command_apart (dev_mem d) a cmd"
  shows "returns (do_perform_io sqid e d) (\<lambda>(n, d'). n = io_bytes cmd \<and> (\<exists>m'. d' = d\<lparr>dev_mem := m'\<rparr> \<and>
    (\<forall>i<io_bytes cmd. m' (data_byte (dev_mem d) cmd i) =
       storage_mapped d (unat (push_bit 9 (rw_slba cmd) :: u64) + i)) \<and>
    (\<forall>x. x \<notin> data_byte (dev_mem d) cmd ` {..<io_bytes cmd} \<longrightarrow> m' x = dev_mem d x)))"
  by (rule returns_mono [OF perform_read_ok [OF assms]]) (auto simp: loaded_def)

definition read_cmd :: nvme_command where
  "read_cmd = demo_cmd\<lparr>opcode := 2\<rparr>"

definition read_dev :: nvmev_dev where
  "read_dev = (demo_dev (blank tiny_sp))\<lparr>dev_mem := write_bytes (\<lambda>_. 9) 0x10000 (command_bytes read_cmd),
     storage_mapped := of_nat\<rparr>"

lemma read_cmd_fields: "opcode read_cmd = 2" "prp1 read_cmd = 0x20000"
  by (simp_all add: read_cmd_def demo_cmd_fields)

lemma read_cmd_pages: "io_bytes read_cmd = 4096" "io_pages read_cmd = 1" "rw_slba read_cmd = 0"
  using demo_cmd_pages
  by (simp_all add: read_cmd_def io_bytes_def io_pages_def rw_length_def rw_slba_def DIV_ROUND_UP_def PAGE_SIZE_def)

lemma read_cmd_byte: "i < 4096 \<Longrightarrow> data_byte m read_cmd i = 0x20000 + of_nat i"
  by (simp add: data_byte_def data_page_def read_cmd_def demo_cmd_def)

lemma unat_read_byte: "i < 4096 \<Longrightarrow> unat (0x20000 + of_nat i :: u64) = 0x20000 + i"
  by (subst unat_add64) simp_all

theorem perform_io_read_correct_witness:
  "returns (do_perform_io 1 0 read_dev) (\<lambda>(n, d'). n = 4096 \<and> dev_mem d' 0x20005 = 5 \<and> dev_mem d' 0x10000 = 2)"
proof -
  let ?m = "dev_mem read_dev"
  have sq: "sq_of read_dev 1 = Some demo_sq" "sq_entry (sq_sq demo_sq) 0 = Some 0x10000"
    by (simp_all add: read_dev_def demo_dev_def sq_of_def get_queue_def sq_entry_def demo_sq_def
        SQ_ENTRY_TO_PAGE_NUM_def SQ_ENTRY_TO_PAGE_OFFSET_def)
  have cmd: "read_command ?m 0x10000 = read_cmd" by (simp add: read_dev_def read_command_bytes)
  have inj: "inj_on (data_byte ?m read_cmd) {..<io_bytes read_cmd}"
    unfolding read_cmd_pages by (rule inj_onI) (metis read_cmd_byte unat_read_byte add_left_cancel lessThan_iff)
  have ap: "command_apart ?m 0x10000 read_cmd"
  proof -
    have "0x10000 + of_nat i \<noteq> data_byte ?m read_cmd j" if "i < 64" "j < 4096" for i j
    proof -
      have u: "unat (0x10000 + of_nat i :: u64) = 0x10000 + i" by (subst unat_add64) (use that in simp_all)
      show ?thesis
      proof
        assume "0x10000 + of_nat i = data_byte ?m read_cmd j"
        then have "0x10000 + i = 0x20000 + j" using u unat_read_byte [OF that(2)] read_cmd_byte [OF that(2)] by metis
        then show False using that(1) by simp
      qed
    qed
    then show ?thesis by (auto simp: command_apart_def read_cmd_pages)
  qed
  have "returns (do_perform_io 1 0 read_dev) (\<lambda>(n, d'). n = io_bytes read_cmd \<and> (\<exists>m'. d' = read_dev\<lparr>dev_mem := m'\<rparr> \<and>
    (\<forall>i<io_bytes read_cmd. m' (data_byte ?m read_cmd i) =
       storage_mapped read_dev (unat (push_bit 9 (rw_slba read_cmd) :: u64) + i)) \<and>
    (\<forall>x. x \<notin> data_byte ?m read_cmd ` {..<io_bytes read_cmd} \<longrightarrow> m' x = ?m x)))"
    by (rule perform_io_read_correct [OF sq cmd _ _ _ inj ap])
       (simp_all add: read_cmd_pages data_page_def page_off_mod read_cmd_fields nvme_cmd_write_def
         read_dev_def demo_dev_fields)
  then show ?thesis
  proof (rule returns_mono, clarify)
    fix n m'
    assume new: "\<forall>i<io_bytes read_cmd. m' (data_byte ?m read_cmd i) =
        storage_mapped read_dev (unat (push_bit 9 (rw_slba read_cmd) :: u64) + i)"
      and old: "\<forall>x. x \<notin> data_byte ?m read_cmd ` {..<io_bytes read_cmd} \<longrightarrow> m' x = ?m x"
    have "m' (0x20000 + of_nat 5) = of_nat 5"
      using new [rule_format, of 5] read_cmd_byte [of 5] by (simp add: read_cmd_pages read_dev_def)
    moreover have "0x10000 + of_nat 0 \<notin> data_byte ?m read_cmd ` {..<io_bytes read_cmd}"
      using ap unfolding command_apart_def by (elim conjE allE [of _ 0]) simp
    then have "m' 0x10000 = ?m 0x10000" using old by simp
    moreover have "?m 0x10000 = 2"
      by (simp add: read_dev_def write_bytes_def command_bytes_def read_cmd_fields)
    ultimately show "io_bytes read_cmd = 4096 \<and> dev_mem (read_dev\<lparr>dev_mem := m'\<rparr>) 0x20005 = 5 \<and>
        dev_mem (read_dev\<lparr>dev_mem := m'\<rparr>) 0x10000 = 2"
      by (simp add: read_cmd_pages)
  qed
qed

text \<open>C23. The offset of the first page is not reset in a write: when the first PRP entry has offset \<open>o > 0\<close> and the second,
  as the standard demands, has none, the rest of the data is taken from offset \<open>o\<close> of the second page
  (and, past its end, from the page behind it) instead of from its start. Nothing but the place of the command in the
  storage changes.\<close>

theorem perform_io_stale_offset:
  assumes "sq_command d sqid e = Some cmd" and "opcode cmd = nvme_cmd_write" and "io_bytes cmd = 4096"
    and "0 < page_off (prp1 cmd)" and "page_off (prp2 cmd) = 0"
    and "unat (push_bit 9 (rw_slba cmd) :: u64) + 4096 \<le> unat (storage_size (config d))"
  shows "returns (do_perform_io sqid e d) (\<lambda>(n, d'). n = 4096 \<and> d' = d\<lparr>storage_mapped := storage_mapped d'\<rparr> \<and>
    (let off = unat (push_bit 9 (rw_slba cmd) :: u64); o1 = page_off (prp1 cmd) in
     (\<forall>j. j < off \<or> off + 4096 \<le> j \<longrightarrow> storage_mapped d' j = storage_mapped d j) \<and>
     (\<forall>i<4096 - o1. storage_mapped d' (off + i) = dev_mem d (prp1 cmd + of_nat i)) \<and>
     (\<forall>i<o1. storage_mapped d' (off + (4096 - o1) + i) = dev_mem d (prp2 cmd + of_nat (o1 + i)))))"
proof -
  let ?off = "unat (push_bit 9 (rw_slba cmd) :: u64)" and ?o = "page_off (prp1 cmd)"
  have o: "?o < 4096" using page_off_less [of "prp1 cmd"] by (simp add: PAGE_SIZE_def)
  let ?l0 = "\<lparr>prp_offs = 0, prp2_offs = 0, paddr_list = None, mem_offs = 0,
      st_offset = push_bit 9 (rw_slba cmd), remaining = 4096\<rparr>"
  let ?l1 = "\<lparr>prp_offs = 1, prp2_offs = 0, paddr_list = None, mem_offs = ?o,
      st_offset = push_bit 9 (rw_slba cmd) + of_nat (4096 - ?o), remaining = ?o\<rparr>"
  let ?st1 = "copy_in (storage_mapped d) ?off (dev_mem d) (prp1 cmd) (4096 - ?o)"
  let ?st2 = "copy_in ?st1 (?off + (4096 - ?o)) (dev_mem d) (prp2 cmd + of_nat ?o) ?o"
  let ?d1 = "d\<lparr>storage_mapped := ?st1\<rparr>"
  have bnd: "?off + 4096 < 2 ^ 64" using assms(6) unsigned_less [of "storage_size (config d)", where 'a = nat] by simp
  have fit: "\<not> unat (storage_size (config d)) < ?off + 4096 - ?o" using assms(6) by linarith
  have "perform_io_loop sqid e ?l0 d = perform_io_loop sqid e ?l1 ?d1"
    using assms(1,2,4) fit o page_base_off [of "prp1 cmd"]
    by (subst perform_io_loop.simps) (simp add: next_prp_def perform_page_def io_chunk_def PAGE_SIZE_def Let_def)
  moreover have "unat (push_bit 9 (rw_slba cmd) + of_nat (4096 - ?o) :: u64) = ?off + (4096 - ?o)"
    by (rule unat_add64) (use bnd in simp)
  then have "perform_io_loop sqid e ?l1 ?d1 = Some (d\<lparr>storage_mapped := ?st2\<rparr>)"
    using assms(1,2,4,5,6) o page_base_aligned [OF assms(5)]
    by (subst perform_io_loop.simps)
      (simp add: next_prp_def perform_page_def io_chunk_def PAGE_SIZE_def sq_command_def sq_of_def
        perform_io_loop.simps Let_def)
  ultimately have run: "do_perform_io sqid e d = Some (4096, d\<lparr>storage_mapped := ?st2\<rparr>)"
    using assms(1,3) by (simp add: do_perform_io_def io_bytes_def Let_def)
  have "?st2 (?off + i) = dev_mem d (prp1 cmd + of_nat i)" if "i < 4096 - ?o" for i
  proof -
    have "\<not> ?off + (4096 - ?o) \<le> ?off + i" "?off + i < ?off + (4096 - ?o)" using that by linarith+
    then show ?thesis unfolding copy_in_def by (simp del: add_le_cancel_left add_less_cancel_left Nat.add_diff_assoc)
  qed
  moreover have "?st2 (?off + (4096 - ?o) + i) = dev_mem d (prp2 cmd + of_nat (?o + i))" if "i < ?o" for i
    using that by (simp add: copy_in_def add.assoc)
  moreover have "?st2 j = storage_mapped d j" if "j < ?off \<or> ?off + 4096 \<le> j" for j
    using that o by (auto simp: copy_in_def)
  ultimately show ?thesis unfolding run by (simp add: Let_def)
qed

definition stale_cmd :: nvme_command where
  "stale_cmd = demo_cmd\<lparr>prp1 := 0x20800, prp2 := 0x30000\<rparr>"

text \<open>The host's second page starts with 1s, its upper half holds 2s, and 1s is what it meant to write.\<close>

definition stale_dev :: nvmev_dev where
  "stale_dev = (demo_dev (blank tiny_sp))\<lparr>dev_mem :=
     write_bytes (\<lambda>x. if 0x30000 \<le> x \<and> x < 0x30800 then 1 else 2) 0x10000 (command_bytes stale_cmd)\<rparr>"

theorem perform_io_stale_offset_witness:
  "returns (do_perform_io 1 0 stale_dev) (\<lambda>(n, d'). dev_mem stale_dev 0x30000 = 1 \<and> storage_mapped d' 2048 = 2)"
proof -
  have f: "opcode stale_cmd = 1" "prp1 stale_cmd = 0x20800" "prp2 stale_cmd = 0x30000" "io_bytes stale_cmd = 4096"
    "rw_slba stale_cmd = 0"
    using demo_cmd_pages demo_cmd_fields
    by (simp_all add: stale_cmd_def io_bytes_def rw_length_def rw_slba_def)
  have p: "page_off 0x20800 = 2048" "page_off 0x30000 = 0" by (simp_all add: page_off_mod)
  have m: "dev_mem stale_dev 0x30000 = 1" "dev_mem stale_dev 0x30800 = 2"
    by (simp_all add: stale_dev_def write_bytes_def)
  have "sq_command stale_dev 1 0 = Some stale_cmd"
    by (simp add: stale_dev_def demo_dev_def sq_command_def sq_of_def get_queue_def sq_entry_def demo_sq_def
        SQ_ENTRY_TO_PAGE_NUM_def SQ_ENTRY_TO_PAGE_OFFSET_def read_command_bytes)
  from perform_io_stale_offset [OF this] show ?thesis
    using m by (auto simp: f p nvme_cmd_write_def stale_dev_def demo_dev_fields Let_def elim!: returns_mono dest!: spec [of _ 0])
qed

text \<open>The copy is made for every command that is not a write: a flush, whose PRP entry is zero, has
  512 bytes of the storage written over the physical memory from address 0 on.\<close>

theorem flush_overwrites_memory:
  assumes "sq_command d sqid e = Some cmd" and "opcode cmd = nvme_cmd_flush"
    and "prp1 cmd = 0" and "rw_slba cmd = 0" and "rw_length cmd = 0" and "512 \<le> unat (storage_size (config d))"
  shows "returns (do_perform_io sqid e d) (\<lambda>(n, d'). n = 512 \<and>
    (\<forall>i<512. dev_mem d' (of_nat i) = storage_mapped d i))"
proof -
  let ?l = "\<lparr>prp_offs = 0, prp2_offs = 0, paddr_list = None, mem_offs = 0, st_offset = 0, remaining = 512\<rparr>"
  have z: "page_off 0 = 0" "page_base 0 = 0" by (simp_all add: page_off_def page_base_def)
  have "perform_io_loop sqid e ?l d = Some (d\<lparr>dev_mem := copy_out (dev_mem d) 0 (storage_mapped d) 0 512\<rparr>)"
    using assms z by (subst perform_io_loop.simps)
      (simp add: next_prp_def perform_page_def io_chunk_def PAGE_SIZE_def nvme_cmd_flush_def nvme_cmd_write_def
        perform_io_loop.simps Let_def)
  then have "do_perform_io sqid e d = Some (512, d\<lparr>dev_mem := copy_out (dev_mem d) 0 (storage_mapped d) 0 512\<rparr>)"
    using assms by (simp add: do_perform_io_def Let_def push_bit_eq_mult)
  then show ?thesis by (simp add: copy_out_def unat_of_nat64)
qed

definition flush_dev :: nvmev_dev where
  "flush_dev = (demo_dev (blank tiny_sp))\<lparr>storage_mapped := (\<lambda>_. 5),
     dev_mem := write_bytes (\<lambda>_. 9) 0x10000 (command_bytes (demo_cmd\<lparr>opcode := 0, prp1 := 0, cdw12 := 0\<rparr>))\<rparr>"

theorem flush_overwrites_memory_witness:
  "returns (do_perform_io 1 0 flush_dev) (\<lambda>(n, d'). dev_mem flush_dev 7 = 9 \<and> dev_mem d' 7 = 5)"
proof -
  let ?c = "demo_cmd\<lparr>opcode := 0, prp1 := 0, cdw12 := 0\<rparr>"
  have f: "opcode ?c = nvme_cmd_flush" "prp1 ?c = 0" "rw_slba ?c = 0" "rw_length ?c = 0"
    using demo_cmd_pages(3) by (simp_all add: nvme_cmd_flush_def rw_length_def rw_slba_def lo16_def)
  have m: "dev_mem flush_dev 7 = 9" "storage_mapped flush_dev = (\<lambda>_. 5)" "512 \<le> unat (storage_size (config flush_dev))"
    by (simp_all add: flush_dev_def write_bytes_def demo_dev_fields)
  have "sq_command flush_dev 1 0 = Some ?c"
    by (simp add: flush_dev_def demo_dev_def sq_command_def sq_of_def get_queue_def sq_entry_def demo_sq_def
        SQ_ENTRY_TO_PAGE_NUM_def SQ_ENTRY_TO_PAGE_OFFSET_def read_command_bytes)
  from flush_overwrites_memory [OF this f m(3)] show ?thesis
    by (rule returns_mono) (use m in \<open>auto dest: spec [of _ 7]\<close>)
qed

end
