(* ===== verification/Roundtrip_Props.thy ===== *)
theory Roundtrip_Props
  imports Data_Props
begin

text \<open>
  What the host reads is what it wrote: a write followed by a read of the same blocks, through any
  two queues and any pages.
\<close>

text \<open>C40. When a worker carries out a write within the storage and then a read of the same blocks, the pages of the read
  hold the bytes that the pages of the write held, and no other byte of memory has changed. The pages may be any
  memory, with these conditions: every PRP entry of both commands names the start of a page (an entry with an offset
  copies other bytes, \<open>perform_io_stale_offset\<close>), the bytes that the read names are distinct, and they lie outside the
  slot of the read and outside its list of PRP entries.\<close>

theorem write_read_roundtrip:
  assumes "sq_command d sqid e = Some w" and "opcode w = nvme_cmd_write"
    and "\<forall>k<io_pages w. page_off (data_page (dev_mem d) w k) = 0"
    and "unat (push_bit 9 (rw_slba w) :: u64) + io_bytes w \<le> unat (storage_size (config d))"
    and "sq_of d sqid' = Some sq" and "sq_entry (sq_sq sq) e' = Some a" and "read_command (dev_mem d) a = r"
    and "opcode r = nvme_cmd_read" and "rw_slba r = rw_slba w" and "rw_length r = rw_length w"
    and "\<forall>k<io_pages r. page_off (data_page (dev_mem d) r k) = 0"
    and "inj_on (data_byte (dev_mem d) r) {..<io_bytes r}" and "command_apart (dev_mem d) a r"
  shows "returns (do { (n, d) \<leftarrow> do_perform_io sqid e d; do_perform_io sqid' e' d }) (\<lambda>(n, d'). n = io_bytes w \<and>
    (\<forall>i<io_bytes w. dev_mem d' (data_byte (dev_mem d) r i) = dev_mem d (data_byte (dev_mem d) w i)) \<and>
    (\<forall>x. x \<notin> data_byte (dev_mem d) r ` {..<io_bytes r} \<longrightarrow> dev_mem d' x = dev_mem d x))"
proof -
  let ?off = "unat (push_bit 9 (rw_slba w) :: u64)"
  define d1 where "d1 = d\<lparr>storage_mapped := (\<lambda>i. let off = ?off in
    if off \<le> i \<and> i < off + io_bytes w then dev_mem d (data_byte (dev_mem d) w (i - off)) else storage_mapped d i)\<rparr>"
  have wr: "do_perform_io sqid e d = Some (io_bytes w, d1)"
    unfolding d1_def using perform_write_ok [OF assms(1-4)] by (simp add: stored_def Let_def)
  have n: "io_bytes r = io_bytes w" using assms(10) by (simp add: io_bytes_def)
  have "returns (do_perform_io sqid' e' d1) (\<lambda>(n, d'). n = io_bytes r \<and> (\<exists>m'. d' = d1\<lparr>dev_mem := m'\<rparr> \<and>
    loaded (dev_mem d1) m' (storage_mapped d1) (unat (push_bit 9 (rw_slba r) :: u64)) r (io_bytes r)))"
    by (rule perform_read_ok [where sq = sq and a = a])
       (use assms n in \<open>simp_all add: d1_def sq_of_def nvme_cmd_read_def nvme_cmd_write_def\<close>)
  then show ?thesis
    unfolding wr by (simp, elim returns_mono) (auto simp: loaded_def n assms(9) d1_def Let_def)
qed

section \<open>A write and a read of one page\<close>

definition rt_read :: nvme_command where
  "rt_read = demo_cmd\<lparr>opcode := 2, prp1 := 0x30000\<rparr>"

definition rt_mem :: phys where
  "rt_mem a = (if a < 0x10040 then command_bytes demo_cmd ! (unat a mod 64)
     else if a < 0x10080 then command_bytes rt_read ! (unat a mod 64) else if a < 0x30000 then 9 else 0)"

definition rt_dev :: nvmev_dev where
  "rt_dev = (demo_dev (blank tiny_sp))\<lparr>dev_mem := rt_mem\<rparr>"

lemma rt_commands: "read_command rt_mem 0x10000 = demo_cmd" "read_command rt_mem 0x10040 = rt_read"
  by (simp_all add: rt_mem_def rt_read_def read_command_def command_bytes_def demo_cmd_def rd16_def rd32_def rd64_def
      le16_def le32_def le64_def cat16_def cat32_def cat64_def)

lemma rt_read_fields: "opcode rt_read = 2" "rw_slba rt_read = rw_slba demo_cmd" "rw_length rt_read = rw_length demo_cmd"
  "io_bytes rt_read = 4096" "io_pages rt_read = 1"
  using demo_cmd_pages(1,2)
  by (simp_all add: rt_read_def rw_slba_def rw_length_def io_bytes_def io_pages_def DIV_ROUND_UP_def PAGE_SIZE_def)

lemma rt_byte: "i < 4096 \<Longrightarrow> data_byte m rt_read i = 0x30000 + of_nat i" "i < 4096 \<Longrightarrow> data_byte m demo_cmd i = 0x20000 + of_nat i"
  by (simp_all add: data_byte_def data_page_def rt_read_def demo_cmd_def)

lemma unat_rt_byte: "i < 4096 \<Longrightarrow> unat (0x30000 + of_nat i :: u64) = 0x30000 + i"
  by (subst unat_add64) simp_all

theorem write_read_roundtrip_witness:
  "returns (do { (n, d) \<leftarrow> do_perform_io 1 0 rt_dev; do_perform_io 1 1 d }) (\<lambda>(n, d'). n = 4096 \<and> dev_mem d' 0x30005 = 9) \<and>
   dev_mem rt_dev 0x30005 = 0"
proof -
  let ?m = "dev_mem rt_dev"
  have mem: "?m = rt_mem" by (simp add: rt_dev_def)
  have sq: "sq_of rt_dev 1 = Some demo_sq" "sq_entry (sq_sq demo_sq) 1 = Some 0x10040"
    "sq_entry (sq_sq demo_sq) 0 = Some 0x10000"
    by (simp_all add: rt_dev_def demo_dev_def sq_of_def get_queue_def sq_entry_def demo_sq_def
        SQ_ENTRY_TO_PAGE_NUM_def SQ_ENTRY_TO_PAGE_OFFSET_def NR_SQE_PER_PAGE_def PAGE_SIZE_def)
  have w: "sq_command rt_dev 1 0 = Some demo_cmd"
    using sq by (simp add: sq_command_def mem rt_commands)
  have inj: "inj_on (data_byte ?m rt_read) {..<io_bytes rt_read}"
    unfolding rt_read_fields by (rule inj_onI) (metis rt_byte(1) unat_rt_byte add_left_cancel lessThan_iff)
  have ap: "command_apart ?m 0x10040 rt_read"
  proof -
    have "0x10040 + of_nat i \<noteq> data_byte ?m rt_read j" if "i < 64" "j < 4096" for i j
    proof
      assume "0x10040 + of_nat i = data_byte ?m rt_read j"
      moreover have "unat (0x10040 + of_nat i :: u64) = 0x10040 + i" by (subst unat_add64) (use that in simp_all)
      ultimately have "0x10040 + i = 0x30000 + j" using unat_rt_byte [OF that(2)] rt_byte(1) [OF that(2)] by metis
      then show False using that(1) by simp
    qed
    then show ?thesis by (auto simp: command_apart_def rt_read_fields)
  qed
  have "returns (do { (n, d) \<leftarrow> do_perform_io 1 0 rt_dev; do_perform_io 1 1 d }) (\<lambda>(n, d'). n = io_bytes demo_cmd \<and>
    (\<forall>i<io_bytes demo_cmd. dev_mem d' (data_byte ?m rt_read i) = ?m (data_byte ?m demo_cmd i)) \<and>
    (\<forall>x. x \<notin> data_byte ?m rt_read ` {..<io_bytes rt_read} \<longrightarrow> dev_mem d' x = ?m x))"
    by (rule write_read_roundtrip [OF w _ _ _ sq(1,2) _ _ _ _ _ inj ap])
       (simp_all add: mem rt_commands rt_read_fields demo_cmd_fields demo_cmd_pages nvme_cmd_write_def nvme_cmd_read_def
         data_page_def page_off_mod rt_dev_def demo_dev_fields, simp_all add: rt_read_def)
  moreover have "data_byte ?m rt_read 5 = 0x30005" "data_byte ?m demo_cmd 5 = 0x20005" by (simp_all add: rt_byte)
  moreover have "?m 0x20005 = 9" "?m 0x30005 = 0" by (simp_all add: mem rt_mem_def)
  ultimately show ?thesis
    by (auto simp: demo_cmd_pages elim!: returns_mono dest: spec [of _ 5])
qed

end
