(* ===== verification/IO_CQ.thy ===== *)
theory IO_CQ
  imports IO
begin

text \<open>
  Completion queues: the slots of a queue are consecutive entries of the host's memory, a post
  changes exactly the slot at the head, and the phase bit tells the host which slots are new.
\<close>

section \<open>Slots\<close>

text \<open>The address of slot \<open>i\<close> of a queue whose pages start with the page of \<open>p\<close>.\<close>

definition cq_slot :: "u64 \<Rightarrow> nat \<Rightarrow> u64" where
  "cq_slot p i = push_bit PAGE_SHIFT (drop_bit PAGE_SHIFT p) + of_nat (16 * i)"

lemma page_list_nth: "i < n \<Longrightarrow> page_list p n ! i = push_bit PAGE_SHIFT (drop_bit PAGE_SHIFT p) + of_nat (4096 * i)"
  by (simp add: page_list_def push_bit_eq_mult PAGE_SHIFT_def algebra_simps)

lemma cq_entry_slot:
  assumes "i < 256 * n"
  shows "cq_entry (page_list p n) (int i) = Some (cq_slot p i)"
proof -
  have q: "i div 256 < n" using assms by (simp add: div_less_iff_less_mult mult.commute)
  have "4096 * (i div 256) + 16 * (i mod 256) = 16 * i" using div_mult_mod_eq [of i 256] by linarith
  from arg_cong [OF this, of "of_nat :: nat \<Rightarrow> u64"]
  have "page_list p n ! (i div 256) + of_nat (16 * (i mod 256)) = cq_slot p i"
    unfolding page_list_nth [OF q] cq_slot_def by (simp add: add.assoc)
  moreover have "length (page_list p n) = n" by (simp add: page_list_def)
  ultimately show ?thesis
    using q by (simp add: cq_entry_def CQ_ENTRY_TO_PAGE_NUM_def CQ_ENTRY_TO_PAGE_OFFSET_def
        NR_CQE_PER_PAGE_def PAGE_SIZE_def)
qed

lemma word_apart:
  assumes "A < 2 ^ 32" "B < 2 ^ 32" and "A + 16 \<le> B + 15 \<or> B + 16 \<le> A"
  shows "16 \<le> unat (of_nat A - of_nat B :: u64)"
proof -
  have "unat (of_nat A :: u64) = A" "unat (of_nat B :: u64) = B" using assms(1,2) by (simp_all add: unat_of_nat)
  then have "unat (of_nat A - of_nat B :: u64) = (if B \<le> A then A - B else A + 2 ^ 64 - B)"
    by (simp add: unat_sub_if_size word_size)
  then show ?thesis using assms by auto
qed

lemma slot_apart:
  assumes "i \<noteq> j" and "i < 65536" and "j < 65536" and "k < 16"
  shows "16 \<le> unat (cq_slot p i + of_nat k - cq_slot p j)"
proof -
  have eq: "cq_slot p i + of_nat k - cq_slot p j = of_nat (16 * i + k) - of_nat (16 * j)"
    by (simp add: cq_slot_def)
  show ?thesis unfolding eq by (rule word_apart) (use assms in auto)
qed

text \<open>What the store of a completion does to the slots.\<close>

definition cqe_stored :: "phys \<Rightarrow> phys \<Rightarrow> u64 \<Rightarrow> u32 \<Rightarrow> int \<Rightarrow> int \<Rightarrow> u16 \<Rightarrow> bool" where
  "cqe_stored m m' a cid sqid e st \<longleftrightarrow>
     read_completion m' a = (read_completion m a)\<lparr>cqe_command_id := ucast cid, cqe_sq_id := word_of_int sqid,
       cqe_sq_head := word_of_int e, cqe_status := st\<rparr> \<and>
     (\<forall>x. 16 \<le> unat (x - a) \<longrightarrow> m' x = m x)"

lemma read_completion_cong:
  assumes "\<And>k. k < 16 \<Longrightarrow> m' (a + of_nat k) = m (a + of_nat k)"
  shows "read_completion m' a = read_completion m a"
proof -
  have "m' (a + of_nat k) = m (a + of_nat k)" if "k \<in> set [0..<16]" for k using assms that by simp
  note this [of 0] this [of 1] this [of 2] this [of 3] this [of 4] this [of 5] this [of 6] this [of 7]
    this [of 8] this [of 9] this [of 10] this [of 11] this [of 12] this [of 13] this [of 14] this [of 15]
  then show ?thesis by (simp add: read_completion_def rd16_def rd32_def add.assoc)
qed

lemma stored_other_slot:
  assumes "cqe_stored m m' (cq_slot p j) cid sqid e st" and "i \<noteq> j" "i < 65536" "j < 65536"
  shows "read_completion m' (cq_slot p i) = read_completion m (cq_slot p i)"
  using assms slot_apart [OF assms(2-4)] unfolding cqe_stored_def by (intro read_completion_cong) blast

section \<open>Posting\<close>

text \<open>A completion queue whose memory is in place.\<close>

definition cq_ok :: "nvmev_completion_queue \<Rightarrow> u64 \<Rightarrow> nat \<Rightarrow> bool" where
  "cq_ok cq p Q \<longleftrightarrow> (\<exists>n. cq_cq cq = page_list p n \<and> Q \<le> 256 * n) \<and> 0 < Q \<and> Q \<le> 65536 \<and>
     cq_queue_size cq = int Q \<and> cq_phase cq \<in> {0, 1}"

lemma get_put_cq [simp]:
  "cq_of d qid = Some q \<Longrightarrow> cq_of (put_cq d qid q') qid = Some q'"
  by (auto simp: cq_of_def put_cq_def get_queue_def arr_get_eq_Some_iff split: if_splits bind_splits)

lemma cq_of_mem [simp]: "cq_of (d\<lparr>dev_mem := m\<rparr>) qid = cq_of d qid"
  by (simp add: cq_of_def)

lemma put_cq_mem [simp]: "dev_mem (put_cq d qid q) = dev_mem d"
  by (simp add: put_cq_def)

text \<open>The state of the queue after a post.\<close>

definition next_head :: "nvmev_completion_queue \<Rightarrow> int \<Rightarrow> nvmev_completion_queue" where
  "next_head cq h = (if h + 1 = cq_queue_size cq
     then cq\<lparr>cq_phase := (if cq_phase cq = 0 then 1 else 0), cq_head := 0, cq_interrupt_ready := True\<rparr>
     else cq\<lparr>cq_head := h + 1, cq_interrupt_ready := True\<rparr>)"

lemma fill_cq_post_ok:
  assumes cq: "cq_of d cqid = Some cq" and ok: "cq_ok cq p Q" and h: "h < Q"
  shows "returns (fill_cq_post (int h) sqid cqid e cid d) (\<lambda>d'. \<exists>m'.
    d' = put_cq (d\<lparr>dev_mem := m'\<rparr>) cqid (next_head cq (int h)) \<and>
    cqe_stored (dev_mem d) m' (cq_slot p h) cid sqid e (word_of_int (cq_phase cq)))"
proof -
  obtain n where n: "cq_cq cq = page_list p n" "Q \<le> 256 * n" using ok by (auto simp: cq_ok_def)
  have a: "cq_entry (cq_cq cq) (int h) = Some (cq_slot p h)" using cq_entry_slot [of h n] n h by simp
  let ?a = "cq_slot p h"
  let ?st = "word_of_int (cq_phase cq) :: u16"
  let ?m = "set_cqe_status ?a ?st (set_cqe_sq_head ?a (word_of_int e)
    (set_cqe_sq_id ?a (word_of_int sqid) (set_cqe_command_id ?a (ucast cid) (dev_mem d))))"
  have st: "cqe_stored (dev_mem d) ?m ?a cid sqid e ?st"
    by (simp add: cqe_stored_def set_cqe_frame)
  have "fill_cq_post (int h) sqid cqid e cid d = Some (put_cq (d\<lparr>dev_mem := ?m\<rparr>) cqid (next_head cq (int h)))"
    using cq a by (simp add: fill_cq_post_def next_head_def NVME_SC_SUCCESS_def Let_def)
  then show ?thesis using st by auto
qed

section \<open>The phase protocol\<close>

text \<open>
  The host finds the completion number \<open>k\<close> of a queue of \<open>Q\<close> slots in slot \<open>k mod Q\<close>, where it waits for
  the phase bit of round \<open>k div Q\<close> to appear.
\<close>

definition round_phase :: "nat \<Rightarrow> nat \<Rightarrow> int" where
  "round_phase Q k = (if even (k div Q) then 1 else 0)"

definition completion_at :: "phys \<Rightarrow> u64 \<Rightarrow> nat \<Rightarrow> nat \<Rightarrow> int \<times> int \<times> u32 \<Rightarrow> bool" where
  "completion_at m p Q k r = (case r of (sqid, e, cid) \<Rightarrow>
     let c = read_completion m (cq_slot p (k mod Q)) in
     cqe_command_id c = ucast cid \<and> cqe_sq_id c = word_of_int sqid \<and> cqe_sq_head c = word_of_int e \<and>
     cqe_status c = word_of_int (round_phase Q k))"

definition post_all :: "int \<Rightarrow> (int \<times> int \<times> u32) list \<Rightarrow> nvmev_dev \<Rightarrow> nvmev_dev option" where
  "post_all cqid = foldM (\<lambda>(sqid, e, cid). fill_cq_result sqid cqid e cid)"

definition cq_round :: "nvmev_completion_queue \<Rightarrow> nat \<Rightarrow> nat \<Rightarrow> bool" where
  "cq_round cq Q n \<longleftrightarrow> cq_head cq = int (n mod Q) \<and> cq_phase cq = round_phase Q n"

lemma next_head_round:
  assumes "cq_ok cq p Q" and "cq_round cq Q n"
  shows "cq_ok (next_head cq (cq_head cq)) p Q" "cq_round (next_head cq (cq_head cq)) Q (Suc n)"
proof -
  have Q: "0 < Q" "cq_queue_size cq = int Q" using assms(1) by (auto simp: cq_ok_def)
  show "cq_ok (next_head cq (cq_head cq)) p Q"
    using assms(1) by (auto simp: cq_ok_def next_head_def)
  show "cq_round (next_head cq (cq_head cq)) Q (Suc n)"
    using assms(2) Q mod_Suc [of n Q] div_Suc [of n Q]
    by (auto simp: cq_round_def next_head_def round_phase_def)
qed

lemma post_all_ok:
  assumes "cq_of d cqid = Some cq" and "cq_ok cq p Q" and "cq_round cq Q 0"
  shows "returns (post_all cqid rs d) (\<lambda>d'. \<exists>cq'. cq_of d' cqid = Some cq' \<and> cq_ok cq' p Q \<and>
    cq_round cq' Q (length rs) \<and>
    (\<forall>k<length rs. length rs \<le> k + Q \<longrightarrow> completion_at (dev_mem d') p Q k (rs ! k)) \<and>
    (\<forall>i<Q. length rs \<le> i \<longrightarrow> read_completion (dev_mem d') (cq_slot p i) = read_completion (dev_mem d) (cq_slot p i)))"
proof (induction rs rule: rev_induct)
  case Nil
  then show ?case using assms by (simp add: post_all_def)
next
  case (snoc r rs)
  then obtain d1 cq1 where d1: "post_all cqid rs d = Some d1" "cq_of d1 cqid = Some cq1" "cq_ok cq1 p Q"
    "cq_round cq1 Q (length rs)"
    "\<forall>k<length rs. length rs \<le> k + Q \<longrightarrow> completion_at (dev_mem d1) p Q k (rs ! k)"
    "\<forall>i<Q. length rs \<le> i \<longrightarrow> read_completion (dev_mem d1) (cq_slot p i) = read_completion (dev_mem d) (cq_slot p i)"
    by (auto elim!: returnsE)
  obtain sqid e cid where r: "r = (sqid, e, cid)" by (cases r)
  let ?n = "length rs" and ?h = "length rs mod Q"
  have Q: "0 < Q" "Q \<le> 65536" using d1(3) by (auto simp: cq_ok_def)
  have h: "?h < Q" "cq_head cq1 = int ?h" using Q d1(4) by (auto simp: cq_round_def)
  obtain m' where post: "fill_cq_post (int ?h) sqid cqid e cid d1 =
      Some (put_cq (d1\<lparr>dev_mem := m'\<rparr>) cqid (next_head cq1 (int ?h)))"
    and st: "cqe_stored (dev_mem d1) m' (cq_slot p ?h) cid sqid e (word_of_int (cq_phase cq1))"
    using fill_cq_post_ok [OF d1(2,3) h(1), of sqid e cid] by (auto elim!: returnsE)
  let ?d' = "put_cq (d1\<lparr>dev_mem := m'\<rparr>) cqid (next_head cq1 (int ?h))"
  have run: "post_all cqid (rs @ [r]) d = Some ?d'"
    using d1(1,2) post h(2) r by (simp add: post_all_def foldM_append fill_cq_result_def)
  have new: "completion_at m' p Q ?n r"
    using st d1(4) by (simp add: r completion_at_def cqe_stored_def Let_def cq_round_def)
  have old: "completion_at m' p Q k (rs ! k)" if k: "k < ?n" "Suc ?n \<le> k + Q" for k
  proof -
    have "k mod Q \<noteq> ?h"
    proof
      assume "k mod Q = ?h"
      then have "Q dvd ?n - k" by (metis mod_eq_dvd_iff_nat less_imp_le k(1))
      then have "Q \<le> ?n - k" using k(1) by (intro dvd_imp_le) auto
      then show False using k by simp
    qed
    moreover have "k mod Q < 65536" "?h < 65536" using Q h(1) mod_less_divisor [of Q k] by linarith+
    ultimately have "read_completion m' (cq_slot p (k mod Q)) = read_completion (dev_mem d1) (cq_slot p (k mod Q))"
      using stored_other_slot [OF st] by blast
    then show ?thesis using d1(5) k by (simp add: completion_at_def)
  qed
  have "completion_at m' p Q k ((rs @ [r]) ! k)" if "k < Suc ?n" "Suc ?n \<le> k + Q" for k
    using that new old by (cases "k = ?n") (auto simp: nth_append)
  moreover have "read_completion m' (cq_slot p i) = read_completion (dev_mem d) (cq_slot p i)" if "i < Q" "Suc ?n \<le> i" for i
  proof -
    have "i \<noteq> ?h" using that mod_less_eq_dividend [of ?n Q] by linarith
    then have "read_completion m' (cq_slot p i) = read_completion (dev_mem d1) (cq_slot p i)"
      by (rule stored_other_slot [OF st]) (use that Q h(1) in linarith)+
    then show ?thesis using d1(6) that by simp
  qed
  moreover have "cq_of (d1\<lparr>dev_mem := m'\<rparr>) cqid = Some cq1" using d1(2) by simp
  ultimately show ?case
    using run next_head_round [OF d1(3,4)] h(2) by simp
qed

text \<open>
  What \<open>n\<close> posts leave alone: everything but this queue and the memory of the slots that were written, and in
  these the fields of an entry that a completion does not set.
\<close>

definition posts_frame :: "nvmev_dev \<Rightarrow> nvmev_dev \<Rightarrow> int \<Rightarrow> u64 \<Rightarrow> nat \<Rightarrow> nat \<Rightarrow> bool" where
  "posts_frame d d' cqid p Q n \<longleftrightarrow> d' = d\<lparr>cqes := cqes d', dev_mem := dev_mem d'\<rparr> \<and>
     (\<forall>q. q \<noteq> cqid \<longrightarrow> cq_of d' q = cq_of d q) \<and>
     map_option (\<lambda>cq. cq\<lparr>cq_head := 0, cq_phase := 0, cq_interrupt_ready := False\<rparr>) (cq_of d' cqid) =
       map_option (\<lambda>cq. cq\<lparr>cq_head := 0, cq_phase := 0, cq_interrupt_ready := False\<rparr>) (cq_of d cqid) \<and>
     (\<forall>x. 16 * min n Q \<le> unat (x - cq_slot p 0) \<longrightarrow> dev_mem d' x = dev_mem d x) \<and>
     (\<forall>i<Q. cqe_result (read_completion (dev_mem d') (cq_slot p i)) = cqe_result (read_completion (dev_mem d) (cq_slot p i)) \<and>
        cqe_rsvd (read_completion (dev_mem d') (cq_slot p i)) = cqe_rsvd (read_completion (dev_mem d) (cq_slot p i)))"

lemma beyond_slot:
  assumes "h < m" and "16 * m \<le> unat (x - cq_slot p 0)"
  shows "16 \<le> unat (x - cq_slot p h)"
proof -
  let ?y = "x - cq_slot p 0"
  have "unat ?y < 2 ^ LENGTH(64)" by (rule unsigned_less)
  then have "16 * h < 2 ^ 64" using assms by simp
  then have h: "unat (of_nat (16 * h) :: u64) = 16 * h" by (subst unat_of_nat) (simp add: take_bit_nat_eq_self)
  have eq: "x - cq_slot p h = ?y - of_nat (16 * h)" by (simp add: cq_slot_def)
  have le: "of_nat (16 * h) \<le> ?y" using assms unfolding word_le_nat_alt h by simp
  have "unat (?y - of_nat (16 * h)) = unat ?y - 16 * h" unfolding unat_sub [OF le] h ..
  then have "unat (x - cq_slot p h) = unat ?y - 16 * h" unfolding eq .
  then show ?thesis using assms by simp
qed

lemma put_cq_frame:
  assumes "cq_of d cqid = Some cq"
  shows "q \<noteq> cqid \<Longrightarrow> cq_of (put_cq d cqid c) q = cq_of d q"
  using assms by (auto simp: cq_of_def put_cq_def get_queue_def arr_get_def nth_list_update split: if_splits)

lemma next_head_rest:
  "(next_head cq h)\<lparr>cq_head := 0, cq_phase := 0, cq_interrupt_ready := False\<rparr> =
   cq\<lparr>cq_head := 0, cq_phase := 0, cq_interrupt_ready := False\<rparr>"
  by (simp add: next_head_def)

lemma post_all_frame:
  assumes "cq_of d cqid = Some cq" and "cq_ok cq p Q" and "cq_round cq Q 0" and "post_all cqid rs d = Some d'"
  shows "posts_frame d d' cqid p Q (length rs)"
  using assms(4)
proof (induction rs arbitrary: d' rule: rev_induct)
  case Nil
  then show ?case by (simp add: post_all_def posts_frame_def)
next
  case (snoc r rs)
  obtain d1 where d1: "post_all cqid rs d = Some d1" and last: "post_all cqid [r] d1 = Some d'"
    using snoc.prems by (auto simp: post_all_def foldM_append split: bind_splits)
  obtain cq1 where cq1: "cq_of d1 cqid = Some cq1" "cq_ok cq1 p Q" "cq_round cq1 Q (length rs)"
    using post_all_ok [OF assms(1-3), of rs] d1 by auto
  note F = snoc.IH [OF d1, unfolded posts_frame_def]
  obtain sqid e cid where r: "r = (sqid, e, cid)" by (cases r)
  let ?n = "length rs" and ?h = "length rs mod Q"
  have Q: "0 < Q" "Q \<le> 65536" using cq1(2) by (auto simp: cq_ok_def)
  have h: "?h < Q" "cq_head cq1 = int ?h" using Q cq1(3) by (auto simp: cq_round_def)
  have hm: "?h < min (Suc ?n) Q" using h(1) mod_less_eq_dividend [of ?n Q] by (simp add: less_Suc_eq_le)
  obtain m' where post: "fill_cq_post (int ?h) sqid cqid e cid d1 =
      Some (put_cq (d1\<lparr>dev_mem := m'\<rparr>) cqid (next_head cq1 (int ?h)))"
    and st: "cqe_stored (dev_mem d1) m' (cq_slot p ?h) cid sqid e (word_of_int (cq_phase cq1))"
    using fill_cq_post_ok [OF cq1(1,2) h(1), of sqid e cid] by (auto elim!: returnsE)
  have d': "d' = put_cq (d1\<lparr>dev_mem := m'\<rparr>) cqid (next_head cq1 (int ?h))"
    using last post cq1(1) h(2) r by (simp add: post_all_def fill_cq_result_def)
  have c: "cq_of (d1\<lparr>dev_mem := m'\<rparr>) cqid = Some cq1" using cq1(1) by simp
  have "d' = d\<lparr>cqes := cqes d', dev_mem := dev_mem d'\<rparr>"
  proof -
    let ?u = "\<lambda>z. put_cq (z\<lparr>dev_mem := m'\<rparr>) cqid (next_head cq1 (int ?h))"
    have "d1 = d\<lparr>cqes := cqes d1, dev_mem := dev_mem d1\<rparr>" using F by blast
    from arg_cong [OF this, of ?u] show ?thesis unfolding d' by (simp add: put_cq_def)
  qed
  moreover have "\<forall>q. q \<noteq> cqid \<longrightarrow> cq_of d' q = cq_of d q"
    using F put_cq_frame [OF c] unfolding d' by simp
  moreover have "map_option (\<lambda>cq. cq\<lparr>cq_head := 0, cq_phase := 0, cq_interrupt_ready := False\<rparr>) (cq_of d' cqid) =
       map_option (\<lambda>cq. cq\<lparr>cq_head := 0, cq_phase := 0, cq_interrupt_ready := False\<rparr>) (cq_of d cqid)"
    using F cq1(1) get_put_cq [OF c] unfolding d' by (simp add: next_head_rest)
  moreover have "dev_mem d' x = dev_mem d x" if x: "16 * min (Suc ?n) Q \<le> unat (x - cq_slot p 0)" for x
  proof -
    have "16 * min ?n Q \<le> unat (x - cq_slot p 0)" using x by (auto simp: min_def split: if_splits)
    then have "dev_mem d1 x = dev_mem d x" using F by blast
    moreover have "m' x = dev_mem d1 x" using st beyond_slot [OF hm x] by (simp add: cqe_stored_def)
    ultimately show ?thesis unfolding d' by simp
  qed
  moreover have "cqe_result (read_completion m' (cq_slot p i)) = cqe_result (read_completion (dev_mem d1) (cq_slot p i)) \<and>
      cqe_rsvd (read_completion m' (cq_slot p i)) = cqe_rsvd (read_completion (dev_mem d1) (cq_slot p i))" if "i < Q" for i
  proof (cases "i = ?h")
    case True
    then show ?thesis using st by (simp add: cqe_stored_def)
  next
    case False
    then have "read_completion m' (cq_slot p i) = read_completion (dev_mem d1) (cq_slot p i)"
      by (rule stored_other_slot [OF st]) (use that Q h(1) in linarith)+
    then show ?thesis by simp
  qed
  ultimately show ?case using F unfolding posts_frame_def by (simp add: d')
qed

text \<open>What the host sees in a slot that waits for its next completion: the phase of the round before.\<close>

lemma waiting_slot:
  assumes "\<forall>k<n. n \<le> k + Q \<longrightarrow> completion_at m p Q k (rs ! k)"
    and "\<forall>i<Q. n \<le> i \<longrightarrow> cqe_status (read_completion m (cq_slot p i)) = 0"
    and k: "n \<le> k" "k < n + Q"
  shows "cqe_status (read_completion m (cq_slot p (k mod Q))) = word_of_int (1 - round_phase Q k)"
proof (cases "k < Q")
  case True
  then show ?thesis using assms(2) k by (simp add: round_phase_def)
next
  case False
  then obtain j where j: "k = j + Q" by (metis add.commute le_Suc_ex not_less)
  then have "completion_at m p Q j (rs ! j)" using assms(1) k by simp
  moreover have "round_phase Q j = 1 - round_phase Q k"
  proof -
    have "0 < Q" using k by simp
    then have "k div Q = Suc (j div Q)" using j by simp
    then show ?thesis by (simp add: round_phase_def)
  qed
  ultimately show ?thesis using j by (auto simp: completion_at_def Let_def split: prod.splits)
qed

end
