(* ===== verification/CQ_Props.thy ===== *)
theory CQ_Props
  imports IO_CQ Demo_Device
begin

text \<open>The properties of completion queues: the phase protocol, and the race between two workers.\<close>

text \<open>C15. After any number of completions were posted to a fresh queue of \<open>Q\<close> slots, each of the last \<open>Q\<close>
  lies in its slot with the phase bit of its round, the slots of completions still to come carry the
  other phase, and head and phase of the queue are those of the next completion. No byte of memory outside the
  slots that were posted to changes, in these slots the members that a completion does not set keep their values,
  and of the device only the queue's head, phase and pending interrupt change (\<open>posts_frame\<close>).\<close>

theorem completion_phase_protocol:
  assumes "cq_of d cqid = Some cq" and "cq_ok cq p Q" and "cq_head cq = 0" and "cq_phase cq = 1"
    and "\<forall>i<Q. cqe_status (read_completion (dev_mem d) (cq_slot p i)) = 0"
  shows "returns (foldM (\<lambda>(sqid, e, cid). fill_cq_result sqid cqid e cid) rs d) (\<lambda>d'.
    (\<forall>k<length rs. length rs \<le> k + Q \<longrightarrow> completion_at (dev_mem d') p Q k (rs ! k)) \<and>
    (\<forall>k. length rs \<le> k \<and> k < length rs + Q \<longrightarrow>
       cqe_status (read_completion (dev_mem d') (cq_slot p (k mod Q))) = word_of_int (1 - round_phase Q k)) \<and>
    (\<exists>cq'. cq_of d' cqid = Some cq' \<and> cq_head cq' = int (length rs mod Q) \<and> cq_phase cq' = round_phase Q (length rs)) \<and>
    posts_frame d d' cqid p Q (length rs))"
proof -
  have r0: "cq_round cq Q 0" using assms(2-4) by (simp add: cq_round_def round_phase_def cq_ok_def)
  have "returns (post_all cqid rs d) (\<lambda>d'. posts_frame d d' cqid p Q (length rs))"
    using post_all_ok [OF assms(1,2) r0, of rs] post_all_frame [OF assms(1,2) r0, of rs]
    by (auto elim!: returnsE)
  from returns_conj [OF post_all_ok [OF assms(1,2) r0, of rs] this] show ?thesis
    unfolding post_all_def
  proof (rule returns_mono, elim conjE)
    fix d'
    assume fr: "posts_frame d d' cqid p Q (length rs)" and *: "\<exists>cq'. cq_of d' cqid = Some cq' \<and> cq_ok cq' p Q \<and> cq_round cq' Q (length rs) \<and>
      (\<forall>k<length rs. length rs \<le> k + Q \<longrightarrow> completion_at (dev_mem d') p Q k (rs ! k)) \<and>
      (\<forall>i<Q. length rs \<le> i \<longrightarrow> read_completion (dev_mem d') (cq_slot p i) = read_completion (dev_mem d) (cq_slot p i))"
    then have "\<forall>i<Q. length rs \<le> i \<longrightarrow> cqe_status (read_completion (dev_mem d') (cq_slot p i)) = 0"
      using assms(5) by auto
    then show "(\<forall>k<length rs. length rs \<le> k + Q \<longrightarrow> completion_at (dev_mem d') p Q k (rs ! k)) \<and>
      (\<forall>k. length rs \<le> k \<and> k < length rs + Q \<longrightarrow>
       cqe_status (read_completion (dev_mem d') (cq_slot p (k mod Q))) = word_of_int (1 - round_phase Q k)) \<and>
      (\<exists>cq'. cq_of d' cqid = Some cq' \<and> cq_head cq' = int (length rs mod Q) \<and> cq_phase cq' = round_phase Q (length rs)) \<and>
      posts_frame d d' cqid p Q (length rs)"
      using fr * waiting_slot [of "length rs" Q "dev_mem d'" p rs] by (auto simp: cq_round_def)
  qed
qed

definition quiet_dev :: nvmev_dev where
  "quiet_dev = (demo_dev (blank tiny_sp))\<lparr>dev_mem := (\<lambda>_. 0)\<rparr>"

lemma demo_cq_ok: "cq_ok demo_cq 0x11000 4"
  unfolding cq_ok_def
  by (auto simp: demo_cq_def page_list_def PAGE_SHIFT_def intro!: exI [of _ 1])

lemma quiet_cq: "cq_of quiet_dev 1 = Some demo_cq"
  by (simp add: quiet_dev_def demo_dev_def cq_of_def get_queue_def)

theorem completion_phase_protocol_witness:
  "returns (foldM (\<lambda>(sqid, e, cid). fill_cq_result sqid 1 e cid) [(1, 0, 10), (1, 1, 11), (1, 2, 12), (1, 3, 13), (1, 4, 14)] quiet_dev)
    (\<lambda>d'. cqe_command_id (read_completion (dev_mem d') (cq_slot 0x11000 0)) = 14 \<and>
      cqe_status (read_completion (dev_mem d') (cq_slot 0x11000 0)) = 0 \<and>
      cqe_command_id (read_completion (dev_mem d') (cq_slot 0x11000 1)) = 11 \<and>
      cqe_status (read_completion (dev_mem d') (cq_slot 0x11000 1)) = 1)"
proof -
  let ?rs = "[(1, 0, 10), (1, 1, 11), (1, 2, 12), (1, 3, 13), (1, 4, 14)] :: (int \<times> int \<times> u32) list"
  have z: "\<forall>i<4. cqe_status (read_completion (dev_mem quiet_dev) (cq_slot 0x11000 i)) = 0"
    by (simp add: quiet_dev_def read_completion_def rd16_def cat16_def)
  have "returns (foldM (\<lambda>(sqid, e, cid). fill_cq_result sqid 1 e cid) ?rs quiet_dev) (\<lambda>d'.
      completion_at (dev_mem d') 0x11000 4 4 (?rs ! 4) \<and> completion_at (dev_mem d') 0x11000 4 1 (?rs ! 1))"
  proof (rule returns_mono [OF completion_phase_protocol [OF quiet_cq demo_cq_ok _ _ z, of ?rs]], goal_cases)
    case (3 d')
    then have "\<forall>k<length ?rs. length ?rs \<le> k + 4 \<longrightarrow> completion_at (dev_mem d') 0x11000 4 k (?rs ! k)" by blast
    from this [rule_format, of 4] this [rule_format, of 1] show ?case by simp
  qed (simp_all add: demo_cq_def)
  then show ?thesis by (rule returns_mono) (simp add: completion_at_def round_phase_def Let_def)
qed

text \<open>C16. \<^verbatim>\<open>__fill_cq_result\<close> reads the head before it takes the lock. When two workers read the same head,
  the second completion overwrites the first: the head moves on by one slot, the slot holds the second
  completion, and no other byte of memory has changed, so the first command never completes for the host.\<close>

theorem fill_cq_result_race:
  assumes "cq_of d cqid = Some cq" and "cq_ok cq p Q" and "cq_head cq = int h" and "h + 1 < Q"
  shows "returns (fill_cq_post (cq_head cq) sq1 cqid e1 id1 d \<bind> fill_cq_post (cq_head cq) sq2 cqid e2 id2) (\<lambda>d'.
    cqe_command_id (read_completion (dev_mem d') (cq_slot p h)) = ucast id2 \<and>
    (\<forall>x. 16 \<le> unat (x - cq_slot p h) \<longrightarrow> dev_mem d' x = dev_mem d x) \<and>
    (\<exists>cq'. cq_of d' cqid = Some cq' \<and> cq_head cq' = int h + 1))"
proof -
  have h: "h < Q" using assms(4) by simp
  obtain m1 where 1: "fill_cq_post (int h) sq1 cqid e1 id1 d = Some (put_cq (d\<lparr>dev_mem := m1\<rparr>) cqid (next_head cq (int h)))"
    and st1: "cqe_stored (dev_mem d) m1 (cq_slot p h) id1 sq1 e1 (word_of_int (cq_phase cq))"
    using fill_cq_post_ok [OF assms(1,2) h, of sq1 e1 id1] by (auto elim!: returnsE)
  let ?d1 = "put_cq (d\<lparr>dev_mem := m1\<rparr>) cqid (next_head cq (int h))"
  have nh: "next_head cq (int h) = cq\<lparr>cq_head := int h + 1, cq_interrupt_ready := True\<rparr>"
    using assms(2,4) by (auto simp: next_head_def cq_ok_def)
  have cq1: "cq_of ?d1 cqid = Some (next_head cq (int h))" "cq_ok (next_head cq (int h)) p Q"
    using assms(1,2) by (auto simp: nh cq_ok_def)
  obtain m2 where 2: "fill_cq_post (int h) sq2 cqid e2 id2 ?d1 =
      Some (put_cq (?d1\<lparr>dev_mem := m2\<rparr>) cqid (next_head (next_head cq (int h)) (int h)))"
    and st2: "cqe_stored (dev_mem ?d1) m2 (cq_slot p h) id2 sq2 e2 (word_of_int (cq_phase (next_head cq (int h))))"
    using fill_cq_post_ok [OF cq1 h, of sq2 e2 id2] by (auto elim!: returnsE)
  have "cq_head (next_head (next_head cq (int h)) (int h)) = int h + 1"
    using assms(2,4) unfolding nh by (auto simp: next_head_def cq_ok_def)
  then show ?thesis
    using 1 2 st1 st2 cq1(1) assms(3) by (auto simp: cqe_stored_def)
qed

theorem fill_cq_result_race_witness:
  "returns (fill_cq_post 0 1 1 0 10 quiet_dev \<bind> fill_cq_post 0 1 1 1 11) (\<lambda>d'.
    cqe_command_id (read_completion (dev_mem d') (cq_slot 0x11000 0)) = 11 \<and> (\<exists>cq'. cq_of d' 1 = Some cq' \<and> cq_head cq' = 1))"
proof -
  have "cq_head demo_cq = int 0" by (simp add: demo_cq_def)
  from fill_cq_result_race [OF quiet_cq demo_cq_ok this, of 1 0 10 1 1 11]
  show ?thesis by (simp add: demo_cq_def) (erule returns_mono, erule returns_mono, simp)
qed

end

