(* ===== verification/Worker_Props.thy ===== *)
theory Worker_Props
  imports CQ_Props
begin

text \<open>
  A pass of a worker over its table whose requests are copied: every request that is due is
  completed, oldest first, none is completed early, and the table keeps its order.
\<close>

section \<open>Posting one completion\<close>

text \<open>The completion of request \<open>pe\<close>; it concerns the completion queues and the memory only.\<close>

definition post_request :: "nvmev_proc_table \<Rightarrow> nvmev_dev \<Rightarrow> nvmev_dev option" where
  "post_request pe d = fill_cq_result (pe_sqid pe) (pe_cqid pe) (pe_sq_entry pe) (pe_command_id pe) d"

definition at_work :: "nvmev_proc_info list \<Rightarrow> nat \<Rightarrow> nvmev_dev \<Rightarrow> nvmev_dev" where
  "at_work ps n d = d\<lparr>nr_local_clock := n, proc_info := ps\<rparr>"

lemma at_work_sel [simp]:
  "proc_info (at_work ps n d) = ps" "nr_local_clock (at_work ps n d) = n" "cqes (at_work ps n d) = cqes d"
  "dev_mem (at_work ps n d) = dev_mem d" "local_clock (at_work ps n d) = local_clock d"
  "cq_of (at_work ps n d) c = cq_of d c"
  "at_work ps n (at_work ps' n' d) = at_work ps n d"
  by (simp_all add: at_work_def cq_of_def)

lemma at_work_id: "proc_info d = ps \<Longrightarrow> nr_local_clock d = n \<Longrightarrow> at_work ps n d = d"
  by (simp add: at_work_def)

lemma at_workD: "d' = at_work ps n d \<Longrightarrow> cqes d' = cqes d \<and> dev_mem d' = dev_mem d"
  by simp

lemma post_request_at_work:
  "post_request pe (at_work ps n d) = map_option (at_work ps n) (post_request pe d)"
  by (auto simp: post_request_def fill_cq_result_def fill_cq_post_def put_cq_def at_work_def cq_of_def Let_def
      split: bind_splits option.splits)

definition cq_ready :: "nvmev_dev \<Rightarrow> int \<Rightarrow> bool" where
  "cq_ready d c \<longleftrightarrow> (\<exists>cq p Q. cq_of d c = Some cq \<and> cq_ok cq p Q \<and> 0 \<le> cq_head cq \<and> cq_head cq < int Q)"

lemma put_cq_other: "cq_of d c = Some q \<Longrightarrow> c' \<noteq> c \<Longrightarrow> cq_of (put_cq d c q') c' = cq_of d c'"
  by (auto simp: cq_of_def put_cq_def get_queue_def arr_get_def split: if_splits bind_splits)

lemma post_request_ok:
  assumes "cq_ready d (pe_cqid pe)"
  shows "returns (post_request pe d) (\<lambda>d'. (\<forall>c. cq_ready d c \<longrightarrow> cq_ready d' c) \<and> proc_info d' = proc_info d \<and>
    nr_local_clock d' = nr_local_clock d \<and> local_clock d' = local_clock d)"
proof -
  obtain cq p Q where cq: "cq_of d (pe_cqid pe) = Some cq" "cq_ok cq p Q" "0 \<le> cq_head cq" "cq_head cq < int Q"
    using assms by (auto simp: cq_ready_def)
  define h where "h = nat (cq_head cq)"
  have h: "cq_head cq = int h" "h < Q" using cq(3,4) by (auto simp: h_def)
  have Q: "cq_queue_size cq = int Q" "0 < Q" using cq(2) by (simp_all add: cq_ok_def)
  have nx: "cq_ok (next_head cq (int h)) p Q" "0 \<le> cq_head (next_head cq (int h))" "cq_head (next_head cq (int h)) < int Q"
    using cq(2) h Q by (auto simp: cq_ok_def next_head_def)
  obtain d' m' where 1: "post_request pe d = Some d'" "d' = put_cq (d\<lparr>dev_mem := m'\<rparr>) (pe_cqid pe) (next_head cq (int h))"
    using fill_cq_post_ok [OF cq(1,2) h(2), of "pe_sqid pe" "pe_sq_entry pe" "pe_command_id pe"] cq(1) h(1)
    by (auto simp: post_request_def fill_cq_result_def elim!: returnsE)
  have "cq_ready d' c" if "cq_ready d c" for c
  proof (cases "c = pe_cqid pe")
    case True
    then have "cq_of d' c = Some (next_head cq (int h))" using cq(1) 1(2) by simp
    then show ?thesis using nx unfolding cq_ready_def by blast
  next
    case False
    then have "cq_of d' c = cq_of d c" using cq(1) put_cq_other [of "d\<lparr>dev_mem := m'\<rparr>"] 1(2) by simp
    then show ?thesis using that by (simp add: cq_ready_def)
  qed
  moreover have "proc_info d' = proc_info d" "nr_local_clock d' = nr_local_clock d" "local_clock d' = local_clock d"
    using 1(2) by (simp_all add: put_cq_def)
  ultimately show ?thesis by (intro returnsI [OF 1(1)]) blast
qed

section \<open>One entry\<close>

definition complete_entry :: "nat \<Rightarrow> nvmev_proc_table list \<Rightarrow> nvmev_proc_table list" where
  "complete_entry i T = T[i := (T ! i)\<lparr>pe_is_completed := True\<rparr>]"

lemma complete_entry_nth [simp]:
  "j \<noteq> i \<Longrightarrow> complete_entry i T ! j = T ! j"
  "i < length T \<Longrightarrow> complete_entry i T ! i = (T ! i)\<lparr>pe_is_completed := True\<rparr>"
  "length (complete_entry i T) = length T"
  by (simp_all add: complete_entry_def)

lemma worker_entry_copied:
  assumes k: "k < length (proc_info d)" and tb: "proc_info d ! k = tb" and i: "i < length (proc_table tb)" "i < 2 ^ 32"
    and copied: "pe_is_copied (proc_table tb ! i)" and now: "now = local_clock d (nr_local_clock d) + dl"
  shows "worker_entry k dl (of_nat i) d =
    (let pe = proc_table tb ! i; tb' = tb\<lparr>proc_io_nsecs := now\<rparr>; n = Suc (nr_local_clock d) in
     if pe_is_completed pe then Some (Some (pe_next pe), at_work ((proc_info d)[k := tb']) n d)
     else if pe_nsecs_target pe \<le> now then
       map_option (\<lambda>d'. (Some (pe_next pe),
         at_work ((proc_info d)[k := tb'\<lparr>proc_table := complete_entry i (proc_table tb)\<rparr>]) n d')) (post_request pe d)
     else Some (None, at_work ((proc_info d)[k := tb']) n d))"
proof -
  have u: "unat (of_nat i :: u32) = i" using i(2) by (simp add: unat_of_nat take_bit_nat_eq_self)
  have p: "post_request (proc_table tb ! i) (at_work ps n d) = map_option (at_work ps n) (post_request (proc_table tb ! i) d)" for ps n
    by (rule post_request_at_work)
  show ?thesis
    using assms u p [of "(proc_info d)[k := tb\<lparr>proc_io_nsecs := now\<rparr>]" "Suc (nr_local_clock d)"]
    by (auto simp: worker_entry_def get_local_clock_def upd_worker_def pe_get_def pe_upd_def Let_def complete_entry_def
        post_request_def at_work_def split: bind_splits option.splits)
qed

section \<open>The whole table\<close>

definition todo :: "nvmev_proc_table list \<Rightarrow> nat list \<Rightarrow> nat list" where
  "todo T ys = filter (\<lambda>i. \<not> pe_is_completed (T ! i)) ys"

definition post_requests :: "nvmev_proc_table list \<Rightarrow> nat list \<Rightarrow> nvmev_dev \<Rightarrow> nvmev_dev option" where
  "post_requests T = foldM (\<lambda>i. post_request (T ! i))"

lemma post_requests_at_work:
  "post_requests T W (at_work ps n d) = map_option (at_work ps n) (post_requests T W d)"
proof (induction W arbitrary: d)
  case (Cons i W)
  then show ?case by (cases "post_request (T ! i) d") (simp_all add: post_requests_def post_request_at_work)
qed (simp add: post_requests_def)

lemma post_requests_cong:
  "(\<And>i. i \<in> set W \<Longrightarrow> T' ! i = T ! i) \<Longrightarrow> post_requests T' W d = post_requests T W d"
proof (induction W arbitrary: d)
  case (Cons i W)
  then show ?case by (cases "post_request (T ! i) d") (simp_all add: post_requests_def)
qed (simp add: post_requests_def)

text \<open>The clock of the worker does not run backwards after reading number \<open>n\<close>.\<close>

definition clock_runs :: "(nat \<Rightarrow> u64) \<Rightarrow> u64 \<Rightarrow> nat \<Rightarrow> bool" where
  "clock_runs clk dl n \<longleftrightarrow> (\<forall>a b. n \<le> a \<and> a \<le> b \<longrightarrow> clk a + dl \<le> clk b + dl)"

text \<open>
  The pass over the requests \<open>ys\<close>: it visits \<open>n\<close> of them, posts the completions of those that were not
  completed, in their order, and stops at a request that is not due yet.
\<close>

definition pass :: "nat \<Rightarrow> u64 \<Rightarrow> nat list \<Rightarrow> nvmev_dev \<Rightarrow> nvmev_dev \<Rightarrow> nat \<Rightarrow> nvmev_dev \<Rightarrow> nat \<Rightarrow> u64 \<Rightarrow> bool" where
  "pass k dl ys d d' n dd m t \<longleftrightarrow> (let tb = proc_info d ! k; T = proc_table tb; W = todo T (take n ys) in
     n \<le> length ys \<and> post_requests T W d = Some dd \<and>
     d' = at_work ((proc_info d)[k := tb\<lparr>proc_io_nsecs := t, proc_table := fold complete_entry W T\<rparr>]) m dd \<and>
     (if ys = [] then m = nr_local_clock d \<and> t = proc_io_nsecs tb
      else nr_local_clock d < m \<and> t = local_clock d (m - 1) + dl) \<and>
     (\<forall>i\<in>set W. pe_nsecs_target (T ! i) \<le> t) \<and>
     (n < length ys \<longrightarrow> \<not> pe_is_completed (T ! (ys ! n)) \<and> t < pe_nsecs_target (T ! (ys ! n))))"

text \<open>A pass that goes on after its first request \<open>i\<close>, which was completed or is completed now.\<close>

lemma pass_step:
  assumes k: "k < length (proc_info d)" and tb: "proc_info d ! k = tb" and i: "i < length (proc_table tb)" "i \<notin> set ys"
    and first: "if pe_is_completed (proc_table tb ! i) then T1 = proc_table tb \<and> d2 = d
      else pe_nsecs_target (proc_table tb ! i) \<le> now \<and> T1 = complete_entry i (proc_table tb) \<and>
        post_request (proc_table tb ! i) d = Some d2"
    and now: "now = local_clock d (nr_local_clock d) + dl" and clk: "local_clock d2 = local_clock d"
    and runs: "clock_runs (local_clock d) dl (nr_local_clock d)"
    and d1: "d1 = at_work ((proc_info d)[k := tb\<lparr>proc_io_nsecs := now, proc_table := T1\<rparr>]) (Suc (nr_local_clock d)) d2"
    and p: "pass k dl ys d1 d' n dd1 m t"
  shows "\<exists>dd. pass k dl (i # ys) d d' (Suc n) dd m t"
proof -
  let ?T = "proc_table tb" and ?tb1 = "tb\<lparr>proc_io_nsecs := now, proc_table := T1\<rparr>"
  have T1: "T1 ! j = ?T ! j" if "j \<in> set ys" for j
  proof -
    have "j \<noteq> i" using i(2) that by blast
    then show ?thesis using first by (cases "pe_is_completed (?T ! i)") simp_all
  qed
  have d1k: "proc_info d1 ! k = ?tb1" "local_clock d1 = local_clock d" "nr_local_clock d1 = Suc (nr_local_clock d)"
    using k clk by (simp_all add: d1)
  define W1 where "W1 = todo ?T (take n ys)"
  have W1: "todo T1 (take n ys) = W1"
    unfolding W1_def todo_def by (rule filter_cong [OF refl]) (simp add: T1 [OF in_set_takeD])
  have sub: "set W1 \<subseteq> set ys" by (auto simp: W1_def todo_def dest: in_set_takeD)
  define W where "W = todo ?T (take (Suc n) (i # ys))"
  have W: "W = (if pe_is_completed (?T ! i) then W1 else i # W1)" by (simp add: W_def W1_def todo_def)
  have Wi: "todo ?T (i # take n ys) = W" by (simp add: W_def)
  have P: "n \<le> length ys" "post_requests T1 W1 d1 = Some dd1"
    "d' = at_work ((proc_info d1)[k := ?tb1\<lparr>proc_io_nsecs := t, proc_table := fold complete_entry W1 T1\<rparr>]) m dd1"
    "\<forall>j\<in>set W1. pe_nsecs_target (T1 ! j) \<le> t"
    "n < length ys \<longrightarrow> \<not> pe_is_completed (T1 ! (ys ! n)) \<and> t < pe_nsecs_target (T1 ! (ys ! n))"
    using p by (simp_all add: pass_def Let_def d1k W1)
  have P4: "ys = [] \<Longrightarrow> m = Suc (nr_local_clock d) \<and> t = now"
    "ys \<noteq> [] \<Longrightarrow> Suc (nr_local_clock d) < m \<and> t = local_clock d (m - 1) + dl"
    using p by (auto simp: pass_def Let_def d1k)
  have "post_requests T1 W1 d1 = post_requests ?T W1 d1"
    by (rule post_requests_cong) (use T1 sub in blast)
  then obtain dd where dd: "post_requests ?T W1 d2 = Some dd" "dd1 = at_work (proc_info d1) (nr_local_clock d1) dd"
    using P(2) by (auto simp: d1 post_requests_at_work)
  have time: "nr_local_clock d < m" "t = local_clock d (m - 1) + dl" "now \<le> t"
    using P4 runs by (cases "ys = []"; auto simp: now clock_runs_def)+
  have "post_requests ?T W d = Some dd"
    using dd(1) first by (auto simp: W post_requests_def split: if_splits)
  moreover have "fold complete_entry W ?T = fold complete_entry W1 T1"
    using first by (auto simp: W split: if_splits)
  moreover have "d' = at_work ((proc_info d)[k := tb\<lparr>proc_io_nsecs := t, proc_table := fold complete_entry W1 T1\<rparr>]) m dd"
    unfolding P(3) dd(2) by (simp add: d1)
  moreover have "\<forall>j\<in>set W. pe_nsecs_target (?T ! j) \<le> t"
  proof -
    have "pe_nsecs_target (?T ! j) \<le> t" if "j \<in> set W1" for j
      using bspec [OF P(4) that] T1 [of j] that sub by auto
    moreover have "pe_nsecs_target (?T ! i) \<le> t" if "\<not> pe_is_completed (?T ! i)"
      using first time(3) that by (auto intro: order_trans)
    ultimately show ?thesis by (simp add: W)
  qed
  moreover have "Suc n < length (i # ys) \<longrightarrow> \<not> pe_is_completed (?T ! ((i # ys) ! Suc n)) \<and> t < pe_nsecs_target (?T ! ((i # ys) ! Suc n))"
    using P(5) T1 by simp
  ultimately have "pass k dl (i # ys) d d' (Suc n) dd m t"
    using P(1) time(1,2) by (simp add: pass_def Let_def tb Wi)
  then show ?thesis by blast
qed

lemma worker_scan_ok:
  assumes "k < length (proc_info d)" and "proc_info d ! k = tb" and "length (proc_table tb) \<le> NR_MAX_PARALLEL_IO"
    and "chain (proc_table tb) cur ys NIL" and "distinct ys"
    and "\<forall>i\<in>set ys. pe_is_copied (proc_table tb ! i) \<and> cq_ready d (pe_cqid (proc_table tb ! i))"
    and "clock_runs (local_clock d) dl (nr_local_clock d)"
  shows "returns (worker_scan k dl cur d) (\<lambda>d'. \<exists>n dd m t. pass k dl ys d d' n dd m t)"
  using assms
proof (induction ys arbitrary: d tb cur)
  case Nil
  then have "worker_scan k dl cur d = Some d" by (subst worker_scan.simps) simp
  moreover have "pass k dl [] d d 0 d (nr_local_clock d) (proc_io_nsecs tb)"
    using Nil.prems(2) list_update_id [of "proc_info d" k]
    by (simp add: pass_def Let_def todo_def post_requests_def at_work_id)
  ultimately show ?case by auto
next
  case (Cons i ys)
  let ?T = "proc_table tb" and ?n = "Suc (nr_local_clock d)"
  define now where "now = local_clock d (nr_local_clock d) + dl"
  let ?tb = "tb\<lparr>proc_io_nsecs := now\<rparr>"
  have i: "i < length ?T" "cur = of_nat i" "chain ?T (pe_next (?T ! i)) ys NIL" "pe_is_copied (?T ! i)"
    "cq_ready d (pe_cqid (?T ! i))"
    using Cons.prems by simp_all
  have ni: "i \<notin> set ys" using Cons.prems(5) by simp
  have i32: "i < 2 ^ 32" "cur \<noteq> NIL"
    using i(1,2) Cons.prems(3) idx32 [OF i(1) Cons.prems(3)] by (simp_all add: NR_MAX_PARALLEL_IO_def)
  note entry = worker_entry_copied [OF Cons.prems(1,2) i(1) i32(1) i(4) now_def, folded i(2)]
  have scan: "worker_scan k dl cur d = worker_entry k dl cur d \<bind>
      (\<lambda>(nxt, d). case nxt of None \<Rightarrow> Some d | Some cur \<Rightarrow> worker_scan k dl cur d)"
    using i32(2) by (subst worker_scan.simps) simp
  have later: "clock_runs (local_clock d) dl ?n" "\<And>m. nr_local_clock d < m \<Longrightarrow> now \<le> local_clock d (m - 1) + dl"
    using Cons.prems(7) by (auto simp: clock_runs_def now_def)
  consider (completed) "pe_is_completed (?T ! i)" | (due) "\<not> pe_is_completed (?T ! i)" "pe_nsecs_target (?T ! i) \<le> now"
    | (wait) "\<not> pe_is_completed (?T ! i)" "now < pe_nsecs_target (?T ! i)" by fastforce
  then show ?case
  proof cases
    case completed
    let ?d1 = "at_work ((proc_info d)[k := tb\<lparr>proc_io_nsecs := now, proc_table := ?T\<rparr>]) ?n d"
    have "returns (worker_scan k dl (pe_next (?T ! i)) ?d1) (\<lambda>d'. \<exists>n dd m t. pass k dl ys ?d1 d' n dd m t)"
      by (rule Cons.IH [of _ "tb\<lparr>proc_io_nsecs := now, proc_table := ?T\<rparr>"])
        (use Cons.prems i(3) later(1) in \<open>simp_all add: cq_ready_def\<close>)
    moreover have "worker_scan k dl cur d = worker_scan k dl (pe_next (?T ! i)) ?d1"
      using scan entry completed by simp
    ultimately obtain d' n dd m t where 1: "worker_scan k dl cur d = Some d'" "pass k dl ys ?d1 d' n dd m t"
      by (auto elim!: returnsE)
    from pass_step [OF Cons.prems(1,2) i(1) ni _ now_def _ Cons.prems(7) refl 1(2)] completed
    show ?thesis by (intro returnsI [OF 1(1)]) auto
  next
    case due
    obtain d2 where d2: "post_request (?T ! i) d = Some d2" "\<And>c. cq_ready d c \<Longrightarrow> cq_ready d2 c"
      "local_clock d2 = local_clock d"
      using post_request_ok [OF i(5)] by (auto elim!: returnsE)
    let ?tb1 = "tb\<lparr>proc_io_nsecs := now, proc_table := complete_entry i ?T\<rparr>"
    let ?d1 = "at_work ((proc_info d)[k := ?tb1]) ?n d2"
    have same: "complete_entry i ?T ! j = ?T ! j" if "j \<in> set ys" for j
      using ni that complete_entry_nth(1) [of j i] by blast
    have "chain (complete_entry i ?T) (pe_next (?T ! i)) ys NIL"
      using i(3) ni by (simp add: complete_entry_def)
    then have "returns (worker_scan k dl (pe_next (?T ! i)) ?d1) (\<lambda>d'. \<exists>n dd m t. pass k dl ys ?d1 d' n dd m t)"
      by (intro Cons.IH [of _ ?tb1]) (use Cons.prems same d2(2,3) later(1) in \<open>simp_all add: cq_ready_def complete_entry_def\<close>)
    moreover have "worker_scan k dl cur d = worker_scan k dl (pe_next (?T ! i)) ?d1"
      using scan entry due d2(1) by simp
    ultimately obtain d' n dd m t where 1: "worker_scan k dl cur d = Some d'" "pass k dl ys ?d1 d' n dd m t"
      by (auto elim!: returnsE)
    from pass_step [OF Cons.prems(1,2) i(1) ni _ now_def d2(3) Cons.prems(7) refl 1(2)] due d2(1)
    show ?thesis by (intro returnsI [OF 1(1)]) auto
  next
    case wait
    let ?d1 = "at_work ((proc_info d)[k := ?tb]) ?n d"
    have "worker_scan k dl cur d = Some ?d1" using scan entry wait by (simp add: not_le [symmetric])
    moreover have "pass k dl (i # ys) d ?d1 0 d ?n now"
      using wait by (simp add: pass_def Let_def Cons.prems(2) todo_def post_requests_def now_def)
    ultimately show ?thesis by auto
  qed
qed

section \<open>A pass over an ordered table\<close>

lemma complete_fold:
  assumes "\<forall>i\<in>set W. i < length T"
  shows "length (fold complete_entry W T) = length T"
    and "fold complete_entry W T ! j = (if j \<in> set W then (T ! j)\<lparr>pe_is_completed := True\<rparr> else T ! j)"
proof -
  have "length (fold complete_entry W T) = length T \<and>
    fold complete_entry W T ! j = (if j \<in> set W then (T ! j)\<lparr>pe_is_completed := True\<rparr> else T ! j)"
    using assms
  proof (induction W arbitrary: T)
    case (Cons i W)
    have "(complete_entry i T ! j)\<lparr>pe_is_completed := True\<rparr> = (T ! j)\<lparr>pe_is_completed := True\<rparr>"
      using Cons.prems by (cases "j = i") simp_all
    then show ?case using Cons by (cases "j = i") simp_all
  qed simp
  then show "length (fold complete_entry W T) = length T"
    "fold complete_entry W T ! j = (if j \<in> set W then (T ! j)\<lparr>pe_is_completed := True\<rparr> else T ! j)" by simp_all
qed

lemma table_rep_completed:
  assumes rep: "table_rep tb io fr" and ord: "ordered tb io" and W: "\<forall>i\<in>set W. i < length (proc_table tb)"
    and t: "proc_io_nsecs tb \<le> t"
  defines "tb' \<equiv> tb\<lparr>proc_io_nsecs := t, proc_table := fold complete_entry W (proc_table tb)\<rparr>"
  shows "table_rep tb' io fr" and "ordered tb' io"
proof -
  note T' = complete_fold [OF W]
  have same: "pe_next (proc_table tb' ! j) = pe_next (proc_table tb ! j)" "pe_prev (proc_table tb' ! j) = pe_prev (proc_table tb ! j)"
    "pe_nsecs_target (proc_table tb' ! j) = pe_nsecs_target (proc_table tb ! j)" for j
    by (simp_all add: tb'_def T'(2))
  have len: "length (proc_table tb') = length (proc_table tb)" by (simp add: tb'_def T'(1))
  have "chain (proc_table tb') x ys y = chain (proc_table tb) x ys y" "prevs (proc_table tb') x ys = prevs (proc_table tb) x ys" for x ys y
    using chain_cong [of ys "proc_table tb'" "proc_table tb"] prevs_cong [of ys "proc_table tb'" "proc_table tb"] same len by auto
  moreover have "free_seq tb' = free_seq tb" "free_seq_end tb' = free_seq_end tb" "io_seq tb' = io_seq tb"
    "io_seq_end tb' = io_seq_end tb"
    by (simp_all add: tb'_def)
  ultimately show "table_rep tb' io fr" using rep len by (simp add: table_rep_def)
  have "due_key tb' i = max t (due_key tb i)" for i
    using t same(3) [of i] by (simp add: due_key_def target_def tb'_def max.assoc [symmetric] max.absorb1)
  moreover have "sorted_wrt (\<lambda>x y. due_key tb x \<le> due_key tb y) io" using ord by (simp add: ordered_def sorted_map)
  ultimately have "sorted_wrt (\<lambda>x y. due_key tb' x \<le> due_key tb' y) io"
    by (elim sorted_wrt_mono_rel [rotated]) (simp only: max.mono order_refl)
  then show "ordered tb' io" by (simp add: ordered_def sorted_map)
qed

lemma worker_scan_pass:
  assumes "k < length (proc_info d)" and "proc_info d ! k = tb" and "table_rep tb io fr" and "ordered tb io"
    and "\<forall>i\<in>set io. pe_is_copied (proc_table tb ! i) \<and> cq_ready d (pe_cqid (proc_table tb ! i))"
    and "clock_runs (local_clock d) dl (nr_local_clock d)"
    and "proc_io_nsecs tb \<le> local_clock d (nr_local_clock d) + dl"
  shows "returns (worker_scan k dl (io_seq tb) d) (\<lambda>d'. let tb' = proc_info d' ! k; T = proc_table tb; T' = proc_table tb' in
    table_rep tb' io fr \<and> ordered tb' io \<and>
    (\<forall>i\<in>set io. pe_nsecs_target (T ! i) \<le> local_clock d (nr_local_clock d) + dl \<longrightarrow> pe_is_completed (T' ! i)) \<and>
    (\<forall>i\<in>set io. pe_is_completed (T' ! i) \<longrightarrow> pe_is_completed (T ! i) \<or>
      (\<exists>a. nr_local_clock d \<le> a \<and> a < nr_local_clock d' \<and> pe_nsecs_target (T ! i) \<le> local_clock d a + dl)) \<and>
    (\<exists>dd. post_requests T (filter (\<lambda>i. \<not> pe_is_completed (T ! i) \<and> pe_is_completed (T' ! i)) io) d = Some dd \<and>
      (\<exists>m. d' = at_work (proc_info d') m dd) \<and> length (proc_info d') = length (proc_info d)))"
proof -
  let ?T = "proc_table tb" and ?now = "local_clock d (nr_local_clock d) + dl"
  note R = table_repD [OF assms(3)]
  obtain d' n dd m t where run: "worker_scan k dl (io_seq tb) d = Some d'" and p: "pass k dl io d d' n dd m t"
    using worker_scan_ok [OF assms(1,2) R(1,9,2) assms(5,6)] by (auto elim!: returnsE)
  define W where "W = todo ?T (take n io)"
  let ?tb' = "tb\<lparr>proc_io_nsecs := t, proc_table := fold complete_entry W ?T\<rparr>"
  have P: "n \<le> length io" "post_requests ?T W d = Some dd" "d' = at_work ((proc_info d)[k := ?tb']) m dd"
    "if io = [] then m = nr_local_clock d \<and> t = proc_io_nsecs tb else nr_local_clock d < m \<and> t = local_clock d (m - 1) + dl"
    "\<forall>i\<in>set W. pe_nsecs_target (?T ! i) \<le> t"
    "n < length io \<longrightarrow> \<not> pe_is_completed (?T ! (io ! n)) \<and> t < pe_nsecs_target (?T ! (io ! n))"
    using p by (simp_all add: pass_def Let_def assms(2) W_def)
  have tb': "proc_info d' ! k = ?tb'" using assms(1) by (simp add: P(3))
  have t: "io \<noteq> [] \<Longrightarrow> ?now \<le> t" "proc_io_nsecs tb \<le> t"
    using P(4) assms(6,7) by (auto simp: clock_runs_def intro: order_trans split: if_splits)
  have sub: "set W \<subseteq> set (take n io)" by (auto simp: W_def todo_def)
  then have idx: "\<forall>i\<in>set W. i < length ?T" using R(5) in_set_takeD by fastforce
  have compl: "pe_is_completed (proc_table ?tb' ! i) \<longleftrightarrow> i \<in> set W \<or> pe_is_completed (?T ! i)" for i
    by (simp add: complete_fold(2) [OF idx])
  have due: "pe_is_completed (proc_table ?tb' ! i)" if i: "i \<in> set io" "pe_nsecs_target (?T ! i) \<le> ?now" for i
  proof -
    obtain j where j: "j < length io" "i = io ! j" using i(1) by (auto simp: in_set_conv_nth)
    have "j < n"
    proof (rule ccontr)
      assume "\<not> j < n"
      then have nj: "n \<le> j" "n < length io" using j(1) by simp_all
      have "due_key tb (io ! n) \<le> due_key tb (io ! j)"
        using assms(4) nj j(1) by (simp add: ordered_def sorted_iff_nth_mono)
      also have "\<dots> \<le> ?now" using i(2) j(2) assms(7) by (simp add: due_key_def target_def)
      also have "?now \<le> t" using t(1) i(1) by force
      finally have "pe_nsecs_target (?T ! (io ! n)) \<le> t" by (simp add: due_key_def target_def)
      then show False using P(6) nj(2) by (simp add: not_less [symmetric])
    qed
    then have "i \<in> set (take n io)" using j by (auto simp: in_set_conv_nth)
    then show ?thesis unfolding compl by (simp add: W_def todo_def)
  qed
  have "filter (\<lambda>i. \<not> pe_is_completed (?T ! i) \<and> pe_is_completed (proc_table ?tb' ! i)) io = W"
  proof -
    have "filter (\<lambda>i. \<not> pe_is_completed (?T ! i) \<and> (i \<in> set W \<or> pe_is_completed (?T ! i))) (take n io) = W"
      unfolding W_def todo_def by (rule filter_cong [OF refl]) auto
    moreover have "filter (\<lambda>i. \<not> pe_is_completed (?T ! i) \<and> (i \<in> set W \<or> pe_is_completed (?T ! i))) (drop n io) = []"
      using sub set_take_disj_set_drop_if_distinct [OF R(2), of n n] by (auto simp: filter_empty_conv)
    ultimately have "filter (\<lambda>i. \<not> pe_is_completed (?T ! i) \<and> pe_is_completed (proc_table ?tb' ! i)) (take n io @ drop n io) = W"
      unfolding compl filter_append by simp
    then show ?thesis by simp
  qed
  moreover have "d' = at_work (proc_info d') m dd" "length (proc_info d') = length (proc_info d)" by (simp_all add: P(3))
  moreover have "pe_is_completed (?T ! i) \<or>
      (\<exists>a. nr_local_clock d \<le> a \<and> a < nr_local_clock d' \<and> pe_nsecs_target (?T ! i) \<le> local_clock d a + dl)"
    if i: "i \<in> set io" "pe_is_completed (proc_table ?tb' ! i)" for i
  proof (cases "pe_is_completed (?T ! i)")
    case False
    then have "pe_nsecs_target (?T ! i) \<le> t" using i(2) P(5) unfolding compl by blast
    moreover have "nr_local_clock d < m" "t = local_clock d (m - 1) + dl" using P(4) i(1) by (auto split: if_splits)
    moreover have "nr_local_clock d' = m" by (simp add: P(3))
    ultimately have "nr_local_clock d \<le> m - 1 \<and> m - 1 < nr_local_clock d' \<and> pe_nsecs_target (?T ! i) \<le> local_clock d (m - 1) + dl"
      by simp
    then show ?thesis by blast
  qed simp
  ultimately show ?thesis
    using table_rep_completed [OF assms(3,4) idx t(2)] due P(2)
    by (intro returnsI [OF run]) (auto simp: tb' Let_def)
qed

text \<open>C31. A pass of a worker over its table, whose requests are copied and ordered by the time they are
  due, with a clock that does not run backwards: every request that is due when the pass begins is
  completed; none is completed before the time it is due; the completions are posted in the order
  of the table, one for each request, and nothing else is posted; the requests and their order stay.\<close>

theorem worker_scan_correct:
  assumes "k < length (proc_info d)" and "proc_info d ! k = tb" and "table_rep tb io fr" and "ordered tb io"
    and "\<forall>i\<in>set io. pe_is_copied (proc_table tb ! i) \<and> cq_ready d (pe_cqid (proc_table tb ! i))"
    and "clock_runs (local_clock d) dl (nr_local_clock d)"
    and "proc_io_nsecs tb \<le> local_clock d (nr_local_clock d) + dl"
  shows "returns (worker_scan k dl (io_seq tb) d) (\<lambda>d'. let tb' = proc_info d' ! k; T = proc_table tb; T' = proc_table tb' in
    table_rep tb' io fr \<and> ordered tb' io \<and>
    (\<forall>i\<in>set io. pe_nsecs_target (T ! i) \<le> local_clock d (nr_local_clock d) + dl \<longrightarrow> pe_is_completed (T' ! i)) \<and>
    (\<forall>i\<in>set io. pe_is_completed (T' ! i) \<longrightarrow> pe_is_completed (T ! i) \<or>
      (\<exists>a. nr_local_clock d \<le> a \<and> a < nr_local_clock d' \<and> pe_nsecs_target (T ! i) \<le> local_clock d a + dl)) \<and>
    (\<exists>dd. post_requests T (filter (\<lambda>i. \<not> pe_is_completed (T ! i) \<and> pe_is_completed (T' ! i)) io) d = Some dd \<and>
      cqes d' = cqes dd \<and> dev_mem d' = dev_mem dd))"
  by (rule returns_mono [OF worker_scan_pass [OF assms]]) (unfold Let_def, blast dest: at_workD)

text \<open>The demonstration table with its requests copied, at the time 60.\<close>

definition copied_table :: nvmev_proc_info where
  "copied_table = demo_table\<lparr>proc_table := (proc_table demo_table)
     [3 := (demo_entry 50 1 NIL)\<lparr>pe_is_copied := True\<rparr>, 1 := (demo_entry 90 NIL 3)\<lparr>pe_is_copied := True\<rparr>]\<rparr>"

definition work_dev :: nvmev_dev where
  "work_dev = (demo_dev ((blank tiny_sp)\<lparr>ssd_ioclock := \<lambda>_. 60\<rparr>))\<lparr>proc_info := [copied_table, demo_table],
     local_clock := \<lambda>_. 60\<rparr>"

lemma copied_table_ok: "table_rep copied_table [3, 1] [0, 2, 4]" "ordered copied_table [3, 1]"
proof -
  have "{..<length (proc_table copied_table)} = {0, 1, 2, 3, 4}" by (auto simp: copied_table_def demo_table_def)
  then show "table_rep copied_table [3, 1] [0, 2, 4]"
    by (auto simp: table_rep_def copied_table_def demo_table_def demo_entry_def NR_MAX_PARALLEL_IO_def)
  show "ordered copied_table [3, 1]"
    by (simp add: ordered_def due_key_def target_def copied_table_def demo_table_def demo_entry_def)
qed

lemma work_dev_sel:
  "proc_info work_dev = [copied_table, demo_table]" "nr_local_clock work_dev = 0" "local_clock work_dev = (\<lambda>_. 60)"
  "proc_io_nsecs copied_table = 10" "io_seq copied_table = 3" "nr_cq work_dev = 1" "length (cqes work_dev) = 3"
  "dev_events work_dev = []" "msi_entries work_dev = [\<lparr>entry_nr = 1, dest_apicid = 0, irq_vector_nr = 33\<rparr>]"
  "apicid_to_cpuid work_dev = [3]" "cq_of work_dev 1 = Some demo_cq"
  by (simp_all add: work_dev_def demo_dev_def copied_table_def demo_table_def cq_of_def get_queue_def)

lemma copied_entries:
  "proc_table copied_table ! 3 = (demo_entry 50 1 NIL)\<lparr>pe_is_copied := True\<rparr>"
  "proc_table copied_table ! 1 = (demo_entry 90 NIL 3)\<lparr>pe_is_copied := True\<rparr>"
  "proc_table copied_table ! Suc 0 = (demo_entry 90 NIL 3)\<lparr>pe_is_copied := True\<rparr>"
  by (simp_all add: copied_table_def demo_table_def)

lemma work_dev_copied:
  "\<forall>i\<in>set [3, 1]. pe_is_copied (proc_table copied_table ! i) \<and> cq_ready work_dev (pe_cqid (proc_table copied_table ! i))"
proof -
  have "cq_head demo_cq = 0" by (simp add: demo_cq_def)
  then have "cq_ready work_dev 1" using demo_cq_ok work_dev_sel(11) by (force simp: cq_ready_def)
  then show ?thesis by (simp add: copied_entries demo_entry_def)
qed

theorem worker_scan_correct_witness:
  "returns (worker_scan 0 0 3 work_dev) (\<lambda>d'. table_rep (proc_info d' ! 0) [3, 1] [0, 2, 4] \<and>
    pe_is_completed (proc_table (proc_info d' ! 0) ! 3) \<and> \<not> pe_is_completed (proc_table (proc_info d' ! 0) ! 1))"
proof -
  have "returns (worker_scan 0 0 (io_seq copied_table) work_dev) (\<lambda>d'. let tb' = proc_info d' ! 0; T = proc_table copied_table;
      T' = proc_table tb' in
    table_rep tb' [3, 1] [0, 2, 4] \<and> ordered tb' [3, 1] \<and>
    (\<forall>i\<in>set [3, 1]. pe_nsecs_target (T ! i) \<le> local_clock work_dev (nr_local_clock work_dev) + 0 \<longrightarrow> pe_is_completed (T' ! i)) \<and>
    (\<forall>i\<in>set [3, 1]. pe_is_completed (T' ! i) \<longrightarrow> pe_is_completed (T ! i) \<or>
      (\<exists>a. nr_local_clock work_dev \<le> a \<and> a < nr_local_clock d' \<and> pe_nsecs_target (T ! i) \<le> local_clock work_dev a + 0)) \<and>
    (\<exists>dd. post_requests T (filter (\<lambda>i. \<not> pe_is_completed (T ! i) \<and> pe_is_completed (T' ! i)) [3, 1]) work_dev = Some dd \<and>
      cqes d' = cqes dd \<and> dev_mem d' = dev_mem dd))"
    by (rule worker_scan_correct [OF _ _ copied_table_ok work_dev_copied]) (simp_all add: work_dev_sel clock_runs_def)
  then show ?thesis
    unfolding work_dev_sel Let_def
    by (elim returns_mono) (simp add: copied_entries demo_entry_def zero_entry_def work_dev_sel)
qed

section \<open>Interrupts\<close>

text \<open>What a post leaves: only memory and completion queues change, a queue keeps its vector, and the
  queue that got the entry waits for its interrupt.\<close>

definition irq_view :: "nvmev_dev \<Rightarrow> int \<Rightarrow> (bool \<times> int) option" where
  "irq_view d c = map_option (\<lambda>cq. (cq_irq_enabled cq, cq_irq_vector cq)) (cq_of d c)"

definition irq_waits :: "nvmev_dev \<Rightarrow> int \<Rightarrow> bool" where
  "irq_waits d c \<longleftrightarrow> (\<exists>cq. cq_of d c = Some cq \<and> cq_interrupt_ready cq)"

definition besides_queues :: "nvmev_dev \<Rightarrow> nvmev_dev" where
  "besides_queues d = d\<lparr>dev_mem := (\<lambda>_. 0), cqes := [], dev_events := []\<rparr>"

lemma besides_queuesD:
  assumes "besides_queues d' = besides_queues d"
  shows "proc_info d' = proc_info d" "msi_entries d' = msi_entries d" "apicid_to_cpuid d' = apicid_to_cpuid d"
    "nr_cq d' = nr_cq d" "nr_local_clock d' = nr_local_clock d" "local_clock d' = local_clock d"
  using arg_cong [OF assms, of proc_info] arg_cong [OF assms, of msi_entries] arg_cong [OF assms, of apicid_to_cpuid]
    arg_cong [OF assms, of nr_cq] arg_cong [OF assms, of nr_local_clock] arg_cong [OF assms, of local_clock]
  by (simp_all add: besides_queues_def)

definition posted :: "nvmev_dev \<Rightarrow> nvmev_dev \<Rightarrow> int set \<Rightarrow> bool" where
  "posted d d' C \<longleftrightarrow> besides_queues d' = besides_queues d \<and> dev_events d' = dev_events d \<and>
     length (cqes d') = length (cqes d) \<and>
     (\<forall>c. irq_view d' c = irq_view d c) \<and> (\<forall>c. irq_waits d c \<or> c \<in> C \<longrightarrow> irq_waits d' c)"

lemma posted_trans: "posted d d' C \<Longrightarrow> posted d' d'' C' \<Longrightarrow> posted d d'' (C \<union> C')"
  by (auto simp: posted_def)

lemma post_request_posted:
  assumes "post_request pe d = Some d'"
  shows "posted d d' {pe_cqid pe}"
proof -
  obtain cq m where cq: "cq_of d (pe_cqid pe) = Some cq"
    and d': "\<exists>ph h. d' = put_cq (d\<lparr>dev_mem := m\<rparr>) (pe_cqid pe) (cq\<lparr>cq_phase := ph, cq_head := h, cq_interrupt_ready := True\<rparr>)"
    using assms by (fastforce simp: post_request_def fill_cq_result_def fill_cq_post_def Let_def split: bind_splits)
  then obtain ph h where d': "d' = put_cq (d\<lparr>dev_mem := m\<rparr>) (pe_cqid pe) (cq\<lparr>cq_phase := ph, cq_head := h, cq_interrupt_ready := True\<rparr>)"
    by blast
  have new: "cq_of d' (pe_cqid pe) = Some (cq\<lparr>cq_phase := ph, cq_head := h, cq_interrupt_ready := True\<rparr>)"
    using cq by (simp add: d')
  have old: "cq_of d' c = cq_of d c" if "c \<noteq> pe_cqid pe" for c
    using put_cq_other [of "d\<lparr>dev_mem := m\<rparr>" "pe_cqid pe" cq c] cq that by (simp add: d')
  have "irq_view d' c = irq_view d c" "irq_waits d c \<or> c \<in> {pe_cqid pe} \<longrightarrow> irq_waits d' c" for c
    using new old cq by (cases "c = pe_cqid pe"; simp add: irq_view_def irq_waits_def)+
  moreover have "besides_queues d' = besides_queues d" "dev_events d' = dev_events d" "length (cqes d') = length (cqes d)"
    by (simp_all add: d' put_cq_def besides_queues_def)
  ultimately show ?thesis unfolding posted_def by blast
qed

lemma post_requests_posted:
  "post_requests T W d = Some d' \<Longrightarrow> posted d d' (pe_cqid ` (!) T ` set W)"
proof (induction W arbitrary: d)
  case Nil
  then show ?case using Nil by (simp add: post_requests_def posted_def)
next
  case (Cons i W)
  obtain d1 where 1: "post_request (T ! i) d = Some d1" "post_requests T W d1 = Some d'"
    using Cons.prems by (auto simp: post_requests_def split: bind_splits)
  show ?case using posted_trans [OF post_request_posted [OF 1(1)] Cons.IH [OF 1(2)]] by simp
qed

text \<open>The interrupt of vector \<open>v\<close> is sent when a descriptor of the device has it.\<close>

definition irq_sent :: "nvmev_dev \<Rightarrow> int \<Rightarrow> dev_event list \<Rightarrow> bool" where
  "irq_sent d v ev \<longleftrightarrow> (case find (\<lambda>m. entry_nr m = v) (msi_entries d) of None \<Rightarrow> True
     | Some m \<Rightarrow> SendIPI (apicid_to_cpuid d ! unat (dest_apicid m)) (irq_vector_nr m) \<in> set ev)"

definition msi_ok :: "nvmev_dev \<Rightarrow> bool" where
  "msi_ok d \<longleftrightarrow> (\<forall>m\<in>set (msi_entries d). unat (dest_apicid m) < length (apicid_to_cpuid d))"

definition irq_done :: "nvmev_dev \<Rightarrow> dev_event list \<Rightarrow> nvmev_completion_queue option \<Rightarrow> nvmev_completion_queue option \<Rightarrow> bool" where
  "irq_done d ev q q' \<longleftrightarrow> (case q of None \<Rightarrow> q' = None
     | Some cq \<Rightarrow> (if cq_irq_enabled cq \<and> cq_interrupt_ready cq
         then q' = Some (cq\<lparr>cq_interrupt_ready := False\<rparr>) \<and> irq_sent d (cq_irq_vector cq) ev else q' = Some cq))"

lemma irq_done_more: "irq_done d ev q q' \<Longrightarrow> set ev \<subseteq> set ev' \<Longrightarrow> irq_done d ev' q q'"
  by (auto simp: irq_done_def irq_sent_def split: option.splits if_splits)

lemma irq_done_besides:
  assumes "besides_queues d' = besides_queues d"
  shows "irq_done d' = irq_done d"
  by (intro ext) (simp add: irq_done_def irq_sent_def besides_queuesD [OF assms] cong: option.case_cong)

definition irq_step :: "nvmev_dev \<Rightarrow> nat set \<Rightarrow> nvmev_dev \<Rightarrow> bool" where
  "irq_step d S d' \<longleftrightarrow> besides_queues d' = besides_queues d \<and> dev_mem d' = dev_mem d \<and>
     length (cqes d') = length (cqes d) \<and> (\<forall>q. q \<notin> S \<longrightarrow> cqes d' ! q = cqes d ! q) \<and>
     (\<exists>ev. dev_events d' = dev_events d @ ev \<and> (\<forall>q\<in>S. irq_done d ev (cqes d ! q) (cqes d' ! q)))"

lemma irq_step_Un:
  assumes 1: "irq_step d S d'" and 2: "irq_step d' S' d''" and "S \<inter> S' = {}"
  shows "irq_step d (S \<union> S') d''"
proof -
  obtain e1 where e1: "dev_events d' = dev_events d @ e1" "\<forall>q\<in>S. irq_done d e1 (cqes d ! q) (cqes d' ! q)"
    using 1 by (auto simp: irq_step_def)
  obtain e2 where e2: "dev_events d'' = dev_events d' @ e2" "\<forall>q\<in>S'. irq_done d' e2 (cqes d' ! q) (cqes d'' ! q)"
    using 2 by (auto simp: irq_step_def)
  have b: "besides_queues d' = besides_queues d" using 1 by (simp add: irq_step_def)
  have "irq_done d (e1 @ e2) (cqes d ! q) (cqes d'' ! q)" if "q \<in> S \<union> S'" for q
  proof (cases "q \<in> S")
    case True
    then have "cqes d'' ! q = cqes d' ! q" using assms(3) 2 by (auto simp: irq_step_def)
    then show ?thesis using e1(2) True irq_done_more [of d e1 _ _ "e1 @ e2"] by simp
  next
    case False
    then have "q \<in> S'" "cqes d' ! q = cqes d ! q" using that 1 by (auto simp: irq_step_def)
    then show ?thesis using e2(2) irq_done_more [of d e2 _ _ "e1 @ e2"] irq_done_besides [OF b] by force
  qed
  then show ?thesis using 1 2 e1(1) e2(1) by (auto simp: irq_step_def)
qed

lemma raise_irq_ok:
  assumes "q < length (cqes d)" and "msi_ok d"
  shows "returns (raise_irq q d) (irq_step d {q})"
proof (cases "\<exists>cq. cqes d ! q = Some cq \<and> cq_irq_enabled cq \<and> cq_interrupt_ready cq")
  case True
  then obtain cq where cq: "cqes d ! q = Some cq" "cq_irq_enabled cq" "cq_interrupt_ready cq" by blast
  let ?d = "put_cq d (int q) (cq\<lparr>cq_interrupt_ready := False\<rparr>)"
  have r: "raise_irq q d = nvmev_signal_irq (cq_irq_vector cq) ?d" using cq assms(1) by (simp add: raise_irq_def)
  have m: "unat (dest_apicid m) < length (apicid_to_cpuid d)" if "find P (msi_entries d) = Some m" for m P
    using assms(2) that nth_mem by (fastforce simp: msi_ok_def find_Some_iff)
  show ?thesis
    using assms(1) cq m
    by (cases "find (\<lambda>m. entry_nr m = cq_irq_vector cq) (msi_entries d)")
      (simp_all add: r nvmev_signal_irq_def put_cq_def irq_step_def irq_done_def besides_queues_def irq_sent_def)
next
  case False
  then have "raise_irq q d = Some d" using assms(1) by (auto simp: raise_irq_def split: option.splits)
  then show ?thesis using False by (auto simp: irq_step_def irq_done_def split: option.splits)
qed

lemma raise_irqs_ok:
  assumes "m \<le> length (cqes d)" and "msi_ok d" and "1 \<le> m"
  shows "returns (foldM raise_irq [1..<m] d) (irq_step d {1..<m})"
proof (rule returns_foldM_upt [where I = "\<lambda>i. irq_step d {1..<i}"])
  show "irq_step d {1..<1} d" by (simp add: irq_step_def)
next
  fix i d' assume i: "1 \<le> i" "i < m" and I: "irq_step d {1..<i} d'"
  have len: "length (cqes d') = length (cqes d)" and same: "cqes d' ! i = cqes d ! i" and bes: "besides_queues d' = besides_queues d"
    using I by (simp_all add: irq_step_def)
  note B = besides_queuesD [OF bes]
  have "returns (raise_irq i d') (irq_step d' {i})"
    by (rule raise_irq_ok) (use assms i len B in \<open>simp_all add: msi_ok_def\<close>)
  moreover have "{1..<i} \<union> {i} = {1..<Suc i}" using i(1) by auto
  ultimately show "returns (raise_irq i d') (irq_step d {1..<Suc i})"
    using irq_step_Un [OF I, of "{i}"] by (auto elim: returns_mono)
qed (rule assms(3))

section \<open>A round of the worker\<close>

text \<open>C32. A round of a worker whose requests are copied, with clocks that do not run backwards: every
  request that is due when the pass begins is completed; for every request completed in the round
  whose queue has interrupts enabled, the interrupt of that queue's vector is sent within the
  round; and no interrupt is left waiting on any queue of the controller. The table keeps its requests and their order.\<close>

theorem kthread_io_round_correct:
  assumes "fst (get_wallclock d) = wall" and "dl = wall - local_clock d (nr_local_clock d)"
    and "k < length (proc_info d)" and "proc_info d ! k = tb" and "table_rep tb io fr" and "ordered tb io"
    and "\<forall>i\<in>set io. pe_is_copied (proc_table tb ! i) \<and> cq_ready d (pe_cqid (proc_table tb ! i))"
    and "clock_runs (local_clock d) dl (Suc (nr_local_clock d))"
    and "proc_io_nsecs tb \<le> local_clock d (Suc (nr_local_clock d)) + dl"
    and "nat (nr_cq d) < length (cqes d)" and "msi_ok d"
  shows "returns (kthread_io_round k d) (\<lambda>d'. let tb' = proc_info d' ! k; T = proc_table tb; T' = proc_table tb' in
    table_rep tb' io fr \<and> ordered tb' io \<and>
    (\<forall>i\<in>set io. pe_nsecs_target (T ! i) \<le> local_clock d (Suc (nr_local_clock d)) + dl \<longrightarrow> pe_is_completed (T' ! i)) \<and>
    (\<exists>ev. dev_events d' = dev_events d @ ev \<and>
      (\<forall>i\<in>set io. \<forall>v. \<not> pe_is_completed (T ! i) \<and> pe_is_completed (T' ! i) \<and>
        irq_view d (pe_cqid (T ! i)) = Some (True, v) \<and> pe_cqid (T ! i) \<in> {1..nr_cq d} \<longrightarrow> irq_sent d v ev)) \<and>
    (\<forall>q\<in>{1..<nat (nr_cq d) + 1}. \<forall>cq. cqes d' ! q = Some cq \<longrightarrow> cq_irq_enabled cq \<longrightarrow> \<not> cq_interrupt_ready cq))"
proof -
  let ?T = "proc_table tb"
  obtain s where w: "get_wallclock d = (wall, d\<lparr>dev_ftl := s\<rparr>)"
    using assms(1) by (auto simp: get_wallclock_def split: prod.splits)
  define d1 where "d1 = d\<lparr>dev_ftl := s, nr_local_clock := Suc (nr_local_clock d)\<rparr>"
  have d1: "proc_info d1 = proc_info d" "local_clock d1 = local_clock d" "nr_local_clock d1 = Suc (nr_local_clock d)"
    "cqes d1 = cqes d" "nr_cq d1 = nr_cq d" "msi_entries d1 = msi_entries d" "apicid_to_cpuid d1 = apicid_to_cpuid d"
    "dev_events d1 = dev_events d" "cq_of d1 = cq_of d"
    by (simp_all add: d1_def cq_of_def fun_eq_iff)
  have round: "kthread_io_round k d = worker_scan k dl (io_seq tb) d1 \<bind> (\<lambda>d. foldM raise_irq [1..<nat (nr_cq d) + 1] d)"
    using assms(2-4) by (simp add: kthread_io_round_def w get_local_clock_def d1_def Let_def)
  have "returns (worker_scan k dl (io_seq tb) d1) (\<lambda>d'. let tb' = proc_info d' ! k; T' = proc_table tb' in
    table_rep tb' io fr \<and> ordered tb' io \<and>
    (\<forall>i\<in>set io. pe_nsecs_target (?T ! i) \<le> local_clock d1 (nr_local_clock d1) + dl \<longrightarrow> pe_is_completed (T' ! i)) \<and>
    (\<forall>i\<in>set io. pe_is_completed (T' ! i) \<longrightarrow> pe_is_completed (?T ! i) \<or>
      (\<exists>a. nr_local_clock d1 \<le> a \<and> a < nr_local_clock d' \<and> pe_nsecs_target (?T ! i) \<le> local_clock d1 a + dl)) \<and>
    (\<exists>dd. post_requests ?T (filter (\<lambda>i. \<not> pe_is_completed (?T ! i) \<and> pe_is_completed (T' ! i)) io) d1 = Some dd \<and>
      (\<exists>m. d' = at_work (proc_info d') m dd) \<and> length (proc_info d') = length (proc_info d1)))"
    unfolding Let_def
    by (rule worker_scan_pass [unfolded Let_def]) (use assms(3-9) in \<open>simp_all add: d1 cq_ready_def\<close>)
  then obtain d2 dd m where scan: "worker_scan k dl (io_seq tb) d1 = Some d2" and tab: "table_rep (proc_info d2 ! k) io fr"
    "ordered (proc_info d2 ! k) io"
    "\<forall>i\<in>set io. pe_nsecs_target (?T ! i) \<le> local_clock d (Suc (nr_local_clock d)) + dl \<longrightarrow> pe_is_completed (proc_table (proc_info d2 ! k) ! i)"
    and post: "post_requests ?T (filter (\<lambda>i. \<not> pe_is_completed (?T ! i) \<and> pe_is_completed (proc_table (proc_info d2 ! k) ! i)) io) d1 = Some dd"
    and d2: "d2 = at_work (proc_info d2) m dd"
    by (auto simp: Let_def d1 elim!: returnsE)
  note P = post_requests_posted [OF post, unfolded posted_def]
  have bes: "besides_queues dd = besides_queues d1" using P by blast
  have d2f: "cqes d2 = cqes dd" "nr_cq d2 = nr_cq d" "msi_entries d2 = msi_entries d" "apicid_to_cpuid d2 = apicid_to_cpuid d"
    "dev_events d2 = dev_events d" "length (cqes d2) = length (cqes d)"
    using arg_cong [OF d2, of cqes] arg_cong [OF d2, of nr_cq] arg_cong [OF d2, of msi_entries]
      arg_cong [OF d2, of apicid_to_cpuid] arg_cong [OF d2, of dev_events] besides_queuesD [OF bes] P d1
    by (simp_all add: at_work_def)
  have "returns (foldM raise_irq [1..<nat (nr_cq d2) + 1] d2) (irq_step d2 {1..<nat (nr_cq d2) + 1})"
    by (rule raise_irqs_ok) (use assms(10,11) d2f in \<open>simp_all add: msi_ok_def\<close>)
  then obtain d3 where irqs: "foldM raise_irq [1..<nat (nr_cq d2) + 1] d2 = Some d3"
    "irq_step d2 {1..<nat (nr_cq d2) + 1} d3" by (rule returnsE)
  then obtain ev where step: "besides_queues d3 = besides_queues d2" "dev_events d3 = dev_events d2 @ ev"
    "\<forall>q\<in>{1..<nat (nr_cq d) + 1}. irq_done d2 ev (cqes d2 ! q) (cqes d3 ! q)"
    unfolding irq_step_def d2f(2) by blast
  have run: "kthread_io_round k d = Some d3" by (simp only: round scan bind.bind_lunit irqs(1))
  have sent: "irq_sent d v ev" if i: "i \<in> set io" "\<not> pe_is_completed (?T ! i)" "pe_is_completed (proc_table (proc_info d2 ! k) ! i)"
    and v: "irq_view d (pe_cqid (?T ! i)) = Some (True, v)" and c: "pe_cqid (?T ! i) \<in> {1..nr_cq d}" for i v
  proof -
    let ?c = "pe_cqid (?T ! i)"
    have "irq_waits dd ?c" "irq_view dd ?c = Some (True, v)"
      using P i v by (auto simp: irq_view_def d1)
    then obtain cq where cq: "cq_of dd ?c = Some cq" "cq_interrupt_ready cq" "cq_irq_enabled cq" "cq_irq_vector cq = v"
      by (auto simp: irq_waits_def irq_view_def)
    then have "cqes d2 ! nat ?c = Some cq"
      by (auto simp: d2f cq_of_def get_queue_def arr_get_def split: if_splits bind_splits)
    moreover have "nat ?c \<in> {1..<nat (nr_cq d) + 1}" using c by auto
    ultimately have "irq_sent d2 v ev" using step(3) cq(2-4) by (fastforce simp: irq_done_def)
    then show ?thesis by (simp add: irq_sent_def d2f cong: option.case_cong)
  qed
  have quiet: "\<not> cq_interrupt_ready cq" if "q \<in> {1..<nat (nr_cq d) + 1}" "cqes d3 ! q = Some cq" "cq_irq_enabled cq" for q cq
    using bspec [OF step(3) that(1)] that(2,3) by (auto simp: irq_done_def split: option.splits if_splits)
  show ?thesis
    using tab sent quiet step(2) besides_queuesD(1) [OF step(1)]
    by (intro returnsI [OF run]) (auto simp: Let_def d2f)
qed

theorem kthread_io_round_correct_witness:
  "returns (kthread_io_round 0 work_dev) (\<lambda>d'. pe_is_completed (proc_table (proc_info d' ! 0) ! 3) \<and>
    SendIPI 3 33 \<in> set (dev_events d'))"
proof -
  have w: "fst (get_wallclock work_dev) = 60" by (simp add: get_wallclock_def get_ioclock_def work_dev_def demo_dev_def)
  have view: "irq_view work_dev 1 = Some (True, 1)" by (simp add: irq_view_def work_dev_sel demo_cq_def)
  have sent: "irq_sent work_dev 1 ev \<Longrightarrow> SendIPI 3 33 \<in> set ev" for ev by (simp add: irq_sent_def work_dev_sel)
  have "\<not> pe_is_completed (proc_table copied_table ! 3)" "pe_cqid (proc_table copied_table ! 3) = 1"
    "pe_nsecs_target (proc_table copied_table ! 3) = 50"
    by (simp_all add: copied_entries demo_entry_def zero_entry_def)
  moreover have "returns (kthread_io_round 0 work_dev) (\<lambda>d'. let tb' = proc_info d' ! 0; T = proc_table copied_table;
      T' = proc_table tb' in
    table_rep tb' [3, 1] [0, 2, 4] \<and> ordered tb' [3, 1] \<and>
    (\<forall>i\<in>set [3, 1]. pe_nsecs_target (T ! i) \<le> local_clock work_dev (Suc (nr_local_clock work_dev)) + 0 \<longrightarrow> pe_is_completed (T' ! i)) \<and>
    (\<exists>ev. dev_events d' = dev_events work_dev @ ev \<and>
      (\<forall>i\<in>set [3, 1]. \<forall>v. \<not> pe_is_completed (T ! i) \<and> pe_is_completed (T' ! i) \<and>
        irq_view work_dev (pe_cqid (T ! i)) = Some (True, v) \<and> pe_cqid (T ! i) \<in> {1..nr_cq work_dev} \<longrightarrow> irq_sent work_dev v ev)) \<and>
    (\<forall>q\<in>{1..<nat (nr_cq work_dev) + 1}. \<forall>cq. cqes d' ! q = Some cq \<longrightarrow> cq_irq_enabled cq \<longrightarrow> \<not> cq_interrupt_ready cq))"
    by (rule kthread_io_round_correct [OF w _ _ _ copied_table_ok work_dev_copied])
      (simp_all add: work_dev_sel clock_runs_def msi_ok_def)
  ultimately show ?thesis
    by (elim returns_mono) (auto simp: Let_def work_dev_sel view dest: sent)
qed

end
