(* ===== verification/IO_Dispatch.thy ===== *)
theory IO_Dispatch
  imports IO IO_Table_Correct FTL_Host
begin

text \<open>
  The dispatcher on an initialised device: the invariants of the translation layer and of the
  request tables are kept by every command it takes from a submission queue.
\<close>

section \<open>Background collection\<close>

lemma select_background:
  "select_victim_line s False = Some (None, s) \<or> select_victim_line s False = select_victim_line s True"
proof (cases "pqueue_peek (victim_line_pq (ssd_lm s))")
  case (Some v)
  show ?thesis
  proof (cases v)
    case Some': (Some i)
    show ?thesis using Some Some' by (cases "arr_get (lns s) i") (auto simp: select_victim_line_def Let_def)
  qed (use Some in \<open>simp add: select_victim_line_def\<close>)
qed (simp add: select_victim_line_def)

lemma do_gc_background:
  "do_gc False s = Some (-1, s) \<or> do_gc False s = do_gc True s"
  using select_background [of s] by (auto simp: do_gc_def)

lemma do_gc_background_ok:
  assumes "gc_ready s" and "P_ln s \<le> room s"
  shows "returns (do_gc False s) (\<lambda>(r, s'). gc_ready s' \<and> gc_same s s' \<and> room s \<le> room s')"
proof (cases "victims s = {}")
  case True
  then show ?thesis using do_gc_none assms by simp
next
  case False
  have "returns (do_gc True s) (\<lambda>(r, s'). gc_ready s' \<and> gc_same s s' \<and> room s \<le> room s')"
    by (rule returns_mono [OF do_gc_ok [OF assms(1) False assms(2)]]) auto
  then show ?thesis using do_gc_background [of s] assms(1) by (auto simp del: returns_iff)
qed

section \<open>Steps of the dispatcher\<close>

text \<open>What the handling of a command may change: the translation layer, the tables, clock and log.\<close>

definition io_step :: "nvmev_dev \<Rightarrow> nvmev_dev \<Rightarrow> bool" where
  "io_step d d' \<longleftrightarrow> (\<exists>s ps t n ev. d' = d\<lparr>dev_ftl := s, proc_info := ps, proc_turn := t,
     nr_local_clock := n, dev_events := ev\<rparr>)"

lemma io_stepI:
  "d' = d\<lparr>dev_ftl := dev_ftl d', proc_info := proc_info d', proc_turn := proc_turn d',
     nr_local_clock := nr_local_clock d', dev_events := dev_events d'\<rparr> \<Longrightarrow> io_step d d'"
  unfolding io_step_def by blast

lemma io_step_refl [simp]: "io_step d d"
  by (rule io_stepI) simp

lemma io_step_trans: "io_step d d' \<Longrightarrow> io_step d' d'' \<Longrightarrow> io_step d d''"
  unfolding io_step_def by force

lemma io_step_fields:
  assumes "io_step d d'"
  shows "sqes d' = sqes d" "cqes d' = cqes d" "dev_mem d' = dev_mem d" "config d' = config d"
    "io_unit_stat d' = io_unit_stat d" "storage_mapped d' = storage_mapped d" "dbs d' = dbs d" "old_dbs d' = old_dbs d"
    "nr_sq d' = nr_sq d" "nr_cq d' = nr_cq d"
    "sq_of d' q = sq_of d q" "sq_command d' q e = sq_command d q e"
  using assms by (auto simp: io_step_def sq_of_def sq_command_def)

text \<open>Every worker has a well-formed, ordered table.\<close>

definition tables_ok :: "nvmev_dev \<Rightarrow> bool" where
  "tables_ok d \<longleftrightarrow> proc_turn d < nr_io_cpu (config d) \<and> unat (nr_io_cpu (config d)) \<le> length (proc_info d) \<and>
     (\<forall>k<unat (nr_io_cpu (config d)). \<exists>io fr. table_rep (proc_info d ! k) io fr \<and> ordered (proc_info d ! k) io)"

lemma next_turn:
  assumes "(t :: u32) < n"
  shows "(if t + 1 = n then 0 else t + 1) < n"
proof -
  have "t + 1 \<le> n" using assms by (rule inc_le)
  then show ?thesis using assms by (auto simp: word_gt_0 intro: order.strict_trans1 [of 0 t] le_neq_trans)
qed


lemma enqueue_io_req_ok:
  assumes ok: "tables_ok d" and cmd: "sq_command d sqid e = Some cmd"
  shows "returns (enqueue_io_req sqid cqid e start t d)
    (\<lambda>d'. tables_ok d' \<and> io_step d d' \<and> dev_ftl d' = dev_ftl d)"
proof -
  let ?k = "unat (proc_turn d)" and ?n = "unat (nr_io_cpu (config d))"
  have k: "?k < ?n" "?k < length (proc_info d)" using ok by (auto simp: tables_ok_def word_less_nat_alt)
  then obtain io fr where rep: "table_rep (proc_info d ! ?k) io fr" and ord: "ordered (proc_info d ! ?k) io"
    using ok unfolding tables_ok_def by blast
  let ?tb = "proc_info d ! ?k"
  obtain e1 fr1 where fr: "fr = e1 # fr1" using table_repD(6) [OF rep] by (cases fr) auto
  note e1 = table_rep_idx [OF rep, of e1]
  have fs: "free_seq ?tb = of_nat e1" using table_repD(7) [OF rep] fr by simp
  show ?thesis
  proof (cases fr1)
    case Nil
    then have "pe_next (proc_table ?tb ! e1) = NIL" using table_repD(7) [OF rep] fr by simp
    then have "enqueue_io_req sqid cqid e start t d = Some (dev_log_once ''io.c'' 168 d)"
      using k e1 fs fr NIL_big by (simp add: enqueue_io_req_def)
    moreover have "io_step d (dev_log_once ''io.c'' 168 d)"
      by (rule io_stepI) (simp add: dev_log_once_def dev_log_def)
    ultimately show ?thesis using ok by (simp add: tables_ok_def dev_log_once_def dev_log_def)
  next
    case (Cons f fr2)
    note rep' = rep [unfolded fr Cons]
    note f = table_rep_idx [OF rep', of f]
    have nx: "pe_next (proc_table ?tb ! e1) = of_nat f" using table_repD(7) [OF rep'] by simp
    have nf: "\<not> NR_MAX_PARALLEL_IO \<le> f" using f table_repD(1) [OF rep'] by auto
    let ?req = "\<lambda>pe. pe\<lparr>pe_sqid := sqid, pe_cqid := cqid, pe_sq_entry := e,
       pe_command_id := ucast (command_id cmd), pe_nsecs_start := start,
       pe_nsecs_enqueue := local_clock d (nr_local_clock d)\<rparr>"
    obtain tb' where r: "enqueue_entry ?req t ?tb = Some (Inr tb')" and E: "enqueued ?req t ?tb tb' io (e1 # f # fr2)"
      using enqueue_entry_ok [OF rep'] by (auto elim!: returnsE)
    let ?d' = "d\<lparr>nr_local_clock := Suc (nr_local_clock d),
      proc_turn := (if proc_turn d + 1 = nr_io_cpu (config d) then 0 else proc_turn d + 1),
      proc_info := (proc_info d)[?k := tb']\<rparr>"
    have run: "enqueue_io_req sqid cqid e start t d = Some ?d'"
      using r k cmd fs e1 nx f nf fr by (simp add: enqueue_io_req_def get_local_clock_def Let_def)
    have "\<exists>io fr. table_rep tb' io fr \<and> ordered tb' io"
      using enqueued_ordered [OF E rep' ord] E unfolding enqueued_def Let_def by blast
    moreover have "(if proc_turn d + 1 = nr_io_cpu (config d) then 0 else proc_turn d + 1) < nr_io_cpu (config d)"
      by (rule next_turn) (use ok in \<open>simp add: tables_ok_def\<close>)
    ultimately have "tables_ok ?d'"
      using ok k unfolding tables_ok_def by (auto simp: nth_list_update)
    moreover have "io_step d ?d'"
      by (rule io_stepI) simp
    ultimately show ?thesis using run by simp
  qed
qed

lemma reclaim_ok:
  assumes ok: "tables_ok d"
  shows "returns (reclaim_completed_reqs d) (\<lambda>d'. tables_ok d' \<and> io_step d d' \<and> dev_ftl d' = dev_ftl d)"
proof -
  let ?n = "unat (nr_io_cpu (config d))"
  have "returns (foldM reclaim_turn [0..<?n] d) (\<lambda>d'. tables_ok d' \<and> io_step d d' \<and> dev_ftl d' = dev_ftl d)"
  proof (rule returns_foldM_upt [where I = "\<lambda>_ d'. tables_ok d' \<and> io_step d d' \<and> dev_ftl d' = dev_ftl d"])
    fix i d'
    assume i: "i < ?n" and I: "tables_ok d' \<and> io_step d d' \<and> dev_ftl d' = dev_ftl d"
    have cfg: "config d' = config d" using io_step_fields(4) I by blast
    then have len: "i < length (proc_info d')" using I i by (auto simp: tables_ok_def)
    obtain io fr where rep: "table_rep (proc_info d' ! i) io fr" and ord: "ordered (proc_info d' ! i) io"
      using I i cfg by (auto simp: tables_ok_def)
    let ?R = "\<lambda>j. reclaimable (proc_info d' ! i) (proc_table (proc_info d' ! i) ! j)"
    obtain tb' where t: "reclaim_one (proc_info d' ! i) = Some tb'"
      and M: "moved_free (proc_info d' ! i) tb' (dropWhile ?R io) (fr @ takeWhile ?R io)"
      using reclaim_one_ok [OF rep] by (auto elim!: returnsE)
    have "ordered tb' (dropWhile ?R io)"
      by (rule moved_free_ordered [OF M, of "takeWhile ?R io"]) (use ord in simp)
    then have "tables_ok (d'\<lparr>proc_info := (proc_info d')[i := tb']\<rparr>)"
      using I M len unfolding tables_ok_def moved_free_def by (auto simp: nth_list_update)
    moreover have "io_step d' (d'\<lparr>proc_info := (proc_info d')[i := tb']\<rparr>)"
      by (rule io_stepI) simp
    moreover have "reclaim_turn i d' = Some (d'\<lparr>proc_info := (proc_info d')[i := tb']\<rparr>)"
      using len t by (simp add: reclaim_turn_def)
    ultimately show "returns (reclaim_turn i d') (\<lambda>d'. tables_ok d' \<and> io_step d d' \<and> dev_ftl d' = dev_ftl d)"
      using I io_step_trans by auto
  qed (use ok in simp_all)
  then show ?thesis by (simp add: reclaim_completed_reqs_def)
qed


section \<open>Commands\<close>

text \<open>
  The invariant of a device of \<open>n\<close> channels whose host stays within the first \<open>K\<close> logical pages.
\<close>

definition dispatch_inv :: "int \<Rightarrow> nat \<Rightarrow> nvmev_dev \<Rightarrow> bool" where
  "dispatch_inv n K d \<longleftrightarrow> tables_ok d \<and> write_ready (dev_ftl d) \<and> ssd_sp (dev_ftl d) = ssd_init_params n \<and>
     0 < n \<and> n \<le> 128 \<and> mapset (dev_ftl d) \<subseteq> {..<K} \<and> int K < 243 * 2048 * n \<and>
     unat (nr_io_units (config d)) \<le> length (io_unit_stat d)"

lemma dispatch_inv_ftl:
  assumes "dispatch_inv n K d" and "write_ready s" and "ssd_sp s = ssd_sp (dev_ftl d)" and "mapset s \<subseteq> {..<K}"
  shows "dispatch_inv n K (d\<lparr>dev_ftl := s\<rparr>)"
  using assms by (simp add: dispatch_inv_def tables_ok_def)

lemma dispatch_inv_tables:
  assumes "dispatch_inv n K d" and "tables_ok d'" and "io_step d d'" and "dev_ftl d' = dev_ftl d"
  shows "dispatch_inv n K d'"
  using assms io_step_fields [OF assms(3)] by (simp add: dispatch_inv_def)

lemma flush_ok:
  assumes "unat (nr_io_units (config d)) \<le> length (io_unit_stat d)"
  shows "returns (nvmev_proc_flush d) (\<lambda>_. True)"
  unfolding nvmev_proc_flush_def
  by (rule returns_mono [OF returns_foldM_upt [where I = "\<lambda>_ _. True"]]) (use assms in simp_all)

lemma io_target_ok:
  assumes inv: "dispatch_inv n K d" and lp: "last_lpn cmd < K"
  shows "returns (io_target cmd t d) (\<lambda>(tgt, d'). dispatch_inv n K d' \<and> io_step d d' \<and>
    ssd_klog (dev_ftl d') = ssd_klog (dev_ftl d))"
proof -
  note I = inv [unfolded dispatch_inv_def]
  have step: "returns (host_step c (dev_ftl d)) (\<lambda>s'. write_ready s' \<and> ssd_sp s' = ssd_sp (dev_ftl d) \<and>
      mapset s' \<subseteq> {..<K} \<and> ssd_klog s' = ssd_klog (dev_ftl d))" if "host_nvme c = cmd" for c
    by (rule host_step_ok) (use I that lp in auto)
  have st: "io_step d (d\<lparr>dev_ftl := s\<rparr>)" for s by (rule io_stepI) simp
  consider "opcode cmd = nvme_cmd_write" | "opcode cmd = nvme_cmd_read" | "opcode cmd = nvme_cmd_flush"
    | "opcode cmd \<notin> {nvme_cmd_write, nvme_cmd_read, nvme_cmd_flush}" by blast
  then show ?thesis
  proof cases
    case 1
    obtain l s' where "ssd_write cmd t (dev_ftl d) = Some (l, s')" "write_ready s'" "ssd_sp s' = ssd_sp (dev_ftl d)"
      "mapset s' \<subseteq> {..<K}" "ssd_klog s' = ssd_klog (dev_ftl d)"
      using step [of "HostWrite cmd t"] by (auto elim!: returnsE)
    then show ?thesis using 1 dispatch_inv_ftl [OF inv] st by (simp add: io_target_def)
  next
    case 2
    then have w: "opcode cmd \<noteq> nvme_cmd_write" by (simp add: nvme_cmd_read_def nvme_cmd_write_def)
    obtain l s' where "ssd_read cmd t (dev_ftl d) = Some (l, s')" "write_ready s'" "ssd_sp s' = ssd_sp (dev_ftl d)"
      "mapset s' \<subseteq> {..<K}" "ssd_klog s' = ssd_klog (dev_ftl d)"
      using step [of "HostRead cmd t"] by (auto elim!: returnsE)
    then show ?thesis using 2 w dispatch_inv_ftl [OF inv] st by (simp add: io_target_def)
  next
    case 3
    then have w: "opcode cmd \<noteq> nvme_cmd_write" "opcode cmd \<noteq> nvme_cmd_read"
      by (simp_all add: nvme_cmd_read_def nvme_cmd_write_def nvme_cmd_flush_def)
    show ?thesis using flush_ok [of d] I 3 w inv by (auto simp: io_target_def elim!: returnsE)
  qed (use inv in \<open>simp add: io_target_def\<close>)
qed

lemma check_gc_ok:
  assumes inv: "dispatch_inv n K d" and cmd: "sq_command d sqid e = Some cmd"
  shows "returns (check_gc_and_run sqid e d) (\<lambda>d'. dispatch_inv n K d' \<and> io_step d d' \<and>
    ssd_klog (dev_ftl d') = ssd_klog (dev_ftl d))"
proof (cases "opcode cmd = nvme_cmd_write \<and> should_gc (dev_ftl d)")
  case True
  have rd: "gc_ready (dev_ftl d)" "P_ln (dev_ftl d) < room (dev_ftl d)"
    using inv by (auto simp: dispatch_inv_def write_ready_def)
  then obtain r s' where gc: "do_gc False (dev_ftl d) = Some (r, s')" "gc_ready s'" "gc_same (dev_ftl d) s'"
    "room (dev_ftl d) \<le> room s'"
    using do_gc_background_ok [of "dev_ftl d"] by (auto elim!: returnsE)
  have sp: "ssd_sp s' = ssd_sp (dev_ftl d)" "mapset s' = mapset (dev_ftl d)" "ssd_klog s' = ssd_klog (dev_ftl d)"
    using gc(3) by (auto simp: gc_same_def)
  have "write_ready s'" using gc(2,4) rd(2) P_ln_cong [OF sp(1)] by (simp add: write_ready_def)
  then have "dispatch_inv n K (d\<lparr>dev_ftl := s'\<rparr>)"
    by (rule dispatch_inv_ftl [OF inv]) (use inv sp in \<open>simp_all add: dispatch_inv_def\<close>)
  moreover have "io_step d ((dev_log ''io.c'' 47 d)\<lparr>dev_ftl := s'\<rparr>)" by (rule io_stepI) (simp add: dev_log_def)
  moreover have "dispatch_inv n K ((dev_log ''io.c'' 47 d)\<lparr>dev_ftl := s'\<rparr>) = dispatch_inv n K (d\<lparr>dev_ftl := s'\<rparr>)"
    by (simp add: dispatch_inv_def tables_ok_def dev_log_def)
  ultimately show ?thesis using gc(1) cmd True sp(3) by (simp add: check_gc_and_run_def)
qed (use inv cmd in \<open>auto simp: check_gc_and_run_def\<close>)

lemma wallclock_ok:
  assumes "dispatch_inv n K d" and w: "get_wallclock d = (start, d0)"
  shows "dispatch_inv n K d0 \<and> io_step d d0 \<and> ssd_klog (dev_ftl d0) = ssd_klog (dev_ftl d) \<and>
    d0 = d\<lparr>dev_ftl := snd (get_ioclock (dev_ftl d))\<rparr>"
proof -
  have d0: "d0 = d\<lparr>dev_ftl := snd (get_ioclock (dev_ftl d))\<rparr>"
    using w by (simp add: get_wallclock_def Let_def split: prod.splits)
  note tk = tick_clock [of "dev_ftl d"]
  have "write_ready (snd (get_ioclock (dev_ftl d)))"
    using assms(1) tick_gc_ready [OF tk] tick_room [OF tk] P_ln_cong [of "snd (get_ioclock (dev_ftl d))" "dev_ftl d"] tk
    by (simp add: write_ready_def tick_def dispatch_inv_def)
  then show ?thesis
    using dispatch_inv_ftl [OF assms(1)] tick_gc_same [OF tk] assms(1) unfolding d0
    by (auto simp: gc_same_def dispatch_inv_def intro: io_stepI)
qed

lemma proc_io_ok:
  assumes inv: "dispatch_inv n K d" and sq: "sq_of d sqid = Some sq" and cmd: "sq_command d sqid e = Some cmd"
    and lp: "last_lpn cmd < K"
  shows "returns (nvmev_proc_io sqid e d) (\<lambda>(sz, d'). sz = 0 \<and> dispatch_inv n K d' \<and> io_step d d' \<and>
    ssd_klog (dev_ftl d') = ssd_klog (dev_ftl d))"
proof -
  obtain start d0 where w: "get_wallclock d = (start, d0)" by fastforce
  from wallclock_ok [OF inv this]
  have inv0: "dispatch_inv n K d0" and st0: "io_step d d0" and k0: "ssd_klog (dev_ftl d0) = ssd_klog (dev_ftl d)"
    by blast+
  obtain tgt d1 where 1: "io_target cmd start d0 = Some (tgt, d1)" "dispatch_inv n K d1" "io_step d0 d1"
    "ssd_klog (dev_ftl d1) = ssd_klog (dev_ftl d0)"
    using io_target_ok [OF inv0 lp, of start] by (auto elim!: returnsE)
  have st1: "io_step d d1" by (rule io_step_trans [OF st0 1(3)])
  have c1: "sq_command d1 sqid e = Some cmd" using cmd io_step_fields(12) [OF st1] by simp
  obtain d2 where 2: "enqueue_io_req sqid (sq_cqid sq) e start tgt d1 = Some d2" "tables_ok d2" "io_step d1 d2"
    "dev_ftl d2 = dev_ftl d1"
    using enqueue_io_req_ok [OF _ c1, of "sq_cqid sq" start tgt] 1(2) by (auto simp: dispatch_inv_def elim!: returnsE)
  have inv2: "dispatch_inv n K d2" by (rule dispatch_inv_tables [OF 1(2) 2(2-4)])
  have st2: "io_step d d2" by (rule io_step_trans [OF st1 2(3)])
  have c2: "sq_command d2 sqid e = Some cmd" using cmd io_step_fields(12) [OF st2] by simp
  obtain d3 where 3: "check_gc_and_run sqid e d2 = Some d3" "dispatch_inv n K d3" "io_step d2 d3"
    "ssd_klog (dev_ftl d3) = ssd_klog (dev_ftl d2)"
    using check_gc_ok [OF inv2 c2] by (auto elim!: returnsE)
  obtain d4 where 4: "reclaim_completed_reqs d3 = Some d4" "tables_ok d4" "io_step d3 d4" "dev_ftl d4 = dev_ftl d3"
    using reclaim_ok [of d3] 3(2) by (auto simp: dispatch_inv_def elim!: returnsE)
  have "dispatch_inv n K d4" by (rule dispatch_inv_tables [OF 3(2) 4(2-4)])
  moreover have "io_step d d4" using st2 3(3) 4(3) io_step_trans by blast
  moreover have "sq_of d0 sqid = Some sq" "sq_command d0 sqid e = Some cmd"
    using sq cmd io_step_fields(11,12) [OF st0] by simp_all
  ultimately show ?thesis
    using w 1 2 3 4 k0 by (simp add: nvmev_proc_io_def Let_def)
qed

end
