(* ===== verification/IO_Requests.thy ===== *)
theory IO_Requests
  imports IO_Dispatch "HOL-Library.Multiset"
begin

text \<open>
  Which requests the tables hold: the entries in flight of a table, in the order of its links, and the bag
  of requests that wait for their completion in all tables. Entering a request adds it to the
  bag, reclaiming leaves the bag alone.
\<close>

section \<open>The requests of a table\<close>

primrec entries_from :: "nat \<Rightarrow> nvmev_proc_table list \<Rightarrow> u32 \<Rightarrow> nvmev_proc_table list" where
  "entries_from 0 T x = []"
| "entries_from (Suc n) T x =
     (if unat x < length T then T ! unat x # entries_from n T (pe_next (T ! unat x)) else [])"

definition in_flight :: "nvmev_proc_info \<Rightarrow> nvmev_proc_table list" where
  "in_flight tb = entries_from (length (proc_table tb)) (proc_table tb) (io_seq tb)"

text \<open>A request: submission queue, completion queue, slot and identifier of its command.\<close>

definition request_of :: "nvmev_proc_table \<Rightarrow> int \<times> int \<times> int \<times> u32" where
  "request_of pe = (pe_sqid pe, pe_cqid pe, pe_sq_entry pe, pe_command_id pe)"

definition open_requests :: "nvmev_proc_info \<Rightarrow> (int \<times> int \<times> int \<times> u32) multiset" where
  "open_requests tb = mset (map request_of (filter (\<lambda>pe. \<not> pe_is_completed pe) (in_flight tb)))"

definition waiting :: "nvmev_dev \<Rightarrow> (int \<times> int \<times> int \<times> u32) multiset" where
  "waiting d = (\<Sum>k<unat (nr_io_cpu (config d)). open_requests (proc_info d ! k))"

text \<open>Every worker can take \<open>m\<close> more requests.\<close>

definition has_room :: "nat \<Rightarrow> nvmev_dev \<Rightarrow> bool" where
  "has_room m d \<longleftrightarrow> (\<forall>k<unat (nr_io_cpu (config d)). \<exists>io fr. table_rep (proc_info d ! k) io fr \<and> m < length fr)"

lemma entries_from_chain:
  assumes "length T \<le> NR_MAX_PARALLEL_IO"
  shows "chain T x io NIL \<Longrightarrow> length io \<le> n \<Longrightarrow> entries_from n T x = map ((!) T) io"
proof (induction io arbitrary: x n)
  case Nil
  have "length T \<le> unat NIL" using assms NIL_big by linarith
  then show ?case using Nil by (cases n) simp_all
next
  case (Cons i io)
  then obtain n' where n: "n = Suc n'" by (cases n) auto
  have "i < length T" using Cons.prems(1) by simp
  then show ?case using Cons n idx32(1) [OF _ assms] by simp
qed

lemma in_flight_rep:
  assumes "table_rep tb io fr"
  shows "in_flight tb = map ((!) (proc_table tb)) io"
proof -
  note D = table_repD [OF assms]
  have "length io = card (set io)" using D(2) by (simp add: distinct_card)
  also have "\<dots> \<le> card {..<length (proc_table tb)}" by (rule card_mono) (use D(5) in auto)
  finally show ?thesis unfolding in_flight_def by (intro entries_from_chain [OF D(1,9)]) simp
qed

lemma open_rep:
  assumes "table_rep tb io fr"
  shows "open_requests tb = image_mset (\<lambda>i. request_of (proc_table tb ! i))
    (filter_mset (\<lambda>i. \<not> pe_is_completed (proc_table tb ! i)) (mset io))"
  by (simp add: open_requests_def in_flight_rep [OF assms] filter_map comp_def)

lemma enqueued_same:
  assumes "enqueued req t tb tb' io fr" and "i \<noteq> hd fr"
  shows "request_of (proc_table tb' ! i) = request_of (proc_table tb ! i)"
    "pe_is_completed (proc_table tb' ! i) = pe_is_completed (proc_table tb ! i)"
  using arg_cong [OF enqueued_entry [OF assms(1), of i], of request_of]
    arg_cong [OF enqueued_entry [OF assms(1), of i], of pe_is_completed] assms(2) by (simp_all add: request_of_def)

lemma open_enqueued:
  assumes enq: "enqueued req t tb tb' io (e # fr)" and rep: "table_rep tb io (e # fr)"
  shows "open_requests tb' = add_mset (request_of (req (proc_table tb ! e))) (open_requests tb)"
proof -
  let ?A = "stay_before tb t io" and ?B = "drop (length (stay_before tb t io)) io"
  have rep': "table_rep tb' (?A @ e # ?B) fr" using enq by (simp add: enqueued_def Let_def)
  obtain B where "io = ?A @ B" using stay_before_prefix by blast
  then have io: "?A @ ?B = io" by (metis append_eq_conv_conj)
  then have ms: "mset (?A @ e # ?B) = add_mset e (mset io)" by (metis mset_append mset.simps(2) union_mset_add_mset_right)
  have new: "request_of (proc_table tb' ! e) = request_of (req (proc_table tb ! e))" "\<not> pe_is_completed (proc_table tb' ! e)"
    using arg_cong [OF enqueued_new [OF enq], of request_of] arg_cong [OF enqueued_new [OF enq], of pe_is_completed]
    by (simp_all add: request_of_def)
  have old: "request_of (proc_table tb' ! i) = request_of (proc_table tb ! i)"
    "pe_is_completed (proc_table tb' ! i) = pe_is_completed (proc_table tb ! i)" if "i \<in># mset io" for i
  proof -
    have "i \<noteq> hd (e # fr)" using that table_repD(4) [OF rep] by auto
    then show "request_of (proc_table tb' ! i) = request_of (proc_table tb ! i)"
      "pe_is_completed (proc_table tb' ! i) = pe_is_completed (proc_table tb ! i)"
      using enqueued_same [OF enq] by blast+
  qed
  have "filter_mset (\<lambda>i. \<not> pe_is_completed (proc_table tb' ! i)) (mset io) =
      filter_mset (\<lambda>i. \<not> pe_is_completed (proc_table tb ! i)) (mset io)"
    by (rule filter_mset_cong) (use old(2) in auto)
  moreover have "image_mset (\<lambda>i. request_of (proc_table tb' ! i)) (filter_mset P (mset io)) =
      image_mset (\<lambda>i. request_of (proc_table tb ! i)) (filter_mset P (mset io))" for P
    by (rule image_mset_cong) (use old(1) in auto)
  ultimately show ?thesis
    unfolding open_rep [OF rep'] open_rep [OF rep] ms using new by simp
qed

lemma open_moved:
  assumes M: "moved_free tb tb' D fr'" and rep: "table_rep tb (W @ D) fr"
    and W: "\<forall>i\<in>set W. pe_is_completed (proc_table tb ! i)"
  shows "open_requests tb' = open_requests tb"
proof -
  have rep': "table_rep tb' D fr'" using M by (simp add: moved_free_def)
  have eq: "proc_table tb' ! i = (proc_table tb ! i)\<lparr>pe_next := pe_next (proc_table tb' ! i), pe_prev := pe_prev (proc_table tb' ! i)\<rparr>" for i
    using M unfolding moved_free_def by blast
  have same: "request_of (proc_table tb' ! i) = request_of (proc_table tb ! i)"
    "pe_is_completed (proc_table tb' ! i) = pe_is_completed (proc_table tb ! i)" for i
    using arg_cong [OF eq [of i], of request_of] arg_cong [OF eq [of i], of pe_is_completed] by (simp_all add: request_of_def)
  have "filter_mset (\<lambda>i. \<not> pe_is_completed (proc_table tb ! i)) (mset W) = {#}"
    using W by (simp add: filter_mset_eq_conv)
  then show ?thesis
    unfolding open_rep [OF rep'] open_rep [OF rep] by (simp add: same)
qed

section \<open>The requests of the device\<close>

lemma waiting_cong:
  "proc_info d' = proc_info d \<Longrightarrow> config d' = config d \<Longrightarrow> waiting d' = waiting d"
  "proc_info d' = proc_info d \<Longrightarrow> config d' = config d \<Longrightarrow> has_room m d' = has_room m d"
  by (simp_all add: waiting_def has_room_def)

text \<open>A new table of one worker.\<close>

lemma waiting_update:
  assumes "k < unat (nr_io_cpu (config d))" and "k < length (proc_info d)"
    and "proc_info d' = (proc_info d)[k := tb']" and "config d' = config d"
    and "open_requests tb' = X + open_requests (proc_info d ! k)"
  shows "waiting d' = X + waiting d"
proof -
  let ?n = "unat (nr_io_cpu (config d))"
  have split: "waiting z = open_requests (proc_info z ! k) + (\<Sum>j\<in>{..<?n} - {k}. open_requests (proc_info z ! j))"
    if "config z = config d" for z
    unfolding waiting_def that by (rule sum.remove) (use assms(1) in auto)
  have "(\<Sum>j\<in>{..<?n} - {k}. open_requests (proc_info d' ! j)) = (\<Sum>j\<in>{..<?n} - {k}. open_requests (proc_info d ! j))"
    by (rule sum.cong) (simp_all add: assms(3))
  then show ?thesis
    using split [OF assms(4)] split [of d] assms(2,3,5) by (simp add: add.assoc)
qed

lemma room_update:
  assumes "has_room (Suc m) d" and "k < length (proc_info d)"
    and "proc_info d' = (proc_info d)[k := tb']" and "config d' = config d"
    and "table_rep tb' io fr" and "m < length fr"
  shows "has_room m d'"
proof -
  have "\<exists>io fr. table_rep (proc_info d' ! j) io fr \<and> m < length fr" if j: "j < unat (nr_io_cpu (config d))" for j
  proof (cases "j = k")
    case False
    obtain io fr where "table_rep (proc_info d ! j) io fr" "Suc m < length fr"
      using assms(1) j by (auto simp: has_room_def)
    then show ?thesis using False assms(3) by (intro exI [of _ io] exI [of _ fr]) simp
  qed (use assms in auto)
  then show ?thesis by (simp add: has_room_def assms(4))
qed

lemma enqueue_waiting:
  assumes ok: "tables_ok d" and cmd: "sq_command d sqid e = Some cmd" and room: "has_room (Suc m) d"
    and run: "enqueue_io_req sqid cqid e start t d = Some d'"
  shows "waiting d' = add_mset (sqid, cqid, e, ucast (command_id cmd)) (waiting d) \<and> has_room m d'"
proof -
  let ?k = "unat (proc_turn d)" and ?n = "unat (nr_io_cpu (config d))"
  have k: "?k < ?n" "?k < length (proc_info d)" using ok by (auto simp: tables_ok_def word_less_nat_alt)
  let ?tb = "proc_info d ! ?k"
  obtain io fr where rep0: "table_rep ?tb io fr" and len: "Suc m < length fr" using room k(1) by (auto simp: has_room_def)
  then obtain e1 f fr2 where fr: "fr = e1 # f # fr2" by (cases fr; cases "tl fr") auto
  note rep = rep0 [unfolded fr]
  note e1 = table_rep_idx [OF rep, of e1] and f = table_rep_idx [OF rep, of f]
  have fs: "free_seq ?tb = of_nat e1" "pe_next (proc_table ?tb ! e1) = of_nat f" using table_repD(7) [OF rep] by auto
  have nf: "\<not> NR_MAX_PARALLEL_IO \<le> f" using f table_repD(1) [OF rep] by auto
  let ?req = "\<lambda>pe. pe\<lparr>pe_sqid := sqid, pe_cqid := cqid, pe_sq_entry := e,
     pe_command_id := ucast (command_id cmd), pe_nsecs_start := start,
     pe_nsecs_enqueue := local_clock d (nr_local_clock d)\<rparr>"
  obtain tb' where r: "enqueue_entry ?req t ?tb = Some (Inr tb')" and E: "enqueued ?req t ?tb tb' io (e1 # f # fr2)"
    using enqueue_entry_ok [OF rep] by (auto elim!: returnsE)
  let ?d' = "d\<lparr>nr_local_clock := Suc (nr_local_clock d),
    proc_turn := (if proc_turn d + 1 = nr_io_cpu (config d) then 0 else proc_turn d + 1),
    proc_info := (proc_info d)[?k := tb']\<rparr>"
  have "enqueue_io_req sqid cqid e start t d = Some ?d'"
    using r k cmd fs e1 f nf by (simp add: enqueue_io_req_def get_local_clock_def Let_def)
  then have d': "d' = ?d'" using run by simp
  have "open_requests tb' = {#(sqid, cqid, e, ucast (command_id cmd))#} + open_requests ?tb"
    using open_enqueued [OF E rep] by (simp add: request_of_def)
  then have "waiting d' = {#(sqid, cqid, e, ucast (command_id cmd))#} + waiting d"
    by (intro waiting_update [OF k, where tb' = tb']) (simp_all add: d')
  moreover obtain io' where "table_rep tb' io' (f # fr2)" using E by (auto simp: enqueued_def Let_def)
  then have "has_room m d'"
    by (intro room_update [OF room k(2), where tb' = tb' and io = io' and fr = "f # fr2"]) (use len fr in \<open>simp_all add: d'\<close>)
  ultimately show ?thesis by simp
qed

lemma reclaim_turn_ok:
  assumes ok: "tables_ok d" and i: "i < unat (nr_io_cpu (config d))" and run: "reclaim_turn i d = Some d'"
  shows "tables_ok d' \<and> config d' = config d"
proof -
  have len: "i < length (proc_info d)" using ok i by (auto simp: tables_ok_def)
  let ?tb = "proc_info d ! i"
  obtain io fr where rep: "table_rep ?tb io fr" and ord: "ordered ?tb io" using ok i by (auto simp: tables_ok_def)
  let ?R = "\<lambda>j. reclaimable ?tb (proc_table ?tb ! j)"
  obtain tb' where t: "reclaim_one ?tb = Some tb'" and M: "moved_free ?tb tb' (dropWhile ?R io) (fr @ takeWhile ?R io)"
    using reclaim_one_ok [OF rep] by (auto elim!: returnsE)
  have "ordered tb' (dropWhile ?R io)"
    by (rule moved_free_ordered [OF M, of "takeWhile ?R io"]) (use ord in simp)
  moreover have "d' = d\<lparr>proc_info := (proc_info d)[i := tb']\<rparr>" using run len t by (simp add: reclaim_turn_def)
  ultimately show ?thesis using ok M len unfolding tables_ok_def moved_free_def by (auto simp: nth_list_update)
qed

lemma reclaim_turn_waiting:
  assumes ok: "tables_ok d" and i: "i < unat (nr_io_cpu (config d))" and run: "reclaim_turn i d = Some d'"
    and room: "has_room m d"
  shows "waiting d' = waiting d \<and> has_room m d'"
proof -
  have len: "i < length (proc_info d)" using ok i by (auto simp: tables_ok_def)
  let ?tb = "proc_info d ! i"
  obtain io fr where rep: "table_rep ?tb io fr" and m: "m < length fr" using room i by (auto simp: has_room_def)
  let ?R = "\<lambda>j. reclaimable ?tb (proc_table ?tb ! j)"
  obtain tb' where t: "reclaim_one ?tb = Some tb'" and M: "moved_free ?tb tb' (dropWhile ?R io) (fr @ takeWhile ?R io)"
    using reclaim_one_ok [OF rep] by (auto elim!: returnsE)
  have d': "d' = d\<lparr>proc_info := (proc_info d)[i := tb']\<rparr>" using run len t by (simp add: reclaim_turn_def)
  have "open_requests tb' = open_requests ?tb"
    by (rule open_moved [OF M, of "takeWhile ?R io" fr]) (use rep in \<open>auto simp: reclaimable_def dest: set_takeWhileD\<close>)
  then have w: "waiting d' = {#} + waiting d" by (intro waiting_update [OF i len, where tb' = tb']) (simp_all add: d')
  have "\<exists>io fr. table_rep (proc_info d' ! j) io fr \<and> m < length fr" if "j < unat (nr_io_cpu (config d))" for j
  proof (cases "j = i")
    case True
    have "table_rep tb' (dropWhile ?R io) (fr @ takeWhile ?R io)" using M by (simp add: moved_free_def)
    then show ?thesis using True m len unfolding d' by (intro exI [of _ "dropWhile ?R io"] exI [of _ "fr @ takeWhile ?R io"]) simp
  qed (use room that in \<open>simp add: has_room_def d'\<close>)
  then show ?thesis using w by (simp add: has_room_def d')
qed

lemma reclaim_waiting:
  assumes ok: "tables_ok d" and run: "reclaim_completed_reqs d = Some d'" and room: "has_room m d"
  shows "waiting d' = waiting d \<and> has_room m d'"
proof -
  let ?n = "unat (nr_io_cpu (config d))"
  let ?I = "\<lambda>d'. tables_ok d' \<and> config d' = config d \<and> waiting d' = waiting d \<and> has_room m d'"
  have "?I d'" if "foldM reclaim_turn is d = Some d'" "\<forall>i\<in>set is. i < ?n" for "is" d'
    using that
  proof (induction "is" arbitrary: d' rule: rev_induct)
    case Nil
    then show ?case using ok room by simp
  next
    case (snoc i "is")
    then obtain d1 where d1: "foldM reclaim_turn is d = Some d1" "reclaim_turn i d1 = Some d'"
      by (auto simp: foldM_append split: bind_splits)
    have I: "?I d1" by (rule snoc.IH [OF d1(1)]) (use snoc.prems in simp)
    then have "i < unat (nr_io_cpu (config d1))" using snoc.prems(2) by simp
    then show ?case using reclaim_turn_waiting [OF _ _ d1(2), of m] reclaim_turn_ok [OF _ _ d1(2)] I by simp
  qed
  then show ?thesis using run unfolding reclaim_completed_reqs_def by force
qed

section \<open>A command\<close>

lemma io_target_tables:
  assumes "io_target cmd t d = Some (tgt, d')"
  shows "proc_info d' = proc_info d \<and> config d' = config d"
  using assms by (auto simp: io_target_def split: if_splits bind_splits)

lemma check_gc_tables:
  assumes "check_gc_and_run q e d = Some d'"
  shows "proc_info d' = proc_info d \<and> config d' = config d"
  using assms by (auto simp: check_gc_and_run_def dev_log_def split: if_splits bind_splits)

lemma proc_io_waiting:
  assumes inv: "dispatch_inv n K d" and sq: "sq_of d q = Some sq" and cmd: "sq_command d q e = Some cmd"
    and lp: "last_lpn cmd < K" and room: "has_room (Suc m) d" and run: "nvmev_proc_io q e d = Some (sz, d')"
  shows "waiting d' = add_mset (q, sq_cqid sq, e, ucast (command_id cmd)) (waiting d) \<and> has_room m d'"
proof -
  obtain start d0 where w: "get_wallclock d = (start, d0)" by fastforce
  from wallclock_ok [OF inv this] have inv0: "dispatch_inv n K d0" and st0: "io_step d d0"
    and d0: "d0 = d\<lparr>dev_ftl := snd (get_ioclock (dev_ftl d))\<rparr>" by blast+
  have same: "sq_of d0 q = Some sq" "sq_command d0 q e = Some cmd"
    using sq cmd io_step_fields(11,12) [OF st0] by simp_all
  obtain tgt d1 where 1: "io_target cmd start d0 = Some (tgt, d1)" "dispatch_inv n K d1" "io_step d0 d1"
    using io_target_ok [OF inv0 lp, of start] by (auto elim!: returnsE)
  have c1: "sq_command d1 q e = Some cmd" using same(2) io_step_fields(12) [OF 1(3)] by simp
  have t1: "tables_ok d1" using 1(2) by (simp add: dispatch_inv_def)
  have r1: "has_room (Suc m) d1" "waiting d1 = waiting d"
    using io_target_tables [OF 1(1)] d0 room waiting_cong [of d1 d] by simp_all
  obtain d2 d3 where 2: "enqueue_io_req q (sq_cqid sq) e start tgt d1 = Some d2" "check_gc_and_run q e d2 = Some d3"
    "reclaim_completed_reqs d3 = Some d'"
    using run w same 1(1) by (auto simp: nvmev_proc_io_def Let_def split: bind_splits)
  have e: "waiting d2 = add_mset (q, sq_cqid sq, e, ucast (command_id cmd)) (waiting d)" "has_room m d2" "tables_ok d2"
    using enqueue_waiting [OF t1 c1 r1(1) 2(1)] r1(2) enqueue_io_req_ok [OF t1 c1, of "sq_cqid sq" start tgt] 2(1) by auto
  note c = check_gc_tables [OF 2(2)]
  have "tables_ok d3"
  proof -
    have "proc_turn d3 = proc_turn d2"
      using 2(2) by (auto simp: check_gc_and_run_def dev_log_def split: if_splits bind_splits)
    then show ?thesis using e(3) c by (simp add: tables_ok_def)
  qed
  from reclaim_waiting [OF this 2(3), of m] show ?thesis using e waiting_cong [OF c [THEN conjunct1] c [THEN conjunct2]] by simp
qed

end
