(* ===== verification/Dispatch_Props.thy ===== *)
theory Dispatch_Props
  imports IO_Requests Demo_Device
begin

text \<open>
  What the dispatcher does with the commands of a submission queue, and with the completions
  that the host has taken, on a device whose translation layer has been initialised.
\<close>

section \<open>Submission queues\<close>

definition sent :: "nat \<Rightarrow> nvmev_sq_stat \<Rightarrow> nvmev_sq_stat" where
  "sent m st = st\<lparr>nr_dispatched := nr_dispatched st + of_nat m, nr_in_flight := nr_in_flight st + of_nat m\<rparr>"

lemma sent_0 [simp]: "sent 0 st = st"
  by (simp add: sent_def)

lemma sent_Suc: "sent m (sent (Suc 0) st) = sent (Suc m) st"
  by (simp add: sent_def)

lemma sq_of_nonneg: "sq_of d q = Some sq \<Longrightarrow> 0 \<le> q \<and> nat q < length (sqes d) \<and> sqes d ! nat q = Some sq"
  by (auto simp: sq_of_def get_queue_def arr_get_def split: if_splits bind_splits)

lemma upd_sq_stat_eq:
  assumes "sq_of d q = Some sq"
  shows "upd_sq_stat q f d = Some (put_sq d q (sq\<lparr>sq_stat := f (sq_stat sq)\<rparr>))"
    and "sq_of (put_sq d q sq') q = Some sq'" and "q' \<noteq> q \<Longrightarrow> sq_of (put_sq d q sq') q' = sq_of d q'"
proof -
  note b = sq_of_nonneg [OF assms]
  show "upd_sq_stat q f d = Some (put_sq d q (sq\<lparr>sq_stat := f (sq_stat sq)\<rparr>))"
    using assms by (simp add: upd_sq_stat_def)
  show "sq_of (put_sq d q sq') q = Some sq'"
    using b by (simp add: sq_of_def get_queue_def put_sq_def)
  show "q' \<noteq> q \<Longrightarrow> sq_of (put_sq d q sq') q' = sq_of d q'"
    using b by (auto simp: sq_of_def get_queue_def put_sq_def arr_get_def nth_list_update)
qed

lemma put_sq_inv [simp]:
  "dispatch_inv n K (put_sq d q sq) = dispatch_inv n K d" "dev_ftl (put_sq d q sq) = dev_ftl d"
  "dev_mem (put_sq d q sq) = dev_mem d" "cqes (put_sq d q sq) = cqes d" "config (put_sq d q sq) = config d"
  "dbs (put_sq d q sq) = dbs d" "old_dbs (put_sq d q sq) = old_dbs d" "nr_sq (put_sq d q sq) = nr_sq d"
  "nr_cq (put_sq d q sq) = nr_cq d" "length (sqes (put_sq d q sq)) = length (sqes d)"
  by (simp_all add: put_sq_def dispatch_inv_def tables_ok_def)

lemma sq_command_stat:
  assumes "sq_of d q = Some sq" and "sq_of d' q = Some (sq\<lparr>sq_stat := st\<rparr>)" and "dev_mem d' = dev_mem d"
  shows "sq_command d' q e = sq_command d q e"
  using assms by (simp add: sq_command_def)

text \<open>Every slot of the queue holds a command that stays within the first \<open>K\<close> logical pages.\<close>

definition slots_ok :: "nvmev_dev \<Rightarrow> int \<Rightarrow> nvmev_submission_queue \<Rightarrow> nat \<Rightarrow> bool" where
  "slots_ok d q sq K \<longleftrightarrow> (\<forall>i\<in>{0..<sq_queue_size sq}. case sq_command d q i of None \<Rightarrow> False
     | Some cmd \<Rightarrow> last_lpn cmd < K)"

lemma slots_okD:
  assumes "slots_ok d q sq K" and "0 \<le> i" and "i < sq_queue_size sq"
  obtains cmd where "sq_command d q i = Some cmd" and "last_lpn cmd < K"
  using assms unfolding slots_ok_def by (fastforce split: option.splits)

definition batch_done :: "nvmev_dev \<Rightarrow> nvmev_dev \<Rightarrow> int \<Rightarrow> bool" where
  "batch_done d d' q \<longleftrightarrow> ssd_klog (dev_ftl d') = ssd_klog (dev_ftl d) \<and> dev_mem d' = dev_mem d \<and>
     cqes d' = cqes d \<and> config d' = config d \<and> dbs d' = dbs d \<and> old_dbs d' = old_dbs d \<and>
     nr_sq d' = nr_sq d \<and> nr_cq d' = nr_cq d \<and> length (sqes d') = length (sqes d) \<and>
     (\<forall>q'. q' \<noteq> q \<longrightarrow> sq_of d' q' = sq_of d q')"

lemma proc_io_sq_loop_ok:
  assumes "dispatch_inv n K d" and "sq_of d q = Some sq" and "slots_ok d q sq K"
    and "0 \<le> e" and "e < sq_queue_size sq"
  shows "returns (proc_io_sq_loop m q e d) (\<lambda>d'. dispatch_inv n K d' \<and>
    sq_of d' q = Some (sq\<lparr>sq_stat := sent m (sq_stat sq)\<rparr>) \<and> batch_done d d' q)"
  using assms
proof (induction m arbitrary: d sq e)
  case (Suc m)
  obtain cmd where cmd: "sq_command d q e = Some cmd" "last_lpn cmd < K"
    by (rule slots_okD [OF Suc.prems(3-5)])
  obtain d1 where 1: "nvmev_proc_io q e d = Some (0, d1)" "dispatch_inv n K d1" "io_step d d1"
    "ssd_klog (dev_ftl d1) = ssd_klog (dev_ftl d)"
    using proc_io_ok [OF Suc.prems(1,2) cmd] by (auto elim!: returnsE)
  have sq1: "sq_of d1 q = Some sq" using Suc.prems(2) io_step_fields(11) [OF 1(3)] by simp
  let ?sq2 = "sq\<lparr>sq_stat := sent (Suc 0) (sq_stat sq)\<rparr>"
  let ?d2 = "put_sq d1 q ?sq2"
  let ?e = "if e + 1 = sq_queue_size sq then 0 else e + 1"
  note sq2 = upd_sq_stat_eq(2) [OF sq1, of ?sq2]
  have "sq_command ?d2 q i = sq_command d q i" for i
    using sq_command_stat [OF sq1 sq2, of i] io_step_fields(12) [OF 1(3), of q i] by simp
  then have slots: "slots_ok ?d2 q ?sq2 K" using Suc.prems(3) by (simp add: slots_ok_def)
  have e: "0 \<le> ?e" "?e < sq_queue_size ?sq2" using Suc.prems(4,5) by auto
  have inv: "dispatch_inv n K ?d2" using 1(2) by simp
  have "proc_io_sq_loop (Suc m) q e d = proc_io_sq_loop m q ?e ?d2"
    using 1(1) sq1 upd_sq_stat_eq(1) [OF sq1] by (simp add: sent_def Let_def)
  moreover have "batch_done d ?d2 q"
    using 1(4) io_step_fields [OF 1(3)] upd_sq_stat_eq(3) [OF sq1] by (simp add: batch_done_def)
  then have "batch_done d d' q" if "batch_done ?d2 d' q" for d'
    using that by (auto simp: batch_done_def)
  ultimately show ?case
    using Suc.IH [OF inv sq2 slots e] by (auto simp: sent_Suc elim!: returns_mono)
qed (simp add: batch_done_def)

text \<open>The slots of a ring of \<open>Q\<close> entries, \<open>m\<close> of them from \<open>e\<close> on, and the dispatch of one of them.\<close>

definition ring_slots :: "int \<Rightarrow> int \<Rightarrow> nat \<Rightarrow> int list" where
  "ring_slots Q e m = map (\<lambda>i. (e + int i) mod Q) [0..<m]"

lemma ring_slots_0 [simp]: "ring_slots Q e 0 = []"
  by (simp add: ring_slots_def)

lemma ring_slots_Suc:
  assumes "0 \<le> e" and "e < Q"
  shows "ring_slots Q e (Suc m) = e # ring_slots Q (if e + 1 = Q then 0 else e + 1) m"
proof -
  have "(e + int (Suc i)) mod Q = ((if e + 1 = Q then 0 else e + 1) + int i) mod Q" for i
  proof (cases "e + 1 = Q")
    case True
    then have "e + int (Suc i) = int i + Q" by simp
    then have "(e + int (Suc i)) mod Q = int i mod Q" by (simp only: mod_add_self2)
    then show ?thesis using True by simp
  qed (simp add: algebra_simps)
  then show ?thesis using assms by (simp add: ring_slots_def map_upt_Suc del: upt_Suc of_nat_Suc)
qed

definition dispatch_slot :: "int \<Rightarrow> int \<Rightarrow> nvmev_dev \<Rightarrow> nvmev_dev option" where
  "dispatch_slot q e d = do {
     (size, d) \<leftarrow> nvmev_proc_io q e d;
     upd_sq_stat q (\<lambda>st. st\<lparr>nr_dispatched := nr_dispatched st + 1, nr_in_flight := nr_in_flight st + 1,
       total_io := total_io st + of_nat size\<rparr>) d
   }"

text \<open>The request that the command in slot \<open>e\<close> becomes.\<close>

definition request_at :: "nvmev_dev \<Rightarrow> int \<Rightarrow> int \<Rightarrow> int \<times> int \<times> int \<times> u32" where
  "request_at d q e = (q, case sq_of d q of None \<Rightarrow> 0 | Some sq \<Rightarrow> sq_cqid sq, e,
     case sq_command d q e of None \<Rightarrow> 0 | Some cmd \<Rightarrow> ucast (command_id cmd))"

lemma proc_io_sq_loop_requests:
  assumes "dispatch_inv n K d" and "sq_of d q = Some sq" and "slots_ok d q sq K"
    and "0 \<le> e" and "e < sq_queue_size sq"
  shows "proc_io_sq_loop m q e d = foldM (dispatch_slot q) (ring_slots (sq_queue_size sq) e m) d \<and>
    (has_room (m + r) d \<longrightarrow> returns (proc_io_sq_loop m q e d) (\<lambda>d'. has_room r d' \<and>
      waiting d' = waiting d + mset (map (request_at d q) (ring_slots (sq_queue_size sq) e m))))"
  using assms
proof (induction m arbitrary: d sq e)
  case (Suc m)
  obtain cmd where cmd: "sq_command d q e = Some cmd" "last_lpn cmd < K"
    by (rule slots_okD [OF Suc.prems(3-5)])
  obtain d1 where 1: "nvmev_proc_io q e d = Some (0, d1)" "dispatch_inv n K d1" "io_step d d1"
    using proc_io_ok [OF Suc.prems(1,2) cmd] by (auto elim!: returnsE)
  have sq1: "sq_of d1 q = Some sq" using Suc.prems(2) io_step_fields(11) [OF 1(3)] by simp
  let ?sq2 = "sq\<lparr>sq_stat := sent (Suc 0) (sq_stat sq)\<rparr>"
  let ?d2 = "put_sq d1 q ?sq2"
  let ?e = "if e + 1 = sq_queue_size sq then 0 else e + 1"
  note sq2 = upd_sq_stat_eq(2) [OF sq1, of ?sq2]
  have cmds: "sq_command ?d2 q i = sq_command d q i" for i
    using sq_command_stat [OF sq1 sq2, of i] io_step_fields(12) [OF 1(3), of q i] by simp
  then have slots: "slots_ok ?d2 q ?sq2 K" using Suc.prems(3) by (simp add: slots_ok_def)
  have e: "0 \<le> ?e" "?e < sq_queue_size ?sq2" using Suc.prems(4,5) by auto
  have inv: "dispatch_inv n K ?d2" using 1(2) by simp
  have reqs: "request_at ?d2 q = request_at d q"
    using cmds sq2 Suc.prems(2) by (simp add: request_at_def [abs_def])
  have step: "proc_io_sq_loop (Suc m) q e d = proc_io_sq_loop m q ?e ?d2"
    using 1(1) sq1 upd_sq_stat_eq(1) [OF sq1] by (simp add: sent_def Let_def)
  have slot: "dispatch_slot q e d = Some ?d2"
    using 1(1) upd_sq_stat_eq(1) [OF sq1] by (simp add: dispatch_slot_def sent_def)
  have ring: "ring_slots (sq_queue_size sq) e (Suc m) = e # ring_slots (sq_queue_size ?sq2) ?e m"
    using ring_slots_Suc [OF Suc.prems(4,5)] by simp
  note IH = Suc.IH [OF inv sq2 slots e]
  have "waiting ?d2 = add_mset (request_at d q e) (waiting d) \<and> has_room (m + r) ?d2" if "has_room (Suc m + r) d"
  proof -
    have "has_room (Suc (m + r)) d" using that by simp
    from proc_io_waiting [OF Suc.prems(1,2) cmd this 1(1)]
    show ?thesis using waiting_cong [of ?d2 d1] cmd Suc.prems(2) by (simp add: put_sq_def request_at_def)
  qed
  then show ?case
    using IH unfolding step ring foldM.simps slot reqs by (auto elim!: returns_mono)
qed simp

text \<open>The slots between two values of the doorbell, in the order of the ring.\<close>

definition doorbell_slots :: "int \<Rightarrow> int \<Rightarrow> int \<Rightarrow> int list" where
  "doorbell_slots Q old_db new_db = ring_slots Q old_db (nat ((new_db - old_db) mod Q))"

lemma proc_io_sq_ok:
  assumes "dispatch_inv n K d" and "sq_of d q = Some sq" and "slots_ok d q sq K"
    and "sq_queue_size sq \<le> 65536" and "0 \<le> old_db" and "old_db < sq_queue_size sq"
    and "0 \<le> new_db" and "new_db < sq_queue_size sq"
  shows "returns (nvmev_proc_io_sq q new_db old_db d) (\<lambda>d'. dispatch_inv n K d' \<and> batch_done d d' q \<and>
    (\<exists>sq' d1. sq_of d' q = Some sq' \<and> sq' = sq\<lparr>sq_stat := sq_stat sq'\<rparr> \<and>
      nr_dispatched (sq_stat sq') = nr_dispatched (sq_stat sq) + of_int ((new_db - old_db) mod sq_queue_size sq) \<and>
      nr_in_flight (sq_stat sq') = nr_in_flight (sq_stat sq) + of_int ((new_db - old_db) mod sq_queue_size sq) \<and>
      nr_dispatch (sq_stat sq') = nr_dispatch (sq_stat sq) + 1 \<and>
      foldM (dispatch_slot q) (doorbell_slots (sq_queue_size sq) old_db new_db) d = Some d1 \<and> d' = put_sq d1 q sq') \<and>
    (\<forall>r. has_room (length (doorbell_slots (sq_queue_size sq) old_db new_db) + r) d \<longrightarrow> has_room r d' \<and>
      waiting d' = waiting d + mset (map (request_at d q) (doorbell_slots (sq_queue_size sq) old_db new_db))))"
proof -
  let ?m = "(new_db - old_db) mod sq_queue_size sq"
  have w: "wrap32 (new_db - old_db) = new_db - old_db" using assms by (intro wrap32_id) auto
  have m: "(if new_db < old_db then new_db - old_db + sq_queue_size sq else new_db - old_db) = ?m"
    using assms mod_add_self2 [of "new_db - old_db" "sq_queue_size sq"] by (auto simp del: mod_add_self2)
  have m0: "0 \<le> ?m" using assms by simp
  let ?slots = "doorbell_slots (sq_queue_size sq) old_db new_db"
  have slots: "ring_slots (sq_queue_size sq) old_db (nat ?m) = ?slots" "length ?slots = nat ?m"
    by (simp_all add: doorbell_slots_def ring_slots_def)
  note b = sq_of_nonneg [OF assms(2)]
  then have q: "q < int (length (sqes d))" by linarith
  obtain d1 where 1: "proc_io_sq_loop (nat ?m) q old_db d = Some d1" "dispatch_inv n K d1"
    "sq_of d1 q = Some (sq\<lparr>sq_stat := sent (nat ?m) (sq_stat sq)\<rparr>)" "batch_done d d1 q"
    using proc_io_sq_loop_ok [OF assms(1-3,5,6), of "nat ?m"] by (auto elim!: returnsE)
  note R = proc_io_sq_loop_requests [OF assms(1-3,5,6), of "nat ?m", unfolded slots(1) 1(1)]
  define st where "st = (let st = sent (nat ?m) (sq_stat sq) in st\<lparr>nr_dispatch := nr_dispatch st + 1,
    max_nr_in_flight := (if sint (max_nr_in_flight st) < sint (nr_in_flight st)
              then nr_in_flight st else max_nr_in_flight st)\<rparr>)"
  let ?d' = "put_sq d1 q (sq\<lparr>sq_stat := st\<rparr>)"
  have "nvmev_proc_io_sq q new_db old_db d = Some ?d'"
    using b q 1(1) upd_sq_stat_eq(1) [OF 1(3)] by (simp add: nvmev_proc_io_sq_def w m Let_def st_def)
  moreover have "batch_done d ?d' q"
    using 1(4) upd_sq_stat_eq(3) [OF 1(3)] by (simp add: batch_done_def)
  moreover have "sq_of ?d' q = Some (sq\<lparr>sq_stat := st\<rparr>)" by (rule upd_sq_stat_eq(2) [OF 1(3)])
  moreover have "nr_dispatched st = nr_dispatched (sq_stat sq) + of_int ?m"
    "nr_in_flight st = nr_in_flight (sq_stat sq) + of_int ?m" "nr_dispatch st = nr_dispatch (sq_stat sq) + 1"
    using m0 by (simp_all add: st_def sent_def Let_def of_nat_nat)
  moreover have "waiting ?d' = waiting d1" "has_room r ?d' = has_room r d1" for r
    by (rule waiting_cong; simp add: put_sq_def)+
  moreover have "foldM (dispatch_slot q) ?slots d = Some d1" using R [THEN conjunct1] by simp
  moreover have "has_room (length ?slots + r) d \<longrightarrow> has_room r d1 \<and>
      waiting d1 = waiting d + mset (map (request_at d q) ?slots)" for r
    using R [THEN conjunct2, of r] by (simp add: slots(2))
  ultimately show ?thesis
    by (intro returnsI [where x = ?d'] conjI exI [of _ "sq\<lparr>sq_stat := st\<rparr>"] exI [of _ d1] allI) (simp_all add: 1(2))
qed

text \<open>C19. A doorbell of a submission queue: whatever the host has put into the queue and wherever the ring
  wraps, exactly the commands between the two doorbell values are dispatched: \<^verbatim>\<open>__nvmev_proc_io\<close> runs once for
  each of their slots, in the order of the ring, and counts it. While every table has room for that many
  requests, the requests that wait for completion afterwards are those from before and one for each of the slots, with
  the queue, its completion queue, the slot and the identifier of the command in it. No command fails or
  trips an assertion of the translation layer, the invariants of the layer and of the request
  tables hold again, and no other queue and no memory of the host has changed.\<close>

theorem nvmev_proc_io_sq_correct:
  assumes "dispatch_inv n K d" and "sq_of d q = Some sq" and "slots_ok d q sq K"
    and "sq_queue_size sq \<le> 65536" and "0 \<le> old_db" and "old_db < sq_queue_size sq"
    and "0 \<le> new_db" and "new_db < sq_queue_size sq"
  shows "returns (nvmev_proc_io_sq q new_db old_db d) (\<lambda>d'. dispatch_inv n K d' \<and> batch_done d d' q \<and>
    (\<exists>sq' d1. sq_of d' q = Some sq' \<and> sq' = sq\<lparr>sq_stat := sq_stat sq'\<rparr> \<and>
      nr_dispatched (sq_stat sq') = nr_dispatched (sq_stat sq) + of_int ((new_db - old_db) mod sq_queue_size sq) \<and>
      nr_in_flight (sq_stat sq') = nr_in_flight (sq_stat sq) + of_int ((new_db - old_db) mod sq_queue_size sq) \<and>
      nr_dispatch (sq_stat sq') = nr_dispatch (sq_stat sq) + 1 \<and>
      foldM (dispatch_slot q) (doorbell_slots (sq_queue_size sq) old_db new_db) d = Some d1 \<and> d' = put_sq d1 q sq') \<and>
    (\<forall>r. has_room (length (doorbell_slots (sq_queue_size sq) old_db new_db) + r) d \<longrightarrow> has_room r d' \<and>
      waiting d' = waiting d + mset (map (request_at d q) (doorbell_slots (sq_queue_size sq) old_db new_db))))"
  by (rule proc_io_sq_ok [OF assms])

text \<open>A host whose submission queue of two slots repeats the demonstration command.\<close>

definition full_dev :: "ssd \<Rightarrow> nvmev_dev" where
  "full_dev s = (demo_dev s)\<lparr>dev_mem := (\<lambda>a. command_bytes demo_cmd ! (unat a mod 64)),
     sqes := [None, Some (demo_sq\<lparr>sq_queue_size := 2\<rparr>), None]\<rparr>"

lemma full_dev_inv:
  assumes "write_ready s" and "ssd_sp s = ssd_init_params 2" and "mapset s = {}"
  shows "dispatch_inv 2 100 (full_dev s)"
proof -
  have "\<exists>io fr. table_rep ([demo_table, demo_table] ! k) io fr \<and> ordered ([demo_table, demo_table] ! k) io"
    if "k < 2" for k
    using that demo_table_rep demo_table_ordered by (cases k) (auto simp del: One_nat_def)
  then have "tables_ok (full_dev s)" by (simp add: tables_ok_def full_dev_def demo_dev_def demo_cfg_def)
  then show ?thesis using assms by (simp add: dispatch_inv_def full_dev_def demo_dev_def demo_cfg_def)
qed

lemma full_dev_read:
  "read_command (\<lambda>a. command_bytes demo_cmd ! (unat a mod 64)) 0x10000 = demo_cmd"
  "read_command (\<lambda>a. command_bytes demo_cmd ! (unat a mod 64)) 0x10040 = demo_cmd"
  by (simp_all add: read_command_def command_bytes_def demo_cmd_def rd16_def rd32_def rd64_def
      le16_def le32_def le64_def cat16_def cat32_def cat64_def)

lemma full_dev_cmd: "i = 0 \<or> i = 1 \<Longrightarrow> sq_command (full_dev s) 1 i = Some demo_cmd"
  using full_dev_read
  by (auto simp: sq_command_def sq_of_def get_queue_def full_dev_def demo_sq_def sq_entry_def SQ_ENTRY_TO_PAGE_NUM_def
      SQ_ENTRY_TO_PAGE_OFFSET_def NR_SQE_PER_PAGE_def PAGE_SIZE_def)

lemma full_dev_slots:
  "sq_of (full_dev s) 1 = Some (demo_sq\<lparr>sq_queue_size := 2\<rparr>)"
  "slots_ok (full_dev s) 1 (demo_sq\<lparr>sq_queue_size := 2\<rparr>) 100"
proof -
  show sq: "sq_of (full_dev s) 1 = Some (demo_sq\<lparr>sq_queue_size := 2\<rparr>)"
    by (simp add: sq_of_def get_queue_def full_dev_def)
  note cmd = full_dev_cmd
  have "{0..<2::int} = {0, 1}" by auto
  then show "slots_ok (full_dev s) 1 (demo_sq\<lparr>sq_queue_size := 2\<rparr>) 100"
    using cmd by (simp add: slots_ok_def demo_cmd_def last_lpn_def rw_slba_def rw_length_def lo16_def u64_of_int_def)
qed

lemma full_dev_room: "has_room 1 (full_dev s)"
proof -
  have "\<exists>io fr. table_rep ([demo_table, demo_table] ! k) io fr \<and> 1 < length fr" if "k < 2" for k
    using that demo_table_rep by (cases k) (auto simp del: One_nat_def intro!: exI)
  then show ?thesis by (simp add: has_room_def full_dev_def demo_dev_def demo_cfg_def)
qed

lemma full_dev_waiting: "waiting (full_dev s) = {#(1, 1, 0, 0), (1, 1, 0, 0), (1, 1, 0, 0), (1, 1, 0, 0)#}"
proof -
  have "open_requests demo_table = {#(1, 1, 0, 0), (1, 1, 0, 0)#}"
    unfolding open_rep [OF demo_table_rep] by (simp add: demo_table_def demo_entry_def zero_entry_def request_of_def)
  moreover have "{..<2 :: nat} = {0, 1}" by auto
  ultimately show ?thesis by (simp add: waiting_def full_dev_def demo_dev_def demo_cfg_def)
qed

theorem nvmev_proc_io_sq_correct_witness:
  "returns (ssd_init 0 (2 ^ 32) (blank tiny_sp) \<bind> (\<lambda>(_, s). nvmev_proc_io_sq 1 0 1 (full_dev s)))
    (\<lambda>d'. dispatch_inv 2 100 d' \<and> ssd_klog (dev_ftl d') = [] \<and>
      (\<exists>sq'. sq_of d' 1 = Some sq' \<and> nr_dispatched (sq_stat sq') = 1) \<and>
      waiting d' = {#(1, 1, 1, 77), (1, 1, 0, 0), (1, 1, 0, 0), (1, 1, 0, 0), (1, 1, 0, 0)#})"
proof -
  have n: "init_nchs 4294967296 = 2" by (simp add: init_nchs_def int_of_u64_def)
  have k: "ssd_klog (blank tiny_sp) = []" by (simp add: blank_def)
  obtain sz s where s: "ssd_init 0 (2 ^ 32) (blank tiny_sp) = Some (sz, s)" "write_ready s" "mapset s = {}"
    "ssd_sp s = ssd_init_params 2" "ssd_klog s = []"
    using ssd_init_run [of "2 ^ 32" 0 "blank tiny_sp"] by (auto simp: n k elim!: returnsE)
  have "ssd_klog (dev_ftl (full_dev s)) = []" using s(5) by (simp add: full_dev_def demo_dev_def)
  moreover have slots: "doorbell_slots 2 1 0 = [1]" by (simp add: doorbell_slots_def ring_slots_def)
  moreover have "request_at (full_dev s) 1 1 = (1, 1, 1, 77)"
    using full_dev_slots(1) full_dev_cmd by (simp add: request_at_def demo_sq_def demo_cmd_def)
  ultimately show ?thesis
    using s(1) nvmev_proc_io_sq_correct [OF full_dev_inv [OF s(2,4,3)] full_dev_slots, of 1 0]
      full_dev_room [of s] full_dev_waiting [of s]
    by (auto simp: demo_sq_def batch_done_def elim!: returnsE)
qed

end
