(* ===== verification/Admin.thy ===== *)
theory Admin
  imports IO
begin

text \<open>
  The admin queue, \<^verbatim>\<open>admin.c\<close>: creation and deletion of queues, identify, features, and the loop
  over the submitted commands. A command is read from the memory of the host each time the source
  reads it, so a page that the device fills may overwrite the command being handled.
\<close>

unbundle bit_operations_syntax

section \<open>Entries\<close>

text \<open>The macros \<open>sq_entry\<close> and \<open>cq_entry\<close> of this file, over the admin queue.\<close>

definition aq_sq_entry :: "nvmev_dev \<Rightarrow> int \<Rightarrow> u64 option" where
  "aq_sq_entry d eid = do { q \<leftarrow> admin_q d; pages \<leftarrow> nvme_sq q; sq_entry pages eid }"

definition aq_cq_entry :: "nvmev_dev \<Rightarrow> int \<Rightarrow> u64 option" where
  "aq_cq_entry d i = do { q \<leftarrow> admin_q d; pages \<leftarrow> nvme_cq q; cq_entry pages i }"

definition aq_command :: "nvmev_dev \<Rightarrow> int \<Rightarrow> nvme_command option" where
  "aq_command d eid = do { a \<leftarrow> aq_sq_entry d eid; Some (read_command (dev_mem d) a) }"

text \<open>The four stores that end a handler.\<close>

definition admin_complete :: "int \<Rightarrow> int \<Rightarrow> nat \<Rightarrow> nvmev_dev \<Rightarrow> nvmev_dev option" where
  "admin_complete eid head status d = do {
     q \<leftarrow> admin_q d;
     cmd \<leftarrow> aq_command d eid;
     a \<leftarrow> aq_cq_entry d head;
     let m = dev_mem d;
     let m = set_cqe_command_id a (command_id cmd) m;
     let m = set_cqe_sq_id a 0 m;
     let m = set_cqe_sq_head a (word_of_int eid) m;
     let m = set_cqe_status a (word_of_int (or (aq_phase q) (int (status * 2)))) m;
     Some (d\<lparr>dev_mem := m\<rparr>)
   }"

section \<open>Queues\<close>

definition admin_create_cq :: "int \<Rightarrow> int \<Rightarrow> nvmev_dev \<Rightarrow> nvmev_dev option" where
  "admin_create_cq eid head d = do {
     cmd \<leftarrow> aq_command d eid;
     let irq = (create_cq_flags cmd AND NVME_CQ_IRQ_ENABLED \<noteq> 0);
     let contig = (create_cq_flags cmd AND NVME_QUEUE_PHYS_CONTIG \<noteq> 0);
     let qid = uint (create_cq_cqid cmd);
     let n = uint (create_cq_qsize cmd) + 1;
     let num_pages = DIV_ROUND_UP (nat n * 16) PAGE_SIZE;
     let cq = \<lparr>cq_qid = qid, cq_irq_vector = (if irq then uint (create_cq_irq_vector cmd) else 0),
       cq_irq_enabled = irq, cq_interrupt_ready = False, cq_phys_contig = contig, cq_queue_size = n,
       cq_phase = 1, cq_head = 0, cq_tail = -1, cq_cq = page_list (prp1 cmd) num_pages\<rparr>;
     let d = (if contig then d else dev_log ''admin.c'' 53 d);
     cqs \<leftarrow> arr_set (cqes d) (nat qid) (Some cq);
     old \<leftarrow> arr_set (old_dbs d) (nat (qid * 2 + 1)) 0;
     new \<leftarrow> arr_set (dbs d) (nat (qid * 2 + 1)) 0;
     admin_complete eid head NVME_SC_SUCCESS (d\<lparr>cqes := cqs, old_dbs := old, dbs := new\<rparr>)
   }"

definition admin_delete_cq :: "int \<Rightarrow> int \<Rightarrow> nvmev_dev \<Rightarrow> nvmev_dev option" where
  "admin_delete_cq eid head d = do {
     cmd \<leftarrow> aq_command d eid;
     let qid = unat (delete_queue_qid cmd);
     q \<leftarrow> arr_get (cqes d) qid;
     cq \<leftarrow> q;
     admin_complete eid head NVME_SC_SUCCESS (d\<lparr>cqes := (cqes d)[qid := None]\<rparr>)
   }"

definition admin_create_sq :: "int \<Rightarrow> int \<Rightarrow> nvmev_dev \<Rightarrow> nvmev_dev option" where
  "admin_create_sq eid head d = do {
     cmd \<leftarrow> aq_command d eid;
     let contig = (create_sq_flags cmd AND NVME_QUEUE_PHYS_CONTIG \<noteq> 0);
     let qid = uint (create_sq_sqid cmd);
     let n = uint (create_sq_qsize cmd) + 1;
     let num_pages = DIV_ROUND_UP (nat n * 64) PAGE_SIZE;
     let sq = \<lparr>sq_qid = qid, sq_cqid = uint (create_sq_cqid cmd),
       sq_priority = uint (create_sq_flags cmd AND 0xFFFE), sq_phys_contig = contig, sq_queue_size = n,
       sq_stat = \<lparr>nr_dispatched = 0, nr_dispatch = 0, nr_in_flight = 0, max_nr_in_flight = 0, total_io = 0\<rparr>,
       sq_sq = page_list (prp1 cmd) num_pages\<rparr>;
     let d = (if contig then d else dev_log ''admin.c'' 110 d);
     sqs \<leftarrow> arr_set (sqes d) (nat qid) (Some sq);
     new \<leftarrow> arr_set (dbs d) (nat (qid * 2)) 0;
     old \<leftarrow> arr_set (old_dbs d) (nat (qid * 2)) 0;
     admin_complete eid head NVME_SC_SUCCESS (d\<lparr>sqes := sqs, dbs := new, old_dbs := old\<rparr>)
   }"

definition admin_delete_sq :: "int \<Rightarrow> int \<Rightarrow> nvmev_dev \<Rightarrow> nvmev_dev option" where
  "admin_delete_sq eid head d = do {
     cmd \<leftarrow> aq_command d eid;
     let qid = unat (delete_queue_qid cmd);
     q \<leftarrow> arr_get (sqes d) qid;
     sq \<leftarrow> q;
     admin_complete eid head NVME_SC_SUCCESS (d\<lparr>sqes := (sqes d)[qid := None]\<rparr>)
   }"

section \<open>Identify\<close>

text \<open>The characters of a string in an array of \<open>n\<close> bytes that was zero: \<^verbatim>\<open>snprintf\<close>.\<close>

definition str_field :: "nat \<Rightarrow> string \<Rightarrow> u8 list" where
  "str_field n s = (let t = map (\<lambda>c. of_nat (of_char c)) (take (n - 1) s) in t @ replicate (n - length t) 0)"

definition identified_ctrl :: nvme_id_ctrl where
  "identified_ctrl = zero_id_ctrl\<lparr>ic_nn := 1, ic_oncs := 0, ic_acl := 3, ic_vwc := 0,
     ic_sn := str_field 20 ''CSL_Virt_SN_01'', ic_mn := str_field 40 ''CSL_Virt_MN_01'',
     ic_fr := str_field 8 ''CSL_002'', ic_mdts := 5, ic_sqes := 0x66, ic_cqes := 0x44\<rparr>"

definition admin_identify_ctrl :: "int \<Rightarrow> int \<Rightarrow> nvmev_dev \<Rightarrow> nvmev_dev option" where
  "admin_identify_ctrl eid head d = do {
     cmd \<leftarrow> aq_command d eid;
     let d = d\<lparr>dev_mem := write_bytes (dev_mem d) (page_base (prp1 cmd)) (id_ctrl_bytes identified_ctrl)\<rparr>;
     admin_complete eid head NVME_SC_SUCCESS d
   }"

definition admin_get_log_page :: "int \<Rightarrow> int \<Rightarrow> nvmev_dev \<Rightarrow> nvmev_dev option" where
  "admin_get_log_page eid head d = admin_complete eid head NVME_SC_INVALID_FIELD d"

definition lbaf_of :: "u16 \<Rightarrow> u8 \<Rightarrow> u8 \<Rightarrow> nvme_lbaf" where
  "lbaf_of ms ds rp = \<lparr>lbaf_ms = ms, lbaf_ds = ds, lbaf_rp = rp\<rparr>"

definition identified_ns :: "u64 \<Rightarrow> nvme_id_ns" where
  "identified_ns storage =
     (let lbafs = [lbaf_of 0 9 NVME_LBAF_RP_GOOD, lbaf_of 8 9 NVME_LBAF_RP_GOOD, lbaf_of 16 9 NVME_LBAF_RP_GOOD,
        lbaf_of 0 12 NVME_LBAF_RP_BEST, lbaf_of 8 12 NVME_LBAF_RP_BEST, lbaf_of 64 12 NVME_LBAF_RP_BEST,
        lbaf_of 128 12 NVME_LBAF_RP_BEST] @ replicate 9 zero_lbaf;
        nsze = drop_bit (unat (lbaf_ds (lbafs ! unat (ns_flbas zero_id_ns AND 0xF)))) storage
      in zero_id_ns\<lparr>ns_lbaf := lbafs, ns_nsze := nsze, ns_ncap := nsze, ns_nuse := nsze, ns_nlbaf := 6,
        ns_flbas := 0, ns_dps := 0\<rparr>)"

definition admin_identify_namespace :: "int \<Rightarrow> int \<Rightarrow> nvmev_dev \<Rightarrow> nvmev_dev option" where
  "admin_identify_namespace eid head d = do {
     cmd \<leftarrow> aq_command d eid;
     let ns = identified_ns (storage_size (config d));
     let d = d\<lparr>dev_mem := write_bytes (dev_mem d) (page_base (prp1 cmd)) (id_ns_bytes ns)\<rparr>;
     admin_complete eid head NVME_SC_SUCCESS d
   }"

section \<open>Features\<close>

definition admin_set_features :: "int \<Rightarrow> int \<Rightarrow> nvmev_dev \<Rightarrow> nvmev_dev option" where
  "admin_set_features eid head d = do {
     cmd \<leftarrow> aq_command d eid;
     d \<leftarrow> (if features_fid cmd = NVME_FEAT_NUM_QUEUES then do {
            let nsq = min (uint (features_dword11 cmd AND 0xFFFF) + 1) (int NR_MAX_IO_QUEUE);
            let ncq = min (uint (drop_bit 16 (features_dword11 cmd) AND 0xFFFF) + 1) (int NR_MAX_IO_QUEUE);
            a \<leftarrow> aq_cq_entry d head;
            Some (d\<lparr>nr_sq := nsq, nr_cq := ncq,
              dev_mem := set_cqe_result a (word_of_int (or (push_bit 16 (ncq - 1)) (nsq - 1))) (dev_mem d)\<rparr>)
          } else Some d);
     admin_complete eid head NVME_SC_SUCCESS d
   }"

text \<open>\<^verbatim>\<open>__nvmev_admin_get_features\<close> is empty.\<close>

definition admin_get_features :: "int \<Rightarrow> int \<Rightarrow> nvmev_dev \<Rightarrow> nvmev_dev option" where
  "admin_get_features eid head d = Some d"

definition admin_async_event :: "int \<Rightarrow> int \<Rightarrow> nvmev_dev \<Rightarrow> nvmev_dev option" where
  "admin_async_event eid head d = do {
     cmd \<leftarrow> aq_command d eid;
     q \<leftarrow> admin_q d;
     a \<leftarrow> aq_cq_entry d head;
     let m = dev_mem d;
     let m = set_cqe_command_id a (command_id cmd) m;
     let m = set_cqe_sq_id a 0 m;
     let m = set_cqe_sq_head a (word_of_int eid) m;
     let m = set_cqe_result a 0 m;
     let m = set_cqe_status a (word_of_int (or (aq_phase q) (int (NVME_SC_ASYNC_LIMIT * 2)))) m;
     Some (d\<lparr>dev_mem := m\<rparr>)
   }"

section \<open>The admin queue\<close>

text \<open>The \<open>switch\<close> of \<^verbatim>\<open>__nvmev_proc_admin_req\<close>.\<close>

definition admin_handler :: "nvme_command \<Rightarrow> int \<Rightarrow> int \<Rightarrow> nvmev_dev \<Rightarrow> nvmev_dev option" where
  "admin_handler cmd eid head =
     (if opcode cmd = nvme_admin_delete_sq then admin_delete_sq eid head
      else if opcode cmd = nvme_admin_create_sq then admin_create_sq eid head
      else if opcode cmd = nvme_admin_get_log_page then admin_get_log_page eid head
      else if opcode cmd = nvme_admin_delete_cq then admin_delete_cq eid head
      else if opcode cmd = nvme_admin_create_cq then admin_create_cq eid head
      else if opcode cmd = nvme_admin_identify then
        (if identify_cns cmd = 1 then admin_identify_ctrl eid head else admin_identify_namespace eid head)
      else if opcode cmd = nvme_admin_abort_cmd then Some
      else if opcode cmd = nvme_admin_set_features then admin_set_features eid head
      else if opcode cmd = nvme_admin_get_features then admin_get_features eid head
      else if opcode cmd = nvme_admin_async_event then admin_async_event eid head
      else Some \<circ> dev_log ''admin.c'' 341)"

text \<open>The head and the phase after an entry.\<close>

definition aq_next :: "nvmev_admin_queue \<Rightarrow> nvmev_admin_queue" where
  "aq_next q = (if aq_cq_head q + 1 = aq_cq_depth q
     then q\<lparr>aq_phase := (if aq_phase q = 0 then 1 else 0), aq_cq_head := 0\<rparr>
     else q\<lparr>aq_cq_head := aq_cq_head q + 1\<rparr>)"

definition proc_admin_req :: "int \<Rightarrow> nvmev_dev \<Rightarrow> nvmev_dev option" where
  "proc_admin_req eid d = do {
     q \<leftarrow> admin_q d;
     cmd \<leftarrow> aq_command d eid;
     d \<leftarrow> admin_handler cmd eid (aq_cq_head q) d;
     q \<leftarrow> admin_q d;
     Some (d\<lparr>admin_q := Some (aq_next q)\<rparr>)
   }"

primrec proc_admin_sq_loop :: "nat \<Rightarrow> int \<Rightarrow> nvmev_dev \<Rightarrow> nvmev_dev option" where
  "proc_admin_sq_loop 0 eid d = Some d"
| "proc_admin_sq_loop (Suc n) eid d = do {
     d \<leftarrow> proc_admin_req eid d;
     q \<leftarrow> admin_q d;
     proc_admin_sq_loop n (if eid + 1 = aq_sq_depth q then 0 else eid + 1) d
   }"

definition nvmev_proc_admin_sq :: "int \<Rightarrow> int \<Rightarrow> nvmev_dev \<Rightarrow> nvmev_dev option" where
  "nvmev_proc_admin_sq new_db old_db d = do {
     let num_proc = wrap32 (new_db - old_db);
     num_proc \<leftarrow> (if num_proc < 0 then do { q \<leftarrow> admin_q d; Some (num_proc + aq_sq_depth q) } else Some num_proc);
     d \<leftarrow> proc_admin_sq_loop (nat num_proc) old_db d;
     nvmev_signal_irq 0 d
   }"

definition nvmev_proc_admin_cq :: "int \<Rightarrow> int \<Rightarrow> nvmev_dev \<Rightarrow> nvmev_dev option" where
  "nvmev_proc_admin_cq new_db old_db d = Some d"

end
