(* ===== verification/Dispatcher.thy ===== *)
theory Dispatcher
  imports Admin PCI
begin

text \<open>
  \<^verbatim>\<open>main.c\<close>: the dispatcher's loop over registers and doorbells, the parameters of the module and
  their validation, the files under \<^verbatim>\<open>/proc/nvmev\<close>, and the initialisation of the module.
\<close>

section \<open>Doorbells\<close>

text \<open>One doorbell: when it differs from the copy it is handled and copied.\<close>

definition proc_db :: "nat \<Rightarrow> (int \<Rightarrow> int \<Rightarrow> nvmev_dev \<Rightarrow> nvmev_dev option) \<Rightarrow> nvmev_dev \<Rightarrow> nvmev_dev option" where
  "proc_db idx handle d = do {
     new_db \<leftarrow> arr_get (dbs d) idx;
     old_db \<leftarrow> arr_get (old_dbs d) idx;
     if new_db \<noteq> old_db then do {
       d \<leftarrow> handle (int_of_u32 new_db) (int_of_u32 old_db) d;
       olds \<leftarrow> arr_set (old_dbs d) idx new_db;
       Some (d\<lparr>old_dbs := olds\<rparr>)
     } else Some d
   }"

definition proc_sq_db :: "nat \<Rightarrow> nvmev_dev \<Rightarrow> nvmev_dev option" where
  "proc_sq_db qid d = do {
     q \<leftarrow> arr_get (sqes d) qid;
     if q = None then Some d else proc_db (qid * 2) (nvmev_proc_io_sq (int qid)) d
   }"

definition proc_cq_db :: "nat \<Rightarrow> nvmev_dev \<Rightarrow> nvmev_dev option" where
  "proc_cq_db qid d = do {
     q \<leftarrow> arr_get (cqes d) qid;
     if q = None then Some d else proc_db (qid * 2 + 1) (nvmev_proc_io_cq (int qid)) d
   }"

definition nvmev_proc_dbs :: "nvmev_dev \<Rightarrow> nvmev_dev option" where
  "nvmev_proc_dbs d = do {
     d \<leftarrow> proc_db 0 nvmev_proc_admin_sq d;
     d \<leftarrow> proc_db 1 nvmev_proc_admin_cq d;
     d \<leftarrow> foldM proc_sq_db [1..<nat (nr_sq d) + 1] d;
     foldM proc_cq_db [1..<nat (nr_cq d) + 1] d
   }"

text \<open>The dispatcher until it is stopped; what the host does before each round is a function on the device.\<close>

definition dispatcher_round :: "nvmev_dev \<Rightarrow> nvmev_dev option" where
  "dispatcher_round d = do { d \<leftarrow> nvmev_proc_bars d; nvmev_proc_dbs d }"

definition nvmev_dispatcher :: "(nvmev_dev \<Rightarrow> nvmev_dev) list \<Rightarrow> nvmev_dev \<Rightarrow> nvmev_dev option" where
  "nvmev_dispatcher hosts d = foldM (\<lambda>host d. dispatcher_round (host d)) hosts d"

section \<open>Module parameters\<close>

record module_params =
  mp_memmap_start :: u64
  mp_memmap_size :: u64
  mp_read_time :: u32
  mp_read_delay :: u32
  mp_read_trailing :: u32
  mp_write_time :: u32
  mp_write_delay :: u32
  mp_write_trailing :: u32
  mp_nr_io_units :: u32
  mp_io_unit_shift :: u32
  mp_cpus :: "string option"

text \<open>The types of memory that the code asks \<^verbatim>\<open>e820__mapped_any\<close> about.\<close>

datatype e820_type = E820_TYPE_RAM | E820_TYPE_RESERVED | E820_TYPE_RESERVED_KERN

definition EINVAL :: int where "EINVAL = 22"
definition EPERM :: int where "EPERM = 1"
definition EIO :: int where "EIO = 5"

definition resv_start_bytes :: "module_params \<Rightarrow> u64" where
  "resv_start_bytes mp = push_bit 30 (mp_memmap_start mp)"

definition resv_end_bytes :: "module_params \<Rightarrow> u64" where
  "resv_end_bytes mp = resv_start_bytes mp + push_bit 20 (mp_memmap_size mp) - 1"

text \<open>
  \<^verbatim>\<open>__validate_configs\<close>: the result and the line of \<^verbatim>\<open>main.c\<close> that logs the error. \<open>mapped s e t\<close>
  is what \<^verbatim>\<open>e820__mapped_any\<close> says of the memory from \<open>s\<close> to \<open>e\<close>.
\<close>

definition validate_configs :: "(u64 \<Rightarrow> u64 \<Rightarrow> e820_type \<Rightarrow> bool) \<Rightarrow> module_params \<Rightarrow> int \<times> nat option" where
  "validate_configs mapped mp =
     (let s = resv_start_bytes mp; e = resv_end_bytes mp in
      if mp_memmap_start mp = 0 then (- EINVAL, Some 193)
      else if mp_memmap_size mp = 0 then (- EINVAL, Some 198)
      else if mp_memmap_size mp = 1 then (- EINVAL, Some 202)
      else if mapped s e E820_TYPE_RAM \<or> mapped s e E820_TYPE_RESERVED_KERN then (- EPERM, Some 211)
      else if \<not> mapped s e E820_TYPE_RESERVED then (- EPERM, Some 218)
      else if mp_nr_io_units mp = 0 \<or> mp_io_unit_shift mp = 0 then (- EINVAL, Some 225)
      else if mp_read_time mp = 0 then (- EINVAL, Some 229)
      else if mp_write_time mp = 0 then (- EINVAL, Some 233)
      else (0, None))"

text \<open>The tokens that repeated calls of \<^verbatim>\<open>strsep\<close> with one delimiter give.\<close>

fun strsep_tokens :: "char \<Rightarrow> string \<Rightarrow> string list" where
  "strsep_tokens c [] = [[]]"
| "strsep_tokens c (x # xs) = (if x = c then [] # strsep_tokens c xs
     else (case strsep_tokens c xs of [] \<Rightarrow> [[x]] | t # ts \<Rightarrow> (x # t) # ts))"

definition cpu_tokens :: "string option \<Rightarrow> string list" where
  "cpu_tokens cpus = (case cpus of None \<Rightarrow> [] | Some s \<Rightarrow> strsep_tokens CHR '','' s)"

text \<open>The loop of \<^verbatim>\<open>__load_configs\<close> over the processors; \<open>strtol\<close> is \<^verbatim>\<open>simple_strtol\<close> in base 10.\<close>

fun load_cpus :: "(string \<Rightarrow> int) \<Rightarrow> bool \<Rightarrow> string list \<Rightarrow> nvmev_config \<Rightarrow> nvmev_config option" where
  "load_cpus strtol first [] c = Some c"
| "load_cpus strtol first (t # ts) c = do {
     let cpu_nr = (word_of_int (strtol t) :: u32);
     c \<leftarrow> (if first then Some (c\<lparr>cfg_cpu_nr_dispatcher := cpu_nr\<rparr>)
           else do { cs \<leftarrow> arr_set (cpu_nr_proc_io c) (unat (nr_io_cpu c)) cpu_nr;
                     Some (c\<lparr>cpu_nr_proc_io := cs, nr_io_cpu := nr_io_cpu c + 1\<rparr>) });
     load_cpus strtol False ts c
   }"

definition load_configs ::
  "(u64 \<Rightarrow> u64 \<Rightarrow> e820_type \<Rightarrow> bool) \<Rightarrow> (string \<Rightarrow> int) \<Rightarrow> module_params \<Rightarrow> nvmev_dev \<Rightarrow> (bool \<times> nvmev_dev) option" where
  "load_configs mapped strtol mp d =
     (case validate_configs mapped mp of
        (r, Some line) \<Rightarrow> Some (False, dev_log ''main.c'' line d)
      | (r, None) \<Rightarrow> do {
          let c = config d;
          let c = c\<lparr>memmap_start := push_bit 30 (mp_memmap_start mp), memmap_size := push_bit 20 (mp_memmap_size mp)\<rparr>;
          let c = c\<lparr>storage_start := memmap_start c + push_bit 20 1,
                    storage_size := push_bit 20 (mp_memmap_size mp - 1)\<rparr>;
          let c = c\<lparr>read_time := mp_read_time mp, read_delay := mp_read_delay mp, read_trailing := mp_read_trailing mp,
                    write_time := mp_write_time mp, write_delay := mp_write_delay mp,
                    write_trailing := mp_write_trailing mp, nr_io_units := mp_nr_io_units mp,
                    io_unit_shift := mp_io_unit_shift mp, nr_io_cpu := 0, cfg_cpu_nr_dispatcher := - 1\<rparr>;
          c \<leftarrow> load_cpus strtol True (cpu_tokens (mp_cpus mp)) c;
          Some (True, d\<lparr>config := c\<rparr>)
        })"

text \<open>
  \<^verbatim>\<open>__print_perf_configs\<close>: the numbers it prints. A shift by the width of the type or more and a
  division by zero are undefined.
\<close>

record perf =
  pf_units :: "u32 \<times> u32"
  pf_read :: "u32 \<times> u32 \<times> u32"
  pf_write :: "u32 \<times> u32 \<times> u32"
  pf_read_mib :: u64
  pf_write_mib :: u64

definition bandwidth :: "u32 \<Rightarrow> u64 \<Rightarrow> u64 option" where
  "bandwidth ns unit_kb = (if ns = 0 then None else Some (drop_bit 10 ((1000000000 div ucast ns) * unit_kb)))"

definition print_perf_configs :: "nvmev_dev \<Rightarrow> perf option" where
  "print_perf_configs d = (let c = config d; sh = unat (io_unit_shift c - 10) in
     if 32 \<le> sh \<or> 31 \<le> unat (io_unit_shift c) then None
     else do {
       let unit_kb = (ucast (push_bit sh (nr_io_units c)) :: u64);
       r \<leftarrow> bandwidth (read_time c + read_delay c + read_trailing c) unit_kb;
       w \<leftarrow> bandwidth (write_time c + write_delay c + write_trailing c) unit_kb;
       Some \<lparr>pf_units = (nr_io_units c, push_bit (unat (io_unit_shift c)) 1),
         pf_read = (read_delay c, read_time c, read_trailing c),
         pf_write = (write_delay c, write_time c, write_trailing c), pf_read_mib = r, pf_write_mib = w\<rparr>
     })"

section \<open>The files under /proc/nvmev\<close>

definition get_nr_entries :: "nat \<Rightarrow> int \<Rightarrow> nvmev_dev \<Rightarrow> int option" where
  "get_nr_entries dbs_idx queue_size d = do {
     new_db \<leftarrow> arr_get (dbs d) dbs_idx;
     old_db \<leftarrow> arr_get (old_dbs d) dbs_idx;
     let diff = int_of_u32 (new_db - old_db);
     Some (if diff < 0 then wrap32 (diff + queue_size) else diff)
   }"

text \<open>What a read prints: times, units, or the lines of the statistics with their totals.\<close>

record stat_line =
  sl_qid :: nat
  sl_entries :: int
  sl_in_flight :: u32
  sl_max_in_flight :: u32
  sl_dispatch :: u32
  sl_dispatched :: u32
  sl_total_io :: u64

record stat_total =
  st_in_flight :: u32
  st_dispatch :: u32
  st_dispatched :: u32
  st_total_io :: u64

datatype proc_output = Times u32 u32 u32 | Units u32 u32 | Stats "stat_line list" stat_total | Nothing_printed

definition stat_add :: "nvmev_sq_stat \<Rightarrow> stat_total \<Rightarrow> stat_total" where
  "stat_add st t = \<lparr>st_in_flight = st_in_flight t + nr_in_flight st, st_dispatch = st_dispatch t + nr_dispatch st,
     st_dispatched = st_dispatched t + nr_dispatched st, st_total_io = st_total_io t + total_io st\<rparr>"

text \<open>One round of the loop over the queues; it resets the largest number in flight.\<close>

definition read_stat :: "nat \<Rightarrow> stat_line list \<times> stat_total \<times> nvmev_dev \<Rightarrow> (stat_line list \<times> stat_total \<times> nvmev_dev) option" where
  "read_stat i = (\<lambda>(ls, t, d). do {
     q \<leftarrow> arr_get (sqes d) i;
     (case q of None \<Rightarrow> Some (ls, t, d)
      | Some sq \<Rightarrow> do {
          n \<leftarrow> get_nr_entries (i * 2) (sq_queue_size sq) d;
          let st = sq_stat sq;
          Some (ls @ [\<lparr>sl_qid = i, sl_entries = n, sl_in_flight = nr_in_flight st,
                       sl_max_in_flight = max_nr_in_flight st, sl_dispatch = nr_dispatch st,
                       sl_dispatched = nr_dispatched st, sl_total_io = total_io st\<rparr>],
                stat_add st t, put_sq d (int i) (sq\<lparr>sq_stat := st\<lparr>max_nr_in_flight := 0\<rparr>\<rparr>))
        })
   })"

definition proc_file_read :: "string \<Rightarrow> nvmev_dev \<Rightarrow> (proc_output \<times> nvmev_dev) option" where
  "proc_file_read filename d =
     (let c = config d in
      if filename = ''read_times'' then Some (Times (read_delay c) (read_time c) (read_trailing c), d)
      else if filename = ''write_times'' then Some (Times (write_delay c) (write_time c) (write_trailing c), d)
      else if filename = ''io_units'' then Some (Units (nr_io_units c) (io_unit_shift c), d)
      else if filename = ''stat'' then do {
        (ls, t, d) \<leftarrow> foldM read_stat [1..<nat (nr_sq d) + 1]
          ([], \<lparr>st_in_flight = 0, st_dispatch = 0, st_dispatched = 0, st_total_io = 0\<rparr>, d);
        Some (Stats ls t, d)
      } else Some (Nothing_printed, d))"

text \<open>The numbers that \<^verbatim>\<open>sscanf\<close> converts are stored one after the other; the rest keep their values.\<close>

definition conv :: "u32 list \<Rightarrow> nat \<Rightarrow> u32 \<Rightarrow> u32" where
  "conv vs i old = (if i < length vs then vs ! i else old)"

definition clear_stat :: "nat \<Rightarrow> nvmev_dev \<Rightarrow> nvmev_dev option" where
  "clear_stat i d = do {
     q \<leftarrow> arr_get (sqes d) i;
     (case q of None \<Rightarrow> Some d
      | Some sq \<Rightarrow> Some (put_sq d (int i) (sq\<lparr>sq_stat :=
          \<lparr>nr_dispatched = 0, nr_dispatch = 0, nr_in_flight = 0, max_nr_in_flight = 0, total_io = 0\<rparr>\<rparr>)))
   }"

text \<open>
  \<open>vs\<close> are the numbers that \<^verbatim>\<open>sscanf\<close> finds in what was written. The clearing of the statistics stops
  no request, and the printing of the configuration at the end may fault.
\<close>

definition proc_file_write :: "string \<Rightarrow> u32 list \<Rightarrow> nvmev_dev \<Rightarrow> nvmev_dev option" where
  "proc_file_write filename vs d = do {
     let c = config d;
     d \<leftarrow> (if filename = ''read_times'' then do {
            let c = c\<lparr>read_delay := conv vs 0 (read_delay c), read_time := conv vs 1 (read_time c),
                      read_trailing := conv vs 2 (read_trailing c)\<rparr>;
            Some (d\<lparr>config := c, dev_ftl := adjust_ftl_latency 0 (int_of_u32 (read_time c)) (dev_ftl d)\<rparr>)
          } else if filename = ''write_times'' then do {
            let c = c\<lparr>write_delay := conv vs 0 (write_delay c), write_time := conv vs 1 (write_time c),
                      write_trailing := conv vs 2 (write_trailing c)\<rparr>;
            Some (d\<lparr>config := c, dev_ftl := adjust_ftl_latency 1 (int_of_u32 (write_time c)) (dev_ftl d)\<rparr>)
          } else if filename = ''io_units'' then do {
            let c = c\<lparr>nr_io_units := conv vs 0 (nr_io_units c), io_unit_shift := conv vs 1 (io_unit_shift c)\<rparr>;
            Some (if vs = [] then d\<lparr>config := c\<rparr>
                  else d\<lparr>config := c, io_unit_stat := replicate (unat (nr_io_units c)) 0\<rparr>)
          } else if filename = ''stat'' then foldM clear_stat [1..<nat (nr_sq d) + 1] d
          else Some d);
     p \<leftarrow> print_perf_configs d;
     Some d
   }"

section \<open>Initialisation of the module\<close>

text \<open>\<open>st\<close> is the memory that \<^verbatim>\<open>memremap\<close> maps.\<close>

definition NVMEV_STORAGE_INIT :: "storage \<Rightarrow> nvmev_dev \<Rightarrow> nvmev_dev" where
  "NVMEV_STORAGE_INIT st d =
     d\<lparr>io_unit_stat := replicate (unat (nr_io_units (config d))) 0, storage_mapped := st\<rparr>"

text \<open>
  The environment of the module: what the memory map, the parser of numbers, the PCI core and the
  mapping of the storage give.
\<close>

record kernel =
  k_mapped :: "u64 \<Rightarrow> u64 \<Rightarrow> e820_type \<Rightarrow> bool"
  k_strtol :: "string \<Rightarrow> int"
  k_regs :: pci_regs
  k_apics :: "u32 list"
  k_found :: "nat option"
  k_storage :: storage

text \<open>\<^verbatim>\<open>NVMeV_init\<close> up to the creation of the dispatcher's thread.\<close>

definition NVMeV_init :: "kernel \<Rightarrow> module_params \<Rightarrow> nvmev_dev \<Rightarrow> (int \<times> nvmev_dev) option" where
  "NVMeV_init k mp d = do {
     (ok, d) \<leftarrow> load_configs (k_mapped k) (k_strtol k) mp (VDEV_INIT d);
     if \<not> ok then Some (- EIO, d)
     else do {
       (tmp, s) \<leftarrow> ssd_init (cfg_cpu_nr_dispatcher (config d)) (storage_size (config d)) (dev_ftl d);
       let d = d\<lparr>dev_ftl := s, config := (config d)\<lparr>storage_size := tmp - tmp mod of_nat PAGE_SIZE\<rparr>\<rparr>;
       (ok, d) \<leftarrow> NVMEV_PCI_INIT (k_regs k) (k_apics k) (k_found k) d;
       if \<not> ok then Some (- EIO, d)
       else do {
         p \<leftarrow> print_perf_configs d;
         d \<leftarrow> NVMEV_IO_PROC_INIT (NVMEV_STORAGE_INIT (k_storage k) d);
         Some (0, d)
       }
     }
   }"

end
