(* ===== verification/Doorbell_Props.thy ===== *)
theory Doorbell_Props
  imports Dispatch_Props Dispatcher Data_Props CQ_Props
begin

text \<open>
  The doorbells: a pass over the doorbells of the completion queues, what a doorbell beyond the
  queue does, and a whole pass of the dispatcher over the doorbells of all queues.
\<close>

section \<open>Completion queues\<close>

text \<open>The slots from one doorbell value up to another, around the end of a ring of \<open>Q\<close> slots.\<close>

definition taken_slots :: "int \<Rightarrow> int \<Rightarrow> int \<Rightarrow> int list" where
  "taken_slots old new Q = (if old \<le> new then [old..new - 1] else [old..Q - 1] @ [0..new - 1])"

lemma taken_slots_range:
  "0 \<le> old \<Longrightarrow> old < Q \<Longrightarrow> 0 \<le> new \<Longrightarrow> new \<le> Q \<Longrightarrow> \<forall>i\<in>set (taken_slots old new Q). i \<in> {0..<Q}"
  by (auto simp: taken_slots_def)

definition reap_one :: "int \<Rightarrow> int \<Rightarrow> nvmev_dev \<Rightarrow> nvmev_dev option" where
  "reap_one cqid i d = do {
     cq \<leftarrow> cq_of d cqid;
     a \<leftarrow> cq_entry (cq_cq cq) i;
     upd_sq_stat (uint (cqe_sq_id (read_completion (dev_mem d) a))) (\<lambda>st. st\<lparr>nr_in_flight := nr_in_flight st - 1\<rparr>) d
   }"

lemma put_sq_cq [simp]: "cq_of (put_sq d q sq) c = cq_of d c"
  by (simp add: put_sq_def cq_of_def)

lemma reap_one_cq: "reap_one cqid i d = Some d' \<Longrightarrow> cq_of d' c = cq_of d c"
  by (auto simp: reap_one_def upd_sq_stat_def split: bind_splits)

lemma cq_loop_up:
  assumes "cq_of d cqid = Some cq" and "i \<le> j" and "j \<le> cq_queue_size cq" and "j \<le> new_db \<or> new_db < i"
  shows "proc_io_cq_loop cqid new_db i d =
    foldM (reap_one cqid) [i..j - 1] d \<bind> proc_io_cq_loop cqid new_db j"
  using assms
proof (induction "nat (j - i)" arbitrary: i d)
  case (Suc n)
  then have ij: "i < j" by simp
  then have l: "[i..j - 1] = i # [i + 1..j - 1]" by (simp add: upto_rec1)
  have "proc_io_cq_loop cqid new_db i d = reap_one cqid i d \<bind> proc_io_cq_loop cqid new_db (i + 1)"
    using Suc.prems ij by (subst proc_io_cq_loop.simps) (auto simp: reap_one_def)
  also have "\<dots> = reap_one cqid i d \<bind> (\<lambda>d'. foldM (reap_one cqid) [i + 1..j - 1] d' \<bind> proc_io_cq_loop cqid new_db j)"
  proof (cases "reap_one cqid i d")
    case (Some d')
    have "proc_io_cq_loop cqid new_db (i + 1) d' =
        foldM (reap_one cqid) [i + 1..j - 1] d' \<bind> proc_io_cq_loop cqid new_db j"
      by (rule Suc.hyps(1)) (use Suc.hyps(2) Suc.prems reap_one_cq [OF Some] ij in auto)
    then show ?thesis using Some by simp
  qed simp
  finally show ?case unfolding l by simp
qed simp

lemma cq_loop_done [simp]: "proc_io_cq_loop cqid n n = Some"
  by (rule ext) (simp add: proc_io_cq_loop.simps [of cqid n n])

lemma cq_loop_slots:
  assumes cq: "cq_of d cqid = Some cq" and "0 \<le> old_db" "old_db < cq_queue_size cq" "0 \<le> new_db" "new_db \<le> cq_queue_size cq"
  shows "proc_io_cq_loop cqid new_db old_db d = foldM (reap_one cqid) (taken_slots old_db new_db (cq_queue_size cq)) d"
proof (cases "old_db \<le> new_db")
  case True
  then show ?thesis
    using cq_loop_up [OF cq, of old_db new_db new_db] assms
    by (simp add: taken_slots_def)
next
  case False
  let ?Q = "cq_queue_size cq"
  have 1: "proc_io_cq_loop cqid new_db old_db d = foldM (reap_one cqid) [old_db..?Q - 1] d \<bind> proc_io_cq_loop cqid new_db ?Q"
    by (rule cq_loop_up [OF cq]) (use assms False in auto)
  have 2: "proc_io_cq_loop cqid new_db ?Q d' = foldM (reap_one cqid) [0..new_db - 1] d'" if "cq_of d' cqid = Some cq" for d'
  proof -
    have "proc_io_cq_loop cqid new_db ?Q d' = proc_io_cq_loop cqid new_db 0 d'"
      using that False assms by (subst proc_io_cq_loop.simps) simp
    also have "\<dots> = foldM (reap_one cqid) [0..new_db - 1] d'"
      using cq_loop_up [OF that, of 0 new_db new_db] assms by simp
    finally show ?thesis .
  qed
  have 3: "cq_of d' cqid = Some cq" if "foldM (reap_one cqid) xs d = Some d'" "cq_of d cqid = Some cq" for xs d d'
    using that by (induction xs arbitrary: d) (auto simp: reap_one_cq split: bind_splits)
  show ?thesis
    using 1 2 3 [OF _ cq] False
    by (cases "foldM (reap_one cqid) [old_db..?Q - 1] d") (simp_all add: taken_slots_def foldM_append)
qed

text \<open>A doorbell beyond the queue is never reached: the loop runs for ever.\<close>

lemma cq_loop_beyond:
  assumes "proc_io_cq_loop cqid new_db i d = Some d'" and "0 \<le> cq_queue_size cq"
  shows "\<not> (cq_of d cqid = Some cq \<and> cq_queue_size cq < new_db \<and> i \<le> cq_queue_size cq)"
proof (rule proc_io_cq_loop.raw_induct [where P = "\<lambda>cqid new_db i d d'.
    \<not> (cq_of d cqid = Some cq \<and> cq_queue_size cq < new_db \<and> i \<le> cq_queue_size cq)", OF _ assms(1)])
  fix f cqid new_db i d d'
  assume IH: "\<And>cqid new_db i d d'. f cqid new_db i d = Some d' \<Longrightarrow>
      \<not> (cq_of d cqid = Some cq \<and> cq_queue_size cq < new_db \<and> i \<le> cq_queue_size cq)"
    and run: "(if i = new_db then Some d
      else do {
        cq \<leftarrow> cq_of d cqid;
        if cq_queue_size cq \<le> i then f cqid new_db 0 d
        else do {
          a \<leftarrow> cq_entry (cq_cq cq) i;
          d \<leftarrow> upd_sq_stat (uint (cqe_sq_id (read_completion (dev_mem d) a)))
                 (\<lambda>st. st\<lparr>nr_in_flight := nr_in_flight st - 1\<rparr>) d;
          f cqid new_db (i + 1) d
        }
      }) = Some d'"
  show "\<not> (cq_of d cqid = Some cq \<and> cq_queue_size cq < new_db \<and> i \<le> cq_queue_size cq)"
  proof
    assume a: "cq_of d cqid = Some cq \<and> cq_queue_size cq < new_db \<and> i \<le> cq_queue_size cq"
    show False
    proof (cases "cq_queue_size cq \<le> i")
      case True
      then have "f cqid new_db 0 d = Some d'" using run a by (simp split: if_splits)
      then show False using IH a assms(2) by blast
    next
      case False
      then obtain d1 where "reap_one cqid i d = Some d1" "f cqid new_db (i + 1) d1 = Some d'"
        using run a by (auto simp: reap_one_def split: bind_splits if_splits)
      then show False using IH [of cqid new_db "i + 1" d1 d'] a False reap_one_cq by simp
    qed
  qed
qed

text \<open>How the statistics change: one request less in flight for every completion of the queue.\<close>

definition reaped :: "nat \<Rightarrow> nvmev_submission_queue \<Rightarrow> nvmev_submission_queue" where
  "reaped n sq = sq\<lparr>sq_stat := (sq_stat sq)\<lparr>nr_in_flight := nr_in_flight (sq_stat sq) - of_nat n\<rparr>\<rparr>"

definition cqe_owner :: "phys \<Rightarrow> u64 \<Rightarrow> int \<Rightarrow> int" where
  "cqe_owner m p i = uint (cqe_sq_id (read_completion m (cq_slot p (nat i))))"

definition reap_frame :: "nvmev_dev \<Rightarrow> nvmev_dev \<Rightarrow> bool" where
  "reap_frame d d' \<longleftrightarrow> (\<exists>qs. d' = d\<lparr>sqes := qs\<rparr> \<and> length qs = length (sqes d))"

lemma reap_loop:
  assumes "cq_of d cqid = Some cq" and "cq_ok cq p Q" and "\<forall>i\<in>set xs. 0 \<le> i \<and> i < int Q"
    and "\<forall>i\<in>set xs. sq_of d (cqe_owner (dev_mem d) p i) \<noteq> None"
  shows "returns (foldM (reap_one cqid) xs d) (\<lambda>d'. reap_frame d d' \<and>
    (\<forall>q. sq_of d' q = map_option (reaped (length (filter (\<lambda>i. cqe_owner (dev_mem d) p i = q) xs))) (sq_of d q)))"
  using assms
proof (induction xs arbitrary: d)
  case Nil
  have "reaped 0 = id" by (rule ext) (simp add: reaped_def)
  then show ?case by (auto simp: reap_frame_def option.map_ident intro!: exI [of _ "sqes d"])
next
  case (Cons i xs)
  let ?o = "cqe_owner (dev_mem d) p i"
  obtain sq where sq: "sq_of d ?o = Some sq" using Cons.prems(4) by auto
  obtain n where n: "cq_cq cq = page_list p n" "Q \<le> 256 * n" using Cons.prems(2) by (auto simp: cq_ok_def)
  have i: "0 \<le> i" "nat i < Q" using Cons.prems(3) by auto
  have a: "cq_entry (cq_cq cq) i = Some (cq_slot p (nat i))" using cq_entry_slot [of "nat i" n p] n i by simp
  let ?d = "put_sq d ?o (reaped (Suc 0) sq)"
  have one: "reap_one cqid i d = Some ?d"
    using Cons.prems(1) a upd_sq_stat_eq(1) [OF sq] by (simp add: reap_one_def cqe_owner_def reaped_def)
  have at: "sq_of ?d q = (if q = ?o then Some (reaped (Suc 0) sq) else sq_of d q)" for q
    using upd_sq_stat_eq(2,3) [OF sq] by simp
  have fr: "reap_frame d d'" if "reap_frame ?d d'" for d'
    using that by (auto simp: reap_frame_def put_sq_def)
  have twice: "reaped k (reaped (Suc 0) sq) = reaped (Suc k) sq" for k by (simp add: reaped_def algebra_simps)
  have "returns (foldM (reap_one cqid) xs ?d) (\<lambda>d'. reap_frame ?d d' \<and>
    (\<forall>q. sq_of d' q = map_option (reaped (length (filter (\<lambda>i. cqe_owner (dev_mem ?d) p i = q) xs))) (sq_of ?d q)))"
    by (rule Cons.IH) (use Cons.prems at in auto)
  then show ?case using one fr by (auto simp: at sq twice elim!: returns_mono)
qed

lemma proc_io_cq_ok:
  assumes "cq_of d cqid = Some cq" and "cq_ok cq p Q" and "0 \<le> old_db" and "old_db < int Q" and "0 \<le> new_db"
    and "new_db \<le> int Q"
    and "\<forall>i\<in>set (taken_slots old_db new_db (int Q)). sq_of d (cqe_owner (dev_mem d) p i) \<noteq> None"
  shows "returns (nvmev_proc_io_cq cqid new_db old_db d) (\<lambda>d'.
    (\<exists>qs. d' = (put_cq d cqid (cq\<lparr>cq_tail := new_db - 1\<rparr>))\<lparr>sqes := qs\<rparr> \<and> length qs = length (sqes d)) \<and>
    (\<forall>q. sq_of d' q = map_option (reaped (length (filter (\<lambda>i. cqe_owner (dev_mem d) p i = q)
      (taken_slots old_db new_db (int Q))))) (sq_of d q)))"
proof -
  have Q: "cq_queue_size cq = int Q" using assms(2) by (simp add: cq_ok_def)
  let ?xs = "taken_slots old_db new_db (int Q)"
  have xs: "\<forall>i\<in>set ?xs. 0 \<le> i \<and> i < int Q" using taken_slots_range [OF assms(3-6)] by simp
  obtain d1 where 1: "foldM (reap_one cqid) ?xs d = Some d1" "reap_frame d d1"
    "\<And>q. sq_of d1 q = map_option (reaped (length (filter (\<lambda>i. cqe_owner (dev_mem d) p i = q) ?xs))) (sq_of d q)"
    using reap_loop [OF assms(1,2) xs assms(7)] by (auto elim!: returnsE)
  obtain qs where qs: "d1 = d\<lparr>sqes := qs\<rparr>" "length qs = length (sqes d)" using 1(2) by (auto simp: reap_frame_def)
  have loop: "proc_io_cq_loop cqid new_db old_db d = Some d1"
    using cq_loop_slots [OF assms(1)] assms(3-6) 1(1) by (simp add: Q)
  have cq1: "cq_of d1 cqid = Some cq" using assms(1) qs(1) by (simp add: cq_of_def)
  have run: "nvmev_proc_io_cq cqid new_db old_db d = Some (put_cq d1 cqid (cq\<lparr>cq_tail := new_db - 1\<rparr>))"
    using loop cq1 assms(5) by (simp add: nvmev_proc_io_cq_def)
  have eq: "put_cq d1 cqid (cq\<lparr>cq_tail := new_db - 1\<rparr>) = (put_cq d cqid (cq\<lparr>cq_tail := new_db - 1\<rparr>))\<lparr>sqes := qs\<rparr>"
    using qs(1) by (simp add: put_cq_def)
  have sqof: "sq_of (put_cq d1 cqid c) q = sq_of d1 q" for c q by (simp add: put_cq_def sq_of_def)
  have "\<forall>q. sq_of (put_cq d1 cqid (cq\<lparr>cq_tail := new_db - 1\<rparr>)) q =
      map_option (reaped (length (filter (\<lambda>i. cqe_owner (dev_mem d) p i = q) ?xs))) (sq_of d q)"
    unfolding sqof 1(3) by simp
  then show ?thesis using eq qs(2) by (intro returnsI [OF run]) blast
qed

text \<open>C30. The doorbell of a completion queue: when the host moves it within the queue, around the end or not,
  the loop over the completions that it has taken ends, each of them takes one request in flight off
  the submission queue that it names, the tail follows the doorbell and nothing else changes. A
  doorbell beyond the end of the queue is never reached, so that the dispatcher hangs.\<close>

theorem nvmev_proc_io_cq_correct:
  assumes "cq_of d cqid = Some cq" and "cq_ok cq p Q" and "0 \<le> old_db" and "old_db < int Q" and "0 \<le> new_db"
    and "\<forall>i\<in>{0..<int Q}. sq_of d (cqe_owner (dev_mem d) p i) \<noteq> None"
  shows "if new_db \<le> int Q then
      returns (nvmev_proc_io_cq cqid new_db old_db d) (\<lambda>d'.
        (\<exists>qs. d' = (put_cq d cqid (cq\<lparr>cq_tail := new_db - 1\<rparr>))\<lparr>sqes := qs\<rparr>) \<and>
        (\<forall>q. sq_of d' q = map_option (reaped (length (filter (\<lambda>i. cqe_owner (dev_mem d) p i = q)
          (taken_slots old_db new_db (int Q))))) (sq_of d q)))
    else nvmev_proc_io_cq cqid new_db old_db d = None"
proof (cases "new_db \<le> int Q")
  case True
  have "\<forall>i\<in>set (taken_slots old_db new_db (int Q)). sq_of d (cqe_owner (dev_mem d) p i) \<noteq> None"
    using taken_slots_range [OF assms(3-5) True] assms(6) by blast
  from proc_io_cq_ok [OF assms(1-5) True this] show ?thesis using True by (auto elim!: returns_mono)
next
  case False
  have "cq_queue_size cq = int Q" using assms(2) by (simp add: cq_ok_def)
  then have "proc_io_cq_loop cqid new_db old_db d = None"
    using cq_loop_beyond [of cqid new_db old_db d _ cq] assms(1,4) False
    by (cases "proc_io_cq_loop cqid new_db old_db d") auto
  then show ?thesis using False by (simp add: nvmev_proc_io_cq_def)
qed

theorem nvmev_proc_io_cq_correct_witness:
  "returns (nvmev_proc_io_cq 1 1 3 ((demo_dev (blank tiny_sp))\<lparr>dev_mem := (\<lambda>_. 0), sqes := [Some demo_sq]\<rparr>))
    (\<lambda>d'. map_option (nr_in_flight \<circ> sq_stat) (sq_of d' 0) = Some (- 2))"
proof -
  let ?d = "(demo_dev (blank tiny_sp))\<lparr>dev_mem := (\<lambda>_. 0), sqes := [Some demo_sq]\<rparr>"
  have o: "cqe_owner (\<lambda>_. 0) p i = 0" for p i
    by (simp add: cqe_owner_def read_completion_def rd16_def rd32_def cat16_def)
  have "[3..3] = [3 :: int]" "[0..0] = [0 :: int]" by (simp_all add: upto_rec1)
  then have t: "taken_slots 3 1 4 = [3, 0]" by (simp add: taken_slots_def)
  have sq: "sq_of ?d 0 = Some demo_sq" by (simp add: sq_of_def get_queue_def)
  have cq: "cq_of ?d 1 = Some demo_cq" by (simp add: cq_of_def get_queue_def demo_dev_def)
  have m: "dev_mem ?d = (\<lambda>_. 0)" by simp
  have "\<forall>i\<in>{0..<int 4}. sq_of ?d (cqe_owner (dev_mem ?d) 0x11000 i) \<noteq> None" unfolding m o sq by simp
  from nvmev_proc_io_cq_correct [OF cq demo_cq_ok, of 3 1, OF _ _ _ this]
  have "returns (nvmev_proc_io_cq 1 1 3 ?d) (\<lambda>d'. sq_of d' 0 = Some (reaped 2 demo_sq))"
    unfolding m o using sq t by (auto elim!: returns_mono simp: numeral_2_eq_2)
  then show ?thesis by (auto elim!: returns_mono simp: reaped_def demo_sq_def)
qed

section \<open>A pass over the doorbells\<close>

definition sq_db_ok :: "nat \<Rightarrow> nvmev_dev \<Rightarrow> nat \<Rightarrow> bool" where
  "sq_db_ok K d q \<longleftrightarrow> q < length (sqes d) \<and> 2 * q < length (dbs d) \<and>
     (case sqes d ! q of None \<Rightarrow> True
      | Some sq \<Rightarrow> slots_ok d (int q) sq K \<and> sq_queue_size sq \<le> 65536 \<and>
          int (unat (dbs d ! (2 * q))) < sq_queue_size sq \<and> int (unat (old_dbs d ! (2 * q))) < sq_queue_size sq)"

definition cq_db_ok :: "nvmev_dev \<Rightarrow> nat \<Rightarrow> bool" where
  "cq_db_ok d q \<longleftrightarrow> q < length (cqes d) \<and> 2 * q + 1 < length (dbs d) \<and>
     (case cqes d ! q of None \<Rightarrow> True
      | Some cq \<Rightarrow> \<exists>p Q. cq_ok cq p Q \<and> unat (dbs d ! (2 * q + 1)) < Q \<and> unat (old_dbs d ! (2 * q + 1)) < Q \<and>
          (\<forall>i\<in>{0..<int Q}. sq_of d (cqe_owner (dev_mem d) p i) \<noteq> None))"

text \<open>The commands that wait behind the doorbell of queue \<open>q\<close>.\<close>

definition sq_pending :: "nvmev_dev \<Rightarrow> nat \<Rightarrow> nvmev_submission_queue \<Rightarrow> int" where
  "sq_pending d q sq = (int (unat (dbs d ! (2 * q))) - int (unat (old_dbs d ! (2 * q)))) mod sq_queue_size sq"

definition pending_slots :: "nvmev_dev \<Rightarrow> nat \<Rightarrow> nvmev_submission_queue \<Rightarrow> int list" where
  "pending_slots d q sq = doorbell_slots (sq_queue_size sq) (int (unat (old_dbs d ! (2 * q)))) (int (unat (dbs d ! (2 * q))))"

text \<open>The requests that they become: queue, completion queue, slot and command identifier of each.\<close>

definition pending_requests :: "nvmev_dev \<Rightarrow> nat \<Rightarrow> (int \<times> int \<times> int \<times> u32) multiset" where
  "pending_requests d q = (case sq_of d (int q) of None \<Rightarrow> {#}
     | Some sq \<Rightarrow> mset (map (request_at d (int q)) (pending_slots d q sq)))"

text \<open>Exactly the requests \<open>R\<close> are entered, while there is room for them.\<close>

definition requests_entered :: "nvmev_dev \<Rightarrow> nvmev_dev \<Rightarrow> (int \<times> int \<times> int \<times> u32) multiset \<Rightarrow> bool" where
  "requests_entered d d' R \<longleftrightarrow> (\<forall>r. has_room (size R + r) d \<longrightarrow> has_room r d' \<and> waiting d' = waiting d + R)"

lemma entered_trans:
  assumes "requests_entered d d' R" and "requests_entered d' d'' S"
  shows "requests_entered d d'' (R + S)"
  unfolding requests_entered_def
proof (intro allI impI)
  fix r assume "has_room (size (R + S) + r) d"
  then have "has_room (size R + (size S + r)) d" by (simp add: add.assoc)
  then show "has_room r d'' \<and> waiting d'' = waiting d + (R + S)"
    using assms unfolding requests_entered_def by (metis add.assoc)
qed

lemma entered_none: "proc_info d' = proc_info d \<Longrightarrow> config d' = config d \<Longrightarrow> requests_entered d d' {#}"
  using waiting_cong [of d' d] by (simp add: requests_entered_def)

lemma int_of_small: "unat (w :: u32) < 65536 \<Longrightarrow> int_of_u32 w = int (unat w)"
  using int_of_u32_of_nat [of "unat w"] by simp

lemma sq_of_nth: "q < length (sqes d) \<Longrightarrow> sq_of d (int q) = sqes d ! q"
  by (simp add: sq_of_def get_queue_def)

lemma cq_of_nth: "q < length (cqes d) \<Longrightarrow> cq_of d (int q) = cqes d ! q"
  by (simp add: cq_of_def get_queue_def)

definition sq_handled :: "nvmev_dev \<Rightarrow> nvmev_dev \<Rightarrow> nat \<Rightarrow> bool" where
  "sq_handled d d' q \<longleftrightarrow> (\<forall>sq. sq_of d (int q) = Some sq \<longrightarrow> old_dbs d' ! (2 * q) = dbs d ! (2 * q) \<and>
     (\<exists>sq'. sq_of d' (int q) = Some sq' \<and>
        nr_dispatched (sq_stat sq') = nr_dispatched (sq_stat sq) + of_int (sq_pending d q sq)))"

definition db_frame :: "nvmev_dev \<Rightarrow> nvmev_dev \<Rightarrow> bool" where
  "db_frame d d' \<longleftrightarrow> ssd_klog (dev_ftl d') = ssd_klog (dev_ftl d) \<and> dev_mem d' = dev_mem d \<and> config d' = config d \<and>
     dbs d' = dbs d \<and> length (old_dbs d') = length (old_dbs d) \<and> nr_sq d' = nr_sq d \<and> nr_cq d' = nr_cq d \<and>
     length (sqes d') = length (sqes d) \<and> (\<forall>q. (sq_of d' q = None) = (sq_of d q = None))"

lemma proc_sq_db_ok:
  assumes inv: "dispatch_inv n K d" and ok: "sq_db_ok K d q" and len: "length (old_dbs d) = length (dbs d)"
  shows "returns (proc_sq_db q d) (\<lambda>d'. dispatch_inv n K d' \<and> db_frame d d' \<and> cqes d' = cqes d \<and> sq_handled d d' q \<and>
    requests_entered d d' (pending_requests d q) \<and>
    (\<forall>q'. q' \<noteq> int q \<longrightarrow> sq_of d' q' = sq_of d q') \<and> (\<forall>i. i \<noteq> 2 * q \<longrightarrow> old_dbs d' ! i = old_dbs d ! i))"
proof (cases "sqes d ! q")
  case None
  then show ?thesis
    using inv ok sq_of_nth [of q d] by (simp add: proc_sq_db_def sq_db_ok_def db_frame_def sq_handled_def pending_requests_def entered_none)
next
  case (Some sq)
  note O = ok [unfolded sq_db_ok_def Some, simplified]
  have sq: "sq_of d (int q) = Some sq" using Some O sq_of_nth by simp
  let ?new = "dbs d ! (2 * q)" and ?old = "old_dbs d ! (2 * q)"
  have "uint ?new < 65536" "uint ?old < 65536" using O by linarith+
  then have small: "unat ?new < 65536" "unat ?old < 65536"
    using of_nat_less_iff [of "unat ?new" 65536, where 'a = int] of_nat_less_iff [of "unat ?old" 65536, where 'a = int]
    by simp_all
  show ?thesis
  proof (cases "?new = ?old")
    case True
    then have "sq_pending d q sq = 0" by (simp add: sq_pending_def)
    then have "sq_handled d d q" using sq True by (simp add: sq_handled_def)
    moreover have "proc_sq_db q d = Some d" using Some O len True by (simp add: proc_sq_db_def proc_db_def mult.commute)
    moreover have "pending_requests d q = {#}"
      using sq True by (simp add: pending_requests_def pending_slots_def doorbell_slots_def)
    ultimately show ?thesis using inv by (simp add: db_frame_def entered_none)
  next
    case False
    have rng: "0 \<le> int (unat ?old)" "int (unat ?old) < sq_queue_size sq" "0 \<le> int (unat ?new)"
      "int (unat ?new) < sq_queue_size sq" using O by simp_all
    note P = proc_io_sq_ok [OF inv sq O [THEN conjunct2, THEN conjunct2, THEN conjunct1]
      O [THEN conjunct2, THEN conjunct2, THEN conjunct2, THEN conjunct1] rng]
    obtain d1 sq' where 1: "nvmev_proc_io_sq (int q) (int (unat ?new)) (int (unat ?old)) d = Some d1"
      "dispatch_inv n K d1" "batch_done d d1 (int q)" "sq_of d1 (int q) = Some sq'"
      "nr_dispatched (sq_stat sq') = nr_dispatched (sq_stat sq) + of_int (sq_pending d q sq)"
      "\<forall>r. has_room (length (pending_slots d q sq) + r) d \<longrightarrow> has_room r d1 \<and>
        waiting d1 = waiting d + mset (map (request_at d (int q)) (pending_slots d q sq))"
      unfolding sq_pending_def pending_slots_def by (rule returnsE [OF P]) blast
    note B = 1(3) [unfolded batch_done_def]
    let ?d' = "d1\<lparr>old_dbs := (old_dbs d1)[2 * q := ?new]\<rparr>"
    have run: "proc_sq_db q d = Some ?d'"
      using Some O len False small 1(1) B
      by (simp add: proc_sq_db_def proc_db_def int_of_small mult.commute)
    have s: "sq_of ?d' x = sq_of d1 x" for x by (simp add: sq_of_def)
    have "(sq_of ?d' x = None) = (sq_of d x = None)" for x
      using B 1(4) sq unfolding s by (cases "x = int q") auto
    moreover have "dispatch_inv n K ?d'" using 1(2) by (simp add: dispatch_inv_def tables_ok_def)
    moreover have "sq_handled d ?d' q" using sq 1(4,5) O len B unfolding sq_handled_def s by simp
    moreover have "requests_entered d ?d' (pending_requests d q)"
      using 1(6) sq waiting_cong [of ?d' d1] by (simp add: requests_entered_def pending_requests_def)
    ultimately show ?thesis
      by (intro returnsI [OF run]) (use B s in \<open>simp add: db_frame_def\<close>)
  qed
qed

lemma proc_cq_db_ok:
  assumes inv: "dispatch_inv n K d" and ok: "cq_db_ok d q" and len: "length (old_dbs d) = length (dbs d)"
  shows "returns (proc_cq_db q d) (\<lambda>d'. dispatch_inv n K d' \<and> db_frame d d' \<and> length (cqes d') = length (cqes d) \<and>
    proc_info d' = proc_info d \<and>
    (cqes d ! q \<noteq> None \<longrightarrow> old_dbs d' ! (2 * q + 1) = dbs d ! (2 * q + 1)) \<and>
    (\<forall>q'. q' \<noteq> q \<longrightarrow> cqes d' ! q' = cqes d ! q') \<and> (\<forall>i. i \<noteq> 2 * q + 1 \<longrightarrow> old_dbs d' ! i = old_dbs d ! i) \<and>
    (\<forall>x. map_option (\<lambda>sq. nr_dispatched (sq_stat sq)) (sq_of d' x) =
      map_option (\<lambda>sq. nr_dispatched (sq_stat sq)) (sq_of d x)))"
proof (cases "cqes d ! q")
  case None
  then show ?thesis using inv ok by (simp add: proc_cq_db_def cq_db_ok_def db_frame_def)
next
  case (Some cq)
  let ?new = "dbs d ! (2 * q + 1)" and ?old = "old_dbs d ! (2 * q + 1)"
  have b: "q < length (cqes d)" "2 * q + 1 < length (dbs d)" using ok by (simp_all add: cq_db_ok_def)
  obtain p Q where O: "cq_ok cq p Q" "unat ?new < Q" "unat ?old < Q"
    "\<forall>i\<in>{0..<int Q}. sq_of d (cqe_owner (dev_mem d) p i) \<noteq> None"
    using ok Some by (auto simp: cq_db_ok_def)
  have cq: "cq_of d (int q) = Some cq" using Some b cq_of_nth by simp
  have "Q \<le> 65536" using O(1) by (simp add: cq_ok_def)
  then have small: "unat ?new < 65536" "unat ?old < 65536" using O by linarith+
  show ?thesis
  proof (cases "?new = ?old")
    case True
    then have "proc_cq_db q d = Some d" using Some b len by (simp add: proc_cq_db_def proc_db_def mult.commute)
    then show ?thesis using inv True by (simp add: db_frame_def)
  next
    case False
    let ?xs = "taken_slots (int (unat ?old)) (int (unat ?new)) (int Q)"
    have ints: "int (unat ?old) < int Q" "int (unat ?new) \<le> int Q" using O(2,3) by linarith+
    have "\<forall>i\<in>set ?xs. i \<in> {0..<int Q}" by (rule taken_slots_range) (use O(2,3) in linarith)+
    then have xs: "\<forall>i\<in>set ?xs. sq_of d (cqe_owner (dev_mem d) p i) \<noteq> None" using O(4) by blast
    obtain d1 qs where 1: "nvmev_proc_io_cq (int q) (int (unat ?new)) (int (unat ?old)) d = Some d1"
      "d1 = (put_cq d (int q) (cq\<lparr>cq_tail := int (unat ?new) - 1\<rparr>))\<lparr>sqes := qs\<rparr>" "length qs = length (sqes d)"
      "\<And>x. sq_of d1 x = map_option (reaped (length (filter (\<lambda>i. cqe_owner (dev_mem d) p i = x) ?xs))) (sq_of d x)"
      using proc_io_cq_ok [OF cq O(1) of_nat_0_le_iff ints(1) of_nat_0_le_iff ints(2) xs] by (auto elim!: returnsE)
    let ?d' = "d1\<lparr>old_dbs := (old_dbs d1)[2 * q + 1 := ?new]\<rparr>"
    have fields: "dbs d1 = dbs d" "old_dbs d1 = old_dbs d" by (simp_all add: 1(2) put_cq_def)
    have run: "proc_cq_db q d = Some ?d'"
      using Some b len False small 1(1) fields by (simp add: proc_cq_db_def proc_db_def int_of_small mult.commute)
    have s: "sq_of ?d' x = sq_of d1 x" for x by (simp add: sq_of_def)
    have "(sq_of ?d' x = None) = (sq_of d x = None)"
      "map_option (\<lambda>sq. nr_dispatched (sq_stat sq)) (sq_of ?d' x) = map_option (\<lambda>sq. nr_dispatched (sq_stat sq)) (sq_of d x)" for x
      unfolding s 1(4) by (cases "sq_of d x"; simp add: reaped_def)+
    moreover have "dispatch_inv n K ?d'"
      using inv by (simp add: dispatch_inv_def tables_ok_def 1(2) put_cq_def)
    moreover have "cqes ?d' ! q' = cqes d ! q'" if "q' \<noteq> q" for q'
      using that by (simp add: 1(2) put_cq_def)
    moreover have "cqes ?d' = (cqes d)[q := Some (cq\<lparr>cq_tail := int (unat ?new) - 1\<rparr>)]" by (simp add: 1(2) put_cq_def)
    ultimately show ?thesis
      by (intro returnsI [OF run]) (use b len 1(3) fields in \<open>simp add: db_frame_def 1(2) put_cq_def\<close>)
  qed
qed

lemma sq_db_ok_cong:
  assumes "db_frame d d'" and "sq_of d' (int q) = sq_of d (int q)" and "old_dbs d' ! (2 * q) = old_dbs d ! (2 * q)"
    and "sq_db_ok K d q"
  shows "sq_db_ok K d' q" and "sq_pending d' q = sq_pending d q" and "pending_requests d' q = pending_requests d q"
proof -
  have F: "dev_mem d' = dev_mem d" "dbs d' = dbs d" "length (sqes d') = length (sqes d)"
    using assms(1) by (simp_all add: db_frame_def)
  have q: "q < length (sqes d)" using assms(4) by (simp add: sq_db_ok_def)
  then have e: "sqes d' ! q = sqes d ! q" using assms(2) sq_of_nth [of q d] sq_of_nth [of q d'] F by simp
  have cmds: "sq_command d' (int q) i = sq_command d (int q) i" for i using assms(2) F by (simp add: sq_command_def)
  then have "request_at d' (int q) = request_at d (int q)" using assms(2) by (simp add: request_at_def [abs_def])
  then show "pending_requests d' q = pending_requests d q"
    using assms(2,3) F by (simp add: pending_requests_def pending_slots_def split: option.splits)
  from cmds show "sq_db_ok K d' q" using assms(3,4) e F by (simp add: sq_db_ok_def slots_ok_def split: option.splits)
  show "sq_pending d' q = sq_pending d q" by (rule ext) (simp add: sq_pending_def F assms(3))
qed

lemma db_frame_trans: "db_frame d d' \<Longrightarrow> db_frame d' d'' \<Longrightarrow> db_frame d d''"
  by (simp add: db_frame_def)

lemma sq_pass:
  assumes inv: "dispatch_inv n K d" and ok: "\<forall>q\<in>{1..<m}. sq_db_ok K d q" and len: "length (old_dbs d) = length (dbs d)"
    and m: "1 \<le> m"
  shows "returns (foldM proc_sq_db [1..<m] d) (\<lambda>d'. dispatch_inv n K d' \<and> db_frame d d' \<and> cqes d' = cqes d \<and>
    (\<forall>q\<in>{1..<m}. sq_handled d d' q) \<and> requests_entered d d' (\<Sum>q\<in>{1..<m}. pending_requests d q) \<and>
    (\<forall>i. odd i \<longrightarrow> old_dbs d' ! i = old_dbs d ! i))"
proof -
  let ?I = "\<lambda>k d'. dispatch_inv n K d' \<and> db_frame d d' \<and> cqes d' = cqes d \<and> (\<forall>q\<in>{1..<k}. sq_handled d d' q) \<and>
    requests_entered d d' (\<Sum>q\<in>{1..<k}. pending_requests d q) \<and>
    (\<forall>i. odd i \<longrightarrow> old_dbs d' ! i = old_dbs d ! i) \<and>
    (\<forall>q\<ge>k. sq_of d' (int q) = sq_of d (int q) \<and> old_dbs d' ! (2 * q) = old_dbs d ! (2 * q))"
  have "returns (foldM proc_sq_db [1..<m] d) (?I m)"
  proof (rule returns_foldM_upt [where I = ?I])
    show "?I 1 d" using inv by (simp add: db_frame_def entered_none)
  next
    fix k d' assume k: "1 \<le> k" "k < m" and I: "?I k d'"
    have okk: "sq_db_ok K d' k" and pend: "sq_pending d' k = sq_pending d k"
      and reqs: "pending_requests d' k = pending_requests d k"
      using sq_db_ok_cong [of d d' k K] I ok k by auto
    have len': "length (old_dbs d') = length (dbs d')" using I len by (simp add: db_frame_def)
    show "returns (proc_sq_db k d') (?I (Suc k))"
    proof (rule returns_mono [OF proc_sq_db_ok [OF _ okk len', of n]])
      show "dispatch_inv n K d'" using I by blast
      fix d'' assume S: "dispatch_inv n K d'' \<and> db_frame d' d'' \<and> cqes d'' = cqes d' \<and> sq_handled d' d'' k \<and>
        requests_entered d' d'' (pending_requests d' k) \<and>
        (\<forall>q'. q' \<noteq> int k \<longrightarrow> sq_of d'' q' = sq_of d' q') \<and> (\<forall>i. i \<noteq> 2 * k \<longrightarrow> old_dbs d'' ! i = old_dbs d' ! i)"
      have "dbs d' = dbs d" using I by (simp add: db_frame_def)
      then have "sq_handled d d'' k" using S I pend by (simp add: sq_handled_def)
      moreover have "sq_handled d d'' q" if "q \<in> {1..<k}" for q
        using I S that unfolding sq_handled_def by auto
      moreover have "requests_entered d d'' (\<Sum>q\<in>{1..<Suc k}. pending_requests d q)"
        using entered_trans [of d d' "\<Sum>q\<in>{1..<k}. pending_requests d q" d'' "pending_requests d k"] S I k reqs by simp
      moreover have "db_frame d d''" using I S db_frame_trans by blast
      moreover have "old_dbs d'' ! i = old_dbs d ! i" if "odd i" for i
        using S I that by (metis dvd_triv_left)
      ultimately show "?I (Suc k) d''" using S I by (auto simp: less_Suc_eq)
    qed
  qed (rule m)
  then show ?thesis by (auto elim: returns_mono)
qed

lemma cq_db_ok_cong:
  assumes "db_frame d d'" and "cqes d' ! q = cqes d ! q" and "length (cqes d') = length (cqes d)"
    and "old_dbs d' ! (2 * q + 1) = old_dbs d ! (2 * q + 1)" and "cq_db_ok d q"
  shows "cq_db_ok d' q"
  using assms by (auto simp: cq_db_ok_def db_frame_def split: option.splits)

lemma cq_pass:
  assumes inv: "dispatch_inv n K d" and ok: "\<forall>q\<in>{1..<m}. cq_db_ok d q" and len: "length (old_dbs d) = length (dbs d)"
    and m: "1 \<le> m"
  shows "returns (foldM proc_cq_db [1..<m] d) (\<lambda>d'. dispatch_inv n K d' \<and> db_frame d d' \<and> proc_info d' = proc_info d \<and>
    (\<forall>q\<in>{1..<m}. cqes d ! q \<noteq> None \<longrightarrow> old_dbs d' ! (2 * q + 1) = dbs d ! (2 * q + 1)) \<and>
    (\<forall>i. even i \<longrightarrow> old_dbs d' ! i = old_dbs d ! i) \<and>
    (\<forall>x. map_option (\<lambda>sq. nr_dispatched (sq_stat sq)) (sq_of d' x) =
      map_option (\<lambda>sq. nr_dispatched (sq_stat sq)) (sq_of d x)))"
proof -
  let ?st = "\<lambda>d x. map_option (\<lambda>sq. nr_dispatched (sq_stat sq)) (sq_of d x)"
  let ?I = "\<lambda>k d'. dispatch_inv n K d' \<and> db_frame d d' \<and> length (cqes d') = length (cqes d) \<and> proc_info d' = proc_info d \<and>
    (\<forall>q\<in>{1..<k}. cqes d ! q \<noteq> None \<longrightarrow> old_dbs d' ! (2 * q + 1) = dbs d ! (2 * q + 1)) \<and>
    (\<forall>i. even i \<longrightarrow> old_dbs d' ! i = old_dbs d ! i) \<and> (\<forall>x. ?st d' x = ?st d x) \<and>
    (\<forall>q\<ge>k. cqes d' ! q = cqes d ! q \<and> old_dbs d' ! (2 * q + 1) = old_dbs d ! (2 * q + 1))"
  have "returns (foldM proc_cq_db [1..<m] d) (?I m)"
  proof (rule returns_foldM_upt [where I = ?I])
    show "?I 1 d" using inv by (simp add: db_frame_def)
  next
    fix k d' assume k: "1 \<le> k" "k < m" and I: "?I k d'"
    have okk: "cq_db_ok d' k" by (rule cq_db_ok_cong [of d]) (use I ok k in auto)
    have len': "length (old_dbs d') = length (dbs d')" and dbs: "dbs d' = dbs d"
      using I len by (simp_all add: db_frame_def)
    show "returns (proc_cq_db k d') (?I (Suc k))"
    proof (rule returns_mono [OF proc_cq_db_ok [OF _ okk len', of n K]])
      show "dispatch_inv n K d'" using I by blast
      fix d'' assume S: "dispatch_inv n K d'' \<and> db_frame d' d'' \<and> length (cqes d'') = length (cqes d') \<and>
        proc_info d'' = proc_info d' \<and>
        (cqes d' ! k \<noteq> None \<longrightarrow> old_dbs d'' ! (2 * k + 1) = dbs d' ! (2 * k + 1)) \<and>
        (\<forall>q'. q' \<noteq> k \<longrightarrow> cqes d'' ! q' = cqes d' ! q') \<and>
        (\<forall>i. i \<noteq> 2 * k + 1 \<longrightarrow> old_dbs d'' ! i = old_dbs d' ! i) \<and> (\<forall>x. ?st d'' x = ?st d' x)"
      have "proc_info d'' = proc_info d'" "proc_info d' = proc_info d" using I S by blast+
      then have P: "proc_info d'' = proc_info d" by simp
      have I': "db_frame d d'" "length (cqes d') = length (cqes d)"
        "\<And>q. q \<in> {1..<k} \<Longrightarrow> cqes d ! q \<noteq> None \<Longrightarrow> old_dbs d' ! (2 * q + 1) = dbs d ! (2 * q + 1)"
        "\<And>i. even i \<Longrightarrow> old_dbs d' ! i = old_dbs d ! i" "\<And>x. ?st d' x = ?st d x"
        "\<And>q. k \<le> q \<Longrightarrow> cqes d' ! q = cqes d ! q" "\<And>q. k \<le> q \<Longrightarrow> old_dbs d' ! (2 * q + 1) = old_dbs d ! (2 * q + 1)"
        using I by blast+
      have S': "dispatch_inv n K d''" "db_frame d' d''" "length (cqes d'') = length (cqes d')"
        "cqes d' ! k \<noteq> None \<Longrightarrow> old_dbs d'' ! (2 * k + 1) = dbs d' ! (2 * k + 1)"
        "\<And>q'. q' \<noteq> k \<Longrightarrow> cqes d'' ! q' = cqes d' ! q'"
        "\<And>i. i \<noteq> 2 * k + 1 \<Longrightarrow> old_dbs d'' ! i = old_dbs d' ! i" "\<And>x. ?st d'' x = ?st d' x"
        using S by blast+
      have "old_dbs d'' ! (2 * q + 1) = dbs d ! (2 * q + 1)" if "q \<in> {1..<Suc k}" "cqes d ! q \<noteq> None" for q
      proof (cases "q = k")
        case True
        show ?thesis unfolding True using S'(4) I'(6) [of k] that(2) dbs True by simp
      next
        case False
        then have q: "q \<in> {1..<k}" "2 * q + 1 \<noteq> 2 * k + 1" using that(1) by auto
        show ?thesis using S'(6) [OF q(2)] I'(3) [OF q(1) that(2)] by simp
      qed
      moreover have "db_frame d d''" using I'(1) S'(2) db_frame_trans by blast
      moreover have "old_dbs d'' ! i = old_dbs d ! i" if "even i" for i
      proof -
        have "i \<noteq> 2 * k + 1" using that by auto
        then show ?thesis using S'(6) I'(4) [OF that] by metis
      qed
      moreover have "cqes d'' ! q = cqes d ! q \<and> old_dbs d'' ! (2 * q + 1) = old_dbs d ! (2 * q + 1)" if "Suc k \<le> q" for q
      proof -
        have "q \<noteq> k" "k \<le> q" "2 * q + 1 \<noteq> 2 * k + 1" using that by auto
        then show ?thesis using S'(5,6) I'(6,7) by metis
      qed
      moreover have "?st d'' x = ?st d x" for x using S'(7) I'(5) by metis
      moreover have "length (cqes d'') = length (cqes d)" using S'(3) I'(2) by metis
      moreover note S'(1) P
      ultimately show "?I (Suc k) d''" by blast
    qed
  qed (rule m)
  then show ?thesis by (auto elim: returns_mono)
qed

text \<open>A host that submits one command and returns two completion slots whose entries name queue 1.\<close>

definition db_mem :: phys where
  "db_mem a = (if a < 0x11000 then command_bytes demo_cmd ! (unat a mod 64) else if unat a mod 16 = 10 then 1 else 0)"

definition db_dev :: "ssd \<Rightarrow> nvmev_dev" where
  "db_dev s = (full_dev s)\<lparr>dev_mem := db_mem, dbs := (replicate 8 0)[2 := 1, 3 := 2]\<rparr>"

lemma db_mem_read:
  "read_command db_mem 0x10000 = demo_cmd" "read_command db_mem 0x10040 = demo_cmd"
  by (simp_all add: db_mem_def read_command_def command_bytes_def demo_cmd_def rd16_def rd32_def rd64_def
      le16_def le32_def le64_def cat16_def cat32_def cat64_def)

lemma db_dev_ok: "sq_db_ok 100 (db_dev s) 1" "cq_db_ok (db_dev s) 1"
proof -
  have sq: "sq_of (db_dev s) 1 = Some (demo_sq\<lparr>sq_queue_size := 2\<rparr>)"
    by (simp add: sq_of_def get_queue_def db_dev_def full_dev_def)
  have cmd: "sq_command (db_dev s) 1 i = Some demo_cmd" if "i = 0 \<or> i = 1" for i
    using that db_mem_read sq
    by (auto simp: sq_command_def db_dev_def demo_sq_def sq_entry_def SQ_ENTRY_TO_PAGE_NUM_def
        SQ_ENTRY_TO_PAGE_OFFSET_def NR_SQE_PER_PAGE_def PAGE_SIZE_def)
  have "{0..<2::int} = {0, 1}" by auto
  then have "slots_ok (db_dev s) 1 (demo_sq\<lparr>sq_queue_size := 2\<rparr>) 100"
    using cmd by (simp add: slots_ok_def demo_cmd_def last_lpn_def rw_slba_def rw_length_def lo16_def u64_of_int_def)
  then show "sq_db_ok 100 (db_dev s) 1"
    by (simp add: sq_db_ok_def db_dev_def full_dev_def demo_dev_def demo_sq_def)
  have sel: "cqe_owner db_mem p i = uint (cat16 (db_mem (cq_slot p (nat i) + 10)) (db_mem (cq_slot p (nat i) + 10 + 1)))" for p i
    by (simp only: cqe_owner_def read_completion_def rd16_def nvme_completion.select_convs)
  have "cat16 1 0 = 1" by (simp add: cat16_def)
  then have "cqe_owner db_mem 0x11000 i = 1" if "i \<in> {0, 1, 2, 3}" for i
    using that unfolding sel by (elim insertE emptyE) (simp_all add: cq_slot_def db_mem_def PAGE_SHIFT_def)
  moreover have "{0..<int 4} = {0, 1, 2, 3}" by auto
  ultimately have "\<forall>i\<in>{0..<int 4}. sq_of (db_dev s) (cqe_owner (dev_mem (db_dev s)) 0x11000 i) \<noteq> None"
    using sq by (simp add: db_dev_def)
  moreover have "length (cqes (db_dev s)) = 3" "length (dbs (db_dev s)) = 8" "cqes (db_dev s) ! 1 = Some demo_cq"
    "dbs (db_dev s) ! 3 = 2" "old_dbs (db_dev s) ! 3 = 0"
    by (simp_all add: db_dev_def full_dev_def demo_dev_def)
  ultimately show "cq_db_ok (db_dev s) 1"
    using demo_cq_ok by (simp add: cq_db_ok_def) (intro exI [of _ "69632"] exI [of _ 4], simp)
qed



end
