(* ===== verification/Ring.thy ===== *)
theory Ring
  imports IO_CQ Admin
begin

text \<open>
  Both kinds of completion queue are rings with a phase: the completion queues of \<^verbatim>\<open>io.c\<close> and the
  admin completion queue of \<^verbatim>\<open>admin.c\<close>. What the host relies on is proved once for the interface.
\<close>

section \<open>The interface\<close>

locale phase_ring =
  fixes len :: "'s \<Rightarrow> int" and head :: "'s \<Rightarrow> int" and phase :: "'s \<Rightarrow> int" and adv :: "'s \<Rightarrow> 's"
  assumes adv_len: "len (adv s) = len s"
    and adv_head: "head (adv s) = (if head s + 1 = len s then 0 else head s + 1)"
    and adv_phase: "phase (adv s) = (if head s + 1 = len s then (if phase s = 0 then 1 else 0) else phase s)"
begin

definition ring_ok :: "'s \<Rightarrow> bool" where
  "ring_ok s \<longleftrightarrow> 0 \<le> head s \<and> head s < len s \<and> phase s \<in> {0, 1}"

lemma adv_ok: "ring_ok s \<Longrightarrow> ring_ok (adv s)"
  by (auto simp: ring_ok_def adv_len adv_head adv_phase)

lemma posts_len: "len ((adv ^^ n) s) = len s"
  by (induction n) (simp_all add: adv_len)

lemma posts_ok: "ring_ok s \<Longrightarrow> ring_ok ((adv ^^ n) s)"
  by (induction n) (simp_all add: adv_ok)

lemma posts:
  assumes "ring_ok s"
  shows "head ((adv ^^ n) s) = (head s + int n) mod len s \<and>
    phase ((adv ^^ n) s) = (phase s + (head s + int n) div len s) mod 2"
proof (induction n)
  case 0
  then show ?case using assms by (auto simp: ring_ok_def)
next
  case (Suc n)
  define h where "h = head s + int n"
  define L where "L = len s"
  define q where "q = h div L"
  have e: "head s + int (Suc n) = h + 1" by (simp add: h_def)
  have L: "0 < L" using assms by (simp add: ring_ok_def L_def)
  have flip: "(if x mod 2 = 0 then 1 else 0) = (x + 1) mod 2" for x :: int by presburger
  have IH: "head ((adv ^^ n) s) = h mod L" "phase ((adv ^^ n) s) = (phase s + q) mod 2" "len ((adv ^^ n) s) = L"
    using Suc by (simp_all add: h_def L_def q_def posts_len)
  have h: "h = L * q + h mod L" by (simp add: q_def)
  have step: "(h + 1) mod L = (if h mod L + 1 = L then 0 else h mod L + 1) \<and>
    (h + 1) div L = (if h mod L + 1 = L then q + 1 else q)"
  proof (cases "h mod L + 1 = L")
    case True
    then have "h + 1 = L * (q + 1)" using h by (simp add: algebra_simps)
    then show ?thesis using L True by simp
  next
    case False
    then have "0 \<le> h mod L + 1" "h mod L + 1 < L" using pos_mod_bound [OF L, of h] pos_mod_sign [OF L, of h] by simp_all
    moreover have "h + 1 = L * q + (h mod L + 1)" using h by linarith
    ultimately show ?thesis using False int_mod_pos_eq int_div_pos_eq by metis
  qed
  have "head (adv ((adv ^^ n) s)) = (h + 1) mod L" using step by (simp add: adv_head IH)
  moreover have "phase (adv ((adv ^^ n) s)) = (phase s + (h + 1) div L) mod 2"
    using step flip [of "phase s + q"] by (simp add: adv_phase IH add.assoc)
  ultimately show ?case unfolding e L_def [symmetric] by simp
qed

text \<open>The phase with which slot \<open>k\<close> is filled alternates from one round of the ring to the next.\<close>

lemma slot_phase:
  assumes "ring_ok s"
  shows "phase ((adv ^^ (n + nat (len s))) s) = 1 - phase ((adv ^^ n) s)"
    and "head ((adv ^^ (n + nat (len s))) s) = head ((adv ^^ n) s)"
proof -
  have L: "0 < len s" using assms by (simp add: ring_ok_def)
  then have "(head s + int (n + nat (len s))) div len s = (head s + int n) div len s + 1"
    using div_add_self2 [of "len s" "head s + int n"] by (simp add: add.assoc)
  moreover have "(x + 1) mod 2 = 1 - x mod 2" for x :: int by presburger
  ultimately show "phase ((adv ^^ (n + nat (len s))) s) = 1 - phase ((adv ^^ n) s)"
    using posts [OF assms, of n] posts [OF assms, of "n + nat (len s)"] by (simp add: add.assoc [symmetric])
  show "head ((adv ^^ (n + nat (len s))) s) = head ((adv ^^ n) s)"
    using posts [OF assms, of n] posts [OF assms, of "n + nat (len s)"] L by (simp add: add.assoc [symmetric])
qed

end

section \<open>The two queues\<close>

interpretation aqr: phase_ring aq_cq_depth aq_cq_head aq_phase aq_next
  by unfold_locales (simp_all add: aq_next_def)

interpretation ioq: phase_ring cq_queue_size cq_head cq_phase "\<lambda>cq. next_head cq (cq_head cq)"
  by unfold_locales (simp_all add: next_head_def)

end
