(* ===== verification/Admin_Correct.thy ===== *)
theory Admin_Correct
  imports Ring IO_Data
begin

text \<open>
  The handlers of the admin commands on an admin queue that has been set up: each answers its
  command in the slot at the head, and the ring moves on by one entry.
\<close>

section \<open>An admin queue that is set up\<close>

definition sq_slot :: "u64 \<Rightarrow> nat \<Rightarrow> u64" where
  "sq_slot p i = push_bit PAGE_SHIFT (drop_bit PAGE_SHIFT p) + of_nat (64 * i)"

lemma sq_entry_slot:
  assumes "i < 64 * n"
  shows "sq_entry (page_list p n) (int i) = Some (sq_slot p i)"
proof -
  have q: "i div 64 < n" using assms by (simp add: div_less_iff_less_mult mult.commute)
  have "4096 * (i div 64) + 64 * (i mod 64) = 64 * i" using div_mult_mod_eq [of i 64] by linarith
  from arg_cong [OF this, of "of_nat :: nat \<Rightarrow> u64"]
  have "page_list p n ! (i div 64) + of_nat (64 * (i mod 64)) = sq_slot p i"
    unfolding page_list_nth [OF q] sq_slot_def by (simp add: add.assoc)
  moreover have "length (page_list p n) = n" by (simp add: page_list_def)
  ultimately show ?thesis
    using q by (simp add: sq_entry_def SQ_ENTRY_TO_PAGE_NUM_def SQ_ENTRY_TO_PAGE_OFFSET_def
        NR_SQE_PER_PAGE_def PAGE_SIZE_def)
qed

definition admin_ok :: "nvmev_dev \<Rightarrow> nvmev_admin_queue \<Rightarrow> u64 \<Rightarrow> u64 \<Rightarrow> bool" where
  "admin_ok d q asq acq \<longleftrightarrow> admin_q d = Some q \<and> aqr.ring_ok q \<and>
     (\<exists>ns nc. nvme_sq q = Some (page_list asq ns) \<and> aq_sq_depth q \<le> int (64 * ns) \<and>
       nvme_cq q = Some (page_list acq nc) \<and> aq_cq_depth q \<le> int (256 * nc)) \<and>
     0 < aq_sq_depth q \<and> aq_sq_depth q \<le> 4096 \<and> aq_cq_depth q \<le> 4096"

lemma admin_ok_entry:
  assumes "admin_ok d q asq acq" and "0 \<le> eid" and "eid < aq_sq_depth q"
  shows "aq_sq_entry d eid = Some (sq_slot asq (nat eid))"
    "aq_command d eid = Some (read_command (dev_mem d) (sq_slot asq (nat eid)))"
    "aq_cq_entry d (aq_cq_head q) = Some (cq_slot acq (nat (aq_cq_head q)))"
proof -
  obtain ns nc where n: "nvme_sq q = Some (page_list asq ns)" "aq_sq_depth q \<le> int (64 * ns)"
    "nvme_cq q = Some (page_list acq nc)" "aq_cq_depth q \<le> int (256 * nc)"
    using assms(1) by (auto simp: admin_ok_def)
  have h: "0 \<le> aq_cq_head q" "aq_cq_head q < aq_cq_depth q" using assms(1) by (auto simp: admin_ok_def aqr.ring_ok_def)
  have "sq_entry (page_list asq ns) eid = Some (sq_slot asq (nat eid))"
    using sq_entry_slot [of "nat eid" ns asq] assms n by simp
  then show "aq_sq_entry d eid = Some (sq_slot asq (nat eid))"
    using assms(1) n by (simp add: aq_sq_entry_def admin_ok_def)
  then show "aq_command d eid = Some (read_command (dev_mem d) (sq_slot asq (nat eid)))"
    by (simp add: aq_command_def)
  have "cq_entry (page_list acq nc) (aq_cq_head q) = Some (cq_slot acq (nat (aq_cq_head q)))"
    using cq_entry_slot [of "nat (aq_cq_head q)" nc acq] h n by simp
  then show "aq_cq_entry d (aq_cq_head q) = Some (cq_slot acq (nat (aq_cq_head q)))"
    using assms(1) n by (simp add: aq_cq_entry_def admin_ok_def)
qed

lemma admin_ok_next:
  assumes "admin_ok d q asq acq"
  shows "admin_ok (d'\<lparr>admin_q := Some (aq_next q)\<rparr>) (aq_next q) asq acq"
proof -
  have "aqr.ring_ok (aq_next q)" using assms aqr.adv_ok by (simp add: admin_ok_def)
  moreover have "nvme_sq (aq_next q) = nvme_sq q" "nvme_cq (aq_next q) = nvme_cq q"
    "aq_sq_depth (aq_next q) = aq_sq_depth q" "aq_cq_depth (aq_next q) = aq_cq_depth q"
    by (simp_all add: aq_next_def)
  ultimately show ?thesis using assms by (simp add: admin_ok_def)
qed

lemma admin_ok_cong: "admin_q d' = admin_q d \<Longrightarrow> admin_ok d' q asq acq = admin_ok d q asq acq"
  by (simp add: admin_ok_def)

section \<open>Answers\<close>

text \<open>The completion of a command, in the slot at address \<open>a\<close>; nothing else is written.\<close>

definition answered :: "phys \<Rightarrow> phys \<Rightarrow> u64 \<Rightarrow> nvme_command \<Rightarrow> int \<Rightarrow> int \<Rightarrow> bool" where
  "answered m m' a cmd eid st \<longleftrightarrow>
     (let c = read_completion m' a in cqe_command_id c = command_id cmd \<and> cqe_sq_id c = 0 \<and>
        cqe_sq_head c = word_of_int eid \<and> cqe_status c = word_of_int st) \<and>
     (\<forall>x. 16 \<le> unat (x - a) \<longrightarrow> m' x = m x)"

lemma admin_complete_ok:
  assumes ok: "admin_ok d q asq acq" and e: "0 \<le> eid" "eid < aq_sq_depth q"
    and cmd: "read_command (dev_mem d) (sq_slot asq (nat eid)) = cmd"
  shows "returns (admin_complete eid (aq_cq_head q) st d) (\<lambda>d'. \<exists>m'. d' = d\<lparr>dev_mem := m'\<rparr> \<and>
    answered (dev_mem d) m' (cq_slot acq (nat (aq_cq_head q))) cmd eid (or (aq_phase q) (int (st * 2))) \<and>
    cqe_result (read_completion m' (cq_slot acq (nat (aq_cq_head q)))) =
      cqe_result (read_completion (dev_mem d) (cq_slot acq (nat (aq_cq_head q)))))"
proof -
  have q: "admin_q d = Some q" using ok by (simp add: admin_ok_def)
  let ?a = "cq_slot acq (nat (aq_cq_head q))"
  let ?m = "set_cqe_status ?a (word_of_int (or (aq_phase q) (int (st * 2)))) (set_cqe_sq_head ?a (word_of_int eid)
    (set_cqe_sq_id ?a 0 (set_cqe_command_id ?a (command_id cmd) (dev_mem d))))"
  have "admin_complete eid (aq_cq_head q) st d = Some (d\<lparr>dev_mem := ?m\<rparr>)"
    using admin_ok_entry [OF ok e] q cmd by (simp add: admin_complete_def Let_def)
  moreover have "answered (dev_mem d) ?m ?a cmd eid (or (aq_phase q) (int (st * 2)))"
    by (simp add: answered_def set_cqe_frame)
  moreover have "cqe_result (read_completion ?m ?a) = cqe_result (read_completion (dev_mem d) ?a)" by simp
  ultimately show ?thesis by (intro returnsI exI conjI) (assumption | rule refl)+
qed

text \<open>What the answer of each handler says.\<close>

definition admin_answers :: "nvme_command \<Rightarrow> bool" where
  "admin_answers cmd \<longleftrightarrow> opcode cmd \<in> {nvme_admin_delete_sq, nvme_admin_create_sq, nvme_admin_get_log_page,
     nvme_admin_delete_cq, nvme_admin_create_cq, nvme_admin_identify, nvme_admin_set_features,
     nvme_admin_async_event}"

definition admin_status :: "nvme_command \<Rightarrow> nat" where
  "admin_status cmd = (if opcode cmd = nvme_admin_get_log_page then NVME_SC_INVALID_FIELD
     else if opcode cmd = nvme_admin_async_event then NVME_SC_ASYNC_LIMIT else NVME_SC_SUCCESS)"

text \<open>
  A command that the handlers can carry out: they check no identifier. The page that an identify
  fills must not be the one that holds the command.
\<close>

definition admin_cmd_ok :: "nvmev_dev \<Rightarrow> u64 \<Rightarrow> nvme_command \<Rightarrow> bool" where
  "admin_cmd_ok d a cmd \<longleftrightarrow>
     (opcode cmd = nvme_admin_create_sq \<longrightarrow> unat (create_sq_sqid cmd) < length (sqes d)) \<and>
     (opcode cmd = nvme_admin_create_cq \<longrightarrow> unat (create_cq_cqid cmd) < length (cqes d)) \<and>
     (opcode cmd = nvme_admin_delete_sq \<longrightarrow> sq_of d (uint (delete_queue_qid cmd)) \<noteq> None) \<and>
     (opcode cmd = nvme_admin_delete_cq \<longrightarrow> cq_of d (uint (delete_queue_qid cmd)) \<noteq> None) \<and>
     (opcode cmd = nvme_admin_identify \<longrightarrow> (\<forall>i<64. 4096 \<le> unat (a + of_nat i - page_base (prp1 cmd)))) \<and>
     2 * length (sqes d) \<le> length (dbs d) \<and> 2 * length (cqes d) \<le> length (dbs d) \<and>
     length (old_dbs d) = length (dbs d)"

lemmas admin_opcodes = nvme_admin_delete_sq_def nvme_admin_create_sq_def nvme_admin_get_log_page_def
  nvme_admin_delete_cq_def nvme_admin_create_cq_def nvme_admin_identify_def nvme_admin_abort_cmd_def
  nvme_admin_set_features_def nvme_admin_get_features_def nvme_admin_async_event_def

lemma id_lengths: "length (id_ctrl_bytes identified_ctrl) = 4096" "length (id_ns_bytes (identified_ns s)) = 4096"
proof -
  have ps: "length (power_state_bytes zero_power_state) = 32"
    by (simp add: power_state_bytes_def zero_power_state_def)
  have "length (concat (map power_state_bytes (replicate 32 zero_power_state))) = 1024"
    by (simp add: length_concat ps sum_list_replicate)
  then show "length (id_ctrl_bytes identified_ctrl) = 4096"
    by (simp add: id_ctrl_bytes_def identified_ctrl_def zero_id_ctrl_def str_field_def)
  have l: "length (lbaf_bytes f) = 4" for f by (simp add: lbaf_bytes_def)
  show "length (id_ns_bytes (identified_ns s)) = 4096"
    by (simp add: id_ns_bytes_def identified_ns_def Let_def zero_id_ns_def length_concat sum_list_replicate l)
qed

section \<open>Handlers\<close>

text \<open>A handler that changes the device before it answers.\<close>

definition answers :: "nvmev_admin_queue \<Rightarrow> u64 \<Rightarrow> nvme_command \<Rightarrow> int \<Rightarrow> nat \<Rightarrow> nvmev_dev \<Rightarrow> bool" where
  "answers q acq cmd eid st d' \<longleftrightarrow> admin_q d' = Some q \<and>
     (let c = read_completion (dev_mem d') (cq_slot acq (nat (aq_cq_head q))) in
        cqe_command_id c = command_id cmd \<and> cqe_sq_id c = 0 \<and> cqe_sq_head c = word_of_int eid \<and>
        cqe_status c = word_of_int (or (aq_phase q) (int (st * 2))))"

lemma complete_answers:
  assumes ok: "admin_ok d q asq acq" and e: "0 \<le> eid" "eid < aq_sq_depth q"
    and d0: "admin_q d0 = admin_q d" "read_command (dev_mem d0) (sq_slot asq (nat eid)) = cmd"
  shows "returns (admin_complete eid (aq_cq_head q) st d0) (\<lambda>d'. answers q acq cmd eid st d' \<and>
    (\<exists>m'. d' = d0\<lparr>dev_mem := m'\<rparr> \<and>
      (\<forall>x. 16 \<le> unat (x - cq_slot acq (nat (aq_cq_head q))) \<longrightarrow> m' x = dev_mem d0 x)))"
proof -
  have ok0: "admin_ok d0 q asq acq" using ok d0(1) by (simp add: admin_ok_def)
  then have "admin_q d0 = Some q" by (simp add: admin_ok_def)
  then show ?thesis
    using admin_complete_ok [OF ok0 e d0(2), of st]
    by (auto simp: answers_def answered_def Let_def elim!: returns_mono)
qed

lemma page_write_command:
  assumes "\<forall>i<64. 4096 \<le> unat (a + of_nat i - page_base p)" and "length bs = 4096"
  shows "read_command (write_bytes m (page_base p) bs) a = read_command m a"
  by (rule read_command_cong) (use assms in \<open>simp add: write_bytes_out\<close>)

text \<open>The queues that the creating commands build.\<close>

definition new_sq :: "nvme_command \<Rightarrow> nvmev_submission_queue" where
  "new_sq cmd = \<lparr>sq_qid = uint (create_sq_sqid cmd), sq_cqid = uint (create_sq_cqid cmd),
     sq_priority = uint (create_sq_flags cmd AND 0xFFFE),
     sq_phys_contig = (create_sq_flags cmd AND NVME_QUEUE_PHYS_CONTIG \<noteq> 0),
     sq_queue_size = uint (create_sq_qsize cmd) + 1,
     sq_stat = \<lparr>nr_dispatched = 0, nr_dispatch = 0, nr_in_flight = 0, max_nr_in_flight = 0, total_io = 0\<rparr>,
     sq_sq = page_list (prp1 cmd) (DIV_ROUND_UP (nat (uint (create_sq_qsize cmd) + 1) * 64) PAGE_SIZE)\<rparr>"

definition new_cq :: "nvme_command \<Rightarrow> nvmev_completion_queue" where
  "new_cq cmd = (let irq = (create_cq_flags cmd AND NVME_CQ_IRQ_ENABLED \<noteq> 0) in
     \<lparr>cq_qid = uint (create_cq_cqid cmd), cq_irq_vector = (if irq then uint (create_cq_irq_vector cmd) else 0),
       cq_irq_enabled = irq, cq_interrupt_ready = False,
       cq_phys_contig = (create_cq_flags cmd AND NVME_QUEUE_PHYS_CONTIG \<noteq> 0),
       cq_queue_size = uint (create_cq_qsize cmd) + 1, cq_phase = 1, cq_head = 0, cq_tail = -1,
       cq_cq = page_list (prp1 cmd) (DIV_ROUND_UP (nat (uint (create_cq_qsize cmd) + 1) * 16) PAGE_SIZE)\<rparr>)"

text \<open>What a handler does to the device apart from the answer.\<close>

definition admin_effect :: "nvme_command \<Rightarrow> nvmev_dev \<Rightarrow> nvmev_dev" where
  "admin_effect cmd d =
     (if opcode cmd = nvme_admin_delete_sq then d\<lparr>sqes := (sqes d)[unat (delete_queue_qid cmd) := None]\<rparr>
      else if opcode cmd = nvme_admin_create_sq then
        (let k = unat (create_sq_sqid cmd);
             d = (if sq_phys_contig (new_sq cmd) then d else dev_log ''admin.c'' 110 d) in
         d\<lparr>sqes := (sqes d)[k := Some (new_sq cmd)], dbs := (dbs d)[2 * k := 0], old_dbs := (old_dbs d)[2 * k := 0]\<rparr>)
      else if opcode cmd = nvme_admin_delete_cq then d\<lparr>cqes := (cqes d)[unat (delete_queue_qid cmd) := None]\<rparr>
      else if opcode cmd = nvme_admin_create_cq then
        (let k = unat (create_cq_cqid cmd);
             d = (if cq_phys_contig (new_cq cmd) then d else dev_log ''admin.c'' 53 d) in
         d\<lparr>cqes := (cqes d)[k := Some (new_cq cmd)], old_dbs := (old_dbs d)[2 * k + 1 := 0],
           dbs := (dbs d)[2 * k + 1 := 0]\<rparr>)
      else if opcode cmd = nvme_admin_set_features \<and> features_fid cmd = NVME_FEAT_NUM_QUEUES then
        d\<lparr>nr_sq := min (uint (features_dword11 cmd AND 0xFFFF) + 1) 72,
          nr_cq := min (uint (drop_bit 16 (features_dword11 cmd) AND 0xFFFF) + 1) 72\<rparr>
      else d)"

lemma uint_of_unat: "nat (uint w) = unat w" "nat (uint w * 2) = 2 * unat w" "nat (uint w * 2 + 1) = 2 * unat w + 1"
  by (simp_all add: nat_mult_distrib nat_add_distrib)

lemma create_sq_ok:
  assumes ok: "admin_ok d q asq acq" and e: "0 \<le> eid" "eid < aq_sq_depth q"
    and cmd: "read_command (dev_mem d) (sq_slot asq (nat eid)) = cmd"
    and op: "opcode cmd = nvme_admin_create_sq" and c: "admin_cmd_ok d (sq_slot asq (nat eid)) cmd"
  shows "admin_create_sq eid (aq_cq_head q) d = admin_complete eid (aq_cq_head q) NVME_SC_SUCCESS (admin_effect cmd d)"
proof -
  have "unat (create_sq_sqid cmd) < length (sqes d)" "2 * unat (create_sq_sqid cmd) < length (dbs d)"
    "2 * unat (create_sq_sqid cmd) < length (old_dbs d)"
    using c op by (auto simp: admin_cmd_ok_def)
  then show ?thesis
    using admin_ok_entry(2) [OF ok e] cmd op
    by (simp add: admin_create_sq_def admin_effect_def new_sq_def uint_of_unat Let_def dev_log_def admin_opcodes)
qed

lemma create_cq_ok:
  assumes ok: "admin_ok d q asq acq" and e: "0 \<le> eid" "eid < aq_sq_depth q"
    and cmd: "read_command (dev_mem d) (sq_slot asq (nat eid)) = cmd"
    and op: "opcode cmd = nvme_admin_create_cq" and c: "admin_cmd_ok d (sq_slot asq (nat eid)) cmd"
  shows "admin_create_cq eid (aq_cq_head q) d = admin_complete eid (aq_cq_head q) NVME_SC_SUCCESS (admin_effect cmd d)"
proof -
  have "unat (create_cq_cqid cmd) < length (cqes d)" "2 * unat (create_cq_cqid cmd) + 1 < length (dbs d)"
    "2 * unat (create_cq_cqid cmd) + 1 < length (old_dbs d)"
    using c op by (auto simp: admin_cmd_ok_def)
  then show ?thesis
    using admin_ok_entry(2) [OF ok e] cmd op
    by (simp add: admin_create_cq_def admin_effect_def new_cq_def uint_of_unat Let_def dev_log_def admin_opcodes)
qed

lemma delete_ok:
  assumes ok: "admin_ok d q asq acq" and e: "0 \<le> eid" "eid < aq_sq_depth q"
    and cmd: "read_command (dev_mem d) (sq_slot asq (nat eid)) = cmd"
    and c: "admin_cmd_ok d (sq_slot asq (nat eid)) cmd"
  shows "opcode cmd = nvme_admin_delete_sq \<Longrightarrow>
      admin_delete_sq eid (aq_cq_head q) d = admin_complete eid (aq_cq_head q) NVME_SC_SUCCESS (admin_effect cmd d)"
    "opcode cmd = nvme_admin_delete_cq \<Longrightarrow>
      admin_delete_cq eid (aq_cq_head q) d = admin_complete eid (aq_cq_head q) NVME_SC_SUCCESS (admin_effect cmd d)"
  using admin_ok_entry(2) [OF ok e] cmd c
  by (auto simp: admin_delete_sq_def admin_delete_cq_def admin_effect_def admin_cmd_ok_def sq_of_def cq_of_def
      get_queue_def Let_def admin_opcodes split: bind_splits)

lemma identify_ok:
  assumes ok: "admin_ok d q asq acq" and e: "0 \<le> eid" "eid < aq_sq_depth q"
    and cmd: "read_command (dev_mem d) (sq_slot asq (nat eid)) = cmd"
    and op: "opcode cmd = nvme_admin_identify" and c: "admin_cmd_ok d (sq_slot asq (nat eid)) cmd"
  defines "page \<equiv> (if identify_cns cmd = 1 then id_ctrl_bytes identified_ctrl
    else id_ns_bytes (identified_ns (storage_size (config d))))"
  defines "d1 \<equiv> d\<lparr>dev_mem := write_bytes (dev_mem d) (page_base (prp1 cmd)) page\<rparr>"
  shows "admin_handler cmd eid (aq_cq_head q) d = admin_complete eid (aq_cq_head q) NVME_SC_SUCCESS d1"
    "read_command (dev_mem d1) (sq_slot asq (nat eid)) = cmd"
proof -
  show "admin_handler cmd eid (aq_cq_head q) d = admin_complete eid (aq_cq_head q) NVME_SC_SUCCESS d1"
    using admin_ok_entry(2) [OF ok e] cmd op
    by (simp add: admin_handler_def admin_opcodes d1_def page_def admin_identify_ctrl_def
        admin_identify_namespace_def Let_def)
  have "length page = 4096" by (simp add: page_def id_lengths)
  then show "read_command (dev_mem d1) (sq_slot asq (nat eid)) = cmd"
    using page_write_command c op cmd by (simp add: d1_def admin_cmd_ok_def)
qed

lemma set_features_ok:
  assumes ok: "admin_ok d q asq acq" and e: "0 \<le> eid" "eid < aq_sq_depth q"
    and cmd: "read_command (dev_mem d) (sq_slot asq (nat eid)) = cmd"
    and apart: "\<forall>i<64. 16 \<le> unat (sq_slot asq (nat eid) + of_nat i - cq_slot acq (nat (aq_cq_head q)))"
    and op: "opcode cmd = nvme_admin_set_features" and fid: "features_fid cmd = NVME_FEAT_NUM_QUEUES"
  defines "a \<equiv> cq_slot acq (nat (aq_cq_head q))"
  defines "d1 \<equiv> (admin_effect cmd d)\<lparr>dev_mem := set_cqe_result a (word_of_int (or (push_bit 16
    (nr_cq (admin_effect cmd d) - 1)) (nr_sq (admin_effect cmd d) - 1))) (dev_mem d)\<rparr>"
  shows "admin_set_features eid (aq_cq_head q) d = admin_complete eid (aq_cq_head q) NVME_SC_SUCCESS d1"
    "read_command (dev_mem d1) (sq_slot asq (nat eid)) = cmd"
proof -
  show "admin_set_features eid (aq_cq_head q) d = admin_complete eid (aq_cq_head q) NVME_SC_SUCCESS d1"
    using admin_ok_entry [OF ok e] cmd op fid
    by (simp add: admin_set_features_def d1_def a_def admin_effect_def admin_opcodes NR_MAX_IO_QUEUE_def Let_def)
  show "read_command (dev_mem d1) (sq_slot asq (nat eid)) = cmd"
    unfolding cmd [symmetric] d1_def
    by (rule read_command_cong) (use apart in \<open>simp add: set_cqe_frame a_def\<close>)
qed

lemma admin_effect_frame [simp]:
  "admin_q (admin_effect cmd d) = admin_q d" "dev_mem (admin_effect cmd d) = dev_mem d"
  by (simp_all add: admin_effect_def Let_def dev_log_def)

text \<open>What a handled command leaves behind.\<close>

definition handled :: "nvmev_admin_queue \<Rightarrow> u64 \<Rightarrow> nvme_command \<Rightarrow> int \<Rightarrow> nvmev_dev \<Rightarrow> nvmev_dev \<Rightarrow> bool" where
  "handled q acq cmd eid d d' \<longleftrightarrow> admin_q d' = Some q \<and>
     (\<exists>m ev. d' = (admin_effect cmd d)\<lparr>dev_mem := m, dev_events := ev\<rparr>) \<and>
     (if admin_answers cmd then answers q acq cmd eid (admin_status cmd) d' else dev_mem d' = dev_mem d)"

lemma handledI:
  assumes "returns (admin_complete eid (aq_cq_head q) st d0) (\<lambda>d'. answers q acq cmd eid st d' \<and>
      (\<exists>m'. d' = d0\<lparr>dev_mem := m'\<rparr> \<and> (\<forall>x. 16 \<le> unat (x - s) \<longrightarrow> m' x = dev_mem d0 x)))"
    and "d0 = (admin_effect cmd d)\<lparr>dev_mem := m0\<rparr>" and "admin_answers cmd" and "st = admin_status cmd"
  shows "returns (admin_complete eid (aq_cq_head q) st d0) (handled q acq cmd eid d)"
proof -
  have "handled q acq cmd eid d d'" if "answers q acq cmd eid st d'" "d' = d0\<lparr>dev_mem := m'\<rparr>" for d' m'
  proof -
    have "d' = (admin_effect cmd d)\<lparr>dev_mem := m', dev_events := dev_events (admin_effect cmd d)\<rparr>"
      using that(2) assms(2) by simp
    then have "\<exists>m ev. d' = (admin_effect cmd d)\<lparr>dev_mem := m, dev_events := ev\<rparr>" by blast
    then show ?thesis using that(1) assms(3,4) by (simp add: handled_def answers_def)
  qed
  then show ?thesis using assms(1) by (blast intro: returns_mono)
qed

lemma admin_handler_ok:
  assumes ok: "admin_ok d q asq acq" and e: "0 \<le> eid" "eid < aq_sq_depth q"
    and cmd: "read_command (dev_mem d) (sq_slot asq (nat eid)) = cmd"
    and c: "admin_cmd_ok d (sq_slot asq (nat eid)) cmd"
    and apart: "\<forall>i<64. 16 \<le> unat (sq_slot asq (nat eid) + of_nat i - cq_slot acq (nat (aq_cq_head q)))"
  shows "returns (admin_handler cmd eid (aq_cq_head q) d) (handled q acq cmd eid d)"
proof -
  let ?h = "aq_cq_head q"
  note C = complete_answers [OF ok e]
  have eff: "admin_effect cmd d = (admin_effect cmd d)\<lparr>dev_mem := dev_mem d\<rparr>" by simp
  have done_: "returns (admin_complete eid ?h (admin_status cmd) (admin_effect cmd d)) (handled q acq cmd eid d)"
    if "admin_answers cmd"
    by (rule handledI [OF C eff that refl]) (use cmd in simp_all)
  have same: "returns (admin_complete eid ?h (admin_status cmd) d) (handled q acq cmd eid d)"
    if "admin_answers cmd" "admin_effect cmd d = d"
    using done_ that by simp
  have silent: "handled q acq cmd eid d d'"
    if "\<not> admin_answers cmd" "admin_effect cmd d = d" "d' = d\<lparr>dev_events := ev\<rparr>" for d' ev
  proof -
    have "d' = (admin_effect cmd d)\<lparr>dev_mem := dev_mem d, dev_events := ev\<rparr>" using that by simp
    then have "\<exists>m ev. d' = (admin_effect cmd d)\<lparr>dev_mem := m, dev_events := ev\<rparr>" by blast
    moreover have "admin_q d' = Some q" "dev_mem d' = dev_mem d" using that ok by (simp_all add: admin_ok_def)
    ultimately show ?thesis using that(1) by (simp add: handled_def)
  qed
  consider "opcode cmd = nvme_admin_delete_sq" | "opcode cmd = nvme_admin_create_sq"
    | "opcode cmd = nvme_admin_get_log_page" | "opcode cmd = nvme_admin_delete_cq"
    | "opcode cmd = nvme_admin_create_cq" | "opcode cmd = nvme_admin_identify"
    | "opcode cmd = nvme_admin_set_features" "features_fid cmd = NVME_FEAT_NUM_QUEUES"
    | "opcode cmd = nvme_admin_set_features" "features_fid cmd \<noteq> NVME_FEAT_NUM_QUEUES"
    | "opcode cmd = nvme_admin_async_event"
    | "opcode cmd = nvme_admin_abort_cmd \<or> opcode cmd = nvme_admin_get_features"
    | "opcode cmd \<notin> {nvme_admin_delete_sq, nvme_admin_create_sq, nvme_admin_get_log_page, nvme_admin_delete_cq,
        nvme_admin_create_cq, nvme_admin_identify, nvme_admin_set_features, nvme_admin_async_event,
        nvme_admin_abort_cmd, nvme_admin_get_features}" by blast
  then show ?thesis
  proof cases
    case 1
    then show ?thesis using done_ delete_ok(1) [OF ok e cmd c]
      by (simp add: admin_handler_def admin_answers_def admin_status_def admin_opcodes)
  next
    case 2
    then show ?thesis using done_ create_sq_ok [OF ok e cmd 2 c]
      by (simp add: admin_handler_def admin_answers_def admin_status_def admin_opcodes)
  next
    case 3
    then show ?thesis using same
      by (simp add: admin_handler_def admin_answers_def admin_status_def admin_opcodes admin_get_log_page_def admin_effect_def)
  next
    case 4
    then show ?thesis using done_ delete_ok(2) [OF ok e cmd c]
      by (simp add: admin_handler_def admin_answers_def admin_status_def admin_opcodes)
  next
    case 5
    then show ?thesis using done_ create_cq_ok [OF ok e cmd 5 c]
      by (simp add: admin_handler_def admin_answers_def admin_status_def admin_opcodes)
  next
    case 6
    have eff: "admin_effect cmd d = d" using 6 by (simp add: admin_effect_def admin_opcodes)
    show ?thesis unfolding identify_ok(1) [OF ok e cmd 6 c]
      by (rule handledI [OF C [OF _ identify_ok(2) [OF ok e cmd 6 c]]])
         (use 6 in \<open>simp_all add: eff admin_answers_def admin_status_def admin_opcodes\<close>)
  next
    case 7
    note S = set_features_ok [OF ok e cmd apart 7]
    have "admin_handler cmd eid ?h d = admin_set_features eid ?h d"
      using 7 by (simp add: admin_handler_def admin_opcodes)
    then show ?thesis unfolding S(1)
      by (simp only:) (rule handledI [OF C [OF _ S(2)]],
          use 7 in \<open>simp_all add: admin_answers_def admin_status_def admin_opcodes\<close>)
  next
    case 8
    then have "admin_handler cmd eid ?h d = admin_complete eid ?h NVME_SC_SUCCESS d" "admin_effect cmd d = d"
      using admin_ok_entry(2) [OF ok e] cmd
      by (simp_all add: admin_handler_def admin_opcodes admin_set_features_def admin_effect_def)
    then show ?thesis using same 8 by (simp add: admin_answers_def admin_status_def admin_opcodes)
  next
    case 9
    let ?a = "cq_slot acq (nat ?h)"
    let ?m = "set_cqe_status ?a (word_of_int (or (aq_phase q) (int (NVME_SC_ASYNC_LIMIT * 2)))) (set_cqe_result ?a 0
      (set_cqe_sq_head ?a (word_of_int eid) (set_cqe_sq_id ?a 0 (set_cqe_command_id ?a (command_id cmd) (dev_mem d)))))"
    have q: "admin_q d = Some q" using ok by (simp add: admin_ok_def)
    have eff: "admin_effect cmd d = d" using 9 by (simp add: admin_effect_def admin_opcodes)
    have "admin_handler cmd eid ?h d = Some (d\<lparr>dev_mem := ?m\<rparr>)"
      using 9 admin_ok_entry [OF ok e] cmd q
      by (simp add: admin_handler_def admin_opcodes admin_async_event_def Let_def)
    moreover have "d\<lparr>dev_mem := ?m\<rparr> = (admin_effect cmd d)\<lparr>dev_mem := ?m, dev_events := dev_events d\<rparr>"
      using eff by simp
    then have "\<exists>m ev. d\<lparr>dev_mem := ?m\<rparr> = (admin_effect cmd d)\<lparr>dev_mem := m, dev_events := ev\<rparr>" by blast
    ultimately show ?thesis
      using 9 q by (simp add: handled_def answers_def admin_answers_def admin_status_def admin_opcodes)
  next
    case 10
    have "d = d\<lparr>dev_events := dev_events d\<rparr>" by simp
    moreover have "\<not> admin_answers cmd" "admin_effect cmd d = d"
      using 10 by (elim disjE; simp add: admin_answers_def admin_effect_def admin_opcodes)+
    ultimately have "handled q acq cmd eid d d" by (intro silent)
    moreover have "admin_handler cmd eid ?h d = Some d"
      using 10 by (elim disjE; simp add: admin_handler_def admin_opcodes admin_get_features_def)
    ultimately show ?thesis by simp
  next
    case 11
    have "handled q acq cmd eid d (dev_log ''admin.c'' 341 d)"
      by (rule silent [of _ "dev_events d @ [KernelLog ''admin.c'' 341]"])
         (use 11 in \<open>simp_all add: admin_answers_def admin_effect_def admin_opcodes dev_log_def\<close>)
    moreover have "admin_handler cmd eid ?h d = Some (dev_log ''admin.c'' 341 d)"
      using 11 by (simp add: admin_handler_def)
    ultimately show ?thesis by simp
  qed
qed

lemma proc_admin_req_ok:
  assumes ok: "admin_ok d q asq acq" and e: "0 \<le> eid" "eid < aq_sq_depth q"
    and cmd: "read_command (dev_mem d) (sq_slot asq (nat eid)) = cmd"
    and c: "admin_cmd_ok d (sq_slot asq (nat eid)) cmd"
    and apart: "\<forall>i<64. 16 \<le> unat (sq_slot asq (nat eid) + of_nat i - cq_slot acq (nat (aq_cq_head q)))"
  shows "returns (proc_admin_req eid d) (\<lambda>d'. \<exists>d1. handled q acq cmd eid d d1 \<and>
    d' = d1\<lparr>admin_q := Some (aq_next q)\<rparr>)"
proof -
  obtain d1 where "admin_handler cmd eid (aq_cq_head q) d = Some d1" "handled q acq cmd eid d d1"
    using admin_handler_ok [OF ok e cmd c apart] by (auto elim!: returnsE)
  moreover from this have "admin_q d1 = Some q" by (simp add: handled_def)
  ultimately have "proc_admin_req eid d = Some (d1\<lparr>admin_q := Some (aq_next q)\<rparr>)"
    using admin_ok_entry(2) [OF ok e] cmd ok by (simp add: proc_admin_req_def admin_ok_def)
  then show ?thesis using \<open>handled q acq cmd eid d d1\<close> by (intro returnsI exI conjI) (assumption | rule refl)+
qed

end
