(* ===== verification/Admin_Props.thy ===== *)
theory Admin_Props
  imports Admin_Correct Demo_Device
begin

text \<open>
  The admin commands: every request is answered in its place, new queues are ready for the I/O
  path, the numbers of queues stay within the arrays, and identify reports the storage.
\<close>

section \<open>Witness device\<close>

definition demo_aq :: nvmev_admin_queue where
  "demo_aq = \<lparr>aq_phase = 1, aq_sq_depth = 32, aq_cq_depth = 32, aq_cq_head = 31,
     nvme_sq = Some (page_list 0x30000 1), nvme_cq = Some (page_list 0x31000 1)\<rparr>"

definition admin_cmd :: "u8 \<Rightarrow> u64 \<Rightarrow> u32 \<Rightarrow> u32 \<Rightarrow> nvme_command" where
  "admin_cmd op p c10 c11 = \<lparr>opcode = op, cmd_flags = 0, command_id = 5, nsid = 0, cdw2 = 0, cdw3 = 0,
     metadata = 0, prp1 = p, prp2 = 0, cdw10 = c10, cdw11 = c11, cdw12 = 0, cdw13 = 0, cdw14 = 0, cdw15 = 0\<rparr>"

definition admin_dev :: "nvme_command \<Rightarrow> nvmev_dev" where
  "admin_dev cmd = (demo_dev (blank tiny_sp))\<lparr>admin_q := Some demo_aq, dbs := replicate 1024 9,
     old_dbs := replicate 1024 9, dev_mem := write_bytes (\<lambda>_. 0) 0x30000 (command_bytes cmd)\<rparr>"

lemma admin_dev_ok: "admin_ok (admin_dev cmd) demo_aq 0x30000 0x31000"
  by (auto simp: admin_ok_def admin_dev_def demo_aq_def aqr.ring_ok_def intro!: exI [of _ "Suc 0"])

lemma admin_dev_cmd: "read_command (dev_mem (admin_dev cmd)) (sq_slot 0x30000 (nat 0)) = cmd"
  by (simp add: admin_dev_def sq_slot_def PAGE_SHIFT_def read_command_bytes)

lemma admin_dev_apart:
  "\<forall>i<64. 16 \<le> unat (sq_slot 0x30000 (nat 0) + of_nat i - cq_slot 0x31000 (nat (aq_cq_head demo_aq)))"
proof (intro allI impI)
  fix i :: nat assume "i < 64"
  moreover have "sq_slot 0x30000 (nat 0) + of_nat i - cq_slot 0x31000 (nat (aq_cq_head demo_aq)) = of_nat i - (4592 :: u64)"
    by (simp add: sq_slot_def cq_slot_def demo_aq_def PAGE_SHIFT_def)
  moreover have "unat (of_nat i - (4592 :: u64)) = i + 2 ^ 64 - 4592" if "i < 64"
    using that by (simp add: unat_sub_if_size word_size unat_of_nat)
  ultimately show "16 \<le> unat (sq_slot 0x30000 (nat 0) + of_nat i - cq_slot 0x31000 (nat (aq_cq_head demo_aq)))"
    by (simp only: simp_thms) simp
qed

lemma admin_dev_sizes: "length (sqes (admin_dev cmd)) = 3" "length (cqes (admin_dev cmd)) = 3"
  "length (dbs (admin_dev cmd)) = 1024" "length (old_dbs (admin_dev cmd)) = 1024"
  by (simp_all add: admin_dev_def demo_dev_def)

section \<open>Requests\<close>

text \<open>C20. Every admin request that the handlers can carry out is taken: the device changes as the command
  says, and the completion in the slot at the head carries the command's identifier, its place in
  the submission queue, its status and the phase of the round. The head moves on by one and the
  phase flips where the ring wraps. The commands that have no handler (abort, get features and every
  unknown opcode) take up a slot without anything being written to it.\<close>

theorem proc_admin_req_correct:
  assumes "admin_ok d q asq acq" and "0 \<le> eid" and "eid < aq_sq_depth q"
    and "read_command (dev_mem d) (sq_slot asq (nat eid)) = cmd"
    and "admin_cmd_ok d (sq_slot asq (nat eid)) cmd"
    and "\<forall>i<64. 16 \<le> unat (sq_slot asq (nat eid) + of_nat i - cq_slot acq (nat (aq_cq_head q)))"
  shows "returns (proc_admin_req eid d) (\<lambda>d'. admin_ok d' (aq_next q) asq acq \<and>
    (\<exists>m ev. d' = (admin_effect cmd d)\<lparr>dev_mem := m, dev_events := ev, admin_q := Some (aq_next q)\<rparr>) \<and>
    (if admin_answers cmd then
       (let c = read_completion (dev_mem d') (cq_slot acq (nat (aq_cq_head q))) in
          cqe_command_id c = command_id cmd \<and> cqe_sq_id c = 0 \<and> cqe_sq_head c = word_of_int eid \<and>
          cqe_status c = word_of_int (or (aq_phase q) (int (admin_status cmd * 2))))
     else dev_mem d' = dev_mem d) \<and>
    aq_cq_head (aq_next q) = (aq_cq_head q + 1) mod aq_cq_depth q \<and>
    aq_phase (aq_next q) = (aq_phase q + (aq_cq_head q + 1) div aq_cq_depth q) mod 2)"
proof -
  obtain d1 where 1: "proc_admin_req eid d = Some (d1\<lparr>admin_q := Some (aq_next q)\<rparr>)" "handled q acq cmd eid d d1"
    using proc_admin_req_ok [OF assms] by (auto elim!: returnsE)
  obtain m ev where "d1 = (admin_effect cmd d)\<lparr>dev_mem := m, dev_events := ev\<rparr>"
    using 1(2) by (auto simp: handled_def)
  then have "\<exists>m ev. d1\<lparr>admin_q := Some (aq_next q)\<rparr> =
      (admin_effect cmd d)\<lparr>dev_mem := m, dev_events := ev, admin_q := Some (aq_next q)\<rparr>" by auto
  moreover have "if admin_answers cmd then answers q acq cmd eid (admin_status cmd) d1 else dev_mem d1 = dev_mem d"
    using 1(2) by (simp add: handled_def)
  moreover have "aqr.ring_ok q" using assms(1) by (simp add: admin_ok_def)
  ultimately show ?thesis
    using 1(1) admin_ok_next [OF assms(1), of d1] aqr.posts [of q 1]
    by (simp add: answers_def split: if_splits)
qed

text \<open>C21. Creating a completion queue makes one of the identifier and size asked for whose slots are the
  consecutive entries from the page given, empty and in its first round, with interrupts of the vector of the
  command when they are asked for and none otherwise, and no interrupt pending. It resets the doorbell of the
  queue and touches no other queue and no other doorbell; the identifier is not checked, so one beyond the array writes outside it.\<close>

theorem admin_create_cq_correct:
  assumes "admin_ok d q asq acq" and "0 \<le> eid" and "eid < aq_sq_depth q"
    and "read_command (dev_mem d) (sq_slot asq (nat eid)) = cmd" and "opcode cmd = nvme_admin_create_cq"
    and "2 * length (sqes d) \<le> length (dbs d)" and "2 * length (cqes d) \<le> length (dbs d)"
    and "length (old_dbs d) = length (dbs d)"
    and "\<forall>i<64. 16 \<le> unat (sq_slot asq (nat eid) + of_nat i - cq_slot acq (nat (aq_cq_head q)))"
  shows "if unat (create_cq_cqid cmd) < length (cqes d)
    then returns (proc_admin_req eid d) (\<lambda>d'. \<exists>cq. cqes d' = (cqes d)[unat (create_cq_cqid cmd) := Some cq] \<and>
      cq_ok cq (prp1 cmd) (unat (create_cq_qsize cmd) + 1) \<and> cq_head cq = 0 \<and> cq_phase cq = 1 \<and> cq_tail cq = -1 \<and>
      cq_qid cq = uint (create_cq_cqid cmd) \<and> cq_irq_enabled cq = (create_cq_flags cmd AND NVME_CQ_IRQ_ENABLED \<noteq> 0) \<and>
      cq_irq_vector cq = (if cq_irq_enabled cq then uint (create_cq_irq_vector cmd) else 0) \<and>
      \<not> cq_interrupt_ready cq \<and> cq_phys_contig cq = (create_cq_flags cmd AND NVME_QUEUE_PHYS_CONTIG \<noteq> 0) \<and>
      dbs d' = (dbs d)[2 * unat (create_cq_cqid cmd) + 1 := 0] \<and>
      old_dbs d' = (old_dbs d)[2 * unat (create_cq_cqid cmd) + 1 := 0] \<and>
      sqes d' = sqes d)
    else proc_admin_req eid d = None"
proof (cases "unat (create_cq_cqid cmd) < length (cqes d)")
  case True
  then have c: "admin_cmd_ok d (sq_slot asq (nat eid)) cmd" using assms by (simp add: admin_cmd_ok_def admin_opcodes)
  obtain d1 where 1: "proc_admin_req eid d = Some (d1\<lparr>admin_q := Some (aq_next q)\<rparr>)" "handled q acq cmd eid d d1"
    using proc_admin_req_ok [OF assms(1-4) c assms(9)] by (auto elim!: returnsE)
  obtain m ev where d1: "d1 = (admin_effect cmd d)\<lparr>dev_mem := m, dev_events := ev\<rparr>"
    using 1(2) by (auto simp: handled_def)
  have len: "2 * unat (create_cq_cqid cmd) + 1 < length (dbs d)" using True assms(7) by simp
  have "cqes d1 = (cqes d)[unat (create_cq_cqid cmd) := Some (new_cq cmd)]" "sqes d1 = sqes d"
    "dbs d1 = (dbs d)[2 * unat (create_cq_cqid cmd) + 1 := 0]"
    "old_dbs d1 = (old_dbs d)[2 * unat (create_cq_cqid cmd) + 1 := 0]"
    using len assms(5,8) unfolding d1 by (simp_all add: admin_effect_def admin_opcodes Let_def dev_log_def)
  moreover have "cq_ok (new_cq cmd) (prp1 cmd) (unat (create_cq_qsize cmd) + 1)"
  proof -
    have "unat (create_cq_qsize cmd) < 65536" using unsigned_less [of "create_cq_qsize cmd", where 'a=nat] by simp
    moreover have "nat (uint w + 1) = unat w + 1" for w :: u16 by (simp add: nat_add_distrib)
    moreover have "n \<le> 256 * ((n * 16 + 4095) div 4096)" for n :: nat
      using mult_div_mod_eq [of 4096 "n * 16 + 4095"] mod_less_divisor [of 4096 "n * 16 + 4095"] by linarith
    ultimately show ?thesis
      by (auto simp: cq_ok_def new_cq_def Let_def DIV_ROUND_UP_def PAGE_SIZE_def intro!: exI)
  qed
  moreover have "cq_head (new_cq cmd) = 0" "cq_phase (new_cq cmd) = 1" "cq_tail (new_cq cmd) = -1"
    "cq_qid (new_cq cmd) = uint (create_cq_cqid cmd)"
    "cq_irq_enabled (new_cq cmd) = (create_cq_flags cmd AND NVME_CQ_IRQ_ENABLED \<noteq> 0)"
    "cq_irq_vector (new_cq cmd) = (if cq_irq_enabled (new_cq cmd) then uint (create_cq_irq_vector cmd) else 0)"
    "\<not> cq_interrupt_ready (new_cq cmd)"
    "cq_phys_contig (new_cq cmd) = (create_cq_flags cmd AND NVME_QUEUE_PHYS_CONTIG \<noteq> 0)"
    by (simp_all add: new_cq_def Let_def)
  ultimately show ?thesis
    unfolding if_P [OF True] by (intro returnsI [OF 1(1)] exI [of _ "new_cq cmd"] conjI) simp_all
next
  case False
  then have "admin_create_cq eid (aq_cq_head q) d = None"
    using admin_ok_entry(2) [OF assms(1-3)] assms(4)
    by (simp add: admin_create_cq_def uint_of_unat Let_def dev_log_def arr_set_def)
  then show ?thesis
    using False assms(1,5) admin_ok_entry(2) [OF assms(1-3)] assms(4)
    by (simp add: proc_admin_req_def admin_handler_def admin_opcodes admin_ok_def)
qed

lemma admin_demo_req:
  assumes "admin_cmd_ok (admin_dev cmd) (sq_slot 0x30000 (nat 0)) cmd"
  shows "returns (proc_admin_req 0 (admin_dev cmd)) (\<lambda>d'. \<exists>d1. handled demo_aq 0x31000 cmd 0 (admin_dev cmd) d1 \<and>
    d' = d1\<lparr>admin_q := Some (aq_next demo_aq)\<rparr>)"
  by (rule proc_admin_req_ok [OF admin_dev_ok _ _ admin_dev_cmd assms admin_dev_apart]) (simp_all add: demo_aq_def)

theorem proc_admin_req_correct_witness:
  "returns (proc_admin_req 0 (admin_dev (admin_cmd 0x0c 0 0 0))) (\<lambda>d'.
     cqe_status (read_completion (dev_mem d') (cq_slot 0x31000 31)) = 0x20b \<and>
     (\<exists>q'. admin_q d' = Some q' \<and> aq_cq_head q' = 0 \<and> aq_phase q' = 0))"
proof -
  let ?cmd = "admin_cmd 0x0c 0 0 0"
  have c: "admin_cmd_ok (admin_dev ?cmd) (sq_slot 0x30000 (nat 0)) ?cmd"
    by (simp add: admin_cmd_ok_def admin_opcodes admin_cmd_def admin_dev_sizes)
  have a: "admin_answers ?cmd" "admin_status ?cmd = 0x105"
    by (simp_all add: admin_answers_def admin_status_def admin_opcodes admin_cmd_def NVME_SC_ASYNC_LIMIT_def)
  have q: "aq_cq_head demo_aq = 31" "aq_cq_depth demo_aq = 32" "aq_phase demo_aq = 1" "aq_sq_depth demo_aq = 32"
    by (simp_all add: demo_aq_def)
  have "returns (proc_admin_req 0 (admin_dev ?cmd)) (\<lambda>d'. admin_ok d' (aq_next demo_aq) 0x30000 0x31000 \<and>
      cqe_status (read_completion (dev_mem d') (cq_slot 0x31000 31)) = 0x20b \<and>
      aq_cq_head (aq_next demo_aq) = 0 \<and> aq_phase (aq_next demo_aq) = 0)"
    using proc_admin_req_correct [OF admin_dev_ok _ _ admin_dev_cmd c admin_dev_apart]
    by (simp add: a q Let_def) (auto elim!: returns_mono)
  then show ?thesis by (auto simp: admin_ok_def elim!: returns_mono)
qed

theorem admin_create_cq_correct_witness:
  "returns (proc_admin_req 0 (admin_dev (admin_cmd 5 0x40000 0x003f0002 0x00050003))) (\<lambda>d'. \<exists>cq.
     cqes d' ! 2 = Some cq \<and> cq_ok cq 0x40000 64 \<and> cq_qid cq = 2 \<and> cq_irq_enabled cq \<and> cq_irq_vector cq = 5)"
proof -
  let ?cmd = "admin_cmd 5 0x40000 0x003f0002 0x00050003"
  have id: "unat (create_cq_cqid ?cmd) = 2" "unat (create_cq_qsize ?cmd) = 63" "prp1 ?cmd = 0x40000"
    by (simp_all add: create_cq_cqid_def create_cq_qsize_def lo16_def hi16_def admin_cmd_def)
  have irq: "uint (create_cq_cqid ?cmd) = 2" "uint (create_cq_irq_vector ?cmd) = 5"
    "create_cq_flags ?cmd AND NVME_CQ_IRQ_ENABLED \<noteq> 0"
    by (simp_all add: create_cq_cqid_def create_cq_irq_vector_def create_cq_flags_def NVME_CQ_IRQ_ENABLED_def
        lo16_def hi16_def admin_cmd_def)
  have e: "0 < aq_sq_depth demo_aq" by (simp add: demo_aq_def)
  have op: "opcode ?cmd = nvme_admin_create_cq" by (simp add: admin_cmd_def admin_opcodes)
  show ?thesis
    using admin_create_cq_correct [OF admin_dev_ok order_refl e admin_dev_cmd op _ _ _ admin_dev_apart]
    by (auto simp: id irq admin_dev_sizes elim!: returns_mono)
qed

lemma mask16: "(0xFFFF :: u32) = mask 16"
  by (simp add: mask_eq_exp_minus_1)

lemma lo16_mask: "uint (w AND 0xFFFF) = int (unat (lo16 w))"
proof -
  have "int (unat (lo16 w)) = uint (lo16 w)" by simp
  then show ?thesis
    unfolding mask16 take_bit_eq_mask [symmetric] by (simp add: lo16_def unsigned_take_bit_eq unsigned_ucast_eq)
qed

lemma hi16_mask: "uint (drop_bit 16 w AND 0xFFFF) = int (unat (hi16 w))"
  unfolding lo16_mask by (simp add: lo16_def hi16_def)

lemma halves:
  fixes c s :: int
  assumes "0 \<le> c" "c < 72" "0 \<le> s" "s < 72"
  defines "r \<equiv> word_of_int (or (push_bit 16 c) s) :: u32"
  shows "uint (lo16 r) = s" "uint (hi16 r) = c"
proof -
  have t: "take_bit 16 s = s" "take_bit 16 c = c" "take_bit 32 s = s" "drop_bit 16 s = 0"
    using assms by (simp_all add: take_bit_int_eq_self drop_bit_eq_div)
  have "uint r = or (push_bit 16 c) s"
    by (simp add: r_def uint_word_of_int_eq take_bit_or take_bit_push_bit t)
  then show "uint (lo16 r) = s" "uint (hi16 r) = c"
    by (simp_all add: lo16_def hi16_def unsigned_ucast_eq unsigned_drop_bit_eq take_bit_or drop_bit_or
        take_bit_push_bit drop_bit_push_bit t)
qed

text \<open>Setting the number of queues grants what the host asks for up to the 72 of the arrays, at least one
  of each kind, and reports the granted numbers, less one, in the two halves of the result.\<close>

theorem admin_set_num_queues_correct:
  assumes "admin_ok d q asq acq" and "0 \<le> eid" and "eid < aq_sq_depth q"
    and "read_command (dev_mem d) (sq_slot asq (nat eid)) = cmd" and "opcode cmd = nvme_admin_set_features"
    and "features_fid cmd = NVME_FEAT_NUM_QUEUES"
    and "\<forall>i<64. 16 \<le> unat (sq_slot asq (nat eid) + of_nat i - cq_slot acq (nat (aq_cq_head q)))"
  shows "returns (proc_admin_req eid d) (\<lambda>d'. 1 \<le> nr_sq d' \<and> nr_sq d' \<le> 72 \<and> 1 \<le> nr_cq d' \<and> nr_cq d' \<le> 72 \<and>
    nr_sq d' = min (int (unat (lo16 (features_dword11 cmd))) + 1) 72 \<and>
    nr_cq d' = min (int (unat (hi16 (features_dword11 cmd))) + 1) 72 \<and>
    (let r = cqe_result (read_completion (dev_mem d') (cq_slot acq (nat (aq_cq_head q)))) in
      uint (lo16 r) = nr_sq d' - 1 \<and> uint (hi16 r) = nr_cq d' - 1))"
proof -
  let ?a = "cq_slot acq (nat (aq_cq_head q))"
  let ?d1 = "(admin_effect cmd d)\<lparr>dev_mem := set_cqe_result ?a (word_of_int (or (push_bit 16
    (nr_cq (admin_effect cmd d) - 1)) (nr_sq (admin_effect cmd d) - 1))) (dev_mem d)\<rparr>"
  note S = set_features_ok [OF assms(1-4,7,5,6)]
  have q: "admin_q d = Some q" using assms(1) by (simp add: admin_ok_def)
  have ok1: "admin_ok ?d1 q asq acq" using assms(1) by (simp add: admin_ok_def)
  obtain d2 m' where 2: "admin_complete eid (aq_cq_head q) NVME_SC_SUCCESS ?d1 = Some d2" "d2 = ?d1\<lparr>dev_mem := m'\<rparr>"
    "cqe_result (read_completion m' ?a) = cqe_result (read_completion (dev_mem ?d1) ?a)"
    using admin_complete_ok [OF ok1 assms(2,3) S(2), of NVME_SC_SUCCESS] by (auto elim!: returnsE)
  have run: "proc_admin_req eid d = Some (d2\<lparr>admin_q := Some (aq_next q)\<rparr>)"
    using S(1) 2(1,2) q admin_ok_entry(2) [OF assms(1-3)] assms(4,5)
    by (simp add: proc_admin_req_def admin_handler_def admin_opcodes)
  note w = lo16_mask hi16_mask
  have nr: "nr_sq d2 = min (int (unat (lo16 (features_dword11 cmd))) + 1) 72"
    "nr_cq d2 = min (int (unat (hi16 (features_dword11 cmd))) + 1) 72"
    using assms(5,6) w unfolding 2(2) by (simp_all add: admin_effect_def admin_opcodes)
  show ?thesis
    using run 2(3) nr halves [of "nr_cq d2 - 1" "nr_sq d2 - 1"] unfolding 2(2) by (simp add: Let_def)
qed

theorem admin_set_num_queues_correct_witness:
  "returns (proc_admin_req 0 (admin_dev (admin_cmd 9 0 7 0x00ff0003))) (\<lambda>d'. nr_sq d' = 4 \<and> nr_cq d' = 72)"
proof -
  let ?cmd = "admin_cmd 9 0 7 0x00ff0003"
  have op: "opcode ?cmd = nvme_admin_set_features" "features_fid ?cmd = NVME_FEAT_NUM_QUEUES"
    by (simp_all add: admin_cmd_def admin_opcodes features_fid_def NVME_FEAT_NUM_QUEUES_def)
  have e: "0 < aq_sq_depth demo_aq" by (simp add: demo_aq_def)
  have v: "unat (lo16 (features_dword11 ?cmd)) = 3" "unat (hi16 (features_dword11 ?cmd)) = 255"
    by (simp_all add: features_dword11_def admin_cmd_def lo16_def hi16_def)
  show ?thesis
    using admin_set_num_queues_correct [OF admin_dev_ok order_refl e admin_dev_cmd op admin_dev_apart]
    by (auto simp: v elim!: returns_mono)
qed

section \<open>Identify\<close>

lemma rd64_prefix: "rd64 (write_bytes m a (le64 v @ bs)) a = v"
  by (simp add: rd64_def rd32_def rd16_def write_bytes_apply le64_def le32_def le16_def
      cat16_split cat32_split cat64_split add.assoc)

lemma ns_bytes:
  "rd64 (write_bytes m a (id_ns_bytes (identified_ns s))) a = drop_bit 9 s"
  "id_ns_bytes (identified_ns s) ! 26 = 0" "id_ns_bytes (identified_ns s) ! 130 = 9"
proof -
  have "id_ns_bytes (identified_ns s) = le64 (drop_bit 9 s) @ drop 8 (id_ns_bytes (identified_ns s))"
    by (simp add: id_ns_bytes_def identified_ns_def Let_def lbaf_of_def zero_id_ns_def)
  then show "rd64 (write_bytes m a (id_ns_bytes (identified_ns s))) a = drop_bit 9 s"
    using rd64_prefix by metis
  show "id_ns_bytes (identified_ns s) ! 26 = 0" "id_ns_bytes (identified_ns s) ! 130 = 9"
    by (simp_all add: id_ns_bytes_def identified_ns_def Let_def lbaf_of_def zero_id_ns_def nth_append lbaf_bytes_def
        le16_def le32_def le64_def)
qed

text \<open>C24. Identify namespace tells the host a size in blocks of 512 bytes (format 0, 2 to the 9) that the
  storage really has: each block that the host may address lies within the mapped storage, at the
  offset that the I/O path computes, and less than one block is left over. Of the memory only the page that the
  command names and the completion entry change, of the device only the admin queue.\<close>

theorem identify_namespace_correct:
  assumes "admin_ok d q asq acq" and "0 \<le> eid" and "eid < aq_sq_depth q"
    and "read_command (dev_mem d) (sq_slot asq (nat eid)) = cmd" and "opcode cmd = nvme_admin_identify"
    and "identify_cns cmd \<noteq> 1"
    and "\<forall>i<64. 4096 \<le> unat (sq_slot asq (nat eid) + of_nat i - page_base (prp1 cmd))"
    and "\<forall>i<4096. 16 \<le> unat (page_base (prp1 cmd) + of_nat i - cq_slot acq (nat (aq_cq_head q)))"
  shows "returns (proc_admin_req eid d) (\<lambda>d'. \<exists>nsze. rd64 (dev_mem d') (page_base (prp1 cmd)) = nsze \<and>
    d' = d\<lparr>dev_mem := dev_mem d', admin_q := Some (aq_next q)\<rparr> \<and>
    (\<forall>x. 4096 \<le> unat (x - page_base (prp1 cmd)) \<and> 16 \<le> unat (x - cq_slot acq (nat (aq_cq_head q))) \<longrightarrow>
      dev_mem d' x = dev_mem d x) \<and>
    dev_mem d' (page_base (prp1 cmd) + 26) = 0 \<and> dev_mem d' (page_base (prp1 cmd) + 130) = 9 \<and>
    unat nsze = unat (storage_size (config d)) div 512 \<and>
    (\<forall>slba<nsze. unat (push_bit 9 slba) = 512 * unat slba \<and>
      unat (push_bit 9 slba) + 512 \<le> unat (storage_size (config d))))"
proof -
  let ?p = "page_base (prp1 cmd)" and ?s = "storage_size (config d)" and ?h = "aq_cq_head q"
  let ?d1 = "d\<lparr>dev_mem := write_bytes (dev_mem d) ?p (id_ns_bytes (identified_ns ?s))\<rparr>"
  have q: "admin_q d = Some q" using assms(1) by (simp add: admin_ok_def)
  have h: "admin_handler cmd eid ?h d = admin_complete eid ?h NVME_SC_SUCCESS ?d1"
    using admin_ok_entry(2) [OF assms(1-3)] assms(4,5,6)
    by (simp add: admin_handler_def admin_opcodes admin_identify_namespace_def Let_def)
  have c: "read_command (dev_mem ?d1) (sq_slot asq (nat eid)) = cmd"
    using page_write_command [OF assms(7) id_lengths(2)] assms(4) by simp
  obtain d2 m where 2: "admin_complete eid ?h NVME_SC_SUCCESS ?d1 = Some d2" "d2 = ?d1\<lparr>dev_mem := m\<rparr>"
    "\<And>x. 16 \<le> unat (x - cq_slot acq (nat ?h)) \<Longrightarrow> m x = dev_mem ?d1 x"
    using complete_answers [OF assms(1-3) _ c, of NVME_SC_SUCCESS] by (auto elim!: returnsE)
  have run: "proc_admin_req eid d = Some (d2\<lparr>admin_q := Some (aq_next q)\<rparr>)"
    using h 2(1,2) q admin_ok_entry(2) [OF assms(1-3)] assms(4) by (simp add: proc_admin_req_def)
  have byte: "m (?p + of_nat i) = id_ns_bytes (identified_ns ?s) ! i" "m (?p + of_nat i) = dev_mem ?d1 (?p + of_nat i)"
    if "i < 4096" for i
    using 2(3) [of "?p + of_nat i"] assms(8) that id_lengths(2) by (simp_all add: write_bytes_apply unat_of_nat)
  have "rd64 m ?p = rd64 (dev_mem ?d1) ?p"
    by (rule rd64_cong) (use byte(2) in simp)
  then have nsze: "rd64 m ?p = drop_bit 9 ?s" using ns_bytes(1) by simp
  have u: "unat (drop_bit 9 ?s) = unat ?s div 512" by (simp add: unat_div drop_bit_eq_div)
  have blk: "unat (push_bit 9 slba) = 512 * unat slba" "512 * unat slba + 512 \<le> unat ?s"
    if "slba < drop_bit 9 ?s" for slba :: u64
  proof -
    have "unat slba < unat ?s div 512" using that u by (simp add: word_less_nat_alt)
    then have l: "512 * unat slba + 512 \<le> unat ?s" by linarith
    moreover have "unat ?s < 2 ^ 64" using unsigned_less [of ?s, where 'a=nat] by simp
    ultimately show "unat (push_bit 9 slba) = 512 * unat slba" "512 * unat slba + 512 \<le> unat ?s"
      by (simp_all add: push_bit_eq_mult unat_word_ariths)
  qed
  have frame: "m x = dev_mem d x" if "4096 \<le> unat (x - ?p)" "16 \<le> unat (x - cq_slot acq (nat ?h))" for x
    using 2(3) [OF that(2)] that(1) id_lengths(2) by (simp add: write_bytes_out)
  show ?thesis
    by (rule returnsI [OF run])
       (use nsze u blk frame byte(1) [of 26] byte(1) [of 130] ns_bytes(2,3) [of ?s] in \<open>auto simp: 2(2)\<close>)
qed

theorem identify_namespace_correct_witness:
  "returns (proc_admin_req 0 (admin_dev (admin_cmd 6 0x50000 0 0))) (\<lambda>d'. unat (rd64 (dev_mem d') 0x50000) = 32)"
proof -
  let ?cmd = "admin_cmd 6 0x50000 0 0"
  have op: "opcode ?cmd = nvme_admin_identify" "identify_cns ?cmd \<noteq> 1"
    by (simp_all add: admin_cmd_def admin_opcodes identify_cns_def)
  have e: "0 < aq_sq_depth demo_aq" by (simp add: demo_aq_def)
  have p: "page_base (prp1 ?cmd) = 0x50000"
    by (simp add: admin_cmd_def page_base_def PAGE_OFFSET_MASK_def PAGE_SIZE_def)
  have a1: "\<forall>i<64. 4096 \<le> unat (sq_slot 0x30000 (nat 0) + of_nat i - page_base (prp1 ?cmd))"
    unfolding p by (simp add: sq_slot_def PAGE_SHIFT_def unat_sub_if_size word_size unat_of_nat)
  have a2: "\<forall>i<4096. 16 \<le> unat (page_base (prp1 ?cmd) + of_nat i - cq_slot 0x31000 (nat (aq_cq_head demo_aq)))"
    unfolding p by (simp add: cq_slot_def PAGE_SHIFT_def demo_aq_def unat_word_ariths unat_of_nat)
  have s: "storage_size (config (admin_dev ?cmd)) = 16384" by (simp add: admin_dev_def demo_dev_def demo_cfg_def)
  show ?thesis
    using identify_namespace_correct [OF admin_dev_ok order_refl e admin_dev_cmd op a1 a2]
    unfolding p s by (auto elim!: returns_mono)
qed

end
