(* ===== verification/PCI_Props.thy ===== *)
theory PCI_Props
  imports PCI Admin_Props
begin

text \<open>
  The PCI side: what the host finds in the configuration space, what its writes can change there,
  and how the registers of the controller set up the admin queue.
\<close>

unbundle bit_operations_syntax

section \<open>Bytes of the configuration space\<close>

lemma cfg_put_length [simp]: "off + length bs \<le> length xs \<Longrightarrow> length (cfg_put off bs xs) = length xs"
  by (simp add: cfg_put_def)

lemma cfg_put_nth:
  assumes "off + length bs \<le> length xs" and "i < length xs"
  shows "cfg_put off bs xs ! i = (if off \<le> i \<and> i < off + length bs then bs ! (i - off) else xs ! i)"
  using assms by (auto simp: cfg_put_def nth_append min_def)

lemma upd_length [simp]:
  assumes "length xs = 4096"
  shows "off < 4096 \<Longrightarrow> length (upd8 off f xs) = 4096" "off + 1 < 4096 \<Longrightarrow> length (upd16 off g xs) = 4096"
    "off + 3 < 4096 \<Longrightarrow> length (upd32 off h xs) = 4096"
  using assms by (simp_all add: upd8_def upd16_def upd32_def)

lemma upd_nth:
  assumes "length xs = 4096" and "i < 4096"
  shows "off < 4096 \<Longrightarrow> upd8 off f xs ! i = (if i = off then f (xs ! off) else xs ! i)"
    "off + 1 < 4096 \<Longrightarrow> upd16 off g xs ! i =
       (if off \<le> i \<and> i < off + 2 then le16 (g (cat16 (xs ! off) (xs ! (off + 1)))) ! (i - off) else xs ! i)"
    "off + 3 < 4096 \<Longrightarrow> upd32 off h xs ! i =
       (if off \<le> i \<and> i < off + 4 then le32 (h (cfg32 xs off)) ! (i - off) else xs ! i)"
  using assms by (auto simp: upd8_def upd16_def upd32_def cfg_put_nth cfg8_def cfg16_def)

lemma le_join: "cat16 (le16 v ! 0) (le16 v ! 1) = v"
  "cat32 (cat16 (le32 w ! 0) (le32 w ! 1)) (cat16 (le32 w ! 2) (le32 w ! 3)) = w"
  by (simp_all add: le16_def le32_def cat16_split cat32_split numeral_2_eq_2 numeral_3_eq_3)

lemma cfg_upd:
  assumes "length xs = 4096"
  shows "p + 1 < 4096 \<Longrightarrow> cfg16 (upd16 p g xs) p = g (cfg16 xs p)"
    "off < 4096 \<Longrightarrow> p + 1 < 4096 \<Longrightarrow> off < p \<or> p + 2 \<le> off \<Longrightarrow> cfg16 (upd8 off f xs) p = cfg16 xs p"
    "off + 1 < 4096 \<Longrightarrow> p + 1 < 4096 \<Longrightarrow> off + 2 \<le> p \<or> p + 2 \<le> off \<Longrightarrow> cfg16 (upd16 off g xs) p = cfg16 xs p"
    "off + 3 < 4096 \<Longrightarrow> p + 1 < 4096 \<Longrightarrow> off + 4 \<le> p \<or> p + 2 \<le> off \<Longrightarrow> cfg16 (upd32 off h xs) p = cfg16 xs p"
    "p + 3 < 4096 \<Longrightarrow> cfg32 (upd32 p h xs) p = h (cfg32 xs p)"
    "off < 4096 \<Longrightarrow> p + 3 < 4096 \<Longrightarrow> off < p \<or> p + 4 \<le> off \<Longrightarrow> cfg32 (upd8 off f xs) p = cfg32 xs p"
    "off + 1 < 4096 \<Longrightarrow> p + 3 < 4096 \<Longrightarrow> off + 2 \<le> p \<or> p + 4 \<le> off \<Longrightarrow> cfg32 (upd16 off g xs) p = cfg32 xs p"
    "off + 3 < 4096 \<Longrightarrow> p + 3 < 4096 \<Longrightarrow> off + 4 \<le> p \<or> p + 4 \<le> off \<Longrightarrow> cfg32 (upd32 off h xs) p = cfg32 xs p"
proof -
  show "cfg16 (upd16 p g xs) p = g (cfg16 xs p)" if "p + 1 < 4096"
    using that assms by (simp add: cfg16_def upd_nth le_join(1) [unfolded One_nat_def])
  show "cfg32 (upd32 p h xs) p = h (cfg32 xs p)" if "p + 3 < 4096"
  proof -
    have "upd32 p h xs ! (p + k) = le32 (h (cfg32 xs p)) ! k" if "k < 4" for k
      using that \<open>p + 3 < 4096\<close> assms by (simp add: upd_nth)
    from this [of 0] this [of 1] this [of 2] this [of 3] show ?thesis
      by (simp add: cfg32_def [of "upd32 p h xs"] cfg16_def le_join [unfolded One_nat_def numeral_2_eq_2 numeral_3_eq_3]
          numeral_2_eq_2 numeral_3_eq_3)
  qed
qed (use assms in \<open>auto simp: cfg16_def cfg32_def upd_nth\<close>)

lemma settings_length [simp]:
  assumes "length xs = 4096"
  shows "length (PCI_HEADER_SETTINGS R 0 b xs) = 4096" "length (PCI_PMCAP_SETTINGS R 0x40 xs) = 4096"
    "length (PCI_MSIXCAP_SETTINGS R 0x50 xs) = 4096" "length (PCI_PCIECAP_SETTINGS R 0x60 xs) = 4096"
    "length (PCI_AERCAP_SETTINGS R 256 xs) = 4096" "length (PCI_PCIE_EXTCAP_SETTINGS R 256 xs) = 4096"
  using assms
  by (simp_all add: PCI_HEADER_SETTINGS_def PCI_PMCAP_SETTINGS_def PCI_MSIXCAP_SETTINGS_def PCI_PCIECAP_SETTINGS_def
      PCI_AERCAP_SETTINGS_def PCI_PCIE_EXTCAP_SETTINGS_def ext_header_def exp_hdr_at_def Let_def)

text \<open>Each group of settings changes only the bytes of its structure.\<close>

lemma settings_frame:
  assumes "length xs = 4096" and "i < 4096"
  shows "0x40 \<le> i \<Longrightarrow> PCI_HEADER_SETTINGS R 0 b xs ! i = xs ! i"
    "i < 0x40 \<or> 0x46 \<le> i \<Longrightarrow> PCI_PMCAP_SETTINGS R 0x40 xs ! i = xs ! i"
    "i < 0x50 \<or> 0x5c \<le> i \<Longrightarrow> PCI_MSIXCAP_SETTINGS R 0x50 xs ! i = xs ! i"
    "i < 0x60 \<or> 0x68 \<le> i \<Longrightarrow> PCI_PCIECAP_SETTINGS R 0x60 xs ! i = xs ! i"
    "i < 256 \<or> 260 \<le> i \<Longrightarrow> PCI_AERCAP_SETTINGS R 256 xs ! i = xs ! i"
    "i < 576 \<Longrightarrow> PCI_PCIE_EXTCAP_SETTINGS R 256 xs ! i = xs ! i"
  using assms
  by (auto simp: PCI_HEADER_SETTINGS_def PCI_PMCAP_SETTINGS_def PCI_MSIXCAP_SETTINGS_def PCI_PCIECAP_SETTINGS_def
      PCI_AERCAP_SETTINGS_def PCI_PCIE_EXTCAP_SETTINGS_def ext_header_def exp_hdr_at_def Let_def
      upd_nth)

section \<open>The configuration space after the settings\<close>

abbreviation fresh_cfg :: "pci_regs \<Rightarrow> u64 \<Rightarrow> u8 list" where
  "fresh_cfg R b \<equiv> pci_config_settings R b (replicate 4096 0)"

lemma bits_set_zero [simp]: "bits_set lo n v 0 = push_bit lo (v AND mask n)"
  by (simp add: bits_set_def)

lemma fresh_length [simp]: "length (fresh_cfg R b) = 4096"
  by (simp add: pci_config_settings_def cfg_offsets)

lemma fresh_std:
  "i < 0x40 \<Longrightarrow> fresh_cfg R b ! i = PCI_HEADER_SETTINGS R 0 b (replicate 4096 0) ! i"
  "fresh_cfg R b ! 0x40 = PCI_CAP_ID_PM R" "fresh_cfg R b ! 0x41 = 0x50"
  "fresh_cfg R b ! 0x50 = PCI_CAP_ID_MSIX R" "fresh_cfg R b ! 0x51 = 0x60"
  "fresh_cfg R b ! 0x60 = PCI_CAP_ID_EXP R" "fresh_cfg R b ! 0x61 = 0"
proof -
  show "i < 0x40 \<Longrightarrow> fresh_cfg R b ! i = PCI_HEADER_SETTINGS R 0 b (replicate 4096 0) ! i"
    by (simp add: pci_config_settings_def cfg_offsets settings_frame)
  show "fresh_cfg R b ! 0x40 = PCI_CAP_ID_PM R" "fresh_cfg R b ! 0x41 = 0x50"
    by (simp_all add: pci_config_settings_def cfg_offsets settings_frame, simp_all add: PCI_PMCAP_SETTINGS_def
        Let_def upd_nth cfg_offsets)
  show "fresh_cfg R b ! 0x50 = PCI_CAP_ID_MSIX R" "fresh_cfg R b ! 0x51 = 0x60"
    by (simp_all add: pci_config_settings_def cfg_offsets settings_frame, simp_all add: PCI_MSIXCAP_SETTINGS_def
        Let_def upd_nth cfg_offsets)
  show "fresh_cfg R b ! 0x60 = PCI_CAP_ID_EXP R" "fresh_cfg R b ! 0x61 = 0"
    by (simp_all add: pci_config_settings_def cfg_offsets settings_frame, simp_all add: PCI_PCIECAP_SETTINGS_def
        Let_def upd_nth cfg_offsets)
qed

lemma fresh_header:
  "fresh_cfg R b ! 0x34 = 0x40"
  "cfg32 (fresh_cfg R b) 0x10 = bits_set 14 18 (ucast (drop_bit 14 (b AND 0xFFFFFFFF)))
     (bits_set 1 2 (drop_bit 1 (PCI_BASE_ADDRESS_MEM_TYPE_64 R)) 0)"
proof -
  show "fresh_cfg R b ! 0x34 = 0x40"
    by (simp add: fresh_std(1), simp add: PCI_HEADER_SETTINGS_def Let_def upd_nth cfg_offsets)
  show "cfg32 (fresh_cfg R b) 0x10 = bits_set 14 18 (ucast (drop_bit 14 (b AND 0xFFFFFFFF)))
     (bits_set 1 2 (drop_bit 1 (PCI_BASE_ADDRESS_MEM_TYPE_64 R)) 0)"
  proof -
    have "cfg32 (fresh_cfg R b) 0x10 = cfg32 (PCI_HEADER_SETTINGS R 0 b (replicate 4096 0)) 0x10"
      by (simp add: cfg32_def cfg16_def fresh_std(1))
    moreover have "cfg32 (replicate 4096 0) 0x10 = 0" by (simp add: cfg32_def cfg16_def cat32_def cat16_def)
    ultimately show ?thesis by (simp add: PCI_HEADER_SETTINGS_def Let_def cfg_upd)
  qed
qed

lemma cfg_after:
  assumes "length xs = 4096"
  shows "off + 1 < 4096 \<Longrightarrow> off + 1 < 576 \<Longrightarrow> cfg16 (PCI_PCIE_EXTCAP_SETTINGS R 256 xs) off = cfg16 xs off"
    "off + 3 < 576 \<Longrightarrow> cfg32 (PCI_PCIE_EXTCAP_SETTINGS R 256 xs) off = cfg32 xs off"
    "off + 3 < 256 \<or> 260 \<le> off \<and> off < 4000 \<Longrightarrow> cfg32 (PCI_AERCAP_SETTINGS R 256 xs) off = cfg32 xs off"
    "off + 3 < 0x60 \<or> 0x68 \<le> off \<and> off < 4000 \<Longrightarrow> cfg32 (PCI_PCIECAP_SETTINGS R 0x60 xs) off = cfg32 xs off"
    "off + 3 < 0x50 \<or> 0x5c \<le> off \<and> off < 4000 \<Longrightarrow> cfg32 (PCI_MSIXCAP_SETTINGS R 0x50 xs) off = cfg32 xs off"
    "off + 3 < 0x40 \<or> 0x46 \<le> off \<and> off < 4000 \<Longrightarrow> cfg32 (PCI_PMCAP_SETTINGS R 0x40 xs) off = cfg32 xs off"
    "0x40 \<le> off \<and> off < 4000 \<Longrightarrow> cfg32 (PCI_HEADER_SETTINGS R 0 b xs) off = cfg32 xs off"
  using assms by (auto simp: cfg32_def cfg16_def settings_frame)

lemma cfg32_blank: "off < 4000 \<Longrightarrow> cfg32 (replicate 4096 0) off = 0"
  by (simp add: cfg32_def cfg16_def cat32_def cat16_def)

text \<open>The MSI-X table and its pending bits, as offsets in the BAR.\<close>

lemma fresh_msix: "cfg32 (fresh_cfg R b) 0x54 = 0x2000" "cfg32 (fresh_cfg R b) 0x58 = 0x8000"
  by (simp_all add: pci_config_settings_def cfg_offsets cfg_after,
      simp_all add: PCI_MSIXCAP_SETTINGS_def Let_def cfg_upd cfg_after cfg32_blank bits_set_def mask_eq_exp_minus_1)

lemma fresh_ext:
  "cfg16 (fresh_cfg R b) 0x100 = PCI_EXT_CAP_ID_ERR R" "bits_get 4 12 (cfg16 (fresh_cfg R b) 0x102) = 0x150"
  "cfg32 (fresh_cfg R b) 0x150 = 0" "cfg16 (fresh_cfg R b) 0x240 = PCI_EXT_CAP_ID_VC R"
proof -
  show "cfg16 (fresh_cfg R b) 0x100 = PCI_EXT_CAP_ID_ERR R"
    by (simp add: pci_config_settings_def cfg_offsets cfg_after,
        simp add: PCI_AERCAP_SETTINGS_def ext_header_def Let_def cfg_upd)
  have "cfg16 (PCI_PCIECAP_SETTINGS R 96 (PCI_MSIXCAP_SETTINGS R 80 (PCI_PMCAP_SETTINGS R 64
      (PCI_HEADER_SETTINGS R 0 b (replicate 4096 0))))) 0x102 = 0"
    by (simp add: cfg16_def settings_frame cat16_def)
  then show "bits_get 4 12 (cfg16 (fresh_cfg R b) 0x102) = 0x150"
    by (simp add: pci_config_settings_def cfg_offsets cfg_after,
        simp add: PCI_AERCAP_SETTINGS_def ext_header_def Let_def cfg_upd cfg_offsets bits_set_def bits_get_def
          mask_eq_exp_minus_1)
  show "cfg32 (fresh_cfg R b) 0x150 = 0"
    by (simp add: pci_config_settings_def cfg_offsets cfg_after cfg32_blank)
  show "cfg16 (fresh_cfg R b) 0x240 = PCI_EXT_CAP_ID_VC R"
    by (simp add: pci_config_settings_def cfg_offsets,
        simp add: PCI_PCIE_EXTCAP_SETTINGS_def ext_header_def exp_hdr_at_def Let_def cfg_upd)
qed

section \<open>Capabilities\<close>

text \<open>The lists that the host walks: identifier and offset of each entry.\<close>

fun std_caps :: "nat \<Rightarrow> u8 list \<Rightarrow> u8 \<Rightarrow> (u8 \<times> nat) list" where
  "std_caps 0 xs p = []"
| "std_caps (Suc n) xs p = (if p = 0 then [] else (xs ! unat p, unat p) # std_caps n xs (xs ! (unat p + 1)))"

fun ext_caps :: "nat \<Rightarrow> u8 list \<Rightarrow> nat \<Rightarrow> (u16 \<times> nat) list" where
  "ext_caps 0 xs p = []"
| "ext_caps (Suc n) xs p = (if p = 0 then [] else
     (cfg16 xs p, p) # ext_caps n xs (unat (bits_get 4 12 (cfg16 xs (p + 2)))))"

text \<open>C22. The capability list of a new device ends and holds the power management, the MSI-X and the PCI
  Express capability. The list of extended capabilities breaks off: the error reporting capability
  points to offset 0x150, where nothing was written, because the source adds byte offsets to a
  pointer to a structure of four bytes; the next capability was put at 0x240.\<close>

theorem capability_lists:
  "std_caps (Suc (Suc (Suc (Suc n)))) (fresh_cfg R b) (fresh_cfg R b ! 0x34) =
     [(PCI_CAP_ID_PM R, OFFS_PCI_PM_CAP), (PCI_CAP_ID_MSIX R, OFFS_PCI_MSIX_CAP), (PCI_CAP_ID_EXP R, OFFS_PCIE_CAP)] \<and>
   ext_caps (Suc (Suc (Suc n))) (fresh_cfg R b) PCI_CFG_SPACE_SIZE = [(PCI_EXT_CAP_ID_ERR R, 0x100), (0, 0x150)] \<and>
   cfg16 (fresh_cfg R b) 0x240 = PCI_EXT_CAP_ID_VC R"
proof -
  have z: "cfg16 (fresh_cfg R b) 0x150 = 0 \<and> cfg16 (fresh_cfg R b) 0x152 = 0"
  proof -
    have "fresh_cfg R b ! i = 0" if "i \<in> {0x150, 0x151, 0x152, 0x153}" for i
      using that by (auto simp: pci_config_settings_def cfg_offsets settings_frame)
    then show ?thesis by (simp add: cfg16_def cat16_def)
  qed
  then show ?thesis
    using fresh_ext [of R b] fresh_std [where R = R and b = b] fresh_header(1) [of R b]
    by (simp add: cfg_offsets bits_get_def)
qed

section \<open>Accesses\<close>

lemma cfg32_bytes: "cfg32 [a, b, c, e] 0 = cat32 (cat16 a b) (cat16 c e)"
  by (simp add: cfg32_def cfg16_def numeral_2_eq_2)

lemma cat_bit:
  "bit (cat32 (cat16 a b) (cat16 c e)) j = (if j < 8 then bit a j else if j < 16 then bit b (j - 8)
      else if j < 24 then bit c (j - 16) else j < 32 \<and> bit e (j - 24))"
  by (auto simp: cat32_def cat16_def bit_simps dest: bit_imp_le_length)

lemma le32_alt: "le32 w = [ucast w, ucast (drop_bit 8 w), ucast (drop_bit 16 w), ucast (drop_bit 24 w)]"
  by (auto simp: le32_def le16_def intro!: bit_word_eqI simp: bit_simps)

lemma bytes_into_bit:
  assumes "n = 1 \<or> n = 2 \<or> n = 4"
  shows "bit (bytes_into (take n (le32 val)) v) j = (if j < 8 * n then bit val j else bit v j)"
proof -
  have "\<not> j < 32 \<Longrightarrow> \<not> bit val j \<and> \<not> bit v j"
    using bit_imp_le_length [of val j] bit_imp_le_length [of v j] by auto
  moreover have "j < 16 \<Longrightarrow> j - 8 < 8" "j < 24 \<Longrightarrow> j - 16 < 8" "j < 32 \<Longrightarrow> j - 24 < 8" by arith+
  ultimately show ?thesis
    using assms
    by (cases "j < 32") (auto simp: bytes_into_def Let_def le32_alt cfg32_bytes cat_bit bit_simps split: if_splits)
qed

lemma bytes_into_low:
  assumes "length bs = n" and "n = 1 \<or> n = 2 \<or> n = 4" and "j < 8 * n"
  shows "bit (bytes_into bs x) j = bit (bytes_into bs y) j"
proof -
  have "length bs = Suc 0 \<or> length bs = Suc (Suc 0) \<or> length bs = Suc (Suc (Suc (Suc 0)))" using assms by auto
  then consider a where "bs = [a]" | a b where "bs = [a, b]" | a b c e where "bs = [a, b, c, e]"
    by (auto simp: length_Suc_conv)
  then show ?thesis
    using assms by cases (auto simp: bytes_into_def Let_def le32_alt cfg32_bytes cat_bit)
qed

lemma bytes_into_length: "n \<le> 4 \<Longrightarrow> length (take n (le32 v)) = n"
  by simp

lemma pci_write_bits:
  assumes "length (virtDev d) = 4096" and "0 \<le> wh" and "wh + int n \<le> 4096" and "n = 1 \<or> n = 2 \<or> n = 4"
    and "nvmev_pci_read d 0 wh (int n) v0 = Some (0, old)"
  shows "returns (nvmev_pci_write junk devfn wh (int n) w d) (\<lambda>(r, d'). r = 0 \<and>
    (\<forall>i<4096. int i < wh \<or> wh + int n \<le> int i \<longrightarrow> virtDev d' ! i = virtDev d ! i) \<and>
    (\<exists>new. nvmev_pci_read d' 0 wh (int n) v = Some (0, new) \<and>
      (\<forall>j<32. bit new j = (if 8 * n \<le> j then bit v j else if bit (cfg_mask wh) j then bit w j else bit old j))))"
proof -
  let ?bs = "take n (drop (nat wh) (virtDev d))"
  have n4: "n \<le> 4" using assms(4) by auto
  have rd: "cfg_bytes d wh (int n) = Some ?bs" using assms(1,2,3) n4 by (simp add: cfg_bytes_def)
  have lb: "length ?bs = n" using assms(1,2,3) by simp
  have old: "old = bytes_into ?bs v0" using assms(5) rd by (simp add: nvmev_pci_read_def)
  define val where "val = (bytes_into ?bs junk AND NOT (cfg_mask wh)) OR (w AND cfg_mask wh)"
  let ?d' = "(if int OFFS_PCI_MSIX_CAP \<le> wh \<and> wh < int OFFS_PCIE_CAP \<and> wh - int OFFS_PCI_MSIX_CAP = 2 \<and>
      bytes_into ?bs junk AND cfg_mask wh = cfg_mask wh then d\<lparr>msix_enabled := True\<rparr> else d)
    \<lparr>virtDev := cfg_put (nat wh) (take n (le32 val)) (virtDev d)\<rparr>"
  have run: "nvmev_pci_write junk devfn wh (int n) w d = Some (0, ?d')"
    using rd by (auto simp: nvmev_pci_write_def val_def Let_def)
  have put: "nat wh + length (take n (le32 val)) \<le> length (virtDev d)" "length (take n (le32 val)) = n"
    using assms(1,2,3) n4 by simp_all
  have frame: "virtDev ?d' ! i = virtDev d ! i" if "i < 4096" "int i < wh \<or> wh + int n \<le> int i" for i
    using that assms(1,2) put by (auto simp: cfg_put_nth)
  have "length (virtDev ?d') = 4096" using put assms(1) by simp
  moreover have "take n (drop (nat wh) (virtDev ?d')) = take n (le32 val)"
    using put by (simp add: cfg_put_def)
  ultimately have "nvmev_pci_read ?d' 0 wh (int n) v = Some (0, bytes_into (take n (le32 val)) v)"
    using assms(2,3) n4 by (simp add: nvmev_pci_read_def cfg_bytes_def)
  moreover have "bit (bytes_into (take n (le32 val)) v) j =
      (if 8 * n \<le> j then bit v j else if bit (cfg_mask wh) j then bit w j else bit old j)" if "j < 32" for j
    using that bytes_into_bit [OF assms(4), of val v j] bytes_into_low [OF lb assms(4), of j junk v0]
    by (auto simp: val_def bit_simps old)
  ultimately show ?thesis using frame by (intro returnsI [OF run]) blast
qed

text \<open>C26. A write of the host to the configuration space changes, of the bytes it addresses, exactly the bits
  that are writable at that offset, and no other byte: a read of the same bytes returns the old
  value with the writable bits replaced.\<close>

theorem pci_write_read:
  assumes "length (virtDev d) = 4096" and "0 \<le> wh" and "wh + int n \<le> 4096" and "n = 1 \<or> n = 2 \<or> n = 4"
    and "nvmev_pci_read d 0 wh (int n) v0 = Some (0, old)"
  shows "returns (nvmev_pci_write junk devfn wh (int n) w d) (\<lambda>(r, d'). r = 0 \<and>
    (\<forall>i<4096. int i < wh \<or> wh + int n \<le> int i \<longrightarrow> virtDev d' ! i = virtDev d ! i) \<and>
    (\<exists>new. nvmev_pci_read d' 0 wh (int n) v = Some (0, new) \<and>
      (\<forall>j<32. bit new j = (if 8 * n \<le> j then bit v j else if bit (cfg_mask wh) j then bit w j else bit old j))))"
  by (rule pci_write_bits [OF assms])

text \<open>A device whose configuration space has just been set up, at 1 GiB.\<close>

definition demo_regs :: pci_regs where
  "demo_regs = \<lparr>PCI_HEADER_TYPE_NORMAL = 0, PCI_BASE_CLASS_STORAGE = 1, PCI_BASE_ADDRESS_MEM_TYPE_64 = 4,
     PCI_CAP_ID_PM = 1, PCI_PM_CAP_PME_D0 = 0x800, PCI_CAP_ID_MSIX = 0x11, PCI_CAP_ID_EXP = 0x10, PCI_EXP_FLAGS = 2,
     PCI_EXP_TYPE_ENDPOINT = 0, PCI_EXT_CAP_ID_ERR = 1, PCI_EXT_CAP_ID_VC = 2, PCI_EXT_CAP_ID_PWR = 4,
     PCI_EXT_CAP_ID_ARI = 0xe, PCI_EXT_CAP_ID_DSN = 3, PCI_EXT_CAP_ID_SECPCI = 0x19\<rparr>"

definition fresh_dev :: nvmev_dev where
  "fresh_dev = (demo_dev (blank tiny_sp))\<lparr>virtDev := fresh_cfg demo_regs 0x40000000\<rparr>"

lemma fresh_dev_length: "length (virtDev fresh_dev) = 4096"
  by (simp add: fresh_dev_def)

lemma fresh_dev_read:
  assumes "0 \<le> wh" and "wh + int n \<le> 4096" and "n \<le> 4"
  shows "nvmev_pci_read fresh_dev 0 wh (int n) 0 =
    Some (0, bytes_into (take n (drop (nat wh) (virtDev fresh_dev))) 0)"
  using assms fresh_dev_length by (simp add: nvmev_pci_read_def cfg_bytes_def)

theorem pci_write_read_witness:
  "returns (nvmev_pci_write 0 0 4 (int 2) 0xFFFF fresh_dev) (\<lambda>(r, d'). r = 0 \<and> virtDev d' ! 0 = virtDev fresh_dev ! 0 \<and>
     (\<exists>new. nvmev_pci_read d' 0 4 (int 2) 0 = Some (0, new) \<and> bit new 1 \<and> \<not> bit new 16))"
proof -
  have m: "bit (cfg_mask 4) 1" by (simp add: cfg_mask_def cfg_offsets hdr_mask_def)
  show ?thesis
    by (rule returns_mono [OF pci_write_read [OF fresh_dev_length _ _ _ fresh_dev_read, where v = 0]])
       (use m in auto)
qed

text \<open>The host sizes the BAR by writing ones to it: it reads back a 64-bit memory BAR of 16 KiB. The MSI-X
  table of the 72 vectors that the module maps lies inside, behind the two pages of registers and
  doorbells, but the pending bits that the capability announces lie outside.\<close>

theorem bar_sizing:
  assumes "virtDev d = fresh_cfg R b" and "PCI_BASE_ADDRESS_MEM_TYPE_64 R = 4"
  shows "returns (nvmev_pci_write junk 0 0x10 4 0xFFFFFFFF d) (\<lambda>(r, d'). \<exists>new.
    nvmev_pci_read d' 0 0x10 4 v = Some (0, new) \<and> new = 0xFFFFC004 \<and>
    (let sz = unat (- (new AND NOT 0xF)); table = unat (cfg32 (virtDev d') 0x54 AND NOT 7);
         pba = unat (cfg32 (virtDev d') 0x58 AND NOT 7)
     in sz = 4 * PAGE_SIZE \<and> 2 * PAGE_SIZE \<le> table \<and> table + 16 * NR_MAX_IO_QUEUE \<le> sz \<and> sz \<le> pba))"
proof -
  let ?old = "bytes_into (take 4 (drop 0x10 (virtDev d))) 0"
  have len: "length (virtDev d) = 4096" using assms(1) by simp
  have rd: "nvmev_pci_read d 0 0x10 (int 4) 0 = Some (0, ?old)"
    using len by (simp add: nvmev_pci_read_def cfg_bytes_def)
  have t4: "take 4 (drop 0x10 (virtDev d)) = [virtDev d ! 0x10, virtDev d ! 0x11, virtDev d ! 0x12, virtDev d ! 0x13]"
    using len by (intro nth_equalityI) (auto simp: less_Suc_eq numeral_eq_Suc)
  have "?old = cfg32 (virtDev d) 0x10"
    unfolding t4 by (simp add: bytes_into_def cfg32_bytes le32_alt) (simp add: cfg32_def cfg16_def)
  then have old: "?old = bits_set 14 18 (ucast (drop_bit 14 (b AND 0xFFFFFFFF))) 4"
    using fresh_header(2) [of R b] assms by (simp add: mask_eq_exp_minus_1)
  have low: "bit ?old j = bit (4 :: u32) j" if "j < 14" for j
    using that by (simp add: old bits_set_def bit_simps)
  have m: "cfg_mask 0x10 = 0xFFFFC000" by (simp add: cfg_mask_def cfg_offsets hdr_mask_def)
  have mb: "bit (0xFFFFC000 :: u32) j = (14 \<le> j \<and> j < 32)" for j
  proof -
    have "(0xFFFFC000 :: u32) = push_bit 14 (mask 18)" by (simp add: mask_eq_exp_minus_1)
    then show ?thesis by (simp only: bit_push_bit_iff bit_mask_iff) auto
  qed
  have ones: "bit (0xFFFFFFFF :: u32) j = (j < 32)" for j
  proof -
    have "(0xFFFFFFFF :: u32) = mask 32" by (simp add: mask_eq_exp_minus_1)
    then show ?thesis by (simp only: bit_mask_iff) auto
  qed
  obtain d' new where w: "nvmev_pci_write junk 0 0x10 4 0xFFFFFFFF d = Some (0, d')"
    "\<forall>i<4096. int i < 0x10 \<or> 0x14 \<le> int i \<longrightarrow> virtDev d' ! i = virtDev d ! i"
    "nvmev_pci_read d' 0 0x10 4 v = Some (0, new)"
    "\<forall>j<32. bit new j = (if bit (0xFFFFC000 :: u32) j then bit (0xFFFFFFFF :: u32) j else bit ?old j)"
    using pci_write_bits [OF len _ _ _ rd, of junk 0 "0xFFFFFFFF" v] m by (auto elim!: returnsE)
  have "new = (0xFFFFC000 OR 4)"
  proof (rule bit_word_eqI)
    fix j assume "j < LENGTH(32)"
    then have j: "j < 32" by simp
    have "bit new j = (14 \<le> j \<or> bit ?old j)" using w(4) [rule_format, OF j] j unfolding mb ones by simp
    also have "\<dots> = (14 \<le> j \<or> bit (4 :: u32) j)" using low by (cases "14 \<le> j") simp_all
    also have "\<dots> = bit (0xFFFFC000 OR 4 :: u32) j" unfolding bit_or_iff mb using j by blast
    finally show "bit new j = bit (0xFFFFC000 OR 4 :: u32) j" .
  qed
  then have new: "new = 0xFFFFC004" by simp
  have "cfg32 (virtDev d') 0x54 = 0x2000" "cfg32 (virtDev d') 0x58 = 0x8000"
    using fresh_msix [of R b] w(2) assms(1) by (simp_all add: cfg32_def cfg16_def)
  then show ?thesis
    by (intro returnsI [OF w(1)]) (use w(3) new in \<open>simp add: PAGE_SIZE_def NR_MAX_IO_QUEUE_def\<close>)
qed

theorem bar_sizing_witness:
  "returns (nvmev_pci_write 0 0 0x10 4 0xFFFFFFFF fresh_dev) (\<lambda>(r, d'). nvmev_pci_read d' 0 0x10 4 0 = Some (0, 0xFFFFC004))"
  by (rule returns_mono [OF bar_sizing [where R = demo_regs and b = "0x40000000"]])
     (auto simp: fresh_dev_def demo_regs_def)

section \<open>Registers\<close>

text \<open>Nothing happens while no register differs from its copy.\<close>

lemma proc_bars_stable:
  assumes "bar_intms (old_bar d) = bar_intms (bar d)" and "bar_intmc (old_bar d) = bar_intmc (bar d)"
    and "bar_nssr (old_bar d) = bar_nssr (bar d)" and "bar_aqa (old_bar d) = bar_aqa (bar d)"
    and "bar_asq (old_bar d) = bar_asq (bar d)" and "bar_acq (old_bar d) = bar_acq (bar d)"
    and "bar_cc (old_bar d) = bar_cc (bar d)"
  shows "nvmev_proc_bars d = Some d"
proof -
  have "copy_intms d = d\<lparr>old_bar := old_bar d\<rparr>"
    unfolding copy_intms_def assms(1-3) [symmetric] by (rule arg_cong [where f = "\<lambda>b. d\<lparr>old_bar := b\<rparr>"]) simp
  then have "copy_intms d = d" by simp
  then show ?thesis using assms(4-7) by (simp add: nvmev_proc_bars_def proc_aqa_def proc_asq_def proc_acq_def proc_cc_def)
qed

text \<open>C27. A host that sets the attributes and the base addresses of the admin queue and enables the controller
  gets, in one pass of the dispatcher, an admin queue of the depths asked for at those addresses,
  empty and in its first round, and a controller that says it is ready; nothing is logged, and
  another pass changes nothing.\<close>

theorem controller_enable_correct:
  assumes "admin_q d = None" and "bar_aqa (old_bar d) \<noteq> bar_aqa (bar d)" and "bar_asq (old_bar d) \<noteq> bar_asq (bar d)"
    and "bar_acq (old_bar d) \<noteq> bar_acq (bar d)" and "bar_cc (old_bar d) \<noteq> bar_cc (bar d)" and "cc_en (bar d) = 1"
  shows "returns (nvmev_proc_bars d) (\<lambda>d'. (\<exists>q. admin_ok d' q (bar_asq (bar d)) (bar_acq (bar d)) \<and>
      aq_sq_depth q = uint (aqa_asqs (bar d)) + 1 \<and> aq_cq_depth q = uint (aqa_acqs (bar d)) + 1 \<and>
      aq_cq_head q = 0 \<and> aq_phase q = 1) \<and>
    csts_rdy (bar d') = 1 \<and> dev_events d' = dev_events d \<and> nvmev_proc_bars d' = Some d')"
proof -
  let ?ns = "DIV_ROUND_UP (nat (uint (aqa_asqs (bar d)) + 1) * 64) PAGE_SIZE"
  let ?nc = "DIV_ROUND_UP (nat (uint (aqa_acqs (bar d)) + 1) * 16) PAGE_SIZE"
  let ?q = "\<lparr>aq_phase = 1, aq_sq_depth = uint (aqa_asqs (bar d)) + 1, aq_cq_depth = uint (aqa_acqs (bar d)) + 1,
    aq_cq_head = 0, nvme_sq = Some (page_list (bar_asq (bar d)) ?ns), nvme_cq = Some (page_list (bar_acq (bar d)) ?nc)\<rparr>"
  let ?b = "if cc_shn (bar d) = 1 then set_csts_shst 2 (set_csts_rdy 1 (bar d)) else set_csts_rdy 1 (bar d)"
  let ?d' = "d\<lparr>old_bar := (old_bar d)\<lparr>bar_intms := bar_intms (bar d), bar_intmc := bar_intmc (bar d),
      bar_nssr := bar_nssr (bar d), bar_aqa := bar_aqa (bar d), bar_asq := bar_asq (bar d), bar_acq := bar_acq (bar d),
      bar_cc := bar_cc (bar d)\<rparr>, admin_q := Some ?q, bar := ?b\<rparr>"
  have keep: "cc_shn (set_csts_rdy 1 x) = cc_shn x" "bar_cc (set_csts_rdy 1 x) = bar_cc x"
    "bar_cc (set_csts_shst 2 x) = bar_cc x" for x
    by (simp_all add: set_csts_rdy_def set_csts_shst_def cc_shn_def)
  have run: "nvmev_proc_bars d = Some ?d'"
    using assms by (simp add: nvmev_proc_bars_def copy_intms_def proc_aqa_def proc_asq_def proc_acq_def proc_cc_def
        Let_def keep)
  have again: "nvmev_proc_bars ?d' = Some ?d'"
    by (rule proc_bars_stable) (simp_all add: set_csts_rdy_def set_csts_shst_def)
  have b12: "0 \<le> uint (w AND 0xFFF) \<and> uint (w AND 0xFFF) + 1 \<le> 4096" for w :: u32
  proof -
    have "w AND 0xFFF \<le> 0xFFF" by (rule word_and_le1)
    then show ?thesis by (simp add: word_le_def)
  qed
  have n: "int k \<le> int (64 * DIV_ROUND_UP (k * 64) PAGE_SIZE)" "int k \<le> int (256 * DIV_ROUND_UP (k * 16) PAGE_SIZE)" for k
    using mult_div_mod_eq [of 4096 "k * 64 + 4095"] mod_less_divisor [of 4096 "k * 64 + 4095"]
      mult_div_mod_eq [of 4096 "k * 16 + 4095"] mod_less_divisor [of 4096 "k * 16 + 4095"]
    by (simp_all add: DIV_ROUND_UP_def PAGE_SIZE_def)
  have "admin_ok ?d' ?q (bar_asq (bar d)) (bar_acq (bar d))"
    using b12 [of "bar_aqa (bar d)"] b12 [of "drop_bit 16 (bar_aqa (bar d))"]
      n(1) [of "nat (uint (aqa_asqs (bar d)) + 1)"] n(2) [of "nat (uint (aqa_acqs (bar d)) + 1)"]
    by (auto simp: admin_ok_def aqr.ring_ok_def aqa_asqs_def aqa_acqs_def intro!: exI)
  moreover have "csts_rdy ?b = 1"
  proof -
    have "bit (bar_csts ?b AND 1) j = bit (1 :: u32) j" for j
      by (auto simp: set_csts_rdy_def set_csts_shst_def bit_simps)
    then show ?thesis by (auto simp: csts_rdy_def intro: bit_word_eqI)
  qed
  ultimately show ?thesis using run again by (intro returnsI [OF run] conjI exI) auto
qed

theorem controller_enable_correct_witness:
  "returns (nvmev_proc_bars ((demo_dev (blank tiny_sp))\<lparr>old_bar := init_bar,
      bar := init_bar\<lparr>bar_aqa := 0x001f001f, bar_asq := 0x30000, bar_acq := 0x31000, bar_cc := 0x460001\<rparr>\<rparr>))
    (\<lambda>d'. csts_rdy (bar d') = 1 \<and> (\<exists>q. admin_ok d' q 0x30000 0x31000 \<and> aq_sq_depth q = 32))"
  by (rule returns_mono [OF controller_enable_correct])
     (auto simp: demo_dev_def init_bar_def reset_bar_def cc_en_def aqa_asqs_def)

end
