(* ===== verification/Init_Props.thy ===== *)
theory Init_Props
  imports Dispatcher Dispatch_Props PCI_Props
begin

text \<open>
  The initialisation of the module puts the device into a state in which all the invariants of its
  parts hold, and the passes over the doorbells keep them.
\<close>

section \<open>Configuration\<close>

text \<open>The numbers of the list, from the place of the next worker on.\<close>

definition cpus_stored :: "(string \<Rightarrow> int) \<Rightarrow> nat \<Rightarrow> string list \<Rightarrow> u32 list \<Rightarrow> u32 list" where
  "cpus_stored f k ts cs = take k cs @ map (\<lambda>t. word_of_int (f t)) ts @ drop (k + length ts) cs"

lemma load_cpus_more:
  assumes "length (cpu_nr_proc_io c) = 32" and "unat (nr_io_cpu c) + length ts \<le> 32"
  shows "load_cpus f False ts c = Some (c\<lparr>cpu_nr_proc_io := cpus_stored f (unat (nr_io_cpu c)) ts (cpu_nr_proc_io c),
    nr_io_cpu := nr_io_cpu c + of_nat (length ts)\<rparr>)"
  using assms
proof (induction ts arbitrary: c)
  case Nil
  then show ?case by (simp add: cpus_stored_def)
next
  case (Cons t ts)
  let ?k = "unat (nr_io_cpu c)" and ?v = "word_of_int (f t) :: u32"
  let ?c = "c\<lparr>cpu_nr_proc_io := (cpu_nr_proc_io c)[?k := ?v], nr_io_cpu := nr_io_cpu c + 1\<rparr>"
  have k: "unat (nr_io_cpu c + 1) = Suc ?k" "?k < length (cpu_nr_proc_io c)"
    using Cons.prems by (simp_all add: unat_word_ariths)
  have "cpus_stored f (Suc ?k) ts ((cpu_nr_proc_io c)[?k := ?v]) = cpus_stored f ?k (t # ts) (cpu_nr_proc_io c)"
    using k(2) by (simp add: cpus_stored_def take_Suc_conv_app_nth)
  moreover have "load_cpus f False ts ?c = Some (?c\<lparr>cpu_nr_proc_io := cpus_stored f (unat (nr_io_cpu ?c)) ts (cpu_nr_proc_io ?c),
      nr_io_cpu := nr_io_cpu ?c + of_nat (length ts)\<rparr>)"
    using Cons.prems k(1) by (intro Cons.IH) simp_all
  ultimately show ?case using Cons.prems k by (simp add: Let_def add.assoc)
qed

lemma load_cpus_first:
  assumes "length (cpu_nr_proc_io c) = 32" and "nr_io_cpu c = 0" and "length ts \<le> 32"
  shows "load_cpus f True (t # ts) c = Some (c\<lparr>cfg_cpu_nr_dispatcher := word_of_int (f t),
    cpu_nr_proc_io := cpus_stored f 0 ts (cpu_nr_proc_io c), nr_io_cpu := of_nat (length ts)\<rparr>)"
  using load_cpus_more [of "c\<lparr>cfg_cpu_nr_dispatcher := word_of_int (f t)\<rparr>" ts f] assms by (simp add: Let_def)

text \<open>The parameters of a module that can be loaded.\<close>

definition params_loadable :: "kernel \<Rightarrow> module_params \<Rightarrow> bool" where
  "params_loadable k mp \<longleftrightarrow> validate_configs (k_mapped k) mp = (0, None) \<and>
     10 \<le> unat (mp_io_unit_shift mp) \<and> unat (mp_io_unit_shift mp) < 31 \<and>
     mp_read_time mp + mp_read_delay mp + mp_read_trailing mp \<noteq> 0 \<and>
     mp_write_time mp + mp_write_delay mp + mp_write_trailing mp \<noteq> 0 \<and>
     1 < length (cpu_tokens (mp_cpus mp)) \<and> length (cpu_tokens (mp_cpus mp)) \<le> 33 \<and>
     unat (mp_memmap_start mp) * 2 ^ 30 + unat (mp_memmap_size mp) * 2 ^ 20 < 2 ^ 64 \<and>
     2049 \<le> unat (mp_memmap_size mp) \<and> unat (mp_memmap_size mp) \<le> 2 ^ 18"

lemma unat_push_bit:
  "unat (x :: u64) * 2 ^ k < 2 ^ 64 \<Longrightarrow> k < 64 \<Longrightarrow> unat (push_bit k x) = unat x * 2 ^ k"
  by (simp add: unsigned_push_bit_eq push_bit_nat_def take_bit_nat_eq_self)

text \<open>The configuration that the parameters give.\<close>

lemma load_configs_ok:
  assumes "params_loadable k mp" and "length (cpu_nr_proc_io (config d)) = 32"
  shows "returns (load_configs (k_mapped k) (k_strtol k) mp d) (\<lambda>(ok, d'). ok \<and> (\<exists>c. d' = d\<lparr>config := c\<rparr> \<and>
    unat (memmap_start c) = unat (mp_memmap_start mp) * 2 ^ 30 \<and> unat (memmap_size c) = unat (mp_memmap_size mp) * 2 ^ 20 \<and>
    unat (storage_start c) = unat (memmap_start c) + 2 ^ 20 \<and> unat (storage_size c) + 2 ^ 20 = unat (memmap_size c) \<and>
    read_time c = mp_read_time mp \<and> read_delay c = mp_read_delay mp \<and> read_trailing c = mp_read_trailing mp \<and>
    write_time c = mp_write_time mp \<and> write_delay c = mp_write_delay mp \<and> write_trailing c = mp_write_trailing mp \<and>
    nr_io_units c = mp_nr_io_units mp \<and> io_unit_shift c = mp_io_unit_shift mp \<and>
    unat (nr_io_cpu c) = length (cpu_tokens (mp_cpus mp)) - 1 \<and> length (cpu_nr_proc_io c) = 32 \<and>
    cfg_cpu_nr_dispatcher c = word_of_int (k_strtol k (hd (cpu_tokens (mp_cpus mp)))) \<and>
    cpu_nr_proc_io c = cpus_stored (k_strtol k) 0 (tl (cpu_tokens (mp_cpus mp))) (cpu_nr_proc_io (config d))))"
proof -
  note P = assms(1) [unfolded params_loadable_def]
  let ?s = "mp_memmap_start mp" and ?n = "mp_memmap_size mp"
  obtain t ts where ts: "cpu_tokens (mp_cpus mp) = t # ts" "length ts \<le> 32" using P by (cases "cpu_tokens (mp_cpus mp)") auto
  have lim: "unat ?s * 2 ^ 30 + unat ?n * 2 ^ 20 < 2 ^ 64" using P by blast
  have a: "unat (push_bit 30 ?s) = unat ?s * 2 ^ 30" "unat (push_bit 20 ?n) = unat ?n * 2 ^ 20"
    using lim by (intro unat_push_bit; simp)+
  have n1: "unat (?n - 1) = unat ?n - 1" "1 \<le> unat ?n" using P by (simp_all add: unat_sub_if_size)
  have "unat (push_bit 20 (?n - 1)) = unat (?n - 1) * 2 ^ 20" using lim n1 by (intro unat_push_bit) simp_all
  then have b: "unat (push_bit 20 (?n - 1)) + 2 ^ 20 = unat ?n * 2 ^ 20" using n1 by (simp add: diff_mult_distrib)
  have c: "unat (push_bit 30 ?s + push_bit 20 1) = unat ?s * 2 ^ 30 + 2 ^ 20"
    using lim a(1) n1(2) by (simp add: unat_word_ariths)
  define c0 where "c0 = (config d)\<lparr>memmap_start := push_bit 30 ?s, memmap_size := push_bit 20 ?n,
    storage_start := push_bit 30 ?s + push_bit 20 1, storage_size := push_bit 20 (?n - 1),
    read_time := mp_read_time mp, read_delay := mp_read_delay mp, read_trailing := mp_read_trailing mp,
    write_time := mp_write_time mp, write_delay := mp_write_delay mp, write_trailing := mp_write_trailing mp,
    nr_io_units := mp_nr_io_units mp, io_unit_shift := mp_io_unit_shift mp, nr_io_cpu := 0, cfg_cpu_nr_dispatcher := - 1\<rparr>"
  define cs where "cs = cpus_stored (k_strtol k) 0 ts (cpu_nr_proc_io (config d))"
  have l: "length cs = 32" "load_cpus (k_strtol k) True (t # ts) c0 = Some (c0\<lparr>cfg_cpu_nr_dispatcher :=
      word_of_int (k_strtol k t), cpu_nr_proc_io := cs, nr_io_cpu := of_nat (length ts)\<rparr>)"
    using load_cpus_first [of c0 ts "k_strtol k" t] assms(2) ts(2) by (simp_all add: c0_def cs_def cpus_stored_def)
  have "load_configs (k_mapped k) (k_strtol k) mp d = Some (True, d\<lparr>config := c0\<lparr>cfg_cpu_nr_dispatcher :=
      word_of_int (k_strtol k t), cpu_nr_proc_io := cs, nr_io_cpu := of_nat (length ts)\<rparr>\<rparr>)"
    using P l(2) ts(1) by (simp add: load_configs_def Let_def c0_def del: load_cpus.simps)
  then show ?thesis
    by (rule returnsI) (use a b c l(1) ts cs_def in \<open>auto simp: c0_def unat_of_nat intro!: exI\<close>)
qed

section \<open>Initialisation\<close>

lemma init_nchs_range:
  assumes "2 ^ 31 \<le> unat mm" and "unat mm < 2 ^ 38"
  shows "0 < init_nchs mm \<and> init_nchs mm \<le> 128"
proof -
  define g where "g = unat mm div 2 ^ 30"
  have g: "2 \<le> g" "g < 256" using assms by (auto simp: g_def less_mult_imp_div_less)
  have "drop_bit 30 mm = of_nat g"
    by (rule word_unat_eq_iff [THEN iffD2])
       (use g in \<open>simp add: g_def unat_div drop_bit_eq_div unat_of_nat\<close>)
  then have "int_of_u64 (drop_bit 30 mm) = int g"
    using g int_of_u64_of_int [of "int g"] by (simp add: u64_of_int_def)
  then show ?thesis using g by (simp add: init_nchs_def drop_bit_eq_div) presburger
qed

text \<open>The processor of every APIC identifier that no later processor has.\<close>

definition cpus_found :: "u32 list \<Rightarrow> u32 list \<Rightarrow> nat \<Rightarrow> bool" where
  "cpus_found t apics n \<longleftrightarrow> (\<forall>i<n. (\<forall>j<n. i < j \<longrightarrow> apics ! j \<noteq> apics ! i) \<longrightarrow> t ! unat (apics ! i) = of_nat i)"

lemma cpus_found_Suc:
  assumes "cpus_found t apics n" and "unat (apics ! n) < length t"
  shows "cpus_found (t[unat (apics ! n) := of_nat n]) apics (Suc n)"
  unfolding cpus_found_def
proof (intro allI impI)
  fix i assume i: "i < Suc n" "\<forall>j<Suc n. i < j \<longrightarrow> apics ! j \<noteq> apics ! i"
  show "t[unat (apics ! n) := of_nat n] ! unat (apics ! i) = of_nat i"
  proof (cases "i = n")
    case False
    then have "i < n" "apics ! n \<noteq> apics ! i" using i by auto
    moreover from this have "t ! unat (apics ! i) = of_nat i" using assms(1) i(2) by (simp add: cpus_found_def)
    moreover have "unat (apics ! n) \<noteq> unat (apics ! i)" using calculation(2) by (simp add: word_unat_eq_iff)
    ultimately show ?thesis by simp
  qed (use assms(2) in simp)
qed

lemma apics_ok:
  assumes "length (apicid_to_cpuid d) = 256" and "\<forall>a\<in>set apics. unat a < 256"
  shows "returns (init_apicid_to_cpuid apics d) (\<lambda>d'. \<exists>t. length t = 256 \<and> cpus_found t apics (length apics) \<and>
    d' = d\<lparr>apicid_to_cpuid := t\<rparr>)"
  unfolding init_apicid_to_cpuid_def
proof (rule returns_foldM_upt [where I = "\<lambda>i d'. \<exists>t. length t = 256 \<and> cpus_found t apics i \<and> d' = d\<lparr>apicid_to_cpuid := t\<rparr>"])
  show "\<exists>t. length t = 256 \<and> cpus_found t apics 0 \<and> d = d\<lparr>apicid_to_cpuid := t\<rparr>"
    using assms(1) by (intro exI [of _ "apicid_to_cpuid d"]) (simp add: cpus_found_def)
next
  fix i d' assume i: "i < length apics" and "\<exists>t. length t = 256 \<and> cpus_found t apics i \<and> d' = d\<lparr>apicid_to_cpuid := t\<rparr>"
  then obtain t where t: "length t = 256" "cpus_found t apics i" "d' = d\<lparr>apicid_to_cpuid := t\<rparr>" by blast
  let ?t = "t[unat (apics ! i) := of_nat i]"
  have a: "unat (apics ! i) < 256" using assms(2) i by simp
  have "length ?t = 256 \<and> cpus_found ?t apics (Suc i) \<and> d\<lparr>apicid_to_cpuid := ?t\<rparr> = d\<lparr>apicid_to_cpuid := ?t\<rparr>"
    using t a by (simp add: cpus_found_Suc)
  then have "\<exists>u. length u = 256 \<and> cpus_found u apics (Suc i) \<and> d\<lparr>apicid_to_cpuid := ?t\<rparr> = d\<lparr>apicid_to_cpuid := u\<rparr>" by blast
  then show "returns (do { t \<leftarrow> arr_set (apicid_to_cpuid d') (unat (apics ! i)) (of_nat i);
      Some (d'\<lparr>apicid_to_cpuid := t\<rparr>) }) (\<lambda>d'. \<exists>t. length t = 256 \<and> cpus_found t apics (Suc i) \<and> d' = d\<lparr>apicid_to_cpuid := t\<rparr>)"
    using a t by simp
qed simp

lemma whole_storage:
  assumes "unat (c :: u64) + 2 ^ 20 = m * 2 ^ 20" and "m < 2 ^ 19"
  shows "c * 100 div 100 = c" "c mod of_nat PAGE_SIZE = 0"
proof -
  have m: "unat c = (m - 1) * 2 ^ 20" using assms(1) by (simp add: diff_mult_distrib)
  then have lt: "unat c < 2 ^ 39" using assms(2) by simp
  have "unat (c * 100) = unat c * 100" using lt by (simp add: unat_word_ariths)
  then have "unat (c * 100 div 100) = unat c" by (simp add: unat_div)
  then show "c * 100 div 100 = c" by (rule word_unat_eq_iff [THEN iffD2])
  have "unat (c mod of_nat PAGE_SIZE) = 0" unfolding unat_mod m by (simp add: PAGE_SIZE_def mod_eq_0_iff_dvd)
  then show "c mod of_nat PAGE_SIZE = 0" by (simp add: unat_eq_0)
qed

lemma print_perf_ok:
  assumes "10 \<le> unat (io_unit_shift (config d))" and "unat (io_unit_shift (config d)) < 31"
    and "read_time (config d) + read_delay (config d) + read_trailing (config d) \<noteq> 0"
    and "write_time (config d) + write_delay (config d) + write_trailing (config d) \<noteq> 0"
  shows "\<exists>p. print_perf_configs d = Some p"
proof -
  have "unat (io_unit_shift (config d) - 10) = unat (io_unit_shift (config d)) - 10"
    using assms(1) by (simp add: unat_sub_if_size)
  then show ?thesis using assms by (simp add: print_perf_configs_def bandwidth_def Let_def)
qed

lemma io_proc_init_run:
  assumes "unat (nr_io_cpu (config d)) = n" and "n \<le> length (cpu_nr_proc_io (config d))"
  shows "NVMEV_IO_PROC_INIT d = Some (d\<lparr>proc_info := map io_proc_info [0..<n], proc_turn := 0\<rparr>)"
proof -
  let ?f = "\<lambda>i cs. do { c \<leftarrow> arr_get (cpu_nr_proc_io (config d)) i; Some (cs @ [c]) }"
  have "foldM ?f [0..<k] [] = Some (take k (cpu_nr_proc_io (config d)))" if "k \<le> n" for k
    using that assms(2) by (induction k) (simp_all add: foldM_append take_Suc_conv_app_nth)
  then show ?thesis using assms by (simp add: NVMEV_IO_PROC_INIT_def Let_def)
qed

lemma NVMeV_init_run:
  assumes "params_loadable k mp" and "length (apicid_to_cpuid d) = 256" and "\<forall>a\<in>set (k_apics k). unat a < 256"
    and "k_found k = Some 1"
  shows "returns (NVMeV_init k mp d) (\<lambda>(r, d'). r = 0 \<and>
    unat (storage_start (config d')) = unat (mp_memmap_start mp) * 2 ^ 30 + 2 ^ 20 \<and>
    unat (storage_size (config d')) = (unat (mp_memmap_size mp) - 1) * 2 ^ 20 \<and>
    (let n = init_nchs (storage_size (config d')) in 0 < n \<and> n \<le> 128 \<and>
      (\<forall>K. int K < 243 * 2048 * n \<longrightarrow> dispatch_inv n K d') \<and> mapset (dev_ftl d') = {}) \<and>
    length (proc_info d') + 1 = length (cpu_tokens (mp_cpus mp)) \<and>
    sqes d' = replicate 73 None \<and> cqes d' = replicate 73 None \<and> admin_q d' = None \<and>
    dbs d' = replicate 1024 0 \<and> old_dbs d' = dbs d' \<and> csts_rdy (bar d') = 0 \<and>
    virtDev d' = fresh_cfg (k_regs k) (memmap_start (config d')) \<and>
    (let c = config d'; cpus = map (\<lambda>t. word_of_int (k_strtol k t)) (cpu_tokens (mp_cpus mp)) in
      unat (memmap_start c) = unat (mp_memmap_start mp) * 2 ^ 30 \<and> unat (memmap_size c) = unat (mp_memmap_size mp) * 2 ^ 20 \<and>
      read_time c = mp_read_time mp \<and> read_delay c = mp_read_delay mp \<and> read_trailing c = mp_read_trailing mp \<and>
      write_time c = mp_write_time mp \<and> write_delay c = mp_write_delay mp \<and> write_trailing c = mp_write_trailing mp \<and>
      nr_io_units c = mp_nr_io_units mp \<and> io_unit_shift c = mp_io_unit_shift mp \<and>
      unat (nr_io_cpu c) = length (proc_info d') \<and> cfg_cpu_nr_dispatcher c = hd cpus \<and>
      cpu_nr_proc_io c = tl cpus @ replicate (32 - length (proc_info d')) 0) \<and>
    bar d' = reset_bar\<lparr>bar_vs := 0x10000, bar_cap := 1023\<rparr> \<and> old_bar d' = bar d' \<and>
    (\<forall>tb\<in>set (proc_info d'). table_rep tb [] [0..<NR_MAX_PARALLEL_IO]) \<and> proc_turn d' = 0 \<and>
    io_unit_stat d' = replicate (unat (mp_nr_io_units mp)) 0 \<and> storage_mapped d' = k_storage k \<and>
    nr_sq d' = 0 \<and> nr_cq d' = 0 \<and> cpus_found (apicid_to_cpuid d') (k_apics k) (length (k_apics k)) \<and>
    dev_mem d' = dev_mem d \<and> dev_events d' = dev_events d \<and> ssd_klog (dev_ftl d') = ssd_klog (dev_ftl d))"
proof -
  note P = assms(1) [unfolded params_loadable_def]
  let ?v = "VDEV_INIT d"
  have len: "length (cpu_nr_proc_io (config ?v)) = 32" by (simp add: VDEV_INIT_def zero_config_def)
  obtain c where c: "load_configs (k_mapped k) (k_strtol k) mp ?v = Some (True, ?v\<lparr>config := c\<rparr>)"
    "unat (memmap_start c) = unat (mp_memmap_start mp) * 2 ^ 30" "unat (memmap_size c) = unat (mp_memmap_size mp) * 2 ^ 20"
    "unat (storage_start c) = unat (memmap_start c) + 2 ^ 20" "unat (storage_size c) + 2 ^ 20 = unat (memmap_size c)"
    "read_time c = mp_read_time mp" "read_delay c = mp_read_delay mp" "read_trailing c = mp_read_trailing mp"
    "write_time c = mp_write_time mp" "write_delay c = mp_write_delay mp" "write_trailing c = mp_write_trailing mp"
    "nr_io_units c = mp_nr_io_units mp" "io_unit_shift c = mp_io_unit_shift mp"
    "unat (nr_io_cpu c) = length (cpu_tokens (mp_cpus mp)) - 1" "length (cpu_nr_proc_io c) = 32"
    "cfg_cpu_nr_dispatcher c = word_of_int (k_strtol k (hd (cpu_tokens (mp_cpus mp))))"
    "cpu_nr_proc_io c = cpus_stored (k_strtol k) 0 (tl (cpu_tokens (mp_cpus mp))) (cpu_nr_proc_io (config ?v))"
    using load_configs_ok [OF assms(1) len] by (auto elim!: returnsE)
  let ?mm = "storage_size c"
  have mm: "unat ?mm + 2 ^ 20 = unat (mp_memmap_size mp) * 2 ^ 20" using c(3,5) by simp
  have nc: "0 < init_nchs ?mm \<and> init_nchs ?mm \<le> 128" by (rule init_nchs_range) (use mm P in simp_all)
  have whole: "?mm * 100 div 100 = ?mm" "?mm mod of_nat PAGE_SIZE = 0"
    by (rule whole_storage [OF mm]; use P in simp)+
  obtain s where s: "ssd_init (cfg_cpu_nr_dispatcher c) ?mm (dev_ftl ?v) = Some (?mm, s)" "write_ready s"
    "mapset s = {}" "ssd_sp s = ssd_init_params (init_nchs ?mm)" "ssd_klog s = ssd_klog (dev_ftl ?v)"
    using ssd_init_run [of ?mm "cfg_cpu_nr_dispatcher c" "dev_ftl ?v"] nc whole(1) by (auto elim!: returnsE)
  let ?d1 = "?v\<lparr>dev_ftl := s, config := c, virtDev := fresh_cfg (k_regs k) (memmap_start c)\<rparr>"
  obtain t where t: "init_apicid_to_cpuid (k_apics k) ?d1 = Some (?d1\<lparr>apicid_to_cpuid := t\<rparr>)"
    "cpus_found t (k_apics k) (length (k_apics k))"
    using apics_ok [of ?d1] assms(2,3) by (auto simp: VDEV_INIT_def elim!: returnsE)
  have pci: "NVMEV_PCI_INIT (k_regs k) (k_apics k) (k_found k) (?v\<lparr>dev_ftl := s, config := c\<rparr>) =
      Some (True, pci_dev_setup (?d1\<lparr>apicid_to_cpuid := t\<rparr>))"
    using t(1) assms(4) by (simp add: NVMEV_PCI_INIT_def create_pci_bus_def VDEV_INIT_def PAGE_SIZE_def)
  let ?d2 = "pci_dev_setup (?d1\<lparr>apicid_to_cpuid := t\<rparr>)"
  have cfg2: "config ?d2 = c" by (simp add: pci_dev_setup_def Let_def)
  obtain p where p: "print_perf_configs ?d2 = Some p"
    using print_perf_ok [of ?d2] P c(6-13) unfolding cfg2 by auto
  let ?d3 = "NVMEV_STORAGE_INIT (k_storage k) ?d2"
  have cfg3: "config ?d3 = c" by (simp add: NVMEV_STORAGE_INIT_def cfg2)
  let ?n = "unat (nr_io_cpu c)"
  have "1 < length (cpu_tokens (mp_cpus mp))" "length (cpu_tokens (mp_cpus mp)) \<le> 33" using P by blast+
  then have nle: "0 < ?n" "?n \<le> 32" "?n + 1 = length (cpu_tokens (mp_cpus mp))" using c(14) by linarith+
  let ?d4 = "?d3\<lparr>proc_info := map io_proc_info [0..<?n], proc_turn := 0\<rparr>"
  have io: "NVMEV_IO_PROC_INIT ?d3 = Some ?d4"
    by (rule io_proc_init_run) (use cfg3 nle c(15) in simp_all)
  have run: "NVMeV_init k mp d = Some (0, ?d4)"
    using c(1) s(1) whole pci p io by (simp add: NVMeV_init_def)
  have tables: "tables_ok ?d4"
    using nle io_proc_info_rep unfolding tables_ok_def
    by (auto simp: cfg3 word_less_nat_alt ordered_def intro!: exI [of _ "[] :: nat list"] exI)
  have ftl: "dev_ftl ?d4 = s" "io_unit_stat ?d4 = replicate (unat (nr_io_units c)) 0" "config ?d4 = c"
    by (simp_all add: NVMEV_STORAGE_INIT_def pci_dev_setup_def Let_def)
  have inv: "dispatch_inv (init_nchs ?mm) K ?d4" if "int K < 243 * 2048 * init_nchs ?mm" for K
    using tables s(2-4) nc that by (simp add: dispatch_inv_def ftl)
  have rest: "sqes ?d4 = replicate 73 None" "cqes ?d4 = replicate 73 None" "admin_q ?d4 = None"
    "dbs ?d4 = replicate 1024 0" "old_dbs ?d4 = dbs ?d4" "csts_rdy (bar ?d4) = 0"
    "virtDev ?d4 = fresh_cfg (k_regs k) (memmap_start c)" "bar ?d4 = init_bar" "old_bar ?d4 = init_bar"
    "storage_mapped ?d4 = k_storage k" "nr_sq ?d4 = 0" "nr_cq ?d4 = 0" "apicid_to_cpuid ?d4 = t" "dev_mem ?d4 = dev_mem d"
    "dev_events ?d4 = dev_events d" "proc_info ?d4 = map io_proc_info [0..<?n]" "proc_turn ?d4 = 0" "dev_ftl ?v = dev_ftl d"
    by (simp_all add: NVMEV_STORAGE_INIT_def pci_dev_setup_def Let_def VDEV_INIT_def NR_MAX_IO_QUEUE_def PAGE_SIZE_def
        csts_rdy_def init_bar_def reset_bar_def)
  define D where "D = ?d4"
  have mem: "unat ?mm = (unat (mp_memmap_size mp) - 1) * 2 ^ 20" using mm by (simp add: diff_mult_distrib)
  have pl: "length (proc_info D) + 1 = length (cpu_tokens (mp_cpus mp))" using nle(3) by (simp add: D_def)
  note F = ftl [folded D_def] and R = rest [folded D_def] and I = inv [folded D_def]
  have reg: "init_bar = reset_bar\<lparr>bar_vs := 0x10000, bar_cap := 1023\<rparr>"
    by (simp add: init_bar_def reset_bar_def bits_set_def mask_eq_exp_minus_1)
  obtain t0 ts0 where tok: "cpu_tokens (mp_cpus mp) = t0 # ts0" using P by (cases "cpu_tokens (mp_cpus mp)") auto
  have cpus: "cfg_cpu_nr_dispatcher c = hd (map (\<lambda>t. word_of_int (k_strtol k t)) (cpu_tokens (mp_cpus mp)))"
    "cpu_nr_proc_io c = tl (map (\<lambda>t. word_of_int (k_strtol k t)) (cpu_tokens (mp_cpus mp))) @ replicate (32 - ?n) 0"
    using c(16,17) nle(3) unfolding tok by (simp_all add: cpus_stored_def VDEV_INIT_def zero_config_def)
  have empty: "\<forall>tb\<in>set (map io_proc_info [0..<?n]). table_rep tb [] [0..<NR_MAX_PARALLEL_IO]"
    using io_proc_info_rep by auto
  show ?thesis
    by (rule returnsI [OF run [folded D_def]])
       (use I nc R c(2-13) mem pl s(3,5) reg cpus empty t(2) in \<open>simp add: F Let_def\<close>)
qed

text \<open>C28. With parameters that are valid and 1 to 32 processors for the workers, the module loads. The configuration
  holds the memory range, the six times, the I/O units and the processors of the parameters, each in its field; the storage is
  the memory range less its first megabyte, in whole pages, and lies inside the range. The translation
  layer has the channels that the storage is worth, nothing mapped, and is ready for writes; every worker has an empty
  table; the statistics of the units are zero; there is no queue yet, no doorbell is pending. The registers report version 1.0
  and 1024 entries and are zero otherwise (so the controller is not ready), the table of processors is filled, and the
  configuration space holds the header and the capabilities. Nothing is logged. (What the PCI core writes to
  the configuration space while it scans the bus comes on top.)\<close>

theorem NVMeV_init_correct:
  assumes "params_loadable k mp" and "length (apicid_to_cpuid d) = 256" and "\<forall>a\<in>set (k_apics k). unat a < 256"
    and "k_found k = Some 1"
  shows "returns (NVMeV_init k mp d) (\<lambda>(r, d'). r = 0 \<and>
    unat (storage_start (config d')) = unat (mp_memmap_start mp) * 2 ^ 30 + 2 ^ 20 \<and>
    unat (storage_size (config d')) = (unat (mp_memmap_size mp) - 1) * 2 ^ 20 \<and>
    (let n = init_nchs (storage_size (config d')) in 0 < n \<and> n \<le> 128 \<and>
      (\<forall>K. int K < 243 * 2048 * n \<longrightarrow> dispatch_inv n K d') \<and> mapset (dev_ftl d') = {}) \<and>
    length (proc_info d') + 1 = length (cpu_tokens (mp_cpus mp)) \<and>
    sqes d' = replicate 73 None \<and> cqes d' = replicate 73 None \<and> admin_q d' = None \<and>
    dbs d' = replicate 1024 0 \<and> old_dbs d' = dbs d' \<and> csts_rdy (bar d') = 0 \<and>
    virtDev d' = fresh_cfg (k_regs k) (memmap_start (config d')) \<and>
    (let c = config d'; cpus = map (\<lambda>t. word_of_int (k_strtol k t)) (cpu_tokens (mp_cpus mp)) in
      unat (memmap_start c) = unat (mp_memmap_start mp) * 2 ^ 30 \<and> unat (memmap_size c) = unat (mp_memmap_size mp) * 2 ^ 20 \<and>
      read_time c = mp_read_time mp \<and> read_delay c = mp_read_delay mp \<and> read_trailing c = mp_read_trailing mp \<and>
      write_time c = mp_write_time mp \<and> write_delay c = mp_write_delay mp \<and> write_trailing c = mp_write_trailing mp \<and>
      nr_io_units c = mp_nr_io_units mp \<and> io_unit_shift c = mp_io_unit_shift mp \<and>
      unat (nr_io_cpu c) = length (proc_info d') \<and> cfg_cpu_nr_dispatcher c = hd cpus \<and>
      cpu_nr_proc_io c = tl cpus @ replicate (32 - length (proc_info d')) 0) \<and>
    bar d' = reset_bar\<lparr>bar_vs := 0x10000, bar_cap := 1023\<rparr> \<and> old_bar d' = bar d' \<and>
    (\<forall>tb\<in>set (proc_info d'). table_rep tb [] [0..<NR_MAX_PARALLEL_IO]) \<and> proc_turn d' = 0 \<and>
    io_unit_stat d' = replicate (unat (mp_nr_io_units mp)) 0 \<and> storage_mapped d' = k_storage k \<and>
    nr_sq d' = 0 \<and> nr_cq d' = 0 \<and> cpus_found (apicid_to_cpuid d') (k_apics k) (length (k_apics k)) \<and>
    dev_mem d' = dev_mem d \<and> dev_events d' = dev_events d \<and> ssd_klog (dev_ftl d') = ssd_klog (dev_ftl d))"
  by (rule NVMeV_init_run [OF assms])

definition demo_kernel :: kernel where
  "demo_kernel = \<lparr>k_mapped = (\<lambda>s e t. t = E820_TYPE_RESERVED), k_strtol = (\<lambda>s. int (length s)), k_regs = demo_regs,
     k_apics = [0, 2], k_found = Some 1, k_storage = (\<lambda>_. 0)\<rparr>"

definition demo_params :: module_params where
  "demo_params = \<lparr>mp_memmap_start = 4, mp_memmap_size = 8192, mp_read_time = 10, mp_read_delay = 1,
     mp_read_trailing = 0, mp_write_time = 20, mp_write_delay = 2, mp_write_trailing = 0, mp_nr_io_units = 8,
     mp_io_unit_shift = 12, mp_cpus = Some ''2,4,6''\<rparr>"

lemma demo_params_loadable: "params_loadable demo_kernel demo_params"
  by (simp add: params_loadable_def demo_kernel_def demo_params_def validate_configs_def cpu_tokens_def)

theorem NVMeV_init_correct_witness:
  "returns (NVMeV_init demo_kernel demo_params ((demo_dev (blank tiny_sp))\<lparr>apicid_to_cpuid := replicate 256 0\<rparr>))
    (\<lambda>(r, d'). r = 0 \<and> unat (storage_start (config d')) = 4 * 2 ^ 30 + 2 ^ 20 \<and> length (proc_info d') = 2 \<and>
      read_delay (config d') = 1 \<and> read_time (config d') = 10 \<and> write_delay (config d') = 2)"
  by (rule returns_mono [OF NVMeV_init_correct [OF demo_params_loadable]])
     (auto simp: demo_kernel_def demo_params_def cpu_tokens_def Let_def)

end
