(* ===== verification/System.thy ===== *)
theory System
  imports Worker_Props Doorbell_Props Init_Props
begin

text \<open>
  The device as a system of steps: the host writes memory, doorbells and registers, the dispatcher
  handles registers, admin commands and the doorbells of the queues, the workers complete
  requests, in any order. The invariants hold in every state that is reached, and in each of them
  the dispatcher can handle every submission queue whose commands and doorbells are in range, and every
  completion queue whose doorbells are in range and whose entries name submission queues that exist.
\<close>

section \<open>What the invariants look at\<close>

definition inv_part :: "nvmev_dev \<Rightarrow> u32 \<times> nvmev_config \<times> nvmev_proc_info list \<times> ssd \<times> u64 list \<times> nat \<times> nat" where
  "inv_part d = (proc_turn d, config d, proc_info d, dev_ftl d, io_unit_stat d, length (dbs d), length (old_dbs d))"

definition sys_inv :: "int \<Rightarrow> nat \<Rightarrow> nvmev_dev \<Rightarrow> bool" where
  "sys_inv n K d \<longleftrightarrow> dispatch_inv n K d \<and> length (old_dbs d) = length (dbs d)"

lemma sys_inv_cong: "inv_part d' = inv_part d \<Longrightarrow> sys_inv n K d \<Longrightarrow> sys_inv n K d'"
  by (simp add: inv_part_def sys_inv_def dispatch_inv_def tables_ok_def)

lemma sys_inv_part:
  assumes "inv_part d' = inv_part d" and "sys_inv n K d"
  shows "sys_inv n K d' \<and> ssd_klog (dev_ftl d') = ssd_klog (dev_ftl d)"
  using sys_inv_cong [OF assms] assms(1) by (simp add: inv_part_def)

lemma arr_set_length: "arr_set xs i v = Some ys \<Longrightarrow> length ys = length xs"
  by (auto simp: arr_set_def split: if_splits)

lemma regs_part [simp]:
  "inv_part (d\<lparr>old_bar := ob\<rparr>) = inv_part d" "inv_part (d\<lparr>bar := b\<rparr>) = inv_part d" "inv_part (d\<lparr>admin_q := q\<rparr>) = inv_part d"
  "inv_part (d\<lparr>dev_mem := m\<rparr>) = inv_part d" "inv_part (dev_log f l d) = inv_part d"
  "inv_part (d\<lparr>sqes := sq\<rparr>) = inv_part d" "inv_part (d\<lparr>cqes := cq\<rparr>) = inv_part d" "inv_part (d\<lparr>nr_sq := i\<rparr>) = inv_part d"
  "inv_part (d\<lparr>nr_cq := i\<rparr>) = inv_part d" "inv_part (d\<lparr>dev_events := ev\<rparr>) = inv_part d"
  by (simp_all add: inv_part_def dev_log_def)

lemma if_part [simp]: "inv_part d' = inv_part d \<Longrightarrow> inv_part (if c then d else d') = inv_part d"
  by simp

lemma aqa_part [simp]: "inv_part (proc_aqa d) = inv_part d"
  by (simp add: proc_aqa_def Let_def)

lemma asq_part: "proc_asq d = Some d' \<Longrightarrow> inv_part d' = inv_part d"
  unfolding proc_asq_def Let_def by (cases "admin_q d") (auto split: if_splits)

lemma acq_part: "proc_acq d = Some d' \<Longrightarrow> inv_part d' = inv_part d"
  unfolding proc_acq_def Let_def by (cases "admin_q d") (auto split: if_splits)

lemma cc_part [simp]: "inv_part (proc_cc d) = inv_part d"
  by (simp add: proc_cc_def Let_def)

lemma bars_part:
  assumes "nvmev_proc_bars d = Some d'"
  shows "inv_part d' = inv_part d"
proof -
  obtain d1 d2 where "proc_asq (proc_aqa (copy_intms d)) = Some d1" "proc_acq d1 = Some d2" "d' = proc_cc d2"
    using assms by (auto simp: nvmev_proc_bars_def split: bind_splits)
  moreover have "inv_part (copy_intms d) = inv_part d" by (simp add: copy_intms_def)
  ultimately show ?thesis using asq_part acq_part by (metis aqa_part cc_part)
qed

lemma complete_part: "admin_complete eid head st d = Some d' \<Longrightarrow> inv_part d' = inv_part d"
  by (auto simp: admin_complete_def inv_part_def Let_def split: bind_splits)

lemma create_cq_part:
  assumes "admin_create_cq eid head d = Some d'"
  shows "inv_part d' = inv_part d"
proof -
  obtain cmd where cmd: "aq_command d eid = Some cmd" using assms by (cases "aq_command d eid") (simp_all add: admin_create_cq_def)
  show ?thesis
    using assms unfolding admin_create_cq_def cmd Let_def
    by (cases "create_cq_flags cmd AND NVME_QUEUE_PHYS_CONTIG \<noteq> 0")
      (auto simp: arr_set_eq_Some_iff dest!: complete_part split: bind_splits, simp_all add: inv_part_def dev_log_def)
qed

lemma create_sq_part:
  assumes "admin_create_sq eid head d = Some d'"
  shows "inv_part d' = inv_part d"
proof -
  obtain cmd where cmd: "aq_command d eid = Some cmd" using assms by (cases "aq_command d eid") (simp_all add: admin_create_sq_def)
  show ?thesis
    using assms unfolding admin_create_sq_def cmd Let_def
    by (cases "create_sq_flags cmd AND NVME_QUEUE_PHYS_CONTIG \<noteq> 0")
      (auto simp: arr_set_eq_Some_iff dest!: complete_part split: bind_splits, simp_all add: inv_part_def dev_log_def)
qed

lemma handler_part:
  assumes "admin_handler cmd eid head d = Some d'"
  shows "inv_part d' = inv_part d"
proof -
  have "inv_part d' = inv_part d" if "admin_delete_cq eid head d = Some d' \<or> admin_delete_sq eid head d = Some d' \<or>
      admin_identify_ctrl eid head d = Some d' \<or> admin_identify_namespace eid head d = Some d' \<or> admin_get_log_page eid head d = Some d'"
    using that by (auto simp: admin_delete_cq_def admin_delete_sq_def admin_identify_ctrl_def admin_identify_namespace_def
        admin_get_log_page_def Let_def dest!: complete_part split: bind_splits)
  moreover have "inv_part d' = inv_part d" if "admin_set_features eid head d = Some d' \<or> admin_get_features eid head d = Some d' \<or>
      admin_async_event eid head d = Some d'"
    using that by (auto simp: admin_set_features_def admin_get_features_def admin_async_event_def Let_def
        dest!: complete_part split: bind_splits if_splits)
  ultimately show ?thesis
    using assms create_cq_part create_sq_part by (auto simp: admin_handler_def split: if_splits)
qed

lemma admin_req_part: "proc_admin_req eid d = Some d' \<Longrightarrow> inv_part d' = inv_part d"
  by (auto simp: proc_admin_req_def inv_part_def dest!: handler_part split: bind_splits)

lemma admin_loop_part: "proc_admin_sq_loop m eid d = Some d' \<Longrightarrow> inv_part d' = inv_part d"
proof (induction m arbitrary: eid d)
  case (Suc m)
  then obtain d1 where 1: "proc_admin_req eid d = Some d1" by (cases "proc_admin_req eid d") simp_all
  then obtain q where "admin_q d1 = Some q" using Suc.prems by (cases "admin_q d1") simp_all
  then have "proc_admin_sq_loop m (if eid + 1 = aq_sq_depth q then 0 else eid + 1) d1 = Some d'" using Suc.prems 1 by simp
  then show ?case using Suc.IH admin_req_part [OF 1] by metis
qed simp

lemma signal_part: "nvmev_signal_irq v d = Some d' \<Longrightarrow> inv_part d' = inv_part d"
  by (auto simp: nvmev_signal_irq_def inv_part_def split: option.splits bind_splits)

lemma admin_sq_part: "nvmev_proc_admin_sq new_db old_db d = Some d' \<Longrightarrow> inv_part d' = inv_part d"
  by (auto simp: nvmev_proc_admin_sq_def Let_def dest!: admin_loop_part signal_part split: bind_splits if_splits)

lemma db_part:
  assumes "proc_db i f d = Some d'" and "\<And>a b d'. f a b d = Some d' \<Longrightarrow> inv_part d' = inv_part d"
  shows "inv_part d' = inv_part d"
  using assms by (auto simp: proc_db_def inv_part_def dest!: arr_set_length split: bind_splits if_splits)

lemma cq_loop_part: "proc_io_cq_loop cqid new_db i d = Some d' \<Longrightarrow> inv_part d' = inv_part d"
proof (rule proc_io_cq_loop.raw_induct [where P = "\<lambda>cqid new_db i d d'. inv_part d' = inv_part d"])
  fix f cqid new_db i d d'
  assume IH: "\<And>cqid new_db i d d'. f cqid new_db i d = Some d' \<Longrightarrow> inv_part d' = inv_part d"
    and run: "(if i = new_db then Some d
      else do {
        cq \<leftarrow> cq_of d cqid;
        if cq_queue_size cq \<le> i then f cqid new_db 0 d
        else do {
          a \<leftarrow> cq_entry (cq_cq cq) i;
          d \<leftarrow> upd_sq_stat (uint (cqe_sq_id (read_completion (dev_mem d) a)))
                 (\<lambda>st. st\<lparr>nr_in_flight := nr_in_flight st - 1\<rparr>) d;
          f cqid new_db (i + 1) d
        }
      }) = Some d'"
  then show "inv_part d' = inv_part d"
    by (auto simp: upd_sq_stat_def put_sq_def inv_part_def dest!: IH split: bind_splits if_splits)
qed

lemma io_cq_part:
  assumes "nvmev_proc_io_cq cqid new_db old_db d = Some d'"
  shows "inv_part d' = inv_part d"
proof -
  obtain d1 where 1: "proc_io_cq_loop cqid new_db old_db d = Some d1"
    using assms by (auto simp: nvmev_proc_io_cq_def split: bind_splits)
  then have "inv_part d' = inv_part d1"
    using assms by (auto simp: nvmev_proc_io_cq_def put_cq_def inv_part_def split: bind_splits)
  then show ?thesis using cq_loop_part [OF 1] by simp
qed

lemma cq_db_part:
  assumes "proc_cq_db q d = Some d'"
  shows "inv_part d' = inv_part d"
proof (cases "d' = d")
  case False
  then have "proc_db (q * 2 + 1) (nvmev_proc_io_cq (int q)) d = Some d'"
    using assms by (auto simp: proc_cq_db_def split: bind_splits if_splits)
  then show ?thesis by (rule db_part) (rule io_cq_part)
qed simp

section \<open>What a worker changes\<close>

text \<open>A worker changes flags of its entries and moves its time forwards; the lists stay.\<close>

definition flags_only :: "nvmev_proc_info \<Rightarrow> nvmev_proc_info \<Rightarrow> bool" where
  "flags_only tb tb' \<longleftrightarrow> free_seq tb' = free_seq tb \<and> free_seq_end tb' = free_seq_end tb \<and> io_seq tb' = io_seq tb \<and>
     io_seq_end tb' = io_seq_end tb \<and> length (proc_table tb') = length (proc_table tb) \<and>
     proc_io_nsecs tb \<le> proc_io_nsecs tb' \<and>
     (\<forall>j. pe_next (proc_table tb' ! j) = pe_next (proc_table tb ! j) \<and> pe_prev (proc_table tb' ! j) = pe_prev (proc_table tb ! j) \<and>
       pe_nsecs_target (proc_table tb' ! j) = pe_nsecs_target (proc_table tb ! j))"

lemma flags_only_refl [simp]: "flags_only tb tb"
  by (simp add: flags_only_def)

lemma flags_only_trans: "flags_only a b \<Longrightarrow> flags_only b c \<Longrightarrow> flags_only a c"
  by (auto simp: flags_only_def)

lemma flags_only_table:
  assumes "flags_only tb tb'" and "table_rep tb io fr" and "ordered tb io"
  shows "table_rep tb' io fr" and "ordered tb' io"
proof -
  note F = assms(1) [unfolded flags_only_def]
  have "chain (proc_table tb') x ys y = chain (proc_table tb) x ys y" "prevs (proc_table tb') x ys = prevs (proc_table tb) x ys" for x ys y
    using chain_cong [of ys "proc_table tb'" "proc_table tb"] prevs_cong [of ys "proc_table tb'" "proc_table tb"] F by auto
  then show "table_rep tb' io fr" using assms(2) F by (simp add: table_rep_def)
  have "due_key tb' i = max (proc_io_nsecs tb') (due_key tb i)" for i
    using F by (simp add: due_key_def target_def max.assoc [symmetric] max.absorb1)
  moreover have "sorted_wrt (\<lambda>x y. due_key tb x \<le> due_key tb y) io" using assms(3) by (simp add: ordered_def sorted_map)
  ultimately have "sorted_wrt (\<lambda>x y. due_key tb' x \<le> due_key tb' y) io"
    by (elim sorted_wrt_mono_rel [rotated]) (simp only: max.mono order_refl)
  then show "ordered tb' io" by (simp add: ordered_def sorted_map)
qed

definition work_frame :: "nat \<Rightarrow> nvmev_dev \<Rightarrow> nvmev_dev \<Rightarrow> bool" where
  "work_frame k d d' \<longleftrightarrow> inv_part (d'\<lparr>proc_info := []\<rparr>) = inv_part (d\<lparr>proc_info := []\<rparr>) \<and>
     length (proc_info d') = length (proc_info d) \<and> (\<forall>j. j \<noteq> k \<longrightarrow> proc_info d' ! j = proc_info d ! j) \<and>
     flags_only (proc_info d ! k) (proc_info d' ! k) \<and> local_clock d' = local_clock d \<and> nr_local_clock d \<le> nr_local_clock d'"

lemma work_frame_refl [simp]: "work_frame k d d"
  by (simp add: work_frame_def)

lemma work_frame_trans: "work_frame k a b \<Longrightarrow> work_frame k b c \<Longrightarrow> work_frame k a c"
  unfolding work_frame_def by (auto intro: flags_only_trans)

lemma work_frame_quiet:
  "inv_part d' = inv_part d \<Longrightarrow> local_clock d' = local_clock d \<Longrightarrow> nr_local_clock d' = nr_local_clock d \<Longrightarrow> work_frame k d d'"
  by (simp add: work_frame_def inv_part_def)

lemma work_frame_inv:
  assumes "work_frame k d d'" and "sys_inv n K d"
  shows "sys_inv n K d'"
proof -
  have same: "proc_turn d' = proc_turn d" "config d' = config d" "dev_ftl d' = dev_ftl d" "io_unit_stat d' = io_unit_stat d"
    "length (dbs d') = length (dbs d)" "length (old_dbs d') = length (old_dbs d)" "length (proc_info d') = length (proc_info d)"
    using assms(1) by (simp_all add: work_frame_def inv_part_def)
  have "\<exists>io fr. table_rep (proc_info d' ! j) io fr \<and> ordered (proc_info d' ! j) io" if "j < unat (nr_io_cpu (config d))" for j
  proof -
    obtain io fr where "table_rep (proc_info d ! j) io fr" "ordered (proc_info d ! j) io"
      using assms(2) \<open>j < _\<close> by (auto simp: sys_inv_def dispatch_inv_def tables_ok_def)
    moreover have "flags_only (proc_info d ! j) (proc_info d' ! j)" using assms(1) by (cases "j = k") (simp_all add: work_frame_def)
    ultimately show ?thesis using flags_only_table by blast
  qed
  then show ?thesis using assms(2) same by (simp add: sys_inv_def dispatch_inv_def tables_ok_def)
qed

section \<open>The steps of a worker\<close>

lemma perform_loop_quiet:
  "perform_io_loop sqid e l d = Some d' \<Longrightarrow>
   inv_part d' = inv_part d \<and> local_clock d' = local_clock d \<and> nr_local_clock d' = nr_local_clock d"
proof (induction sqid e l d rule: perform_io_loop.induct)
  case (1 sqid e l d)
  show ?case
  proof (cases "remaining l = 0")
    case True
    then show ?thesis using 1(2) by (subst (asm) perform_io_loop.simps) simp
  next
    case False
    then obtain cmd paddr l1 l2 d1 where s: "sq_command d sqid e = Some cmd" "next_prp (dev_mem d) cmd l = Some (paddr, l1)"
      "perform_page paddr l1 (opcode cmd) d = Some (l2, d1)" "perform_io_loop sqid e l2 d1 = Some d'"
      using 1(2) by (subst (asm) perform_io_loop.simps) (auto split: bind_splits prod.splits)
    have "inv_part d1 = inv_part d \<and> local_clock d1 = local_clock d \<and> nr_local_clock d1 = nr_local_clock d"
      using s(3) by (auto simp: perform_page_def inv_part_def Let_def split: prod.splits if_splits)
    then show ?thesis using 1(1) [OF False s(1,2) refl s(3) refl s(4)] by simp
  qed
qed

lemma perform_quiet:
  "do_perform_io sqid e d = Some (len, d') \<Longrightarrow>
   inv_part d' = inv_part d \<and> local_clock d' = local_clock d \<and> nr_local_clock d' = nr_local_clock d"
  by (auto simp: do_perform_io_def Let_def dest!: perform_loop_quiet split: bind_splits)

lemma post_quiet:
  "fill_cq_result sqid cqid e cid d = Some d' \<Longrightarrow>
   inv_part d' = inv_part d \<and> local_clock d' = local_clock d \<and> nr_local_clock d' = nr_local_clock d"
  by (auto simp: fill_cq_result_def fill_cq_post_def put_cq_def inv_part_def Let_def split: bind_splits)

lemma upd_worker_frame:
  assumes "upd_worker k f d = Some d'" and "\<And>tb'. f (proc_info d ! k) = Some tb' \<Longrightarrow> flags_only (proc_info d ! k) tb'"
  shows "work_frame k d d'"
  using assms by (auto simp: upd_worker_def work_frame_def inv_part_def arr_get_eq_Some_iff split: bind_splits)

text \<open>A step that leaves the worker's time and the number of clock readings.\<close>

definition flag_step :: "nat \<Rightarrow> nvmev_dev \<Rightarrow> nvmev_dev \<Rightarrow> bool" where
  "flag_step k d d' \<longleftrightarrow> work_frame k d d' \<and> proc_io_nsecs (proc_info d' ! k) = proc_io_nsecs (proc_info d ! k) \<and>
     nr_local_clock d' = nr_local_clock d"

lemma flag_step_trans: "flag_step k a b \<Longrightarrow> flag_step k b c \<Longrightarrow> flag_step k a c"
  by (auto simp: flag_step_def intro: work_frame_trans)

lemma flag_step_quiet:
  "inv_part d' = inv_part d \<and> local_clock d' = local_clock d \<and> nr_local_clock d' = nr_local_clock d \<Longrightarrow> flag_step k d d'"
  by (auto simp: flag_step_def intro: work_frame_quiet) (simp add: inv_part_def)

lemma flag_step_upd:
  assumes "upd_worker k (pe_upd cur f) d = Some d'"
    and "\<And>pe. pe_next (f pe) = pe_next pe \<and> pe_prev (f pe) = pe_prev pe \<and> pe_nsecs_target (f pe) = pe_nsecs_target pe"
  shows "flag_step k d d'"
proof -
  have "flags_only (proc_info d ! k) tb'" if "pe_upd cur f (proc_info d ! k) = Some tb'" for tb'
    using that assms(2) by (auto simp: pe_upd_def flags_only_def arr_get_eq_Some_iff nth_list_update_if split: bind_splits)
  then have "work_frame k d d'" by (rule upd_worker_frame [OF assms(1)])
  moreover have "proc_io_nsecs (proc_info d' ! k) = proc_io_nsecs (proc_info d ! k)" "nr_local_clock d' = nr_local_clock d"
    using assms(1) by (auto simp: upd_worker_def pe_upd_def arr_get_eq_Some_iff split: bind_splits)
  ultimately show ?thesis by (simp add: flag_step_def)
qed

lemma worker_entry_frame:
  assumes run: "worker_entry k dl cur d = Some (nxt, d')"
    and le: "proc_io_nsecs (proc_info d ! k) \<le> local_clock d (nr_local_clock d) + dl"
  shows "work_frame k d d' \<and> nr_local_clock d' = Suc (nr_local_clock d) \<and>
    proc_io_nsecs (proc_info d' ! k) = local_clock d (nr_local_clock d) + dl"
proof -
  let ?now = "local_clock d (nr_local_clock d) + dl" and ?d1 = "d\<lparr>nr_local_clock := Suc (nr_local_clock d)\<rparr>"
  obtain d2 where d2: "upd_worker k (\<lambda>tb. Some (tb\<lparr>proc_io_nsecs := ?now\<rparr>)) ?d1 = Some d2"
    using run by (auto simp: worker_entry_def get_local_clock_def Let_def split: bind_splits)
  have "work_frame k ?d1 d2" by (rule upd_worker_frame [OF d2]) (use le in \<open>auto simp: flags_only_def\<close>)
  moreover have "work_frame k d ?d1" by (simp add: work_frame_def inv_part_def)
  ultimately have W2: "work_frame k d d2" by (rule work_frame_trans [rotated])
  have n2: "nr_local_clock d2 = Suc (nr_local_clock d)" "proc_io_nsecs (proc_info d2 ! k) = ?now"
    using d2 by (auto simp: upd_worker_def arr_get_eq_Some_iff split: bind_splits)
  obtain tb pe where tb: "arr_get (proc_info d2) k = Some tb" "pe_get tb cur = Some pe"
    using run d2 by (auto simp: worker_entry_def get_local_clock_def Let_def split: bind_splits)
  note R = run [unfolded worker_entry_def get_local_clock_def Let_def prod.case d2 bind.bind_lunit tb]
  have "flag_step k d2 d'"
  proof (cases "pe_is_completed pe")
    case True
    then show ?thesis using R flag_step_quiet [of d2 d2] by simp
  next
    case False
    obtain d3 where d3: "flag_step k d2 d3" and r3: "(if pe_nsecs_target pe \<le> ?now then do {
         d \<leftarrow> fill_cq_result (pe_sqid pe) (pe_cqid pe) (pe_sq_entry pe) (pe_command_id pe) d3;
         d \<leftarrow> upd_worker k (pe_upd cur (\<lambda>pe. pe\<lparr>pe_is_completed := True\<rparr>)) d;
         Some (Some (pe_next pe), d) } else Some (None, d3)) = Some (nxt, d')"
    proof (cases "pe_is_copied pe")
      case True
      then show ?thesis using R False flag_step_quiet [of d2 d2] that [of d2] by simp
    next
      case uncopied: False
      then obtain len d4 d3 where 4: "do_perform_io (pe_sqid pe) (pe_sq_entry pe) d2 = Some (len, d4)"
        "upd_worker k (pe_upd cur (\<lambda>pe. pe\<lparr>pe_is_copied := True\<rparr>)) d4 = Some d3"
        using R False by (auto split: bind_splits)
      have "flag_step k d2 d3"
        by (rule flag_step_trans [OF flag_step_quiet [OF perform_quiet [OF 4(1)]] flag_step_upd [OF 4(2)]]) simp
      then show ?thesis using R False uncopied 4 that [of d3] by simp
    qed
    show ?thesis
    proof (cases "pe_nsecs_target pe \<le> ?now")
      case True
      then obtain d5 where 5: "fill_cq_result (pe_sqid pe) (pe_cqid pe) (pe_sq_entry pe) (pe_command_id pe) d3 = Some d5"
        "upd_worker k (pe_upd cur (\<lambda>pe. pe\<lparr>pe_is_completed := True\<rparr>)) d5 = Some d'"
        using r3 by (auto split: bind_splits)
      have "flag_step k d3 d'"
        by (rule flag_step_trans [OF flag_step_quiet [OF post_quiet [OF 5(1)]] flag_step_upd [OF 5(2)]]) simp
      then show ?thesis by (rule flag_step_trans [OF d3])
    next
      case False
      then show ?thesis using r3 d3 by simp
    qed
  qed
  then show ?thesis using W2 n2 work_frame_trans by (auto simp: flag_step_def)
qed

lemma worker_scan_frame:
  assumes "worker_scan k dl cur d = Some d'" and "clock_runs (local_clock d) dl (nr_local_clock d)"
    and "proc_io_nsecs (proc_info d ! k) \<le> local_clock d (nr_local_clock d) + dl"
  shows "work_frame k d d'"
proof -
  let ?P = "\<lambda>k dl cur d d'. clock_runs (local_clock d) dl (nr_local_clock d) \<longrightarrow>
    proc_io_nsecs (proc_info d ! k) \<le> local_clock d (nr_local_clock d) + dl \<longrightarrow> work_frame k d d'"
  have "?P k dl cur d d'"
  proof (rule worker_scan.raw_induct [where P = ?P, OF _ assms(1)], intro impI)
    fix f k dl cur d d'
    assume IH: "\<And>k dl cur d d'. f k dl cur d = Some d' \<Longrightarrow> ?P k dl cur d d'"
      and run: "(if cur = NIL then Some d
        else do {
          (nxt, d) \<leftarrow> worker_entry k dl cur d;
          (case nxt of None \<Rightarrow> Some d | Some cur \<Rightarrow> f k dl cur d)
        }) = Some d'"
      and clk: "clock_runs (local_clock d) dl (nr_local_clock d)"
      and le: "proc_io_nsecs (proc_info d ! k) \<le> local_clock d (nr_local_clock d) + dl"
    show "work_frame k d d'"
    proof (cases "cur = NIL")
      case False
      then obtain nxt d1 where 1: "worker_entry k dl cur d = Some (nxt, d1)"
        and r: "(case nxt of None \<Rightarrow> Some d1 | Some cur \<Rightarrow> f k dl cur d1) = Some d'"
        using run by (auto split: bind_splits)
      note W = worker_entry_frame [OF 1 le]
      have c1: "local_clock d1 = local_clock d" using W by (simp add: work_frame_def)
      have "clock_runs (local_clock d1) dl (nr_local_clock d1)" "proc_io_nsecs (proc_info d1 ! k) \<le> local_clock d1 (nr_local_clock d1) + dl"
        using clk W c1 by (simp_all add: clock_runs_def)
      then have "work_frame k d1 d'" using r IH by (cases nxt) auto
      then show ?thesis using W work_frame_trans by blast
    qed (use run in simp)
  qed
  then show ?thesis using assms(2,3) by blast
qed

lemma raise_irq_quiet:
  assumes "raise_irq q d = Some d'"
  shows "inv_part d' = inv_part d \<and> local_clock d' = local_clock d \<and> nr_local_clock d' = nr_local_clock d"
  using assms
  by (auto simp: raise_irq_def nvmev_signal_irq_def put_cq_def inv_part_def split: bind_splits option.splits if_splits)

lemma raise_irqs_quiet: "foldM raise_irq qs d = Some d' \<Longrightarrow> inv_part d' = inv_part d"
proof (induction qs arbitrary: d)
  case (Cons q qs)
  then obtain d1 where "raise_irq q d = Some d1" "foldM raise_irq qs d1 = Some d'" by (auto split: bind_splits)
  then show ?case using Cons.IH raise_irq_quiet by metis
qed simp

text \<open>The clocks that worker \<open>k\<close> reads in a round that begins now do not run backwards.\<close>

definition clocks_ok :: "nat \<Rightarrow> nvmev_dev \<Rightarrow> bool" where
  "clocks_ok k d \<longleftrightarrow> (let dl = fst (get_wallclock d) - local_clock d (nr_local_clock d); n = Suc (nr_local_clock d) in
     clock_runs (local_clock d) dl n \<and> proc_io_nsecs (proc_info d ! k) \<le> local_clock d n + dl)"

lemma worker_round_inv:
  assumes run: "kthread_io_round k d = Some d'" and clk: "clocks_ok k d" and inv: "sys_inv n K d"
  shows "sys_inv n K d' \<and> ssd_klog (dev_ftl d') = ssd_klog (dev_ftl d)"
proof -
  obtain wall d0 where w: "get_wallclock d = (wall, d0)" by fastforce
  have dinv: "dispatch_inv n K d" using inv by (simp add: sys_inv_def)
  have d0: "dispatch_inv n K d0" "ssd_klog (dev_ftl d0) = ssd_klog (dev_ftl d)"
    and eq: "d0 = d\<lparr>dev_ftl := snd (get_ioclock (dev_ftl d))\<rparr>"
    using wallclock_ok [OF dinv w] by blast+
  have same: "proc_info d0 = proc_info d" "local_clock d0 = local_clock d" "nr_local_clock d0 = nr_local_clock d"
    "dbs d0 = dbs d" "old_dbs d0 = old_dbs d"
    unfolding eq by simp_all
  let ?d1 = "d0\<lparr>nr_local_clock := Suc (nr_local_clock d0)\<rparr>" and ?dl = "wall - local_clock d0 (nr_local_clock d0)"
  have inv1: "sys_inv n K ?d1" using d0(1) same(4,5) inv by (simp add: sys_inv_def dispatch_inv_def tables_ok_def)
  obtain cur d2 qs where 2: "worker_scan k ?dl cur ?d1 = Some d2" "foldM raise_irq qs d2 = Some d'"
    using run by (auto simp: kthread_io_round_def w get_local_clock_def Let_def simp del: upt_Suc split: bind_splits)
  have W: "work_frame k ?d1 d2"
    by (rule worker_scan_frame [OF 2(1)]) (use clk same(1-3) in \<open>simp_all add: clocks_ok_def w Let_def\<close>)
  have "sys_inv n K d2" by (rule work_frame_inv [OF W inv1])
  moreover have "dev_ftl d2 = dev_ftl d0" using W by (simp add: work_frame_def inv_part_def)
  moreover have "inv_part d' = inv_part d2" by (rule raise_irqs_quiet [OF 2(2)])
  ultimately show ?thesis using sys_inv_part [of d' d2] d0(2) by simp
qed

section \<open>The system\<close>

text \<open>
  One step of the device. The host may write any memory, doorbell and register at any time; the
  pieces of a pass of the dispatcher are separate steps, so that workers and host interleave with
  it. A submission queue is handled while its commands stay within the first \<open>K\<close> logical pages
  and its doorbells within the queue.
\<close>

inductive sys_step :: "nat \<Rightarrow> nvmev_dev \<Rightarrow> nvmev_dev \<Rightarrow> bool" for K where
  host: "length b = length (dbs d) \<Longrightarrow> sys_step K d (d\<lparr>dev_mem := m, dbs := b, bar := r\<rparr>)"
| registers: "nvmev_proc_bars d = Some d' \<Longrightarrow> sys_step K d d'"
| admin_sq: "proc_db 0 nvmev_proc_admin_sq d = Some d' \<Longrightarrow> sys_step K d d'"
| admin_cq: "proc_db 1 nvmev_proc_admin_cq d = Some d' \<Longrightarrow> sys_step K d d'"
| io_sq: "sq_db_ok K d q \<Longrightarrow> proc_sq_db q d = Some d' \<Longrightarrow> sys_step K d d'"
| io_cq: "proc_cq_db q d = Some d' \<Longrightarrow> sys_step K d d'"
| worker: "clocks_ok k d \<Longrightarrow> kthread_io_round k d = Some d' \<Longrightarrow> sys_step K d d'"
| config_write: "nvmev_pci_write junk devfn wh n w d = Some (r, d') \<Longrightarrow> sys_step K d d'"

lemma sys_step_inv:
  assumes "sys_step K d d'" and inv: "sys_inv n K d"
  shows "sys_inv n K d' \<and> ssd_klog (dev_ftl d') = ssd_klog (dev_ftl d)"
  using assms(1)
proof cases
  case (host b m r)
  then show ?thesis by (intro sys_inv_part [OF _ inv]) (simp add: inv_part_def)
next
  case registers
  then show ?thesis by (intro sys_inv_part [OF bars_part inv])
next
  case admin_sq
  show ?thesis by (rule sys_inv_part [OF db_part [OF admin_sq] inv]) (rule admin_sq_part)
next
  case admin_cq
  show ?thesis by (rule sys_inv_part [OF db_part [OF admin_cq] inv]) (simp add: nvmev_proc_admin_cq_def)
next
  case (io_sq q)
  have "returns (proc_sq_db q d) (\<lambda>d'. dispatch_inv n K d' \<and> db_frame d d' \<and> cqes d' = cqes d \<and> sq_handled d d' q \<and>
    requests_entered d d' (pending_requests d q) \<and> (\<forall>q'. q' \<noteq> int q \<longrightarrow> sq_of d' q' = sq_of d q') \<and> (\<forall>i. i \<noteq> 2 * q \<longrightarrow> old_dbs d' ! i = old_dbs d ! i))"
    by (rule proc_sq_db_ok) (use inv io_sq in \<open>simp_all add: sys_inv_def\<close>)
  then show ?thesis using io_sq inv by (simp add: sys_inv_def db_frame_def)
next
  case (io_cq q)
  show ?thesis by (rule sys_inv_part [OF cq_db_part [OF io_cq] inv])
next
  case (worker k)
  then show ?thesis using worker_round_inv inv by blast
next
  case (config_write junk devfn wh m w r)
  then have "inv_part d' = inv_part d"
    by (auto simp: nvmev_pci_write_def inv_part_def Let_def split: bind_splits if_splits)
  then show ?thesis by (rule sys_inv_part [OF _ inv])
qed

lemma sys_steps_inv:
  assumes "(sys_step K)\<^sup>*\<^sup>* d d'" and "sys_inv n K d"
  shows "sys_inv n K d' \<and> ssd_klog (dev_ftl d') = ssd_klog (dev_ftl d)"
  using assms by (induction rule: rtranclp_induct) (auto dest: sys_step_inv)

text \<open>C1. From the loading of the module on, with valid parameters and a host that stays within its share of
  the pages: in every state that the host, the dispatcher and the workers reach in any order, the
  invariants of the translation layer and of the request tables hold and no assertion of the
  translation layer has failed. In each such state the dispatcher handles the doorbell of a submission queue whose
  commands and doorbells are in range without undefined behaviour: it counts the waiting commands, copies the
  doorbell, and, while the tables have room, the requests that wait for completion are then those from before and one for
  each of these commands; and it handles the doorbell of a completion queue whose doorbells are in range and whose
  entries name submission queues that exist. (An entry of a completion queue that names no existing queue, and the
  admin doorbells, are not covered.)\<close>

theorem system_safe:
  assumes "params_loadable k mp" and "length (apicid_to_cpuid d) = 256" and "\<forall>a\<in>set (k_apics k). unat a < 256"
    and "k_found k = Some 1"
  shows "returns (NVMeV_init k mp d) (\<lambda>(r, d1). \<forall>K d'. int K < 243 * 2048 * init_nchs (storage_size (config d1)) \<longrightarrow>
    (sys_step K)\<^sup>*\<^sup>* d1 d' \<longrightarrow>
    dispatch_inv (init_nchs (storage_size (config d1))) K d' \<and> ssd_klog (dev_ftl d') = ssd_klog (dev_ftl d1) \<and>
    (\<forall>q. sq_db_ok K d' q \<longrightarrow> returns (proc_sq_db q d') (\<lambda>d''.
       sq_handled d' d'' q \<and> requests_entered d' d'' (pending_requests d' q))) \<and>
    (\<forall>q. cq_db_ok d' q \<longrightarrow> returns (proc_cq_db q d') (\<lambda>d''.
       proc_info d'' = proc_info d' \<and> (cqes d' ! q \<noteq> None \<longrightarrow> old_dbs d'' ! (2 * q + 1) = dbs d' ! (2 * q + 1)))))"
proof (rule returns_mono [OF NVMeV_init_run [OF assms]], clarify, intro conjI allI impI)
  fix r :: int and d1 d' :: nvmev_dev and K
  let ?n = "init_nchs (storage_size (config d1))"
  assume D: "let n = ?n in 0 < n \<and> n \<le> 128 \<and> (\<forall>K. int K < 243 * 2048 * n \<longrightarrow> dispatch_inv n K d1) \<and> mapset (dev_ftl d1) = {}"
    and dbs: "dbs d1 = replicate 1024 0" "old_dbs d1 = dbs d1"
    and K: "int K < 243 * 2048 * ?n" and steps: "(sys_step K)\<^sup>*\<^sup>* d1 d'"
  have "sys_inv ?n K d1" using D dbs K by (simp add: sys_inv_def Let_def)
  note S = sys_steps_inv [OF steps this]
  then show "dispatch_inv ?n K d'" "ssd_klog (dev_ftl d') = ssd_klog (dev_ftl d1)" by (simp_all add: sys_inv_def)
  show "returns (proc_sq_db q d') (\<lambda>d''. sq_handled d' d'' q \<and> requests_entered d' d'' (pending_requests d' q))"
    if "sq_db_ok K d' q" for q
    using S that by (intro returns_mono [OF proc_sq_db_ok [where n = ?n]]) (auto simp: sys_inv_def)
  show "returns (proc_cq_db q d') (\<lambda>d''. proc_info d'' = proc_info d' \<and>
      (cqes d' ! q \<noteq> None \<longrightarrow> old_dbs d'' ! (2 * q + 1) = dbs d' ! (2 * q + 1)))" if "cq_db_ok d' q" for q
    using S that by (intro returns_mono [OF proc_cq_db_ok [where n = ?n and K = K]]) (auto simp: sys_inv_def)
qed

lemma host_enables:
  "\<exists>d'. (sys_step K)\<^sup>*\<^sup>* d d' \<and> admin_q d' \<noteq> None"
proof -
  let ?h = "d\<lparr>dev_mem := dev_mem d, dbs := dbs d, bar := (old_bar d)\<lparr>bar_aqa := bar_aqa (old_bar d) + 1\<rparr>\<rparr>"
  have "sys_step K d ?h" by (rule host) simp
  moreover have "returns (nvmev_proc_bars ?h) (\<lambda>d'. admin_q d' \<noteq> None)"
    by (simp add: nvmev_proc_bars_def copy_intms_def proc_aqa_def proc_asq_def proc_acq_def proc_cc_def Let_def dev_log_def)
  then obtain d' where "nvmev_proc_bars ?h = Some d'" "admin_q d' \<noteq> None" by (rule returnsE)
  moreover from this(1) have "sys_step K ?h d'" by (rule registers)
  ultimately show ?thesis by (meson rtranclp.rtrancl_into_rtrancl rtranclp.rtrancl_refl)
qed

theorem system_safe_witness:
  "returns (NVMeV_init demo_kernel demo_params ((demo_dev (blank tiny_sp))\<lparr>apicid_to_cpuid := replicate 256 0\<rparr>))
    (\<lambda>(r, d1). \<exists>d'. (sys_step 1000)\<^sup>*\<^sup>* d1 d' \<and> admin_q d' \<noteq> None \<and>
      dispatch_inv (init_nchs (storage_size (config d1))) 1000 d' \<and> ssd_klog (dev_ftl d') = ssd_klog (dev_ftl d1))"
proof -
  let ?d = "(demo_dev (blank tiny_sp))\<lparr>apicid_to_cpuid := replicate 256 0\<rparr>"
  have h: "length (apicid_to_cpuid ?d) = 256" "\<forall>a\<in>set (k_apics demo_kernel). unat a < 256" "k_found demo_kernel = Some 1"
    by (simp_all add: demo_kernel_def)
  have "returns (NVMeV_init demo_kernel demo_params ?d) (\<lambda>(r, d1). 0 < init_nchs (storage_size (config d1)))"
    by (rule returns_mono [OF NVMeV_init_run [OF demo_params_loadable h]]) (auto simp: Let_def)
  from returns_conj [OF system_safe [OF demo_params_loadable h] this] show ?thesis
  proof (rule returns_mono, clarify)
    fix r :: int and d1 :: nvmev_dev
    let ?n = "init_nchs (storage_size (config d1))"
    assume safe: "\<forall>K d'. int K < 243 * 2048 * ?n \<longrightarrow> (sys_step K)\<^sup>*\<^sup>* d1 d' \<longrightarrow>
        dispatch_inv ?n K d' \<and> ssd_klog (dev_ftl d') = ssd_klog (dev_ftl d1) \<and>
        (\<forall>q. sq_db_ok K d' q \<longrightarrow> returns (proc_sq_db q d') (\<lambda>d''.
           sq_handled d' d'' q \<and> requests_entered d' d'' (pending_requests d' q))) \<and>
        (\<forall>q. cq_db_ok d' q \<longrightarrow> returns (proc_cq_db q d') (\<lambda>d''.
           proc_info d'' = proc_info d' \<and> (cqes d' ! q \<noteq> None \<longrightarrow> old_dbs d'' ! (2 * q + 1) = dbs d' ! (2 * q + 1))))"
      and n: "0 < ?n"
    obtain d' where d': "(sys_step 1000)\<^sup>*\<^sup>* d1 d'" "admin_q d' \<noteq> None" using host_enables by blast
    have "int 1000 < 243 * 2048 * ?n" using n by simp
    then show "\<exists>d'. (sys_step 1000)\<^sup>*\<^sup>* d1 d' \<and> admin_q d' \<noteq> None \<and> dispatch_inv ?n 1000 d' \<and>
        ssd_klog (dev_ftl d') = ssd_klog (dev_ftl d1)"
      using safe d' by blast
  qed
qed

end
