(* ===== verification/Release.thy ===== *)
theory Release
  imports FTL
begin

text \<open>
  What the module acquires and gives back: kernel memory, mappings, threads and files under
  \<^verbatim>\<open>/proc\<close>, from \<^verbatim>\<open>NVMeV_init\<close> to \<^verbatim>\<open>NVMeV_exit\<close>. A slot is a pointer variable of the module; an
  acquired object is a number that is never used again. Giving back an object that is no longer
  there (a double free) is undefined, giving back NULL does nothing. Allocations do not fail; one of no
  bytes gives \<^verbatim>\<open>ZERO_SIZE_PTR\<close>, which \<^verbatim>\<open>kfree\<close> ignores as it ignores NULL, and \<^const>\<open>None\<close> stands for both.
  The arrays that \<^verbatim>\<open>ssd_init\<close> allocates are objects like the others; nothing gives them back.
\<close>

section \<open>Objects and pointers\<close>

text \<open>The arrays of the translation layer, by the indices of the structure that has the pointer.\<close>

datatype ftl_array =
    A_ch | A_lun nat | A_pl nat nat | A_blk nat nat nat | A_pg nat nat nat nat | A_sec nat nat nat nat nat
  | A_maptbl | A_rmap | A_lines | A_pq | A_pq_d

datatype slot =
    S_vdev | S_virtDev | S_bar | S_msix_table | S_old_bar | S_old_dbs
  | S_admin_q | S_nvme_sq | S_nvme_cq
  | S_sqe nat | S_sq_pages nat | S_cqe nat | S_cq_pages nat
  | S_storage_mapped | S_io_unit_stat
  | S_proc_info | S_proc_table nat | S_io_worker nat | S_manager
  | S_ftl ftl_array

record module_mem =
  live :: "nat set"
  next_obj :: nat
  ptr :: "slot \<Rightarrow> nat option"
  virt_bus :: bool
  mm_nr_sq :: nat
  mm_nr_cq :: nat
  mm_nr_io_cpu :: nat
  proc_files :: "string list"

text \<open>\<open>s = kzalloc(\<dots>)\<close>, \<open>s = memremap(\<dots>)\<close>, \<open>s = kthread_create(\<dots>)\<close>; \<open>s = NULL\<close>; and \<open>kfree(s)\<close>,
  \<open>memunmap(s)\<close>, \<open>kthread_stop(s)\<close>, which leave the pointer.\<close>

definition acquire :: "slot \<Rightarrow> module_mem \<Rightarrow> module_mem" where
  "acquire s m = m\<lparr>live := insert (next_obj m) (live m), next_obj := Suc (next_obj m), ptr := (ptr m)(s := Some (next_obj m))\<rparr>"

definition nullify :: "slot \<Rightarrow> module_mem \<Rightarrow> module_mem" where
  "nullify s m = m\<lparr>ptr := (ptr m)(s := None)\<rparr>"

text \<open>An allocation whose size is computed: \<open>n\<close> elements.\<close>

definition acquire_n :: "slot \<Rightarrow> nat \<Rightarrow> module_mem \<Rightarrow> module_mem" where
  "acquire_n s n m = (if n = 0 then nullify s m else acquire s m)"

definition release :: "slot \<Rightarrow> module_mem \<Rightarrow> module_mem option" where
  "release s m = (case ptr m s of None \<Rightarrow> Some m
     | Some h \<Rightarrow> if h \<in> live m then Some (m\<lparr>live := live m - {h}\<rparr>) else None)"

section \<open>End\<close>

definition NVMEV_REG_PROC_FINAL :: "module_mem \<Rightarrow> module_mem option" where
  "NVMEV_REG_PROC_FINAL m =
     (if ptr m S_manager \<noteq> None then do { m \<leftarrow> release S_manager m; Some (nullify S_manager m) } else Some m)"

definition NVMEV_IO_PROC_FINAL :: "module_mem \<Rightarrow> module_mem option" where
  "NVMEV_IO_PROC_FINAL m = do {
     m \<leftarrow> foldM (\<lambda>i m. do { m \<leftarrow> release (S_io_worker i) m; release (S_proc_table i) m }) [0..<mm_nr_io_cpu m] m;
     release S_proc_info m }"

definition remove_proc_entry :: "string \<Rightarrow> module_mem \<Rightarrow> module_mem" where
  "remove_proc_entry f m = m\<lparr>proc_files := removeAll f (proc_files m)\<rparr>"

definition NVMEV_STORAGE_FINAL :: "module_mem \<Rightarrow> module_mem option" where
  "NVMEV_STORAGE_FINAL m = do {
     let m = fold remove_proc_entry [''read_times'', ''write_times'', ''io_units'', ''stat'', ''debug'', ''nvmev''] m;
     m \<leftarrow> release S_storage_mapped m;
     release S_io_unit_stat m }"

text \<open>\<^verbatim>\<open>VDEV_FINALIZE\<close> up to the statistics of the units, and the rest of it.\<close>

definition finalize_front :: "module_mem \<Rightarrow> module_mem option" where
  "finalize_front m = do {
     m \<leftarrow> release S_msix_table m;
     m \<leftarrow> release S_bar m;
     m \<leftarrow> release S_old_bar m;
     m \<leftarrow> release S_old_dbs m;
     m \<leftarrow> release S_admin_q m;
     release S_virtDev m }"

definition VDEV_FINALIZE :: "module_mem \<Rightarrow> module_mem option" where
  "VDEV_FINALIZE m = do {
     m \<leftarrow> finalize_front m;
     m \<leftarrow> release S_io_unit_stat m;
     release S_vdev m }"

text \<open>\<^verbatim>\<open>NVMeV_exit\<close> before it calls \<^verbatim>\<open>VDEV_FINALIZE\<close>.\<close>

definition exit_front :: "module_mem \<Rightarrow> module_mem option" where
  "exit_front m = do {
     m \<leftarrow> NVMEV_REG_PROC_FINAL m;
     m \<leftarrow> NVMEV_IO_PROC_FINAL m;
     m \<leftarrow> NVMEV_STORAGE_FINAL m;
     if virt_bus m then do {
       m \<leftarrow> foldM (\<lambda>i. release (S_sqe i)) [0..<mm_nr_sq m] m;
       foldM (\<lambda>i. release (S_cqe i)) [0..<mm_nr_cq m] m
     } else Some m }"

definition NVMeV_exit :: "module_mem \<Rightarrow> module_mem option" where
  "NVMeV_exit m = do { m \<leftarrow> exit_front m; VDEV_FINALIZE m }"

section \<open>Start\<close>

text \<open>The structure of the device is zeroed: every pointer in it is NULL.\<close>

definition vdev_init_mem :: "module_mem \<Rightarrow> module_mem" where
  "vdev_init_mem m = acquire S_virtDev (acquire S_vdev
     (m\<lparr>ptr := \<lambda>_. None, virt_bus := False, mm_nr_sq := 0, mm_nr_cq := 0, mm_nr_io_cpu := 0\<rparr>))"

text \<open>One device that the scan of the bus finds.\<close>

definition pci_dev_mem :: "module_mem \<Rightarrow> module_mem" where
  "pci_dev_mem = acquire S_msix_table \<circ> acquire S_old_bar \<circ> acquire S_old_dbs \<circ> acquire S_bar"

text \<open>The arrays that \<^verbatim>\<open>ssd_init\<close> allocates, in their order; each function allocates the array of its
  structure and calls the next one for its elements.\<close>

definition sized :: "ftl_array \<Rightarrow> int \<Rightarrow> ftl_array list" where
  "sized a n = (if 0 < n then [a] else [])"

definition nand_blk_arrays :: "ssdparams \<Rightarrow> nat \<Rightarrow> nat \<Rightarrow> nat \<Rightarrow> nat \<Rightarrow> ftl_array list" where
  "nand_blk_arrays sp c l p b = sized (A_pg c l p b) (pgs_per_blk sp) @
     concat (map (\<lambda>g. sized (A_sec c l p b g) (secs_per_pg sp)) [0..<nat (pgs_per_blk sp)])"

definition nand_plane_arrays :: "ssdparams \<Rightarrow> nat \<Rightarrow> nat \<Rightarrow> nat \<Rightarrow> ftl_array list" where
  "nand_plane_arrays sp c l p = sized (A_blk c l p) (blks_per_pl sp) @
     concat (map (nand_blk_arrays sp c l p) [0..<nat (blks_per_pl sp)])"

definition nand_lun_arrays :: "ssdparams \<Rightarrow> nat \<Rightarrow> nat \<Rightarrow> ftl_array list" where
  "nand_lun_arrays sp c l = sized (A_pl c l) (pls_per_lun sp) @
     concat (map (nand_plane_arrays sp c l) [0..<nat (pls_per_lun sp)])"

definition ch_arrays :: "ssdparams \<Rightarrow> nat \<Rightarrow> ftl_array list" where
  "ch_arrays sp c = sized (A_lun c) (luns_per_ch sp) @
     concat (map (nand_lun_arrays sp c) [0..<nat (luns_per_ch sp)])"

definition ssd_init_arrays :: "ssdparams \<Rightarrow> ftl_array list" where
  "ssd_init_arrays sp = sized A_ch (nchs sp) @ concat (map (ch_arrays sp) [0..<nat (nchs sp)]) @
     sized A_maptbl (tt_pgs sp) @ sized A_rmap (tt_pgs sp) @ sized A_lines (blks_per_pl sp) @ [A_pq, A_pq_d]"

definition ssd_init_mem :: "ssdparams \<Rightarrow> module_mem \<Rightarrow> module_mem" where
  "ssd_init_mem sp = fold (\<lambda>a. acquire (S_ftl a)) (ssd_init_arrays sp)"

definition storage_init_mem :: "nat \<Rightarrow> module_mem \<Rightarrow> module_mem" where
  "storage_init_mem units m = (acquire S_storage_mapped (acquire_n S_io_unit_stat units m))
     \<lparr>proc_files := proc_files m @ [''nvmev'', ''read_times'', ''write_times'', ''io_units'', ''stat'', ''debug'']\<rparr>"

definition io_proc_init_mem :: "module_mem \<Rightarrow> module_mem" where
  "io_proc_init_mem m =
     fold (\<lambda>i. acquire (S_io_worker i) \<circ> acquire (S_proc_table i)) [0..<mm_nr_io_cpu m]
       (acquire_n S_proc_info (mm_nr_io_cpu m) m)"

definition NVMEV_DISPATCHER_INIT :: "module_mem \<Rightarrow> module_mem" where
  "NVMEV_DISPATCHER_INIT = acquire S_manager"

text \<open>
  \<^verbatim>\<open>NVMeV_init\<close>: \<open>cfg\<close> is what a configuration that passes the checks gives (the number of workers, of I/O units
  and of channels of the flash), \<open>found\<close> the number of devices on the bus or \<^const>\<open>None\<close> when the scan fails.
\<close>

record start_cfg =
  sc_workers :: nat
  sc_io_units :: nat
  sc_nchs :: int

definition init_mem :: "start_cfg option \<Rightarrow> nat option \<Rightarrow> module_mem \<Rightarrow> (bool \<times> module_mem) option" where
  "init_mem cfg found m =
     (let m = vdev_init_mem m in
      case cfg of None \<Rightarrow> do { m \<leftarrow> VDEV_FINALIZE m; Some (False, m) }
      | Some c \<Rightarrow>
          (let m = m\<lparr>mm_nr_io_cpu := sc_workers c\<rparr>;
               m = ssd_init_mem (ssd_init_params (sc_nchs c)) m in
           case found of None \<Rightarrow> do { m \<leftarrow> VDEV_FINALIZE m; Some (False, m) }
           | Some k \<Rightarrow>
               (let m = ((pci_dev_mem ^^ k) m)\<lparr>virt_bus := True\<rparr>;
                    m = io_proc_init_mem (storage_init_mem (sc_io_units c) m)
                in Some (True, NVMEV_DISPATCHER_INIT m))))"

section \<open>What happens in between\<close>

datatype mem_op =
    Set_aqa | Set_asq | Set_acq | Create_sq nat | Delete_sq nat | Create_cq nat | Delete_cq nat
  | Set_queues nat nat | Write_io_units nat

text \<open>The admin queue is a new structure, its pages are not set up.\<close>

definition aqa_mem :: "module_mem \<Rightarrow> module_mem" where
  "aqa_mem = nullify S_nvme_cq \<circ> nullify S_nvme_sq \<circ> acquire S_admin_q"

definition create_sq_mem :: "nat \<Rightarrow> module_mem \<Rightarrow> module_mem option" where
  "create_sq_mem q m = (if 72 < q then None else Some (acquire (S_sq_pages q) (acquire (S_sqe q) m)))"

definition create_cq_mem :: "nat \<Rightarrow> module_mem \<Rightarrow> module_mem option" where
  "create_cq_mem q m = (if 72 < q then None else Some (acquire (S_cq_pages q) (acquire (S_cqe q) m)))"

text \<open>The pages of a queue are reached through its structure, a NULL pointer is followed.\<close>

definition delete_sq_mem :: "nat \<Rightarrow> module_mem \<Rightarrow> module_mem option" where
  "delete_sq_mem q m = (if 72 < q \<or> ptr m (S_sqe q) = None then None else do {
     m \<leftarrow> release (S_sq_pages q) m;
     m \<leftarrow> release (S_sqe q) m;
     Some (nullify (S_sq_pages q) (nullify (S_sqe q) m)) })"

definition delete_cq_mem :: "nat \<Rightarrow> module_mem \<Rightarrow> module_mem option" where
  "delete_cq_mem q m = (if 72 < q \<or> ptr m (S_cqe q) = None then None else do {
     m \<leftarrow> release (S_cq_pages q) m;
     m \<leftarrow> release (S_cqe q) m;
     Some (nullify (S_cq_pages q) (nullify (S_cqe q) m)) })"

text \<open>A write of \<open>n\<close> units to \<^verbatim>\<open>io_units\<close>: the old statistics are given back after the new ones are allocated.\<close>

definition io_units_mem :: "nat \<Rightarrow> module_mem \<Rightarrow> module_mem option" where
  "io_units_mem n m = (let old = ptr m S_io_unit_stat; m = acquire_n S_io_unit_stat n m in
     case old of None \<Rightarrow> Some m | Some h \<Rightarrow> if h \<in> live m then Some (m\<lparr>live := live m - {h}\<rparr>) else None)"

definition mem_step :: "mem_op \<Rightarrow> module_mem \<Rightarrow> module_mem option" where
  "mem_step x m = (case x of
     Set_aqa \<Rightarrow> Some (aqa_mem m)
   | Set_asq \<Rightarrow> if ptr m S_admin_q = None then None else Some (acquire S_nvme_sq m)
   | Set_acq \<Rightarrow> if ptr m S_admin_q = None then None else Some (acquire S_nvme_cq m)
   | Create_sq q \<Rightarrow> create_sq_mem q m
   | Delete_sq q \<Rightarrow> delete_sq_mem q m
   | Create_cq q \<Rightarrow> create_cq_mem q m
   | Delete_cq q \<Rightarrow> delete_cq_mem q m
   | Set_queues i j \<Rightarrow> Some (m\<lparr>mm_nr_sq := min i 72, mm_nr_cq := min j 72\<rparr>)
   | Write_io_units n \<Rightarrow> io_units_mem n m)"

section \<open>The invariant\<close>

text \<open>Two pointers never name one object, and every pointer names an object that is there.\<close>

definition mem_ok :: "module_mem \<Rightarrow> bool" where
  "mem_ok m \<longleftrightarrow> (\<forall>s t h. ptr m s = Some h \<longrightarrow> ptr m t = Some h \<longrightarrow> s = t) \<and>
     (\<forall>s h. ptr m s = Some h \<longrightarrow> h \<in> live m) \<and> (\<forall>h\<in>live m. h < next_obj m)"

lemma mem_ok_acquire: "mem_ok m \<Longrightarrow> mem_ok (acquire s m)"
  unfolding mem_ok_def acquire_def
  by (auto simp: less_Suc_eq)

lemma mem_ok_nullify: "mem_ok m \<Longrightarrow> mem_ok (nullify s m)"
  by (auto simp: mem_ok_def nullify_def)

lemma mem_ok_acquire_n: "mem_ok m \<Longrightarrow> mem_ok (acquire_n s n m)"
  by (simp add: acquire_n_def mem_ok_acquire mem_ok_nullify)

lemma acquire_sel [simp]:
  "ptr (acquire s m) = (ptr m)(s := Some (next_obj m))" "mm_nr_io_cpu (acquire s m) = mm_nr_io_cpu m"
  "virt_bus (acquire s m) = virt_bus m" "mm_nr_sq (acquire s m) = mm_nr_sq m" "mm_nr_cq (acquire s m) = mm_nr_cq m"
  "proc_files (acquire s m) = proc_files m" "live (acquire s m) = insert (next_obj m) (live m)"
  "next_obj (acquire s m) = Suc (next_obj m)"
  by (simp_all add: acquire_def)

lemma nullify_sel [simp]:
  "mm_nr_sq (nullify s m) = mm_nr_sq m" "mm_nr_cq (nullify s m) = mm_nr_cq m" "virt_bus (nullify s m) = virt_bus m"
  "mm_nr_io_cpu (nullify s m) = mm_nr_io_cpu m" "proc_files (nullify s m) = proc_files m" "live (nullify s m) = live m"
  "ptr (nullify s m) = (ptr m)(s := None)"
  by (simp_all add: nullify_def)

lemma acquire_n_sel [simp]:
  "ptr (acquire_n s n m) = (ptr m)(s := if n = 0 then None else Some (next_obj m))"
  "mm_nr_io_cpu (acquire_n s n m) = mm_nr_io_cpu m" "virt_bus (acquire_n s n m) = virt_bus m"
  by (simp_all add: acquire_n_def)

lemma mem_ok_sel [simp]:
  "mem_ok (m\<lparr>virt_bus := b\<rparr>) = mem_ok m" "mem_ok (m\<lparr>mm_nr_sq := i, mm_nr_cq := j\<rparr>) = mem_ok m"
  "mem_ok (m\<lparr>mm_nr_io_cpu := n\<rparr>) = mem_ok m" "mem_ok (m\<lparr>proc_files := fs\<rparr>) = mem_ok m"
  by (simp_all add: mem_ok_def)

text \<open>Giving back distinct slots.\<close>

definition objs :: "module_mem \<Rightarrow> slot set \<Rightarrow> nat set" where
  "objs m S = {h. \<exists>s\<in>S. ptr m s = Some h}"

lemma objs_simps [simp]: "objs m {} = {}" "objs m (S \<union> T) = objs m S \<union> objs m T"
  "objs (m\<lparr>live := L\<rparr>) S = objs m S" "objs (m\<lparr>proc_files := fs\<rparr>) S = objs m S"
  by (auto simp: objs_def)

lemma releases_ok:
  assumes "distinct ss" and "\<forall>s t h. ptr m s = Some h \<longrightarrow> ptr m t = Some h \<longrightarrow> s = t" and "objs m (set ss) \<subseteq> live m"
  shows "foldM release ss m = Some (m\<lparr>live := live m - objs m (set ss)\<rparr>)"
  using assms
proof (induction ss arbitrary: m)
  case (Cons s ss)
  show ?case
  proof (cases "ptr m s")
    case None
    have "objs m (set (s # ss)) = objs m (set ss)" using None by (auto simp: objs_def)
    then show ?thesis using Cons None by (simp add: release_def)
  next
    case (Some h)
    have e: "objs m (set (s # ss)) = insert h (objs m (set ss))" using Some by (auto simp: objs_def)
    have out: "h \<notin> objs m (set ss)"
    proof
      assume "h \<in> objs m (set ss)"
      then obtain t where "t \<in> set ss" "ptr m t = Some h" by (auto simp: objs_def)
      then have "t = s" using Some Cons.prems(2) by blast
      then show False using \<open>t \<in> set ss\<close> Cons.prems(1) by simp
    qed
    have r: "release s m = Some (m\<lparr>live := live m - {h}\<rparr>)" using Some Cons.prems(3) e by (auto simp: release_def)
    have "objs m (set ss) \<subseteq> live m - {h}" using Cons.prems(3) out e by auto
    then have "foldM release ss (m\<lparr>live := live m - {h}\<rparr>) =
        Some (m\<lparr>live := live m - {h}, live := live m - {h} - objs m (set ss)\<rparr>)"
      using Cons.IH [of "m\<lparr>live := live m - {h}\<rparr>"] Cons.prems(1,2) by simp
    moreover have "live m - {h} - objs m (set ss) = live m - objs m (set (s # ss))" using e by auto
    ultimately show ?thesis using r by simp
  qed
qed simp

end
