(* ===== verification/Release_Props.thy ===== *)
theory Release_Props
  imports Release
begin

text \<open>
  What is left when the module ends: the invariant of the pointers, the failing start that gives
  everything back, and the end, which gives the statistics of the units back twice.
\<close>

section \<open>The invariant is kept\<close>

lemma release_nullify_ok:
  assumes "mem_ok m" and "release s m = Some m'"
  shows "mem_ok (nullify s m')"
  using assms by (auto simp: mem_ok_def release_def nullify_def split: option.splits if_splits)

lemma release_sel:
  assumes "release s m = Some m'"
  shows "ptr m' = ptr m" "mm_nr_sq m' = mm_nr_sq m" "mm_nr_cq m' = mm_nr_cq m" "mm_nr_io_cpu m' = mm_nr_io_cpu m"
    "virt_bus m' = virt_bus m" "proc_files m' = proc_files m" "next_obj m' = next_obj m"
  using assms by (auto simp: release_def split: option.splits if_splits)

lemma two_released_ok:
  assumes "mem_ok m" and "s \<noteq> t" and "release s m = Some m1" and "release t m1 = Some m2"
  shows "mem_ok (nullify s (nullify t m2))"
proof -
  have "release t (nullify s m1) = Some (nullify s m2)"
    using assms(2,4) by (auto simp: release_def nullify_def split: option.splits if_splits)
  then have "mem_ok (nullify t (nullify s m2))"
    by (rule release_nullify_ok [OF release_nullify_ok [OF assms(1,3)]])
  moreover have "nullify t (nullify s m2) = nullify s (nullify t m2)"
    using assms(2) by (simp add: nullify_def fun_upd_twist)
  ultimately show ?thesis by simp
qed

text \<open>Between start and end the device is there, and the statistics are unless there are no units.\<close>

definition running :: "nat \<Rightarrow> module_mem \<Rightarrow> bool" where
  "running u m \<longleftrightarrow> mem_ok m \<and> virt_bus m \<and> (ptr m S_io_unit_stat = None \<longleftrightarrow> u = 0) \<and> ptr m S_vdev \<noteq> None"

definition step_units :: "mem_op \<Rightarrow> nat \<Rightarrow> nat" where
  "step_units x u = (case x of Write_io_units n \<Rightarrow> n | _ \<Rightarrow> u)"

lemma mem_ok_drop: "mem_ok m \<Longrightarrow> \<forall>s. ptr m s \<noteq> Some h \<Longrightarrow> mem_ok (m\<lparr>live := live m - {h}\<rparr>)"
  by (auto simp: mem_ok_def)

lemma io_units_ok:
  assumes "mem_ok m" and "io_units_mem n m = Some m'"
  shows "mem_ok m' \<and> virt_bus m' = virt_bus m \<and>
    ptr m' = (ptr m)(S_io_unit_stat := if n = 0 then None else Some (next_obj m))"
proof (cases "ptr m S_io_unit_stat")
  case None
  then show ?thesis using assms mem_ok_acquire_n by (auto simp: io_units_mem_def Let_def)
next
  case (Some h)
  let ?a = "acquire_n S_io_unit_stat n m"
  have "h < next_obj m" and only: "\<forall>s. ptr m s = Some h \<longrightarrow> s = S_io_unit_stat" "h \<in> live m"
    using Some assms(1) by (simp_all add: mem_ok_def)
  then have "mem_ok (?a\<lparr>live := live ?a - {h}\<rparr>)" by (intro mem_ok_drop mem_ok_acquire_n assms(1)) auto
  moreover have "m' = ?a\<lparr>live := live ?a - {h}\<rparr>"
    using assms(2) Some only(2) by (auto simp: io_units_mem_def Let_def acquire_n_def split: if_splits)
  ultimately show ?thesis by simp
qed

lemma mem_step_running:
  assumes m: "running u m" and x: "mem_step x m = Some m'"
  shows "running (step_units x u) m'"
proof (cases x)
  case (Delete_sq q)
  then obtain m1 m2 where r: "release (S_sq_pages q) m = Some m1" "release (S_sqe q) m1 = Some m2"
    "m' = nullify (S_sq_pages q) (nullify (S_sqe q) m2)"
    using x by (auto simp: mem_step_def delete_sq_mem_def split: if_splits bind_splits)
  then show ?thesis
    using two_released_ok [OF _ _ r(1,2)] m release_sel(1,5) [OF r(1)] release_sel(1,5) [OF r(2)]
    by (simp add: running_def step_units_def Delete_sq)
next
  case (Delete_cq q)
  then obtain m1 m2 where r: "release (S_cq_pages q) m = Some m1" "release (S_cqe q) m1 = Some m2"
    "m' = nullify (S_cq_pages q) (nullify (S_cqe q) m2)"
    using x by (auto simp: mem_step_def delete_cq_mem_def split: if_splits bind_splits)
  then show ?thesis
    using two_released_ok [OF _ _ r(1,2)] m release_sel(1,5) [OF r(1)] release_sel(1,5) [OF r(2)]
    by (simp add: running_def step_units_def Delete_cq)
next
  case (Write_io_units n)
  then show ?thesis using io_units_ok [of m n m'] m x by (auto simp: mem_step_def running_def step_units_def)
next
  case Set_aqa
  then show ?thesis using m x
    by (auto simp: mem_step_def running_def step_units_def aqa_mem_def intro!: mem_ok_acquire mem_ok_nullify)
qed (use m x in \<open>auto simp: mem_step_def running_def step_units_def create_sq_mem_def create_cq_mem_def
    intro!: mem_ok_acquire split: if_splits\<close>)

lemma mem_steps_running: "running u m \<Longrightarrow> foldM mem_step xs m = Some m' \<Longrightarrow> running (fold step_units xs u) m'"
  by (induction xs arbitrary: m u) (auto split: bind_splits dest: mem_step_running)

section \<open>The start\<close>

lemma pci_dev_ok: "mem_ok m \<Longrightarrow> mem_ok (pci_dev_mem m)"
  by (simp add: pci_dev_mem_def mem_ok_acquire)

lemma pci_devs_ok:
  assumes "mem_ok m"
  shows "mem_ok ((pci_dev_mem ^^ k) m) \<and> ptr ((pci_dev_mem ^^ k) m) S_vdev = ptr m S_vdev"
  using assms by (induction k) (simp_all add: pci_dev_ok, simp add: pci_dev_mem_def)

text \<open>The arrays of the translation layer are new objects, each with its own pointer.\<close>

lemma concat_map_distinct:
  assumes "distinct is" and "\<And>i. distinct (f i)" and "\<And>i j. i \<noteq> j \<Longrightarrow> set (f i) \<inter> set (f j) = {}"
  shows "distinct (concat (map f is))"
  using assms(1)
proof (induction "is")
  case (Cons i "is")
  then have "set (f i) \<inter> set (f j) = {}" if "j \<in> set is" for j using assms(3) [of i j] that by auto
  then show ?case using Cons assms(2) by auto
qed simp

lemma sized_set: "set (sized a n) \<subseteq> {a}" "distinct (sized a n)" "length (sized a n) = (if 0 < n then 1 else 0)"
  by (auto simp: sized_def)

text \<open>Which arrays belong to a block, a plane, a chip, a channel.\<close>

definition of_blk :: "nat \<Rightarrow> nat \<Rightarrow> nat \<Rightarrow> nat \<Rightarrow> ftl_array set" where
  "of_blk c l p b = insert (A_pg c l p b) (range (A_sec c l p b))"

definition of_plane :: "nat \<Rightarrow> nat \<Rightarrow> nat \<Rightarrow> ftl_array set" where
  "of_plane c l p = insert (A_blk c l p) (\<Union>b. of_blk c l p b)"

definition of_lun :: "nat \<Rightarrow> nat \<Rightarrow> ftl_array set" where
  "of_lun c l = insert (A_pl c l) (\<Union>p. of_plane c l p)"

definition of_ch :: "nat \<Rightarrow> ftl_array set" where
  "of_ch c = insert (A_lun c) (\<Union>l. of_lun c l)"

lemmas of_defs = of_blk_def of_plane_def of_lun_def of_ch_def

lemma arrays_in:
  "set (nand_blk_arrays sp c l p b) \<subseteq> of_blk c l p b" "set (nand_plane_arrays sp c l p) \<subseteq> of_plane c l p"
  "set (nand_lun_arrays sp c l) \<subseteq> of_lun c l" "set (ch_arrays sp c) \<subseteq> of_ch c"
proof -
  show 1: "set (nand_blk_arrays sp c l p b) \<subseteq> of_blk c l p b" for c l p b
    by (auto simp: nand_blk_arrays_def of_blk_def sized_def)
  show 2: "set (nand_plane_arrays sp c l p) \<subseteq> of_plane c l p" for c l p
    using 1 by (fastforce simp: nand_plane_arrays_def of_plane_def sized_def)
  show 3: "set (nand_lun_arrays sp c l) \<subseteq> of_lun c l" for c l
    using 2 by (fastforce simp: nand_lun_arrays_def of_lun_def sized_def)
  show "set (ch_arrays sp c) \<subseteq> of_ch c"
    using 3 by (fastforce simp: ch_arrays_def of_ch_def sized_def)
qed

lemma of_disjoint:
  "b \<noteq> b' \<Longrightarrow> of_blk c l p b \<inter> of_blk c l p b' = {}" "p \<noteq> p' \<Longrightarrow> of_plane c l p \<inter> of_plane c l p' = {}"
  "l \<noteq> l' \<Longrightarrow> of_lun c l \<inter> of_lun c l' = {}" "c \<noteq> c' \<Longrightarrow> of_ch c \<inter> of_ch c' = {}"
  by (auto simp: of_defs)

lemma arrays_distinct:
  "distinct (nand_blk_arrays sp c l p b)" "distinct (nand_plane_arrays sp c l p)"
  "distinct (nand_lun_arrays sp c l)" "distinct (ch_arrays sp c)"
proof -
  show 1: "distinct (nand_blk_arrays sp c l p b)" for c l p b
    unfolding nand_blk_arrays_def distinct_append
    by (intro conjI concat_map_distinct) (auto simp: sized_def)
  show 2: "distinct (nand_plane_arrays sp c l p)" for c l p
    unfolding nand_plane_arrays_def distinct_append
  proof (intro conjI concat_map_distinct 1)
    show "set (nand_blk_arrays sp c l p b) \<inter> set (nand_blk_arrays sp c l p b') = {}" if "b \<noteq> b'" for b b'
      using arrays_in(1) of_disjoint(1) [OF that] by blast
    have "set (concat (map (nand_blk_arrays sp c l p) [0..<nat (blks_per_pl sp)])) \<subseteq> (\<Union>b. of_blk c l p b)"
      using arrays_in(1) by fastforce
    moreover have "A_blk c l p \<notin> (\<Union>b. of_blk c l p b)" by (auto simp: of_defs)
    ultimately show "set (sized (A_blk c l p) (blks_per_pl sp)) \<inter>
        set (concat (map (nand_blk_arrays sp c l p) [0..<nat (blks_per_pl sp)])) = {}"
      using sized_set(1) by blast
  qed (simp_all add: sized_set)
  show 3: "distinct (nand_lun_arrays sp c l)" for c l
    unfolding nand_lun_arrays_def distinct_append
  proof (intro conjI concat_map_distinct 2)
    show "set (nand_plane_arrays sp c l p) \<inter> set (nand_plane_arrays sp c l p') = {}" if "p \<noteq> p'" for p p'
      using arrays_in(2) of_disjoint(2) [OF that] by blast
    have "set (concat (map (nand_plane_arrays sp c l) [0..<nat (pls_per_lun sp)])) \<subseteq> (\<Union>p. of_plane c l p)"
      using arrays_in(2) by fastforce
    moreover have "A_pl c l \<notin> (\<Union>p. of_plane c l p)" by (auto simp: of_defs)
    ultimately show "set (sized (A_pl c l) (pls_per_lun sp)) \<inter>
        set (concat (map (nand_plane_arrays sp c l) [0..<nat (pls_per_lun sp)])) = {}"
      using sized_set(1) by blast
  qed (simp_all add: sized_set)
  show "distinct (ch_arrays sp c)"
    unfolding ch_arrays_def distinct_append
  proof (intro conjI concat_map_distinct 3)
    show "set (nand_lun_arrays sp c l) \<inter> set (nand_lun_arrays sp c l') = {}" if "l \<noteq> l'" for l l'
      using arrays_in(3) of_disjoint(3) [OF that] by blast
    have "set (concat (map (nand_lun_arrays sp c) [0..<nat (luns_per_ch sp)])) \<subseteq> (\<Union>l. of_lun c l)"
      using arrays_in(3) by fastforce
    moreover have "A_lun c \<notin> (\<Union>l. of_lun c l)" by (auto simp: of_defs)
    ultimately show "set (sized (A_lun c) (luns_per_ch sp)) \<inter>
        set (concat (map (nand_lun_arrays sp c) [0..<nat (luns_per_ch sp)])) = {}"
      using sized_set(1) by blast
  qed (simp_all add: sized_set)
qed

lemma ssd_init_arrays_distinct: "distinct (ssd_init_arrays sp)"
proof -
  let ?chs = "concat (map (ch_arrays sp) [0..<nat (nchs sp)])"
  have "distinct ?chs"
  proof (intro concat_map_distinct arrays_distinct)
    show "set (ch_arrays sp c) \<inter> set (ch_arrays sp c') = {}" if "c \<noteq> c'" for c c'
      using arrays_in(4) of_disjoint(4) [OF that] by blast
  qed simp
  moreover have "set ?chs \<inter> {A_ch, A_maptbl, A_rmap, A_lines, A_pq, A_pq_d} = {}"
  proof -
    have "set ?chs \<subseteq> (\<Union>c. of_ch c)" using arrays_in(4) by fastforce
    moreover have "(\<Union>c. of_ch c) \<inter> {A_ch, A_maptbl, A_rmap, A_lines, A_pq, A_pq_d} = {}" by (auto simp: of_defs)
    ultimately show ?thesis by blast
  qed
  ultimately show ?thesis by (auto simp: ssd_init_arrays_def sized_def)
qed

lemma ssd_init_arrays_length:
  assumes "0 < n"
  shows "length (ssd_init_arrays (ssd_init_params n)) = 6 + 526353 * nat n"
proof -
  let ?sp = "ssd_init_params n"
  have sum: "length (concat (map f is)) = length is * k" if "\<And>i. length (f i) = k" for f :: "nat \<Rightarrow> ftl_array list" and "is" k
    by (induction "is") (simp_all add: that)
  have g: "secs_per_pg ?sp = 8" "pgs_per_blk ?sp = 256" "blks_per_pl ?sp = 256" "pls_per_lun ?sp = 1"
    "luns_per_ch ?sp = 8" "nchs ?sp = n" "tt_pgs ?sp = 524288 * n"
    by (simp_all add: ssd_init_params_def Let_def)
  have b: "length (nand_blk_arrays ?sp c l p b) = 257" for c l p b
    by (simp add: nand_blk_arrays_def sum [where k = 1] sized_set g)
  have p: "length (nand_plane_arrays ?sp c l p) = 65793" for c l p
    by (simp add: nand_plane_arrays_def sum [OF b] sized_set g)
  have l: "length (nand_lun_arrays ?sp c l) = 65794" for c l
    by (simp add: nand_lun_arrays_def sum [OF p] p sized_set g)
  have c: "length (ch_arrays ?sp c) = 526353" for c
    by (simp add: ch_arrays_def sum [OF l] sized_set g)
  show ?thesis using assms by (simp add: ssd_init_arrays_def sum [OF c] sized_set g)
qed

lemma acquires_ok:
  assumes "mem_ok m" and "distinct as" and "\<forall>a\<in>set as. ptr m (S_ftl a) = None"
  shows "let m' = fold (\<lambda>a. acquire (S_ftl a)) as m in mem_ok m' \<and> (\<forall>s. s \<notin> S_ftl ` set as \<longrightarrow> ptr m' s = ptr m s) \<and>
    live m' = live m \<union> objs m' (S_ftl ` set as) \<and> objs m' (S_ftl ` set as) \<inter> live m = {} \<and>
    card (objs m' (S_ftl ` set as)) = length as \<and> virt_bus m' = virt_bus m \<and> mm_nr_io_cpu m' = mm_nr_io_cpu m"
  using assms
proof (induction as rule: rev_induct)
  case Nil
  then show ?case by simp
next
  case (snoc a as)
  let ?m = "fold (\<lambda>a. acquire (S_ftl a)) as m"
  have IH: "mem_ok ?m" "\<forall>s. s \<notin> S_ftl ` set as \<longrightarrow> ptr ?m s = ptr m s" "live ?m = live m \<union> objs ?m (S_ftl ` set as)"
    "objs ?m (S_ftl ` set as) \<inter> live m = {}" "card (objs ?m (S_ftl ` set as)) = length as"
    "virt_bus ?m = virt_bus m" "mm_nr_io_cpu ?m = mm_nr_io_cpu m"
    using snoc by (auto simp: Let_def)
  let ?h = "next_obj ?m"
  have a: "a \<notin> set as" using snoc.prems(2) by simp
  have new: "?h \<notin> live ?m" using IH(1) by (auto simp: mem_ok_def)
  have o: "objs (acquire (S_ftl a) ?m) (insert (S_ftl a) (S_ftl ` set as)) = insert ?h (objs ?m (S_ftl ` set as))"
    using a by (auto simp: objs_def)
  have fin: "finite (objs ?m (S_ftl ` set as))"
  proof -
    have "objs ?m (S_ftl ` set as) \<subseteq> (\<lambda>s. the (ptr ?m s)) ` S_ftl ` set as" by (force simp: objs_def image_iff)
    then show ?thesis by (rule finite_subset) simp
  qed
  have "mem_ok (acquire (S_ftl a) ?m)" by (rule mem_ok_acquire [OF IH(1)])
  moreover have "\<forall>s. s \<notin> S_ftl ` set (as @ [a]) \<longrightarrow> ptr (acquire (S_ftl a) ?m) s = ptr m s" using IH(2) by auto
  moreover have "insert ?h (objs ?m (S_ftl ` set as)) \<inter> live m = {}" "card (insert ?h (objs ?m (S_ftl ` set as))) = Suc (length as)"
    using IH(3-5) new fin by auto
  ultimately show ?case using IH(3,6,7) unfolding Let_def by (simp add: o)
qed

lemma workers_ok:
  assumes "mem_ok m"
  shows "mem_ok (fold (\<lambda>i. acquire (S_io_worker i) \<circ> acquire (S_proc_table i)) is m) \<and>
    (\<forall>s. s \<notin> S_io_worker ` set is \<union> S_proc_table ` set is \<longrightarrow>
      ptr (fold (\<lambda>i. acquire (S_io_worker i) \<circ> acquire (S_proc_table i)) is m) s = ptr m s)"
  using assms
proof (induction "is" arbitrary: m)
  case (Cons i "is")
  have "mem_ok (acquire (S_io_worker i) (acquire (S_proc_table i) m))" by (intro mem_ok_acquire Cons.prems)
  from Cons.IH [OF this] show ?case by auto
qed simp

lemma vdev_init_ok:
  assumes "\<forall>h\<in>live m. h < next_obj m"
  shows "mem_ok (vdev_init_mem m)" "ptr (vdev_init_mem m) S_vdev \<noteq> None"
    "ptr (vdev_init_mem m) = (\<lambda>_. None)(S_vdev := Some (next_obj m), S_virtDev := Some (Suc (next_obj m)))"
    "live (vdev_init_mem m) = {next_obj m, Suc (next_obj m)} \<union> live m"
proof -
  have "mem_ok (m\<lparr>ptr := \<lambda>_. None, virt_bus := False, mm_nr_sq := 0, mm_nr_cq := 0, mm_nr_io_cpu := 0\<rparr>)"
    using assms by (simp add: mem_ok_def)
  then show "mem_ok (vdev_init_mem m)" unfolding vdev_init_mem_def by (intro mem_ok_acquire)
qed (auto simp: vdev_init_mem_def)

lemma ssd_init_mem_ok:
  assumes "mem_ok m" and "\<forall>a. ptr m (S_ftl a) = None"
  shows "mem_ok (ssd_init_mem sp m)" "s \<notin> range S_ftl \<Longrightarrow> ptr (ssd_init_mem sp m) s = ptr m s"
    "live (ssd_init_mem sp m) = live m \<union> objs (ssd_init_mem sp m) (range S_ftl)"
    "objs (ssd_init_mem sp m) (range S_ftl) \<inter> live m = {}"
    "card (objs (ssd_init_mem sp m) (range S_ftl)) = length (ssd_init_arrays sp)"
    "virt_bus (ssd_init_mem sp m) = virt_bus m" "mm_nr_io_cpu (ssd_init_mem sp m) = mm_nr_io_cpu m"
proof -
  let ?m = "ssd_init_mem sp m" and ?S = "S_ftl ` set (ssd_init_arrays sp)"
  have A: "mem_ok ?m" "\<forall>s. s \<notin> ?S \<longrightarrow> ptr ?m s = ptr m s" "live ?m = live m \<union> objs ?m ?S" "objs ?m ?S \<inter> live m = {}"
    "card (objs ?m ?S) = length (ssd_init_arrays sp)" "virt_bus ?m = virt_bus m" "mm_nr_io_cpu ?m = mm_nr_io_cpu m"
    using acquires_ok [OF assms(1) ssd_init_arrays_distinct [of sp]] assms(2) unfolding ssd_init_mem_def Let_def by auto
  have "objs ?m (range S_ftl) = objs ?m ?S"
  proof -
    have "ptr ?m s = None" if "s \<in> range S_ftl" "s \<notin> ?S" for s using A(2) assms(2) that by auto
    then show ?thesis by (fastforce simp: objs_def)
  qed
  then show "live ?m = live m \<union> objs ?m (range S_ftl)" "objs ?m (range S_ftl) \<inter> live m = {}"
    "card (objs ?m (range S_ftl)) = length (ssd_init_arrays sp)"
    using A by simp_all
  show "s \<notin> range S_ftl \<Longrightarrow> ptr ?m s = ptr m s" using A(2) by auto
qed (use acquires_ok [OF assms(1) ssd_init_arrays_distinct [of sp]] assms(2) in \<open>auto simp: ssd_init_mem_def Let_def\<close>)

lemma io_proc_init_ok:
  assumes "mem_ok t"
  shows "mem_ok (io_proc_init_mem t)" "ptr (io_proc_init_mem t) S_vdev = ptr t S_vdev"
    "ptr (io_proc_init_mem t) S_io_unit_stat = ptr t S_io_unit_stat" "virt_bus (io_proc_init_mem t) = virt_bus t"
proof -
  have bus: "virt_bus (fold (\<lambda>i. acquire (S_io_worker i) \<circ> acquire (S_proc_table i)) is t) = virt_bus t" for "is" t
    by (induction "is" arbitrary: t) simp_all
  note w = workers_ok [OF mem_ok_acquire_n [OF assms], of "[0..<mm_nr_io_cpu t]" S_proc_info "mm_nr_io_cpu t"]
  show "mem_ok (io_proc_init_mem t)" using w unfolding io_proc_init_mem_def by blast
  show "ptr (io_proc_init_mem t) S_vdev = ptr t S_vdev"
    using w [THEN conjunct2, rule_format, of S_vdev] by (simp add: io_proc_init_mem_def image_iff)
  show "ptr (io_proc_init_mem t) S_io_unit_stat = ptr t S_io_unit_stat"
    using w [THEN conjunct2, rule_format, of S_io_unit_stat] by (simp add: io_proc_init_mem_def image_iff)
  show "virt_bus (io_proc_init_mem t) = virt_bus t" by (simp add: io_proc_init_mem_def bus)
qed

lemma init_mem_running:
  assumes "\<forall>h\<in>live m0. h < next_obj m0" and "init_mem (Some c) (Some k) m0 = Some (True, m)"
  shows "running (sc_io_units c) m"
proof -
  let ?v = "(vdev_init_mem m0)\<lparr>mm_nr_io_cpu := sc_workers c\<rparr>"
  let ?f = "ssd_init_mem (ssd_init_params (sc_nchs c)) ?v"
  let ?p = "((pci_dev_mem ^^ k) ?f)\<lparr>virt_bus := True\<rparr>"
  let ?s = "storage_init_mem (sc_io_units c) ?p"
  have v: "mem_ok ?v" "ptr ?v S_vdev \<noteq> None" "\<forall>a. ptr ?v (S_ftl a) = None"
    using vdev_init_ok(1-3) [OF assms(1)] by simp_all
  have f: "mem_ok ?f" "ptr ?f S_vdev \<noteq> None"
    using ssd_init_mem_ok(1) [OF v(1,3)] ssd_init_mem_ok(2) [OF v(1,3), of S_vdev] v(2) by (auto simp: image_iff)
  then have "mem_ok ?p" "ptr ?p S_vdev \<noteq> None" using pci_devs_ok [OF f(1), of k] by simp_all
  then have s: "mem_ok ?s" "ptr ?s S_vdev \<noteq> None" "ptr ?s S_io_unit_stat = None \<longleftrightarrow> sc_io_units c = 0" "virt_bus ?s"
    by (simp_all add: storage_init_mem_def mem_ok_acquire mem_ok_acquire_n)
  have i: "mem_ok (io_proc_init_mem ?s)" "ptr (io_proc_init_mem ?s) S_vdev \<noteq> None"
    "ptr (io_proc_init_mem ?s) S_io_unit_stat = None \<longleftrightarrow> sc_io_units c = 0" "virt_bus (io_proc_init_mem ?s)"
    using io_proc_init_ok [OF s(1)] s(2-4) by simp_all
  have "m = NVMEV_DISPATCHER_INIT (io_proc_init_mem ?s)" using assms(2) by (simp add: init_mem_def Let_def)
  then show ?thesis using i by (simp add: running_def NVMEV_DISPATCHER_INIT_def mem_ok_acquire)
qed

section \<open>The end\<close>

text \<open>The pointers are distinct and those of \<open>S\<close> name objects that are there.\<close>

definition objs_avail :: "module_mem \<Rightarrow> slot set \<Rightarrow> bool" where
  "objs_avail m S \<longleftrightarrow> (\<forall>s t h. ptr m s = Some h \<longrightarrow> ptr m t = Some h \<longrightarrow> s = t) \<and> objs m S \<subseteq> live m"

definition drop_objs :: "slot set \<Rightarrow> module_mem \<Rightarrow> module_mem" where
  "drop_objs S m = m\<lparr>live := live m - objs m S\<rparr>"

lemma mem_ok_objs_avail: "mem_ok m \<Longrightarrow> objs_avail m S"
  by (auto simp: mem_ok_def objs_avail_def objs_def)

lemma drop_objs_sel [simp]:
  "ptr (drop_objs S m) = ptr m" "mm_nr_sq (drop_objs S m) = mm_nr_sq m" "mm_nr_cq (drop_objs S m) = mm_nr_cq m"
  "mm_nr_io_cpu (drop_objs S m) = mm_nr_io_cpu m" "virt_bus (drop_objs S m) = virt_bus m"
  "proc_files (drop_objs S m) = proc_files m" "live (drop_objs S m) = live m - objs m S"
  "objs (drop_objs S m) T = objs m T"
  by (simp_all add: drop_objs_def)

lemma objs_avail_drop: "objs_avail m T \<Longrightarrow> S \<inter> T = {} \<Longrightarrow> objs_avail (drop_objs S m) T"
  unfolding objs_avail_def by (auto simp: objs_def)

lemma objs_avail_files: "objs_avail (m\<lparr>proc_files := fs\<rparr>) T = objs_avail m T"
  by (simp add: objs_avail_def objs_def)

lemma objs_avail_nullify: "objs_avail m T \<Longrightarrow> objs_avail (nullify s m) T"
  by (auto simp: objs_avail_def objs_def nullify_def)

lemma objs_avail_mono: "objs_avail m T \<Longrightarrow> S \<subseteq> T \<Longrightarrow> objs_avail m S"
  unfolding objs_avail_def objs_def by blast

lemma releases_drop: "distinct ss \<Longrightarrow> objs_avail m (set ss) \<Longrightarrow> foldM release ss m = Some (drop_objs (set ss) m)"
  by (simp add: objs_avail_def drop_objs_def releases_ok)

lemma foldM_one: "foldM f [x] = f x"
proof
  fix s
  show "foldM f [x] s = f x s" by (cases "f x s") simp_all
qed

lemma foldM_Nil_fun: "foldM f [] = Some"
  by (rule ext) simp

lemma foldM_Cons_fun: "foldM f (x # xs) = (\<lambda>s. f x s \<bind> foldM f xs)"
  by (rule ext) simp

definition io_slots :: "nat \<Rightarrow> slot set" where
  "io_slots n = S_io_worker ` {..<n} \<union> S_proc_table ` {..<n} \<union> {S_proc_info}"

definition queue_slots :: "nat \<Rightarrow> nat \<Rightarrow> slot set" where
  "queue_slots i j = S_sqe ` {..<i} \<union> S_cqe ` {..<j}"

definition final_slots :: "slot set" where
  "final_slots = {S_msix_table, S_bar, S_old_bar, S_old_dbs, S_admin_q, S_virtDev}"

lemma reg_final_ok:
  assumes "objs_avail m {S_manager}"
  shows "NVMEV_REG_PROC_FINAL m = Some (nullify S_manager (drop_objs {S_manager} m))"
proof (cases "ptr m S_manager")
  case None
  then have "objs m {S_manager} = {}" "(ptr m)(S_manager := None) = ptr m" by (auto simp: objs_def)
  then show ?thesis using None by (simp add: NVMEV_REG_PROC_FINAL_def nullify_def drop_objs_def)
next
  case (Some h)
  then show ?thesis
    using releases_drop [of "[S_manager]" m] assms by (simp add: NVMEV_REG_PROC_FINAL_def foldM_one)
qed

lemma io_pairs:
  "foldM (\<lambda>i m. do { m \<leftarrow> release (S_io_worker i) m; release (S_proc_table i) m }) is =
   foldM release (concat (map (\<lambda>i. [S_io_worker i, S_proc_table i]) is))"
  by (induction "is") (simp_all add: foldM_Cons_fun bind_assoc)

lemma io_pairs_distinct: "distinct is \<Longrightarrow> distinct (concat (map (\<lambda>i. [S_io_worker i, S_proc_table i]) is))"
  by (induction "is") auto

lemma io_final_ok:
  assumes "objs_avail m (io_slots (mm_nr_io_cpu m))"
  shows "NVMEV_IO_PROC_FINAL m = Some (drop_objs (io_slots (mm_nr_io_cpu m)) m)"
proof -
  let ?ss = "concat (map (\<lambda>i. [S_io_worker i, S_proc_table i]) [0..<mm_nr_io_cpu m]) @ [S_proc_info]"
  have set: "set ?ss = io_slots (mm_nr_io_cpu m)" by (auto simp: io_slots_def)
  have "distinct ?ss" using io_pairs_distinct [of "[0..<mm_nr_io_cpu m]"] by auto
  then have "foldM release ?ss m = Some (drop_objs (io_slots (mm_nr_io_cpu m)) m)"
    using releases_drop [of ?ss m] assms set by simp
  then show ?thesis by (simp only: NVMEV_IO_PROC_FINAL_def io_pairs foldM_append foldM_one)
qed

lemma storage_final_ok:
  assumes "objs_avail m {S_storage_mapped, S_io_unit_stat}"
  shows "NVMEV_STORAGE_FINAL m = Some (drop_objs {S_storage_mapped, S_io_unit_stat} (m\<lparr>proc_files :=
     fold removeAll [''read_times'', ''write_times'', ''io_units'', ''stat'', ''debug'', ''nvmev''] (proc_files m)\<rparr>))"
proof -
  let ?m = "fold remove_proc_entry [''read_times'', ''write_times'', ''io_units'', ''stat'', ''debug'', ''nvmev''] m"
  let ?fs = "fold removeAll [''read_times'', ''write_times'', ''io_units'', ''stat'', ''debug'', ''nvmev''] (proc_files m)"
  have fs: "?m = m\<lparr>proc_files := ?fs\<rparr>" by (simp add: remove_proc_entry_def)
  have "foldM release [S_storage_mapped, S_io_unit_stat] ?m = Some (drop_objs {S_storage_mapped, S_io_unit_stat} ?m)"
    unfolding fs using releases_drop [of "[S_storage_mapped, S_io_unit_stat]" "m\<lparr>proc_files := ?fs\<rparr>"] assms
    by (simp only: objs_avail_files) simp
  then show ?thesis unfolding fs NVMEV_STORAGE_FINAL_def Let_def foldM_Cons_fun foldM_Nil_fun Option.bind_runit .
qed

lemma drop_drop: "drop_objs T (drop_objs S m) = drop_objs (S \<union> T) m"
  by (simp add: drop_objs_def Diff_eq Int_assoc)

lemma queues_ok:
  assumes "objs_avail m (queue_slots (mm_nr_sq m) (mm_nr_cq m))"
  shows "do { m \<leftarrow> foldM (\<lambda>i. release (S_sqe i)) [0..<mm_nr_sq m] m; foldM (\<lambda>i. release (S_cqe i)) [0..<mm_nr_cq m] m } =
    Some (drop_objs (queue_slots (mm_nr_sq m) (mm_nr_cq m)) m)"
proof -
  have map: "foldM (\<lambda>i. release (f i)) is = foldM release (map f is)" for f and "is" :: "nat list"
    by (induction "is") (simp_all add: foldM_Cons_fun)
  let ?sq = "S_sqe ` {..<mm_nr_sq m}" and ?cq = "S_cqe ` {..<mm_nr_cq m}"
  have set: "set (map S_sqe [0..<mm_nr_sq m]) = ?sq" "set (map S_cqe [0..<mm_nr_cq m]) = ?cq" by auto
  have av: "objs_avail m ?sq" "objs_avail m ?cq" by (rule objs_avail_mono [OF assms], force simp: queue_slots_def)+
  have "foldM (\<lambda>i. release (S_sqe i)) [0..<mm_nr_sq m] m = Some (drop_objs ?sq m)"
    unfolding map using releases_drop [of "map S_sqe [0..<mm_nr_sq m]" m] av(1) set(1) by (simp add: distinct_map inj_on_def)
  moreover have "foldM (\<lambda>i. release (S_cqe i)) [0..<mm_nr_cq m] (drop_objs ?sq m) = Some (drop_objs ?cq (drop_objs ?sq m))"
    unfolding map using releases_drop [of "map S_cqe [0..<mm_nr_cq m]" "drop_objs ?sq m"] objs_avail_drop [OF av(2), of ?sq] set(2)
    by (force simp: distinct_map inj_on_def)
  ultimately show ?thesis by (simp add: queue_slots_def drop_drop)
qed

lemma finalize_front_ok:
  assumes "objs_avail m final_slots"
  shows "finalize_front m = Some (drop_objs final_slots m)"
proof -
  let ?ss = "[S_msix_table, S_bar, S_old_bar, S_old_dbs, S_admin_q, S_virtDev]"
  have "finalize_front m = foldM release ?ss m" by (simp only: finalize_front_def foldM_Cons_fun [of _ _ "_ # _"] foldM_one)
  then show ?thesis using releases_drop [of ?ss m] assms by (simp add: final_slots_def)
qed

lemma objs_nullify [simp]: "s \<notin> S \<Longrightarrow> objs (nullify s m) S = objs m S"
  by (auto simp: objs_def nullify_def)

definition exit_slots :: "module_mem \<Rightarrow> slot set" where
  "exit_slots m = {S_manager} \<union> io_slots (mm_nr_io_cpu m) \<union> {S_storage_mapped, S_io_unit_stat} \<union>
     queue_slots (mm_nr_sq m) (mm_nr_cq m) \<union> final_slots"

lemma exit_run:
  assumes ok: "mem_ok m" and bus: "virt_bus m"
  shows "returns (exit_front m) (\<lambda>m1. returns (finalize_front m1) (\<lambda>m2. ptr m2 = (ptr m)(S_manager := None) \<and>
    live m2 = live m - objs m (exit_slots m) \<and>
    proc_files m2 = fold removeAll [''read_times'', ''write_times'', ''io_units'', ''stat'', ''debug'', ''nvmev''] (proc_files m)))"
proof -
  let ?io = "io_slots (mm_nr_io_cpu m)" and ?st = "{S_storage_mapped, S_io_unit_stat}"
    and ?q = "queue_slots (mm_nr_sq m) (mm_nr_cq m)"
  let ?fs = "fold removeAll [''read_times'', ''write_times'', ''io_units'', ''stat'', ''debug'', ''nvmev''] (proc_files m)"
  define m1 where "m1 = nullify S_manager (drop_objs {S_manager} m)"
  define m2 where "m2 = drop_objs ?io m1"
  define m3 where "m3 = drop_objs ?st (m2\<lparr>proc_files := ?fs\<rparr>)"
  define m4 where "m4 = drop_objs ?q m3"
  have nr: "mm_nr_io_cpu m1 = mm_nr_io_cpu m" "proc_files m2 = proc_files m" "virt_bus m3 = virt_bus m"
    "mm_nr_sq m3 = mm_nr_sq m" "mm_nr_cq m3 = mm_nr_cq m"
    by (simp_all add: m1_def m2_def m3_def)
  have apart: "S_manager \<notin> ?io" "S_manager \<notin> ?st" "S_manager \<notin> ?q" "S_manager \<notin> final_slots"
    "?io \<inter> ?st = {}" "?io \<inter> ?q = {}" "?io \<inter> final_slots = {}" "?st \<inter> ?q = {}" "?st \<inter> final_slots = {}"
    "?q \<inter> final_slots = {}"
    by (auto simp: io_slots_def queue_slots_def final_slots_def)
  have a1: "objs_avail m1 T" if "S_manager \<notin> T" for T
    unfolding m1_def by (intro objs_avail_nullify objs_avail_drop mem_ok_objs_avail [OF ok]) (use that in simp)
  have a2: "objs_avail m2 ?st" "objs_avail m2 ?q" "objs_avail m2 final_slots" unfolding m2_def by (intro objs_avail_drop a1 apart)+
  have a3: "objs_avail m3 ?q" "objs_avail m3 final_slots" unfolding m3_def by (intro objs_avail_drop apart, simp only: objs_avail_files a2)+
  have a4: "objs_avail m4 final_slots" unfolding m4_def by (intro objs_avail_drop a3 apart)
  have e1: "NVMEV_REG_PROC_FINAL m = Some m1" unfolding m1_def by (rule reg_final_ok [OF mem_ok_objs_avail [OF ok]])
  have e2: "NVMEV_IO_PROC_FINAL m1 = Some m2" using io_final_ok [of m1] a1 [OF apart(1)] by (simp add: nr m2_def)
  have e3: "NVMEV_STORAGE_FINAL m2 = Some m3" using storage_final_ok [OF a2(1)] by (simp only: nr m3_def)
  have e4: "do { m \<leftarrow> foldM (\<lambda>i. release (S_sqe i)) [0..<mm_nr_sq m3] m3;
      foldM (\<lambda>i. release (S_cqe i)) [0..<mm_nr_cq m] m } = Some m4"
    using queues_ok [of m3, unfolded nr, OF a3(1)] by (simp only: nr m4_def)
  have e5: "finalize_front m4 = Some (drop_objs final_slots m4)" by (rule finalize_front_ok [OF a4])
  have e6: "exit_front m = Some m4"
    using bus e4 unfolding exit_front_def e1 bind.bind_lunit e2 e3 nr by simp
  have "live (drop_objs final_slots m4) =
      live m - objs m {S_manager} - objs m ?io - objs m ?st - objs m ?q - objs m final_slots"
    using apart by (simp add: m1_def m2_def m3_def m4_def)
  then have "live (drop_objs final_slots m4) = live m - objs m (exit_slots m)"
    unfolding exit_slots_def objs_simps(2) by blast
  moreover have "ptr (drop_objs final_slots m4) = (ptr m)(S_manager := None)" "proc_files (drop_objs final_slots m4) = ?fs"
    by (simp_all add: m1_def m2_def m3_def m4_def)
  ultimately show ?thesis using e5 e6 by simp
qed

lemma finalize_vdev:
  fixes t :: module_mem
  assumes p: "ptr t S_vdev = Some a" "ptr t S_virtDev = Some b"
    and none: "\<forall>s\<in>{S_msix_table, S_bar, S_old_bar, S_old_dbs, S_admin_q, S_io_unit_stat}. ptr t s = None"
    and l: "live t = insert a (insert b L)" and new: "a \<notin> L" "b \<notin> L" "a \<noteq> b"
  shows "VDEV_FINALIZE t = Some (t\<lparr>live := L\<rparr>)"
proof -
  have "insert a (insert b L) - {b} - {a} = L" using new by auto
  then show ?thesis using new(3) none by (simp add: VDEV_FINALIZE_def finalize_front_def release_def p l)
qed

lemma init_fails:
  "init_mem None f m0 = map_option (Pair False) (VDEV_FINALIZE (vdev_init_mem m0))"
  "init_mem (Some c) None m0 = map_option (Pair False) (VDEV_FINALIZE
     (ssd_init_mem (ssd_init_params (sc_nchs c)) ((vdev_init_mem m0)\<lparr>mm_nr_io_cpu := sc_workers c\<rparr>)))"
  by (simp_all add: init_mem_def Let_def map_conv_bind_option comp_def)

lemma no_bus_leaks:
  assumes "\<forall>h\<in>live m0. h < next_obj m0" and "0 < sc_nchs c"
  shows "returns (init_mem (Some c) None m0) (\<lambda>(ok, m). \<not> ok \<and> live m0 \<subseteq> live m \<and>
    live m - live m0 = objs m (range S_ftl) \<and> card (live m - live m0) = 6 + 526353 * nat (sc_nchs c))"
proof -
  let ?sp = "ssd_init_params (sc_nchs c)"
  let ?v = "(vdev_init_mem m0)\<lparr>mm_nr_io_cpu := sc_workers c\<rparr>"
  let ?f = "ssd_init_mem ?sp ?v" and ?a = "next_obj m0" and ?b = "Suc (next_obj m0)"
  note v = vdev_init_ok [OF assms(1)]
  have vs: "mem_ok ?v" "\<forall>a. ptr ?v (S_ftl a) = None" "live ?v = insert ?a (insert ?b (live m0))"
    using v by (auto simp: insert_commute)
  note F = ssd_init_mem_ok [OF vs(1,2), where sp = ?sp]
  let ?L = "live m0 \<union> objs ?f (range S_ftl)"
  have nf: "s \<notin> range S_ftl \<Longrightarrow> ptr ?f s = ptr ?v s" for s by (rule F(2))
  have "VDEV_FINALIZE ?f = Some (?f\<lparr>live := ?L\<rparr>)"
  proof (rule finalize_vdev)
    show "ptr ?f S_vdev = Some ?a" "ptr ?f S_virtDev = Some ?b" using nf [of S_vdev] nf [of S_virtDev] v(3) by auto
    show "\<forall>s\<in>{S_msix_table, S_bar, S_old_bar, S_old_dbs, S_admin_q, S_io_unit_stat}. ptr ?f s = None"
      using v(3) by (auto simp: nf image_iff)
    show "live ?f = insert ?a (insert ?b ?L)" using F(3) vs(3) by blast
    show "?a \<notin> ?L" "?b \<notin> ?L" using F(4) vs(3) assms(1) by auto
  qed simp
  moreover have "?L - live m0 = objs ?f (range S_ftl)" using F(4) vs(3) by blast
  ultimately show ?thesis
    using F(5) ssd_init_arrays_length [OF assms(2)] by (simp add: init_fails(2))
qed

section \<open>Properties\<close>

text \<open>C36. When the configuration is refused, \<^verbatim>\<open>NVMeV_init\<close> gives back exactly what it acquired. When the scan finds no
  bus, it leaves behind exactly the arrays that \<^verbatim>\<open>ssd_init\<close> has allocated before: 526353 for every channel and six
  more. Otherwise two pointers never name one object and every pointer names an object that is
  there, whatever the host does with queues, registers and the statistics.\<close>

theorem module_pointers_ok:
  assumes "\<forall>h\<in>live m0. h < next_obj m0"
  shows "returns (init_mem None found m0) (\<lambda>(ok, m). \<not> ok \<and> live m = live m0) \<and>
    (0 < sc_nchs c \<longrightarrow> returns (init_mem (Some c) None m0) (\<lambda>(ok, m). \<not> ok \<and> live m0 \<subseteq> live m \<and>
       live m - live m0 = objs m (range S_ftl) \<and> card (live m - live m0) = 6 + 526353 * nat (sc_nchs c))) \<and>
    (init_mem (Some c) (Some k) m0 = Some (True, m1) \<and> foldM mem_step xs m1 = Some m \<longrightarrow> mem_ok m)"
proof (intro conjI impI)
  note v = vdev_init_ok [OF assms]
  have "VDEV_FINALIZE (vdev_init_mem m0) = Some ((vdev_init_mem m0)\<lparr>live := live m0\<rparr>)"
    by (rule finalize_vdev) (use v assms in auto)
  then show "returns (init_mem None found m0) (\<lambda>(ok, m). \<not> ok \<and> live m = live m0)" by (simp add: init_fails(1))
next
  assume c: "init_mem (Some c) (Some k) m0 = Some (True, m1) \<and> foldM mem_step xs m1 = Some m"
  show "mem_ok m"
    using mem_steps_running [OF init_mem_running [OF assms conjunct1 [OF c]] conjunct2 [OF c]] by (simp add: running_def)
qed (rule no_bus_leaks [OF assms])

text \<open>C35. Unloading the module gives the statistics of the units back twice, the second time
  in \<^verbatim>\<open>VDEV_FINALIZE\<close>, unless the last number of units that was written is 0 and there are none. Up to there it stops
  the threads, removes the files and gives back every
  object of its list once; what other pointers name (the pages of every queue, the queue with the
  highest number, the pages of the admin queue, the arrays of the translation layer) is left.\<close>

theorem module_exit_double_free:
  assumes "\<forall>h\<in>live m0. h < next_obj m0" and "init_mem (Some c) (Some k) m0 = Some (True, m1)"
    and "foldM mem_step xs m1 = Some m"
  shows "(NVMeV_exit m = None \<longleftrightarrow> fold step_units xs (sc_io_units c) \<noteq> 0) \<and>
    returns (exit_front m) (\<lambda>m2. returns (finalize_front m2) (\<lambda>m3.
      live m3 = live m - objs m (exit_slots m) \<and>
      (\<forall>s h. ptr m s = Some h \<longrightarrow> s \<notin> exit_slots m \<longrightarrow> h \<in> live m3) \<and>
      (fold step_units xs (sc_io_units c) \<noteq> 0 \<longrightarrow> (\<exists>h. ptr m3 S_io_unit_stat = Some h \<and> h \<notin> live m3)) \<and>
      (\<forall>q. exit_slots m \<inter> ({S_sq_pages q, S_cq_pages q, S_nvme_sq, S_nvme_cq, S_sqe (mm_nr_sq m), S_cqe (mm_nr_cq m)} \<union>
         range S_ftl) = {})))"
proof -
  let ?u = "fold step_units xs (sc_io_units c)"
  have run: "running ?u m" by (rule mem_steps_running [OF init_mem_running [OF assms(1,2)] assms(3)])
  then have ok: "mem_ok m" "virt_bus m" and u: "ptr m S_io_unit_stat = None \<longleftrightarrow> ?u = 0" and dev: "ptr m S_vdev \<noteq> None"
    by (auto simp: running_def)
  obtain m2 m3 where m2: "exit_front m = Some m2" and m3: "finalize_front m2 = Some m3" "ptr m3 = (ptr m)(S_manager := None)"
    "live m3 = live m - objs m (exit_slots m)"
    using exit_run [OF ok] by (auto elim!: returnsE)
  have gone: "h \<notin> live m3" if "ptr m S_io_unit_stat = Some h" for h
    using that m3(3) by (auto simp: objs_def exit_slots_def)
  have keep: "\<forall>s h. ptr m s = Some h \<longrightarrow> s \<notin> exit_slots m \<longrightarrow> h \<in> live m3"
    using ok(1) unfolding m3(3) mem_ok_def objs_def by blast
  have apart: "\<forall>q. exit_slots m \<inter> ({S_sq_pages q, S_cq_pages q, S_nvme_sq, S_nvme_cq, S_sqe (mm_nr_sq m), S_cqe (mm_nr_cq m)} \<union>
      range S_ftl) = {}" and vd: "S_vdev \<notin> exit_slots m"
    by (auto simp: exit_slots_def io_slots_def queue_slots_def final_slots_def)
  have "NVMeV_exit m = None \<longleftrightarrow> ?u \<noteq> 0"
  proof (cases "ptr m S_io_unit_stat")
    case None
    then have "NVMeV_exit m \<noteq> None"
      using m2 m3(1,2) keep vd dev by (auto simp: NVMeV_exit_def VDEV_FINALIZE_def release_def)
    then show ?thesis using u None by simp
  next
    case (Some h)
    then have "NVMeV_exit m = None" using m2 m3(1,2) gone by (simp add: NVMeV_exit_def VDEV_FINALIZE_def release_def)
    then show ?thesis using u Some by simp
  qed
  moreover have "\<exists>h. ptr m3 S_io_unit_stat = Some h \<and> h \<notin> live m3" if "?u \<noteq> 0"
    using that u gone m3(2) by auto
  ultimately show ?thesis using m2 m3 keep apart by simp
qed

text \<open>One worker, one channel, one device, one pair of queues.\<close>

definition nothing_acquired :: module_mem where
  "nothing_acquired = \<lparr>live = {}, next_obj = 0, ptr = \<lambda>_. None, virt_bus = False, mm_nr_sq = 0, mm_nr_cq = 0,
     mm_nr_io_cpu = 0, proc_files = []\<rparr>"

definition demo_start :: start_cfg where
  "demo_start = \<lparr>sc_workers = 1, sc_io_units = 8, sc_nchs = 1\<rparr>"

definition demo_ops :: "mem_op list" where
  "demo_ops = [Set_aqa, Set_asq, Set_acq, Set_queues 1 1, Create_cq 1, Create_sq 1, Write_io_units 4]"

theorem module_pointers_ok_witness:
  "returns (init_mem (Some demo_start) None nothing_acquired) (\<lambda>(ok, m). \<not> ok \<and> card (live m) = 526359)"
proof -
  have e: "\<forall>h\<in>live nothing_acquired. h < next_obj nothing_acquired" by (simp add: nothing_acquired_def)
  show ?thesis
    by (rule returns_mono [OF module_pointers_ok [OF e, THEN conjunct2, THEN conjunct1, THEN mp]])
       (auto simp: nothing_acquired_def demo_start_def)
qed

theorem module_exit_double_free_witness:
  "returns (do { (ok, m) \<leftarrow> init_mem (Some demo_start) (Some 1) nothing_acquired; foldM mem_step demo_ops m })
     (\<lambda>m. NVMeV_exit m = None)"
proof -
  obtain m1 where 1: "init_mem (Some demo_start) (Some 1) nothing_acquired = Some (True, m1)"
    by (simp add: init_mem_def Let_def)
  have e: "\<forall>h\<in>live nothing_acquired. h < next_obj nothing_acquired" by (simp add: nothing_acquired_def)
  obtain h where h: "ptr m1 S_io_unit_stat = Some h" "h \<in> live m1"
    using init_mem_running [OF e 1] by (auto simp: running_def mem_ok_def demo_start_def)
  have "foldM mem_step demo_ops m1 \<noteq> None"
    using h by (simp add: demo_ops_def acquire_n_def mem_step_def aqa_mem_def create_cq_mem_def create_sq_mem_def io_units_mem_def Let_def)
  then obtain m where m: "foldM mem_step demo_ops m1 = Some m" by blast
  from module_exit_double_free [OF e 1 m, THEN conjunct1] have "NVMeV_exit m = None"
    by (simp add: demo_ops_def step_units_def)
  then show ?thesis using 1 m by simp
qed

end
