(* ===== verification/FEMU_PQueue.thy ===== *)
theory FEMU_PQueue
  imports PQueue
begin

text \<open>
  What \<^verbatim>\<open>femu/pqueue.c\<close> does otherwise than its copy \<^verbatim>\<open>pqueue.c\<close>: a full queue grows, and a queue can be
  printed. The other functions are the same text and used from PQueue.
\<close>

text \<open>\<^verbatim>\<open>realloc\<close> keeps the old slots; it does not fail.\<close>

definition pq_grow :: "('s, 'e) pqueue_t \<Rightarrow> ('s, 'e) pqueue_t" where
  "pq_grow q =
     (let newsize = pq_size q + pq_step q
      in q\<lparr>pq_d := take newsize (pq_d q) @ replicate (newsize - length (pq_d q)) None, pq_avail := newsize\<rparr>)"

definition femu_pqueue_insert :: "('s, 'e) pqueue_t \<Rightarrow> 's \<Rightarrow> 'e \<Rightarrow> (('s, 'e) pqueue_t \<times> 's) option" where
  "femu_pqueue_insert q s d = do {
     let q = (if pq_avail q \<le> pq_size q then pq_grow q else q);
     let i = pq_size q;
     q' \<leftarrow> pq_put (q\<lparr>pq_size := pq_size q + 1\<rparr>) i d;
     bubble_up q' s i
   }"

section \<open>Printing\<close>

text \<open>
  A line that \<^verbatim>\<open>pqueue_dump\<close> prints: position, left and right child, parent, the child that comes first, and the
  element, which the caller prints.
\<close>

definition pqueue_dump :: "('s, 'e) pqueue_t \<Rightarrow> 's \<Rightarrow> (nat \<times> nat \<times> nat \<times> nat \<times> nat \<times> 'e) list option" where
  "pqueue_dump q s = foldM (\<lambda>i out. do {
       c \<leftarrow> maxchild q s i;
       e \<leftarrow> pq_elt q i;
       Some (out @ [(i, pq_left i, pq_right i, pq_parent i, c, e)])
     }) [1..<pq_size q] []"

definition print_set_pos :: "'s \<Rightarrow> 'e \<Rightarrow> nat \<Rightarrow> 's" where
  "print_set_pos s d val = s"

definition print_set_pri :: "'s \<Rightarrow> 'e \<Rightarrow> pqueue_pri_t \<Rightarrow> 's" where
  "print_set_pri s d pri = s"

lemma percolate_down_loop_size:
  "percolate_down_loop q s pri i = Some (q', s', j) \<Longrightarrow> pq_size q' = pq_size q"
proof (induction q s pri i arbitrary: q' s' j rule: percolate_down_loop.induct)
  case (1 q s pri i)
  show ?case
    using 1(2) by (subst (asm) percolate_down_loop.simps)
      (auto split: bind_splits if_splits, metis 1(1) pq_put_size neq0_conv)
qed

lemma percolate_down_size: "percolate_down q s i = Some (q', s') \<Longrightarrow> pq_size q' = pq_size q"
  by (auto simp: percolate_down_def dest!: percolate_down_loop_size pq_put_size split: bind_splits)

lemma pqueue_pop_size:
  "pqueue_pop q s = Some (Some e, q', s') \<Longrightarrow> pq_size q' = pq_size q - 1 \<and> pq_size q \<noteq> 1"
  by (auto simp: pqueue_pop_def dest!: percolate_down_size pq_put_size split: bind_splits if_splits)

text \<open>
  The loop \<^verbatim>\<open>while ((e = pqueue_pop(dup))) print(out, e)\<close>, with the elements in the order in which they are
  printed. A queue of size 0 does not occur; popping it is outside the array.
\<close>

function pqueue_print_loop :: "('s, 'e) pqueue_t \<Rightarrow> 's \<Rightarrow> 'e list option" where
  "pqueue_print_loop dup s =
     (if pq_size dup = 0 then None
      else do {
        (e, dup', s') \<leftarrow> pqueue_pop dup s;
        case e of None \<Rightarrow> Some []
        | Some e \<Rightarrow> do { out \<leftarrow> pqueue_print_loop dup' s'; Some (e # out) }
      })"
  by pat_completeness auto
termination
  by (relation "measure (\<lambda>(q, s). pq_size q)") (auto dest!: pqueue_pop_size)

declare pqueue_print_loop.simps [simp del]

text \<open>
  The copy has room for \<open>q->size + 1\<close> pointers, although \<open>avail\<close> is copied too; \<^verbatim>\<open>memcpy\<close> fills the first \<open>q->size\<close>.
\<close>

definition pqueue_print :: "('s, 'e) pqueue_t \<Rightarrow> 's \<Rightarrow> 'e list option" where
  "pqueue_print q s =
     (let dup = pqueue_init (pq_size q) (cmppri q) (getpri q) print_set_pri (getpos q) print_set_pos;
          dup = dup\<lparr>pq_size := pq_size q, pq_avail := pq_avail q, pq_step := pq_step q\<rparr>;
          dup = dup\<lparr>pq_d := take (pq_size q) (pq_d q) @ drop (pq_size q) (pq_d dup)\<rparr>
      in pqueue_print_loop dup s)"

end
