(* ===== verification/FEMU_FTL.thy ===== *)
theory FEMU_FTL
  imports FTL FEMU_PQueue
begin

text \<open>
  The translation layer of FEMU, \<^verbatim>\<open>femu/femu_ftl.c\<close>, from which \<^verbatim>\<open>ftl.c\<close> was ported. Its structures
  are those of FTL_Types. Functions whose text the port keeps word for word (thresholds, reading the
  table, callbacks of the victim queue, tests and look-ups of addresses, selection of a victim,
  freeing a line) are used from FTL; every other function is translated here under its name with the prefix
  \<open>femu_\<close>. \<^verbatim>\<open>FEMU_DEBUG_FTL\<close> is not defined, so \<^verbatim>\<open>ftl_assert\<close>, and with it \<^verbatim>\<open>check_addr\<close>, is nothing; what
  \<^verbatim>\<open>ftl_err\<close> and \<^verbatim>\<open>printf\<close> write is left out, so \<open>ssd_klog\<close> is never read or written. \<open>ssd_ioclock\<close> is the
  clock of QEMU. Allocations do not fail, and \<^verbatim>\<open>abort\<close> is \<^const>\<open>None\<close>.
\<close>

text \<open>What the layer reads and writes of a request; the int \<open>rq_nlb\<close> is the number of blocks.\<close>

record nvme_request =
  rq_opcode :: u8
  rq_slba :: u64
  rq_nlb :: int
  rq_stime :: u64
  rq_reqlat :: u64
  rq_expire_time :: u64

section \<open>Tables\<close>

definition femu_set_maptbl_ent :: "ssd \<Rightarrow> u64 \<Rightarrow> ppa \<Rightarrow> ssd option" where
  "femu_set_maptbl_ent s lpn p = do {
     m \<leftarrow> arr_set (ssd_maptbl s) (unat lpn) p;
     Some (s\<lparr>ssd_maptbl := m\<rparr>)
   }"

definition femu_ppa2pgidx :: "ssd \<Rightarrow> ppa \<Rightarrow> u64" where
  "femu_ppa2pgidx s p =
     (let spp = ssd_sp s
      in u64_of_int (uint (g_ch p) * pgs_per_ch spp + uint (g_lun p) * pgs_per_lun spp +
           uint (g_pl p) * pgs_per_pl spp + uint (g_blk p) * pgs_per_blk spp + uint (g_pg p)))"

definition femu_get_rmap_ent :: "ssd \<Rightarrow> ppa \<Rightarrow> u64 option" where
  "femu_get_rmap_ent s p = arr_get (ssd_rmap s) (unat (femu_ppa2pgidx s p))"

definition femu_set_rmap_ent :: "ssd \<Rightarrow> u64 \<Rightarrow> ppa \<Rightarrow> ssd option" where
  "femu_set_rmap_ent s lpn p = do {
     r \<leftarrow> arr_set (ssd_rmap s) (unat (femu_ppa2pgidx s p)) lpn;
     Some (s\<lparr>ssd_rmap := r\<rparr>)
   }"

section \<open>Lines and the write pointer\<close>

definition femu_ssd_init_lines :: "ssd \<Rightarrow> ssd" where
  "femu_ssd_init_lines s =
     (let spp = ssd_sp s;
          tt = blks_per_pl spp;
          lm0 = \<lparr>lm_lines = [], free_line_list = [],
                 victim_line_pq = pqueue_init (nat (tt_lines spp)) victim_line_cmp_pri
                   victim_line_get_pri victim_line_set_pri victim_line_get_pos victim_line_set_pos,
                 full_line_list = [], lm_tt_lines = tt, free_line_cnt = 0,
                 victim_line_cnt = victim_line_cnt (ssd_lm s), full_line_cnt = full_line_cnt (ssd_lm s)\<rparr>;
          lm1 = fold (\<lambda>i lm. lm\<lparr>lm_lines := lm_lines lm @
                    [\<lparr>line_id = int i, line_ipc = 0, line_vpc = 0, line_pos = 0\<rparr>],
                    free_line_list := free_line_list lm @ [i],
                    free_line_cnt := free_line_cnt lm + 1\<rparr>) [0..<nat tt] lm0
      in s\<lparr>ssd_lm := lm1\<lparr>victim_line_cnt := 0, full_line_cnt := 0\<rparr>\<rparr>)"

definition femu_get_next_free_line :: "ssd \<Rightarrow> nat option \<times> ssd" where
  "femu_get_next_free_line s =
     (let lm = ssd_lm s in
      case free_line_list lm of
        [] \<Rightarrow> (None, s)
      | curline # ls \<Rightarrow> (Some curline,
          s\<lparr>ssd_lm := lm\<lparr>free_line_list := ls, free_line_cnt := free_line_cnt lm - 1\<rparr>\<rparr>))"

definition femu_victim_insert :: "ssd \<Rightarrow> nat \<Rightarrow> ssd option" where
  "femu_victim_insert s i = do {
     let lm = ssd_lm s;
     (q, ls) \<leftarrow> femu_pqueue_insert (victim_line_pq lm) (lm_lines lm) i;
     Some (s\<lparr>ssd_lm := lm\<lparr>victim_line_pq := q, lm_lines := ls,
                           victim_line_cnt := victim_line_cnt lm + 1\<rparr>\<rparr>)
   }"

definition femu_wp_retire_line :: "ssd \<Rightarrow> ssd option" where
  "femu_wp_retire_line s = do {
     let lm = ssd_lm s;
     let ppl = pgs_per_line (ssd_sp s);
     i \<leftarrow> wp_curline (ssd_wp s);
     l \<leftarrow> arr_get (lm_lines lm) i;
     if line_vpc l = ppl then
       Some (s\<lparr>ssd_lm := lm\<lparr>full_line_list := full_line_list lm @ [i],
                             full_line_cnt := full_line_cnt lm + 1\<rparr>\<rparr>)
     else femu_victim_insert s i
   }"

definition femu_wp_next_line :: "ssd \<Rightarrow> ssd option" where
  "femu_wp_next_line s = do {
     let s = s\<lparr>ssd_wp := (ssd_wp s)\<lparr>wp_curline := None\<rparr>\<rparr>;
     let (c, s) = femu_get_next_free_line s;
     let s = s\<lparr>ssd_wp := (ssd_wp s)\<lparr>wp_curline := c\<rparr>\<rparr>;
     i \<leftarrow> c;
     l \<leftarrow> arr_get (lm_lines (ssd_lm s)) i;
     Some (s\<lparr>ssd_wp := (ssd_wp s)\<lparr>wp_blk := line_id l\<rparr>\<rparr>)
   }"

definition femu_ssd_advance_write_pointer :: "ssd \<Rightarrow> ssd option" where
  "femu_ssd_advance_write_pointer s =
     (let spp = ssd_sp s;
          s = s\<lparr>ssd_wp := (ssd_wp s)\<lparr>wp_ch := wp_ch (ssd_wp s) + 1\<rparr>\<rparr>
      in if wp_ch (ssd_wp s) = nchs spp then
        let s = s\<lparr>ssd_wp := (ssd_wp s)\<lparr>wp_ch := 0\<rparr>\<rparr>;
            s = s\<lparr>ssd_wp := (ssd_wp s)\<lparr>wp_lun := wp_lun (ssd_wp s) + 1\<rparr>\<rparr>
        in if wp_lun (ssd_wp s) = luns_per_ch spp then
          let s = s\<lparr>ssd_wp := (ssd_wp s)\<lparr>wp_lun := 0\<rparr>\<rparr>;
              s = s\<lparr>ssd_wp := (ssd_wp s)\<lparr>wp_pg := wp_pg (ssd_wp s) + 1\<rparr>\<rparr>
          in if wp_pg (ssd_wp s) = pgs_per_blk spp then do {
               s \<leftarrow> femu_wp_retire_line (s\<lparr>ssd_wp := (ssd_wp s)\<lparr>wp_pg := 0\<rparr>\<rparr>);
               femu_wp_next_line s
             } else Some s
        else Some s
      else Some s)"

definition femu_get_new_page :: "ssd \<Rightarrow> ppa" where
  "femu_get_new_page s =
     (let wpp = ssd_wp s
      in (ppa_of_bits 0)\<lparr>g_ch := word_of_int (wp_ch wpp), g_lun := word_of_int (wp_lun wpp),
                g_pg := word_of_int (wp_pg wpp), g_blk := word_of_int (wp_blk wpp),
                g_pl := word_of_int (wp_pl wpp)\<rparr>)"

section \<open>Initialisation\<close>

text \<open>
  The parameters are assigned in place; \<open>op_area_pcent\<close> and \<open>pba_pcent\<close>, which the port adds to the
  structure, keep their values.
\<close>

definition FEMU_NAND_READ_LATENCY :: int where "FEMU_NAND_READ_LATENCY = 40000"
definition FEMU_NAND_PROG_LATENCY :: int where "FEMU_NAND_PROG_LATENCY = 200000"

definition femu_ssd_init_params :: "ssdparams \<Rightarrow> ssdparams" where
  "femu_ssd_init_params spp =
     (let secs_pg = 8; pgs_blk = 256; blks_pl = 256; pls_lun = 1; luns_ch = 8; n = 8;
          s_blk = secs_pg * pgs_blk;
          s_pl = s_blk * blks_pl;
          s_lun = s_pl * pls_lun;
          s_ch = s_lun * luns_ch;
          p_pl = pgs_blk * blks_pl;
          p_lun = p_pl * pls_lun;
          p_ch = p_lun * luns_ch;
          b_lun = blks_pl * pls_lun;
          b_ch = b_lun * luns_ch;
          pl_ch = pls_lun * luns_ch;
          luns = luns_ch * n;
          b_line = luns;
          p_line = b_line * pgs_blk;
          lines = b_lun;
          pcent = 3 / 4; pcent_high = 19 / 20
      in spp\<lparr>secsz := 512, secs_per_pg := secs_pg, pgs_per_blk := pgs_blk, blks_per_pl := blks_pl,
          pls_per_lun := pls_lun, luns_per_ch := luns_ch, nchs := n,
          pg_rd_lat := FEMU_NAND_READ_LATENCY, pg_wr_lat := FEMU_NAND_PROG_LATENCY,
          blk_er_lat := NAND_ERASE_LATENCY, ch_xfer_lat := 0,
          secs_per_blk := s_blk, secs_per_pl := s_pl, secs_per_lun := s_lun, secs_per_ch := s_ch,
          tt_secs := s_ch * n, pgs_per_pl := p_pl, pgs_per_lun := p_lun, pgs_per_ch := p_ch,
          tt_pgs := p_ch * n, blks_per_lun := b_lun, blks_per_ch := b_ch, tt_blks := b_ch * n,
          pls_per_ch := pl_ch, tt_pls := pl_ch * n, tt_luns := luns,
          blks_per_line := b_line, pgs_per_line := p_line, secs_per_line := p_line * secs_pg, tt_lines := lines,
          gc_thres_pcent := pcent, gc_thres_lines := c_trunc ((1 - pcent) * of_int lines),
          gc_thres_pcent_high := pcent_high,
          gc_thres_lines_high := c_trunc ((1 - pcent_high) * of_int lines),
          enable_gc_delay := True\<rparr>)"

text \<open>The memory comes zeroed, so \<open>gc_endtime\<close> is 0 here.\<close>

definition femu_ssd_init_nand_lun :: "ssdparams \<Rightarrow> nand_lun" where
  "femu_ssd_init_nand_lun spp =
     \<lparr>lun_pl = replicate (nat (pls_per_lun spp)) (ssd_init_nand_plane spp),
      lun_npls = pls_per_lun spp, next_lun_avail_time = 0, lun_busy = False,
      lun_gc_endtime = Some 0\<rparr>"

definition femu_ssd_init_ch :: "ssdparams \<Rightarrow> ssd_channel" where
  "femu_ssd_init_ch spp =
     \<lparr>ch_lun = replicate (nat (luns_per_ch spp)) (femu_ssd_init_nand_lun spp),
      ch_nluns = luns_per_ch spp, next_ch_avail_time = 0, ch_busy = False, ch_gc_endtime = Some 0\<rparr>"

text \<open>The thread that \<^verbatim>\<open>ssd_init\<close> starts is the section on the thread below.\<close>

definition femu_ssd_init :: "ssd \<Rightarrow> ssd option" where
  "femu_ssd_init s =
     (let s = s\<lparr>ssd_sp := femu_ssd_init_params (ssd_sp s)\<rparr>;
          spp = ssd_sp s;
          s = s\<lparr>ssd_ch := replicate (nat (nchs spp)) (femu_ssd_init_ch spp)\<rparr>
      in ssd_init_write_pointer (femu_ssd_init_lines (ssd_init_rmap (ssd_init_maptbl s))))"

section \<open>Time and page states\<close>

definition femu_ssd_advance_status :: "ssd \<Rightarrow> ppa \<Rightarrow> nand_cmd \<Rightarrow> (u64 \<times> ssd) option" where
  "femu_ssd_advance_status s p ncmd = do {
     let (cmd_stime, s) = (if nc_stime ncmd = 0 then get_ioclock s else (nc_stime ncmd, s));
     let spp = ssd_sp s;
     lun \<leftarrow> get_lun s p;
     let c = nc_cmd ncmd;
     if c = NAND_READ then do {
       let avail = nand_start (next_lun_avail_time lun) cmd_stime + u64_of_int (pg_rd_lat spp);
       s \<leftarrow> upd_lun s p (\<lambda>l. Some (l\<lparr>next_lun_avail_time := avail\<rparr>));
       Some (avail - cmd_stime, s)
     } else if c = NAND_WRITE then do {
       let nand_stime = nand_start (next_lun_avail_time lun) cmd_stime;
       let avail = (if nc_type ncmd = USER_IO then nand_stime + u64_of_int (pg_wr_lat spp)
                    else nand_stime + u64_of_int (pg_wr_lat spp));
       s \<leftarrow> upd_lun s p (\<lambda>l. Some (l\<lparr>next_lun_avail_time := avail\<rparr>));
       Some (avail - cmd_stime, s)
     } else if c = NAND_ERASE then do {
       let avail = nand_start (next_lun_avail_time lun) cmd_stime + u64_of_int (blk_er_lat spp);
       s \<leftarrow> upd_lun s p (\<lambda>l. Some (l\<lparr>next_lun_avail_time := avail\<rparr>));
       Some (avail - cmd_stime, s)
     } else Some (0, s)
   }"

definition femu_mark_page_invalid_blk :: "ssd \<Rightarrow> ppa \<Rightarrow> ssd option" where
  "femu_mark_page_invalid_blk s p = do {
     s \<leftarrow> upd_pg s p (\<lambda>g. g\<lparr>pg_stat := PG_INVALID\<rparr>);
     s \<leftarrow> upd_blk s p (\<lambda>b. Some (b\<lparr>blk_ipc := blk_ipc b + 1\<rparr>));
     upd_blk s p (\<lambda>b. Some (b\<lparr>blk_vpc := blk_vpc b - 1\<rparr>))
   }"

definition femu_mark_page_invalid_line :: "ssd \<Rightarrow> ppa \<Rightarrow> ssd option" where
  "femu_mark_page_invalid_line s p = do {
     let spp = ssd_sp s;
     let i = unat (g_blk p);
     line \<leftarrow> get_line s p;
     let was_full_line = (line_vpc line = pgs_per_line spp);
     s \<leftarrow> upd_line s p (\<lambda>l. l\<lparr>line_ipc := line_ipc l + 1\<rparr>);
     s \<leftarrow> (if line_pos line \<noteq> 0 then do {
            let lm = ssd_lm s;
            (q, ls) \<leftarrow> pqueue_change_priority (victim_line_pq lm) (lm_lines lm)
                        (u64_of_int (line_vpc line - 1)) i;
            Some (s\<lparr>ssd_lm := lm\<lparr>victim_line_pq := q, lm_lines := ls\<rparr>\<rparr>)
          } else upd_line s p (\<lambda>l. l\<lparr>line_vpc := line_vpc l - 1\<rparr>));
     if was_full_line then do {
       s \<leftarrow> full_list_remove s i;
       femu_victim_insert s i
     } else Some s
   }"

definition femu_mark_page_invalid :: "ssd \<Rightarrow> ppa \<Rightarrow> ssd option" where
  "femu_mark_page_invalid s p = do {
     s \<leftarrow> femu_mark_page_invalid_blk s p;
     femu_mark_page_invalid_line s p
   }"

definition femu_mark_page_valid :: "ssd \<Rightarrow> ppa \<Rightarrow> ssd option" where
  "femu_mark_page_valid s p = do {
     s \<leftarrow> upd_pg s p (\<lambda>g. g\<lparr>pg_stat := PG_VALID\<rparr>);
     s \<leftarrow> upd_blk s p (\<lambda>b. Some (b\<lparr>blk_vpc := blk_vpc b + 1\<rparr>));
     upd_line s p (\<lambda>l. l\<lparr>line_vpc := line_vpc l + 1\<rparr>)
   }"

definition femu_mark_block_page_free :: "ppa \<Rightarrow> nat \<Rightarrow> ssd \<Rightarrow> ssd option" where
  "femu_mark_block_page_free p i s =
     upd_blk s p (\<lambda>b. do {
       gs \<leftarrow> upd_at (blk_pg b) i (\<lambda>g. Some (g\<lparr>pg_stat := PG_FREE\<rparr>));
       Some (b\<lparr>blk_pg := gs\<rparr>)
     })"

definition femu_mark_block_free :: "ssd \<Rightarrow> ppa \<Rightarrow> ssd option" where
  "femu_mark_block_free s p = do {
     s \<leftarrow> foldM (femu_mark_block_page_free p) [0..<nat (pgs_per_blk (ssd_sp s))] s;
     upd_blk s p (\<lambda>b. Some (b\<lparr>blk_ipc := 0, blk_vpc := 0, blk_erase_cnt := wrap32 (blk_erase_cnt b + 1)\<rparr>))
   }"

section \<open>Garbage collection\<close>

definition femu_gc_read_page :: "ssd \<Rightarrow> ppa \<Rightarrow> ssd option" where
  "femu_gc_read_page s p =
     (if enable_gc_delay (ssd_sp s)
      then do {
        (_, s) \<leftarrow> femu_ssd_advance_status s p \<lparr>nc_type = GC_IO, nc_cmd = NAND_READ, nc_stime = 0\<rparr>;
        Some s
      } else Some s)"

definition femu_gc_write_page :: "ssd \<Rightarrow> ppa \<Rightarrow> ssd option" where
  "femu_gc_write_page s old_ppa = do {
     lpn \<leftarrow> femu_get_rmap_ent s old_ppa;
     let new_ppa = femu_get_new_page s;
     s \<leftarrow> femu_set_maptbl_ent s lpn new_ppa;
     s \<leftarrow> femu_set_rmap_ent s lpn new_ppa;
     s \<leftarrow> femu_mark_page_valid s new_ppa;
     s \<leftarrow> femu_ssd_advance_write_pointer s;
     s \<leftarrow> (if enable_gc_delay (ssd_sp s) then do {
            (_, s) \<leftarrow> femu_ssd_advance_status s new_ppa \<lparr>nc_type = GC_IO, nc_cmd = NAND_WRITE, nc_stime = 0\<rparr>;
            Some s
          } else Some s);
     lun_set_gc_endtime s new_ppa
   }"

definition femu_clean_one_page :: "nat \<Rightarrow> ssd \<times> ppa \<times> int \<Rightarrow> (ssd \<times> ppa \<times> int) option" where
  "femu_clean_one_page g = (\<lambda>(s, p, cnt). do {
     let p = p\<lparr>g_pg := word_of_nat g\<rparr>;
     pg_iter \<leftarrow> get_pg s p;
     if pg_stat pg_iter = PG_VALID then do {
       s \<leftarrow> femu_gc_read_page s p;
       s \<leftarrow> femu_gc_write_page s p;
       Some (s, p, cnt + 1)
     } else Some (s, p, cnt)
   })"

definition femu_clean_one_block :: "ssd \<Rightarrow> ppa \<Rightarrow> (ssd \<times> ppa) option" where
  "femu_clean_one_block s p = do {
     (s, p, cnt) \<leftarrow> foldM femu_clean_one_page [0..<nat (pgs_per_blk (ssd_sp s))] (s, p, 0);
     Some (s, p)
   }"

definition femu_gc_one_lun :: "nat \<Rightarrow> nat \<Rightarrow> ssd \<times> ppa \<Rightarrow> (ssd \<times> ppa) option" where
  "femu_gc_one_lun c l = (\<lambda>(s, p). do {
     let p = p\<lparr>g_ch := word_of_nat c, g_lun := word_of_nat l, g_pl := 0\<rparr>;
     _ \<leftarrow> get_lun s p;
     (s, p) \<leftarrow> femu_clean_one_block s p;
     s \<leftarrow> femu_mark_block_free s p;
     s \<leftarrow> (if enable_gc_delay (ssd_sp s) then do {
            (_, s) \<leftarrow> femu_ssd_advance_status s p \<lparr>nc_type = GC_IO, nc_cmd = NAND_ERASE, nc_stime = 0\<rparr>;
            Some s
          } else Some s);
     s \<leftarrow> lun_set_gc_endtime s p;
     Some (s, p)
   })"

definition femu_do_gc :: "bool \<Rightarrow> ssd \<Rightarrow> (int \<times> ssd) option" where
  "femu_do_gc force s = do {
     (v, s) \<leftarrow> select_victim_line s force;
     case v of
       None \<Rightarrow> Some (-1, s)
     | Some i \<Rightarrow> do {
         victim \<leftarrow> arr_get (lm_lines (ssd_lm s)) i;
         let p = (ssd_stack_ppa s)\<lparr>g_blk := word_of_int (line_id victim)\<rparr>;
         let spp = ssd_sp s;
         (s, p) \<leftarrow> foldM (\<lambda>c. foldM (femu_gc_one_lun c) [0..<nat (luns_per_ch spp)])
                    [0..<nat (nchs spp)] (s, p);
         s \<leftarrow> mark_line_free s p;
         Some (0, s)
       }
   }"

section \<open>Reads, writes and latencies\<close>

definition femu_req_lpns :: "ssd \<Rightarrow> nvme_request \<Rightarrow> (u64 \<times> u64) option" where
  "femu_req_lpns s req =
     (let lba = rq_slba req;
          nsecs = rq_nlb req;
          spg = u64_of_int (secs_per_pg (ssd_sp s))
      in if spg = 0 then None
         else Some (lba div spg, (lba + u64_of_int nsecs - 1) div spg))"

definition femu_ssd_read_one :: "u64 \<Rightarrow> nat \<Rightarrow> ssd \<times> u64 \<Rightarrow> (ssd \<times> u64) option" where
  "femu_ssd_read_one nsecs_start lpn = (\<lambda>(s, maxlat). do {
     p \<leftarrow> get_maptbl_ent s (word_of_nat lpn);
     if \<not> mapped_ppa p \<or> \<not> valid_ppa s p then Some (s, maxlat)
     else do {
       (sublat, s) \<leftarrow> femu_ssd_advance_status s p
         \<lparr>nc_type = USER_IO, nc_cmd = NAND_READ, nc_stime = nsecs_start\<rparr>;
       Some (s, if maxlat < sublat then sublat else maxlat)
     }
   })"

definition femu_ssd_read :: "nvme_request \<Rightarrow> ssd \<Rightarrow> (u64 \<times> ssd) option" where
  "femu_ssd_read req s = do {
     (start_lpn, end_lpn) \<leftarrow> femu_req_lpns s req;
     (s, maxlat) \<leftarrow> foldM (femu_ssd_read_one (rq_stime req)) [unat start_lpn..<Suc (unat end_lpn)] (s, 0);
     Some (maxlat, s)
   }"

partial_function (option) femu_gc_high_loop :: "ssd \<Rightarrow> ssd option" where
  "femu_gc_high_loop s =
     (if should_gc_high s then do {
        (r, s) \<leftarrow> femu_do_gc True s;
        if r = -1 then Some s else femu_gc_high_loop s
      } else Some s)"

declare femu_gc_high_loop.simps [code]

definition femu_ssd_write_old :: "nat \<Rightarrow> ssd \<Rightarrow> ssd option" where
  "femu_ssd_write_old lpn s = do {
     p \<leftarrow> get_maptbl_ent s (word_of_nat lpn);
     if mapped_ppa p then do {
       s \<leftarrow> femu_mark_page_invalid s p;
       femu_set_rmap_ent s INVALID_LPN p
     } else Some s
   }"

definition femu_ssd_write_new :: "u64 \<Rightarrow> nat \<Rightarrow> ssd \<Rightarrow> (u64 \<times> ssd) option" where
  "femu_ssd_write_new nsecs_start lpn s = do {
     let p = femu_get_new_page s;
     s \<leftarrow> femu_set_maptbl_ent s (word_of_nat lpn) p;
     s \<leftarrow> femu_set_rmap_ent s (word_of_nat lpn) p;
     s \<leftarrow> femu_mark_page_valid s p;
     s \<leftarrow> femu_ssd_advance_write_pointer s;
     femu_ssd_advance_status s p \<lparr>nc_type = USER_IO, nc_cmd = NAND_WRITE, nc_stime = nsecs_start\<rparr>
   }"

definition femu_ssd_write_one :: "u64 \<Rightarrow> nat \<Rightarrow> ssd \<times> u64 \<Rightarrow> (ssd \<times> u64) option" where
  "femu_ssd_write_one nsecs_start lpn = (\<lambda>(s, maxlat). do {
     s \<leftarrow> femu_ssd_write_old lpn s;
     (curlat, s) \<leftarrow> femu_ssd_write_new nsecs_start lpn s;
     Some (s, if maxlat < curlat then curlat else maxlat)
   })"

definition femu_ssd_write :: "nvme_request \<Rightarrow> ssd \<Rightarrow> (u64 \<times> ssd) option" where
  "femu_ssd_write req s = do {
     (start_lpn, end_lpn) \<leftarrow> femu_req_lpns s req;
     s \<leftarrow> femu_gc_high_loop s;
     (s, maxlat) \<leftarrow> foldM (femu_ssd_write_one (rq_stime req)) [unat start_lpn..<Suc (unat end_lpn)] (s, 0);
     Some (maxlat, s)
   }"

section \<open>The thread\<close>

text \<open>
  The rings between the threads belong to DPDK: their operations are a parameter. \<open>rg_deq\<close> gives the request
  taken off, \<^const>\<open>None\<close> when it fails; \<open>rg_enq\<close> whether the request was accepted.
\<close>

record 'r ring_ops =
  rg_count :: "'r \<Rightarrow> nat"
  rg_deq :: "'r \<Rightarrow> nat option \<times> 'r"
  rg_enq :: "nat \<Rightarrow> 'r \<Rightarrow> bool \<times> 'r"

text \<open>
  The state of \<^verbatim>\<open>ftl_thread\<close>: the device, the requests by their address, the rings of each poller, and the
  locals \<open>req\<close> and \<open>lat\<close>, which keep their values from one request to the next.
\<close>

record 'r ftl_thread_state =
  ft_ssd :: ssd
  ft_reqs :: "nat \<Rightarrow> nvme_request"
  ft_to_ftl :: "nat \<Rightarrow> 'r option"
  ft_to_poller :: "nat \<Rightarrow> 'r"
  ft_req :: "nat option"
  ft_lat :: u64

definition NVME_CMD_WRITE :: u8 where "NVME_CMD_WRITE = 1"
definition NVME_CMD_READ :: u8 where "NVME_CMD_READ = 2"
definition NVME_CMD_DSM :: u8 where "NVME_CMD_DSM = 9"

definition ftl_execute :: "nvme_request \<Rightarrow> u64 \<Rightarrow> ssd \<Rightarrow> (u64 \<times> ssd) option" where
  "ftl_execute req lat s =
     (if rq_opcode req = NVME_CMD_WRITE then femu_ssd_write req s
      else if rq_opcode req = NVME_CMD_READ then femu_ssd_read req s
      else if rq_opcode req = NVME_CMD_DSM then Some (0, s)
      else Some (lat, s))"

definition ftl_background_gc :: "ssd \<Rightarrow> ssd option" where
  "ftl_background_gc s = (if should_gc s then map_option snd (femu_do_gc False s) else Some s)"

text \<open>The body of the loop over the pollers.\<close>

definition ftl_serve :: "'r ring_ops \<Rightarrow> nat \<Rightarrow> 'r ftl_thread_state \<Rightarrow> 'r ftl_thread_state option" where
  "ftl_serve rg i t = (case ft_to_ftl t i of
       None \<Rightarrow> Some t
     | Some r \<Rightarrow>
       if rg_count rg r = 0 then Some t
       else do {
         let (x, r) = rg_deq rg r;
         let t = t\<lparr>ft_to_ftl := (ft_to_ftl t)(i := Some r)\<rparr>;
         let t = (if x = None then t else t\<lparr>ft_req := x\<rparr>);
         a \<leftarrow> ft_req t;
         let req = ft_reqs t a;
         (lat, s) \<leftarrow> ftl_execute req (ft_lat t) (ft_ssd t);
         let t = t\<lparr>ft_ssd := s, ft_lat := lat\<rparr>;
         let req = req\<lparr>rq_reqlat := lat, rq_expire_time := rq_expire_time req + lat\<rparr>;
         let t = t\<lparr>ft_reqs := (ft_reqs t)(a := req)\<rparr>;
         let (_, r) = rg_enq rg a (ft_to_poller t i);
         let t = t\<lparr>ft_to_poller := (ft_to_poller t)(i := r)\<rparr>;
         s \<leftarrow> ftl_background_gc (ft_ssd t);
         Some (t\<lparr>ft_ssd := s\<rparr>)
       })"

text \<open>One round of the endless loop.\<close>

definition ftl_thread_round :: "'r ring_ops \<Rightarrow> nat \<Rightarrow> 'r ftl_thread_state \<Rightarrow> 'r ftl_thread_state option" where
  "ftl_thread_round rg num_poller t = foldM (ftl_serve rg) [1..<num_poller + 1] t"

end
