(* ===== verification/FEMU_Port.thy ===== *)
theory FEMU_Port
  imports FEMU_FTL FTL_Host Tiny
begin

text \<open>
  The port preserves the behaviour of FEMU: whenever an operation of \<^verbatim>\<open>ftl.c\<close> returns, the operation of
  \<^verbatim>\<open>femu_ftl.c\<close> on the same device returns the same value and the same device, apart from the log.
\<close>

section \<open>The device without its log\<close>

definition unlogged :: "ssd \<Rightarrow> ssd" where
  "unlogged s = s\<lparr>ssd_klog := []\<rparr>"

lemma unlogged_sel [simp]:
  "ssd_sp (unlogged s) = ssd_sp s" "ssd_ch (unlogged s) = ssd_ch s" "ssd_maptbl (unlogged s) = ssd_maptbl s"
  "ssd_rmap (unlogged s) = ssd_rmap s" "ssd_wp (unlogged s) = ssd_wp s" "ssd_lm (unlogged s) = ssd_lm s"
  "ssd_ioclock (unlogged s) = ssd_ioclock s" "ssd_nclock (unlogged s) = ssd_nclock s"
  "ssd_stack_ppa (unlogged s) = ssd_stack_ppa s" "cpu_nr_dispatcher (unlogged s) = cpu_nr_dispatcher s"
  "ssd_klog (unlogged s) = []"
  by (simp_all add: unlogged_def)

lemma unlogged_upd [simp]:
  "unlogged (s\<lparr>ssd_sp := a\<rparr>) = (unlogged s)\<lparr>ssd_sp := a\<rparr>" "unlogged (s\<lparr>ssd_ch := b\<rparr>) = (unlogged s)\<lparr>ssd_ch := b\<rparr>"
  "unlogged (s\<lparr>ssd_maptbl := c\<rparr>) = (unlogged s)\<lparr>ssd_maptbl := c\<rparr>" "unlogged (s\<lparr>ssd_rmap := d\<rparr>) = (unlogged s)\<lparr>ssd_rmap := d\<rparr>"
  "unlogged (s\<lparr>ssd_wp := w\<rparr>) = (unlogged s)\<lparr>ssd_wp := w\<rparr>" "unlogged (s\<lparr>ssd_lm := m\<rparr>) = (unlogged s)\<lparr>ssd_lm := m\<rparr>"
  "unlogged (s\<lparr>ssd_nclock := n\<rparr>) = (unlogged s)\<lparr>ssd_nclock := n\<rparr>"
  by (simp_all add: unlogged_def)

lemma unlogged_log [simp]:
  "unlogged (nvmev_assert l b s) = unlogged s" "unlogged (nvmev_error l s) = unlogged s" "unlogged (unlogged s) = unlogged s"
  "unlogged (check_addr a m s) = unlogged s"
  by (simp_all add: unlogged_def nvmev_assert_def nvmev_error_def check_addr_def)

lemma logged_sel [simp]:
  "ssd_sp (nvmev_assert l b s) = ssd_sp s" "ssd_ch (nvmev_assert l b s) = ssd_ch s"
  "ssd_maptbl (nvmev_assert l b s) = ssd_maptbl s" "ssd_rmap (nvmev_assert l b s) = ssd_rmap s"
  "ssd_wp (nvmev_assert l b s) = ssd_wp s" "ssd_lm (nvmev_assert l b s) = ssd_lm s"
  "ssd_sp (check_addr a m s) = ssd_sp s" "ssd_wp (check_addr a m s) = ssd_wp s" "ssd_lm (check_addr a m s) = ssd_lm s"
  "ssd_lm (nvmev_error l s) = ssd_lm s" "ssd_wp (nvmev_error l s) = ssd_wp s"
  by (simp_all add: nvmev_assert_def nvmev_error_def check_addr_def)

section \<open>Functions that both share\<close>

lemma shared_read [simp]:
  "should_gc (unlogged s) = should_gc s" "should_gc_high (unlogged s) = should_gc_high s"
  "get_maptbl_ent (unlogged s) n = get_maptbl_ent s n" "valid_ppa (unlogged s) p = valid_ppa s p"
  "get_lun (unlogged s) p = get_lun s p" "get_blk (unlogged s) p = get_blk s p" "get_pg (unlogged s) p = get_pg s p"
  "get_line (unlogged s) p = get_line s p"
  "femu_ppa2pgidx (unlogged s) p = femu_ppa2pgidx s p" "femu_get_new_page (unlogged s) = femu_get_new_page s"
  by (simp_all add: should_gc_def should_gc_high_def get_maptbl_ent_def valid_ppa_def get_lun_def get_ch_def get_blk_def
      get_pl_def get_pg_def get_line_def femu_ppa2pgidx_def femu_get_new_page_def)

lemma upd_lun_log [simp]:
  "upd_lun (unlogged s) p f = map_option unlogged (upd_lun s p f)"
  "upd_lun (nvmev_assert l b s) p f = map_option (nvmev_assert l b) (upd_lun s p f)"
  by (cases "upd_at (ssd_ch s) (unat (g_ch p)) (\<lambda>ch. do {
       ls \<leftarrow> upd_at (ch_lun ch) (unat (g_lun p)) f; Some (ch\<lparr>ch_lun := ls\<rparr>) })";
    simp add: upd_lun_def nvmev_assert_def)+

lemma upd_log [simp]:
  "upd_blk (unlogged s) p g = map_option unlogged (upd_blk s p g)"
  "upd_blk (nvmev_assert l b s) p g = map_option (nvmev_assert l b) (upd_blk s p g)"
  "upd_pg (unlogged s) p h = map_option unlogged (upd_pg s p h)"
  "upd_pg (nvmev_assert l b s) p h = map_option (nvmev_assert l b) (upd_pg s p h)"
  by (simp_all add: upd_blk_def upd_pg_def)

lemma upd_line_log [simp]:
  "upd_line (unlogged s) p f = map_option unlogged (upd_line s p f)"
  "upd_line (nvmev_assert l b s) p f = map_option (nvmev_assert l b) (upd_line s p f)"
  by (cases "upd_at (lm_lines (ssd_lm s)) (unat (g_blk p)) (\<lambda>l. Some (f l))"; simp add: upd_line_def nvmev_assert_def)+

lemma shared_step [simp]:
  "full_list_remove (unlogged s) i = map_option unlogged (full_list_remove s i)"
  "lun_set_gc_endtime (unlogged s) p = map_option unlogged (lun_set_gc_endtime s p)"
  by (simp_all add: full_list_remove_def lun_set_gc_endtime_def Let_def)

lemma mark_line_free_log [simp]: "mark_line_free (unlogged s) p = map_option unlogged (mark_line_free s p)"
  by (cases "upd_line s p (\<lambda>l. l\<lparr>line_ipc := 0, line_vpc := 0\<rparr>)") (simp_all add: mark_line_free_def Let_def)

lemma select_victim_log [simp]:
  "select_victim_line (unlogged s) force = map_option (map_prod id unlogged) (select_victim_line s force)"
  by (auto simp: select_victim_line_def Let_def map_option_case split: bind_splits option.splits)

lemma foldM_port:
  assumes step: "\<And>x s s'. f x s = Some s' \<Longrightarrow> Q s \<Longrightarrow> g x (e s) = Some (e s') \<and> Q s'"
    and "foldM f xs s = Some s'" and "Q s"
  shows "foldM g xs (e s) = Some (e s') \<and> Q s'"
  using assms(2,3)
proof (induction xs arbitrary: s)
  case (Cons x xs)
  then obtain s1 where s1: "f x s = Some s1" "foldM f xs s1 = Some s'" by (auto split: bind_splits)
  then show ?case using step [OF s1(1) Cons.prems(2)] Cons.IH [of s1] by simp
qed simp

section \<open>Operation by operation\<close>

text \<open>The array of the victim queue has the size that the queue believes it has: the port never grows it.\<close>

definition pq_fit :: "('s, 'e) pqueue_t \<Rightarrow> bool" where
  "pq_fit q = (length (pq_d q) = pq_avail q)"

definition vq_fit :: "ssd \<Rightarrow> bool" where
  "vq_fit s = pq_fit (victim_line_pq (ssd_lm s))"

lemma vq_fit_simps [simp]:
  "vq_fit (s\<lparr>ssd_ch := b\<rparr>) = vq_fit s" "vq_fit (s\<lparr>ssd_maptbl := c\<rparr>) = vq_fit s"
  "vq_fit (s\<lparr>ssd_rmap := d\<rparr>) = vq_fit s" "vq_fit (s\<lparr>ssd_wp := w\<rparr>) = vq_fit s" "vq_fit (s\<lparr>ssd_nclock := n\<rparr>) = vq_fit s"
  "vq_fit (s\<lparr>ssd_lm := m\<rparr>) = pq_fit (victim_line_pq m)"
  "vq_fit (nvmev_assert l x s) = vq_fit s" "vq_fit (nvmev_error l s) = vq_fit s" "vq_fit (check_addr a k s) = vq_fit s"
  by (simp_all add: vq_fit_def nvmev_assert_def nvmev_error_def check_addr_def)

lemma pq_put_fit: "pq_put q i e = Some q' \<Longrightarrow> pq_fit q' = pq_fit q"
  by (auto simp: pq_put_def pq_fit_def arr_set_eq_Some_iff split: bind_splits)

lemma pq_fit_size [simp]: "pq_fit (q\<lparr>pq_size := n\<rparr>) = pq_fit q"
  by (simp add: pq_fit_def)

lemma bubble_up_loop_fit: "bubble_up_loop q s pri i = Some (q', s', j) \<Longrightarrow> pq_fit q \<Longrightarrow> pq_fit q'"
proof (induction q s pri i arbitrary: q' s' j rule: bubble_up_loop.induct)
  case (1 q s pri i)
  show ?case
    using 1(2,3) by (subst (asm) bubble_up_loop.simps)
      (auto simp del: pq_parent_eq split: bind_splits if_splits, metis 1(1) pq_put_fit One_nat_def)
qed

lemma percolate_down_loop_fit: "percolate_down_loop q s pri i = Some (q', s', j) \<Longrightarrow> pq_fit q \<Longrightarrow> pq_fit q'"
proof (induction q s pri i arbitrary: q' s' j rule: percolate_down_loop.induct)
  case (1 q s pri i)
  show ?case
    using 1(2,3) by (subst (asm) percolate_down_loop.simps)
      (auto split: bind_splits if_splits, metis 1(1) pq_put_fit neq0_conv)
qed

lemma bubble_up_fit: "bubble_up q s i = Some (q', s') \<Longrightarrow> pq_fit q \<Longrightarrow> pq_fit q'"
  by (auto simp: bubble_up_def dest!: bubble_up_loop_fit pq_put_fit split: bind_splits)

lemma percolate_down_fit: "percolate_down q s i = Some (q', s') \<Longrightarrow> pq_fit q \<Longrightarrow> pq_fit q'"
  by (auto simp: percolate_down_def dest!: percolate_down_loop_fit pq_put_fit split: bind_splits)

lemma pqueue_fit:
  "pqueue_insert q s d = Some (q', s') \<Longrightarrow> pq_fit q \<Longrightarrow> pq_fit q'"
  "pqueue_change_priority q s pri d = Some (q', s') \<Longrightarrow> pq_fit q \<Longrightarrow> pq_fit q'"
  "pqueue_pop q s = Some (r, q', s') \<Longrightarrow> pq_fit q \<Longrightarrow> pq_fit q'"
  by (auto simp: pqueue_insert_def pqueue_change_priority_def pqueue_pop_def Let_def
      dest!: bubble_up_fit percolate_down_fit dest: pq_put_fit split: bind_splits if_splits)

lemma pqueue_insert_port:
  "pqueue_insert q s d = Some r \<Longrightarrow> pq_fit q \<Longrightarrow> femu_pqueue_insert q s d = Some r"
  by (auto simp: pqueue_insert_def femu_pqueue_insert_def pq_put_def pq_fit_def arr_set_eq_Some_iff split: bind_splits)

lemma upd_fit:
  "upd_lun s p f = Some s' \<Longrightarrow> vq_fit s' = vq_fit s"
  "upd_blk s p g = Some s' \<Longrightarrow> vq_fit s' = vq_fit s"
  "upd_pg s p h = Some s' \<Longrightarrow> vq_fit s' = vq_fit s"
  "upd_line s p k = Some s' \<Longrightarrow> vq_fit s' = vq_fit s"
  by (auto simp: upd_lun_def upd_blk_def upd_pg_def upd_line_def vq_fit_def split: bind_splits)

lemma shared_fit:
  "full_list_remove s i = Some s' \<Longrightarrow> vq_fit s' = vq_fit s"
  "lun_set_gc_endtime s p = Some s' \<Longrightarrow> vq_fit s' = vq_fit s"
  "mark_line_free s p = Some s' \<Longrightarrow> vq_fit s' = vq_fit s"
  by (auto simp: full_list_remove_def lun_set_gc_endtime_def mark_line_free_def Let_def
      dest!: upd_fit split: if_splits bind_splits) (simp_all add: vq_fit_def)

lemma select_fit: "select_victim_line s force = Some (r, s') \<Longrightarrow> vq_fit s \<Longrightarrow> vq_fit s'"
  by (auto simp: select_victim_line_def Let_def vq_fit_def split: if_splits bind_splits option.splits) (erule (1) pqueue_fit(3))+

lemmas fits = upd_fit shared_fit select_fit

text \<open>The simulation rules of the functions, for forward reasoning.\<close>

named_theorems port

lemma set_maptbl_port [port]:
  "set_maptbl_ent s n p = Some s' \<Longrightarrow> femu_set_maptbl_ent (unlogged s) n p = Some (unlogged s') \<and> vq_fit s' = vq_fit s"
  by (auto simp: set_maptbl_ent_def femu_set_maptbl_ent_def Let_def split: bind_splits)

lemma ppa2pgidx_eq:
  "ppa2pgidx s p = (femu_ppa2pgidx s p, nvmev_assert 49 (femu_ppa2pgidx s p < u64_of_int (tt_pgs (ssd_sp s))) s)"
  by (simp add: ppa2pgidx_def femu_ppa2pgidx_def Let_def)

lemma get_rmap_port [port]:
  "get_rmap_ent s p = Some (n, s') \<Longrightarrow>
    femu_get_rmap_ent (unlogged s) p = Some n \<and> unlogged s' = unlogged s \<and> vq_fit s' = vq_fit s"
  by (auto simp: get_rmap_ent_def femu_get_rmap_ent_def ppa2pgidx_eq split: bind_splits)

lemma set_rmap_port [port]:
  "set_rmap_ent s n p = Some s' \<Longrightarrow> femu_set_rmap_ent (unlogged s) n p = Some (unlogged s') \<and> vq_fit s' = vq_fit s"
  by (auto simp: set_rmap_ent_def femu_set_rmap_ent_def ppa2pgidx_eq split: bind_splits)

lemma victim_insert_port [port]:
  "victim_insert s i = Some s' \<Longrightarrow> vq_fit s \<Longrightarrow> femu_victim_insert (unlogged s) i = Some (unlogged s') \<and> vq_fit s'"
  by (auto simp: victim_insert_def femu_victim_insert_def Let_def vq_fit_def pqueue_insert_port pqueue_fit
      split: bind_splits)
lemma wp_retire_line_port [port]:
  "wp_retire_line s = Some s' \<Longrightarrow> vq_fit s \<Longrightarrow> femu_wp_retire_line (unlogged s) = Some (unlogged s') \<and> vq_fit s'"
  by (auto simp: wp_retire_line_def femu_wp_retire_line_def Let_def vq_fit_def [of s] dest!: victim_insert_port
      split: bind_splits if_splits)

lemma wp_next_line_port [port]:
  "wp_next_line s = Some s' \<Longrightarrow> vq_fit s \<Longrightarrow> femu_wp_next_line (unlogged s) = Some (unlogged s') \<and> vq_fit s'"
  by (cases "free_line_list (ssd_lm s)")
    (auto simp: wp_next_line_def femu_wp_next_line_def get_next_free_line_def femu_get_next_free_line_def Let_def
      vq_fit_def [of s] split: bind_splits)

lemma advance_wp_port [port]:
  "ssd_advance_write_pointer s = Some s' \<Longrightarrow> vq_fit s \<Longrightarrow>
    femu_ssd_advance_write_pointer (unlogged s) = Some (unlogged s') \<and> vq_fit s'"
  by (auto simp: ssd_advance_write_pointer_def femu_ssd_advance_write_pointer_def Let_def
      dest!: wp_retire_line_port wp_next_line_port split: bind_splits if_splits)

lemma get_new_page_eq: "get_new_page s = (femu_get_new_page s, nvmev_assert 241 (g_pl (femu_get_new_page s) = 0) s)"
  by (simp add: get_new_page_def femu_get_new_page_def Let_def)

lemma get_lun_clock [simp]: "get_lun (s\<lparr>ssd_nclock := n\<rparr>) p = get_lun s p"
  by (simp add: get_lun_def get_ch_def)

lemma upd_lun_clock [simp]: "upd_lun (s\<lparr>ssd_nclock := n\<rparr>) p f = map_option (\<lambda>s. s\<lparr>ssd_nclock := n\<rparr>) (upd_lun s p f)"
  by (cases "upd_at (ssd_ch s) (unat (g_ch p)) (\<lambda>ch. do {
       ls \<leftarrow> upd_at (ch_lun ch) (unat (g_lun p)) f; Some (ch\<lparr>ch_lun := ls\<rparr>) })") (simp_all add: upd_lun_def)

text \<open>Both read the clock, or take the time of the command, and then do the same.\<close>

definition charge :: "ssd \<Rightarrow> ppa \<Rightarrow> u64 \<Rightarrow> int \<Rightarrow> (u64 \<times> ssd) option" where
  "charge s p t lat = do {
     lun \<leftarrow> get_lun s p;
     let avail = nand_start (next_lun_avail_time lun) t + u64_of_int lat;
     s \<leftarrow> upd_lun s p (\<lambda>l. Some (l\<lparr>next_lun_avail_time := avail\<rparr>));
     Some (avail - t, s)
   }"

definition cmd_time :: "ssd \<Rightarrow> nand_cmd \<Rightarrow> u64 \<times> ssd" where
  "cmd_time s c = (if nc_stime c = 0 then get_ioclock s else (nc_stime c, s))"

definition cmd_lat :: "ssdparams \<Rightarrow> int \<Rightarrow> int option" where
  "cmd_lat spp c = (if c = NAND_READ then Some (pg_rd_lat spp) else if c = NAND_WRITE then Some (pg_wr_lat spp)
     else if c = NAND_ERASE then Some (blk_er_lat spp) else None)"

lemma advance_status_charge:
  "ssd_advance_status s p c = (let (t, s) = cmd_time s c in
     case cmd_lat (ssd_sp s) (nc_cmd c) of Some lat \<Rightarrow> charge s p t lat
     | None \<Rightarrow> map_option (\<lambda>_. (0, nvmev_error 563 s)) (get_lun s p))"
  "femu_ssd_advance_status s p c = (let (t, s) = cmd_time s c in
     case cmd_lat (ssd_sp s) (nc_cmd c) of Some lat \<Rightarrow> charge s p t lat
     | None \<Rightarrow> map_option (\<lambda>_. (0, s)) (get_lun s p))"
proof -
  obtain t s1 where c: "cmd_time s c = (t, s1)" by (cases "cmd_time s c")
  note d = ssd_advance_status_def [of s p c, folded cmd_time_def] femu_ssd_advance_status_def [of s p c, folded cmd_time_def]
  show "ssd_advance_status s p c = (let (t, s) = cmd_time s c in
     case cmd_lat (ssd_sp s) (nc_cmd c) of Some lat \<Rightarrow> charge s p t lat
     | None \<Rightarrow> map_option (\<lambda>_. (0, nvmev_error 563 s)) (get_lun s p))"
    unfolding d c by (cases "get_lun s1 p") (simp_all add: cmd_lat_def charge_def)
  show "femu_ssd_advance_status s p c = (let (t, s) = cmd_time s c in
     case cmd_lat (ssd_sp s) (nc_cmd c) of Some lat \<Rightarrow> charge s p t lat
     | None \<Rightarrow> map_option (\<lambda>_. (0, s)) (get_lun s p))"
    unfolding d c by (cases "get_lun s1 p") (simp_all add: cmd_lat_def charge_def)
qed

lemma cmd_time_unlogged [simp]: "cmd_time (unlogged s) c = map_prod id unlogged (cmd_time s c)"
  by (simp add: cmd_time_def get_ioclock_def)

lemma charge_unlogged [simp]: "charge (unlogged s) p t lat = map_option (map_prod id unlogged) (charge s p t lat)"
  by (cases "upd_lun s p (\<lambda>l. Some (l\<lparr>next_lun_avail_time :=
        nand_start (next_lun_avail_time (the (get_lun s p))) t + u64_of_int lat\<rparr>))"; cases "get_lun s p")
    (simp_all add: charge_def Let_def)

lemma charge_fit: "charge s p t lat = Some (r, s') \<Longrightarrow> vq_fit s' = vq_fit s"
  by (auto simp: charge_def Let_def upd_fit(1) split: bind_splits)

lemma cmd_time_fit: "vq_fit (snd (cmd_time s c)) = vq_fit s"
  by (simp add: cmd_time_def get_ioclock_def)

lemma advance_status_port [port]:
  "ssd_advance_status s p c = Some (lat, s') \<Longrightarrow> vq_fit s \<Longrightarrow>
    femu_ssd_advance_status (unlogged s) p c = Some (lat, unlogged s') \<and> vq_fit s'"
  using cmd_time_fit [of s c]
  by (cases "cmd_time s c") (auto simp: advance_status_charge charge_fit split: option.splits)

lemma mark_page_invalid_blk_port [port]:
  "mark_page_invalid_blk s p = Some s' \<Longrightarrow> vq_fit s \<Longrightarrow>
    femu_mark_page_invalid_blk (unlogged s) p = Some (unlogged s') \<and> vq_fit s'"
  by (auto simp: mark_page_invalid_blk_def femu_mark_page_invalid_blk_def Let_def split: bind_splits) (metis upd_fit(2,3))

lemma get_line_log [simp]: "get_line (nvmev_assert l b s) p = get_line s p"
  by (simp add: get_line_def)

lemma get_blk_log [simp]: "get_blk (nvmev_assert l b s) p = get_blk s p"
  by (simp add: get_blk_def get_pl_def get_lun_def get_ch_def)

text \<open>The step of \<^verbatim>\<open>mark_page_invalid\<close> that lowers the count of valid pages, in the queue or outside it.\<close>

definition lower_vpc :: "line \<Rightarrow> ppa \<Rightarrow> ssd \<Rightarrow> ssd option" where
  "lower_vpc line p s = (if line_pos line \<noteq> 0 then do {
      (q, ls) \<leftarrow> pqueue_change_priority (victim_line_pq (ssd_lm s)) (lm_lines (ssd_lm s))
        (u64_of_int (line_vpc line - 1)) (unat (g_blk p));
      Some (s\<lparr>ssd_lm := (ssd_lm s)\<lparr>victim_line_pq := q, lm_lines := ls\<rparr>\<rparr>)
    } else upd_line s p (\<lambda>l. l\<lparr>line_vpc := line_vpc l - 1\<rparr>))"

lemma invalid_line_eq:
  "mark_page_invalid_line s p = do {
     let spp = ssd_sp s;
     line \<leftarrow> get_line s p;
     let s = nvmev_assert 593 (0 \<le> line_ipc line \<and> line_ipc line < pgs_per_line spp) s;
     let full = (line_vpc line = pgs_per_line spp);
     s \<leftarrow> upd_line (if full then nvmev_assert 595 (line_ipc line = 0) s else s) p (\<lambda>l. l\<lparr>line_ipc := line_ipc l + 1\<rparr>);
     s \<leftarrow> lower_vpc line p (nvmev_assert 599 (0 < line_vpc line \<and> line_vpc line \<le> pgs_per_line spp) s);
     if full then do { s \<leftarrow> full_list_remove s (unat (g_blk p)); victim_insert s (unat (g_blk p)) } else Some s
   }"
  "femu_mark_page_invalid_line s p = do {
     let spp = ssd_sp s;
     line \<leftarrow> get_line s p;
     s \<leftarrow> upd_line s p (\<lambda>l. l\<lparr>line_ipc := line_ipc l + 1\<rparr>);
     s \<leftarrow> lower_vpc line p s;
     if line_vpc line = pgs_per_line spp
     then do { s \<leftarrow> full_list_remove s (unat (g_blk p)); femu_victim_insert s (unat (g_blk p)) } else Some s
   }"
  by (simp_all only: mark_page_invalid_line_def femu_mark_page_invalid_line_def lower_vpc_def Let_def)

lemma lower_vpc_port:
  "lower_vpc line p s = Some s' \<Longrightarrow> vq_fit s \<Longrightarrow> lower_vpc line p (unlogged s) = Some (unlogged s') \<and> vq_fit s'"
  by (auto simp: lower_vpc_def upd_fit(4) vq_fit_def [of s] pqueue_fit(2) split: bind_splits if_splits)

lemma mark_page_invalid_line_port [port]:
  assumes m: "mark_page_invalid_line s p = Some s'" and fit: "vq_fit s"
  shows "femu_mark_page_invalid_line (unlogged s) p = Some (unlogged s') \<and> vq_fit s'"
proof -
  let ?i = "unat (g_blk p)"
  obtain line where l: "get_line s p = Some line" using m by (cases "get_line s p") (simp_all add: invalid_line_eq)
  let ?full = "line_vpc line = pgs_per_line (ssd_sp s)"
  define s1 where "s1 = (if ?full then nvmev_assert 595 (line_ipc line = 0)
    (nvmev_assert 593 (0 \<le> line_ipc line \<and> line_ipc line < pgs_per_line (ssd_sp s)) s)
    else nvmev_assert 593 (0 \<le> line_ipc line \<and> line_ipc line < pgs_per_line (ssd_sp s)) s)"
  obtain s2 s3 l599 where st: "upd_line s1 p (\<lambda>l. l\<lparr>line_ipc := line_ipc l + 1\<rparr>) = Some s2"
    "lower_vpc line p (nvmev_assert 599 l599 s2) = Some s3"
    "(if ?full then do { s \<leftarrow> full_list_remove s3 ?i; victim_insert s ?i } else Some s3) = Some s'"
    using m unfolding invalid_line_eq l s1_def by (auto simp: Let_def bind_eq_Some_conv simp del: upd_line_log)
  have s1: "unlogged s1 = unlogged s" "vq_fit s1 = vq_fit s" by (simp_all add: s1_def)
  have s2: "upd_line (unlogged s) p (\<lambda>l. l\<lparr>line_ipc := line_ipc l + 1\<rparr>) = Some (unlogged s2)" "vq_fit s2"
    using st(1) upd_fit(4) [OF st(1)] fit by (simp_all flip: s1(1) add: s1(2))
  have s3: "lower_vpc line p (unlogged s2) = Some (unlogged s3)" "vq_fit s3"
    using lower_vpc_port [OF st(2)] s2(2) by simp_all
  show ?thesis
    using st(3) s3 l s2(1) by (cases ?full)
      (auto simp: invalid_line_eq Let_def shared_fit(1) dest!: victim_insert_port split: bind_splits)
qed

lemma mark_page_invalid_port [port]:
  "mark_page_invalid s p = Some s' \<Longrightarrow> vq_fit s \<Longrightarrow> femu_mark_page_invalid (unlogged s) p = Some (unlogged s') \<and> vq_fit s'"
  by (auto simp: mark_page_invalid_def femu_mark_page_invalid_def split: bind_splits
      dest!: mark_page_invalid_blk_port mark_page_invalid_line_port)

lemma mark_page_valid_port [port]:
  "mark_page_valid s p = Some s' \<Longrightarrow> vq_fit s \<Longrightarrow> femu_mark_page_valid (unlogged s) p = Some (unlogged s') \<and> vq_fit s'"
  by (auto simp: mark_page_valid_def femu_mark_page_valid_def Let_def split: bind_splits) (metis upd_fit(2,3,4))

lemma mark_block_page_free_port:
  "mark_block_page_free p i s = Some s' \<Longrightarrow> vq_fit s \<Longrightarrow>
    femu_mark_block_page_free p i (unlogged s) = Some (unlogged s') \<and> vq_fit s'"
  by (auto simp: mark_block_page_free_def femu_mark_block_page_free_def Let_def upd_fit(2) split: bind_splits)

lemma mark_block_free_port [port]:
  assumes "mark_block_free s p = Some s'" and "vq_fit s"
  shows "femu_mark_block_free (unlogged s) p = Some (unlogged s') \<and> vq_fit s'"
proof -
  obtain s1 where s1: "foldM (mark_block_page_free p) [0..<nat (pgs_per_blk (ssd_sp s))] s = Some s1"
    using assms(1) by (auto simp: mark_block_free_def split: bind_splits)
  have L: "foldM (femu_mark_block_page_free p) [0..<nat (pgs_per_blk (ssd_sp s))] (unlogged s) = Some (unlogged s1) \<and> vq_fit s1"
    by (rule foldM_port [of _ vq_fit _ unlogged]) (use mark_block_page_free_port s1 assms(2) in auto)
  show ?thesis
    using assms(1) s1 L by (auto simp: mark_block_free_def femu_mark_block_free_def Let_def upd_fit(2) split: bind_splits)
qed

section \<open>Garbage collection\<close>

lemma gc_read_page_port [port]:
  "gc_read_page s p = Some s' \<Longrightarrow> vq_fit s \<Longrightarrow> femu_gc_read_page (unlogged s) p = Some (unlogged s') \<and> vq_fit s'"
  by (auto simp: gc_read_page_def femu_gc_read_page_def dest!: advance_status_port split: bind_splits if_splits)

lemma shared_log [simp]: "ssd_sp (unlogged s) = ssd_sp s" "valid_lpn (unlogged s) n = valid_lpn s n"
  by (simp_all add: valid_lpn_def)

text \<open>Charging a command of the collector, when its delay is emulated.\<close>

lemma gc_delay_port:
  "(if d then do { (_, s) \<leftarrow> ssd_advance_status s p c; Some s } else Some s) = Some s' \<Longrightarrow> vq_fit s \<Longrightarrow>
   (if d then do { (_, s) \<leftarrow> femu_ssd_advance_status (unlogged s) p c; Some s } else Some (unlogged s)) = Some (unlogged s') \<and>
    vq_fit s'"
  by (auto dest!: advance_status_port split: bind_splits if_splits)

lemma gc_write_page_port [port]:
  assumes g: "gc_write_page s p = Some s'" and fit: "vq_fit s"
  shows "femu_gc_write_page (unlogged s) p = Some (unlogged s') \<and> vq_fit s'"
proof -
  obtain n s1 where s1: "get_rmap_ent s p = Some (n, s1)" using g by (cases "get_rmap_ent s p") (auto simp: gc_write_page_def)
  note r1 = get_rmap_port [OF s1]
  let ?q = "femu_get_new_page s1"
  define s2 where "s2 = nvmev_assert 241 (g_pl ?q = 0) (nvmev_assert 679 (valid_lpn s1 n) s1)"
  have np: "get_new_page (nvmev_assert 679 (valid_lpn s1 n) s1) = (?q, s2)"
    by (simp add: get_new_page_eq s2_def) (simp add: femu_get_new_page_def)
  obtain s3 s4 s5 s6 s7 where st: "set_maptbl_ent s2 n ?q = Some s3" "set_rmap_ent s3 n ?q = Some s4"
    "mark_page_valid s4 ?q = Some s5" "ssd_advance_write_pointer s5 = Some s6"
    "(if enable_gc_delay (ssd_sp s6) then do {
        (_, s) \<leftarrow> ssd_advance_status s6 ?q \<lparr>nc_type = GC_IO, nc_cmd = NAND_WRITE, nc_stime = 0\<rparr>; Some s } else Some s6) = Some s7"
    "lun_set_gc_endtime s7 ?q = Some s'"
    using g by (auto simp: gc_write_page_def s1 Let_def np bind_eq_Some_conv)
  have q: "femu_get_new_page s = ?q" using r1 by (metis shared_read(10))
  have u2: "unlogged s2 = unlogged s" "vq_fit s2" using r1 fit by (simp_all add: s2_def)
  note a = set_maptbl_port [OF st(1)]
  note b = set_rmap_port [OF st(2)]
  have c: "femu_mark_page_valid (unlogged s4) ?q = Some (unlogged s5) \<and> vq_fit s5"
    by (rule mark_page_valid_port [OF st(3)]) (use a b u2 in simp)
  note d = advance_wp_port [OF st(4) conjunct2 [OF c]]
  note e = gc_delay_port [OF st(5) conjunct2 [OF d]]
  show ?thesis
    using r1 a b c d e st(6) shared_fit(2) [OF st(6)] by (simp add: femu_gc_write_page_def q u2(1))
qed

definition unlogged_at :: "ssd \<times> 'a \<Rightarrow> ssd \<times> 'a" where
  "unlogged_at = map_prod unlogged id"

lemma unlogged_at_simp [simp]: "unlogged_at (s, x) = (unlogged s, x)"
  by (simp add: unlogged_at_def)

lemma get_pg_log [simp]: "get_pg (nvmev_assert l b s) p = get_pg s p"
  by (simp add: get_pg_def)

lemma clean_one_page_port:
  "clean_one_page g x = Some x' \<Longrightarrow> vq_fit (fst x) \<Longrightarrow>
    femu_clean_one_page g (unlogged_at x) = Some (unlogged_at x') \<and> vq_fit (fst x')"
  by (cases x) (auto simp: clean_one_page_def femu_clean_one_page_def Let_def
      dest!: gc_read_page_port gc_write_page_port split: bind_splits if_splits)

lemma clean_one_block_port [port]:
  assumes c: "clean_one_block s p = Some (s', p')" and fit: "vq_fit s"
  shows "femu_clean_one_block (unlogged s) p = Some (unlogged s', p') \<and> vq_fit s'"
proof -
  let ?gs = "[0..<nat (pgs_per_blk (ssd_sp s))]"
  obtain s1 p1 n where f: "foldM clean_one_page ?gs (s, p, 0) = Some (s1, p1, n)"
    using c by (cases "foldM clean_one_page ?gs (s, p, 0)") (auto simp: clean_one_block_def)
  have "foldM femu_clean_one_page ?gs (unlogged_at (s, p, 0)) = Some (unlogged_at (s1, p1, n)) \<and> vq_fit (fst (s1, p1, n))"
    by (rule foldM_port [of _ "\<lambda>x. vq_fit (fst x)" _ unlogged_at]) (use clean_one_page_port f fit in auto)
  then show ?thesis
    using c f by (auto simp: clean_one_block_def femu_clean_one_block_def split: bind_splits)
qed

lemma gc_one_lun_port:
  assumes g: "gc_one_lun c l x = Some x'" and fit: "vq_fit (fst x)"
  shows "femu_gc_one_lun c l (unlogged_at x) = Some (unlogged_at x') \<and> vq_fit (fst x')"
proof -
  obtain s p where x: "x = (s, p)" by (cases x)
  define p0 where "p0 = p\<lparr>g_ch := word_of_nat c, g_lun := word_of_nat l, g_pl := 0\<rparr>"
  obtain lun s1 p1 s2 s3 s4 where st: "get_lun s p0 = Some lun" "clean_one_block s p0 = Some (s1, p1)"
    "mark_block_free s1 p1 = Some s2"
    "(if enable_gc_delay (ssd_sp s2) then do {
        (_, s) \<leftarrow> ssd_advance_status s2 p1 \<lparr>nc_type = GC_IO, nc_cmd = NAND_ERASE, nc_stime = 0\<rparr>; Some s } else Some s2) = Some s3"
    "lun_set_gc_endtime s3 p1 = Some s4" "x' = (s4, p1)"
    using g by (auto simp: x gc_one_lun_def Let_def p0_def [symmetric] bind_eq_Some_conv)
  have a: "femu_clean_one_block (unlogged s) p0 = Some (unlogged s1, p1) \<and> vq_fit s1"
    by (rule clean_one_block_port [OF st(2)]) (use fit x in simp)
  note b = mark_block_free_port [OF st(3) conjunct2 [OF a]]
  note d = gc_delay_port [OF st(4) conjunct2 [OF b]]
  show ?thesis
    using st(1,5,6) a b d shared_fit(2) [OF st(5)] by (simp add: x femu_gc_one_lun_def Let_def p0_def [symmetric])
qed

lemma do_gc_port [port]:
  assumes g: "do_gc force s = Some (r, s')" and fit: "vq_fit s"
  shows "femu_do_gc force (unlogged s) = Some (r, unlogged s') \<and> vq_fit s'"
proof -
  obtain v s1 where v: "select_victim_line s force = Some (v, s1)" using g
    by (cases "select_victim_line s force") (auto simp: do_gc_def)
  have fit1: "vq_fit s1" by (rule select_fit [OF v fit])
  show ?thesis
  proof (cases v)
    case None
    then show ?thesis using g v fit1 by (simp add: do_gc_def femu_do_gc_def)
  next
    case (Some i)
    obtain l where l: "arr_get (lm_lines (ssd_lm s1)) i = Some l"
      using g v Some by (cases "arr_get (lm_lines (ssd_lm s1)) i") (auto simp: do_gc_def)
    let ?p = "(ssd_stack_ppa s1)\<lparr>g_blk := word_of_int (line_id l)\<rparr>"
    let ?ls = "[0..<nat (luns_per_ch (ssd_sp s1))]" and ?cs = "[0..<nat (nchs (ssd_sp s1))]"
    obtain s2 p2 where f: "foldM (\<lambda>c. foldM (gc_one_lun c) ?ls) ?cs (s1, ?p) = Some (s2, p2)"
      and m: "mark_line_free s2 p2 = Some s'" and r: "r = 0"
      using g v Some l by (auto simp: do_gc_def Let_def bind_eq_Some_conv)
    have "foldM (\<lambda>c. foldM (femu_gc_one_lun c) ?ls) ?cs (unlogged_at (s1, ?p)) = Some (unlogged_at (s2, p2)) \<and>
        vq_fit (fst (s2, p2))"
    proof (rule foldM_port [of _ "\<lambda>x. vq_fit (fst x)" _ unlogged_at])
      fix c x x' assume "foldM (gc_one_lun c) ?ls x = Some x'" "vq_fit (fst x)"
      then show "foldM (femu_gc_one_lun c) ?ls (unlogged_at x) = Some (unlogged_at x') \<and> vq_fit (fst x')"
        by (rule foldM_port [of _ "\<lambda>x. vq_fit (fst x)" _ unlogged_at, rotated]) (rule gc_one_lun_port)
    qed (use f fit1 in auto)
    then show ?thesis
      using v Some l m r shared_fit(3) [OF m] by (simp add: femu_do_gc_def Let_def)
  qed
qed

lemma gc_high_loop_port [port]:
  assumes "gc_high_loop s = Some s'" and "vq_fit s"
  shows "femu_gc_high_loop (unlogged s) = Some (unlogged s') \<and> vq_fit s'"
proof -
  let ?P = "\<lambda>s s'. vq_fit s \<longrightarrow> femu_gc_high_loop (unlogged s) = Some (unlogged s') \<and> vq_fit s'"
  have "?P s s'"
  proof (rule gc_high_loop.raw_induct [of ?P, OF _ assms(1)], intro impI)
    fix loop s s'
    assume IH: "\<And>s s'. loop s = Some s' \<Longrightarrow> ?P s s'"
      and body: "(if should_gc_high s then do { (r, s) \<leftarrow> do_gc True s; if r = -1 then Some s else loop s } else Some s) = Some s'"
      and fit: "vq_fit s"
    show "femu_gc_high_loop (unlogged s) = Some (unlogged s') \<and> vq_fit s'"
    proof (cases "should_gc_high s")
      case True
      then obtain r s1 where s1: "do_gc True s = Some (r, s1)" "(if r = -1 then Some s1 else loop s1) = Some s'"
        using body by (auto simp: bind_eq_Some_conv)
      note d = do_gc_port [OF s1(1) fit]
      then show ?thesis
        using True s1(2) IH [of s1 s'] by (subst femu_gc_high_loop.simps) (auto split: if_splits)
    next
      case False
      then show ?thesis using body fit by (subst femu_gc_high_loop.simps) simp
    qed
  qed
  then show ?thesis using assms(2) by simp
qed

section \<open>Reads and writes\<close>

lemma ssd_read_one_port:
  "ssd_read_one t n x = Some x' \<Longrightarrow> vq_fit (fst x) \<Longrightarrow>
    femu_ssd_read_one t n (unlogged_at x) = Some (unlogged_at x') \<and> vq_fit (fst x')"
  by (cases x) (auto simp: ssd_read_one_def femu_ssd_read_one_def dest!: advance_status_port split: bind_splits if_splits)

lemma ssd_write_old_port [port]:
  "ssd_write_old n s = Some s' \<Longrightarrow> vq_fit s \<Longrightarrow> femu_ssd_write_old n (unlogged s) = Some (unlogged s') \<and> vq_fit s'"
  by (auto simp: ssd_write_old_def femu_ssd_write_old_def dest!: mark_page_invalid_port set_rmap_port
      split: bind_splits if_splits)

lemma ssd_write_new_port [port]:
  assumes w: "ssd_write_new t n s = Some (lat, s')" and fit: "vq_fit s"
  shows "femu_ssd_write_new t n (unlogged s) = Some (lat, unlogged s') \<and> vq_fit s'"
proof -
  let ?q = "femu_get_new_page s" and ?n = "word_of_nat n"
  define s1 where "s1 = nvmev_assert 241 (g_pl ?q = 0) s"
  obtain s2 s3 s4 s5 where st: "set_maptbl_ent s1 ?n ?q = Some s2" "set_rmap_ent s2 ?n ?q = Some s3"
    "mark_page_valid s3 ?q = Some s4" "ssd_advance_write_pointer s4 = Some s5"
    "ssd_advance_status s5 ?q \<lparr>nc_type = USER_IO, nc_cmd = NAND_WRITE, nc_stime = t\<rparr> = Some (lat, s')"
    using w by (auto simp: ssd_write_new_def get_new_page_eq Let_def s1_def bind_eq_Some_conv)
  have u1: "unlogged s1 = unlogged s" "vq_fit s1" using fit by (simp_all add: s1_def)
  note a = set_maptbl_port [OF st(1)] and b = set_rmap_port [OF st(2)]
  have c: "femu_mark_page_valid (unlogged s3) ?q = Some (unlogged s4) \<and> vq_fit s4"
    by (rule mark_page_valid_port [OF st(3)]) (use a b u1 in simp)
  note d = advance_wp_port [OF st(4) conjunct2 [OF c]]
  note e = advance_status_port [OF st(5) conjunct2 [OF d]]
  show ?thesis using a b c d e by (simp add: femu_ssd_write_new_def u1(1))
qed

lemma ssd_write_one_port:
  "ssd_write_one t n x = Some x' \<Longrightarrow> vq_fit (fst x) \<Longrightarrow>
    femu_ssd_write_one t n (unlogged_at x) = Some (unlogged_at x') \<and> vq_fit (fst x')"
  by (cases x) (auto simp: ssd_write_one_def femu_ssd_write_one_def dest!: ssd_write_old_port ssd_write_new_port
      split: bind_splits if_splits)

text \<open>A request of FEMU and the command of NVMe that stand for the same transfer.\<close>

definition same_transfer :: "nvme_request \<Rightarrow> nvme_command \<Rightarrow> bool" where
  "same_transfer req cmd = (rq_slba req = rw_slba cmd \<and> rq_nlb req = uint (rw_length cmd) + 1)"

lemma req_lpns: "same_transfer req cmd \<Longrightarrow> femu_req_lpns (unlogged s) req = cmd_lpns s cmd"
  by (simp add: same_transfer_def femu_req_lpns_def cmd_lpns_def)

lemma ssd_read_port:
  assumes r: "ssd_read cmd (rq_stime req) s = Some (lat, s')" and fit: "vq_fit s" and req: "same_transfer req cmd"
    and lp: "cmd_lpns s cmd = Some (a, b)" and rng: "b < u64_of_int (tt_pgs (ssd_sp s))"
  shows "femu_ssd_read req (unlogged s) = Some (lat, unlogged s') \<and> vq_fit s'"
proof -
  let ?ns = "[unat a..<Suc (unat b)]"
  have f: "foldM (ssd_read_one (rq_stime req)) ?ns (s, 0) = Some (s', lat)"
    using r lp rng by (auto simp: ssd_read_def bind_eq_Some_conv not_le [symmetric] simp del: upt_Suc not_le)
  have "foldM (femu_ssd_read_one (rq_stime req)) ?ns (unlogged_at (s, 0)) = Some (unlogged_at (s', lat)) \<and> vq_fit (fst (s', lat))"
    by (rule foldM_port [of _ "\<lambda>x. vq_fit (fst x)" _ unlogged_at]) (use ssd_read_one_port f fit in auto)
  then show ?thesis by (simp add: femu_ssd_read_def req_lpns [OF req] lp del: upt_Suc)
qed

lemma ssd_write_port:
  assumes w: "ssd_write cmd (rq_stime req) s = Some (lat, s')" and fit: "vq_fit s" and req: "same_transfer req cmd"
    and lp: "cmd_lpns s cmd = Some (a, b)" and rng: "b < u64_of_int (tt_pgs (ssd_sp s))"
  shows "femu_ssd_write req (unlogged s) = Some (lat, unlogged s') \<and> vq_fit s'"
proof -
  let ?ns = "[unat a..<Suc (unat b)]"
  obtain s1 where g: "gc_high_loop s = Some s1" and f: "foldM (ssd_write_one (rq_stime req)) ?ns (s1, 0) = Some (s', lat)"
    using w lp rng by (auto simp: ssd_write_def bind_eq_Some_conv not_le [symmetric] simp del: upt_Suc not_le)
  note l = gc_high_loop_port [OF g fit]
  have "foldM (femu_ssd_write_one (rq_stime req)) ?ns (unlogged_at (s1, 0)) = Some (unlogged_at (s', lat)) \<and> vq_fit (fst (s', lat))"
    by (rule foldM_port [of _ "\<lambda>x. vq_fit (fst x)" _ unlogged_at]) (use ssd_write_one_port f l in auto)
  then show ?thesis using l by (simp add: femu_ssd_write_def req_lpns [OF req] lp del: upt_Suc)
qed

end
