(* ===== verification/FEMU_Thread.thy ===== *)
theory FEMU_Thread
  imports FEMU_Port IO_Dispatch
begin

text \<open>
  The thread of FEMU that serves the requests of the pollers: the device that \<^verbatim>\<open>ssd_init\<close> leaves, the
  rings between the threads, and what a round of the thread does to them.
\<close>

section \<open>Initialisation\<close>

lemma femu_params_fields [simp]:
  "nchs (femu_ssd_init_params p) = 8" "luns_per_ch (femu_ssd_init_params p) = 8"
  "blks_per_pl (femu_ssd_init_params p) = 256" "pgs_per_blk (femu_ssd_init_params p) = 256"
  "secs_per_pg (femu_ssd_init_params p) = 8" "gc_thres_lines_high (femu_ssd_init_params p) = 12"
  "tt_pgs (femu_ssd_init_params p) = 4194304" "pgs_per_line (femu_ssd_init_params p) = 16384"
  by (simp_all add: femu_ssd_init_params_def Let_def c_trunc_def floor_eq_iff)

lemma femu_params_ok: "params_ok (femu_ssd_init_params p)"
  by (simp add: params_ok_def femu_ssd_init_params_def Let_def)

lemma nth_replicate_beyond: "n \<le> i \<Longrightarrow> replicate n x ! i = [] ! (i - n)"
proof (induction n arbitrary: i)
  case (Suc n)
  then show ?case by (cases i) auto
qed simp

lemma replicate_nth_cong: "(replicate n x ! i = replicate n y ! i) = (i < n \<longrightarrow> x = y)"
  by (cases "i < n") (simp_all add: nth_replicate_beyond)

lemma femu_init_tick:
  assumes "ssd_init_layout (s\<lparr>ssd_sp := femu_ssd_init_params (ssd_sp s)\<rparr>) = Some s1" and "ssd_klog s1 = ssd_klog s"
  shows "\<exists>s'. femu_ssd_init s = Some s' \<and> tick s1 s'"
proof -
  let ?p = "femu_ssd_init_params (ssd_sp s)"
  let ?cs = "replicate 8 (femu_ssd_init_ch ?p)"
  have "femu_ssd_init s = Some (s1\<lparr>ssd_ch := ?cs\<rparr>) \<and> ssd_ch s1 = replicate 8 (ssd_init_ch ?p) \<and> ssd_sp s1 = ?p"
    using assms
    by (simp add: femu_ssd_init_def ssd_init_layout_def ssd_init_lines_def femu_ssd_init_lines_def ssd_init_write_pointer_def
        ssd_init_maptbl_def ssd_init_rmap_def Let_def nvmev_assert_def split: list.splits if_splits)
       auto
  then have run: "femu_ssd_init s = Some (s1\<lparr>ssd_ch := ?cs\<rparr>)" "ssd_ch s1 = replicate 8 (ssd_init_ch ?p)" "ssd_sp s1 = ?p"
    by simp_all
  have "blk_at (s1\<lparr>ssd_ch := ?cs\<rparr>) c l b = blk_at s1 c l b" for c l b
  proof (cases "c < 8")
    case True
    have e: "ch_lun (?cs ! c) = replicate 8 (femu_ssd_init_nand_lun ?p)"
      "ch_lun (ssd_ch s1 ! c) = replicate 8 (ssd_init_nand_lun ?p)"
      using True run(2) by (simp_all add: femu_ssd_init_ch_def ssd_init_ch_def)
    have "lun_pl (ch_lun (?cs ! c) ! l) = lun_pl (ch_lun (ssd_ch s1 ! c) ! l)"
      unfolding e by (cases "l < 8") (simp_all add: nth_replicate_beyond femu_ssd_init_nand_lun_def ssd_init_nand_lun_def)
    then show ?thesis by (simp add: blk_at_def lun_at_def)
  next
    case False
    then show ?thesis using run(2) by (simp add: blk_at_def lun_at_def nth_replicate_beyond)
  qed
  then have b: "blk_at (s1\<lparr>ssd_ch := ?cs\<rparr>) = blk_at s1" by (intro ext)
  have "geo_ok (s1\<lparr>ssd_ch := ?cs\<rparr>) = geo_ok s1"
    by (simp add: geo_ok_def run(2,3) femu_ssd_init_ch_def ssd_init_ch_def lun_shape_def femu_ssd_init_nand_lun_def
        ssd_init_nand_lun_def)
  with b show ?thesis using run(1) by (intro exI [of _ "s1\<lparr>ssd_ch := ?cs\<rparr>"]) (simp add: tick_def)
qed

lemma femu_ssd_init_run:
  "returns (femu_ssd_init s) (\<lambda>s'. write_ready s' \<and> mapset s' = {} \<and> ssd_sp s' = femu_ssd_init_params (ssd_sp s) \<and>
    ssd_klog s' = ssd_klog s)"
proof -
  let ?p = "femu_ssd_init_params (ssd_sp s)" and ?s = "s\<lparr>ssd_sp := femu_ssd_init_params (ssd_sp s)\<rparr>"
  have "params_ok (ssd_sp ?s)" by (simp add: femu_params_ok)
  from ssd_init_layout_ok [OF this] obtain s1 where s1: "ssd_init_layout ?s = Some s1" "gc_ready s1" "mapset s1 = {}"
    "room s1 = nB ?s * P_ln ?s" "ssd_sp s1 = ?p" "ssd_klog s1 = ssd_klog s"
    by (auto elim!: returnsE)
  from femu_init_tick [OF s1(1,6)] obtain s' where s': "femu_ssd_init s = Some s'" "tick s1 s'" by blast
  have "P_ln s' < room s'"
    using tick_room [OF s'(2)] s1(4) P_ln_cong [of s' s1] s'(2)
    by (simp add: tick_def P_ln_def nB_def nC_def nL_def nG_def s1(5))
  then show ?thesis
    using s' s1 tick_gc_ready [OF s'(2)] tick_gc_same [OF s'(2)] by (simp add: write_ready_def gc_same_def tick_def)
qed

section \<open>Requests\<close>

definition req_last :: "nvme_request \<Rightarrow> nat" where
  "req_last r = unat ((rq_slba r + u64_of_int (rq_nlb r) - 1) div 8)"

text \<open>A request that the pollers may queue: it transfers 1 to 65536 blocks of the first \<open>K\<close> pages, or is a DSM.\<close>

definition req_ok :: "nat \<Rightarrow> nvme_request \<Rightarrow> bool" where
  "req_ok K r \<longleftrightarrow> rq_opcode r \<in> {NVME_CMD_WRITE, NVME_CMD_READ, NVME_CMD_DSM} \<and>
     1 \<le> rq_nlb r \<and> rq_nlb r \<le> 65536 \<and> req_last r < K"

definition cmd_of :: "nvme_request \<Rightarrow> nvme_command" where
  "cmd_of r = (io_cmd (rq_opcode r) (ucast (rq_slba r)) (word_of_int (rq_nlb r - 1)))
     \<lparr>cdw11 := ucast (drop_bit 32 (rq_slba r))\<rparr>"

lemma join_words: "ucast (ucast w :: u32) OR push_bit 32 (ucast (ucast (drop_bit 32 w) :: u32)) = (w :: u64)"
  by (rule bit_word_eqI) (auto simp: bit_simps)

lemma uint_lo16: "0 \<le> k \<Longrightarrow> k < 65536 \<Longrightarrow> uint (lo16 (word_of_int k)) = k"
  by (simp add: lo16_def uint_word_of_int unsigned_ucast_eq take_bit_int_eq_self)

lemma cmd_of_same:
  assumes "req_ok K r" shows "same_transfer r (cmd_of r)"
proof -
  have "rw_slba (cmd_of r) = rq_slba r" by (simp add: cmd_of_def io_cmd_def rw_slba_def join_words)
  moreover have "uint (rw_length (cmd_of r)) = rq_nlb r - 1"
    using assms uint_lo16 [of "rq_nlb r - 1"] by (simp add: cmd_of_def io_cmd_def rw_length_def req_ok_def)
  ultimately show ?thesis by (simp add: same_transfer_def)
qed

lemma cmd_of_last: "req_ok K r \<Longrightarrow> last_lpn (cmd_of r) = req_last r"
  using cmd_of_same [of K r] by (simp add: same_transfer_def last_lpn_def req_last_def)

text \<open>The device of the thread: geometry of FEMU, ready for writes, no more than \<open>K\<close> pages mapped, nothing in the log.\<close>

definition femu_ready :: "nat \<Rightarrow> ssd \<Rightarrow> bool" where
  "femu_ready K s \<longleftrightarrow> write_ready s \<and> (\<exists>p. ssd_sp s = femu_ssd_init_params p) \<and> mapset s \<subseteq> {..<K} \<and> K < 3981312 \<and>
     ssd_klog s = []"

lemma gc_ready_fit: "gc_ready s \<Longrightarrow> vq_fit s"
  using vq.pq_ok_sizes [of "victim_line_pq (ssd_lm s)" "lm_lines (ssd_lm s)"]
  by (auto simp: gc_ready_def lines_inv_def lists_ok_def vq_fit_def pq_fit_def)

lemma unlogged_id: "ssd_klog s = [] \<Longrightarrow> unlogged s = s"
  by (simp add: unlogged_def)

lemma femu_ready_facts:
  assumes r: "femu_ready K s" and q: "req_ok K q"
  obtains a b where "cmd_lpns s (cmd_of q) = Some (a, b)" "unat b < tt s" "b < u64_of_int (tt_pgs (ssd_sp s))"
    "unat b < K" "int (Suc (unat b) - unat a) \<le> gc_thres_lines_high (ssd_sp s) * int (P_ln s)"
    "int (card (mapset s)) < (int (nB s) - 1 - gc_thres_lines_high (ssd_sp s)) * int (P_ln s)"
proof -
  obtain p where sp: "ssd_sp s = femu_ssd_init_params p" using r by (auto simp: femu_ready_def)
  have D: "P_ln s = 16384" "nB s = 256" "tt s = 4194304"
    by (simp_all add: P_ln_def nC_def nL_def nG_def nB_def tt_def sp)
  obtain a b where ab: "cmd_lpns s (cmd_of q) = Some (a, b)" "unat b = last_lpn (cmd_of q)" "Suc (unat b) - unat a \<le> 8193"
    using host_lpns [of s "cmd_of q"] by (auto simp: sp)
  have b: "unat b < K" using ab(2) cmd_of_last [OF q] q by (simp add: req_ok_def)
  then have t: "unat b < tt s" using r by (simp add: femu_ready_def D)
  then have w: "b < u64_of_int (tt_pgs (ssd_sp s))" by (simp add: sp D word_less_nat_alt u64_of_int_def)
  have "card (mapset s) \<le> K" using r card_mono [of "{..<K}" "mapset s"] by (simp add: femu_ready_def)
  then have "int (card (mapset s)) < (int (nB s) - 1 - gc_thres_lines_high (ssd_sp s)) * int (P_ln s)"
    using r by (simp add: femu_ready_def sp D)
  with ab t w b show thesis by (intro that [of a b]) (simp_all add: sp D)
qed

lemma femu_write_ok:
  assumes r: "femu_ready K s" and q: "req_ok K q"
  shows "returns (femu_ssd_write q s) (\<lambda>(lat, s'). femu_ready K s')"
proof -
  from femu_ready_facts [OF assms] obtain a b where f: "cmd_lpns s (cmd_of q) = Some (a, b)" "unat b < tt s"
    "b < u64_of_int (tt_pgs (ssd_sp s))" "unat b < K"
    "int (Suc (unat b) - unat a) \<le> gc_thres_lines_high (ssd_sp s) * int (P_ln s)"
    "int (card (mapset s)) < (int (nB s) - 1 - gc_thres_lines_high (ssd_sp s)) * int (P_ln s)" .
  have w: "write_ready s" and k: "ssd_klog s = []" using r by (simp_all add: femu_ready_def)
  obtain lat s' where s': "ssd_write (cmd_of q) (rq_stime q) s = Some (lat, s')" "write_ready s'"
    "mapset s' = mapset s \<union> {unat a..unat b}" "ssd_sp s' = ssd_sp s" "ssd_klog s' = ssd_klog s"
    using ssd_write_run [OF w f(1,2,6,5), of "rq_stime q"] by (auto elim!: returnsE)
  have "vq_fit s" using w gc_ready_fit by (simp add: write_ready_def)
  from ssd_write_port [OF s'(1) this cmd_of_same [OF q] f(1,3)]
  have "femu_ssd_write q s = Some (lat, s')" using k s'(5) by (simp add: unlogged_id)
  then show ?thesis using r s' f(4) by (auto simp: femu_ready_def)
qed

lemma femu_read_ok:
  assumes r: "femu_ready K s" and q: "req_ok K q"
  shows "returns (femu_ssd_read q s) (\<lambda>(lat, s'). femu_ready K s')"
proof -
  from femu_ready_facts [OF assms] obtain a b where f: "cmd_lpns s (cmd_of q) = Some (a, b)" "unat b < tt s"
    "b < u64_of_int (tt_pgs (ssd_sp s))" .
  have g: "gc_ready s" and k: "ssd_klog s = []" using r by (simp_all add: femu_ready_def write_ready_def)
  obtain lat s' where s': "ssd_read (cmd_of q) (rq_stime q) s = Some (lat, s')" "tick s s'"
    using ssd_read_run [OF g f(1,2), of "rq_stime q"] by (auto elim!: returnsE)
  have k': "ssd_klog s' = []" using s'(2) k by (simp add: tick_def)
  from ssd_read_port [OF s'(1) gc_ready_fit [OF g] cmd_of_same [OF q] f(1,3)]
  have "femu_ssd_read q s = Some (lat, s')" using k k' by (simp add: unlogged_id)
  moreover have "femu_ready K s'"
    using r tick_gc_ready [OF s'(2)] tick_room [OF s'(2)] P_ln_cong [of s' s] tick_gc_same [OF s'(2)] s'(2)
    by (simp add: femu_ready_def write_ready_def gc_same_def tick_def)
  ultimately show ?thesis by simp
qed

text \<open>What executing a request on the device gives, and what the collection in the background leaves.\<close>

definition answered :: "nvme_request \<Rightarrow> ssd \<Rightarrow> u64 \<Rightarrow> ssd \<Rightarrow> bool" where
  "answered r s lat s' \<longleftrightarrow>
     (rq_opcode r = NVME_CMD_WRITE \<longrightarrow> femu_ssd_write r s = Some (lat, s')) \<and>
     (rq_opcode r = NVME_CMD_READ \<longrightarrow> femu_ssd_read r s = Some (lat, s')) \<and>
     (rq_opcode r = NVME_CMD_DSM \<longrightarrow> lat = 0 \<and> s' = s)"

definition collected :: "ssd \<Rightarrow> ssd \<Rightarrow> bool" where
  "collected s s' \<longleftrightarrow> (if should_gc s then \<exists>x. femu_do_gc False s = Some (x, s') else s' = s)"

lemma cmd_opcodes: "NVME_CMD_WRITE = 1" "NVME_CMD_READ = 2" "NVME_CMD_DSM = 9"
  by (simp_all add: NVME_CMD_WRITE_def NVME_CMD_READ_def NVME_CMD_DSM_def)

lemma ftl_execute_ok:
  assumes "femu_ready K s" and "req_ok K q"
  shows "returns (ftl_execute q lat s) (\<lambda>(l, s'). femu_ready K s' \<and> answered q s l s')"
  using femu_write_ok [OF assms] femu_read_ok [OF assms] assms
  by (auto simp: ftl_execute_def answered_def cmd_opcodes req_ok_def elim!: returnsE)

lemma ftl_background_gc_ok:
  assumes r: "femu_ready K s"
  shows "returns (ftl_background_gc s) (\<lambda>s'. femu_ready K s' \<and> collected s s')"
proof (cases "should_gc s")
  case True
  have g: "gc_ready s" "P_ln s \<le> room s" and k: "ssd_klog s = []" using r by (simp_all add: femu_ready_def write_ready_def)
  obtain x s' where s': "do_gc False s = Some (x, s')" "gc_ready s'" "gc_same s s'" "room s \<le> room s'"
    using do_gc_background_ok [OF g] by (auto elim!: returnsE)
  have "femu_do_gc False s = Some (x, s')"
    using do_gc_port [OF s'(1) gc_ready_fit [OF g(1)]] s'(3) k by (simp add: gc_same_def unlogged_id)
  moreover have "femu_ready K s'"
    using r s' P_ln_cong [of s' s] by (simp add: femu_ready_def write_ready_def gc_same_def)
  ultimately show ?thesis using True by (simp add: ftl_background_gc_def collected_def)
qed (use r in \<open>simp add: ftl_background_gc_def collected_def\<close>)

section \<open>A round of the thread\<close>

text \<open>What DPDK documents of its rings: they are queues of fixed capacity, first in, first out.\<close>

definition fifo :: "'r ring_ops \<Rightarrow> ('r \<Rightarrow> nat list) \<Rightarrow> nat \<Rightarrow> bool" where
  "fifo rg q cap \<longleftrightarrow> (\<forall>r. rg_count rg r = length (q r)) \<and>
     (\<forall>r x xs. q r = x # xs \<longrightarrow> fst (rg_deq rg r) = Some x \<and> q (snd (rg_deq rg r)) = xs) \<and>
     (\<forall>r x. length (q r) < cap \<longrightarrow> q (snd (rg_enq rg x r)) = q r @ [x])"

text \<open>The requests that wait for the thread, and those it has passed on, per poller.\<close>

definition waiting :: "('r \<Rightarrow> nat list) \<Rightarrow> 'r ftl_thread_state \<Rightarrow> nat \<Rightarrow> nat list" where
  "waiting q t i = (case ft_to_ftl t i of None \<Rightarrow> [] | Some r \<Rightarrow> q r)"

definition passed :: "('r \<Rightarrow> nat list) \<Rightarrow> 'r ftl_thread_state \<Rightarrow> nat \<Rightarrow> nat list" where
  "passed q t i = q (ft_to_poller t i)"

definition thread_ok :: "nat \<Rightarrow> ('r \<Rightarrow> nat list) \<Rightarrow> nat \<Rightarrow> nat \<Rightarrow> 'r ftl_thread_state \<Rightarrow> bool" where
  "thread_ok K q cap n t \<longleftrightarrow> femu_ready K (ft_ssd t) \<and>
     (\<forall>i\<in>{1..n}. (\<forall>x\<in>set (waiting q t i). req_ok K (ft_reqs t x)) \<and>
        length (waiting q t i) + length (passed q t i) \<le> cap)"

definition timed :: "u64 \<Rightarrow> nvme_request \<Rightarrow> nvme_request" where
  "timed lat r = r\<lparr>rq_reqlat := lat, rq_expire_time := rq_expire_time r + lat\<rparr>"

lemma req_ok_timed [simp]: "req_ok K (timed lat r) = req_ok K r"
  by (simp add: req_ok_def timed_def req_last_def)

text \<open>Poller \<open>i\<close> was served, which took the device from \<open>s\<close> to \<open>s'\<close>.\<close>

definition served :: "('r \<Rightarrow> nat list) \<Rightarrow> 'r ftl_thread_state \<Rightarrow> 'r ftl_thread_state \<Rightarrow> nat \<Rightarrow> ssd \<Rightarrow> ssd \<Rightarrow> bool" where
  "served q t t' i s s' \<longleftrightarrow> (case waiting q t i of
     [] \<Rightarrow> waiting q t' i = [] \<and> passed q t' i = passed q t i \<and> s' = s
   | x # xs \<Rightarrow> waiting q t' i = xs \<and> passed q t' i = passed q t i @ [x] \<and>
       (\<exists>lat s1. answered (ft_reqs t x) s lat s1 \<and> collected s1 s' \<and> ft_reqs t' x = timed lat (ft_reqs t x)))"

lemma ftl_serve_ok:
  assumes f: "fifo rg q cap" and ok: "thread_ok K q cap n t" and i: "i \<in> {1..n}"
  shows "returns (ftl_serve rg i t) (\<lambda>t'. thread_ok K q cap n t' \<and> served q t t' i (ft_ssd t) (ft_ssd t') \<and>
    (\<forall>j. j \<noteq> i \<longrightarrow> waiting q t' j = waiting q t j \<and> passed q t' j = passed q t j) \<and>
    (\<forall>x. x \<notin> set (take 1 (waiting q t i)) \<longrightarrow> ft_reqs t' x = ft_reqs t x))"
proof (cases "waiting q t i")
  case Nil
  then have "ftl_serve rg i t = Some t"
    using f by (auto simp: ftl_serve_def waiting_def fifo_def split: option.splits)
  then show ?thesis using ok Nil by (simp add: served_def)
next
  case (Cons x xs)
  then obtain r where r: "ft_to_ftl t i = Some r" "q r = x # xs" by (auto simp: waiting_def split: option.splits)
  obtain r' where r': "rg_deq rg r = (Some x, r')" "q r' = xs"
    using f r(2) unfolding fifo_def by (metis prod.collapse)
  have c: "rg_count rg r \<noteq> 0" using f r(2) by (simp add: fifo_def)
  have rq: "req_ok K (ft_reqs t x)" and len: "length (passed q t i) < cap"
    using ok i Cons by (force simp: thread_ok_def)+
  obtain b r2 where e: "rg_enq rg x (ft_to_poller t i) = (b, r2)" by (cases "rg_enq rg x (ft_to_poller t i)")
  have r2: "q r2 = passed q t i @ [x]" using f len e unfolding fifo_def passed_def by (metis snd_conv)
  have rd: "femu_ready K (ft_ssd t)" using ok by (simp add: thread_ok_def)
  obtain lat s1 where s1: "ftl_execute (ft_reqs t x) (ft_lat t) (ft_ssd t) = Some (lat, s1)" "femu_ready K s1" "answered (ft_reqs t x) (ft_ssd t) lat s1"
    using ftl_execute_ok [OF rd rq, of "ft_lat t"] by (auto elim!: returnsE)
  obtain s2 where s2: "ftl_background_gc s1 = Some s2" "femu_ready K s2" "collected s1 s2"
    using ftl_background_gc_ok [OF s1(2)] by (auto elim!: returnsE)
  define t' where "t' = t\<lparr>ft_ssd := s2, ft_lat := lat, ft_req := Some x, ft_to_ftl := (ft_to_ftl t)(i := Some r'),
    ft_reqs := (ft_reqs t)(x := timed lat (ft_reqs t x)), ft_to_poller := (ft_to_poller t)(i := r2)\<rparr>"
  have run: "ftl_serve rg i t = Some t'"
    using c by (simp add: ftl_serve_def r(1) r'(1) s1(1) e s2(1) t'_def timed_def Let_def)
  have w: "waiting q t' j = (if j = i then xs else waiting q t j)"
    "passed q t' j = (if j = i then passed q t i @ [x] else passed q t j)" for j
    using r'(2) r2 by (auto simp: t'_def waiting_def passed_def)
  have q: "ft_reqs t' y = (if y = x then timed lat (ft_reqs t x) else ft_reqs t y)" for y by (simp add: t'_def)
  have T: "(\<forall>x\<in>set (waiting q t j). req_ok K (ft_reqs t x)) \<and> length (waiting q t j) + length (passed q t j) \<le> cap"
    if "j \<in> {1..n}" for j using ok that by (simp add: thread_ok_def)
  have "femu_ready K (ft_ssd t')" using s2(2) by (simp add: t'_def)
  moreover have "(\<forall>y\<in>set (waiting q t' j). req_ok K (ft_reqs t' y)) \<and> length (waiting q t' j) + length (passed q t' j) \<le> cap"
    if j: "j \<in> {1..n}" for j
    using T [OF j] T [OF i] Cons rq by (cases "j = i") (auto simp: w q)
  ultimately have "thread_ok K q cap n t'" unfolding thread_ok_def by blast
  moreover have "served q t t' i (ft_ssd t) (ft_ssd t')"
  proof -
    have "ft_ssd t' = s2" by (simp add: t'_def)
    then show ?thesis using Cons s1(3) s2(3) by (auto simp: served_def w q)
  qed
  ultimately show ?thesis using run Cons by (simp add: w q)
qed

definition disjoint_rings :: "('r \<Rightarrow> nat list) \<Rightarrow> nat \<Rightarrow> 'r ftl_thread_state \<Rightarrow> bool" where
  "disjoint_rings q n t \<longleftrightarrow> (\<forall>i\<in>{1..n}. \<forall>j\<in>{1..n}. i \<noteq> j \<longrightarrow> set (waiting q t i) \<inter> set (waiting q t j) = {})"

text \<open>A change that does not touch the rings and the requests of a poller that has been served.\<close>

lemma served_cong:
  assumes "served q u v i s s'" and "waiting q t i = waiting q u i" and "passed q t i = passed q u i"
    and "\<forall>x\<in>set (waiting q t i). ft_reqs t x = ft_reqs u x"
  shows "served q t v i s s'"
  using assms by (auto simp: served_def split: list.splits)

lemma served_cong_after:
  assumes "served q t u i s s'" and "waiting q v i = waiting q u i" and "passed q v i = passed q u i"
    and "\<forall>x\<in>set (waiting q t i). ft_reqs v x = ft_reqs u x"
  shows "served q t v i s s'"
  using assms by (auto simp: served_def split: list.splits)

text \<open>Rings and requests that a round does not reach.\<close>

definition others_kept :: "('r \<Rightarrow> nat list) \<Rightarrow> nat \<Rightarrow> 'r ftl_thread_state \<Rightarrow> 'r ftl_thread_state \<Rightarrow> bool" where
  "others_kept q n t t' \<longleftrightarrow> (\<forall>j. j \<notin> {1..n} \<longrightarrow> waiting q t' j = waiting q t j \<and> passed q t' j = passed q t j) \<and>
     (\<forall>x. x \<notin> (\<Union>i\<in>{1..n}. set (take 1 (waiting q t i))) \<longrightarrow> ft_reqs t' x = ft_reqs t x)"

definition serves :: "('r \<Rightarrow> nat list) \<Rightarrow> 'r ftl_thread_state \<Rightarrow> nat \<Rightarrow> 'r ftl_thread_state \<Rightarrow> bool" where
  "serves q t i t' \<longleftrightarrow> (\<exists>dev. dev 1 = ft_ssd t \<and> dev i = ft_ssd t' \<and>
     (\<forall>j\<in>{1..<i}. served q t t' j (dev j) (dev (Suc j))))"

lemma serves_Suc:
  assumes "serves q t i u" and "1 \<le> i" and "served q t v i (ft_ssd u) (ft_ssd v)"
    and "\<And>j s s'. j \<in> {1..<i} \<Longrightarrow> served q t u j s s' \<Longrightarrow> served q t v j s s'"
  shows "serves q t (Suc i) v"
proof -
  obtain dev where d: "dev 1 = ft_ssd t" "dev i = ft_ssd u" "\<forall>j\<in>{1..<i}. served q t u j (dev j) (dev (Suc j))"
    using assms(1) by (auto simp: serves_def)
  let ?dev = "dev(Suc i := ft_ssd v)"
  have "served q t v j (?dev j) (?dev (Suc j))" if "j \<in> {1..<Suc i}" for j
    using that assms(3,4) d by (cases "j = i") auto
  then show ?thesis using d(1) assms(2) unfolding serves_def by (intro exI [of _ ?dev]) auto
qed

lemma ftl_thread_round_ok:
  assumes f: "fifo rg q cap" and ok: "thread_ok K q cap n t" and dj: "disjoint_rings q n t"
  shows "returns (ftl_thread_round rg n t) (\<lambda>t'. thread_ok K q cap n t' \<and> serves q t (n + 1) t' \<and> others_kept q n t t')"
proof -
  let ?I = "\<lambda>i t'. thread_ok K q cap n t' \<and> serves q t i t' \<and>
    (\<forall>j. j \<notin> {1..<i} \<longrightarrow> waiting q t' j = waiting q t j \<and> passed q t' j = passed q t j) \<and>
    (\<forall>x. x \<notin> (\<Union>j\<in>{1..<i}. set (take 1 (waiting q t j))) \<longrightarrow> ft_reqs t' x = ft_reqs t x)"
  have apart: "x \<notin> set (take 1 (waiting q t j))" if "i \<in> {1..n}" "j \<in> {1..n}" "j \<noteq> i" "x \<in> set (waiting q t i)" for i j x
    using dj that in_set_takeD [of x 1 "waiting q t j"] unfolding disjoint_rings_def by blast
  have "returns (foldM (ftl_serve rg) [1..<n + 1] t) (?I (n + 1))"
  proof (rule returns_foldM_upt [where I = ?I])
    fix i u assume i: "1 \<le> i" "i < n + 1" and u: "?I i u"
    have i': "i \<in> {1..n}" using i by simp
    have wu: "waiting q u i = waiting q t i" "passed q u i = passed q t i" using u by auto
    have qu: "\<forall>x\<in>set (waiting q t i). ft_reqs u x = ft_reqs t x"
    proof
      fix x assume x: "x \<in> set (waiting q t i)"
      have "x \<notin> (\<Union>j\<in>{1..<i}. set (take 1 (waiting q t j)))" using apart [OF i' _ _ x] i by auto
      then show "ft_reqs u x = ft_reqs t x" using u by blast
    qed
    show "returns (ftl_serve rg i u) (?I (Suc i))"
    proof (rule returns_mono [OF ftl_serve_ok [OF f conjunct1 [OF u] i']])
      fix v assume v: "thread_ok K q cap n v \<and> served q u v i (ft_ssd u) (ft_ssd v) \<and>
        (\<forall>j. j \<noteq> i \<longrightarrow> waiting q v j = waiting q u j \<and> passed q v j = passed q u j) \<and>
        (\<forall>x. x \<notin> set (take 1 (waiting q u i)) \<longrightarrow> ft_reqs v x = ft_reqs u x)"
      have "serves q t (Suc i) v"
      proof (rule serves_Suc)
        show "serves q t i u" "1 \<le> i" using u i by simp_all
        show "served q t v i (ft_ssd u) (ft_ssd v)"
          by (rule served_cong [of q u]) (use v wu qu in auto)
        fix j s s' assume j: "j \<in> {1..<i}" and sj: "served q t u j s s'"
        have "\<forall>x\<in>set (waiting q t j). ft_reqs v x = ft_reqs u x"
          using v wu(1) apart [of j i] i j by auto
        then show "served q t v j s s'" by (intro served_cong_after [OF sj]) (use v j in auto)
      qed
      moreover have "ft_reqs v x = ft_reqs t x" if "x \<notin> (\<Union>j\<in>{1..<Suc i}. set (take 1 (waiting q t j)))" for x
      proof -
        have "x \<notin> set (take 1 (waiting q u i))" "x \<notin> (\<Union>j\<in>{1..<i}. set (take 1 (waiting q t j)))"
          using that i wu(1) by auto
        then show ?thesis using u v by simp
      qed
      moreover have "waiting q v j = waiting q t j \<and> passed q v j = passed q t j" if "j \<notin> {1..<Suc i}" for j
      proof -
        have "j \<noteq> i" "j \<notin> {1..<i}" using that i by auto
        then show ?thesis using u v by simp
      qed
      ultimately show "?I (Suc i) v" using v by blast
    qed
  qed (use ok in \<open>auto simp: serves_def\<close>)
  then show ?thesis
    unfolding ftl_thread_round_def by (rule returns_mono) (simp add: others_kept_def atLeastLessThanSuc_atLeastAtMost)
qed

end
