(* ===== verification/FEMU_PQueue_Props.thy ===== *)
theory FEMU_PQueue_Props
  imports FEMU_PQueue PQueue_Props
begin

text \<open>
  The queue of FEMU: an insertion never lacks room, and printing lists the elements in their order. For
  the printing, whose callbacks forget positions, the queue is followed by one that keeps them in a
  ghost function, to which the contract of PQueue_Correct applies.
\<close>

section \<open>Growing\<close>

context pq_store
begin

lemma pq_grow_ok:
  assumes ok: "pq_ok q s" and st: "0 < pq_step q" and full: "pq_avail q \<le> pq_size q"
  shows "pq_ok (pq_grow q) s \<and> pq_size (pq_grow q) < pq_avail (pq_grow q) \<and> pq_size (pq_grow q) = pq_size q \<and>
    pq_elems (pq_grow q) = pq_elems q"
proof -
  have sh: "pq_shape q" using ok by (simp add: pq_ok_def pq_wf_def)
  then have len: "length (pq_d q) = pq_size q" using full by (simp add: pq_shape_def)
  let ?q = "pq_grow q"
  have d: "pq_d ?q ! j = pq_d q ! j" if "j < pq_size q" for j
    using that len by (simp add: pq_grow_def nth_append)
  have n: "pq_nth ?q j = pq_nth q j" if "j < pq_size q" for j using d [OF that] by (simp add: pq_nth_def)
  have f: "pq_size ?q = pq_size q" "cmppri ?q = cmppri q" "getpri ?q = getpri q" "setpri ?q = setpri q" "getpos ?q = getpos q"
    "setpos ?q = setpos q" "pq_avail ?q = pq_size q + pq_step q" "length (pq_d ?q) = pq_size q + pq_step q"
    using len by (simp_all add: pq_grow_def)
  have "pq_shape ?q" using sh d by (auto simp: pq_shape_def f)
  moreover have "pq_heap ?q s" using ok n by (auto simp: pq_ok_def pq_wf_def pq_heap_def heap_order_def f)
  moreover have "pq_elems ?q = pq_elems q" using n by (auto simp: pq_elems_def f)
  ultimately show ?thesis using ok st n by (auto simp: pq_ok_def pq_wf_def cb_def f)
qed

lemma femu_pqueue_insert_ok:
  assumes ok: "pq_ok q s" and v: "valid s d" and new: "d \<notin> pq_elems q" and st: "0 < pq_step q"
  shows "returns (femu_pqueue_insert q s d) (\<lambda>(q', s'). pq_ok q' s' \<and> pq_elems q' = insert d (pq_elems q) \<and>
    pq_size q' = pq_size q + 1 \<and> rest s' = rest s)"
proof -
  let ?p = "if pq_avail q \<le> pq_size q then pq_grow q else q"
  have e: "femu_pqueue_insert q s d = pqueue_insert ?p s d"
    by (simp add: femu_pqueue_insert_def pqueue_insert_def Let_def)
  have p: "pq_ok ?p s" "pq_size ?p < pq_avail ?p" "pq_size ?p = pq_size q" "pq_elems ?p = pq_elems q"
    using pq_grow_ok [OF ok st] ok by auto
  show ?thesis
    unfolding e by (rule returns_mono [OF pqueue_insert_ok [OF p(1) v _ p(2)]]) (use new p(3,4) in auto)
qed

end

text \<open>C25. The insertion of FEMU lets a full queue grow first, so that it returns a heap of the old lines and the new one
  whatever the size of the array, and changes nothing of the lines but their positions; with a free slot it is the
  insertion of the port, which on a full queue writes outside the array.\<close>

theorem femu_pqueue_insert_correct:
  assumes "victim_queue_ok q ls" and "e < length ls" and "e \<notin> pq_elems q" and "0 < pq_step q"
  shows "returns (femu_pqueue_insert q ls e) (\<lambda>(q', ls'). victim_queue_ok q' ls' \<and>
      pq_elems q' = insert e (pq_elems q) \<and> pqueue_size q' = pqueue_size q + 1 \<and> same_lines ls ls') \<and>
    (if pq_size q < pq_avail q then pqueue_insert q ls e = femu_pqueue_insert q ls e else pqueue_insert q ls e = None)"
proof -
  note ok = assms(1) [unfolded victim_queue_vq]
  have "returns (femu_pqueue_insert q ls e) (\<lambda>(q', ls'). victim_queue_ok q' ls' \<and>
      pq_elems q' = insert e (pq_elems q) \<and> pqueue_size q' = pqueue_size q + 1 \<and> same_lines ls ls')"
    using vq.femu_pqueue_insert_ok [OF ok assms(2,3,4)] vq.pq_ok_sizes [OF ok]
    by (auto elim!: returns_mono simp: victim_queue_vq same_lines_rest pqueue_size_def)
  moreover have "pqueue_insert q ls e = femu_pqueue_insert q ls e" if "pq_size q < pq_avail q"
    using that by (simp add: femu_pqueue_insert_def pqueue_insert_def)
  moreover have "pqueue_insert q ls e = None" if "\<not> pq_size q < pq_avail q"
    using that vq.pq_ok_sizes [OF ok] by (simp add: pqueue_insert_def pq_put_def)
  ultimately show ?thesis by simp
qed

theorem femu_pqueue_insert_correct_witness:
  "returns (pqueue_insert empty_queue demo_lines 2) (\<lambda>(q, ls). returns (femu_pqueue_insert q ls 0)
    (\<lambda>(q', ls'). pq_elems q' = {0, 2}))"
proof -
  obtain q ls where q: "pqueue_insert empty_queue demo_lines 2 = Some (q, ls)" "victim_queue_ok q ls" "pq_elems q = {2}"
    "length ls = 3" "pq_step q = 4"
  proof -
    have len: "length demo_lines = 3" by (simp add: demo_lines_def)
    have "returns (pqueue_insert empty_queue demo_lines 2) (\<lambda>(q, ls). pq_step q = 4 \<and> length ls = 3)" by code_simp
    moreover have "returns (pqueue_insert empty_queue demo_lines 2) (\<lambda>(q, ls). victim_queue_ok q ls \<and> pq_elems q = {2})"
      using vq.pqueue_insert_ok [OF empty_queue_ok(1) [of demo_lines, unfolded victim_queue_vq], of 2] len
      by (auto elim!: returns_mono simp: victim_queue_vq empty_queue_ok)
    ultimately show thesis by (auto elim!: returnsE intro: that)
  qed
  from femu_pqueue_insert_correct [OF q(2), of 0] q(3,4,5)
  show ?thesis by (simp add: q(1)) (auto elim!: returns_mono)
qed

section \<open>Printing\<close>

definition ghost_pri :: "('s \<Rightarrow> 'e \<Rightarrow> u64) \<Rightarrow> 's \<times> ('e \<Rightarrow> nat) \<Rightarrow> 'e \<Rightarrow> u64" where
  "ghost_pri g x e = g (fst x) e"

definition ghost_spri :: "'s \<times> ('e \<Rightarrow> nat) \<Rightarrow> 'e \<Rightarrow> u64 \<Rightarrow> 's \<times> ('e \<Rightarrow> nat)" where
  "ghost_spri x e w = x"

definition ghost_pos :: "'s \<times> ('e \<Rightarrow> nat) \<Rightarrow> 'e \<Rightarrow> nat" where
  "ghost_pos x e = snd x e"

definition ghost_spos :: "'s \<times> ('e \<Rightarrow> nat) \<Rightarrow> 'e \<Rightarrow> nat \<Rightarrow> 's \<times> ('e \<Rightarrow> nat)" where
  "ghost_spos x e p = (fst x, (snd x)(e := p))"

lemmas ghost_defs = ghost_pri_def ghost_spri_def ghost_pos_def ghost_spos_def

interpretation gh: pq_store "ghost_pri g" ghost_spri ghost_pos ghost_spos "\<lambda>a b. b < a" "\<lambda>_ _. True" "\<lambda>_. False" fst
  for g :: "'s \<Rightarrow> 'e \<Rightarrow> u64"
  by unfold_locales (auto simp: ghost_defs)

text \<open>The queue whose callbacks are those of the printing, with the array of a queue that keeps ghost positions.\<close>

definition plain :: "nat \<Rightarrow> nat \<Rightarrow> ('s \<Rightarrow> 'e \<Rightarrow> u64) \<Rightarrow> ('s \<Rightarrow> 'e \<Rightarrow> nat) \<Rightarrow> ('s \<times> ('e \<Rightarrow> nat), 'e) pqueue_t \<Rightarrow> ('s, 'e) pqueue_t" where
  "plain a b g gpos q = \<lparr>pq_size = pq_size q, pq_avail = a, pq_step = b, cmppri = cmppri q, getpri = g, setpri = print_set_pri,
     getpos = gpos, setpos = print_set_pos, pq_d = pq_d q\<rparr>"

definition ghosted :: "('s \<Rightarrow> 'e \<Rightarrow> u64) \<Rightarrow> ('s \<times> ('e \<Rightarrow> nat), 'e) pqueue_t \<Rightarrow> bool" where
  "ghosted g q \<longleftrightarrow> getpri q = ghost_pri g \<and> setpos q = ghost_spos"

lemma plain_elt [simp]: "pq_elt (plain a b g gpos q) i = pq_elt q i" "pq_size (plain a b g gpos q) = pq_size q"
  by (simp_all add: pq_elt_def plain_def)

lemma plain_put [simp]: "pq_put (plain a b g gpos q) i e = map_option (plain a b g gpos) (pq_put q i e)"
  by (simp add: pq_put_def arr_set_def plain_def)

lemma ghosted_put: "pq_put q i e = Some q' \<Longrightarrow> ghosted g q \<Longrightarrow> ghosted g q' \<and> cmppri q' = cmppri q"
  by (auto simp: pq_put_def ghosted_def split: bind_splits)

lemma plain_maxchild [simp]:
  "ghosted g q \<Longrightarrow> maxchild (plain a b g gpos q) s i = maxchild q (s, f) i"
  by (simp add: maxchild_def Let_def) (simp add: plain_def ghosted_def ghost_pri_def)

lemma percolate_down_loop_plain:
  "ghosted g q \<Longrightarrow> percolate_down_loop (plain a b g gpos q) (fst x) pri i =
    map_option (\<lambda>(q', x', j). (plain a b g gpos q', fst x, j)) (percolate_down_loop q x pri i) \<and>
    (\<forall>q' x' j. percolate_down_loop q x pri i = Some (q', x', j) \<longrightarrow> ghosted g q' \<and> fst x' = fst x)"
proof (induction q x pri i rule: percolate_down_loop.induct)
  case (1 q x pri i)
  obtain s f where x: "x = (s, f)" by (cases x)
  have G: "getpri q x e = g s e" "setpos q x e j = (s, f(e := j))"
    "getpri (plain a b g gpos q) s e = g s e" "setpos (plain a b g gpos q) s e j = s" "cmppri (plain a b g gpos q) = cmppri q" for e j
    using 1(2) by (simp_all add: ghosted_def ghost_defs plain_def print_set_pos_def x)
  have M: "maxchild (plain a b g gpos q) s i = maxchild q x i" using plain_maxchild [OF 1(2)] by (simp add: x)
  have fx: "fst x = s" by (simp add: x)
  note U = percolate_down_loop.simps [of q x pri i] percolate_down_loop.simps [of "plain a b g gpos q" s pri i]
  show ?case
  proof (cases "maxchild q x i")
    case None
    then show ?thesis by (simp add: fx U M)
  next
    case (Some c)
    note mc = Some
    show ?thesis
    proof (cases "c \<noteq> 0 \<and> pq_elt q c \<noteq> None \<and> cmppri q pri (g s (the (pq_elt q c))) \<and> pq_put q i (the (pq_elt q c)) \<noteq> None")
      case False
      then show ?thesis using 1(2) mc unfolding x by (auto simp: U [unfolded x] M [unfolded x] G [unfolded x] split: bind_splits)
    next
      case True
      then obtain e q1 where e: "c \<noteq> 0" "pq_elt q c = Some e" "cmppri q pri (g s e)" "pq_put q i e = Some q1" by auto
      have g1: "ghosted g q1" using ghosted_put [OF e(4) 1(2)] by simp
      have IH: "percolate_down_loop (plain a b g gpos q1) (fst (s, f(e := i))) pri c =
          map_option (\<lambda>(q', x', j). (plain a b g gpos q', fst (s, f(e := i)), j)) (percolate_down_loop q1 (s, f(e := i)) pri c) \<and>
          (\<forall>q' x' j. percolate_down_loop q1 (s, f(e := i)) pri c = Some (q', x', j) \<longrightarrow> ghosted g q' \<and> fst x' = fst (s, f(e := i)))"
        using 1(1) [OF mc e(1,2) _ e(4)] g1 e(3) unfolding G(1,2) by simp
      have R: "percolate_down_loop q x pri i = percolate_down_loop q1 (s, f(e := i)) pri c"
        using e mc by (simp add: U G)
      have P: "percolate_down_loop (plain a b g gpos q) s pri i = percolate_down_loop (plain a b g gpos q1) s pri c"
        using e mc by (simp add: U G M)
      show ?thesis using IH unfolding R fx P by simp
    qed
  qed
qed

lemma percolate_down_plain:
  assumes g: "ghosted g q"
  shows "percolate_down (plain a b g gpos q) (fst x) i = map_option (\<lambda>(q', x'). (plain a b g gpos q', fst x)) (percolate_down q x i)"
    "percolate_down q x i = Some (q', x') \<Longrightarrow> ghosted g q' \<and> fst x' = fst x"
proof -
  obtain s f where x: "x = (s, f)" by (cases x)
  have G: "getpri q x e = g s e" "getpri (plain a b g gpos q) s e = g s e" "setpos (plain a b g gpos q) s e j = s" for e j
    using g by (simp_all add: ghosted_def ghost_defs plain_def print_set_pos_def x)
  note L = percolate_down_loop_plain [OF g, of a b gpos x]
  have fx: "fst x = s" by (simp add: x)
  show "percolate_down (plain a b g gpos q) (fst x) i = map_option (\<lambda>(q', x'). (plain a b g gpos q', fst x)) (percolate_down q x i)"
  proof (cases "pq_elt q i")
    case (Some m)
    show ?thesis
    proof (cases "percolate_down_loop q x (g s m) i")
      case None
      then show ?thesis using L [of "g s m" i] by (simp add: percolate_down_def Some G fx)
    next
      case (Some r)
      obtain q' x' j where r: "r = (q', x', j)" by (cases r)
      show ?thesis using L [of "g s m" i]
        by (cases "pq_put q' j m") (simp_all add: percolate_down_def \<open>pq_elt q i = Some m\<close> Some r G fx)
    qed
  qed (simp add: percolate_down_def)
  show "ghosted g q' \<and> fst x' = fst x" if r: "percolate_down q x i = Some (q', x')"
  proof -
    obtain m q1 s1 f1 j where d: "percolate_down_loop q x (getpri q x m) i = Some (q1, (s1, f1), j)" "pq_put q1 j m = Some q'"
      "x' = setpos q (s1, f1) m j"
      using r by (auto simp: percolate_down_def split: bind_splits)
    have "ghosted g q1 \<and> fst (s1, f1) = fst x" using L d(1) by blast
    then show ?thesis using d(2,3) g ghosted_put [OF d(2)] by (simp add: ghosted_def ghost_spos_def)
  qed
qed

lemma ghosted_size [simp]: "ghosted g (q\<lparr>pq_size := n\<rparr>) = ghosted g q"
  by (simp add: ghosted_def)

lemma plain_size: "(plain a b g gpos q)\<lparr>pq_size := n\<rparr> = plain a b g gpos (q\<lparr>pq_size := n\<rparr>)"
  by (simp add: plain_def)

lemma pqueue_pop_plain:
  assumes g: "ghosted g q"
  shows "pqueue_pop (plain a b g gpos q) (fst x) = map_option (\<lambda>(e, q', x'). (e, plain a b g gpos q', fst x)) (pqueue_pop q x)"
    "pqueue_pop q x = Some (e, q', x') \<Longrightarrow> ghosted g q' \<and> fst x' = fst x"
proof -
  show "pqueue_pop (plain a b g gpos q) (fst x) = map_option (\<lambda>(e, q', x'). (e, plain a b g gpos q', fst x)) (pqueue_pop q x)"
  proof (cases "pq_size q = 1 \<or> pq_elt q 1 = None \<or> pq_elt q (pq_size q - 1) = None")
    case False
    then obtain h l where e: "pq_size q \<noteq> 1" "pq_elt q 1 = Some h" "pq_elt q (pq_size q - 1) = Some l" by auto
    let ?q = "q\<lparr>pq_size := pq_size q - 1\<rparr>"
    show ?thesis
    proof (cases "pq_put ?q 1 l")
      case None
      then show ?thesis using e by (simp add: pqueue_pop_def plain_size)
    next
      case (Some q1)
      have "ghosted g q1" using ghosted_put [OF Some] g by simp
      from percolate_down_plain(1) [OF this, of a b gpos x 1] show ?thesis
        using e Some by (cases "percolate_down q1 x 1") (auto simp: pqueue_pop_def plain_size)
    qed
  qed (auto simp: pqueue_pop_def)
  show "ghosted g q' \<and> fst x' = fst x" if r: "pqueue_pop q x = Some (e, q', x')"
  proof (cases "pq_size q = 1")
    case True
    then show ?thesis using r g by (simp add: pqueue_pop_def)
  next
    case False
    then obtain l q1 where q1: "pq_put (q\<lparr>pq_size := pq_size q - 1\<rparr>) 1 l = Some q1" "percolate_down q1 x 1 = Some (q', x')"
      using r by (auto simp: pqueue_pop_def split: bind_splits)
    have "ghosted g q1" using ghosted_put [OF q1(1)] g by simp
    from percolate_down_plain(2) [OF this q1(2)] show ?thesis .
  qed
qed

lemma print_loop_plain: "ghosted g q \<Longrightarrow> pqueue_print_loop (plain a b g gpos q) (fst x) = pqueue_print_loop q x"
proof (induction q x rule: pqueue_print_loop.induct)
  case (1 q x)
  note U = pqueue_print_loop.simps [of q x] pqueue_print_loop.simps [of "plain a b g gpos q" "fst x"]
  show ?case
  proof (cases "pq_size q = 0 \<or> pqueue_pop q x = None")
    case True
    then show ?thesis using pqueue_pop_plain(1) [OF 1(2), of a b gpos x] by (auto simp: U)
  next
    case False
    then obtain e q' x' where p: "pq_size q \<noteq> 0" "pqueue_pop q x = Some (e, q', x')" by auto
    note k = pqueue_pop_plain [OF 1(2)]
    have gq: "ghosted g q'" "fst x' = fst x" using k(2) [OF p(2)] by auto
    show ?thesis
    proof (cases e)
      case None
      then show ?thesis using p k(1) [of a b gpos x] by (simp add: U)
    next
      case (Some h)
      then have "pqueue_print_loop (plain a b g gpos q') (fst x') = pqueue_print_loop q' x'"
        using 1(1) [OF p(1), of "(Some h, q', x')" "Some h" "(q', x')" q' x' h] p(2) gq(1) by simp
      then show ?thesis using Some p k(1) [of a b gpos x] gq(2) by (simp add: U)
    qed
  qed
qed

lemma print_loop_sorted:
  fixes g :: "'s \<Rightarrow> 'e \<Rightarrow> u64"
  shows "gh.pq_ok g q x \<Longrightarrow> returns (pqueue_print_loop q x) (\<lambda>out. distinct out \<and> set out = pq_elems q \<and> sorted (map (g (fst x)) out))"
proof (induction q x rule: pqueue_print_loop.induct)
  case (1 q x)
  note ok = 1(2) and U = pqueue_print_loop.simps [of q x]
  have sz: "pq_size q \<noteq> 0" using gh.pq_ok_sizes [OF ok] by simp
  show ?case
  proof (cases "pq_elems q = {}")
    case True
    then show ?thesis using sz gh.pqueue_pop_empty [OF ok] by (simp add: U)
  next
    case False
    let ?h = "pq_nth q 1"
    obtain q' x' where p: "pqueue_pop q x = Some (Some ?h, q', x')" "gh.pq_ok g q' x'" "pq_elems q' = pq_elems q - {?h}"
      "fst x' = fst x"
      using gh.pqueue_pop_wf [OF ok False] by (auto elim!: returnsE)
    have "returns (pqueue_print_loop q' x') (\<lambda>out. distinct out \<and> set out = pq_elems q' \<and> sorted (map (g (fst x')) out))"
      using 1(1) [OF sz, of "(Some ?h, q', x')" "Some ?h" "(q', x')" q' x' ?h] p(1,2) by simp
    then obtain out where o: "pqueue_print_loop q' x' = Some out" "distinct out" "set out = pq_elems q - {?h}"
      "sorted (map (g (fst x)) out)"
      using p(3,4) by (auto elim!: returnsE)
    have "g (fst x) ?h \<le> g (fst x) y" if "y \<in> set out" for y
      using gh.pqueue_peek_ok(3) [OF ok False] that o(3) by (simp add: ghost_pri_def)
    then show ?thesis using sz p(1) o gh.pqueue_peek_ok(2) [OF ok False] by (auto simp: U)
  qed
qed

text \<open>C39. Printing a well-formed queue lists every element once, in the order of their priorities, whatever room the
  array has; the queue and the positions stored in its elements are not touched.\<close>

theorem pqueue_print_sorted:
  assumes "cmppri q = (\<lambda>next curr. curr < next)" and "pq_wf q s"
  shows "returns (pqueue_print q s) (\<lambda>out. distinct out \<and> set out = pq_elems q \<and> sorted (map (getpri q s) out))"
proof -
  let ?n = "pq_size q"
  have sh: "pq_shape q" and pos: "\<forall>j\<in>{1..<?n}. getpos q s (pq_nth q j) = j" and hp: "pq_heap q s"
    using assms(2) by (auto simp: pq_wf_def)
  have n: "?n \<le> length (pq_d q)" "1 \<le> ?n" using sh by (auto simp: pq_shape_def)
  define d where "d = take ?n (pq_d q) @ [None]"
  define Q where "Q = \<lparr>pq_size = ?n, pq_avail = ?n + 1, pq_step = ?n + 1, cmppri = cmppri q, getpri = ghost_pri (getpri q),
    setpri = ghost_spri, getpos = ghost_pos, setpos = ghost_spos, pq_d = d\<rparr>"
  have dn: "d ! j = pq_d q ! j" if "j < ?n" for j using that n by (simp add: d_def nth_append)
  have nth: "pq_nth Q j = pq_nth q j" if "j < ?n" for j using dn [OF that] by (simp add: pq_nth_def Q_def)
  have el: "pq_elems Q = pq_elems q" using nth by (auto simp: pq_elems_def Q_def)
  have "pq_shape Q" using sh dn n by (auto simp: pq_shape_def Q_def d_def)
  moreover have "pq_heap Q (s, getpos q s)"
    using hp nth by (auto simp: pq_heap_def heap_order_def Q_def ghost_pri_def)
  moreover have "\<forall>j\<in>{1..<pq_size Q}. getpos Q (s, getpos q s) (pq_nth Q j) = j"
    using pos nth by (auto simp: Q_def ghost_pos_def)
  ultimately have ok: "gh.pq_ok (getpri q) Q (s, getpos q s)"
    using assms(1) by (auto simp: gh.pq_ok_def gh.cb_def pq_wf_def Q_def)
  have dr: "drop ?n (None # replicate ?n None) = [None :: 'b option]"
    using drop_replicate [of ?n "Suc ?n" "None :: 'b option"] by (simp add: Suc_diff_le del: drop_replicate)
  have "ghosted (getpri q) Q" by (simp add: ghosted_def Q_def)
  from print_loop_plain [OF this, of "pq_avail q" "pq_step q" "getpos q" "(s, getpos q s)"]
  have "pqueue_print q s = pqueue_print_loop Q (s, getpos q s)"
    using n by (simp add: pqueue_print_def pqueue_init_def plain_def Q_def d_def Let_def dr)
  then show ?thesis using print_loop_sorted [OF ok] by (simp add: el)
qed

theorem pqueue_print_sorted_witness:
  "returns demo_queue (\<lambda>(q, ls). returns (pqueue_print q ls) (\<lambda>out. distinct out \<and> set out = {0, 1, 2} \<and>
    sorted (map (victim_line_get_pri ls) out)))"
proof -
  obtain q ls where q: "demo_queue = Some (q, ls)" "victim_queue_ok q ls" "pq_elems q = {0, 1, 2}"
    using demo_queue_ok by (auto elim!: returnsE)
  have c: "cmppri q = (\<lambda>next curr. curr < next)" "getpri q = victim_line_get_pri" "pq_wf q ls"
    using q(2) by (auto simp: victim_queue_ok_def victim_line_cmp_pri_def fun_eq_iff)
  from pqueue_print_sorted [OF c(1,3)] show ?thesis by (simp add: q(1,3) c(2))
qed

end
