(* ===== verification/FEMU_Props.thy ===== *)
theory FEMU_Props
  imports FEMU_Thread FEMU_PQueue_Props
begin

text \<open>
  The properties of FEMU's translation layer: the port is faithful to it, a command beyond the device is not
  caught, and the thread serves the pollers.
\<close>

section \<open>The port\<close>

text \<open>C37. The port behaves as FEMU does: a read within the device, a write that returns and a collection that returns give the
  same latency or result and the same device, apart from the log, in which FEMU's disabled assertions write nothing.\<close>

theorem ported_layer:
  assumes "gc_ready s" and "same_transfer req cmd" and "cmd_lpns s cmd = Some (a, b)" and "unat b < tt s"
  shows "returns (ssd_read cmd (rq_stime req) s) (\<lambda>(lat, s'). femu_ssd_read req (unlogged s) = Some (lat, unlogged s')) \<and>
    (\<forall>lat s'. ssd_write cmd (rq_stime req) s = Some (lat, s') \<longrightarrow>
      femu_ssd_write req (unlogged s) = Some (lat, unlogged s')) \<and>
    (\<forall>force r s'. do_gc force s = Some (r, s') \<longrightarrow> femu_do_gc force (unlogged s) = Some (r, unlogged s'))"
proof -
  have geo: "geo_ok s" using assms(1) by (auto simp: gc_ready_def lines_inv_def)
  note T = tt_int [OF geo]
  have rng: "b < u64_of_int (tt_pgs (ssd_sp s))"
    using assms(4) T(4) by (simp add: T(1) u64_of_int_nat word_le_nat_alt word_nat_less flip: not_le)
  note fit = gc_ready_fit [OF assms(1)]
  have "returns (ssd_read cmd (rq_stime req) s) (\<lambda>(lat, s'). tick s s')" by (rule ssd_read_run [OF assms(1,3,4)])
  then have "returns (ssd_read cmd (rq_stime req) s) (\<lambda>(lat, s'). femu_ssd_read req (unlogged s) = Some (lat, unlogged s'))"
    using ssd_read_port [OF _ fit assms(2,3) rng] by (auto elim!: returnsE)
  then show ?thesis using ssd_write_port [OF _ fit assms(2,3) rng] do_gc_port [OF _ fit] by blast
qed

definition tiny_req :: nvme_request where
  "tiny_req = \<lparr>rq_opcode = NVME_CMD_WRITE, rq_slba = 0, rq_nlb = 16, rq_stime = 5, rq_reqlat = 0, rq_expire_time = 5\<rparr>"

lemma tiny_same: "same_transfer tiny_req (io_cmd op 0 15)"
  by (simp add: same_transfer_def tiny_req_def io_cmd_def rw_slba_def rw_length_def lo16_def)

theorem ported_layer_witness:
  "returns tiny_run (\<lambda>s. returns (do_gc True s) (\<lambda>(r, s'). femu_do_gc True (unlogged s) = Some (r, unlogged s')) \<and>
    returns (femu_ssd_read tiny_req (unlogged s)) (\<lambda>_. True))"
proof -
  obtain s where s: "tiny_run = Some s" "gc_ready s" "ssd_sp s = tiny_sp" "victims s \<noteq> {}" "P_ln s \<le> room s"
    using tiny_run_ok by (auto elim!: returnsE)
  have "unat (1 :: u64) < tt s" by (simp add: tiny_dims(3) [OF s(3)])
  note p = ported_layer [OF s(2) tiny_same [of 1] tiny_lpns(1) [OF s(3)] this]
  obtain r s' where g: "do_gc True s = Some (r, s')" using do_gc_ok [OF s(2,4,5)] by (auto elim!: returnsE)
  show ?thesis using p g by (auto simp: s(1) elim!: returnsE)
qed

text \<open>A read that reaches beyond the device: the port reports it and answers 0, FEMU reports it, goes on and reads outside the
  mapping table.\<close>

lemma femu_read_beyond:
  "length (ssd_maptbl s) \<le> n \<Longrightarrow> n < 2 ^ 64 \<Longrightarrow> n \<in> set ns \<Longrightarrow> foldM (femu_ssd_read_one t) ns (s, m) = None"
proof (induction ns arbitrary: s m)
  case (Cons k ns)
  have mt: "ssd_maptbl s' = ssd_maptbl s" if "femu_ssd_read_one t k (s, m) = Some (s', m')" for s' m'
    using that by (auto simp: femu_ssd_read_one_def advance_status_charge(2) charge_def upd_lun_def cmd_time_def get_ioclock_def
        Let_def split: bind_splits if_splits option.splits prod.splits)
  show ?case
  proof (cases "k = n")
    case True
    then show ?thesis using Cons.prems by (simp add: femu_ssd_read_one_def get_maptbl_ent_def unat_of_nat)
  next
    case False
    show ?thesis
    proof (cases "femu_ssd_read_one t k (s, m)")
      case (Some u)
      obtain s' m' where u: "u = (s', m')" by (cases u)
      have "foldM (femu_ssd_read_one t) ns (s', m') = None"
        by (rule Cons.IH) (use Cons.prems False mt [of s' m'] Some u in auto)
      then show ?thesis using Some u by simp
    qed simp
  qed
qed simp

theorem femu_read_out_of_range:
  assumes "gc_ready s" and "same_transfer req cmd" and "cmd_lpns s cmd = Some (a, b)" and "a \<le> b" and "tt s \<le> unat b"
  shows "femu_ssd_read req (unlogged s) = None \<and>
    ssd_read cmd t s = Some (0, s\<lparr>ssd_klog := ssd_klog s @ [ErrorMsg 827]\<rparr>)"
proof -
  obtain cur where inv: "lines_inv s {} cur 0" and ok: "map_ok s {} {}" using assms(1) by (auto simp: gc_ready_def)
  have geo: "geo_ok s" by (rule lines_invD(1) [OF inv])
  note T = tt_int [OF geo]
  have rng: "u64_of_int (tt_pgs (ssd_sp s)) \<le> b"
    using assms(5) T(4) by (simp add: T(1) u64_of_int_nat word_le_nat_alt unat_of_nat)
  have "unat b < 2 ^ 64" using unsigned_less [of b, where 'a = nat] by simp
  moreover have "unat a \<le> unat b" using assms(4) by (simp add: word_le_nat_alt)
  ultimately have "foldM (femu_ssd_read_one (rq_stime req)) [unat a..<Suc (unat b)] (unlogged s, 0) = None"
    using assms(5) map_ok_len(1) [OF ok] by (intro femu_read_beyond [of _ "unat b"]) auto
  then show ?thesis
    using rng by (simp add: femu_ssd_read_def req_lpns [OF assms(2)] assms(3) ssd_read_def nvmev_error_def del: upt_Suc)
qed

section \<open>The thread\<close>

text \<open>C38. In one round the thread of FEMU serves the oldest waiting request of every poller, one after the other: the
  devices \<open>dev i\<close> from which poller \<open>i\<close> is served start with that of the thread and end with its new one. A write is
  executed by \<^verbatim>\<open>ssd_write\<close>, a read by \<^verbatim>\<open>ssd_read\<close>, a DSM takes no time and leaves the device; then the collection in
  the background runs if it is due. The request is passed on with the latency that the device gave, which is added
  to its time of completion. The other requests of the rings keep their order, requests that are not served and rings of
  other pollers stay as they are, and the device stays ready; rings are queues, a request is in one ring, and requests
  stay within 3981312 pages of the 4194304.\<close>

theorem ftl_thread_round_correct:
  assumes "fifo rg q cap" and "thread_ok K q cap n t" and "disjoint_rings q n t"
  shows "returns (ftl_thread_round rg n t) (\<lambda>t'. thread_ok K q cap n t' \<and> others_kept q n t t' \<and>
    (\<exists>dev. dev 1 = ft_ssd t \<and> dev (n + 1) = ft_ssd t' \<and> (\<forall>i\<in>{1..n}. case waiting q t i of
       [] \<Rightarrow> waiting q t' i = [] \<and> passed q t' i = passed q t i \<and> dev (Suc i) = dev i
     | x # xs \<Rightarrow> waiting q t' i = xs \<and> passed q t' i = passed q t i @ [x] \<and>
         (\<exists>lat s. answered (ft_reqs t x) (dev i) lat s \<and> collected s (dev (Suc i)) \<and>
           ft_reqs t' x = (ft_reqs t x)\<lparr>rq_reqlat := lat, rq_expire_time := rq_expire_time (ft_reqs t x) + lat\<rparr>))))"
  using ftl_thread_round_ok [OF assms]
  unfolding serves_def served_def timed_def Suc_eq_plus1 [symmetric] atLeastLessThanSuc_atLeastAtMost
  by (rule returns_mono) blast

definition list_ring :: "nat list ring_ops" where
  "list_ring = \<lparr>rg_count = length, rg_deq = (\<lambda>r. case r of [] \<Rightarrow> (None, []) | x # xs \<Rightarrow> (Some x, xs)),
     rg_enq = (\<lambda>x r. (True, r @ [x]))\<rparr>"

definition one_waiting :: "ssd \<Rightarrow> nat list ftl_thread_state" where
  "one_waiting s = \<lparr>ft_ssd = s, ft_reqs = (\<lambda>_. tiny_req), ft_to_ftl = (\<lambda>_. Some [7]), ft_to_poller = (\<lambda>_. []),
     ft_req = None, ft_lat = 0\<rparr>"

theorem ftl_thread_round_correct_witness:
  "returns (femu_ssd_init (blank tiny_sp)) (\<lambda>s. returns (ftl_thread_round list_ring 1 (one_waiting s))
    (\<lambda>t'. ft_to_poller t' 1 = [7] \<and> femu_ready 100 (ft_ssd t') \<and>
      (\<exists>lat s'. femu_ssd_write tiny_req s = Some (lat, s') \<and> rq_reqlat (ft_reqs t' 7) = lat)))"
proof -
  obtain s where s: "femu_ssd_init (blank tiny_sp) = Some s" "write_ready s" "mapset s = {}"
    "ssd_sp s = femu_ssd_init_params (ssd_sp (blank tiny_sp))" "ssd_klog s = []"
    using femu_ssd_init_run [of "blank tiny_sp"] by (auto elim!: returnsE simp: blank_def)
  have f: "fifo list_ring id 5" by (simp add: fifo_def list_ring_def)
  have "req_ok 100 tiny_req" by (simp add: req_ok_def tiny_req_def req_last_def u64_of_int_def)
  moreover have "femu_ready 100 s" using s by (auto simp: femu_ready_def)
  ultimately have k: "thread_ok 100 id 5 1 (one_waiting s)"
    by (simp add: thread_ok_def one_waiting_def waiting_def passed_def)
  have "disjoint_rings id 1 (one_waiting s)" by (simp add: disjoint_rings_def)
  from ftl_thread_round_correct [OF f k this]
  have "returns (ftl_thread_round list_ring 1 (one_waiting s)) (\<lambda>t'. thread_ok 100 id 5 1 t' \<and> passed id t' 1 = [7] \<and>
      (\<exists>lat s'. femu_ssd_write tiny_req s = Some (lat, s') \<and> rq_reqlat (ft_reqs t' 7) = lat))"
    by (rule returns_mono)
       (auto simp: waiting_def one_waiting_def passed_def One_nat_def answered_def tiny_req_def cmd_opcodes)
  then show ?thesis by (simp add: s(1)) (auto elim!: returns_mono simp: thread_ok_def passed_def)
qed

end
