(* ===== verification/Spec2Isabelle.thy ===== *)
theory Spec2Isabelle
  imports FTL_Props PQueue_Props IO_Props Line_Queues Layout_Props Roundtrip_Props System Release_Props FEMU_Props
begin

text \<open>
  NVMeVirt with the FEMU translation layer: a kernel module that emulates an NVMe SSD. The host's
  NVMe driver writes commands to submission queues in memory and rings doorbells in a page of a
  virtual PCI device; the module polls the doorbells, charges each command to a model of the NAND
  flash, copies the data between the host's pages and a reserved stretch of memory, and posts a
  completion and an interrupt when the modelled time has come. This development models the code
  in \<^verbatim>\<open>src\<close> function by function and proves what it promises.

  \<^bold>\<open>The parts and how they interact.\<close>
  \<^item> \<^verbatim>\<open>pqueue.c\<close>, \<^verbatim>\<open>pqueue.h\<close>: a binary heap with callbacks. Theories PQueue (operations),
    PQueue_Correct (heap order, under the locale \<^verbatim>\<open>pq_store\<close> for the callbacks), PQueue_Props.
  \<^item> \<^verbatim>\<open>queue.h\<close>: the tail queues of the flash lines. Tailq has the macros as they are written, assignments to the
    links of the elements; Tailq_Props shows each on a represented list; Line_Queues states the contract of a tail queue
    as the locale \<^verbatim>\<open>tail_queue\<close>, interprets it on the macros, and shows that they implement the two lists of lines of FTL.
  \<^item> \<^verbatim>\<open>ftl.h\<close>, \<^verbatim>\<open>ftl.c\<close>: the translation layer. FTL_Types (geometry, pages, blocks, lines, the
    device \<^verbatim>\<open>ssd\<close>), FTL (every function of the file, in its order). FTL_Geo, FTL_Inv, FTL_Lines, FTL_Wp,
    FTL_Media, FTL_Map, FTL_GC, FTL_Safe, FTL_Host prove the device invariant and that every
    operation keeps it; Tiny is a device small enough to evaluate; FTL_Props has the properties.
    \<^verbatim>\<open>pq_store\<close> is interpreted there on the lines of the device.
  \<^item> \<^verbatim>\<open>nvme.h\<close>: NVMe (command, completion, opcodes, status codes), NVMe_Data (their bytes in memory, the
    identify structures). Phys is the physical memory of the host, bytes by 64-bit address, and the storage.
  \<^item> \<^verbatim>\<open>nvmev.h\<close>, \<^verbatim>\<open>pci.h\<close>: NVMeV, the state of the module in the record \<^verbatim>\<open>nvmev_dev\<close>.
  \<^item> \<^verbatim>\<open>io.c\<close>: IO_Table (the request tables), IO (dispatch, data path, completion, workers). IO_Table_Correct,
    IO_Dispatch, IO_Requests (the requests that wait in the tables, as a bag), IO_CQ, IO_Data hold the lemmas; Demo_Device is
    the device on which the witnesses are evaluated; IO_Props, Dispatch_Props, CQ_Props, Data_Props, Worker_Props (a round of
    a worker) and Roundtrip_Props (write, then read) the properties.
  \<^item> \<^verbatim>\<open>admin.c\<close>: Admin, Admin_Correct, Admin_Props. Ring is the interface that admin and I/O completion
    queues share, the locale \<^verbatim>\<open>phase_ring\<close>, interpreted on both.
  \<^item> \<^verbatim>\<open>pci.c\<close>: PCI (configuration space as bytes, controller registers, initialisation), PCI_Props. Layout
    declares the structures of \<^verbatim>\<open>pci.h\<close> and \<^verbatim>\<open>nvme.h\<close> member by member with the layout rules of the compiler;
    Layout_Props checks that the byte offsets used in PCI and the accessors of NVMe are those of the members; these lemmas
    guard the model against slips, they are not counted among its properties.
  \<^item> \<^verbatim>\<open>main.c\<close>: Dispatcher (doorbell loop, module parameters, /proc files, initialisation), Init_Props,
    Doorbell_Props.
  \<^item> The life of the module, across \<^verbatim>\<open>main.c\<close>, \<^verbatim>\<open>io.c\<close>, \<^verbatim>\<open>admin.c\<close>, \<^verbatim>\<open>pci.c\<close>: Release has the memory, mappings, threads and
    /proc files that the functions from NVMeV_init to NVMeV_exit take and give back, the arrays of ssd_init included, as a ledger
    of objects and of the pointers (slots) that hold them; Release_Props shows which pointers stay sound, what a failing start
    leaves behind and what unloading does.
  \<^item> \<^verbatim>\<open>femu\<close>: the files of QEMU from which the translation layer was ported; the Makefile does not build them. FEMU_FTL has the
    functions of \<^verbatim>\<open>femu_ftl.c\<close> whose text differs from \<^verbatim>\<open>ftl.c\<close> and the thread that serves the pollers; FEMU_Port shows, function by function,
    that the port behaves like them; FEMU_Thread and FEMU_Props draw on that. FEMU_PQueue and FEMU_PQueue_Props are the growing and
    the printing of the queue; the locale \<^verbatim>\<open>pq_store\<close> is interpreted on the callbacks of the printing with ghost positions.
  \<^item> System puts the threads together: the step relation \<^verbatim>\<open>sys_step\<close> (the host writes memory, registers and doorbells, the
    dispatcher handles registers, admin commands and doorbells, a worker makes a round, in any order) and the
    invariant of every reachable state.

  \<^bold>\<open>How the model corresponds to the code.\<close> A structure is a record, a union of bit fields a record with its
  conversion to the word, an enumeration a datatype or its constants; \<^verbatim>\<open>u32\<close>, \<^verbatim>\<open>u64\<close> values are words that
  wrap, \<^verbatim>\<open>int\<close> values that the code computes with are integers, cut to 32 bits (\<^verbatim>\<open>wrap32\<close>) where they can leave
  the range. An operation takes the device and returns \<^verbatim>\<open>Some\<close> result and device, or \<^verbatim>\<open>None\<close> where the
  behaviour of the code is undefined: a NULL dereference, an index outside an array, a failed BUG_ON,
  a division by zero, an endless loop. Warnings, errors and failed NVMEV_ASSERTs are entries of a
  log (\<^verbatim>\<open>ssd_klog\<close>, \<^verbatim>\<open>dev_events\<close>) with their line. Loops are folds, structural recursion, a function with a measure,
  or \<^verbatim>\<open>partial_function (option)\<close>, so that not ending is \<^verbatim>\<open>None\<close>; there is no fuel. \<^verbatim>\<open>returns m P\<close> says that
  the operation ends without undefined behaviour in a result that satisfies \<open>P\<close>. The sanity checks that
  the translation layer performs are part of the theorems: the log does not grow.

  \<^bold>\<open>What the lemmas show.\<close> The device invariant (\<^verbatim>\<open>write_ready\<close> in FTL_Safe) ties the mapping, the reverse
  mapping, page states, block and line counters, line lists, victim queue and write pointer together;
  reads, writes and garbage collection keep it, end, and a trace of host commands on an initialised
  device of 2 to 257 GB never fails a check while fewer than 243 of the 256 lines are used.
  The heap operations keep the heap order. A request table represents two disjoint lists (\<^verbatim>\<open>table_rep\<close>), one of them ordered
  by due time; entering and reclaiming refine insertion and removal of a prefix, and a pass of a worker
  completes what is due, oldest first. Completion queues follow the phase protocol. The data path copies exactly the bytes of the
  command. The dispatcher's pass over the doorbells keeps \<^verbatim>\<open>dispatch_inv\<close>, the invariant of translation layer and tables,
  and turns every waiting command into a request in a table. Admin commands are answered in ring order. Accesses to the configuration
  space respect the write masks, and initialisation establishes the invariants.
  Where the code does not do what it means to, a theorem shows the concrete misbehaviour
  (\<^verbatim>\<open>ssd_write_last_page_faults\<close>, \<^verbatim>\<open>fill_cq_result_race\<close>, \<^verbatim>\<open>perform_io_stale_offset\<close>, \<^verbatim>\<open>flush_overwrites_memory\<close>, \<^verbatim>\<open>capability_lists\<close>,
  \<^verbatim>\<open>module_exit_double_free\<close>).

  \<^bold>\<open>Granularity.\<close> Each operation of the dispatcher and each round of a worker is one step on the
  device. Only \<^verbatim>\<open>__fill_cq_result\<close> is split, where it reads the head before it takes the lock; other
  interleavings inside an operation are not modelled, and locks are free when they are tried.

  \<^bold>\<open>Parameters.\<close> What the kernel gives is a parameter: the constants of linux/pci_regs.h (\<^verbatim>\<open>pci_regs\<close>), the memory
  map, the number parser, the APIC identifiers, the devices found by the bus scan, the mapped storage (\<^verbatim>\<open>kernel\<close>),
  the clock (\<^verbatim>\<open>local_clock\<close>, the reading of each call), the uninitialised bytes of a local variable.

  \<^bold>\<open>Not modelled.\<close> Creation, binding and scheduling of threads (only that they start and stop), the text of the
  /proc files, failing allocations, what the PCI core writes to the configuration space while it scans the bus, the lists of queue.h that the module
  does not use (QLIST, QSLIST, QSIMPLEQ, the RAW variants), printing of the queue in pqueue.c (commented out there), the NVMe front end of QEMU in
  \<^verbatim>\<open>femu_nvme-io.c\<close>, \<^verbatim>\<open>femu_bb.c\<close>, \<^verbatim>\<open>femu_dram.c\<close>, whose structures and helpers are declared outside the repository, and the code under PERF_DEBUG and \<^verbatim>\<open>#if 0\<close>.
\<close>

end
